(* ===== verification/Prelude.thy ===== *)
theory Prelude
  imports Complex_Main "HOL-Library.Word" "HOL-Library.AList" "HOL-Library.Multiset"
begin

text \<open>
  Shared vocabulary of the development: the representation of decimal values, the
  outcome of Go calls that may panic, Go's \<open>sort.Search\<close> and \<open>sort.Slice\<close>, and the
  generic lemmas and rule collections that the component theories share.

  \<^item> A \<open>decimal.Decimal\<close> is the rational number it denotes: \<open>Add\<close>, \<open>Sub\<close>, \<open>Mul\<close>, \<open>Neg\<close>,
    \<open>Abs\<close> and the comparisons are exact in that library. The operations that round
    (\<open>Div\<close>, \<open>Round\<close>) are fields of the parameter \<open>declib\<close>; their documented behaviour is
    the predicate \<open>declib_ok\<close>.
  \<^item> A \<open>time.Time\<close> is its number of nanoseconds, a \<open>time.Duration\<close> an \<open>int\<close> of nanoseconds.
  \<^item> An \<open>int64\<close> whose wrap-around is visible is a \<open>64 word\<close>.
\<close>

named_theorems inv_intros "introduction rules of the component invariants"
named_theorems op_simps "characteristic equations of operations"

type_synonym decimal = rat
type_synonym time = int
type_synonym duration = int
type_synonym int64 = "64 word"
type_synonym ('k, 'v) gomap = "('k \<times> 'v) list"

section \<open>Panics\<close>

text \<open>A Go call either returns a value or panics.\<close>

datatype 'a outcome = Returned 'a | Panicked

section \<open>Rounding decimal operations\<close>

record declib =
  dl_div :: "decimal \<Rightarrow> decimal \<Rightarrow> decimal"
  dl_round :: "decimal \<Rightarrow> nat \<Rightarrow> decimal"

text \<open>
  \<open>Div\<close> rounds the quotient to the nearest multiple of \<open>10^-16\<close> (the library's
  \<open>DivisionPrecision\<close>), \<open>Round\<close> to the nearest multiple of \<open>10^-places\<close>.
\<close>

definition near_multiple :: "nat \<Rightarrow> decimal \<Rightarrow> decimal \<Rightarrow> bool" where
  "near_multiple n x r \<longleftrightarrow> (\<exists>k::int. r = of_int k / 10 ^ n) \<and> \<bar>r - x\<bar> \<le> 1 / (2 * 10 ^ n)"

definition declib_ok :: "declib \<Rightarrow> bool" where
  "declib_ok L \<longleftrightarrow>
     (\<forall>a b. b \<noteq> 0 \<longrightarrow> near_multiple 16 (a / b) (dl_div L a b)) \<and>
     (\<forall>a n. near_multiple n a (dl_round L a n))"

text \<open>A concrete library, rounding halves away from zero, to evaluate the model with.\<close>

definition round_half_away :: "nat \<Rightarrow> decimal \<Rightarrow> decimal" where
  "round_half_away n x =
     (if 0 \<le> x then of_int \<lfloor>x * 10 ^ n + 1/2\<rfloor> / 10 ^ n
      else - (of_int \<lfloor>(- x) * 10 ^ n + 1/2\<rfloor> / 10 ^ n))"

lemma round_half_away_eq:
  assumes "0 \<le> x" and "of_int k - 1/2 \<le> x * 10 ^ n" and "x * 10 ^ n < of_int k + 1/2"
  shows "round_half_away n x = of_int k / 10 ^ n"
proof -
  have "\<lfloor>x * 10 ^ n + 1/2\<rfloor> = k" using assms(2,3) by (intro floor_unique) simp_all
  then show ?thesis using assms(1) by (simp add: round_half_away_def)
qed

definition std_declib :: declib where
  "std_declib = \<lparr>dl_div = (\<lambda>a b. round_half_away 16 (a / b)), dl_round = (\<lambda>a n. round_half_away n a)\<rparr>"

lemma floor_half_near:
  fixes y :: rat
  shows "\<bar>of_int \<lfloor>y + 1/2\<rfloor> - y\<bar> \<le> 1/2"
proof -
  have "of_int \<lfloor>y + 1/2\<rfloor> \<le> y + 1/2" and "y + 1/2 < of_int \<lfloor>y + 1/2\<rfloor> + 1"
    using floor_correct [of "y + 1/2"] by auto
  then show ?thesis by (simp only: abs_le_iff) linarith
qed

lemma near_multiple_round_half_away: "near_multiple n x (round_half_away n x)"
proof -
  have pos: "(0::rat) < 10 ^ n" by simp
  have scale: "\<bar>of_int k / 10 ^ n - z\<bar> \<le> 1 / (2 * 10 ^ n)"
    if "\<bar>of_int k - z * 10 ^ n\<bar> \<le> 1/2" for k :: int and z :: rat
  proof -
    have "of_int k / 10 ^ n - z = (of_int k - z * 10 ^ n) / 10 ^ n"
      by (simp add: field_simps)
    then have "\<bar>of_int k / 10 ^ n - z\<bar> = \<bar>of_int k - z * 10 ^ n\<bar> / 10 ^ n"
      by simp
    also have "\<dots> \<le> (1/2) / 10 ^ n"
      using that pos by (intro divide_right_mono) auto
    finally show ?thesis by simp
  qed
  show ?thesis
  proof (cases "0 \<le> x")
    case True
    then show ?thesis
      using scale [OF floor_half_near [of "x * 10 ^ n"]]
      by (auto simp: near_multiple_def round_half_away_def)
  next
    case False
    let ?k = "\<lfloor>(- x) * 10 ^ n + 1/2\<rfloor>"
    have "\<bar>of_int ?k / 10 ^ n - (- x)\<bar> \<le> 1 / (2 * 10 ^ n)"
      by (rule scale [OF floor_half_near])
    moreover have "- (of_int ?k / 10 ^ n) - x = - (of_int ?k / 10 ^ n - (- x))" by simp
    ultimately have "\<bar>- (of_int ?k / 10 ^ n) - x\<bar> \<le> 1 / (2 * 10 ^ n)"
      by (simp only: abs_minus_cancel)
    moreover have "- (of_int ?k / 10 ^ n) = (of_int (- ?k) / 10 ^ n :: rat)" by simp
    moreover have "round_half_away n x = - (of_int ?k / 10 ^ n)"
      using False by (simp add: round_half_away_def)
    ultimately show ?thesis unfolding near_multiple_def by metis
  qed
qed

lemma std_declib_ok: "declib_ok std_declib"
  by (simp add: declib_ok_def std_declib_def near_multiple_round_half_away)

lemma declib_div: "declib_ok L \<Longrightarrow> b \<noteq> 0 \<Longrightarrow> near_multiple 16 (a / b) (dl_div L a b)"
  by (simp add: declib_ok_def)

lemma declib_round: "declib_ok L \<Longrightarrow> near_multiple n a (dl_round L a n)"
  by (simp add: declib_ok_def)

text \<open>Rounding to a multiple never crosses a multiple: zero in particular.\<close>

lemma near_multiple_mono_grid:
  assumes "near_multiple n x r" and "of_int m / 10 ^ n \<le> x"
  shows "of_int m / 10 ^ n \<le> r"
proof -
  obtain k :: int where k: "r = of_int k / 10 ^ n" and d: "\<bar>r - x\<bar> \<le> 1 / (2 * 10 ^ n)"
    using assms(1) by (auto simp: near_multiple_def)
  have pos: "(0::rat) < 10 ^ n" by simp
  have "x - r \<le> 1 / (2 * 10 ^ n)" using d by linarith
  with assms(2) have "(of_int m - of_int k) / 10 ^ n \<le> (1/2 :: rat) / 10 ^ n"
    unfolding k by (simp add: diff_divide_distrib)
  then have "of_int m - of_int k \<le> (1/2 :: rat)"
    using pos by (metis divide_le_cancel order_less_imp_not_less)
  then have "of_int (m - k) < (1::rat)" by simp
  then have "m \<le> k" by linarith
  then show ?thesis unfolding k by (simp add: divide_right_mono)
qed

lemma near_multiple_le_grid:
  assumes "near_multiple n x r" and "x \<le> of_int m / 10 ^ n"
  shows "r \<le> of_int m / 10 ^ n"
proof -
  have "near_multiple n (- x) (- r)"
  proof -
    obtain k :: int where "r = of_int k / 10 ^ n" using assms(1) by (auto simp: near_multiple_def)
    then have "- r = of_int (- k) / 10 ^ n" by simp
    moreover have "\<bar>- r - (- x)\<bar> = \<bar>r - x\<bar>" by simp
    ultimately show ?thesis using assms(1) unfolding near_multiple_def by metis
  qed
  from near_multiple_mono_grid [OF this, of "- m"] assms(2) show ?thesis by simp
qed

lemma near_multiple_nonneg: "near_multiple n x r \<Longrightarrow> 0 \<le> x \<Longrightarrow> 0 \<le> r"
  using near_multiple_mono_grid [of n x r 0] by simp

lemma near_multiple_bounds:
  assumes "near_multiple n x r"
  shows "x - 1 / (2 * 10 ^ n) \<le> r" and "r \<le> x + 1 / (2 * 10 ^ n)"
  using assms by (auto simp: near_multiple_def abs_le_iff)

section \<open>Association lists as Go maps\<close>

text \<open>
  A Go map that the code iterates over is an association list with distinct keys; its
  iteration order is the list's, and no result below depends on it. \<open>m[k] = v\<close> is
  \<open>AList.update k v m\<close>, \<open>delete(m, k)\<close> is \<open>AList.delete k m\<close>.
\<close>

definition map_wf :: "('k, 'v) gomap \<Rightarrow> bool" where
  "map_wf m \<longleftrightarrow> distinct (map fst m)"

lemma map_wf_Nil [simp, inv_intros]: "map_wf []"
  by (simp add: map_wf_def)

lemma map_wf_update [simp, inv_intros]: "map_wf m \<Longrightarrow> map_wf (AList.update k v m)"
  by (simp add: map_wf_def distinct_update)

lemma map_wf_delete [simp, inv_intros]: "map_wf m \<Longrightarrow> map_wf (AList.delete k m)"
  by (simp add: map_wf_def distinct_delete)

lemma map_of_update [simp]: "map_of (AList.update k v m) = (map_of m)(k \<mapsto> v)"
  by (simp add: update_conv')

lemma map_of_delete [simp]: "map_of (AList.delete k m) = (map_of m)(k := None)"
  by (simp add: delete_conv')

lemma gomap_empty_iff: "m = [] \<longleftrightarrow> (\<forall>k. map_of m k = None)"
  by (cases m) (auto simp: fun_eq_iff split: if_splits)

section \<open>sort.Search: binary search\<close>

text \<open>
  Go's loop \<open>for i < j { h := (i+j)/2; if !f(h) { i = h+1 } else { j = h } }\<close>.
\<close>

function search_loop :: "(nat \<Rightarrow> bool) \<Rightarrow> nat \<Rightarrow> nat \<Rightarrow> nat" where
  "search_loop f i j =
     (if i < j then
        let h = (i + j) div 2 in
        if \<not> f h then search_loop f (h + 1) j else search_loop f i h
      else i)"
  by pat_completeness auto
termination
  by (relation "measure (\<lambda>(f, i, j). j - i)") auto

declare search_loop.simps [simp del]

definition sort_search :: "nat \<Rightarrow> (nat \<Rightarrow> bool) \<Rightarrow> nat" where
  "sort_search n f = search_loop f 0 n"

lemma search_loop_spec:
  assumes "i \<le> j" and mono: "\<And>a b. a \<le> b \<Longrightarrow> b < n \<Longrightarrow> f a \<Longrightarrow> f b" and "j \<le> n"
    and "\<And>k. k < i \<Longrightarrow> \<not> f k" and "\<And>k. j \<le> k \<Longrightarrow> k < n \<Longrightarrow> f k"
  shows "search_loop f i j \<le> n \<and> (\<forall>k < search_loop f i j. \<not> f k) \<and>
    (\<forall>k. search_loop f i j \<le> k \<and> k < n \<longrightarrow> f k)"
  using assms(1,3,4,5)
proof (induction "j - i" arbitrary: i j rule: less_induct)
  case less
  show ?case
  proof (cases "i < j")
    case False
    with less.prems(1) have "i = j" by simp
    moreover have "search_loop f j j = j" by (simp add: search_loop.simps [of f j j])
    ultimately show ?thesis using less.prems by auto
  next
    case True
    define h where "h = (i + j) div 2"
    have h: "i \<le> h" "h < j" using True by (auto simp: h_def)
    show ?thesis
    proof (cases "f h")
      case False
      have eq: "search_loop f i j = search_loop f (h + 1) j"
        using True False by (simp add: search_loop.simps [of f i j] h_def Let_def)
      have "\<not> f k" if "k < h + 1" for k
        using mono [of k h] False h less.prems(2) that by (cases "k = h") auto
      then show ?thesis
        unfolding eq using h less.prems(2,4) by (intro less.hyps) auto
    next
      case fh: True
      have eq: "search_loop f i j = search_loop f i h"
        using True fh by (simp add: search_loop.simps [of f i j] h_def Let_def)
      have "f k" if "h \<le> k" "k < n" for k
        using mono [of h k] fh that by auto
      then show ?thesis
        unfolding eq using h less.prems(2,3) by (intro less.hyps) auto
    qed
  qed
qed

text \<open>On a predicate that once true stays true, the search finds the first index.\<close>

lemma sort_search_spec:
  assumes "\<And>a b. a \<le> b \<Longrightarrow> b < n \<Longrightarrow> f a \<Longrightarrow> f b"
  shows "sort_search n f \<le> n" and "\<And>k. k < sort_search n f \<Longrightarrow> \<not> f k"
    and "\<And>k. sort_search n f \<le> k \<Longrightarrow> k < n \<Longrightarrow> f k"
  using search_loop_spec [of 0 n n f] assms by (auto simp: sort_search_def)

section \<open>sort.Slice\<close>

text \<open>
  \<open>sort.Slice\<close> is not stable: any permutation without an inversion may come back, so
  the sorting function is a parameter of the definitions that call it.
\<close>

type_synonym 'a slice_sort = "('a \<Rightarrow> 'a \<Rightarrow> bool) \<Rightarrow> 'a list \<Rightarrow> 'a list"

definition key_less :: "('a \<Rightarrow> decimal) \<Rightarrow> 'a \<Rightarrow> 'a \<Rightarrow> bool" where
  "key_less k a b \<longleftrightarrow> k a < k b"

definition key_greater :: "('a \<Rightarrow> decimal) \<Rightarrow> 'a \<Rightarrow> 'a \<Rightarrow> bool" where
  "key_greater k a b \<longleftrightarrow> k a > k b"

definition slice_sort_ok :: "'a slice_sort \<Rightarrow> ('a \<Rightarrow> 'a \<Rightarrow> bool) \<Rightarrow> bool" where
  "slice_sort_ok srt lt \<longleftrightarrow>
     (\<forall>xs. mset (srt lt xs) = mset xs \<and> sorted_wrt (\<lambda>a b. \<not> lt b a) (srt lt xs))"

fun insert_by :: "('a \<Rightarrow> 'a \<Rightarrow> bool) \<Rightarrow> 'a \<Rightarrow> 'a list \<Rightarrow> 'a list" where
  "insert_by lt x [] = [x]"
| "insert_by lt x (y # ys) = (if lt y x then y # insert_by lt x ys else x # y # ys)"

definition isort :: "'a slice_sort" where
  "isort lt xs = foldr (insert_by lt) xs []"

lemma mset_insert_by: "mset (insert_by lt x ys) = add_mset x (mset ys)"
  by (induction ys) auto

lemma sorted_insert_by:
  assumes "\<And>a b. lt a b \<Longrightarrow> \<not> lt b a" and "\<And>a b c. \<not> lt b a \<Longrightarrow> \<not> lt c b \<Longrightarrow> \<not> lt c a"
    and "sorted_wrt (\<lambda>a b. \<not> lt b a) ys"
  shows "sorted_wrt (\<lambda>a b. \<not> lt b a) (insert_by lt x ys)"
  using assms(3)
proof (induction ys)
  case (Cons y ys)
  have set: "set (insert_by lt x zs) = insert x (set zs)" for zs
    using arg_cong [OF mset_insert_by, of set_mset lt x zs] by simp
  have tl: "\<forall>z \<in> set ys. \<not> lt z y" "sorted_wrt (\<lambda>a b. \<not> lt b a) ys"
    using Cons.prems by auto
  show ?case
  proof (cases "lt y x")
    case True
    with tl Cons.IH assms(1) show ?thesis by (auto simp: set)
  next
    case False
    with tl have "\<not> lt z x" if "z \<in> set ys" for z
      using assms(2) [of y x z] that by blast
    with tl False show ?thesis by auto
  qed
qed simp

lemma isort_ok:
  assumes "\<And>a b. lt a b \<Longrightarrow> \<not> lt b a" and "\<And>a b c. \<not> lt b a \<Longrightarrow> \<not> lt c b \<Longrightarrow> \<not> lt c a"
  shows "slice_sort_ok isort lt"
proof -
  have "mset (foldr (insert_by lt) xs []) = mset xs \<and>
      sorted_wrt (\<lambda>a b. \<not> lt b a) (foldr (insert_by lt) xs [])" for xs
  proof (induction xs)
    case (Cons x xs)
    then show ?case using sorted_insert_by [of lt _ x, OF assms] by (simp add: mset_insert_by)
  qed simp
  then show ?thesis by (simp add: slice_sort_ok_def isort_def)
qed

lemma isort_key_less: "slice_sort_ok isort (key_less k)"
  by (rule isort_ok) (auto simp: key_less_def)

lemma isort_key_greater: "slice_sort_ok isort (key_greater k)"
  by (rule isort_ok) (auto simp: key_greater_def)

section \<open>Lists\<close>

lemma sorted_wrt_nth_mono:
  "sorted_wrt P xs \<Longrightarrow> i < j \<Longrightarrow> j < length xs \<Longrightarrow> P (xs ! i) (xs ! j)"
  by (simp add: sorted_wrt_nth_less)

lemma id_take_nth_drop_upd:
  "i < length xs \<Longrightarrow> xs[i := x] = take i xs @ x # drop (Suc i) xs"
  by (rule upd_conv_take_nth_drop)

end
