(* ===== verification/Models.thy ===== *)
theory Models
  imports Prelude
begin

text \<open>
  The data model of \<open>src/pkg/models\<close>: the enumerations with their \<open>String\<close> methods, the
  records that the components exchange, the instrument rules with base-10 rounding to a
  step, and the identities of the durable recovery path (\<open>recovery.go\<close>).

  A Go enumeration is an \<open>int\<close>; where the code has a \<open>default\<close> branch for values that are
  none of the named ones, the datatype has a last constructor for them. Strings are byte
  strings; \<open>strings.TrimSpace\<close> and \<open>strings.ToUpper\<close> are modelled on ASCII, which is what
  exchange symbols and identifiers consist of. \<open>sha256\<close> (as lower-case hexadecimal text)
  and \<open>decimal.String\<close> are parameters.
\<close>

section \<open>Enumerations\<close>

datatype Side = SideBuy | SideSell | SideOther int

fun Side_String :: "Side \<Rightarrow> string" where
  "Side_String SideBuy = ''BUY''"
| "Side_String SideSell = ''SELL''"
| "Side_String (SideOther _) = ''UNKNOWN''"

datatype OrderType = OrderTypeLimit | OrderTypeMarket | OrderTypePostOnly | OrderTypeOther int

fun OrderType_String :: "OrderType \<Rightarrow> string" where
  "OrderType_String OrderTypeLimit = ''LIMIT''"
| "OrderType_String OrderTypeMarket = ''MARKET''"
| "OrderType_String OrderTypePostOnly = ''POST_ONLY''"
| "OrderType_String (OrderTypeOther _) = ''UNKNOWN''"

datatype OrderStatus =
    OrderStatusPending | OrderStatusSubmitted | OrderStatusOpen | OrderStatusPartiallyFilled
  | OrderStatusFilled | OrderStatusCancelled | OrderStatusRejected | OrderStatusExpired
  | OrderStatusError | OrderStatusOther int

fun OrderStatus_String :: "OrderStatus \<Rightarrow> string" where
  "OrderStatus_String OrderStatusPending = ''PENDING''"
| "OrderStatus_String OrderStatusSubmitted = ''SUBMITTED''"
| "OrderStatus_String OrderStatusOpen = ''OPEN''"
| "OrderStatus_String OrderStatusPartiallyFilled = ''PARTIALLY_FILLED''"
| "OrderStatus_String OrderStatusFilled = ''FILLED''"
| "OrderStatus_String OrderStatusCancelled = ''CANCELLED''"
| "OrderStatus_String OrderStatusRejected = ''REJECTED''"
| "OrderStatus_String OrderStatusExpired = ''EXPIRED''"
| "OrderStatus_String OrderStatusError = ''ERROR''"
| "OrderStatus_String (OrderStatusOther _) = ''UNKNOWN''"

datatype GridType = GridTypeArithmetic | GridTypeGeometric | GridTypeOther int

fun GridType_String :: "GridType \<Rightarrow> string" where
  "GridType_String GridTypeArithmetic = ''ARITHMETIC''"
| "GridType_String GridTypeGeometric = ''GEOMETRIC''"
| "GridType_String (GridTypeOther _) = ''UNKNOWN''"

datatype DriftDirection = DriftNone | DriftUp | DriftDown

fun DriftDirection_String :: "DriftDirection \<Rightarrow> string" where
  "DriftDirection_String DriftUp = ''UP''"
| "DriftDirection_String DriftDown = ''DOWN''"
| "DriftDirection_String DriftNone = ''NONE''"

datatype MAType = MATypeSMA | MATypeEMA | MATypeVWAP | MATypeOther int

fun MAType_String :: "MAType \<Rightarrow> string" where
  "MAType_String MATypeSMA = ''SMA''"
| "MAType_String MATypeEMA = ''EMA''"
| "MAType_String MATypeVWAP = ''VWAP''"
| "MAType_String (MATypeOther _) = ''UNKNOWN''"

datatype SignalDirection =
    SignalDirectionNone | SignalDirectionBuy | SignalDirectionSell | SignalDirectionClose

fun SignalDirection_String :: "SignalDirection \<Rightarrow> string" where
  "SignalDirection_String SignalDirectionNone = ''NONE''"
| "SignalDirection_String SignalDirectionBuy = ''BUY''"
| "SignalDirection_String SignalDirectionSell = ''SELL''"
| "SignalDirection_String SignalDirectionClose = ''CLOSE''"

datatype EventType =
    EventMarketData | EventOrderUpdate | EventFill | EventDataInvalid | EventDataStale
  | EventRiskBreach | EventEmergencyStop

section \<open>Orders, positions, market events\<close>

record Order =
  o_OrderId :: string
  o_ClientOrderID :: string
  o_ExchangeOrderId :: string
  o_Symbol :: string
  o_Side :: Side
  o_OrderType :: OrderType
  o_Price :: decimal
  o_Quantity :: decimal
  o_FilledQuantity :: decimal
  o_AvgFillPrice :: decimal
  o_Status :: OrderStatus
  o_StrategyId :: string
  o_CreateTime :: int
  o_UpdateTime :: int

text \<open>Go's zero value of \<open>Order\<close>, the start of every composite literal.\<close>

definition zero_Order :: Order where
  "zero_Order = \<lparr>o_OrderId = [], o_ClientOrderID = [], o_ExchangeOrderId = [], o_Symbol = [],
     o_Side = SideBuy, o_OrderType = OrderTypeLimit, o_Price = 0, o_Quantity = 0,
     o_FilledQuantity = 0, o_AvgFillPrice = 0, o_Status = OrderStatusPending,
     o_StrategyId = [], o_CreateTime = 0, o_UpdateTime = 0\<rparr>"

record Position =
  pos_Symbol :: string
  pos_Side :: Side
  pos_Quantity :: decimal
  pos_AvgEntryPrice :: decimal
  pos_UnrealizedPnL :: decimal
  pos_RealizedPnL :: decimal
  pos_LastUpdateTime :: int

record TickData =
  td_Symbol :: string
  td_Timestamp :: int
  td_LastPrice :: decimal
  td_BestBid :: decimal
  td_BestAsk :: decimal
  td_BidSize :: decimal
  td_AskSize :: decimal
  td_Volume24h :: decimal
  td_SequenceId :: int64

record MarketEvent =
  me_Symbol :: string
  me_Timestamp :: time
  me_LastPrice :: decimal
  me_BestBid :: decimal
  me_BestAsk :: decimal
  me_BidSize :: decimal
  me_AskSize :: decimal
  me_Volume24h :: decimal
  me_SeqID :: int64

record FillEvent =
  fe_OrderID :: string
  fe_ClientOrderID :: string
  fe_ExchangeOrderID :: string
  fe_ExchangeFillID :: string
  fe_Symbol :: string
  fe_Side :: Side
  fe_Price :: decimal
  fe_Quantity :: decimal
  fe_CumulativeQuantity :: decimal
  fe_Fee :: decimal
  fe_FeeCurrency :: string
  fe_Timestamp :: time
  fe_StrategyID :: string
  fe_GridLevel :: int
  fe_IsMaker :: bool

record OrderUpdateEvent =
  ou_OrderID :: string
  ou_ExchangeOrderID :: string
  ou_Symbol :: string
  ou_Side :: Side
  ou_OrderType :: OrderType
  ou_Price :: decimal
  ou_Quantity :: decimal
  ou_FilledQty :: decimal
  ou_AvgFillPrice :: decimal
  ou_Status :: OrderStatus
  ou_RejectReason :: string
  ou_Timestamp :: time
  ou_StrategyID :: string

section \<open>Configurations\<close>

record DriftConfig =
  dc_Enabled :: bool
  dc_DriftThreshold :: decimal
  dc_DriftStep :: int
  dc_CooldownPeriod :: duration
  dc_MaxDrifts :: int

record GridConfig =
  gc_Symbol :: string
  gc_UpperPrice :: decimal
  gc_LowerPrice :: decimal
  gc_GridCount :: int
  gc_GridType :: GridType
  gc_OrderSize :: decimal
  gc_MaxPosition :: decimal
  gc_FeeRate :: decimal
  gc_TakeProfitRatio :: decimal
  gc_StopLossRatio :: decimal
  gc_ReinvestProfit :: bool
  gc_Drift :: "DriftConfig option"

record GridLevel =
  gl_Index :: int
  gl_Price :: decimal
  gl_HasBuyOrder :: bool
  gl_HasSellOrder :: bool
  gl_OrderId :: string

record DriftEvent =
  de_Timestamp :: time
  de_Direction :: DriftDirection
  de_TriggerReason :: string
  de_TriggerPrice :: decimal
  de_OldLower :: decimal
  de_OldUpper :: decimal
  de_NewLower :: decimal
  de_NewUpper :: decimal
  de_OrdersCancelled :: int
  de_OrdersPlaced :: int
  de_OrdersFailed :: int
  de_ElapsedMs :: int
  de_Success :: bool
  de_AbortReason :: string

record MeanReversionConfig =
  mc_Symbol :: string
  mc_LookbackPeriod :: int
  mc_EntryThreshold :: decimal
  mc_ExitThreshold :: decimal
  mc_MAType :: MAType
  mc_OrderSize :: decimal
  mc_MaxPosition :: decimal
  mc_CooldownMs :: int

record RiskLimits =
  rl_MaxPositionPerSymbol :: decimal
  rl_MaxTotalPosition :: decimal
  rl_MaxDailyLoss :: decimal
  rl_MaxStrategyLoss :: decimal
  rl_MaxOrdersPerSecond :: int
  rl_MaxOpenOrders :: int
  rl_MinSpreadBps :: int
  rl_EmergencyStopLoss :: decimal

section \<open>Instrument rules\<close>

record InstrumentRules =
  ir_Symbol :: string
  ir_TickSize :: decimal
  ir_LotSize :: decimal
  ir_MinSize :: decimal
  ir_MinNotional :: decimal
  ir_FetchedAt :: time
  ir_ExpiresAt :: time

datatype instrument_error = ErrInstrumentRulesExpired | ErrInstrumentRulesInvalid

text \<open>\<open>None\<close> is Go's \<open>nil\<close> error.\<close>

definition InstrumentRules_Valid :: "InstrumentRules \<Rightarrow> time \<Rightarrow> instrument_error option" where
  "InstrumentRules_Valid r now =
     (if ir_Symbol r = [] then Some ErrInstrumentRulesInvalid
      else if \<not> (0 < ir_TickSize r) \<or> \<not> (0 < ir_LotSize r) \<or> \<not> (0 < ir_MinSize r)
      then Some ErrInstrumentRulesInvalid
      else if ir_ExpiresAt r < now then Some ErrInstrumentRulesExpired
      else None)"

definition FloorToMultiple :: "declib \<Rightarrow> decimal \<Rightarrow> decimal \<Rightarrow> decimal" where
  "FloorToMultiple L v step =
     (if \<not> (0 < step) then v else of_int \<lfloor>dl_div L v step\<rfloor> * step)"

definition CeilToMultiple :: "declib \<Rightarrow> decimal \<Rightarrow> decimal \<Rightarrow> decimal" where
  "CeilToMultiple L v step =
     (if \<not> (0 < step) then v else of_int \<lceil>dl_div L v step\<rceil> * step)"

text \<open>\<open>v.Mod(step)\<close> is \<open>v\<close> less the truncated quotient times \<open>step\<close>: zero iff \<open>v\<close> is a multiple.\<close>

definition dec_mod :: "decimal \<Rightarrow> decimal \<Rightarrow> decimal" where
  "dec_mod v step = v - step * of_int (if 0 \<le> v / step then \<lfloor>v / step\<rfloor> else \<lceil>v / step\<rceil>)"

definition IsExactMultiple :: "decimal \<Rightarrow> decimal \<Rightarrow> bool" where
  "IsExactMultiple v step = (if \<not> (0 < step) then False else dec_mod v step = 0)"

section \<open>Durable recovery records\<close>

datatype FillSource = FillSourcePrivateWS | FillSourceReconciliation | FillSourceReplay
  | FillSourceOther string

datatype FillEligibility = FillEligible | FillIneligible | FillEligibilityOther string

datatype IntentStatus =
    IntentPending | IntentDispatching | IntentUncertain | IntentConfirmed
  | IntentSafeFailureTerminal

datatype OutboxStatus =
    OutboxPending | OutboxLeased | OutboxUncertain | OutboxCompleted | OutboxFailed

datatype FailureClass =
    FailureNone | FailureUncertainTransport | FailureRetryableTransient
  | FailureDefinitiveReject | FailureAuthAccountUncertain | FailureUnknownTerminal
  | FailureInitiationDeadline | FailureCriticalCommit | FailurePersistenceWrite

datatype SafeStopScope = SafeStopNone | SafeStopSymbol | SafeStopGlobal

datatype RebalanceTerminalOutcome =
    RebalanceReplaced | RebalanceFilled | RebalanceAlreadyCancelled | RebalanceKeptByRule
  | RebalanceFailedSafe

definition CounterOrderInitiationSLO :: duration where
  "CounterOrderInitiationSLO = 5 * 1000000000"

definition CounterOrderTerminalSLO :: duration where
  "CounterOrderTerminalSLO = 15 * 1000000000"

text \<open>The zero \<open>time.Time\<close> is a fixed instant; \<open>IsZero\<close> compares with it.\<close>

definition zero_time :: time where
  "zero_time = - 62135596800 * 1000000000"

record FillObservation =
  fo_Symbol :: string
  fo_ClientOrderID :: string
  fo_ExchangeOrderID :: string
  fo_ExchangeFillID :: string
  fo_Side :: Side
  fo_CumulativeQuantity :: decimal
  fo_FillPrice :: decimal
  fo_Fee :: decimal
  fo_Source :: FillSource
  fo_ExchangeTimestamp :: time
  fo_ObservedAt :: time
  fo_StrategyID :: string
  fo_GridLevel :: int

record CounterOrderPlan =
  cp_Eligibility :: FillEligibility
  cp_Price :: decimal
  cp_Purpose :: string
  cp_IneligibleReason :: string

record FillLedgerRecord =
  fl_FillKey :: string
  fl_Symbol :: string
  fl_ExchangeOrderID :: string
  fl_ExchangeFillID :: string
  fl_Side :: Side
  fl_CumulativeQuantity :: decimal
  fl_DeltaQuantity :: decimal
  fl_FillPrice :: decimal
  fl_Fee :: decimal
  fl_Source :: FillSource
  fl_ExchangeTimestamp :: time
  fl_ObservedAt :: time
  fl_Eligibility :: FillEligibility
  fl_IneligibleReason :: string

record OrderFillWatermark =
  wm_Symbol :: string
  wm_ExchangeOrderID :: string
  wm_ProcessedCumulativeQuantity :: decimal
  wm_UpdatedAt :: time

record GridStateRecord =
  gs_Symbol :: string
  gs_StrategyID :: string
  gs_Position :: decimal
  gs_AvgEntryPrice :: decimal
  gs_RealizedPnL :: decimal
  gs_TotalBuys :: int
  gs_TotalSells :: int
  gs_UpdatedAt :: time

record CounterOrderIntent =
  ci_IntentID :: string
  ci_FillKey :: string
  ci_Symbol :: string
  ci_Side :: Side
  ci_Price :: decimal
  ci_Quantity :: decimal
  ci_Purpose :: string
  ci_DeterministicClientOrderID :: string
  ci_ObservedAt :: time
  ci_InitiationDeadline :: time
  ci_TerminalDeadline :: time
  ci_InitiatedAt :: time
  ci_TerminalAt :: time
  ci_Status :: IntentStatus
  ci_Attempts :: int
  ci_ExchangeOrderID :: string
  ci_FinalErrorClass :: FailureClass
  ci_FinalSCode :: string
  ci_FinalSMsg :: string

record OutboxRecord =
  ob_OutboxID :: string
  ob_IntentID :: string
  ob_Status :: OutboxStatus
  ob_LeaseOwner :: string
  ob_LeaseUntil :: time
  ob_NextAttemptAt :: time
  ob_AttemptCount :: int
  ob_LastErrorClass :: FailureClass
  ob_CreatedAt :: time
  ob_UpdatedAt :: time

record BotOrderLineage =
  bl_ClientOrderID :: string
  bl_ExchangeOrderID :: string
  bl_Symbol :: string
  bl_StrategyID :: string
  bl_Purpose :: string
  bl_ParentOrderID :: string
  bl_IntentID :: string
  bl_Side :: Side
  bl_State :: OrderStatus
  bl_CumulativeFillQty :: decimal
  bl_CreatedAt :: time
  bl_UpdatedAt :: time

record ReconciliationWatermark =
  rw_Symbol :: string
  rw_Stream :: string
  rw_ExchangeAt :: time
  rw_StableID :: string
  rw_CompletedAt :: time

record RebalanceOutcomeRecord =
  ro_RunID :: string
  ro_Symbol :: string
  ro_OldClientOrderID :: string
  ro_OldExchangeOrderID :: string
  ro_ReferencePrice :: decimal
  ro_ReferenceAge :: duration
  ro_Deviation :: decimal
  ro_TerminalOutcome :: RebalanceTerminalOutcome
  ro_ReplacementClientOrderID :: string
  ro_ErrorClass :: FailureClass
  ro_RecordedAt :: time

record FillApplyResult =
  fr_Duplicate :: bool
  fr_OutOfOrder :: bool
  fr_Delta :: decimal
  fr_Ledger :: "FillLedgerRecord option"
  fr_GridState :: "GridStateRecord option"
  fr_Intent :: "CounterOrderIntent option"
  fr_Outbox :: "OutboxRecord option"

record OrderEffect =
  oe_Found :: bool
  oe_ExchangeOrderID :: string
  oe_ClientOrderID :: string
  oe_Status :: OrderStatus
  oe_SCode :: string
  oe_SMsg :: string

definition ExchangeConfirmed :: "OrderEffect \<Rightarrow> bool" where
  "ExchangeConfirmed e =
     (if \<not> oe_Found e then False
      else case oe_Status e of
        OrderStatusSubmitted \<Rightarrow> True | OrderStatusOpen \<Rightarrow> True
      | OrderStatusPartiallyFilled \<Rightarrow> True | OrderStatusFilled \<Rightarrow> True | _ \<Rightarrow> False)"

end
