(* ===== verification/OrderBook.thy ===== *)
theory OrderBook
  imports Models
begin

text \<open>
  The local order book (\<open>src/internal/orderbook/orderbook.go\<close>) and its anomaly detector
  (\<open>anomaly.go\<close>). Each exported method holds the mutex for its whole body, so a method is
  one function on the state; the detector's methods take and release locks between steps
  and are modelled for a caller that is not interleaved with another writer.

  A book side is a list kept in priority order by binary search. The two update routines
  (bids descending, asks ascending) provide the same contract, the locale \<open>book_side\<close>;
  everything about a book is proved from the contract.
\<close>

section \<open>State\<close>

record PriceLevel =
  pl_Price :: decimal
  pl_Quantity :: decimal

record OrderBookSnapshot =
  ss_Symbol :: string
  ss_Bids :: "PriceLevel list"
  ss_Asks :: "PriceLevel list"
  ss_SequenceID :: int64
  ss_Timestamp :: int

record OrderBookDelta =
  dl_Symbol :: string
  dl_Bids :: "PriceLevel list"
  dl_Asks :: "PriceLevel list"
  dl_SequenceID :: int64
  dl_Timestamp :: int

record symbolBook =
  sb_bids :: "PriceLevel list"
  sb_asks :: "PriceLevel list"
  sb_sequenceID :: int64
  sb_resyncing :: bool

record LocalOrderBook =
  lob_books :: "string \<Rightarrow> symbolBook option"
  lob_ResyncCh :: "string list"

datatype ob_error =
    SnapshotNil
  | DeltaNil
  | NoExistingBook string
  | Resyncing string
  | SequenceGap string int64 int64
  | NoBids string
  | NoAsks string
  | NoOrderBook string
  | InsufficientDepth string nat nat
  | InvalidSide Side
  | NoLiquidity Side string
  | InsufficientLiquidity string Side decimal decimal

definition NewLocalOrderBook :: LocalOrderBook where
  "NewLocalOrderBook = \<lparr>lob_books = (\<lambda>_. None), lob_ResyncCh = []\<rparr>"

definition resync_capacity :: nat where
  "resync_capacity = 100"

definition empty_book :: symbolBook where
  "empty_book = \<lparr>sb_bids = [], sb_asks = [], sb_sequenceID = 0, sb_resyncing = False\<rparr>"

definition getOrCreateBook :: "LocalOrderBook \<Rightarrow> string \<Rightarrow> symbolBook" where
  "getOrCreateBook ob symbol =
     (case lob_books ob symbol of None \<Rightarrow> empty_book | Some book \<Rightarrow> book)"

section \<open>Updating a side\<close>

text \<open>The common body of the two update routines, after the search.\<close>

definition splice_level :: "nat \<Rightarrow> PriceLevel list \<Rightarrow> PriceLevel \<Rightarrow> PriceLevel list" where
  "splice_level idx levels update =
     (if idx < length levels \<and> pl_Price (levels ! idx) = pl_Price update
      then
        (if pl_Quantity update = 0 then take idx levels @ drop (idx + 1) levels
         else levels[idx := (levels ! idx)\<lparr>pl_Quantity := pl_Quantity update\<rparr>])
      else
        (if pl_Quantity update \<noteq> 0 then take idx levels @ update # drop idx levels
         else levels))"

definition applyDeltaDescending :: "PriceLevel list \<Rightarrow> PriceLevel \<Rightarrow> PriceLevel list" where
  "applyDeltaDescending levels update =
     splice_level
       (sort_search (length levels) (\<lambda>i. pl_Price (levels ! i) \<le> pl_Price update))
       levels update"

definition applyDeltaAscending :: "PriceLevel list \<Rightarrow> PriceLevel \<Rightarrow> PriceLevel list" where
  "applyDeltaAscending levels update =
     splice_level
       (sort_search (length levels) (\<lambda>i. pl_Price (levels ! i) \<ge> pl_Price update))
       levels update"

section \<open>Operations\<close>

definition requestResyncLocked :: "string \<Rightarrow> LocalOrderBook \<Rightarrow> LocalOrderBook" where
  "requestResyncLocked symbol ob =
     (let book = getOrCreateBook ob symbol;
          book' = book\<lparr>sb_bids := [], sb_asks := [], sb_resyncing := True\<rparr>;
          ch = lob_ResyncCh ob
      in ob\<lparr>lob_books := (lob_books ob)(symbol \<mapsto> book'),
            lob_ResyncCh := (if length ch < resync_capacity then ch @ [symbol] else ch)\<rparr>)"

definition UpdateFromSnapshot ::
  "PriceLevel slice_sort \<Rightarrow> string \<Rightarrow> OrderBookSnapshot option \<Rightarrow> LocalOrderBook \<Rightarrow>
    LocalOrderBook \<times> ob_error option" where
  "UpdateFromSnapshot srt symbol snapshot ob =
     (case snapshot of
        None \<Rightarrow> (ob, Some SnapshotNil)
      | Some s \<Rightarrow>
          let book = getOrCreateBook ob symbol;
              book' = book\<lparr>sb_bids := srt (key_greater pl_Price) (ss_Bids s),
                           sb_asks := srt (key_less pl_Price) (ss_Asks s),
                           sb_sequenceID := ss_SequenceID s,
                           sb_resyncing := False\<rparr>
          in (ob\<lparr>lob_books := (lob_books ob)(symbol \<mapsto> book')\<rparr>, None))"

definition UpdateIncremental ::
  "string \<Rightarrow> OrderBookDelta option \<Rightarrow> LocalOrderBook \<Rightarrow> LocalOrderBook \<times> ob_error option" where
  "UpdateIncremental symbol delta ob =
     (case delta of
        None \<Rightarrow> (ob, Some DeltaNil)
      | Some d \<Rightarrow>
          (case lob_books ob symbol of
             None \<Rightarrow> (requestResyncLocked symbol ob, Some (NoExistingBook symbol))
           | Some book \<Rightarrow>
               if sb_resyncing book then (ob, Some (Resyncing symbol))
               else
                 let expectedSeq = sb_sequenceID book + 1 in
                 if dl_SequenceID d \<noteq> expectedSeq
                 then (requestResyncLocked symbol ob,
                       Some (SequenceGap symbol expectedSeq (dl_SequenceID d)))
                 else
                   let book' = book\<lparr>
                         sb_bids := foldl applyDeltaDescending (sb_bids book) (dl_Bids d),
                         sb_asks := foldl applyDeltaAscending (sb_asks book) (dl_Asks d),
                         sb_sequenceID := dl_SequenceID d\<rparr>
                   in (ob\<lparr>lob_books := (lob_books ob)(symbol \<mapsto> book')\<rparr>, None)))"

definition RequestResync :: "string \<Rightarrow> LocalOrderBook \<Rightarrow> LocalOrderBook" where
  "RequestResync symbol ob = requestResyncLocked symbol ob"

definition GetBestBid :: "LocalOrderBook \<Rightarrow> string \<Rightarrow> ob_error + PriceLevel" where
  "GetBestBid ob symbol =
     (case lob_books ob symbol of
        None \<Rightarrow> Inl (NoBids symbol)
      | Some book \<Rightarrow>
          (case sb_bids book of [] \<Rightarrow> Inl (NoBids symbol) | l # _ \<Rightarrow> Inr l))"

definition GetBestAsk :: "LocalOrderBook \<Rightarrow> string \<Rightarrow> ob_error + PriceLevel" where
  "GetBestAsk ob symbol =
     (case lob_books ob symbol of
        None \<Rightarrow> Inl (NoAsks symbol)
      | Some book \<Rightarrow>
          (case sb_asks book of [] \<Rightarrow> Inl (NoAsks symbol) | l # _ \<Rightarrow> Inr l))"

definition GetMidPrice :: "declib \<Rightarrow> LocalOrderBook \<Rightarrow> string \<Rightarrow> ob_error + decimal" where
  "GetMidPrice L ob symbol =
     (case lob_books ob symbol of
        None \<Rightarrow> Inl (NoOrderBook symbol)
      | Some book \<Rightarrow>
          (case (sb_bids book, sb_asks book) of
             (b # _, a # _) \<Rightarrow>
               Inr (dl_round L (dl_div L (pl_Price b + pl_Price a) 2) 8)
           | _ \<Rightarrow> Inl (InsufficientDepth symbol (length (sb_bids book)) (length (sb_asks book)))))"

definition GetSpread :: "declib \<Rightarrow> LocalOrderBook \<Rightarrow> string \<Rightarrow> ob_error + decimal" where
  "GetSpread L ob symbol =
     (case lob_books ob symbol of
        None \<Rightarrow> Inl (NoOrderBook symbol)
      | Some book \<Rightarrow>
          (case (sb_bids book, sb_asks book) of
             (b # _, a # _) \<Rightarrow>
               let spread = pl_Price a - pl_Price b;
                   spread' = (if spread < 0 then 0 else spread)
               in Inr (dl_round L spread' 8)
           | _ \<Rightarrow> Inl (InsufficientDepth symbol (length (sb_bids book)) (length (sb_asks book)))))"

text \<open>The loop of \<open>GetVWAP\<close>: remaining quantity, total notional, total filled.\<close>

fun vwap_loop :: "PriceLevel list \<Rightarrow> decimal \<Rightarrow> decimal \<Rightarrow> decimal \<Rightarrow> decimal \<times> decimal \<times> decimal" where
  "vwap_loop [] remaining notional filled = (remaining, notional, filled)"
| "vwap_loop (level # levels) remaining notional filled =
     (if remaining = 0 \<or> remaining < 0 then (remaining, notional, filled)
      else
        let fillQty = min remaining (pl_Quantity level) in
        vwap_loop levels (remaining - fillQty) (notional + fillQty * pl_Price level)
          (filled + fillQty))"

text \<open>
  \<open>Div\<close> panics on a zero divisor: the last step of \<open>GetVWAP\<close> divides by the filled total.
\<close>

definition GetVWAP ::
  "declib \<Rightarrow> LocalOrderBook \<Rightarrow> string \<Rightarrow> Side \<Rightarrow> decimal \<Rightarrow> (ob_error + decimal) outcome" where
  "GetVWAP L ob symbol side quantity =
     (case lob_books ob symbol of
        None \<Rightarrow> Returned (Inl (NoOrderBook symbol))
      | Some book \<Rightarrow>
          (case (case side of SideBuy \<Rightarrow> Some (sb_asks book) | SideSell \<Rightarrow> Some (sb_bids book)
                 | SideOther _ \<Rightarrow> None) of
             None \<Rightarrow> Returned (Inl (InvalidSide side))
           | Some [] \<Rightarrow> Returned (Inl (NoLiquidity side symbol))
           | Some levels \<Rightarrow>
               (case vwap_loop levels quantity 0 0 of
                  (remaining, notional, filled) \<Rightarrow>
                    if 0 < remaining
                    then Returned (Inl (InsufficientLiquidity symbol side quantity filled))
                    else if filled = 0 then Panicked
                    else Returned (Inr (dl_round L (dl_div L notional filled) 8)))))"

text \<open>\<open>make([]PriceLevel, levels)\<close> panics on a negative length.\<close>

definition GetDepth ::
  "LocalOrderBook \<Rightarrow> string \<Rightarrow> Side \<Rightarrow> int \<Rightarrow> (ob_error + PriceLevel list) outcome" where
  "GetDepth ob symbol side levels =
     (case lob_books ob symbol of
        None \<Rightarrow> Returned (Inl (NoOrderBook symbol))
      | Some book \<Rightarrow>
          (case (case side of SideBuy \<Rightarrow> Some (sb_bids book) | SideSell \<Rightarrow> Some (sb_asks book)
                 | SideOther _ \<Rightarrow> None) of
             None \<Rightarrow> Returned (Inl (InvalidSide side))
           | Some source \<Rightarrow>
               let n = (if levels > int (length source) then int (length source) else levels) in
               if n < 0 then Panicked else Returned (Inr (take (nat n) source))))"

definition IsResyncing :: "LocalOrderBook \<Rightarrow> string \<Rightarrow> bool" where
  "IsResyncing ob symbol =
     (case lob_books ob symbol of None \<Rightarrow> False | Some book \<Rightarrow> sb_resyncing book)"

definition GetSequenceID :: "LocalOrderBook \<Rightarrow> string \<Rightarrow> int64 \<times> bool" where
  "GetSequenceID ob symbol =
     (case lob_books ob symbol of None \<Rightarrow> (0, False) | Some book \<Rightarrow> (sb_sequenceID book, True))"

section \<open>The anomaly detector\<close>

record AnomalyDetector =
  ad_previousDepth :: "string \<Rightarrow> int"
  ad_ob :: LocalOrderBook

definition NewAnomalyDetector :: "LocalOrderBook \<Rightarrow> AnomalyDetector" where
  "NewAnomalyDetector ob = \<lparr>ad_previousDepth = (\<lambda>_. 0), ad_ob = ob\<rparr>"

definition CheckCrossedBook :: "string \<Rightarrow> AnomalyDetector \<Rightarrow> AnomalyDetector \<times> bool" where
  "CheckCrossedBook symbol ad =
     (case lob_books (ad_ob ad) symbol of
        None \<Rightarrow> (ad, False)
      | Some book \<Rightarrow>
          if sb_resyncing book then (ad, False)
          else (case (sb_bids book, sb_asks book) of
              (b # _, a # _) \<Rightarrow>
                if pl_Price b \<ge> pl_Price a
                then (ad\<lparr>ad_ob := RequestResync symbol (ad_ob ad)\<rparr>, True)
                else (ad, False)
            | _ \<Rightarrow> (ad, False)))"

definition CheckDepthChange ::
  "string \<Rightarrow> int \<Rightarrow> int \<Rightarrow> AnomalyDetector \<Rightarrow> AnomalyDetector \<times> bool" where
  "CheckDepthChange symbol previousDepth currentDepth ad =
     (if IsResyncing (ad_ob ad) symbol then (ad, False)
      else if previousDepth = 0 then (ad, False)
      else
        let diff = currentDepth - previousDepth;
            diff' = (if diff < 0 then - diff else diff)
        in if diff' * 2 > previousDepth
           then (ad\<lparr>ad_ob := RequestResync symbol (ad_ob ad)\<rparr>, True)
           else (ad, False))"

definition GetCurrentDepth :: "AnomalyDetector \<Rightarrow> string \<Rightarrow> int" where
  "GetCurrentDepth ad symbol =
     (case lob_books (ad_ob ad) symbol of
        None \<Rightarrow> 0
      | Some book \<Rightarrow> int (length (sb_bids book) + length (sb_asks book)))"

definition RecordDepth :: "string \<Rightarrow> AnomalyDetector \<Rightarrow> AnomalyDetector" where
  "RecordDepth symbol ad =
     (case lob_books (ad_ob ad) symbol of
        None \<Rightarrow> ad\<lparr>ad_previousDepth := (ad_previousDepth ad)(symbol := 0)\<rparr>
      | Some book \<Rightarrow>
          ad\<lparr>ad_previousDepth := (ad_previousDepth ad)
               (symbol := int (length (sb_bids book) + length (sb_asks book)))\<rparr>)"

definition GetPreviousDepth :: "AnomalyDetector \<Rightarrow> string \<Rightarrow> int" where
  "GetPreviousDepth ad symbol = ad_previousDepth ad symbol"

definition CheckAfterUpdate :: "string \<Rightarrow> AnomalyDetector \<Rightarrow> AnomalyDetector \<times> bool" where
  "CheckAfterUpdate symbol ad =
     (let (ad1, crossed) = CheckCrossedBook symbol ad in
      if crossed then (ad1, True)
      else
        let prevDepth = ad_previousDepth ad1 symbol;
            currentDepth = GetCurrentDepth ad1 symbol;
            (ad2, changed) = CheckDepthChange symbol prevDepth currentDepth ad1
        in if changed then (ad2, True)
           else (ad2\<lparr>ad_previousDepth := (ad_previousDepth ad2)(symbol := currentDepth)\<rparr>, False))"

section \<open>The contract of a book side\<close>

locale price_priority =
  fixes before :: "decimal \<Rightarrow> decimal \<Rightarrow> bool"
  assumes before_irrefl: "\<not> before p p"
    and before_trans: "before p q \<Longrightarrow> before q r \<Longrightarrow> before p r"
    and before_total: "before p q \<or> p = q \<or> before q p"
begin

lemma before_asym: "before p q \<Longrightarrow> \<not> before q p"
  using before_irrefl before_trans by blast

definition strict_side :: "PriceLevel list \<Rightarrow> bool" where
  "strict_side ls \<longleftrightarrow> sorted_wrt (\<lambda>a b. before (pl_Price a) (pl_Price b)) ls"

definition weak_side :: "PriceLevel list \<Rightarrow> bool" where
  "weak_side ls \<longleftrightarrow> sorted_wrt (\<lambda>a b. \<not> before (pl_Price b) (pl_Price a)) ls"

lemma strict_weak: "strict_side ls \<Longrightarrow> weak_side ls"
  unfolding strict_side_def weak_side_def
  by (rule sorted_wrt_mono_rel [rotated], assumption) (meson before_irrefl before_trans)

lemma weak_distinct_strict:
  "weak_side ls \<Longrightarrow> distinct (map pl_Price ls) \<Longrightarrow> strict_side ls"
proof (induction ls)
  case Nil
  show ?case by (simp add: strict_side_def)
next
  case (Cons l ls)
  have "before (pl_Price l) (pl_Price x)" if "x \<in> set ls" for x
    using Cons.prems that before_total [of "pl_Price l" "pl_Price x"]
    by (auto simp: weak_side_def)
  with Cons show ?case by (auto simp: weak_side_def strict_side_def)
qed

lemma weak_hd_best: "weak_side (l # ls) \<Longrightarrow> x \<in> set (l # ls) \<Longrightarrow> \<not> before (pl_Price x) (pl_Price l)"
  using before_irrefl by (auto simp: weak_side_def)

text \<open>The search splits a sorted side at the update's price.\<close>

lemma search_split:
  fixes u :: PriceLevel
  assumes "weak_side ls"
  defines "idx \<equiv> sort_search (length ls) (\<lambda>i. \<not> before (pl_Price (ls ! i)) (pl_Price u))"
  obtains pre post where "ls = pre @ post" and "idx = length pre"
    and "\<And>x. x \<in> set pre \<Longrightarrow> before (pl_Price x) (pl_Price u)"
    and "\<And>x. x \<in> set post \<Longrightarrow> \<not> before (pl_Price x) (pl_Price u)"
proof -
  have mono: "\<not> before (pl_Price (ls ! b)) (pl_Price u)"
    if "a \<le> b" "b < length ls" "\<not> before (pl_Price (ls ! a)) (pl_Price u)" for a b
  proof (cases "a = b")
    case False
    with that assms(1) have "\<not> before (pl_Price (ls ! b)) (pl_Price (ls ! a))"
      unfolding weak_side_def using sorted_wrt_nth_mono [where i = a and j = b] by auto
    with that(3) show ?thesis using before_total before_trans by metis
  qed (use that in simp)
  note s = sort_search_spec [of "length ls" "\<lambda>i. \<not> before (pl_Price (ls ! i)) (pl_Price u)", OF mono]
  have idx: "idx \<le> length ls" using s(1) by (simp add: idx_def)
  show thesis
  proof (rule that)
    show "ls = take idx ls @ drop idx ls" by simp
    show "idx = length (take idx ls)" using idx by simp
  next
    fix x assume "x \<in> set (take idx ls)"
    then obtain k where "k < idx" "k < length ls" "x = ls ! k"
      by (auto simp: in_set_conv_nth)
    then show "before (pl_Price x) (pl_Price u)" using s(2) [where k = k] by (simp add: idx_def)
  next
    fix x assume "x \<in> set (drop idx ls)"
    then obtain k where "k < length (drop idx ls)" "x = drop idx ls ! k"
      unfolding in_set_conv_nth by blast
    then have "idx + k < length ls" "x = ls ! (idx + k)" by auto
    then show "\<not> before (pl_Price x) (pl_Price u)"
      using s(3) [where k = "idx + k"] by (simp add: idx_def)
  qed
qed

definition splice_at :: "PriceLevel list \<Rightarrow> PriceLevel \<Rightarrow> PriceLevel list" where
  "splice_at ls u =
     splice_level (sort_search (length ls) (\<lambda>i. \<not> before (pl_Price (ls ! i)) (pl_Price u))) ls u"

text \<open>What the splice produces, in terms of the split.\<close>

lemma splice_at_cases:
  assumes "weak_side ls"
  obtains
    (delete) pre y post where "ls = pre @ y # post" "pl_Price y = pl_Price u" "pl_Quantity u = 0"
      "splice_at ls u = pre @ post"
  | (replace) pre y post where "ls = pre @ y # post" "pl_Price y = pl_Price u" "pl_Quantity u \<noteq> 0"
      "splice_at ls u = pre @ y\<lparr>pl_Quantity := pl_Quantity u\<rparr> # post"
  | (insert) pre post where "ls = pre @ post" "pl_Quantity u \<noteq> 0" "splice_at ls u = pre @ u # post"
      "\<And>x. x \<in> set pre \<Longrightarrow> before (pl_Price x) (pl_Price u)"
      "\<And>x. x \<in> set post \<Longrightarrow> before (pl_Price u) (pl_Price x)"
  | (absent) "pl_Quantity u = 0" "splice_at ls u = ls" "\<And>x. x \<in> set ls \<Longrightarrow> pl_Price x \<noteq> pl_Price u"
proof -
  obtain pre post where s: "ls = pre @ post"
    "sort_search (length ls) (\<lambda>i. \<not> before (pl_Price (ls ! i)) (pl_Price u)) = length pre"
    and pre: "\<And>x. x \<in> set pre \<Longrightarrow> before (pl_Price x) (pl_Price u)"
    and post: "\<And>x. x \<in> set post \<Longrightarrow> \<not> before (pl_Price x) (pl_Price u)"
    using search_split [OF assms, of u] by metis
  have eq: "splice_at ls u = splice_level (length pre) (pre @ post) u"
    unfolding splice_at_def s(2) by (simp add: s(1))
  show thesis
  proof (cases "\<exists>y post'. post = y # post' \<and> pl_Price y = pl_Price u")
    case True
    then obtain y post' where y: "post = y # post'" "pl_Price y = pl_Price u" by blast
    show thesis
    proof (cases "pl_Quantity u = 0")
      case True
      have "splice_at ls u = pre @ post'" using y True by (simp add: eq splice_level_def)
      with y True s(1) show thesis by (intro delete [of pre y post']) auto
    next
      case False
      have "splice_at ls u = pre @ y\<lparr>pl_Quantity := pl_Quantity u\<rparr> # post'"
        using y False by (simp add: eq splice_level_def)
      with y False s(1) show thesis by (intro replace [of pre y post']) auto
    qed
  next
    case False
    have after: "before (pl_Price u) (pl_Price x)" if x: "x \<in> set post" for x
    proof -
      obtain z zs where z: "post = z # zs" using x by (cases post) auto
      have "pl_Price z \<noteq> pl_Price u" "\<not> before (pl_Price z) (pl_Price u)"
        using False z post by auto
      then have uz: "before (pl_Price u) (pl_Price z)" using before_total by metis
      have "\<not> before (pl_Price x) (pl_Price z)"
        using assms x before_irrefl unfolding s(1) z weak_side_def by (auto simp: sorted_wrt_append)
      with uz show ?thesis using before_total before_trans by metis
    qed
    have guard: "\<not> (length pre < length (pre @ post) \<and> pl_Price ((pre @ post) ! length pre) = pl_Price u)"
      using False by (cases post) auto
    show thesis
    proof (cases "pl_Quantity u = 0")
      case True
      have "splice_at ls u = ls" unfolding eq using guard True by (auto simp: splice_level_def s(1))
      moreover have "pl_Price x \<noteq> pl_Price u" if "x \<in> set ls" for x
        using that pre after before_irrefl unfolding s(1) by fastforce
      ultimately show thesis using True by (intro absent) auto
    next
      case False
      have "splice_at ls u = pre @ u # post" unfolding eq using guard False by (auto simp: splice_level_def)
      with False s(1) pre after show thesis by (intro insert [of pre post]) auto
    qed
  qed
qed

lemma splice_at_strict: "strict_side ls \<Longrightarrow> strict_side (splice_at ls u)"
  by (rule splice_at_cases [OF strict_weak, of ls u])
    (auto simp: strict_side_def sorted_wrt_append intro: before_trans)

lemma splice_at_weak: "weak_side ls \<Longrightarrow> weak_side (splice_at ls u)"
  by (rule splice_at_cases [of ls u])
    (auto simp: weak_side_def sorted_wrt_append dest: before_asym)

end

text \<open>A side read as a map from price to quantity.\<close>

definition side_map :: "PriceLevel list \<Rightarrow> decimal \<Rightarrow> decimal option" where
  "side_map ls = map_of (map (\<lambda>l. (pl_Price l, pl_Quantity l)) ls)"

definition level_update :: "(decimal \<Rightarrow> decimal option) \<Rightarrow> PriceLevel \<Rightarrow> decimal \<Rightarrow> decimal option" where
  "level_update m u = m(pl_Price u := (if pl_Quantity u = 0 then None else Some (pl_Quantity u)))"

lemma side_map_append: "side_map (xs @ ys) = side_map ys ++ side_map xs"
  by (simp add: side_map_def)

lemma side_map_Cons: "side_map (x # xs) = (side_map xs)(pl_Price x \<mapsto> pl_Quantity x)"
  by (simp add: side_map_def)

lemma side_map_None: "(\<And>x. x \<in> set ls \<Longrightarrow> pl_Price x \<noteq> p) \<Longrightarrow> side_map ls p = None"
  by (induction ls) (auto simp: side_map_def)

context price_priority
begin

lemma splice_at_map:
  assumes "strict_side ls"
  shows "side_map (splice_at ls u) = level_update (side_map ls) u"
proof (rule splice_at_cases [OF strict_weak [OF assms], of u])
  fix pre y post
  assume d: "ls = pre @ y # post" "pl_Price y = pl_Price u" "pl_Quantity u = 0"
    "splice_at ls u = pre @ post"
  have "side_map pre (pl_Price u) = None" "side_map post (pl_Price u) = None"
    using assms d before_irrefl
    by (fastforce simp: strict_side_def sorted_wrt_append intro!: side_map_None)+
  with d show ?thesis
    by (auto simp: level_update_def side_map_append side_map_Cons map_add_def fun_eq_iff split: option.splits)
next
  fix pre y post
  assume d: "ls = pre @ y # post" "pl_Price y = pl_Price u" "pl_Quantity u \<noteq> 0"
    "splice_at ls u = pre @ y\<lparr>pl_Quantity := pl_Quantity u\<rparr> # post"
  have "side_map pre (pl_Price u) = None"
    using assms d before_irrefl
    by (fastforce simp: strict_side_def sorted_wrt_append intro!: side_map_None)
  with d show ?thesis
    by (auto simp: level_update_def side_map_append side_map_Cons map_add_def fun_eq_iff split: option.splits)
next
  fix pre post
  assume d: "ls = pre @ post" "pl_Quantity u \<noteq> 0" "splice_at ls u = pre @ u # post"
    "\<And>x. x \<in> set pre \<Longrightarrow> before (pl_Price x) (pl_Price u)"
    "\<And>x. x \<in> set post \<Longrightarrow> before (pl_Price u) (pl_Price x)"
  have "side_map pre (pl_Price u) = None"
    using d(4) before_irrefl by (fastforce intro!: side_map_None)
  with d show ?thesis
    by (auto simp: level_update_def side_map_append side_map_Cons map_add_def fun_eq_iff split: option.splits)
next
  assume d: "pl_Quantity u = 0" "splice_at ls u = ls" "\<And>x. x \<in> set ls \<Longrightarrow> pl_Price x \<noteq> pl_Price u"
  then have "side_map ls (pl_Price u) = None" by (intro side_map_None) auto
  with d show ?thesis by (auto simp: level_update_def fun_eq_iff)
qed

end

text \<open>What a book relies on: an update routine keeps the order and updates the map.\<close>

locale book_side = price_priority +
  fixes apply_level :: "PriceLevel list \<Rightarrow> PriceLevel \<Rightarrow> PriceLevel list"
  assumes apply_weak: "weak_side ls \<Longrightarrow> weak_side (apply_level ls u)"
    and apply_strict: "strict_side ls \<Longrightarrow> strict_side (apply_level ls u)"
    and apply_map: "strict_side ls \<Longrightarrow> side_map (apply_level ls u) = level_update (side_map ls) u"
begin

lemma fold_weak: "weak_side ls \<Longrightarrow> weak_side (foldl apply_level ls us)"
  by (induction us arbitrary: ls) (auto intro: apply_weak)

lemma fold_strict: "strict_side ls \<Longrightarrow> strict_side (foldl apply_level ls us)"
  by (induction us arbitrary: ls) (auto intro: apply_strict)

lemma fold_map:
  "strict_side ls \<Longrightarrow> side_map (foldl apply_level ls us) = foldl level_update (side_map ls) us"
  by (induction us arbitrary: ls) (auto simp: apply_map apply_strict)

end

interpretation desc: price_priority "(>)"
  by unfold_locales auto

interpretation asc: price_priority "(<)"
  by unfold_locales auto

lemma applyDeltaDescending_splice: "applyDeltaDescending ls u = desc.splice_at ls u"
  by (simp add: applyDeltaDescending_def desc.splice_at_def not_less)

lemma applyDeltaAscending_splice: "applyDeltaAscending ls u = asc.splice_at ls u"
  by (simp add: applyDeltaAscending_def asc.splice_at_def not_less)

interpretation bid: book_side "(>)" applyDeltaDescending
  by unfold_locales
    (simp_all add: applyDeltaDescending_splice desc.splice_at_weak desc.splice_at_strict desc.splice_at_map)

interpretation ask: book_side "(<)" applyDeltaAscending
  by unfold_locales
    (simp_all add: applyDeltaAscending_splice asc.splice_at_weak asc.splice_at_strict asc.splice_at_map)


section \<open>Invariant of the books\<close>

definition book_inv :: "symbolBook \<Rightarrow> bool" where
  "book_inv book \<longleftrightarrow>
     sorted_wrt (\<lambda>x y. pl_Price y \<le> pl_Price x) (sb_bids book) \<and>
     sorted_wrt (\<lambda>x y. pl_Price x \<le> pl_Price y) (sb_asks book) \<and>
     (sb_resyncing book \<longrightarrow> sb_bids book = [] \<and> sb_asks book = [])"

definition lob_inv :: "LocalOrderBook \<Rightarrow> bool" where
  "lob_inv ob \<longleftrightarrow>
     (\<forall>symbol book. lob_books ob symbol = Some book \<longrightarrow> book_inv book) \<and>
     length (lob_ResyncCh ob) \<le> resync_capacity"

lemma desc_weak_iff: "desc.weak_side ls = sorted_wrt (\<lambda>x y. pl_Price y \<le> pl_Price x) ls"
  by (simp add: desc.weak_side_def not_less)

lemma asc_weak_iff: "asc.weak_side ls = sorted_wrt (\<lambda>x y. pl_Price x \<le> pl_Price y) ls"
  by (simp add: asc.weak_side_def not_less)

lemmas weak_iffs = desc_weak_iff asc_weak_iff

lemma book_inv_empty [inv_intros]: "book_inv empty_book"
  by (simp add: book_inv_def empty_book_def)

lemma lob_inv_new [inv_intros]: "lob_inv NewLocalOrderBook"
  by (simp add: lob_inv_def NewLocalOrderBook_def)

lemma lob_inv_lookup: "lob_inv ob \<Longrightarrow> lob_books ob symbol = Some book \<Longrightarrow> book_inv book"
  by (simp add: lob_inv_def)

lemma lob_inv_store:
  "lob_inv ob \<Longrightarrow> book_inv book \<Longrightarrow> lob_inv (ob\<lparr>lob_books := (lob_books ob)(symbol \<mapsto> book)\<rparr>)"
  by (simp add: lob_inv_def)

lemma lob_inv_resync [inv_intros]: "lob_inv ob \<Longrightarrow> lob_inv (requestResyncLocked symbol ob)"
  by (auto simp: lob_inv_def requestResyncLocked_def Let_def book_inv_def)

lemma lob_inv_RequestResync [inv_intros]: "lob_inv ob \<Longrightarrow> lob_inv (RequestResync symbol ob)"
  by (simp add: RequestResync_def lob_inv_resync)

definition level_sort_ok :: "PriceLevel slice_sort \<Rightarrow> bool" where
  "level_sort_ok srt \<longleftrightarrow>
     slice_sort_ok srt (key_less pl_Price) \<and> slice_sort_ok srt (key_greater pl_Price)"

lemma level_sort_isort: "level_sort_ok isort"
  by (simp add: level_sort_ok_def isort_key_less isort_key_greater)

lemma level_sort_sorted:
  assumes "level_sort_ok srt"
  shows "sorted_wrt (\<lambda>x y. pl_Price y \<le> pl_Price x) (srt (key_greater pl_Price) ls)"
    and "sorted_wrt (\<lambda>x y. pl_Price x \<le> pl_Price y) (srt (key_less pl_Price) ls)"
  using assms
  by (simp_all add: level_sort_ok_def slice_sort_ok_def key_less_def key_greater_def not_less)

lemma level_sort_mset:
  assumes "level_sort_ok srt"
  shows "mset (srt (key_greater pl_Price) ls) = mset ls"
    and "mset (srt (key_less pl_Price) ls) = mset ls"
  using assms by (simp_all add: level_sort_ok_def slice_sort_ok_def)

lemma lob_inv_snapshot:
  "level_sort_ok srt \<Longrightarrow> lob_inv ob \<Longrightarrow> lob_inv (fst (UpdateFromSnapshot srt symbol s ob))"
  by (auto simp: UpdateFromSnapshot_def Let_def book_inv_def level_sort_sorted
      intro!: lob_inv_store split: option.splits)

lemma lob_inv_incremental:
  assumes "lob_inv ob"
  shows "lob_inv (fst (UpdateIncremental symbol d ob))"
  using assms lob_inv_lookup [OF assms, of symbol] bid.fold_weak ask.fold_weak
  unfolding UpdateIncremental_def Let_def book_inv_def weak_iffs
  by (auto intro!: lob_inv_store lob_inv_resync simp: book_inv_def split: option.splits)

lemma lob_inv_crossed: "lob_inv (ad_ob ad) \<Longrightarrow> lob_inv (ad_ob (fst (CheckCrossedBook symbol ad)))"
  by (auto simp: CheckCrossedBook_def lob_inv_RequestResync split: option.splits list.splits)

lemma lob_inv_depth:
  "lob_inv (ad_ob ad) \<Longrightarrow> lob_inv (ad_ob (fst (CheckDepthChange symbol p c ad)))"
  by (auto simp: CheckDepthChange_def Let_def lob_inv_RequestResync)

lemma lob_inv_check: "lob_inv (ad_ob ad) \<Longrightarrow> lob_inv (ad_ob (fst (CheckAfterUpdate symbol ad)))"
  using lob_inv_crossed [of ad symbol] lob_inv_depth
  by (auto simp: CheckAfterUpdate_def Let_def split: prod.splits) (metis fst_conv)+

section \<open>Reachable states\<close>

text \<open>
  Any interleaving of snapshots, deltas, resync requests, anomaly checks and a consumer
  that drains the resync channel.
\<close>

inductive ob_step :: "PriceLevel slice_sort \<Rightarrow> AnomalyDetector \<Rightarrow> AnomalyDetector \<Rightarrow> bool"
  for srt where
  step_snapshot:
    "ob_step srt ad (ad\<lparr>ad_ob := fst (UpdateFromSnapshot srt symbol s (ad_ob ad))\<rparr>)"
| step_incremental:
    "ob_step srt ad (ad\<lparr>ad_ob := fst (UpdateIncremental symbol d (ad_ob ad))\<rparr>)"
| step_resync: "ob_step srt ad (ad\<lparr>ad_ob := RequestResync symbol (ad_ob ad)\<rparr>)"
| step_record: "ob_step srt ad (RecordDepth symbol ad)"
| step_check: "ob_step srt ad (fst (CheckAfterUpdate symbol ad))"
| step_drain: "lob_ResyncCh (ad_ob ad) = x # rest \<Longrightarrow>
    ob_step srt ad (ad\<lparr>ad_ob := (ad_ob ad)\<lparr>lob_ResyncCh := rest\<rparr>\<rparr>)"

inductive ob_reachable :: "PriceLevel slice_sort \<Rightarrow> AnomalyDetector \<Rightarrow> bool" for srt where
  ob_start: "ob_reachable srt (NewAnomalyDetector NewLocalOrderBook)"
| ob_next: "ob_reachable srt ad \<Longrightarrow> ob_step srt ad ad' \<Longrightarrow> ob_reachable srt ad'"

lemma ob_step_inv:
  assumes "ob_step srt ad ad'" and "level_sort_ok srt" and "lob_inv (ad_ob ad)"
  shows "lob_inv (ad_ob ad')"
  using assms(1)
proof cases
  case (step_record symbol)
  with assms(3) show ?thesis by (simp add: RecordDepth_def split: option.splits)
next
  case (step_drain x rest)
  with assms(3) show ?thesis by (simp add: lob_inv_def)
qed (use assms in \<open>auto intro: lob_inv_snapshot lob_inv_incremental lob_inv_RequestResync lob_inv_check\<close>)

lemma ob_reachable_inv: "ob_reachable srt ad \<Longrightarrow> level_sort_ok srt \<Longrightarrow> lob_inv (ad_ob ad)"
  by (induction rule: ob_reachable.induct)
    (auto simp: NewAnomalyDetector_def lob_inv_new intro: ob_step_inv)

section \<open>The VWAP loop\<close>

definition levels_total :: "PriceLevel list \<Rightarrow> decimal" where
  "levels_total ls = sum_list (map pl_Quantity ls)"

lemma levels_total_nonneg:
  "(\<And>l. l \<in> set ls \<Longrightarrow> 0 \<le> pl_Quantity l) \<Longrightarrow> 0 \<le> levels_total ls"
  by (induction ls) (auto simp: levels_total_def)

lemma vwap_loop_fill:
  assumes "\<And>l. l \<in> set ls \<Longrightarrow> 0 \<le> pl_Quantity l" and "0 \<le> r"
    and "vwap_loop ls r n f = (r', n', f')"
  shows "f' = f + min r (levels_total ls) \<and> r' = r - min r (levels_total ls)"
  using assms
proof (induction ls r n f rule: vwap_loop.induct)
  case (1 r n f)
  then show ?case by (simp add: levels_total_def)
next
  case (2 l ls r n f)
  have t: "0 \<le> levels_total ls" "0 \<le> pl_Quantity l"
    using 2 levels_total_nonneg [of ls] by auto
  have tot: "levels_total (l # ls) = pl_Quantity l + levels_total ls"
    by (simp add: levels_total_def)
  show ?case
  proof (cases "r = 0 \<or> r < 0")
    case True
    with 2 t show ?thesis by (auto simp: tot)
  next
    case False
    let ?q = "min r (pl_Quantity l)"
    have "f' = f + ?q + min (r - ?q) (levels_total ls) \<and> r' = r - ?q - min (r - ?q) (levels_total ls)"
      using "2.IH" [OF False refl] "2.prems" False by (simp add: Let_def)
    then show ?thesis using t False by (auto simp: tot min_def)
  qed
qed

lemma vwap_loop_notional:
  assumes "\<And>l. l \<in> set ls \<Longrightarrow> 0 \<le> pl_Quantity l \<and> lo \<le> pl_Price l \<and> pl_Price l \<le> hi"
    and "0 \<le> r" and "lo * f \<le> n" and "n \<le> hi * f"
    and "vwap_loop ls r n f = (r', n', f')"
  shows "lo * f' \<le> n' \<and> n' \<le> hi * f'"
  using assms
proof (induction ls r n f rule: vwap_loop.induct)
  case (1 r n f)
  then show ?case by simp
next
  case (2 l ls r n f)
  show ?case
  proof (cases "r = 0 \<or> r < 0")
    case True
    with 2 show ?thesis by auto
  next
    case False
    let ?q = "min r (pl_Quantity l)"
    have l: "0 \<le> pl_Quantity l" "lo \<le> pl_Price l" "pl_Price l \<le> hi" using "2.prems"(1) by auto
    with False have q: "0 \<le> ?q" by auto
    have "lo * ?q \<le> ?q * pl_Price l" "?q * pl_Price l \<le> hi * ?q"
      using l q mult_left_mono [of lo "pl_Price l" ?q] mult_left_mono [of "pl_Price l" hi ?q]
      by (auto simp: mult.commute)
    then have "lo * (f + ?q) \<le> n + ?q * pl_Price l" "n + ?q * pl_Price l \<le> hi * (f + ?q)"
      using "2.prems" by (auto simp: distrib_left)
    then show ?thesis
      using "2.IH" [OF False refl] "2.prems" False by (simp add: Let_def)
  qed
qed

lemma rounded_quotient_bounds:
  assumes "declib_ok L" and "0 < f" and "lo * f \<le> n" and "n \<le> hi * f"
  shows "lo - 1 / 10 ^ 8 \<le> dl_round L (dl_div L n f) 8"
    and "dl_round L (dl_div L n f) 8 \<le> hi + 1 / 10 ^ 8"
proof -
  have "lo \<le> n / f" "n / f \<le> hi" using assms(2,3,4) by (auto simp: field_simps)
  moreover note near_multiple_bounds [OF declib_div [OF assms(1), of f n]]
    near_multiple_bounds [OF declib_round [OF assms(1), of 8 "dl_div L n f"]]
  ultimately show "lo - 1 / 10 ^ 8 \<le> dl_round L (dl_div L n f) 8"
    and "dl_round L (dl_div L n f) 8 \<le> hi + 1 / 10 ^ 8"
    using assms(2) by auto
qed

section \<open>Resynchronisation\<close>

text \<open>The state after a stream of deltas for one symbol.\<close>

definition run_deltas :: "string \<Rightarrow> OrderBookDelta list \<Rightarrow> LocalOrderBook \<Rightarrow> LocalOrderBook" where
  "run_deltas symbol ds ob = foldl (\<lambda>ob d. fst (UpdateIncremental symbol (Some d) ob)) ob ds"

lemma resync_state:
  "lob_books (requestResyncLocked symbol ob) symbol =
     Some ((getOrCreateBook ob symbol)\<lparr>sb_bids := [], sb_asks := [], sb_resyncing := True\<rparr>)"
  by (simp add: requestResyncLocked_def Let_def)

lemma IsResyncing_resync [simp]: "IsResyncing (requestResyncLocked symbol ob) symbol"
  by (simp add: IsResyncing_def resync_state)

lemma UpdateIncremental_resyncing:
  "IsResyncing ob symbol \<Longrightarrow> UpdateIncremental symbol (Some d) ob = (ob, Some (Resyncing symbol))"
  by (simp add: IsResyncing_def UpdateIncremental_def split: option.splits)

lemma run_deltas_resyncing: "IsResyncing ob symbol \<Longrightarrow> run_deltas symbol ds ob = ob"
  by (induction ds) (simp_all add: run_deltas_def UpdateIncremental_resyncing)

lemma resync_other:
  "other \<noteq> symbol \<Longrightarrow> lob_books (requestResyncLocked symbol ob) other = lob_books ob other"
  by (simp add: requestResyncLocked_def Let_def)


section \<open>Properties\<close>

subsection \<open>A small book to evaluate\<close>

definition lvl :: "decimal \<Rightarrow> decimal \<Rightarrow> PriceLevel" where
  "lvl p q = \<lparr>pl_Price = p, pl_Quantity = q\<rparr>"

definition sample_snapshot :: OrderBookSnapshot where
  "sample_snapshot = \<lparr>ss_Symbol = ''X'', ss_Bids = [lvl 99 1, lvl 100 2], ss_Asks = [lvl 102 3, lvl 101 2],
     ss_SequenceID = 7, ss_Timestamp = 0\<rparr>"

definition sample_book :: LocalOrderBook where
  "sample_book = fst (UpdateFromSnapshot isort ''X'' (Some sample_snapshot) NewLocalOrderBook)"

definition sample_delta :: OrderBookDelta where
  "sample_delta = \<lparr>dl_Symbol = ''X'', dl_Bids = [lvl 100 0, lvl 98 5], dl_Asks = [lvl 101 9],
     dl_SequenceID = 8, dl_Timestamp = 1\<rparr>"

lemma sample_books: "lob_books sample_book ''X'' =
    Some \<lparr>sb_bids = [lvl 100 2, lvl 99 1], sb_asks = [lvl 101 2, lvl 102 3], sb_sequenceID = 7,
      sb_resyncing = False\<rparr>"
  by (simp add: sample_book_def UpdateFromSnapshot_def sample_snapshot_def getOrCreateBook_def
      NewLocalOrderBook_def empty_book_def Let_def isort_def key_less_def key_greater_def lvl_def)

lemma sample_reachable:
  "ob_reachable isort (NewAnomalyDetector sample_book)"
proof -
  have "ob_step isort (NewAnomalyDetector NewLocalOrderBook) (NewAnomalyDetector sample_book)"
    using step_snapshot [of isort "NewAnomalyDetector NewLocalOrderBook" "''X''" "Some sample_snapshot"]
    by (simp add: NewAnomalyDetector_def sample_book_def)
  then show ?thesis by (rule ob_next [OF ob_start])
qed

lemma sample_strict: "desc.strict_side [lvl 100 2, lvl 99 1]" "asc.strict_side [lvl 101 2, lvl 102 3]"
  by (simp_all add: desc.strict_side_def asc.strict_side_def lvl_def)

subsection \<open>Statements\<close>

text \<open>C8: in every reachable state, whatever the interleaving of snapshots, deltas, anomaly
  checks and resyncs, both sides of every book are sorted best price first (so the head that
  \<open>GetBestBid\<close> and \<open>GetBestAsk\<close> return is the extreme price of its side), a resyncing book is
  empty, and the resync channel never exceeds its capacity.\<close>

theorem reachable_books_ok:
  assumes "ob_reachable srt ad" and "level_sort_ok srt"
    and "lob_books (ad_ob ad) symbol = Some book"
  shows "book_inv book \<and>
    (\<forall>l. GetBestBid (ad_ob ad) symbol = Inr l \<longrightarrow>
      l \<in> set (sb_bids book) \<and> (\<forall>x \<in> set (sb_bids book). pl_Price x \<le> pl_Price l)) \<and>
    (\<forall>l. GetBestAsk (ad_ob ad) symbol = Inr l \<longrightarrow>
      l \<in> set (sb_asks book) \<and> (\<forall>x \<in> set (sb_asks book). pl_Price l \<le> pl_Price x)) \<and>
    length (lob_ResyncCh (ad_ob ad)) \<le> resync_capacity"
proof -
  have inv: "lob_inv (ad_ob ad)" using assms(1,2) by (rule ob_reachable_inv)
  then have book: "book_inv book" using assms(3) by (rule lob_inv_lookup)
  moreover have "length (lob_ResyncCh (ad_ob ad)) \<le> resync_capacity"
    using inv by (simp add: lob_inv_def)
  ultimately show ?thesis
    using assms(3) by (cases "sb_bids book"; cases "sb_asks book")
      (auto simp: GetBestBid_def GetBestAsk_def book_inv_def)
qed

theorem reachable_books_ok_witness:
  "book_inv \<lparr>sb_bids = [lvl 100 2, lvl 99 1], sb_asks = [lvl 101 2, lvl 102 3], sb_sequenceID = 7,
      sb_resyncing = False\<rparr> \<and> GetBestBid sample_book ''X'' = Inr (lvl 100 2)"
proof -
  have "lob_books (ad_ob (NewAnomalyDetector sample_book)) ''X'' =
    Some \<lparr>sb_bids = [lvl 100 2, lvl 99 1], sb_asks = [lvl 101 2, lvl 102 3], sb_sequenceID = 7,
      sb_resyncing = False\<rparr>"
    by (simp add: NewAnomalyDetector_def sample_books)
  from reachable_books_ok [OF sample_reachable level_sort_isort this]
  show ?thesis by (simp add: GetBestBid_def sample_books)
qed

text \<open>C9: a delta with the next sequence number, applied to a book whose sides have distinct
  prices, implements the abstract update: read as maps from price to quantity, each side
  becomes the fold of \<open>set the level, or remove it when the quantity is zero\<close> over the delta's
  levels in order; prices stay distinct and sorted, the sequence number advances to the
  delta's, and no error is returned.\<close>

theorem UpdateIncremental_refines:
  assumes "lob_books ob symbol = Some book" and "\<not> sb_resyncing book"
    and "dl_SequenceID d = sb_sequenceID book + 1"
    and "desc.strict_side (sb_bids book)" and "asc.strict_side (sb_asks book)"
  shows "\<exists>book'. UpdateIncremental symbol (Some d) ob =
      (ob\<lparr>lob_books := (lob_books ob)(symbol \<mapsto> book')\<rparr>, None) \<and>
    side_map (sb_bids book') = foldl level_update (side_map (sb_bids book)) (dl_Bids d) \<and>
    side_map (sb_asks book') = foldl level_update (side_map (sb_asks book)) (dl_Asks d) \<and>
    desc.strict_side (sb_bids book') \<and> asc.strict_side (sb_asks book') \<and>
    sb_sequenceID book' = dl_SequenceID d \<and> \<not> sb_resyncing book'"
  using assms
  by (intro exI [of _ "book\<lparr>sb_bids := foldl applyDeltaDescending (sb_bids book) (dl_Bids d),
      sb_asks := foldl applyDeltaAscending (sb_asks book) (dl_Asks d),
      sb_sequenceID := dl_SequenceID d\<rparr>"])
    (simp add: UpdateIncremental_def Let_def bid.fold_map ask.fold_map bid.fold_strict ask.fold_strict)

theorem UpdateIncremental_refines_witness:
  "\<exists>book'. lob_books (fst (UpdateIncremental ''X'' (Some sample_delta) sample_book)) ''X'' = Some book' \<and>
     side_map (sb_bids book') = [99 \<mapsto> 1, 98 \<mapsto> 5] \<and> side_map (sb_asks book') 101 = Some 9"
proof -
  obtain book' where "UpdateIncremental ''X'' (Some sample_delta) sample_book =
      (sample_book\<lparr>lob_books := (lob_books sample_book)(''X'' \<mapsto> book')\<rparr>, None)"
    "side_map (sb_bids book') = foldl level_update (side_map [lvl 100 2, lvl 99 1]) (dl_Bids sample_delta)"
    "side_map (sb_asks book') = foldl level_update (side_map [lvl 101 2, lvl 102 3]) (dl_Asks sample_delta)"
    using UpdateIncremental_refines [OF sample_books, of sample_delta] sample_strict
    by (auto simp: sample_delta_def)
  then show ?thesis
    by (auto simp: sample_delta_def level_update_def side_map_def lvl_def fun_eq_iff)
qed

text \<open>A delta that is not the successor of the last processed one changes nothing but
  starts a resync: the error names both sequence numbers, the book is emptied, the symbol is
  queued for a snapshot (unless the channel is full), every further delta is discarded without
  any effect, and the next snapshot ends the resync with exactly its own levels.\<close>

theorem sequence_gap_resync:
  assumes "lob_books ob symbol = Some book" and "\<not> sb_resyncing book"
    and "dl_SequenceID d \<noteq> sb_sequenceID book + 1" and "level_sort_ok srt"
    and "UpdateIncremental symbol (Some d) ob = (ob', err)"
  shows "err = Some (SequenceGap symbol (sb_sequenceID book + 1) (dl_SequenceID d)) \<and>
    lob_books ob' symbol = Some (book\<lparr>sb_bids := [], sb_asks := [], sb_resyncing := True\<rparr>) \<and>
    lob_ResyncCh ob' = lob_ResyncCh ob @ (if length (lob_ResyncCh ob) < resync_capacity then [symbol] else []) \<and>
    run_deltas symbol ds ob' = ob' \<and>
    (\<exists>book'. lob_books (fst (UpdateFromSnapshot srt symbol (Some s) ob')) symbol = Some book' \<and>
      \<not> sb_resyncing book' \<and> sb_sequenceID book' = ss_SequenceID s \<and>
      mset (sb_bids book') = mset (ss_Bids s) \<and> mset (sb_asks book') = mset (ss_Asks s))"
proof -
  have step: "ob' = requestResyncLocked symbol ob"
    "err = Some (SequenceGap symbol (sb_sequenceID book + 1) (dl_SequenceID d))"
    using assms(1-3,5) by (auto simp: UpdateIncremental_def Let_def)
  have "lob_books ob' symbol = Some (book\<lparr>sb_bids := [], sb_asks := [], sb_resyncing := True\<rparr>)"
    using assms(1) by (simp add: step resync_state getOrCreateBook_def)
  moreover have "run_deltas symbol ds ob' = ob'"
    unfolding step by (rule run_deltas_resyncing) simp
  moreover have "\<exists>book'. lob_books (fst (UpdateFromSnapshot srt symbol (Some s) ob')) symbol = Some book' \<and>
      \<not> sb_resyncing book' \<and> sb_sequenceID book' = ss_SequenceID s \<and>
      mset (sb_bids book') = mset (ss_Bids s) \<and> mset (sb_asks book') = mset (ss_Asks s)"
    by (simp add: UpdateFromSnapshot_def Let_def level_sort_mset [OF assms(4)])
  moreover have "lob_ResyncCh ob' =
      lob_ResyncCh ob @ (if length (lob_ResyncCh ob) < resync_capacity then [symbol] else [])"
    by (simp add: step requestResyncLocked_def Let_def)
  ultimately show ?thesis using step(2) by blast
qed

theorem sequence_gap_resync_witness:
  "lob_books (run_deltas ''X'' [sample_delta]
      (fst (UpdateIncremental ''X'' (Some (sample_delta\<lparr>dl_SequenceID := 9\<rparr>)) sample_book))) ''X'' =
     Some \<lparr>sb_bids = [], sb_asks = [], sb_sequenceID = 7, sb_resyncing = True\<rparr>"
proof -
  let ?b = "\<lparr>sb_bids = [lvl 100 2, lvl 99 1], sb_asks = [lvl 101 2, lvl 102 3], sb_sequenceID = 7,
      sb_resyncing = False\<rparr>"
  have h: "\<not> sb_resyncing ?b" "dl_SequenceID (sample_delta\<lparr>dl_SequenceID := 9\<rparr>) \<noteq> sb_sequenceID ?b + 1"
    by simp_all
  show ?thesis
    using sequence_gap_resync [OF sample_books h level_sort_isort surjective_pairing, of "[sample_delta]"]
    by simp
qed

text \<open>For a positive quantity and a side whose levels have non-negative quantities, the
  VWAP walk never panics; it fails exactly when the side holds less than the requested quantity,
  and then reports the whole available quantity; otherwise the returned average lies between the
  lowest and the highest price of the side, up to the rounding of one unit of the eighth
  decimal.\<close>

theorem GetVWAP_spec:
  assumes "declib_ok L" and "lob_books ob symbol = Some book" and "sb_asks book \<noteq> []"
    and "0 < quantity"
    and "\<And>l. l \<in> set (sb_asks book) \<Longrightarrow> 0 \<le> pl_Quantity l \<and> lo \<le> pl_Price l \<and> pl_Price l \<le> hi"
  shows "if levels_total (sb_asks book) < quantity
    then GetVWAP L ob symbol SideBuy quantity =
      Returned (Inl (InsufficientLiquidity symbol SideBuy quantity (levels_total (sb_asks book))))
    else \<exists>v. GetVWAP L ob symbol SideBuy quantity = Returned (Inr v) \<and>
      lo - 1 / 10 ^ 8 \<le> v \<and> v \<le> hi + 1 / 10 ^ 8"
proof -
  obtain r n f where loop: "vwap_loop (sb_asks book) quantity 0 0 = (r, n, f)"
    using prod_cases3 by blast
  have fill: "f = min quantity (levels_total (sb_asks book))"
    "r = quantity - min quantity (levels_total (sb_asks book))"
    using vwap_loop_fill [OF _ _ loop] assms(4,5) by auto
  have "lo * f \<le> n \<and> n \<le> hi * f"
    using vwap_loop_notional [OF _ _ _ _ loop, of lo hi] assms(4,5) by simp
  moreover obtain a as where as: "sb_asks book = a # as" using assms(3) by (cases "sb_asks book") auto
  ultimately show ?thesis
    using fill loop assms(2,4) rounded_quotient_bounds [OF assms(1), of f lo n hi]
    by (auto simp: GetVWAP_def min_def split: if_splits)
qed

theorem GetVWAP_spec_witness:
  "\<exists>v. GetVWAP std_declib sample_book ''X'' SideBuy 4 = Returned (Inr v) \<and>
     101 - 1 / 10 ^ 8 \<le> v \<and> v \<le> 102 + 1 / 10 ^ 8"
proof -
  let ?asks = "[lvl 101 2, lvl 102 3]"
  have h: "0 \<le> pl_Quantity l \<and> 101 \<le> pl_Price l \<and> pl_Price l \<le> 102" if "l \<in> set ?asks" for l
    using that by (auto simp: lvl_def)
  have t: "\<not> levels_total ?asks < 4" by (simp add: lvl_def levels_total_def)
  show ?thesis using GetVWAP_spec [OF std_declib_ok sample_books, of 4 101 102] h t by simp
qed

text \<open>A VWAP request for a non-positive quantity, on a symbol with liquidity on the
  consumed side, panics: the walk fills nothing and the average divides by zero.\<close>

theorem GetVWAP_nonpositive_panics:
  assumes "lob_books ob symbol = Some book" and "sb_asks book \<noteq> []" and "sb_bids book \<noteq> []"
    and "quantity \<le> 0" and "side = SideBuy \<or> side = SideSell"
  shows "GetVWAP L ob symbol side quantity = Panicked"
proof -
  have "vwap_loop ls quantity 0 0 = (quantity, 0, 0)" for ls
    using assms(4) by (cases ls) auto
  with assms show ?thesis by (auto simp: GetVWAP_def split: list.splits)
qed

theorem GetVWAP_nonpositive_panics_witness: "GetVWAP std_declib sample_book ''X'' SideSell 0 = Panicked"
  by (rule GetVWAP_nonpositive_panics [OF sample_books]) simp_all

text \<open>When the anomaly check of a tracked symbol reports nothing and the book is not
  resyncing, the book is not crossed and the depth changed by at most half of the recorded
  depth, which is then brought up to date; when it reports an anomaly, the book has been emptied
  and is resyncing, and no other symbol's book is touched.\<close>

theorem CheckAfterUpdate_spec:
  assumes "CheckAfterUpdate symbol ad = (ad', anomaly)" and "lob_books (ad_ob ad) symbol = Some book"
  shows "if anomaly
    then IsResyncing (ad_ob ad') symbol \<and> GetCurrentDepth ad' symbol = 0 \<and>
      ad_previousDepth ad' = ad_previousDepth ad \<and>
      (\<forall>other. other \<noteq> symbol \<longrightarrow> lob_books (ad_ob ad') other = lob_books (ad_ob ad) other)
    else ad_ob ad' = ad_ob ad \<and> GetPreviousDepth ad' symbol = GetCurrentDepth ad symbol \<and>
      (\<not> sb_resyncing book \<longrightarrow>
        (\<forall>b bs a as. sb_bids book = b # bs \<and> sb_asks book = a # as \<longrightarrow> pl_Price b < pl_Price a) \<and>
        (GetPreviousDepth ad symbol \<noteq> 0 \<longrightarrow>
          2 * \<bar>GetCurrentDepth ad symbol - GetPreviousDepth ad symbol\<bar> \<le> GetPreviousDepth ad symbol))"
  using assms
  by (auto simp: CheckAfterUpdate_def CheckCrossedBook_def CheckDepthChange_def Let_def IsResyncing_def
      GetCurrentDepth_def GetPreviousDepth_def resync_other RequestResync_def resync_state
      split: prod.splits list.splits if_splits option.splits)

theorem CheckAfterUpdate_spec_witness:
  "IsResyncing (ad_ob (fst (CheckAfterUpdate ''X''
     (\<lparr>ad_previousDepth = (\<lambda>_. 1), ad_ob = sample_book\<rparr>)))) ''X''"
proof -
  let ?ad = "\<lparr>ad_previousDepth = (\<lambda>_. 1), ad_ob = sample_book\<rparr>"
  have "snd (CheckAfterUpdate ''X'' ?ad)"
    by (simp add: CheckAfterUpdate_def CheckCrossedBook_def CheckDepthChange_def Let_def
        IsResyncing_def GetCurrentDepth_def sample_books lvl_def)
  then show ?thesis
    using CheckAfterUpdate_spec [OF surjective_pairing, where symbol = "''X''" and ad = ?ad] sample_books by simp
qed

text \<open>On a two-sided book that is not crossed, the mid price lies between the best bid and
  the best ask up to one unit of the eighth decimal, and the spread is non-negative and within
  half a unit of the eighth decimal of the price difference; the spread of a crossed book is
  zero.\<close>

theorem mid_and_spread:
  assumes "declib_ok L" and "lob_books ob symbol = Some book"
    and "sb_bids book = b # bs" and "sb_asks book = a # as"
  shows "\<exists>m s. GetMidPrice L ob symbol = Inr m \<and> GetSpread L ob symbol = Inr s \<and> 0 \<le> s \<and>
    (pl_Price b \<le> pl_Price a \<longrightarrow> pl_Price b - 1 / 10 ^ 8 \<le> m \<and> m \<le> pl_Price a + 1 / 10 ^ 8 \<and>
      \<bar>s - (pl_Price a - pl_Price b)\<bar> \<le> 1 / (2 * 10 ^ 8)) \<and>
    (pl_Price a < pl_Price b \<longrightarrow> s = 0)"
proof -
  let ?x = "if pl_Price a - pl_Price b < 0 then 0 else pl_Price a - pl_Price b"
  note r = declib_round [OF assms(1), of 8 ?x]
  have s0: "0 \<le> dl_round L ?x 8" by (rule near_multiple_nonneg [OF r]) simp
  have "dl_round L 0 8 = 0"
  proof -
    obtain k :: int where k: "dl_round L 0 8 = of_int k / 10 ^ 8" "\<bar>dl_round L 0 8\<bar> \<le> 1 / (2 * 10 ^ 8)"
      using declib_round [OF assms(1), of 8 0] by (auto simp: near_multiple_def)
    then have "\<bar>of_int k :: rat\<bar> < 1" by (simp add: k(1))
    then have "k = 0" by linarith
    with k show ?thesis by simp
  qed
  moreover have "\<bar>dl_round L ?x 8 - ?x\<bar> \<le> 1 / (2 * 10 ^ 8)"
    using r by (simp add: near_multiple_def)
  moreover have "pl_Price b \<le> pl_Price a \<Longrightarrow>
      pl_Price b - 1 / 10 ^ 8 \<le> dl_round L (dl_div L (pl_Price b + pl_Price a) 2) 8 \<and>
      dl_round L (dl_div L (pl_Price b + pl_Price a) 2) 8 \<le> pl_Price a + 1 / 10 ^ 8"
    using rounded_quotient_bounds [OF assms(1), of 2 "pl_Price b" "pl_Price b + pl_Price a" "pl_Price a"]
    by simp
  ultimately show ?thesis
    using assms(2-4) s0 by (auto simp: GetMidPrice_def GetSpread_def Let_def split: if_splits)
qed

theorem mid_and_spread_witness:
  "\<exists>m s. GetMidPrice std_declib sample_book ''X'' = Inr m \<and> GetSpread std_declib sample_book ''X'' = Inr s \<and>
     100 - 1 / 10 ^ 8 \<le> m \<and> m \<le> 101 + 1 / 10 ^ 8 \<and> 0 \<le> s"
  using mid_and_spread [OF std_declib_ok sample_books] by (force simp: lvl_def)

end
