(* ===== verification/Grid.thy ===== *)
theory Grid
  imports Models
begin

text \<open>
  The grid strategy: the price levels (\<open>src/internal/strategy/grid.go\<close>), the initial orders
  (\<open>grid_orders.go\<close>) and the handling of fills with their counter orders and retries
  (\<open>grid_fill.go\<close>).

  Geometric grids are computed with \<open>float64\<close>; the conversions and \<open>math.Pow\<close> are the fields
  of a parameter \<open>'f floatlib\<close> over an abstract float type, and \<open>NewFromFloat\<close> (which panics
  on NaN and infinities) is a partial conversion back. Order placement is an interface; it is
  a parameter that threads the state \<open>'w\<close> of the outside world.
\<close>

section \<open>Grid levels\<close>

record 'f floatlib =
  fl_of_decimal :: "decimal \<Rightarrow> 'f"
  fl_of_int :: "int \<Rightarrow> 'f"
  fl_div :: "'f \<Rightarrow> 'f \<Rightarrow> 'f"
  fl_mul :: "'f \<Rightarrow> 'f \<Rightarrow> 'f"
  fl_pow :: "'f \<Rightarrow> 'f \<Rightarrow> 'f"
  fl_to_decimal :: "'f \<Rightarrow> decimal option"

datatype grid_error =
    ErrInvalidGridCount
  | ErrInvalidPriceRange
  | ErrPriceNotPositive
  | ErrUnknownGridType
  | ErrLevelCount
  | ErrNotAscending
  | ErrFirstLevel
  | ErrLastLevel

definition calculateArithmeticLevels :: "declib \<Rightarrow> decimal \<Rightarrow> decimal \<Rightarrow> nat \<Rightarrow> decimal list" where
  "calculateArithmeticLevels L lower upper gridCount =
     (let step = dl_div L (upper - lower) (of_nat gridCount);
          levels = map (\<lambda>i. lower + step * of_nat i) [0..<gridCount + 1]
      in levels[gridCount := upper])"

definition geometric_level ::
  "'f floatlib \<Rightarrow> decimal \<Rightarrow> decimal \<Rightarrow> nat \<Rightarrow> 'f \<Rightarrow> nat \<Rightarrow> decimal outcome" where
  "geometric_level F lower upper gridCount ratio i =
     (if i = 0 then Returned lower
      else if i = gridCount then Returned upper
      else
        let multiplier = fl_pow F ratio (fl_of_int F (int i)) in
        case fl_to_decimal F (fl_mul F (fl_of_decimal F lower) multiplier) of
          None \<Rightarrow> Panicked
        | Some level \<Rightarrow> Returned level)"

fun collect_levels :: "(nat \<Rightarrow> decimal outcome) \<Rightarrow> nat list \<Rightarrow> decimal list outcome" where
  "collect_levels f [] = Returned []"
| "collect_levels f (i # is) =
     (case f i of
        Panicked \<Rightarrow> Panicked
      | Returned level \<Rightarrow>
          (case collect_levels f is of
             Panicked \<Rightarrow> Panicked
           | Returned levels \<Rightarrow> Returned (level # levels)))"

definition calculateGeometricLevels ::
  "'f floatlib \<Rightarrow> decimal \<Rightarrow> decimal \<Rightarrow> nat \<Rightarrow> decimal list outcome" where
  "calculateGeometricLevels F lower upper gridCount =
     (let lowerF = fl_of_decimal F lower;
          upperF = fl_of_decimal F upper;
          ratio = fl_pow F (fl_div F upperF lowerF)
                    (fl_div F (fl_of_int F 1) (fl_of_int F (int gridCount)))
      in collect_levels (geometric_level F lower upper gridCount ratio) [0..<gridCount + 1])"

fun ascending_check :: "decimal list \<Rightarrow> bool" where
  "ascending_check (a # b # rest) = (if b \<le> a then False else ascending_check (b # rest))"
| "ascending_check _ = True"

definition validateLevels :: "decimal list \<Rightarrow> decimal \<Rightarrow> decimal \<Rightarrow> nat \<Rightarrow> grid_error option" where
  "validateLevels levels lower upper gridCount =
     (if length levels \<noteq> gridCount + 1 then Some ErrLevelCount
      else if \<not> ascending_check levels then Some ErrNotAscending
      else if \<bar>levels ! 0 - lower\<bar> > lower * (1 / 10000) then Some ErrFirstLevel
      else if \<bar>levels ! (length levels - 1) - upper\<bar> > (upper - lower) * (1 / 10 ^ 9)
      then Some ErrLastLevel
      else None)"

definition CalculateGridLevels ::
  "declib \<Rightarrow> 'f floatlib \<Rightarrow> GridConfig \<Rightarrow> (grid_error + decimal list) outcome" where
  "CalculateGridLevels L F config =
     (if gc_GridCount config < 1 then Returned (Inl ErrInvalidGridCount)
      else if \<not> (0 < gc_LowerPrice config) \<or> \<not> (0 < gc_UpperPrice config)
      then Returned (Inl ErrPriceNotPositive)
      else if gc_UpperPrice config \<le> gc_LowerPrice config
      then Returned (Inl ErrInvalidPriceRange)
      else
        let gridCount = nat (gc_GridCount config);
            computed =
              (case gc_GridType config of
                 GridTypeArithmetic \<Rightarrow>
                   Returned (Inr (calculateArithmeticLevels L (gc_LowerPrice config) (gc_UpperPrice config) gridCount))
               | GridTypeGeometric \<Rightarrow>
                   (case calculateGeometricLevels F (gc_LowerPrice config) (gc_UpperPrice config) gridCount of
                      Panicked \<Rightarrow> Panicked | Returned ls \<Rightarrow> Returned (Inr ls))
               | GridTypeOther _ \<Rightarrow> Returned (Inl ErrUnknownGridType))
        in case computed of
             Panicked \<Rightarrow> Panicked
           | Returned (Inl e) \<Rightarrow> Returned (Inl e)
           | Returned (Inr levels) \<Rightarrow>
               (case validateLevels levels (gc_LowerPrice config) (gc_UpperPrice config) gridCount of
                  Some e \<Rightarrow> Returned (Inl e)
                | None \<Rightarrow> Returned (Inr levels)))"

section \<open>Initial orders\<close>

definition grid_order :: "GridConfig \<Rightarrow> Side \<Rightarrow> decimal \<Rightarrow> decimal \<Rightarrow> Order" where
  "grid_order config side price quantity =
     zero_Order\<lparr>o_Symbol := gc_Symbol config, o_Side := side, o_OrderType := OrderTypePostOnly,
       o_Price := price, o_Quantity := quantity, o_Status := OrderStatusPending\<rparr>"

fun PlaceGridOrders :: "decimal list \<Rightarrow> decimal \<Rightarrow> GridConfig \<Rightarrow> Order list" where
  "PlaceGridOrders [] currentPrice config = []"
| "PlaceGridOrders (levelPrice # levels) currentPrice config =
     (if levelPrice < currentPrice
      then grid_order config SideBuy levelPrice (gc_OrderSize config) #
        PlaceGridOrders levels currentPrice config
      else if levelPrice > currentPrice
      then grid_order config SideSell levelPrice (gc_OrderSize config) #
        PlaceGridOrders levels currentPrice config
      else PlaceGridOrders levels currentPrice config)"

section \<open>Fill handling\<close>

definition maxRetries :: nat where
  "maxRetries = 3"

definition retryInterval :: duration where
  "retryInterval = 1000000000"

datatype 'e fill_error =
    ErrInvalidFillLevel
  | ErrInvalidFillSide
  | ErrNoLevelsConfigured
  | ErrNilConfig
  | ErrPlacementFailed nat 'e

datatype fill_reason =
    NoReason
  | BuyAtHighestLevel
  | ProfitCheckFailed decimal decimal
  | SellAtLowestLevel
  | PositionLimit decimal decimal
  | RequiresManualIntervention

record GridState =
  gst_Levels :: "GridLevel list"
  gst_Position :: decimal
  gst_AvgEntryPrice :: decimal
  gst_RealizedPnL :: decimal
  gst_TotalBuys :: int
  gst_TotalSells :: int

record 'e GridFillResult =
  gfr_CounterOrder :: "Order option"
  gfr_RealizedPnL :: decimal
  gfr_NeedsManualIntervention :: bool
  gfr_Error :: "'e fill_error option"
  gfr_Reason :: fill_reason

definition updatePositionOnBuy :: "declib \<Rightarrow> GridState \<Rightarrow> decimal \<Rightarrow> decimal \<Rightarrow> GridState outcome" where
  "updatePositionOnBuy L st fillPrice fillQty =
     (if gst_Position st = 0
      then Returned (st\<lparr>gst_AvgEntryPrice := fillPrice, gst_Position := fillQty\<rparr>)
      else if 0 < gst_Position st
      then
        let totalCost = gst_AvgEntryPrice st * gst_Position st + fillPrice * fillQty;
            position = gst_Position st + fillQty
        in if position = 0 then Panicked
           else Returned (st\<lparr>gst_Position := position, gst_AvgEntryPrice := dl_div L totalCost position\<rparr>)
      else
        let position = gst_Position st + fillQty;
            st' = st\<lparr>gst_Position := position\<rparr>
        in if 0 < position then Returned (st'\<lparr>gst_AvgEntryPrice := fillPrice\<rparr>) else Returned st')"

definition updatePositionOnSell :: "GridState \<Rightarrow> decimal \<Rightarrow> GridState" where
  "updatePositionOnSell st fillQty =
     (let position = gst_Position st - fillQty in
      if position \<le> 0 then st\<lparr>gst_Position := 0, gst_AvgEntryPrice := 0\<rparr>
      else st\<lparr>gst_Position := position\<rparr>)"

definition setBuyFlag :: "GridState \<Rightarrow> nat \<Rightarrow> bool \<Rightarrow> GridState" where
  "setBuyFlag st i b =
     st\<lparr>gst_Levels := (gst_Levels st)[i := (gst_Levels st ! i)\<lparr>gl_HasBuyOrder := b\<rparr>]\<rparr>"

definition setSellFlag :: "GridState \<Rightarrow> nat \<Rightarrow> bool \<Rightarrow> GridState" where
  "setSellFlag st i b =
     st\<lparr>gst_Levels := (gst_Levels st)[i := (gst_Levels st ! i)\<lparr>gl_HasSellOrder := b\<rparr>]\<rparr>"

text \<open>The fill level has been checked to be in range when these two are called.\<close>

definition handleBuyFill ::
  "declib \<Rightarrow> FillEvent \<Rightarrow> GridState \<Rightarrow> GridConfig \<Rightarrow> 'e GridFillResult \<Rightarrow>
    (GridState \<times> 'e GridFillResult) outcome" where
  "handleBuyFill L fill st config result =
     (case updatePositionOnBuy L st (fe_Price fill) (fe_Quantity fill) of
        Panicked \<Rightarrow> Panicked
      | Returned st1 \<Rightarrow>
          let level = nat (fe_GridLevel fill);
              st2 = st1\<lparr>gst_TotalBuys := gst_TotalBuys st1 + 1\<rparr>;
              st3 = setBuyFlag st2 level False;
              targetLevel = level + 1
          in if targetLevel \<ge> length (gst_Levels st3)
             then Returned (st3, result\<lparr>gfr_Reason := BuyAtHighestLevel\<rparr>)
             else
               let sellPrice = gl_Price (gst_Levels st3 ! targetLevel);
                   expectedProfit = (sellPrice - fe_Price fill) * fe_Quantity fill;
                   buyNotional = fe_Quantity fill * fe_Price fill;
                   sellNotional = fe_Quantity fill * sellPrice;
                   fees = (buyNotional + sellNotional) * gc_FeeRate config
               in if expectedProfit \<le> fees
                  then Returned (st3, result\<lparr>gfr_Reason := ProfitCheckFailed expectedProfit fees\<rparr>)
                  else Returned (setSellFlag st3 targetLevel True,
                    result\<lparr>gfr_CounterOrder := Some (grid_order config SideSell sellPrice (fe_Quantity fill))\<rparr>))"

definition handleSellFill ::
  "FillEvent \<Rightarrow> GridState \<Rightarrow> GridConfig \<Rightarrow> 'e GridFillResult \<Rightarrow> GridState \<times> 'e GridFillResult" where
  "handleSellFill fill st config result =
     (let st1 = (if 0 < gst_AvgEntryPrice st
            then st\<lparr>gst_RealizedPnL := gst_RealizedPnL st +
                   (fe_Price fill - gst_AvgEntryPrice st) * fe_Quantity fill\<rparr>
            else st);
          result1 = result\<lparr>gfr_RealizedPnL := gst_RealizedPnL st1\<rparr>;
          st2 = updatePositionOnSell st1 (fe_Quantity fill);
          st3 = st2\<lparr>gst_TotalSells := gst_TotalSells st2 + 1\<rparr>;
          level = nat (fe_GridLevel fill);
          st4 = setSellFlag st3 level False
      in if fe_GridLevel fill - 1 < 0
         then (st4, result1\<lparr>gfr_Reason := SellAtLowestLevel\<rparr>)
         else
           let targetLevel = level - 1;
               buyPrice = gl_Price (gst_Levels st4 ! targetLevel);
               newPosition = gst_Position st4 + fe_Quantity fill
           in if 0 < gc_MaxPosition config \<and> newPosition > gc_MaxPosition config
              then (st4, result1\<lparr>gfr_Reason := PositionLimit newPosition (gc_MaxPosition config)\<rparr>)
              else (setBuyFlag st4 targetLevel True,
                result1\<lparr>gfr_CounterOrder := Some (grid_order config SideBuy buyPrice (fe_Quantity fill))\<rparr>))"

text \<open>
  \<open>state\<close> and \<open>config\<close> are pointers. The first statement reads \<open>state.RealizedPnL\<close>, before the
  \<open>nil\<close> check of \<open>state\<close>.
\<close>

definition HandleGridFill ::
  "declib \<Rightarrow> FillEvent \<Rightarrow> GridState option \<Rightarrow> GridConfig option \<Rightarrow>
    (GridState \<times> 'e GridFillResult) outcome" where
  "HandleGridFill L fill state config =
     (case state of
        None \<Rightarrow> Panicked
      | Some st \<Rightarrow>
          let result = \<lparr>gfr_CounterOrder = None, gfr_RealizedPnL = gst_RealizedPnL st,
                gfr_NeedsManualIntervention = False, gfr_Error = None, gfr_Reason = NoReason\<rparr>
          in (case config of
                None \<Rightarrow> Returned (st, result\<lparr>gfr_Error := Some ErrNilConfig\<rparr>)
              | Some cfg \<Rightarrow>
                  if length (gst_Levels st) = 0
                  then Returned (st, result\<lparr>gfr_Error := Some ErrNoLevelsConfigured\<rparr>)
                  else if fe_GridLevel fill < 0 \<or> fe_GridLevel fill \<ge> int (length (gst_Levels st))
                  then Returned (st, result\<lparr>gfr_Error := Some ErrInvalidFillLevel\<rparr>)
                  else (case fe_Side fill of
                      SideBuy \<Rightarrow> handleBuyFill L fill st cfg result
                    | SideSell \<Rightarrow> Returned (handleSellFill fill st cfg result)
                    | SideOther _ \<Rightarrow> Returned (st, result\<lparr>gfr_Error := Some ErrInvalidFillSide\<rparr>))))"

text \<open>
  The retry loop: \<open>left\<close> attempts remain; a failed attempt sleeps unless it was the last.
  The result is the world, the time slept and the last error (\<open>None\<close> after a success).
\<close>

fun place_with_retry ::
  "('w \<Rightarrow> Order \<Rightarrow> 'w \<times> 'e option) \<Rightarrow> Order \<Rightarrow> nat \<Rightarrow> 'w \<Rightarrow> duration \<Rightarrow> 'e option \<Rightarrow>
    'w \<times> duration \<times> 'e option" where
  "place_with_retry place order 0 w slept lastErr = (w, slept, lastErr)"
| "place_with_retry place order (Suc left) w slept lastErr =
     (case place w order of
        (w', None) \<Rightarrow> (w', slept, None)
      | (w', Some e) \<Rightarrow>
          place_with_retry place order left w' (if 0 < left then slept + retryInterval else slept) (Some e))"

definition HandleGridFillWithRetry ::
  "declib \<Rightarrow> ('w \<Rightarrow> Order \<Rightarrow> 'w \<times> 'e option) \<Rightarrow> FillEvent \<Rightarrow> GridState option \<Rightarrow> GridConfig option \<Rightarrow>
    'w \<Rightarrow> (GridState \<times> 'e GridFillResult \<times> 'w \<times> duration) outcome" where
  "HandleGridFillWithRetry L place fill state config w =
     (case HandleGridFill L fill state config of
        Panicked \<Rightarrow> Panicked
      | Returned (st, result) \<Rightarrow>
          (case (gfr_Error result, gfr_CounterOrder result) of
             (None, Some order) \<Rightarrow>
               (case place_with_retry place order maxRetries w 0 None of
                  (w', slept, None) \<Rightarrow> Returned (st, result, w', slept)
                | (w', slept, Some e) \<Rightarrow>
                    Returned (st, result\<lparr>gfr_NeedsManualIntervention := True,
                      gfr_Error := Some (ErrPlacementFailed maxRetries e),
                      gfr_Reason := RequiresManualIntervention\<rparr>, w', slept))
           | _ \<Rightarrow> Returned (st, result, w, 0)))"

section \<open>Lemmas: levels\<close>

lemma ascending_check_iff: "ascending_check xs \<longleftrightarrow> sorted_wrt (<) xs"
proof (induction xs rule: ascending_check.induct)
  case (1 a b rest)
  then show ?case by (cases "b \<le> a") (auto simp: not_le intro: less_trans)
qed auto

lemma ascending_check_nth:
  assumes "\<And>i. Suc i < length xs \<Longrightarrow> xs ! i < xs ! Suc i"
  shows "ascending_check xs"
  using assms
proof (induction xs rule: ascending_check.induct)
  case (1 a b rest)
  from "1.prems" [of 0] have "a < b" by simp
  moreover have "ascending_check (b # rest)"
    using "1.IH" "1.prems" [of "Suc i" for i] \<open>a < b\<close> by auto
  ultimately show ?case by simp
qed auto

lemma arithmetic_length [simp]: "length (calculateArithmeticLevels L lower upper n) = n + 1"
  by (simp add: calculateArithmeticLevels_def Let_def)

lemma arithmetic_nth:
  "i \<le> n \<Longrightarrow> calculateArithmeticLevels L lower upper n ! i =
     (if i = n then upper else lower + dl_div L (upper - lower) (of_nat n) * of_nat i)"
  by (simp add: calculateArithmeticLevels_def Let_def nth_append del: upt_Suc)

lemma collect_levels_Returned:
  "collect_levels f is = Returned ls \<Longrightarrow> length ls = length is \<and> (\<forall>k < length is. f (is ! k) = Returned (ls ! k))"
proof (induction "is" arbitrary: ls)
  case (Cons i "is")
  then obtain l ls' where "f i = Returned l" "collect_levels f is = Returned ls'" "ls = l # ls'"
    by (auto split: outcome.splits)
  with Cons.IH [of ls'] show ?case by (auto simp: nth_Cons split: nat.splits)
qed simp

lemma geometric_ends:
  assumes "calculateGeometricLevels F lower upper n = Returned ls" and "0 < n"
  shows "length ls = n + 1 \<and> ls ! 0 = lower \<and> ls ! n = upper"
proof -
  let ?f = "geometric_level F lower upper n (fl_pow F (fl_div F (fl_of_decimal F upper) (fl_of_decimal F lower))
    (fl_div F (fl_of_int F 1) (fl_of_int F (int n))))"
  note c = collect_levels_Returned [OF assms(1) [unfolded calculateGeometricLevels_def Let_def]]
  then have len: "length ls = n + 1" and nth: "\<And>k. k < n + 1 \<Longrightarrow> ?f k = Returned (ls ! k)"
    by (auto simp del: upt_Suc)
  from nth [of 0] nth [of n] assms(2) len show ?thesis by (simp add: geometric_level_def)
qed

lemma validateLevels_None:
  "validateLevels ls lower upper n = None \<Longrightarrow> length ls = n + 1 \<and> sorted_wrt (<) ls"
  by (auto simp: validateLevels_def ascending_check_iff split: if_splits)

section \<open>Lemmas: fills\<close>

definition keeps_levels :: "GridState \<Rightarrow> GridState \<Rightarrow> bool" where
  "keeps_levels st st' \<longleftrightarrow> map gl_Price (gst_Levels st') = map gl_Price (gst_Levels st) \<and>
     map gl_Index (gst_Levels st') = map gl_Index (gst_Levels st)"

lemma keeps_levels_refl [simp, inv_intros]: "keeps_levels st st"
  by (simp add: keeps_levels_def)

lemma keeps_levels_trans: "keeps_levels a b \<Longrightarrow> keeps_levels b c \<Longrightarrow> keeps_levels a c"
  by (simp add: keeps_levels_def)

lemma map_list_update_same:
  "f y = f (xs ! i) \<Longrightarrow> map f (xs[i := y]) = map f xs"
  by (cases "i < length xs") (simp_all add: map_update list_update_same_conv list_update_beyond)

lemma keeps_levels_flags [simp]:
  "keeps_levels st (setBuyFlag st i b)" "keeps_levels st (setSellFlag st i b)"
  by (simp_all add: keeps_levels_def setBuyFlag_def setSellFlag_def map_list_update_same)

lemma flag_frames [simp]:
  "gst_Position (setBuyFlag st i b) = gst_Position st" "gst_Position (setSellFlag st i b) = gst_Position st"
  "gst_AvgEntryPrice (setBuyFlag st i b) = gst_AvgEntryPrice st"
  "gst_AvgEntryPrice (setSellFlag st i b) = gst_AvgEntryPrice st"
  "gst_RealizedPnL (setBuyFlag st i b) = gst_RealizedPnL st"
  "gst_RealizedPnL (setSellFlag st i b) = gst_RealizedPnL st"
  "gst_TotalBuys (setBuyFlag st i b) = gst_TotalBuys st" "gst_TotalBuys (setSellFlag st i b) = gst_TotalBuys st"
  "gst_TotalSells (setBuyFlag st i b) = gst_TotalSells st" "gst_TotalSells (setSellFlag st i b) = gst_TotalSells st"
  "length (gst_Levels (setBuyFlag st i b)) = length (gst_Levels st)"
  "length (gst_Levels (setSellFlag st i b)) = length (gst_Levels st)"
  by (simp_all add: setBuyFlag_def setSellFlag_def)

lemma setSellFlag_price [simp]:
  "j < length (gst_Levels st) \<Longrightarrow> gl_Price (gst_Levels (setSellFlag st i b) ! j) = gl_Price (gst_Levels st ! j)"
  "j < length (gst_Levels st) \<Longrightarrow> gl_Price (gst_Levels (setBuyFlag st i b) ! j) = gl_Price (gst_Levels st ! j)"
  by (cases "i < length (gst_Levels st)";
      auto simp: setSellFlag_def setBuyFlag_def nth_list_update list_update_beyond)+

lemma updatePositionOnBuy_frame:
  assumes "updatePositionOnBuy L st p q = Returned st'"
  shows "gst_Levels st' = gst_Levels st \<and> gst_RealizedPnL st' = gst_RealizedPnL st \<and>
    gst_TotalBuys st' = gst_TotalBuys st \<and> gst_TotalSells st' = gst_TotalSells st \<and>
    gst_Position st' = gst_Position st + q"
  using assms by (auto simp: updatePositionOnBuy_def Let_def split: if_splits)

text \<open>
  The position invariant: never short, and while long the average entry price lies within
  the range \<open>[lo, hi]\<close> of the buy prices. The bounds are prices of at most 16 decimals, which
  rounding does not cross.
\<close>

definition grid_price :: "decimal \<Rightarrow> bool" where
  "grid_price p \<longleftrightarrow> (\<exists>m::int. p = of_int m / 10 ^ 16)"

definition position_inv :: "decimal \<Rightarrow> decimal \<Rightarrow> GridState \<Rightarrow> bool" where
  "position_inv lo hi st \<longleftrightarrow> 0 \<le> gst_Position st \<and>
     (0 < gst_Position st \<longrightarrow> lo \<le> gst_AvgEntryPrice st \<and> gst_AvgEntryPrice st \<le> hi)"

lemma weighted_average:
  fixes a p x q :: rat
  assumes "0 < x" "0 < q" "lo \<le> a" "a \<le> hi" "lo \<le> p" "p \<le> hi"
  shows "lo \<le> (a * x + p * q) / (x + q)" and "(a * x + p * q) / (x + q) \<le> hi"
proof -
  have "lo * x \<le> a * x" "a * x \<le> hi * x" "lo * q \<le> p * q" "p * q \<le> hi * q"
    using assms by (auto intro: mult_right_mono)
  then have "lo * (x + q) \<le> a * x + p * q" "a * x + p * q \<le> hi * (x + q)"
    by (auto simp: distrib_left)
  then show "lo \<le> (a * x + p * q) / (x + q)" and "(a * x + p * q) / (x + q) \<le> hi"
    using assms(1,2) by (auto simp: pos_le_divide_eq pos_divide_le_eq)
qed

lemma rounded_average:
  assumes "declib_ok L" "grid_price lo" "grid_price hi" "0 < x" "0 < q" "lo \<le> a" "a \<le> hi" "lo \<le> p" "p \<le> hi"
  shows "lo \<le> dl_div L (a * x + p * q) (x + q) \<and> dl_div L (a * x + p * q) (x + q) \<le> hi"
proof -
  have d: "near_multiple 16 ((a * x + p * q) / (x + q)) (dl_div L (a * x + p * q) (x + q))"
    using assms(1,4,5) by (intro declib_div) auto
  from assms(2,3) obtain m n where "lo = of_int m / 10 ^ 16" "hi = of_int n / 10 ^ 16"
    by (auto simp: grid_price_def)
  then show ?thesis
    using near_multiple_mono_grid [OF d, of m] near_multiple_le_grid [OF d, of n]
      weighted_average [OF assms(4-9)] by (simp only:)
qed

lemma updatePositionOnBuy_inv:
  assumes "declib_ok L" "grid_price lo" "grid_price hi" "position_inv lo hi st"
    and "0 < q" "lo \<le> p" "p \<le> hi"
  shows "\<exists>st'. updatePositionOnBuy L st p q = Returned st' \<and> position_inv lo hi st'"
  using assms rounded_average [OF assms(1-3), of "gst_Position st" q "gst_AvgEntryPrice st" p]
  by (auto simp: updatePositionOnBuy_def position_inv_def Let_def)

lemma updatePositionOnSell_inv:
  "position_inv lo hi st \<Longrightarrow> 0 < q \<Longrightarrow> position_inv lo hi (updatePositionOnSell st q)"
  by (auto simp: updatePositionOnSell_def position_inv_def Let_def)

lemma updatePositionOnSell_frame [simp]:
  "gst_Levels (updatePositionOnSell st q) = gst_Levels st"
  "gst_RealizedPnL (updatePositionOnSell st q) = gst_RealizedPnL st"
  "gst_TotalBuys (updatePositionOnSell st q) = gst_TotalBuys st"
  "gst_TotalSells (updatePositionOnSell st q) = gst_TotalSells st"
  by (simp_all add: updatePositionOnSell_def Let_def)

lemma position_inv_cong:
  "gst_Position st' = gst_Position st \<Longrightarrow> gst_AvgEntryPrice st' = gst_AvgEntryPrice st \<Longrightarrow>
    position_inv lo hi st \<Longrightarrow> position_inv lo hi st'"
  by (simp add: position_inv_def)

definition good_fill :: "decimal \<Rightarrow> decimal \<Rightarrow> FillEvent \<Rightarrow> bool" where
  "good_fill lo hi fill \<longleftrightarrow> 0 < fe_Quantity fill \<and> lo \<le> fe_Price fill \<and> fe_Price fill \<le> hi"

lemma handleBuyFill_inv:
  assumes "declib_ok L" "grid_price lo" "grid_price hi" "position_inv lo hi st" "good_fill lo hi fill"
  shows "\<exists>st' r. handleBuyFill L fill st cfg result = Returned (st', r) \<and> position_inv lo hi st' \<and>
    keeps_levels st st'"
proof -
  obtain st1 where st1: "updatePositionOnBuy L st (fe_Price fill) (fe_Quantity fill) = Returned st1"
    "position_inv lo hi st1"
    using updatePositionOnBuy_inv [OF assms(1-4)] assms(5) by (auto simp: good_fill_def)
  have lv: "gst_Levels st1 = gst_Levels st" using updatePositionOnBuy_frame [OF st1(1)] by simp
  let ?st3 = "setBuyFlag (st1\<lparr>gst_TotalBuys := gst_TotalBuys st1 + 1\<rparr>) (nat (fe_GridLevel fill)) False"
  have "position_inv lo hi ?st3" by (rule position_inv_cong [OF _ _ st1(2)]) simp_all
  moreover have "keeps_levels st ?st3"
    using keeps_levels_flags(1) [of "st1\<lparr>gst_TotalBuys := gst_TotalBuys st1 + 1\<rparr>"] lv
    by (simp add: keeps_levels_def)
  moreover have "position_inv lo hi (setSellFlag ?st3 i b) \<longleftrightarrow> position_inv lo hi ?st3" for i b
    by (simp add: position_inv_def)
  ultimately show ?thesis
    using st1(1) by (auto simp: handleBuyFill_def Let_def intro: keeps_levels_trans)
qed

lemma handleSellFill_inv:
  assumes "position_inv lo hi st" "good_fill lo hi fill"
  shows "position_inv lo hi (fst (handleSellFill fill st cfg result)) \<and>
    keeps_levels st (fst (handleSellFill fill st cfg result))"
proof -
  let ?st1 = "if 0 < gst_AvgEntryPrice st
    then st\<lparr>gst_RealizedPnL := gst_RealizedPnL st + (fe_Price fill - gst_AvgEntryPrice st) * fe_Quantity fill\<rparr>
    else st"
  let ?st2 = "updatePositionOnSell ?st1 (fe_Quantity fill)"
  let ?st4 = "setSellFlag (?st2\<lparr>gst_TotalSells := gst_TotalSells ?st2 + 1\<rparr>) (nat (fe_GridLevel fill)) False"
  have "position_inv lo hi ?st1" using assms(1) by (simp add: position_inv_def)
  then have "position_inv lo hi ?st2"
    using assms(2) by (intro updatePositionOnSell_inv) (simp_all add: good_fill_def)
  then have "position_inv lo hi ?st4" by (rule position_inv_cong [rotated 2]) simp_all
  moreover have "keeps_levels st ?st4"
    using keeps_levels_flags(2) [of "?st2\<lparr>gst_TotalSells := gst_TotalSells ?st2 + 1\<rparr>"]
    by (simp add: keeps_levels_def)
  moreover have "position_inv lo hi (setBuyFlag ?st4 i b) \<longleftrightarrow> position_inv lo hi ?st4" for i b
    by (simp add: position_inv_def)
  ultimately show ?thesis
    by (auto simp: handleSellFill_def Let_def intro: keeps_levels_trans)
qed

lemma HandleGridFill_inv:
  assumes "declib_ok L" "grid_price lo" "grid_price hi" "position_inv lo hi st" "good_fill lo hi fill"
  shows "\<exists>st' r. HandleGridFill L fill (Some st) config = Returned (st', r) \<and> position_inv lo hi st' \<and>
    keeps_levels st st'"
proof -
  note buy = handleBuyFill_inv [OF assms] and sell = handleSellFill_inv [OF assms(4,5)]
  have sell': "\<exists>st' r. handleSellFill fill st cfg result = (st', r) \<and> position_inv lo hi st' \<and>
      keeps_levels st st'" for cfg and result :: "'b GridFillResult"
    using sell [of cfg result] by (metis prod.collapse)
  show ?thesis
    using buy sell' assms(4)
    by (auto simp: HandleGridFill_def Let_def split: option.splits Side.splits)
qed

section \<open>Lemmas: the arithmetic grid and the retry loop\<close>

text \<open>How far the computed levels are from the ideal ones, and that they ascend when the grid
  interval is coarse enough for the sixteen decimals of the step.\<close>

lemma arithmetic_error:
  assumes "declib_ok L" and "0 < n" and "i \<le> n"
  shows "\<bar>calculateArithmeticLevels L lower upper n ! i -
      (lower + of_nat i * (upper - lower) / of_nat n)\<bar> \<le> of_nat i / (2 * 10 ^ 16)"
proof (cases "i = n")
  case True
  with assms(2) show ?thesis by (simp add: arithmetic_nth)
next
  case False
  let ?s = "dl_div L (upper - lower) (of_nat n)" and ?d = "(upper - lower) / of_nat n :: rat"
  have e: "\<bar>?s - ?d\<bar> \<le> 1 / (2 * 10 ^ 16)"
    using declib_div [OF assms(1), of "of_nat n" "upper - lower"] assms(2) by (simp add: near_multiple_def)
  have "calculateArithmeticLevels L lower upper n ! i - (lower + of_nat i * (upper - lower) / of_nat n) =
      of_nat i * (?s - ?d)"
    using False assms(3) by (simp add: arithmetic_nth right_diff_distrib mult.commute)
  then show ?thesis
    using mult_left_mono [OF e, of "of_nat i"] by (simp add: abs_mult)
qed

lemma arithmetic_ascending:
  assumes "declib_ok L" and "0 < n" and "of_nat n / 10 ^ 16 \<le> (upper - lower) / of_nat n"
  shows "ascending_check (calculateArithmeticLevels L lower upper n)"
proof (rule ascending_check_nth)
  fix i
  assume "Suc i < length (calculateArithmeticLevels L lower upper n)"
  then have i: "i < n" by simp
  define s where "s = dl_div L (upper - lower) (of_nat n)"
  define d where "d = (upper - lower) / of_nat n"
  define e :: rat where "e = 1 / (2 * 10 ^ 16)"
  have sd: "d - e \<le> s" "s \<le> d + e"
    using near_multiple_bounds [OF declib_div [OF assms(1), of "of_nat n" "upper - lower"]] assms(2)
    by (auto simp: s_def d_def e_def)
  have n1: "(1::rat) \<le> of_nat n" using assms(2) by simp
  have dn: "2 * of_nat n * e \<le> d" using assms(3) by (simp add: d_def e_def)
  have e0: "0 < e" by (simp add: e_def)
  then have "2 * e \<le> 2 * of_nat n * e" using n1 by simp
  with dn sd e0 have s0: "0 < s" by linarith
  show "calculateArithmeticLevels L lower upper n ! i < calculateArithmeticLevels L lower upper n ! Suc i"
  proof (cases "Suc i = n")
    case False
    with i s0 show ?thesis by (simp add: arithmetic_nth s_def [symmetric] distrib_left)
  next
    case True
    then have ni: "of_nat n = of_nat i + (1::rat)" by (metis of_nat_Suc add.commute)
    have "upper - lower = d * of_nat n" using assms(2) by (simp add: d_def)
    then have "upper - lower = d * of_nat i + d" by (simp add: ni distrib_left)
    moreover have "s * of_nat i \<le> (d + e) * of_nat i" using sd(2) by (intro mult_right_mono) auto
    moreover have "(d + e) * of_nat i = d * of_nat i + e * of_nat n - e"
      by (simp add: ni distrib_left distrib_right)
    moreover have "0 \<le> e * of_nat n" using e0 by simp
    then have "e * of_nat n \<le> d" using dn by (simp add: mult.commute)
    ultimately have "lower + s * of_nat i < upper" using e0 by linarith
    with True i show ?thesis by (simp add: arithmetic_nth s_def [symmetric])
  qed
qed

definition after_attempts :: "('w \<Rightarrow> Order \<Rightarrow> 'w \<times> 'e option) \<Rightarrow> Order \<Rightarrow> nat \<Rightarrow> 'w \<Rightarrow> 'w" where
  "after_attempts place order k w = ((\<lambda>w. fst (place w order)) ^^ k) w"

lemma after_attempts_simps [simp]:
  "after_attempts place order 0 w = w"
  "after_attempts place order (Suc k) w = after_attempts place order k (fst (place w order))"
  by (simp_all add: after_attempts_def funpow_Suc_right del: funpow.simps(2))

lemma place_with_retry_result:
  assumes "place_with_retry place order n w slept err = (w', t, err')"
  shows "(\<exists>k < n. (\<forall>j < k. snd (place (after_attempts place order j w) order) \<noteq> None) \<and>
        snd (place (after_attempts place order k w) order) = None \<and>
        w' = after_attempts place order (Suc k) w \<and> t = slept + int k * retryInterval \<and> err' = None) \<or>
    ((\<forall>j < n. snd (place (after_attempts place order j w) order) \<noteq> None) \<and>
        w' = after_attempts place order n w \<and> t = slept + int (n - 1) * retryInterval \<and>
        err' = (if n = 0 then err else snd (place (after_attempts place order (n - 1) w) order)))"
  using assms
proof (induction n arbitrary: w slept err)
  case 0
  then show ?case by simp
next
  case (Suc n)
  obtain w1 r where p: "place w order = (w1, r)" by fastforce
  show ?case
  proof (cases r)
    case None
    with Suc.prems p show ?thesis by (intro disjI1 exI [of _ 0]) auto
  next
    case (Some e)
    let ?s = "if 0 < n then slept + retryInterval else slept"
    have rec: "place_with_retry place order n w1 ?s (Some e) = (w', t, err')"
      using Suc.prems p Some by simp
    from Suc.IH [OF rec] show ?thesis
    proof (elim disjE exE conjE)
      fix k
      assume k: "k < n" "\<forall>j<k. snd (place (after_attempts place order j w1) order) \<noteq> None"
        "snd (place (after_attempts place order k w1) order) = None"
        "w' = after_attempts place order (Suc k) w1" "t = ?s + int k * retryInterval" "err' = None"
      show ?thesis
        using k p Some by (intro disjI1 exI [of _ "Suc k"])
          (auto simp: less_Suc_eq_0_disj algebra_simps)
    next
      assume k: "\<forall>j<n. snd (place (after_attempts place order j w1) order) \<noteq> None"
        "w' = after_attempts place order n w1" "t = ?s + int (n - 1) * retryInterval"
        "err' = (if n = 0 then Some e else snd (place (after_attempts place order (n - 1) w1) order))"
      show ?thesis
        using k p Some by (cases n) (auto simp: less_Suc_eq_0_disj algebra_simps)
    qed
  qed
qed

section \<open>Sequences of fills\<close>

text \<open>The state after a list of fills; a panic would end the run.\<close>

fun run_fills :: "declib \<Rightarrow> GridConfig option \<Rightarrow> GridState \<Rightarrow> FillEvent list \<Rightarrow> GridState outcome" where
  "run_fills L config st [] = Returned st"
| "run_fills L config st (fill # fills) =
     (case (HandleGridFill L fill (Some st) config :: (GridState \<times> unit GridFillResult) outcome) of
        Panicked \<Rightarrow> Panicked
      | Returned (st', _) \<Rightarrow> run_fills L config st' fills)"

lemma run_fills_inv:
  assumes "declib_ok L" "grid_price lo" "grid_price hi"
    and "position_inv lo hi st" and "list_all (good_fill lo hi) fills"
  shows "\<exists>st'. run_fills L config st fills = Returned st' \<and> position_inv lo hi st' \<and> keeps_levels st st'"
  using assms(4,5)
proof (induction fills arbitrary: st)
  case (Cons fill fills)
  from Cons.prems(2) have g: "good_fill lo hi fill" by simp
  obtain st1 and r :: "unit GridFillResult" where st1: "HandleGridFill L fill (Some st) config = Returned (st1, r)"
    "position_inv lo hi st1" "keeps_levels st st1"
    using HandleGridFill_inv [OF assms(1-3) Cons.prems(1) g] by blast
  obtain st2 where "run_fills L config st1 fills = Returned st2" "position_inv lo hi st2" "keeps_levels st1 st2"
    using Cons.IH [OF st1(2)] Cons.prems(2) by auto
  with st1 show ?case by (auto intro: keeps_levels_trans)
qed simp

section \<open>Properties\<close>

subsection \<open>A grid to evaluate\<close>

definition sample_config :: GridConfig where
  "sample_config = \<lparr>gc_Symbol = ''X'', gc_UpperPrice = 110, gc_LowerPrice = 100, gc_GridCount = 2,
     gc_GridType = GridTypeArithmetic, gc_OrderSize = 1, gc_MaxPosition = 5, gc_FeeRate = 1 / 1000,
     gc_TakeProfitRatio = 0, gc_StopLossRatio = 0, gc_ReinvestProfit = False, gc_Drift = None\<rparr>"

definition sample_level :: "int \<Rightarrow> decimal \<Rightarrow> GridLevel" where
  "sample_level i p = \<lparr>gl_Index = i, gl_Price = p, gl_HasBuyOrder = True, gl_HasSellOrder = False, gl_OrderId = []\<rparr>"

definition sample_state :: GridState where
  "sample_state = \<lparr>gst_Levels = [sample_level 0 100, sample_level 1 105, sample_level 2 110],
     gst_Position = 0, gst_AvgEntryPrice = 0, gst_RealizedPnL = 0, gst_TotalBuys = 0, gst_TotalSells = 0\<rparr>"

definition sample_fill :: "Side \<Rightarrow> int \<Rightarrow> decimal \<Rightarrow> FillEvent" where
  "sample_fill side level p = \<lparr>fe_OrderID = [], fe_ClientOrderID = [], fe_ExchangeOrderID = [],
     fe_ExchangeFillID = [], fe_Symbol = ''X'', fe_Side = side, fe_Price = p, fe_Quantity = 1,
     fe_CumulativeQuantity = 1, fe_Fee = 0, fe_FeeCurrency = [], fe_Timestamp = 0, fe_StrategyID = [],
     fe_GridLevel = level, fe_IsMaker = True\<rparr>"

subsection \<open>Statements\<close>

text \<open>Whatever the float and decimal libraries compute, levels that
  \<open>CalculateGridLevels\<close> returns without an error are exactly \<open>gridCount + 1\<close> strictly ascending
  prices that start at the lower and end at the upper price, for arithmetic and geometric grids
  alike.\<close>

theorem CalculateGridLevels_shape:
  assumes "CalculateGridLevels L F config = Returned (Inr levels)"
  shows "length levels = nat (gc_GridCount config) + 1 \<and> sorted_wrt (<) levels \<and>
    levels ! 0 = gc_LowerPrice config \<and> levels ! nat (gc_GridCount config) = gc_UpperPrice config"
proof -
  let ?n = "nat (gc_GridCount config)"
  have n: "0 < ?n" and v: "validateLevels levels (gc_LowerPrice config) (gc_UpperPrice config) ?n = None"
    and c: "levels = calculateArithmeticLevels L (gc_LowerPrice config) (gc_UpperPrice config) ?n \<or>
      calculateGeometricLevels F (gc_LowerPrice config) (gc_UpperPrice config) ?n = Returned levels"
    using assms by (auto simp: CalculateGridLevels_def Let_def
        split: if_splits GridType.splits outcome.splits option.splits sum.splits)
  from c n have "levels ! 0 = gc_LowerPrice config \<and> levels ! ?n = gc_UpperPrice config"
    by (auto simp: arithmetic_nth dest: geometric_ends)
  with validateLevels_None [OF v] show ?thesis by simp
qed

definition sample_floats :: "rat floatlib" where
  "sample_floats = \<lparr>fl_of_decimal = id, fl_of_int = of_int, fl_div = (/), fl_mul = (*),
     fl_pow = (\<lambda>x y. x), fl_to_decimal = Some\<rparr>"

theorem CalculateGridLevels_shape_witness:
  "length [100, 105, 110 :: decimal] = nat (gc_GridCount sample_config) + 1 \<and>
    sorted_wrt (<) [100, 105, 110 :: decimal]"
proof -
  have "CalculateGridLevels (std_declib\<lparr>dl_div := (/)\<rparr>) sample_floats sample_config = Returned (Inr [100, 105, 110])"
    by (simp add: CalculateGridLevels_def sample_config_def calculateArithmeticLevels_def validateLevels_def
        upt_rec numeral_2_eq_2)
  from CalculateGridLevels_shape [OF this] show ?thesis by simp
qed

text \<open>A valid arithmetic configuration whose grid interval is at least \<open>gridCount\<close> units of
  the sixteenth decimal is always accepted, and level \<open>i\<close> is within \<open>i / 2\<close> units of the
  sixteenth decimal of \<open>lower + i * (upper - lower) / gridCount\<close>.\<close>

theorem arithmetic_grid_accurate:
  assumes "declib_ok L" and "gc_GridType config = GridTypeArithmetic" and "1 \<le> gc_GridCount config"
    and "0 < gc_LowerPrice config" and "gc_LowerPrice config < gc_UpperPrice config"
    and "of_int (gc_GridCount config) / 10 ^ 16 \<le>
      (gc_UpperPrice config - gc_LowerPrice config) / of_int (gc_GridCount config)"
  shows "\<exists>levels. CalculateGridLevels L F config = Returned (Inr levels) \<and>
    (\<forall>i \<le> nat (gc_GridCount config).
      \<bar>levels ! i - (gc_LowerPrice config +
         of_nat i * (gc_UpperPrice config - gc_LowerPrice config) / of_int (gc_GridCount config))\<bar>
        \<le> of_nat i / (2 * 10 ^ 16))"
proof -
  let ?n = "nat (gc_GridCount config)"
  let ?ls = "calculateArithmeticLevels L (gc_LowerPrice config) (gc_UpperPrice config) ?n"
  have n: "0 < ?n" "of_nat ?n = (of_int (gc_GridCount config) :: rat)" using assms(3) by auto
  have asc: "ascending_check ?ls" using assms(6) n(1) by (intro arithmetic_ascending [OF assms(1)]) (simp_all add: n(2))
  have "validateLevels ?ls (gc_LowerPrice config) (gc_UpperPrice config) ?n = None"
    using n asc assms(4,5) by (simp add: validateLevels_def arithmetic_nth)
  then have "CalculateGridLevels L F config = Returned (Inr ?ls)"
    using assms(2-5) by (simp add: CalculateGridLevels_def)
  then show ?thesis using arithmetic_error [OF assms(1) n(1)] by (auto simp: n(2))
qed

theorem arithmetic_grid_accurate_witness:
  "\<exists>levels. CalculateGridLevels std_declib sample_floats sample_config = Returned (Inr levels) \<and>
     \<bar>levels ! 1 - 105\<bar> \<le> 1 / (2 * 10 ^ 16)"
proof -
  obtain levels where "CalculateGridLevels std_declib sample_floats sample_config = Returned (Inr levels)"
    and e: "\<forall>i \<le> nat (gc_GridCount sample_config).
      \<bar>levels ! i - (gc_LowerPrice sample_config +
         of_nat i * (gc_UpperPrice sample_config - gc_LowerPrice sample_config) / of_int (gc_GridCount sample_config))\<bar>
        \<le> of_nat i / (2 * 10 ^ 16)"
    using arithmetic_grid_accurate [OF std_declib_ok, of sample_config sample_floats]
    by (auto simp: sample_config_def)
  moreover have "\<bar>levels ! 1 - 105\<bar> \<le> 1 / (2 * 10 ^ 16)"
    using e [rule_format, of 1] by (simp add: sample_config_def)
  ultimately show ?thesis by blast
qed

text \<open>The initial orders are exactly one post-only order of the configured size per level
  that differs from the current price, in level order: BUY below it, SELL above it.\<close>

theorem PlaceGridOrders_spec:
  "PlaceGridOrders levels currentPrice config =
     map (\<lambda>p. grid_order config (if p < currentPrice then SideBuy else SideSell) p (gc_OrderSize config))
       (filter (\<lambda>p. p \<noteq> currentPrice) levels)"
  by (induction levels currentPrice config rule: PlaceGridOrders.induct) auto

text \<open>C33: when a BUY fill produces a counter order, it is a post-only SELL of the filled quantity
  at the next level's price; selling there earns strictly more than the fees of both sides; the
  target level is marked and the filled level's buy mark cleared, and the buy is counted.\<close>

theorem buy_fill_counter_profitable:
  assumes "HandleGridFill L fill (Some st) (Some cfg) = Returned (st', r)"
    and "fe_Side fill = SideBuy" and "gfr_CounterOrder r = Some order"
  shows "\<exists>i. fe_GridLevel fill = int i \<and> Suc i < length (gst_Levels st) \<and>
    order = grid_order cfg SideSell (gl_Price (gst_Levels st ! Suc i)) (fe_Quantity fill) \<and>
    o_Price order * fe_Quantity fill - fe_Price fill * fe_Quantity fill >
      gc_FeeRate cfg * (fe_Price fill * fe_Quantity fill + o_Price order * fe_Quantity fill) \<and>
    \<not> gl_HasBuyOrder (gst_Levels st' ! i) \<and> gl_HasSellOrder (gst_Levels st' ! Suc i) \<and>
    gst_TotalBuys st' = gst_TotalBuys st + 1 \<and> gst_Position st' = gst_Position st + fe_Quantity fill"
proof -
  obtain i where i: "fe_GridLevel fill = int i" "i < length (gst_Levels st)"
    using assms by (auto simp: HandleGridFill_def Let_def nonneg_int_cases split: if_splits
        intro: that [of "nat (fe_GridLevel fill)"])
  obtain st1 where st1: "updatePositionOnBuy L st (fe_Price fill) (fe_Quantity fill) = Returned st1"
    using assms i by (auto simp: HandleGridFill_def handleBuyFill_def Let_def split: if_splits outcome.splits)
  note fr = updatePositionOnBuy_frame [OF st1]
  show ?thesis
    using assms i st1 fr
    by (auto simp: HandleGridFill_def handleBuyFill_def Let_def setBuyFlag_def setSellFlag_def grid_order_def
        nth_list_update algebra_simps split: if_splits)
qed

theorem buy_fill_counter_profitable_witness:
  "\<exists>st' (r :: unit GridFillResult) order.
     HandleGridFill std_declib (sample_fill SideBuy 0 100) (Some sample_state) (Some sample_config) = Returned (st', r) \<and>
     gfr_CounterOrder r = Some order \<and> o_Price order = 105 \<and> gst_Position st' = 1"
proof -
  obtain st' and r :: "unit GridFillResult" and order where h:
    "HandleGridFill std_declib (sample_fill SideBuy 0 100) (Some sample_state) (Some sample_config) = Returned (st', r)"
    "gfr_CounterOrder r = Some order"
    by (simp add: HandleGridFill_def handleBuyFill_def sample_fill_def sample_state_def sample_config_def
        updatePositionOnBuy_def setBuyFlag_def sample_level_def)
  have b: "fe_Side (sample_fill SideBuy 0 100) = SideBuy" by (simp add: sample_fill_def)
  from buy_fill_counter_profitable [OF h(1) b h(2)] h show ?thesis
    by (auto simp: sample_fill_def sample_state_def sample_level_def grid_order_def)
qed

text \<open>A SELL fill adds exactly its gain over the average entry price to the realised profit
  (nothing when there is no entry price), takes its quantity off the position but never below
  zero, and places a post-only BUY of the filled quantity one level down exactly when there is
  such a level and the refilled position stays within a positive position limit.\<close>

theorem sell_fill_spec:
  assumes "HandleGridFill L fill (Some st) (Some cfg) = Returned (st', r)"
    and "fe_Side fill = SideSell" and "fe_GridLevel fill = int i" and "i < length (gst_Levels st)"
    and "0 \<le> gst_Position st"
  shows "gst_RealizedPnL st' = gst_RealizedPnL st +
      (if 0 < gst_AvgEntryPrice st then (fe_Price fill - gst_AvgEntryPrice st) * fe_Quantity fill else 0) \<and>
    gfr_RealizedPnL r = gst_RealizedPnL st' \<and>
    gst_Position st' = max 0 (gst_Position st - fe_Quantity fill) \<and>
    gfr_CounterOrder r =
      (if i = 0 \<or> (0 < gc_MaxPosition cfg \<and> gc_MaxPosition cfg < gst_Position st' + fe_Quantity fill) then None
       else Some (grid_order cfg SideBuy (gl_Price (gst_Levels st ! (i - 1))) (fe_Quantity fill)))"
  using assms
  by (auto simp: HandleGridFill_def handleSellFill_def Let_def updatePositionOnSell_def max_def split: if_splits)

theorem sell_fill_spec_witness:
  "\<exists>st' (r :: unit GridFillResult).
     HandleGridFill std_declib (sample_fill SideSell 1 105)
       (Some (sample_state\<lparr>gst_Position := 1, gst_AvgEntryPrice := 100\<rparr>)) (Some sample_config) = Returned (st', r) \<and>
     gst_RealizedPnL st' = 5 \<and> gst_Position st' = 0"
proof -
  let ?st = "sample_state\<lparr>gst_Position := 1, gst_AvgEntryPrice := 100\<rparr>"
  obtain st' and r :: "unit GridFillResult" where h:
    "HandleGridFill std_declib (sample_fill SideSell 1 105) (Some ?st) (Some sample_config) = Returned (st', r)"
    by (simp add: HandleGridFill_def sample_fill_def sample_state_def) (metis prod.collapse)
  have "fe_Side (sample_fill SideSell 1 105) = SideSell" "fe_GridLevel (sample_fill SideSell 1 105) = int 1"
    "1 < length (gst_Levels ?st)" "0 \<le> gst_Position ?st"
    by (simp_all add: sample_fill_def sample_state_def)
  from sell_fill_spec [OF h this] h show ?thesis by (auto simp: sample_fill_def sample_state_def)
qed

text \<open>Over any sequence of fills with positive quantities and prices between \<open>lo\<close> and \<open>hi\<close>
  (prices of at most sixteen decimals), on any levels and with any configuration, fill handling
  never panics, the position never goes below zero, while it is positive the average entry price
  stays between \<open>lo\<close> and \<open>hi\<close> in spite of the rounding of every average, and the prices of the
  grid levels do not change.\<close>

theorem fills_keep_position_sound:
  assumes "declib_ok L" and "grid_price lo" and "grid_price hi" and "list_all (good_fill lo hi) fills"
    and "gst_Position st = 0"
  shows "\<exists>st'. run_fills L config st fills = Returned st' \<and> 0 \<le> gst_Position st' \<and>
    (0 < gst_Position st' \<longrightarrow> lo \<le> gst_AvgEntryPrice st' \<and> gst_AvgEntryPrice st' \<le> hi) \<and>
    map gl_Price (gst_Levels st') = map gl_Price (gst_Levels st)"
proof -
  have "position_inv lo hi st" using assms(5) by (simp add: position_inv_def)
  from run_fills_inv [OF assms(1-3) this assms(4)] show ?thesis
    by (auto simp: position_inv_def keeps_levels_def)
qed

theorem fills_keep_position_sound_witness:
  "\<exists>st'. run_fills std_declib (Some sample_config) sample_state
      [sample_fill SideBuy 0 100, sample_fill SideBuy 1 103, sample_fill SideSell 1 105] = Returned st' \<and>
     0 \<le> gst_Position st'"
proof -
  have "grid_price 100" "grid_price 105"
    unfolding grid_price_def by (rule exI [of _ "100 * 10 ^ 16"], simp) (rule exI [of _ "105 * 10 ^ 16"], simp)
  moreover have "list_all (good_fill 100 105)
      [sample_fill SideBuy 0 100, sample_fill SideBuy 1 103, sample_fill SideSell 1 105]"
    by (simp add: good_fill_def sample_fill_def)
  moreover have "gst_Position sample_state = 0" by (simp add: sample_state_def)
  ultimately show ?thesis using fills_keep_position_sound [OF std_declib_ok] by blast
qed

text \<open>A counter order is attempted at most three times, one second apart: it stops at the
  first success with the fill's own result, and only after three failures, having slept two
  seconds, it reports the last error and asks for manual intervention.\<close>

theorem retry_bounded:
  assumes "HandleGridFill L fill state config = Returned (st, result)"
    and "gfr_Error result = None" and "gfr_CounterOrder result = Some order"
  shows "(\<exists>k < 3. (\<forall>j < k. snd (place (after_attempts place order j w) order) \<noteq> None) \<and>
      snd (place (after_attempts place order k w) order) = None \<and>
      HandleGridFillWithRetry L place fill state config w =
        Returned (st, result, after_attempts place order (Suc k) w, int k * retryInterval)) \<or>
    (\<exists>e. (\<forall>j < 3. snd (place (after_attempts place order j w) order) \<noteq> None) \<and>
      snd (place (after_attempts place order 2 w) order) = Some e \<and>
      HandleGridFillWithRetry L place fill state config w =
        Returned (st, result\<lparr>gfr_NeedsManualIntervention := True, gfr_Error := Some (ErrPlacementFailed 3 e),
          gfr_Reason := RequiresManualIntervention\<rparr>, after_attempts place order 3 w, 2 * retryInterval))"
proof -
  obtain w' t err where p: "place_with_retry place order maxRetries w 0 None = (w', t, err)"
    using prod_cases3 by blast
  have m: "maxRetries = 3" by (simp add: maxRetries_def)
  have eq: "HandleGridFillWithRetry L place fill state config w =
      (case err of None \<Rightarrow> Returned (st, result, w', t)
       | Some e \<Rightarrow> Returned (st, result\<lparr>gfr_NeedsManualIntervention := True,
           gfr_Error := Some (ErrPlacementFailed maxRetries e), gfr_Reason := RequiresManualIntervention\<rparr>, w', t))"
    using assms p by (simp add: HandleGridFillWithRetry_def split: option.splits)
  show ?thesis using place_with_retry_result [OF p] unfolding m
  proof (elim disjE exE conjE, goal_cases)
    case (1 k)
    with eq show ?case by (intro disjI1 exI [of _ k]) simp
  next
    case 2
    then have "(2 :: nat) < 3 \<longrightarrow> snd (place (after_attempts place order 2 w) order) \<noteq> None" by blast
    then obtain e where e: "snd (place (after_attempts place order 2 w) order) = Some e" by force
    with 2 have err: "err = Some e" by simp
    show ?case
      using 2(1-3) e eq by (intro disjI2 exI [of _ e]) (simp add: err m)
  qed
qed

theorem retry_bounded_witness:
  "\<exists>st' (r :: unit GridFillResult).
     HandleGridFillWithRetry std_declib (\<lambda>n _. (n + 1 :: nat, if n < 1 then Some () else None))
       (sample_fill SideBuy 0 100) (Some sample_state) (Some sample_config) 0 = Returned (st', r, 2, retryInterval)"
proof -
  let ?place = "\<lambda>n (_ :: Order). (n + 1 :: nat, if n < 1 then Some () else None)"
  obtain st' and r :: "unit GridFillResult" and order where h:
    "HandleGridFill std_declib (sample_fill SideBuy 0 100) (Some sample_state) (Some sample_config) = Returned (st', r)"
    "gfr_Error r = None" "gfr_CounterOrder r = Some order"
    by (simp add: HandleGridFill_def handleBuyFill_def sample_fill_def sample_state_def sample_config_def
        updatePositionOnBuy_def setBuyFlag_def sample_level_def)
  have w: "after_attempts ?place order k 0 = k" for k
    by (induction k) (auto simp: after_attempts_def)
  show ?thesis using retry_bounded [OF h, of ?place 0]
    by (auto simp: w less_Suc_eq numeral_3_eq_3)
qed

text \<open>A \<open>nil\<close> grid state is not reported as an error: handling a fill reads the state's
  profit before its \<open>nil\<close> check, so it panics for every fill and every configuration.\<close>

theorem nil_state_panics:
  "(HandleGridFill L fill None config :: (GridState \<times> 'e GridFillResult) outcome) = Panicked"
  by (simp add: HandleGridFill_def)

end
