(* ===== verification/EmergencyStop.thy ===== *)
theory EmergencyStop
  imports Models
begin

text \<open>
  The emergency stop (\<open>src/internal/risk/emergency_stop.go\<close>). The registered callbacks are an
  interface; a callback is a handle, and an operation returns the list of the calls it makes, in
  order. \<open>UpdatePnL\<close> releases the lock before it triggers the stop; it is modelled for a caller
  that is not overtaken in between. \<open>dstr\<close> stands for \<open>decimal.String\<close>.
\<close>

record RiskDecision =
  rd_Approved :: bool
  rd_Reasons :: "string list"

datatype esm_effect =
    CancelAllOrders nat
  | StopAllStrategies nat
  | SendCriticalAlert nat string

record EmergencyStopManager =
  esm_emergencyStopActive :: bool
  esm_emergencyStopReason :: string
  esm_emergencyStopTime :: time
  esm_dailyPnL :: decimal
  esm_emergencyStopLoss :: decimal
  esm_callbacks :: "nat list"
  esm_riskLimits :: "RiskLimits option"

definition NewEmergencyStopManager :: "RiskLimits option \<Rightarrow> EmergencyStopManager" where
  "NewEmergencyStopManager limits =
     (let esm = \<lparr>esm_emergencyStopActive = False, esm_emergencyStopReason = [],
            esm_emergencyStopTime = zero_time, esm_dailyPnL = 0, esm_emergencyStopLoss = 0,
            esm_callbacks = [], esm_riskLimits = None\<rparr>
      in case limits of
           None \<Rightarrow> esm
         | Some l \<Rightarrow> esm\<lparr>esm_emergencyStopLoss := rl_EmergencyStopLoss l, esm_riskLimits := Some l\<rparr>)"

definition RegisterEmergencyCallback :: "nat \<Rightarrow> EmergencyStopManager \<Rightarrow> EmergencyStopManager" where
  "RegisterEmergencyCallback cb esm = esm\<lparr>esm_callbacks := esm_callbacks esm @ [cb]\<rparr>"

definition invoke_callbacks :: "string \<Rightarrow> nat list \<Rightarrow> esm_effect list" where
  "invoke_callbacks reason cbs =
     concat (map (\<lambda>cb. [CancelAllOrders cb, StopAllStrategies cb, SendCriticalAlert cb reason]) cbs)"

definition EmergencyStop_trigger ::
  "time \<Rightarrow> string \<Rightarrow> EmergencyStopManager \<Rightarrow> EmergencyStopManager \<times> esm_effect list" where
  "EmergencyStop_trigger now reason esm =
     (if esm_emergencyStopActive esm then (esm, [])
      else
        (esm\<lparr>esm_emergencyStopActive := True, esm_emergencyStopReason := reason,
             esm_emergencyStopTime := now\<rparr>,
         invoke_callbacks reason (esm_callbacks esm)))"

text \<open>The flag is \<open>False\<close> where the code returns the error \<open>emergency stop is not active\<close>.\<close>

definition ResumeFromEmergencyStop :: "EmergencyStopManager \<Rightarrow> EmergencyStopManager \<times> bool" where
  "ResumeFromEmergencyStop esm =
     (if \<not> esm_emergencyStopActive esm then (esm, False)
      else (esm\<lparr>esm_emergencyStopActive := False, esm_emergencyStopReason := []\<rparr>, True))"

definition IsEmergencyStopActive :: "EmergencyStopManager \<Rightarrow> bool" where
  "IsEmergencyStopActive esm = esm_emergencyStopActive esm"

definition GetEmergencyStopReason :: "EmergencyStopManager \<Rightarrow> string" where
  "GetEmergencyStopReason esm = esm_emergencyStopReason esm"

definition breach_reason :: "(decimal \<Rightarrow> string) \<Rightarrow> decimal \<Rightarrow> decimal \<Rightarrow> string" where
  "breach_reason dstr pnl loss =
     ''daily PnL '' @ dstr pnl @ '' breached emergency stop loss threshold -'' @ dstr loss"

definition UpdatePnL ::
  "(decimal \<Rightarrow> string) \<Rightarrow> time \<Rightarrow> decimal \<Rightarrow> EmergencyStopManager \<Rightarrow>
    EmergencyStopManager \<times> esm_effect list" where
  "UpdatePnL dstr now pnl esm =
     (let esm1 = esm\<lparr>esm_dailyPnL := pnl\<rparr> in
      if \<not> esm_emergencyStopActive esm1 \<and> 0 < esm_emergencyStopLoss esm1 then
        let negativeThreshold = - esm_emergencyStopLoss esm1 in
        if esm_dailyPnL esm1 < negativeThreshold
        then EmergencyStop_trigger now
               (breach_reason dstr (esm_dailyPnL esm1) (esm_emergencyStopLoss esm1)) esm1
        else (esm1, [])
      else (esm1, []))"

definition CheckEmergencyStop :: "EmergencyStopManager \<Rightarrow> RiskDecision option" where
  "CheckEmergencyStop esm =
     (if esm_emergencyStopActive esm
      then Some \<lparr>rd_Approved = False,
        rd_Reasons = [''emergency stop active: '' @ esm_emergencyStopReason esm]\<rparr>
      else None)"

definition SetEmergencyStopLoss :: "decimal \<Rightarrow> EmergencyStopManager \<Rightarrow> EmergencyStopManager" where
  "SetEmergencyStopLoss threshold esm = esm\<lparr>esm_emergencyStopLoss := threshold\<rparr>"

definition GetDailyPnL :: "EmergencyStopManager \<Rightarrow> decimal" where
  "GetDailyPnL esm = esm_dailyPnL esm"

section \<open>Histories of calls\<close>

datatype esm_op =
    OpStop time string
  | OpResume
  | OpUpdatePnL time decimal
  | OpSetLoss decimal
  | OpRegister nat

fun esm_exec ::
  "(decimal \<Rightarrow> string) \<Rightarrow> esm_op \<Rightarrow> EmergencyStopManager \<Rightarrow> EmergencyStopManager \<times> esm_effect list" where
  "esm_exec dstr (OpStop now reason) esm = EmergencyStop_trigger now reason esm"
| "esm_exec dstr OpResume esm = (fst (ResumeFromEmergencyStop esm), [])"
| "esm_exec dstr (OpUpdatePnL now pnl) esm = UpdatePnL dstr now pnl esm"
| "esm_exec dstr (OpSetLoss t) esm = (SetEmergencyStopLoss t esm, [])"
| "esm_exec dstr (OpRegister cb) esm = (RegisterEmergencyCallback cb esm, [])"

fun esm_run ::
  "(decimal \<Rightarrow> string) \<Rightarrow> esm_op list \<Rightarrow> EmergencyStopManager \<Rightarrow> EmergencyStopManager \<times> esm_effect list" where
  "esm_run dstr [] esm = (esm, [])"
| "esm_run dstr (op # ops) esm =
     (case esm_exec dstr op esm of
        (esm1, eff1) \<Rightarrow> (case esm_run dstr ops esm1 of (esm2, eff2) \<Rightarrow> (esm2, eff1 @ eff2)))"

lemma esm_exec_latched:
  assumes "esm_emergencyStopActive esm" and "op \<noteq> OpResume"
  shows "esm_emergencyStopActive (fst (esm_exec dstr op esm)) \<and>
    esm_emergencyStopReason (fst (esm_exec dstr op esm)) = esm_emergencyStopReason esm \<and>
    esm_emergencyStopTime (fst (esm_exec dstr op esm)) = esm_emergencyStopTime esm \<and>
    snd (esm_exec dstr op esm) = []"
  using assms
  by (cases op) (auto simp: EmergencyStop_trigger_def UpdatePnL_def SetEmergencyStopLoss_def
      RegisterEmergencyCallback_def Let_def)

section \<open>Properties\<close>

text \<open>Once active, the stop is latched: no sequence of further stops, profit updates,
  threshold changes and registrations that does not resume explicitly ends it, changes its
  reason or time, or calls a callback again, and every order check keeps being rejected with
  that reason.\<close>

theorem emergency_stop_latched:
  assumes "esm_emergencyStopActive esm" and "OpResume \<notin> set ops"
    and "esm_run dstr ops esm = (esm', effects)"
  shows "IsEmergencyStopActive esm' \<and> GetEmergencyStopReason esm' = GetEmergencyStopReason esm \<and>
    esm_emergencyStopTime esm' = esm_emergencyStopTime esm \<and> effects = [] \<and>
    CheckEmergencyStop esm' = Some \<lparr>rd_Approved = False,
      rd_Reasons = [''emergency stop active: '' @ GetEmergencyStopReason esm]\<rparr>"
  using assms
proof (induction ops arbitrary: esm effects)
  case Nil
  then show ?case
    by (simp add: IsEmergencyStopActive_def GetEmergencyStopReason_def CheckEmergencyStop_def)
next
  case (Cons op ops)
  obtain esm1 eff1 where s: "esm_exec dstr op esm = (esm1, eff1)" by fastforce
  with Cons.prems(3) obtain eff2 where r: "esm_run dstr ops esm1 = (esm', eff2)"
    and eff: "effects = eff1 @ eff2" by (auto split: prod.splits)
  have l: "esm_emergencyStopActive esm1" "esm_emergencyStopReason esm1 = esm_emergencyStopReason esm"
    "esm_emergencyStopTime esm1 = esm_emergencyStopTime esm" "eff1 = []"
    using esm_exec_latched [of esm op dstr] Cons.prems(1,2) s by auto
  from Cons.IH [OF l(1) _ r] Cons.prems(2) eff l show ?case
    by (simp add: GetEmergencyStopReason_def)
qed

definition sample_esm :: EmergencyStopManager where
  "sample_esm = (NewEmergencyStopManager None)\<lparr>esm_emergencyStopLoss := 100, esm_callbacks := [1, 2]\<rparr>"

theorem emergency_stop_latched_witness:
  "IsEmergencyStopActive (fst (esm_run (\<lambda>_. []) [OpUpdatePnL 5 (-500), OpStop 6 ''again'', OpSetLoss 1]
     (fst (EmergencyStop_trigger 1 ''manual'' sample_esm))))"
proof -
  let ?esm = "fst (EmergencyStop_trigger 1 ''manual'' sample_esm)"
  have "esm_emergencyStopActive ?esm"
    by (simp add: EmergencyStop_trigger_def sample_esm_def NewEmergencyStopManager_def)
  from emergency_stop_latched [OF this _ surjective_pairing, of "[OpUpdatePnL 5 (-500), OpStop 6 ''again'', OpSetLoss 1]"]
  show ?thesis by simp
qed

text \<open>A profit update always records the profit; it triggers the stop exactly when the stop is
  inactive, the threshold is positive and the profit is below its negation, and then each
  registered callback is told once, in registration order, to cancel the orders, stop the
  strategies and alert with the recorded reason.\<close>

theorem UpdatePnL_trigger:
  assumes "UpdatePnL dstr now pnl esm = (esm', effects)" and "\<not> esm_emergencyStopActive esm"
  shows "GetDailyPnL esm' = pnl \<and>
    (if 0 < esm_emergencyStopLoss esm \<and> pnl < - esm_emergencyStopLoss esm
     then IsEmergencyStopActive esm' \<and> esm_emergencyStopTime esm' = now \<and>
       effects = concat (map (\<lambda>cb. [CancelAllOrders cb, StopAllStrategies cb,
         SendCriticalAlert cb (GetEmergencyStopReason esm')]) (esm_callbacks esm))
     else \<not> IsEmergencyStopActive esm' \<and> effects = [])"
  using assms
  by (auto simp: UpdatePnL_def EmergencyStop_trigger_def invoke_callbacks_def GetDailyPnL_def
      IsEmergencyStopActive_def GetEmergencyStopReason_def Let_def split: if_splits)

theorem UpdatePnL_trigger_witness:
  "length (snd (UpdatePnL (\<lambda>_. []) 7 (-101) sample_esm)) = 6 \<and>
    IsEmergencyStopActive (fst (UpdatePnL (\<lambda>_. []) 7 (-101) sample_esm))"
proof -
  have "\<not> esm_emergencyStopActive sample_esm" "0 < esm_emergencyStopLoss sample_esm \<and> - 101 < - esm_emergencyStopLoss sample_esm"
    "esm_callbacks sample_esm = [1, 2]"
    by (simp_all add: sample_esm_def NewEmergencyStopManager_def)
  with UpdatePnL_trigger [OF surjective_pairing, of sample_esm "\<lambda>_. []" 7 "- 101"] show ?thesis by simp
qed

end
