(* ===== verification/SafeStop.thy ===== *)
theory SafeStop
  imports EmergencyStop
begin

text \<open>
  The trading gate (\<open>src/internal/risk/safe_stop.go\<close>): scoped safe stops per symbol and global
  ones, composed with the emergency stop. Maps of reasons are association lists with distinct
  keys. The reason codes returned from a map iteration are the keys in list order; Go's order is
  unspecified and no statement depends on it. A method reads the clock where the code does;
  the time is an argument. Every method holds the gate's mutex for its whole body, except that
  \<open>Authorize\<close> consults the emergency stop before taking it.
\<close>

datatype OperationRiskClass = RiskIncreasing | RiskReducing | Reconciliation | ConfirmedBuyCancellation

fun OperationRiskClass_String :: "OperationRiskClass \<Rightarrow> string" where
  "OperationRiskClass_String RiskIncreasing = ''risk-increasing''"
| "OperationRiskClass_String RiskReducing = ''risk-reducing''"
| "OperationRiskClass_String Reconciliation = ''reconciliation''"
| "OperationRiskClass_String ConfirmedBuyCancellation = ''confirmed-buy-cancellation''"

datatype block_reason =
    NotBlocked
  | BlockedByEmergencyStop string
  | BlockedGlobally nat
  | BlockedSymbol string nat

record GateDecision =
  gd_Allowed :: bool
  gd_BlockReason :: block_reason
  gd_Scope :: SafeStopScope
  gd_ReasonCodes :: "string list"

definition ReasonPersistenceFailure :: string where
  "ReasonPersistenceFailure = ''persistence-write-failure''"

definition ReasonPrivateWSUncertain :: string where
  "ReasonPrivateWSUncertain = ''private-ws-uncertain''"

definition ReasonAccountReconcile :: string where
  "ReasonAccountReconcile = ''account-reconciliation-uncertain''"

definition ReasonPortfolioRisk :: string where
  "ReasonPortfolioRisk = ''portfolio-risk-uncertain''"

record SafeStopReason =
  sr_Code :: string
  sr_Since :: time
  sr_Details :: string
  sr_RequiresHuman :: bool

record SymbolSafeStopState =
  sss_Active :: bool
  sss_Reasons :: "(string, SafeStopReason) gomap"
  sss_RecoveryEpoch :: "64 word"

record SharedDependencyHealth =
  sh_PersistenceHealthy :: bool
  sh_PrivateWSHealthy :: bool
  sh_AccountReconcileHealthy :: bool
  sh_PortfolioRiskHealthy :: bool

record TradingGate =
  tg_symbolStates :: "(string, SymbolSafeStopState) gomap"
  tg_globalReasons :: "(string, SafeStopReason) gomap"
  tg_globalRecoveryEpoch :: "64 word"
  tg_sharedHealth :: SharedDependencyHealth
  tg_knownPositions :: "(string, decimal) gomap"
  tg_emergencyStop :: "EmergencyStopManager option"

definition NewTradingGate :: "EmergencyStopManager option \<Rightarrow> TradingGate" where
  "NewTradingGate esm = \<lparr>tg_symbolStates = [], tg_globalReasons = [], tg_globalRecoveryEpoch = 0,
     tg_sharedHealth = \<lparr>sh_PersistenceHealthy = False, sh_PrivateWSHealthy = False,
       sh_AccountReconcileHealthy = False, sh_PortfolioRiskHealthy = False\<rparr>,
     tg_knownPositions = [], tg_emergencyStop = esm\<rparr>"

definition allowed :: GateDecision where
  "allowed = \<lparr>gd_Allowed = True, gd_BlockReason = NotBlocked, gd_Scope = SafeStopNone, gd_ReasonCodes = []\<rparr>"

definition Authorize :: "TradingGate \<Rightarrow> string \<Rightarrow> OperationRiskClass \<Rightarrow> GateDecision" where
  "Authorize g symbol cls =
     (if cls = Reconciliation \<or> cls = ConfirmedBuyCancellation then allowed
      else
        let guarded =
          (if tg_globalReasons g \<noteq> [] then
             if cls = RiskIncreasing
             then \<lparr>gd_Allowed = False, gd_BlockReason = BlockedGlobally (length (tg_globalReasons g)),
                gd_Scope = SafeStopGlobal, gd_ReasonCodes = map fst (tg_globalReasons g)\<rparr>
             else allowed
           else if symbol \<noteq> [] then
             (case map_of (tg_symbolStates g) symbol of
                None \<Rightarrow> allowed
              | Some st \<Rightarrow>
                  if sss_Active st \<and> sss_Reasons st \<noteq> [] then
                    if cls = RiskIncreasing
                    then \<lparr>gd_Allowed = False, gd_BlockReason = BlockedSymbol symbol (length (sss_Reasons st)),
                       gd_Scope = SafeStopSymbol, gd_ReasonCodes = map fst (sss_Reasons st)\<rparr>
                    else allowed
                  else allowed)
           else allowed)
        in case tg_emergencyStop g of
             None \<Rightarrow> guarded
           | Some esm \<Rightarrow>
               if IsEmergencyStopActive esm
               then \<lparr>gd_Allowed = False, gd_BlockReason = BlockedByEmergencyStop (GetEmergencyStopReason esm),
                  gd_Scope = SafeStopGlobal, gd_ReasonCodes = [''emergency-stop'']\<rparr>
               else guarded)"

definition getOrCreateSymbolState :: "TradingGate \<Rightarrow> string \<Rightarrow> SymbolSafeStopState" where
  "getOrCreateSymbolState g symbol =
     (case map_of (tg_symbolStates g) symbol of
        Some st \<Rightarrow> st
      | None \<Rightarrow> \<lparr>sss_Active = False, sss_Reasons = [], sss_RecoveryEpoch = 0\<rparr>)"

definition put_symbol :: "string \<Rightarrow> SymbolSafeStopState \<Rightarrow> TradingGate \<Rightarrow> TradingGate" where
  "put_symbol symbol st g = g\<lparr>tg_symbolStates := AList.update symbol st (tg_symbolStates g)\<rparr>"

definition EnterSymbolSafeStop :: "time \<Rightarrow> string \<Rightarrow> string \<Rightarrow> string \<Rightarrow> TradingGate \<Rightarrow> TradingGate" where
  "EnterSymbolSafeStop now symbol code details g =
     (let st = getOrCreateSymbolState g symbol;
          reason = \<lparr>sr_Code = code, sr_Since = now, sr_Details = details, sr_RequiresHuman = False\<rparr>
      in put_symbol symbol (st\<lparr>sss_Active := True, sss_Reasons := AList.update code reason (sss_Reasons st)\<rparr>) g)"

definition EnterSymbolSafeStopRequireHuman ::
  "time \<Rightarrow> string \<Rightarrow> string \<Rightarrow> string \<Rightarrow> TradingGate \<Rightarrow> TradingGate" where
  "EnterSymbolSafeStopRequireHuman now symbol code details g =
     (let st = getOrCreateSymbolState g symbol;
          reason = \<lparr>sr_Code = code, sr_Since = now, sr_Details = details, sr_RequiresHuman = True\<rparr>
      in put_symbol symbol (st\<lparr>sss_Active := True, sss_Reasons := AList.update code reason (sss_Reasons st)\<rparr>) g)"

definition EnterGlobalSafeStop :: "time \<Rightarrow> string \<Rightarrow> string \<Rightarrow> TradingGate \<Rightarrow> TradingGate" where
  "EnterGlobalSafeStop now code details g =
     g\<lparr>tg_globalReasons := AList.update code
        \<lparr>sr_Code = code, sr_Since = now, sr_Details = details, sr_RequiresHuman = False\<rparr> (tg_globalReasons g)\<rparr>"

definition EnterGlobalSafeStopRequireHuman :: "time \<Rightarrow> string \<Rightarrow> string \<Rightarrow> TradingGate \<Rightarrow> TradingGate" where
  "EnterGlobalSafeStopRequireHuman now code details g =
     g\<lparr>tg_globalReasons := AList.update code
        \<lparr>sr_Code = code, sr_Since = now, sr_Details = details, sr_RequiresHuman = True\<rparr> (tg_globalReasons g)\<rparr>"

definition ClearSymbolReason :: "string \<Rightarrow> string \<Rightarrow> bool \<Rightarrow> TradingGate \<Rightarrow> TradingGate \<times> bool" where
  "ClearSymbolReason symbol code humanConfirmed g =
     (case map_of (tg_symbolStates g) symbol of
        None \<Rightarrow> (g, True)
      | Some st \<Rightarrow>
          (case map_of (sss_Reasons st) code of
             None \<Rightarrow> (g, True)
           | Some reason \<Rightarrow>
               if sr_RequiresHuman reason \<and> \<not> humanConfirmed then (g, False)
               else
                 let reasons = AList.delete code (sss_Reasons st);
                     st1 = st\<lparr>sss_Reasons := reasons\<rparr>;
                     st2 = (if reasons = [] then st1\<lparr>sss_Active := False\<rparr> else st1)
                 in (put_symbol symbol st2 g, True)))"

definition ClearGlobalReason :: "string \<Rightarrow> bool \<Rightarrow> TradingGate \<Rightarrow> TradingGate \<times> bool" where
  "ClearGlobalReason code humanConfirmed g =
     (case map_of (tg_globalReasons g) code of
        None \<Rightarrow> (g, True)
      | Some reason \<Rightarrow>
          if sr_RequiresHuman reason \<and> \<not> humanConfirmed then (g, False)
          else (g\<lparr>tg_globalReasons := AList.delete code (tg_globalReasons g)\<rparr>, True))"

definition MarkReconciled :: "string \<Rightarrow> 64 word \<Rightarrow> TradingGate \<Rightarrow> TradingGate" where
  "MarkReconciled symbol epoch g =
     put_symbol symbol ((getOrCreateSymbolState g symbol)\<lparr>sss_RecoveryEpoch := epoch\<rparr>) g"

definition MarkGlobalReconciled :: "64 word \<Rightarrow> TradingGate \<Rightarrow> TradingGate" where
  "MarkGlobalReconciled epoch g = g\<lparr>tg_globalRecoveryEpoch := epoch\<rparr>"

definition RecoveryEpoch :: "TradingGate \<Rightarrow> string \<Rightarrow> 64 word" where
  "RecoveryEpoch g symbol =
     (case map_of (tg_symbolStates g) symbol of Some st \<Rightarrow> sss_RecoveryEpoch st | None \<Rightarrow> 0)"

definition GlobalRecoveryEpoch :: "TradingGate \<Rightarrow> 64 word" where
  "GlobalRecoveryEpoch g = tg_globalRecoveryEpoch g"

datatype recover_failure =
    GlobalStillActive
  | RequiresHumanConfirmation string
  | EpochTooOld "64 word" "64 word"
  | PersistenceUnhealthy
  | PrivateWSUnhealthy
  | AccountReconciliationUnhealthy
  | PortfolioRiskUnhealthy

text \<open>\<open>None\<close> is success; the first reason that requires a human is found in list order.\<close>

definition TryRecoverSymbol :: "string \<Rightarrow> 64 word \<Rightarrow> TradingGate \<Rightarrow> TradingGate \<times> recover_failure option" where
  "TryRecoverSymbol symbol reconcileEpoch g =
     (if tg_globalReasons g \<noteq> [] then (g, Some GlobalStillActive)
      else case map_of (tg_symbolStates g) symbol of
        None \<Rightarrow> (g, None)
      | Some st \<Rightarrow>
          if \<not> sss_Active st then (g, None)
          else (case find (\<lambda>(code, reason). sr_RequiresHuman reason) (sss_Reasons st) of
              Some (code, _) \<Rightarrow> (g, Some (RequiresHumanConfirmation code))
            | None \<Rightarrow>
                if reconcileEpoch < sss_RecoveryEpoch st
                then (g, Some (EpochTooOld reconcileEpoch (sss_RecoveryEpoch st)))
                else if \<not> sh_PersistenceHealthy (tg_sharedHealth g) then (g, Some PersistenceUnhealthy)
                else if \<not> sh_PrivateWSHealthy (tg_sharedHealth g) then (g, Some PrivateWSUnhealthy)
                else if \<not> sh_AccountReconcileHealthy (tg_sharedHealth g)
                then (g, Some AccountReconciliationUnhealthy)
                else if \<not> sh_PortfolioRiskHealthy (tg_sharedHealth g) then (g, Some PortfolioRiskUnhealthy)
                else (put_symbol symbol (st\<lparr>sss_Reasons := [], sss_Active := False,
                        sss_RecoveryEpoch := reconcileEpoch\<rparr>) g, None)))"

definition syncHealthReason :: "time \<Rightarrow> bool \<Rightarrow> string \<Rightarrow> string \<Rightarrow> TradingGate \<Rightarrow> TradingGate" where
  "syncHealthReason now unhealthy code details g =
     (if unhealthy then
        (case map_of (tg_globalReasons g) code of
           Some _ \<Rightarrow> g
         | None \<Rightarrow> g\<lparr>tg_globalReasons := AList.update code
             \<lparr>sr_Code = code, sr_Since = now, sr_Details = details, sr_RequiresHuman = False\<rparr>
             (tg_globalReasons g)\<rparr>)
      else g\<lparr>tg_globalReasons := AList.delete code (tg_globalReasons g)\<rparr>)"

definition UpdateSharedHealth :: "time \<Rightarrow> SharedDependencyHealth \<Rightarrow> TradingGate \<Rightarrow> TradingGate" where
  "UpdateSharedHealth now health g =
     (let g0 = g\<lparr>tg_sharedHealth := health\<rparr>;
          g1 = syncHealthReason now (\<not> sh_PersistenceHealthy health) ReasonPersistenceFailure
                 ''persistence write/commit uncertain'' g0;
          g2 = syncHealthReason now (\<not> sh_PrivateWSHealthy health) ReasonPrivateWSUncertain
                 ''private-ws auth/liveness/subscription uncertain'' g1;
          g3 = syncHealthReason now (\<not> sh_AccountReconcileHealthy health) ReasonAccountReconcile
                 ''account reconciliation/auth uncertain'' g2
      in syncHealthReason now (\<not> sh_PortfolioRiskHealthy health) ReasonPortfolioRisk
           ''portfolio/combined risk uncertain'' g3)"

definition UpdateKnownPosition :: "string \<Rightarrow> decimal \<Rightarrow> TradingGate \<Rightarrow> TradingGate" where
  "UpdateKnownPosition symbol qty g =
     g\<lparr>tg_knownPositions := AList.update symbol qty (tg_knownPositions g)\<rparr>"

definition KnownPosition :: "TradingGate \<Rightarrow> string \<Rightarrow> decimal" where
  "KnownPosition g symbol = (case map_of (tg_knownPositions g) symbol of Some p \<Rightarrow> p | None \<Rightarrow> 0)"

definition IsSymbolSafeStopped :: "TradingGate \<Rightarrow> string \<Rightarrow> bool" where
  "IsSymbolSafeStopped g symbol =
     (case map_of (tg_symbolStates g) symbol of
        Some st \<Rightarrow> sss_Active st \<and> sss_Reasons st \<noteq> [] | None \<Rightarrow> False)"

definition IsGlobalSafeStopped :: "TradingGate \<Rightarrow> bool" where
  "IsGlobalSafeStopped g \<longleftrightarrow> tg_globalReasons g \<noteq> []"

definition SymbolReasons :: "TradingGate \<Rightarrow> string \<Rightarrow> string list" where
  "SymbolReasons g symbol =
     (case map_of (tg_symbolStates g) symbol of None \<Rightarrow> [] | Some st \<Rightarrow> map fst (sss_Reasons st))"

definition GlobalReasons :: "TradingGate \<Rightarrow> string list" where
  "GlobalReasons g = map fst (tg_globalReasons g)"

record GateSnapshot =
  gsn_GlobalSafeStopped :: bool
  gsn_GlobalReasons :: "(string, SafeStopReason) gomap"
  gsn_GlobalRecoveryEpoch :: "64 word"
  gsn_SymbolStates :: "(string, SymbolSafeStopState) gomap"
  gsn_SharedHealth :: SharedDependencyHealth

definition Gate_Snapshot :: "TradingGate \<Rightarrow> GateSnapshot" where
  "Gate_Snapshot g = \<lparr>gsn_GlobalSafeStopped = (tg_globalReasons g \<noteq> []),
     gsn_GlobalReasons = tg_globalReasons g, gsn_GlobalRecoveryEpoch = tg_globalRecoveryEpoch g,
     gsn_SymbolStates = tg_symbolStates g, gsn_SharedHealth = tg_sharedHealth g\<rparr>"

definition ClassifyOperation :: "Side \<Rightarrow> string \<Rightarrow> OperationRiskClass" where
  "ClassifyOperation side purpose =
     (if purpose = ''reconciliation'' \<or> purpose = ''query'' \<or> purpose = ''status-check'' then Reconciliation
      else if purpose = ''confirmed-buy-cancel'' then ConfirmedBuyCancellation
      else case side of
        SideBuy \<Rightarrow> RiskIncreasing
      | SideSell \<Rightarrow>
          if purpose = ''counter-sell'' \<or> purpose = ''risk-reducing-sell'' \<or> purpose = ''grid-sell''
          then RiskReducing else RiskIncreasing
      | SideOther _ \<Rightarrow> RiskIncreasing)"

section \<open>Histories of calls\<close>

text \<open>Every mutating method; \<open>GEmergency\<close> is a change of the composed emergency stop.\<close>

datatype gate_op =
    GEnterSymbol time string string string
  | GEnterSymbolHuman time string string string
  | GEnterGlobal time string string
  | GEnterGlobalHuman time string string
  | GClearSymbol string string bool
  | GClearGlobal string bool
  | GMarkReconciled string "64 word"
  | GMarkGlobal "64 word"
  | GRecover string "64 word"
  | GHealth time SharedDependencyHealth
  | GPosition string decimal
  | GEmergency "EmergencyStopManager option"

fun gate_exec :: "gate_op \<Rightarrow> TradingGate \<Rightarrow> TradingGate" where
  "gate_exec (GEnterSymbol now symbol code details) g = EnterSymbolSafeStop now symbol code details g"
| "gate_exec (GEnterSymbolHuman now symbol code details) g =
     EnterSymbolSafeStopRequireHuman now symbol code details g"
| "gate_exec (GEnterGlobal now code details) g = EnterGlobalSafeStop now code details g"
| "gate_exec (GEnterGlobalHuman now code details) g = EnterGlobalSafeStopRequireHuman now code details g"
| "gate_exec (GClearSymbol symbol code h) g = fst (ClearSymbolReason symbol code h g)"
| "gate_exec (GClearGlobal code h) g = fst (ClearGlobalReason code h g)"
| "gate_exec (GMarkReconciled symbol epoch) g = MarkReconciled symbol epoch g"
| "gate_exec (GMarkGlobal epoch) g = MarkGlobalReconciled epoch g"
| "gate_exec (GRecover symbol epoch) g = fst (TryRecoverSymbol symbol epoch g)"
| "gate_exec (GHealth now health) g = UpdateSharedHealth now health g"
| "gate_exec (GPosition symbol qty) g = UpdateKnownPosition symbol qty g"
| "gate_exec (GEmergency esm) g = g\<lparr>tg_emergencyStop := esm\<rparr>"

definition gate_run :: "gate_op list \<Rightarrow> TradingGate \<Rightarrow> TradingGate" where
  "gate_run ops g = foldl (\<lambda>g op. gate_exec op g) g ops"

lemma gate_run_simps [simp]:
  "gate_run [] g = g" "gate_run (op # ops) g = gate_run ops (gate_exec op g)"
  by (simp_all add: gate_run_def)

lemma symbols_put [simp]:
  "map_of (tg_symbolStates (put_symbol symbol st g)) = (map_of (tg_symbolStates g))(symbol \<mapsto> st)"
  "tg_globalReasons (put_symbol symbol st g) = tg_globalReasons g"
  "tg_emergencyStop (put_symbol symbol st g) = tg_emergencyStop g"
  "tg_sharedHealth (put_symbol symbol st g) = tg_sharedHealth g"
  by (simp_all add: put_symbol_def)

lemma sync_frame [simp]:
  "tg_symbolStates (syncHealthReason now u c d g) = tg_symbolStates g"
  "tg_emergencyStop (syncHealthReason now u c d g) = tg_emergencyStop g"
  "tg_sharedHealth (syncHealthReason now u c d g) = tg_sharedHealth g"
  by (simp_all add: syncHealthReason_def split: option.splits)

lemma sync_reasons:
  "map_of (tg_globalReasons (syncHealthReason now u c d g)) k =
     (if k = c then
        if u then Some (case map_of (tg_globalReasons g) c of Some r \<Rightarrow> r
          | None \<Rightarrow> \<lparr>sr_Code = c, sr_Since = now, sr_Details = d, sr_RequiresHuman = False\<rparr>)
        else None
      else map_of (tg_globalReasons g) k)"
  by (auto simp: syncHealthReason_def split: option.splits)

lemma UpdateSharedHealth_frame [simp]:
  "tg_symbolStates (UpdateSharedHealth now h g) = tg_symbolStates g"
  "tg_emergencyStop (UpdateSharedHealth now h g) = tg_emergencyStop g"
  "tg_sharedHealth (UpdateSharedHealth now h g) = h"
  by (simp_all add: UpdateSharedHealth_def Let_def)

lemmas reason_codes = ReasonPersistenceFailure_def ReasonPrivateWSUncertain_def
  ReasonAccountReconcile_def ReasonPortfolioRisk_def

lemma shared_reasons:
  "map_of (tg_globalReasons (UpdateSharedHealth now h g)) k \<noteq> None \<longleftrightarrow>
     (if k = ReasonPersistenceFailure then \<not> sh_PersistenceHealthy h
      else if k = ReasonPrivateWSUncertain then \<not> sh_PrivateWSHealthy h
      else if k = ReasonAccountReconcile then \<not> sh_AccountReconcileHealthy h
      else if k = ReasonPortfolioRisk then \<not> sh_PortfolioRiskHealthy h
      else map_of (tg_globalReasons g) k \<noteq> None)"
proof -
  have d: "ReasonPersistenceFailure \<noteq> ReasonPrivateWSUncertain" "ReasonPersistenceFailure \<noteq> ReasonAccountReconcile"
    "ReasonPersistenceFailure \<noteq> ReasonPortfolioRisk" "ReasonPrivateWSUncertain \<noteq> ReasonAccountReconcile"
    "ReasonPrivateWSUncertain \<noteq> ReasonPortfolioRisk" "ReasonAccountReconcile \<noteq> ReasonPortfolioRisk"
    by (simp_all add: reason_codes)
  consider "k = ReasonPersistenceFailure" | "k = ReasonPrivateWSUncertain" | "k = ReasonAccountReconcile"
    | "k = ReasonPortfolioRisk"
    | "k \<noteq> ReasonPersistenceFailure" "k \<noteq> ReasonPrivateWSUncertain" "k \<noteq> ReasonAccountReconcile"
      "k \<noteq> ReasonPortfolioRisk" by blast
  then show ?thesis
    by cases (use d in \<open>simp_all add: UpdateSharedHealth_def Let_def sync_reasons d [symmetric]\<close>)
qed

text \<open>What is recorded about a symbol's reason, and when an operation may lift it.\<close>

definition symbol_reason :: "TradingGate \<Rightarrow> string \<Rightarrow> string \<Rightarrow> SafeStopReason option" where
  "symbol_reason g symbol code =
     (case map_of (tg_symbolStates g) symbol of
        None \<Rightarrow> None | Some st \<Rightarrow> if sss_Active st then map_of (sss_Reasons st) code else None)"

definition human_hold :: "TradingGate \<Rightarrow> string \<Rightarrow> string \<Rightarrow> bool" where
  "human_hold g symbol code \<longleftrightarrow> (\<exists>r. symbol_reason g symbol code = Some r \<and> sr_RequiresHuman r)"

fun lifts_hold :: "string \<Rightarrow> string \<Rightarrow> gate_op \<Rightarrow> bool" where
  "lifts_hold symbol code (GClearSymbol s c h) \<longleftrightarrow> s = symbol \<and> c = code \<and> h"
| "lifts_hold symbol code (GEnterSymbol now s c details) \<longleftrightarrow> s = symbol \<and> c = code"
| "lifts_hold symbol code _ \<longleftrightarrow> False"

lemma human_hold_find:
  assumes "map_of rs code = Some r" "sr_RequiresHuman r"
  shows "find (\<lambda>(code, reason). sr_RequiresHuman reason) rs \<noteq> None"
  using assms map_of_SomeD [OF assms(1)] by (auto simp: find_None_iff)

lemma human_hold_state:
  "human_hold g symbol code \<longleftrightarrow> (\<exists>st r. map_of (tg_symbolStates g) symbol = Some st \<and> sss_Active st \<and>
     map_of (sss_Reasons st) code = Some r \<and> sr_RequiresHuman r)"
  by (auto simp: human_hold_def symbol_reason_def split: option.splits if_splits)

lemma human_hold_frame:
  "tg_symbolStates g' = tg_symbolStates g \<Longrightarrow> human_hold g' symbol code = human_hold g symbol code"
  by (simp add: human_hold_state)

lemma human_hold_put:
  assumes "human_hold g symbol code"
    and "s = symbol \<Longrightarrow> sss_Active st \<and> (\<exists>r. map_of (sss_Reasons st) code = Some r \<and> sr_RequiresHuman r)"
  shows "human_hold (put_symbol s st g) symbol code"
  using assms by (auto simp: human_hold_state)

lemma human_hold_clear:
  assumes "human_hold g symbol code" and "\<not> lifts_hold symbol code (GClearSymbol s c h)"
  shows "human_hold (fst (ClearSymbolReason s c h g)) symbol code"
proof -
  obtain st r where st: "map_of (tg_symbolStates g) symbol = Some st" "sss_Active st"
    "map_of (sss_Reasons st) code = Some r" "sr_RequiresHuman r"
    using assms(1) by (auto simp: human_hold_state)
  show ?thesis
  proof (cases "s = symbol \<and> c = code")
    case True
    with assms(2) st have "fst (ClearSymbolReason s c h g) = g" by (simp add: ClearSymbolReason_def)
    with assms(1) show ?thesis by simp
  next
    case False
    have kept: "map_of (AList.delete c (sss_Reasons st)) code = Some r" if "s = symbol"
      using st False that by auto
    then have ne: "AList.delete c (sss_Reasons st) \<noteq> []" if "s = symbol"
      using that by (metis map_of.simps(1) option.distinct(1))
    show ?thesis
    proof (cases "s = symbol")
      case True
      with st kept ne show ?thesis
        by (auto simp del: map_of_delete simp: ClearSymbolReason_def Let_def human_hold_state
            split: option.split)
    next
      case False
      with assms(1) show ?thesis
        by (auto simp: ClearSymbolReason_def Let_def human_hold_state split: option.split)
    qed
  qed
qed

lemma human_hold_recover:
  assumes "human_hold g symbol code"
  shows "human_hold (fst (TryRecoverSymbol s epoch g)) symbol code"
proof (cases "s = symbol")
  case True
  obtain st r where "map_of (tg_symbolStates g) symbol = Some st" "sss_Active st"
    "map_of (sss_Reasons st) code = Some r" "sr_RequiresHuman r"
    using assms by (auto simp: human_hold_state)
  with True human_hold_find have "fst (TryRecoverSymbol s epoch g) = g"
    by (fastforce simp: TryRecoverSymbol_def split: option.splits)
  with assms show ?thesis by simp
next
  case False
  with assms show ?thesis
    by (auto simp: TryRecoverSymbol_def intro!: human_hold_put split: option.splits)
qed

lemma human_hold_exec:
  assumes "human_hold g symbol code" and "\<not> lifts_hold symbol code op"
  shows "human_hold (gate_exec op g) symbol code"
proof (cases op)
  case (GEnterSymbol now s c d)
  with assms show ?thesis
    by (auto simp: EnterSymbolSafeStop_def Let_def getOrCreateSymbolState_def human_hold_state
        split: option.splits)
next
  case (GEnterSymbolHuman now s c d)
  with assms show ?thesis
    by (auto simp: EnterSymbolSafeStopRequireHuman_def Let_def getOrCreateSymbolState_def human_hold_state
        split: option.splits)
next
  case (GClearSymbol s c h)
  then show ?thesis using human_hold_clear assms by simp
next
  case (GRecover s epoch)
  then show ?thesis using human_hold_recover assms by simp
next
  case (GMarkReconciled s epoch)
  with assms show ?thesis
    by (auto simp: MarkReconciled_def getOrCreateSymbolState_def human_hold_state split: option.splits)
next
  case (GClearGlobal c h)
  have "tg_symbolStates (fst (ClearGlobalReason c h g)) = tg_symbolStates g"
    by (simp add: ClearGlobalReason_def split: option.splits)
  then have "human_hold (fst (ClearGlobalReason c h g)) symbol code" using assms(1) by (simp add: human_hold_state)
  with GClearGlobal show ?thesis by simp
qed (use assms in \<open>simp_all add: human_hold_state EnterGlobalSafeStop_def EnterGlobalSafeStopRequireHuman_def
    MarkGlobalReconciled_def UpdateKnownPosition_def\<close>)

section \<open>Properties\<close>

text \<open>C3: the complete authorisation rule. Reconciliation and confirmed BUY cancellation always
  pass; with the emergency stop active nothing else does; otherwise risk-reducing operations
  pass, and a risk-increasing one passes exactly when there is no global safe stop and its own
  symbol (if named) is not stopped. A denial names its scope and the active reason codes.\<close>

theorem Authorize_iff:
  "(gd_Allowed (Authorize g symbol cls) \<longleftrightarrow>
      cls = Reconciliation \<or> cls = ConfirmedBuyCancellation \<or>
      ((\<forall>esm. tg_emergencyStop g = Some esm \<longrightarrow> \<not> IsEmergencyStopActive esm) \<and>
       (cls = RiskReducing \<or>
        (\<not> IsGlobalSafeStopped g \<and> (symbol = [] \<or> \<not> IsSymbolSafeStopped g symbol))))) \<and>
   (\<not> gd_Allowed (Authorize g symbol cls) \<longrightarrow>
      (gd_Scope (Authorize g symbol cls), gd_ReasonCodes (Authorize g symbol cls)) =
        (if \<exists>esm. tg_emergencyStop g = Some esm \<and> IsEmergencyStopActive esm
         then (SafeStopGlobal, [''emergency-stop''])
         else if IsGlobalSafeStopped g then (SafeStopGlobal, GlobalReasons g)
         else (SafeStopSymbol, SymbolReasons g symbol)))"
  by (cases cls; cases "tg_emergencyStop g"; cases "map_of (tg_symbolStates g) symbol")
    (simp_all add: Authorize_def allowed_def IsGlobalSafeStopped_def IsSymbolSafeStopped_def
      GlobalReasons_def SymbolReasons_def Let_def)

text \<open>The hypothesis-free part of the rule, evaluated on a stopped symbol.\<close>

theorem Authorize_iff_witness:
  "gd_Allowed (Authorize (EnterSymbolSafeStop 1 ''BTC'' ''stale-ticker'' [] (NewTradingGate None)) ''ETH'' RiskIncreasing) \<and>
   \<not> gd_Allowed (Authorize (EnterSymbolSafeStop 1 ''BTC'' ''stale-ticker'' [] (NewTradingGate None)) ''BTC'' RiskIncreasing)"
  using Authorize_iff [of "EnterSymbolSafeStop 1 ''BTC'' ''stale-ticker'' [] (NewTradingGate None)" "''ETH''" RiskIncreasing]
    Authorize_iff [of "EnterSymbolSafeStop 1 ''BTC'' ''stale-ticker'' [] (NewTradingGate None)" "''BTC''" RiskIncreasing]
  by (simp add: IsGlobalSafeStopped_def IsSymbolSafeStopped_def EnterSymbolSafeStop_def NewTradingGate_def
      getOrCreateSymbolState_def put_symbol_def Let_def)

text \<open>A symbol reason that requires human confirmation keeps blocking the symbol's
  risk-increasing operations through every sequence of other calls - automatic recovery, health
  updates, other clears and entries included - until that very reason is cleared with
  confirmation or entered again without the requirement.\<close>

theorem human_reason_persists:
  assumes "human_hold g symbol code" and "\<not> list_ex (lifts_hold symbol code) ops" and "symbol \<noteq> []"
  shows "human_hold (gate_run ops g) symbol code \<and>
    \<not> gd_Allowed (Authorize (gate_run ops g) symbol RiskIncreasing)"
proof -
  have h: "human_hold (gate_run ops g) symbol code"
    using assms(1,2) by (induction ops arbitrary: g) (auto intro: human_hold_exec)
  then have "IsSymbolSafeStopped (gate_run ops g) symbol"
    by (auto simp: human_hold_state IsSymbolSafeStopped_def)
  with h assms(3) show ?thesis
    by (auto simp: Authorize_def allowed_def IsSymbolSafeStopped_def Let_def split: option.splits)
qed

theorem human_reason_persists_witness:
  "\<not> gd_Allowed (Authorize (gate_run [GRecover ''BTC'' 9, GClearSymbol ''BTC'' ''unknown'' False, GClearSymbol ''BTC'' ''x'' True]
     (EnterSymbolSafeStopRequireHuman 1 ''BTC'' ''unknown'' [] (NewTradingGate None))) ''BTC'' RiskIncreasing)"
proof -
  let ?g = "EnterSymbolSafeStopRequireHuman 1 ''BTC'' ''unknown'' [] (NewTradingGate None)"
  have "human_hold ?g ''BTC'' ''unknown''"
    by (simp add: human_hold_state EnterSymbolSafeStopRequireHuman_def Let_def getOrCreateSymbolState_def NewTradingGate_def)
  from human_reason_persists [OF this, of "[GRecover ''BTC'' 9, GClearSymbol ''BTC'' ''unknown'' False, GClearSymbol ''BTC'' ''x'' True]"]
  show ?thesis by simp
qed

text \<open>The human requirement can be lost without a human: entering the same reason again through
  \<open>EnterSymbolSafeStop\<close> overwrites it, after which an unconfirmed clear succeeds and removes
  it.\<close>

theorem human_requirement_overwritten:
  assumes "human_hold g symbol code"
  shows "\<not> human_hold (EnterSymbolSafeStop now symbol code details g) symbol code \<and>
    snd (ClearSymbolReason symbol code False (EnterSymbolSafeStop now symbol code details g)) \<and>
    symbol_reason (fst (ClearSymbolReason symbol code False (EnterSymbolSafeStop now symbol code details g)))
      symbol code = None"
  by (auto simp: human_hold_state EnterSymbolSafeStop_def ClearSymbolReason_def symbol_reason_def Let_def)

theorem human_requirement_overwritten_witness:
  "snd (ClearSymbolReason ''BTC'' ''unknown'' False (EnterSymbolSafeStop 2 ''BTC'' ''unknown'' []
     (EnterSymbolSafeStopRequireHuman 1 ''BTC'' ''unknown'' [] (NewTradingGate None))))"
proof -
  let ?g = "EnterSymbolSafeStopRequireHuman 1 ''BTC'' ''unknown'' [] (NewTradingGate None)"
  have "human_hold ?g ''BTC'' ''unknown''"
    by (simp add: human_hold_state EnterSymbolSafeStopRequireHuman_def Let_def getOrCreateSymbolState_def NewTradingGate_def)
  from human_requirement_overwritten [OF this, of 2 "[]"] show ?thesis by simp
qed

text \<open>After a health update the global reasons of the four shared dependencies are exactly the
  unhealthy ones and every other global reason is as before; so risk-increasing operations are
  refused for every symbol as long as one dependency is unhealthy.\<close>

theorem shared_health_synchronised:
  "(\<forall>code. map_of (tg_globalReasons (UpdateSharedHealth now h g)) code \<noteq> None \<longleftrightarrow>
     (if code = ReasonPersistenceFailure then \<not> sh_PersistenceHealthy h
      else if code = ReasonPrivateWSUncertain then \<not> sh_PrivateWSHealthy h
      else if code = ReasonAccountReconcile then \<not> sh_AccountReconcileHealthy h
      else if code = ReasonPortfolioRisk then \<not> sh_PortfolioRiskHealthy h
      else map_of (tg_globalReasons g) code \<noteq> None)) \<and>
   (sh_PersistenceHealthy h \<and> sh_PrivateWSHealthy h \<and> sh_AccountReconcileHealthy h \<and> sh_PortfolioRiskHealthy h \<or>
     (\<forall>symbol. \<not> gd_Allowed (Authorize (UpdateSharedHealth now h g) symbol RiskIncreasing)))"
proof -
  have stopped: "IsGlobalSafeStopped (UpdateSharedHealth now h g)"
    if "\<not> (sh_PersistenceHealthy h \<and> sh_PrivateWSHealthy h \<and> sh_AccountReconcileHealthy h \<and> sh_PortfolioRiskHealthy h)"
  proof -
    have "\<exists>k. map_of (tg_globalReasons (UpdateSharedHealth now h g)) k \<noteq> None"
      using that shared_reasons [of now h g ReasonPersistenceFailure] shared_reasons [of now h g ReasonPrivateWSUncertain]
        shared_reasons [of now h g ReasonAccountReconcile] shared_reasons [of now h g ReasonPortfolioRisk]
      unfolding reason_codes by (simp del: not_None_eq) metis
    then show ?thesis by (auto simp: IsGlobalSafeStopped_def)
  qed
  have refused: "\<not> gd_Allowed (Authorize g' symbol RiskIncreasing)" if "IsGlobalSafeStopped g'" for g' symbol
    using that by (simp add: Authorize_def IsGlobalSafeStopped_def Let_def split: option.split)
  show ?thesis
    using stopped refused shared_reasons by blast
qed

theorem shared_health_synchronised_witness:
  "\<not> gd_Allowed (Authorize (UpdateSharedHealth 1 \<lparr>sh_PersistenceHealthy = True, sh_PrivateWSHealthy = False,
     sh_AccountReconcileHealthy = True, sh_PortfolioRiskHealthy = True\<rparr> (NewTradingGate None)) ''BTC'' RiskIncreasing)"
  using shared_health_synchronised [of 1 "\<lparr>sh_PersistenceHealthy = True, sh_PrivateWSHealthy = False,
     sh_AccountReconcileHealthy = True, sh_PortfolioRiskHealthy = True\<rparr>" "NewTradingGate None"] by simp

text \<open>Automatic recovery of a stopped symbol succeeds exactly when no global reason is
  active, none of its reasons requires a human, the reconciliation epoch is not older than the
  recorded one and all four shared dependencies are healthy; it then clears every reason,
  records the epoch and lets risk-increasing operations pass (unless the emergency stop is
  active); otherwise it changes nothing.\<close>

theorem TryRecoverSymbol_spec:
  assumes "map_of (tg_symbolStates g) symbol = Some st" and "sss_Active st"
    and "TryRecoverSymbol symbol epoch g = (g', failure)"
  shows "(failure = None \<longleftrightarrow> \<not> IsGlobalSafeStopped g \<and>
      (\<forall>(code, r) \<in> set (sss_Reasons st). \<not> sr_RequiresHuman r) \<and> sss_RecoveryEpoch st \<le> epoch \<and>
      sh_PersistenceHealthy (tg_sharedHealth g) \<and> sh_PrivateWSHealthy (tg_sharedHealth g) \<and>
      sh_AccountReconcileHealthy (tg_sharedHealth g) \<and> sh_PortfolioRiskHealthy (tg_sharedHealth g)) \<and>
    (if failure = None
     then SymbolReasons g' symbol = [] \<and> RecoveryEpoch g' symbol = epoch \<and>
       (tg_emergencyStop g = None \<longrightarrow> gd_Allowed (Authorize g' symbol RiskIncreasing))
     else g' = g)"
proof (cases "find (\<lambda>(code, reason). sr_RequiresHuman reason) (sss_Reasons st)")
  case None
  then have "\<forall>(code, r) \<in> set (sss_Reasons st). \<not> sr_RequiresHuman r"
    by (auto simp: find_None_iff)
  with assms None show ?thesis
    by (auto simp: TryRecoverSymbol_def IsGlobalSafeStopped_def SymbolReasons_def RecoveryEpoch_def
        Authorize_def allowed_def Let_def not_less split: if_splits)
next
  case (Some p)
  then have "\<not> (\<forall>(code, r) \<in> set (sss_Reasons st). \<not> sr_RequiresHuman r)"
    by (auto simp: find_Some_iff split_beta)
  with assms Some show ?thesis
    by (auto simp: TryRecoverSymbol_def split: if_splits prod.splits)
qed

definition healthy :: SharedDependencyHealth where
  "healthy = \<lparr>sh_PersistenceHealthy = True, sh_PrivateWSHealthy = True, sh_AccountReconcileHealthy = True,
     sh_PortfolioRiskHealthy = True\<rparr>"

theorem TryRecoverSymbol_spec_witness:
  "RecoveryEpoch (fst (TryRecoverSymbol ''BTC'' 4 (EnterSymbolSafeStop 1 ''BTC'' ''stale-ticker'' []
     ((NewTradingGate None)\<lparr>tg_sharedHealth := healthy\<rparr>)))) ''BTC'' = 4"
proof -
  let ?g = "EnterSymbolSafeStop 1 ''BTC'' ''stale-ticker'' [] ((NewTradingGate None)\<lparr>tg_sharedHealth := healthy\<rparr>)"
  let ?st = "\<lparr>sss_Active = True, sss_Reasons = [(''stale-ticker'', \<lparr>sr_Code = ''stale-ticker'', sr_Since = 1,
    sr_Details = [], sr_RequiresHuman = False\<rparr>)], sss_RecoveryEpoch = 0\<rparr>"
  have g: "map_of (tg_symbolStates ?g) ''BTC'' = Some ?st" "sss_Active ?st"
    "\<not> IsGlobalSafeStopped ?g" "tg_sharedHealth ?g = healthy"
    by (simp_all add: EnterSymbolSafeStop_def getOrCreateSymbolState_def NewTradingGate_def Let_def
        IsGlobalSafeStopped_def)
  from TryRecoverSymbol_spec [OF g(1,2) surjective_pairing, of 4] show ?thesis
    using g(3,4) by (auto simp: healthy_def split: if_splits)
qed

text \<open>The gate does not look at the known position: recording any position for any symbol
  changes no authorisation, so a SELL classified as risk-reducing passes whatever its size.\<close>

theorem Authorize_ignores_positions:
  "Authorize (UpdateKnownPosition s qty g) symbol cls = Authorize g symbol cls"
  by (simp add: Authorize_def UpdateKnownPosition_def)

end
