(* ===== verification/RiskManager.thy ===== *)
theory RiskManager
  imports EmergencyStop
begin

text \<open>
  The order risk checks (\<open>src/internal/risk/risk_manager.go\<close>, \<open>manager.go\<close>). A decision carries
  its rejection reasons as data: a constructor per message of the code, with the values the
  message prints. \<open>CheckOrder\<close> reads the clock twice, once for the rate window and once to record
  an approved order; both readings are arguments. Sums over maps are sums over association lists
  with distinct keys. Each method holds the lock for its whole body.
\<close>

record OrderRequest =
  or_Symbol :: string
  or_Side :: Side
  or_OrderType :: OrderType
  or_Price :: decimal
  or_Quantity :: decimal
  or_StrategyID :: string
  or_SpreadBps :: int

datatype risk_reason =
    EmergencyStopReason string
  | PositionLimitReason string decimal decimal
  | TotalExposureReason decimal decimal
  | DailyLossReason decimal decimal
  | OrderRateReason int int
  | OpenOrdersReason string int int
  | SpreadReason int int

record Decision =
  d_Approved :: bool
  d_Reasons :: "risk_reason list"

record RiskManagerImpl =
  rm_limits :: "RiskLimits option"
  rm_positions :: "(string, Position) gomap"
  rm_dailyPnL :: "(string, decimal) gomap"
  rm_orderTimestamps :: "time list"
  rm_openOrderCounts :: "(string, int) gomap"
  rm_emergencyStop :: bool
  rm_emergencyStopReason :: string

record RiskMetrics =
  rx_DailyPnL :: decimal
  rx_TotalExposure :: decimal
  rx_PositionsBySymbol :: "(string, decimal) gomap"
  rx_OpenOrdersBySymbol :: "(string, int) gomap"
  rx_OrdersInLastSecond :: int
  rx_EmergencyStopActive :: bool
  rx_EmergencyStopReason :: string

definition second :: duration where
  "second = 1000000000"

definition NewRiskManager :: "RiskLimits option \<Rightarrow> RiskManagerImpl" where
  "NewRiskManager limits = \<lparr>rm_limits = limits, rm_positions = [], rm_dailyPnL = [],
     rm_orderTimestamps = [], rm_openOrderCounts = [], rm_emergencyStop = False,
     rm_emergencyStopReason = []\<rparr>"

section \<open>The six checks\<close>

text \<open>Each check returns the reasons it appends.\<close>

definition checkPositionLimit :: "RiskLimits \<Rightarrow> RiskManagerImpl \<Rightarrow> OrderRequest \<Rightarrow> risk_reason list" where
  "checkPositionLimit l rm order =
     (if rl_MaxPositionPerSymbol l = 0 then []
      else
        let notional = or_Price order * or_Quantity order;
            existingNotional = (case map_of (rm_positions rm) (or_Symbol order) of
                None \<Rightarrow> 0 | Some pos \<Rightarrow> pos_Quantity pos * pos_AvgEntryPrice pos);
            newNotional = existingNotional + notional
        in if \<bar>newNotional\<bar> > rl_MaxPositionPerSymbol l
           then [PositionLimitReason (or_Symbol order) \<bar>newNotional\<bar> (rl_MaxPositionPerSymbol l)]
           else [])"

definition total_exposure :: "RiskManagerImpl \<Rightarrow> decimal" where
  "total_exposure rm =
     sum_list (map (\<lambda>(_, pos). \<bar>pos_Quantity pos * pos_AvgEntryPrice pos\<bar>) (rm_positions rm))"

definition checkTotalExposure :: "RiskLimits \<Rightarrow> RiskManagerImpl \<Rightarrow> OrderRequest \<Rightarrow> risk_reason list" where
  "checkTotalExposure l rm order =
     (if rl_MaxTotalPosition l = 0 then []
      else
        let orderNotional = or_Price order * or_Quantity order;
            newTotal = total_exposure rm + \<bar>orderNotional\<bar>
        in if newTotal > rl_MaxTotalPosition l
           then [TotalExposureReason newTotal (rl_MaxTotalPosition l)] else [])"

definition total_pnl :: "RiskManagerImpl \<Rightarrow> decimal" where
  "total_pnl rm = sum_list (map snd (rm_dailyPnL rm))"

definition checkDailyLoss :: "RiskLimits \<Rightarrow> RiskManagerImpl \<Rightarrow> risk_reason list" where
  "checkDailyLoss l rm =
     (if rl_MaxDailyLoss l = 0 then []
      else if total_pnl rm < - rl_MaxDailyLoss l
      then [DailyLossReason (total_pnl rm) (rl_MaxDailyLoss l)] else [])"

text \<open>The rate check first drops the timestamps before the window.\<close>

definition checkOrderRate ::
  "RiskLimits \<Rightarrow> time \<Rightarrow> RiskManagerImpl \<Rightarrow> RiskManagerImpl \<times> risk_reason list" where
  "checkOrderRate l now rm =
     (if rl_MaxOrdersPerSecond l \<le> 0 then (rm, [])
      else
        let cutoff = now - second;
            stamps = dropWhile (\<lambda>t. t < cutoff) (rm_orderTimestamps rm);
            count = int (length stamps)
        in (rm\<lparr>rm_orderTimestamps := stamps\<rparr>,
            if count \<ge> rl_MaxOrdersPerSecond l
            then [OrderRateReason count (rl_MaxOrdersPerSecond l)] else []))"

definition open_orders :: "RiskManagerImpl \<Rightarrow> string \<Rightarrow> int" where
  "open_orders rm symbol = (case map_of (rm_openOrderCounts rm) symbol of None \<Rightarrow> 0 | Some n \<Rightarrow> n)"

definition checkOpenOrderCount :: "RiskLimits \<Rightarrow> RiskManagerImpl \<Rightarrow> OrderRequest \<Rightarrow> risk_reason list" where
  "checkOpenOrderCount l rm order =
     (if rl_MaxOpenOrders l \<le> 0 then []
      else
        let currentCount = open_orders rm (or_Symbol order) in
        if currentCount \<ge> rl_MaxOpenOrders l
        then [OpenOrdersReason (or_Symbol order) currentCount (rl_MaxOpenOrders l)] else [])"

definition checkMinSpread :: "RiskLimits \<Rightarrow> OrderRequest \<Rightarrow> risk_reason list" where
  "checkMinSpread l order =
     (if rl_MinSpreadBps l \<le> 0 then []
      else if or_SpreadBps order < rl_MinSpreadBps l
      then [SpreadReason (or_SpreadBps order) (rl_MinSpreadBps l)] else [])"

section \<open>Operations\<close>

definition CheckOrder ::
  "time \<Rightarrow> time \<Rightarrow> OrderRequest \<Rightarrow> RiskManagerImpl \<Rightarrow> RiskManagerImpl \<times> Decision" where
  "CheckOrder now now' order rm =
     (if rm_emergencyStop rm
      then (rm, \<lparr>d_Approved = False, d_Reasons = [EmergencyStopReason (rm_emergencyStopReason rm)]\<rparr>)
      else case rm_limits rm of
        None \<Rightarrow> (rm, \<lparr>d_Approved = True, d_Reasons = []\<rparr>)
      | Some l \<Rightarrow>
          let r1 = checkPositionLimit l rm order;
              r2 = checkTotalExposure l rm order;
              r3 = checkDailyLoss l rm;
              (rm1, r4) = checkOrderRate l now rm;
              r5 = checkOpenOrderCount l rm1 order;
              r6 = checkMinSpread l order;
              reasons = r1 @ r2 @ r3 @ r4 @ r5 @ r6
          in if reasons \<noteq> [] then (rm1, \<lparr>d_Approved = False, d_Reasons = reasons\<rparr>)
             else (rm1\<lparr>rm_orderTimestamps := rm_orderTimestamps rm1 @ [now']\<rparr>,
                   \<lparr>d_Approved = True, d_Reasons = []\<rparr>))"

text \<open>A batch: every order with its two clock readings.\<close>

fun check_batch_loop ::
  "(time \<times> time \<times> OrderRequest) list \<Rightarrow> RiskManagerImpl \<Rightarrow> Decision \<Rightarrow> RiskManagerImpl \<times> Decision" where
  "check_batch_loop [] rm combined = (rm, combined)"
| "check_batch_loop ((now, now', order) # orders) rm combined =
     (case CheckOrder now now' order rm of
        (rm1, d) \<Rightarrow>
          check_batch_loop orders rm1
            (if \<not> d_Approved d
             then combined\<lparr>d_Approved := False, d_Reasons := d_Reasons combined @ d_Reasons d\<rparr>
             else combined))"

definition CheckBatchOrders ::
  "(time \<times> time \<times> OrderRequest) list \<Rightarrow> RiskManagerImpl \<Rightarrow> RiskManagerImpl \<times> Decision" where
  "CheckBatchOrders orders rm = check_batch_loop orders rm \<lparr>d_Approved = True, d_Reasons = []\<rparr>"

definition UpdatePosition :: "string \<Rightarrow> Position \<Rightarrow> RiskManagerImpl \<Rightarrow> RiskManagerImpl" where
  "UpdatePosition symbol position rm = rm\<lparr>rm_positions := AList.update symbol position (rm_positions rm)\<rparr>"

definition UpdateStrategyPnL :: "string \<Rightarrow> decimal \<Rightarrow> RiskManagerImpl \<Rightarrow> RiskManagerImpl" where
  "UpdateStrategyPnL strategyID pnl rm = rm\<lparr>rm_dailyPnL := AList.update strategyID pnl (rm_dailyPnL rm)\<rparr>"

text \<open>The backward count stops at the first timestamp that is not after the cutoff.\<close>

definition GetRiskMetrics :: "time \<Rightarrow> RiskManagerImpl \<Rightarrow> RiskMetrics" where
  "GetRiskMetrics now rm =
     (let cutoff = now - second in
      \<lparr>rx_DailyPnL = total_pnl rm,
       rx_TotalExposure = total_exposure rm,
       rx_PositionsBySymbol = map (\<lambda>(s, pos). (s, \<bar>pos_Quantity pos * pos_AvgEntryPrice pos\<bar>)) (rm_positions rm),
       rx_OpenOrdersBySymbol = rm_openOrderCounts rm,
       rx_OrdersInLastSecond = int (length (takeWhile (\<lambda>t. t > cutoff) (rev (rm_orderTimestamps rm)))),
       rx_EmergencyStopActive = rm_emergencyStop rm,
       rx_EmergencyStopReason = rm_emergencyStopReason rm\<rparr>)"

definition SetRiskLimits :: "RiskLimits option \<Rightarrow> RiskManagerImpl \<Rightarrow> RiskManagerImpl" where
  "SetRiskLimits limits rm = rm\<lparr>rm_limits := limits\<rparr>"

definition RM_EmergencyStop :: "string \<Rightarrow> RiskManagerImpl \<Rightarrow> RiskManagerImpl" where
  "RM_EmergencyStop reason rm = rm\<lparr>rm_emergencyStop := True, rm_emergencyStopReason := reason\<rparr>"

definition RM_ResumeFromEmergencyStop :: "RiskManagerImpl \<Rightarrow> RiskManagerImpl" where
  "RM_ResumeFromEmergencyStop rm = rm\<lparr>rm_emergencyStop := False, rm_emergencyStopReason := []\<rparr>"

definition RM_IsEmergencyStopActive :: "RiskManagerImpl \<Rightarrow> bool" where
  "RM_IsEmergencyStopActive rm = rm_emergencyStop rm"

definition UpdateOpenOrderCount :: "string \<Rightarrow> int \<Rightarrow> RiskManagerImpl \<Rightarrow> RiskManagerImpl" where
  "UpdateOpenOrderCount symbol n rm = rm\<lparr>rm_openOrderCounts := AList.update symbol n (rm_openOrderCounts rm)\<rparr>"

definition ResetDailyPnL :: "RiskManagerImpl \<Rightarrow> RiskManagerImpl" where
  "ResetDailyPnL rm = rm\<lparr>rm_dailyPnL := []\<rparr>"

section \<open>itoa\<close>

text \<open>
  The hand-written integer printer works on a 64-bit \<open>int\<close>: negation wraps for the smallest
  value, after which the digit loop does not run.
\<close>

fun itoa_digits :: "nat \<Rightarrow> nat list" where
  "itoa_digits n = (if n > 0 then n mod 10 # itoa_digits (n div 10) else [])"

declare itoa_digits.simps [simp del]

definition itoa :: "int64 \<Rightarrow> string" where
  "itoa n =
     (if n = 0 then ''0''
      else
        let neg = sint n < 0;
            m = (if neg then - n else n);
            buf = map (\<lambda>d. char_of (48 + d)) (itoa_digits (nat (sint m)));
            buf' = (if neg then buf @ ''-'' else buf)
        in rev buf')"

section \<open>Lemmas\<close>

lemma checkOrderRate_frame:
  "checkOrderRate l now rm = (rm1, r) \<Longrightarrow> \<exists>ts. rm1 = rm\<lparr>rm_orderTimestamps := ts\<rparr>"
  by (auto simp: checkOrderRate_def Let_def split: if_splits intro: exI [of _ "rm_orderTimestamps rm"])

lemma open_orders_frame [simp]: "open_orders (rm\<lparr>rm_orderTimestamps := ts\<rparr>) s = open_orders rm s"
  by (simp add: open_orders_def)

lemma checkOpenOrderCount_frame [simp]:
  "checkOpenOrderCount l (rm\<lparr>rm_orderTimestamps := ts\<rparr>) order = checkOpenOrderCount l rm order"
  by (simp add: checkOpenOrderCount_def)

lemma CheckOrder_frame:
  "CheckOrder now now' order rm = (rm', d) \<Longrightarrow> \<exists>ts. rm' = rm\<lparr>rm_orderTimestamps := ts\<rparr>"
  by (auto simp: CheckOrder_def Let_def dest!: checkOrderRate_frame split: option.splits prod.splits if_splits
      intro: exI [of _ "rm_orderTimestamps rm"])

text \<open>The approved order times of a history of \<open>CheckOrder\<close> calls.\<close>

fun approved_times :: "(time \<times> time \<times> OrderRequest) list \<Rightarrow> RiskManagerImpl \<Rightarrow> time list" where
  "approved_times [] rm = []"
| "approved_times ((now, now', order) # orders) rm =
     (case CheckOrder now now' order rm of
        (rm1, d) \<Rightarrow> (if d_Approved d then [now'] else []) @ approved_times orders rm1)"

definition clocks :: "(time \<times> time \<times> OrderRequest) list \<Rightarrow> bool" where
  "clocks orders \<longleftrightarrow> list_all (\<lambda>(now, now', _). now \<le> now') orders"

definition spaced :: "nat \<Rightarrow> time list \<Rightarrow> bool" where
  "spaced m h \<longleftrightarrow> (\<forall>i. i + m < length h \<longrightarrow> h ! i + second < h ! (i + m))"

lemma spaced_snoc:
  assumes "spaced m h" and "h = old @ ts" and "length ts < m" and "\<And>t. t \<in> set old \<Longrightarrow> t + second < x"
  shows "spaced m (h @ [x])"
  unfolding spaced_def
proof (intro allI impI)
  fix i assume i: "i + m < length (h @ [x])"
  show "(h @ [x]) ! i + second < (h @ [x]) ! (i + m)"
  proof (cases "i + m < length h")
    case True
    with assms(1) show ?thesis by (simp add: spaced_def nth_append)
  next
    case False
    with i have im: "i + m = length h" by simp
    with assms(2,3) have "i < length old" by simp
    then have "h ! i \<in> set old" using assms(2) by (simp add: nth_append)
    with im assms(3,4) show ?thesis by (simp add: nth_append)
  qed
qed

lemma CheckOrder_approved:
  assumes "CheckOrder now now' order rm = (rm', d)" and "d_Approved d" and "rm_limits rm = Some l"
    and "0 < rl_MaxOrdersPerSecond l"
  shows "length (dropWhile (\<lambda>t. t < now - second) (rm_orderTimestamps rm)) < nat (rl_MaxOrdersPerSecond l) \<and>
    rm_orderTimestamps rm' = dropWhile (\<lambda>t. t < now - second) (rm_orderTimestamps rm) @ [now']"
  using assms by (auto simp: CheckOrder_def checkOrderRate_def Let_def split: if_splits)

lemma CheckOrder_rejected:
  assumes "CheckOrder now now' order rm = (rm', d)" and "\<not> d_Approved d"
  shows "\<exists>n. rm_orderTimestamps rm' = drop n (rm_orderTimestamps rm) \<and>
    (\<forall>t \<in> set (take n (rm_orderTimestamps rm)). t < now - second)"
proof -
  let ?P = "\<lambda>t. t < now - second"
  have d: "dropWhile ?P ts = drop (length (takeWhile ?P ts)) ts \<and>
      (\<forall>t \<in> set (take (length (takeWhile ?P ts)) ts). ?P t)" for ts
    by (simp add: dropWhile_eq_drop takeWhile_eq_take [symmetric]) (auto dest: set_takeWhileD)
  have "rm_orderTimestamps rm' = rm_orderTimestamps rm \<or>
      rm_orderTimestamps rm' = dropWhile ?P (rm_orderTimestamps rm)"
    using assms by (auto simp: CheckOrder_def checkOrderRate_def Let_def split: option.splits prod.splits if_splits)
  then show ?thesis using d [of "rm_orderTimestamps rm"] by (metis drop_0 empty_iff list.set(1) take_0)
qed

lemma approved_times_spaced:
  assumes "rm_limits rm = Some l" and "0 < rl_MaxOrdersPerSecond l" and "clocks orders"
    and "spaced (nat (rl_MaxOrdersPerSecond l)) h" and "h = old @ rm_orderTimestamps rm"
    and "\<And>now now' order t. (now, now', order) \<in> set orders \<Longrightarrow> t \<in> set old \<Longrightarrow> t < now - second"
    and "sorted (map fst orders)"
  shows "spaced (nat (rl_MaxOrdersPerSecond l)) (h @ approved_times orders rm)"
  using assms
proof (induction orders arbitrary: rm h old)
  case Nil
  then show ?case by simp
next
  case (Cons x orders)
  obtain now now' order where x: "x = (now, now', order)" by (cases x)
  obtain rm1 d where c: "CheckOrder now now' order rm = (rm1, d)" by fastforce
  have lim: "rm_limits rm1 = Some l" using CheckOrder_frame [OF c] Cons.prems(1) by auto
  have later: "now \<le> n" if "(n, n', o') \<in> set orders" for n n' o'
    using Cons.prems(7) that x by auto
  have old: "t < n - second" if "t \<in> set old \<or> t < now - second" "(n, n', o') \<in> set orders" for t n n' o'
    using that later [OF that(2)] Cons.prems(6) by auto
  show ?case
  proof (cases "d_Approved d")
    case True
    let ?ts = "dropWhile (\<lambda>t. t < now - second) (rm_orderTimestamps rm)"
    let ?old = "old @ takeWhile (\<lambda>t. t < now - second) (rm_orderTimestamps rm)"
    note a = CheckOrder_approved [OF c True Cons.prems(1,2)]
    have h: "h = ?old @ ?ts" using Cons.prems(5) by simp
    have "now \<le> now'" using Cons.prems(3) x by (simp add: clocks_def)
    moreover have "t < now - second" if "t \<in> set ?old" for t
      using that Cons.prems(6) [of now now' order t] x by (auto dest: set_takeWhileD)
    ultimately have early: "t + second < now'" if "t \<in> set ?old" for t using that by fastforce
    have "spaced (nat (rl_MaxOrdersPerSecond l)) (h @ [now'])"
      using spaced_snoc [OF Cons.prems(4) h] a early by blast
    then have "spaced (nat (rl_MaxOrdersPerSecond l)) ((h @ [now']) @ approved_times orders rm1)"
      using Cons.prems(2,3,7) a h old lim
      by (intro Cons.IH [where old = ?old]) (auto simp: clocks_def dest: set_takeWhileD)
    then show ?thesis using True c x by simp
  next
    case False
    obtain n where n: "rm_orderTimestamps rm1 = drop n (rm_orderTimestamps rm)"
      "\<forall>t \<in> set (take n (rm_orderTimestamps rm)). t < now - second"
      using CheckOrder_rejected [OF c False] by blast
    have "spaced (nat (rl_MaxOrdersPerSecond l)) (h @ approved_times orders rm1)"
      using Cons.prems(2-5,7) n old lim
      by (intro Cons.IH [where old = "old @ take n (rm_orderTimestamps rm)"]) (auto simp: clocks_def)
    then show ?thesis using False c x by simp
  qed
qed

text \<open>When each check passes.\<close>

lemma checkPositionLimit_ok: "checkPositionLimit l rm order = [] \<longleftrightarrow>
    rl_MaxPositionPerSymbol l = 0 \<or>
    \<bar>(case map_of (rm_positions rm) (or_Symbol order) of
        None \<Rightarrow> 0 | Some p \<Rightarrow> pos_Quantity p * pos_AvgEntryPrice p) + or_Price order * or_Quantity order\<bar>
      \<le> rl_MaxPositionPerSymbol l"
  by (simp add: checkPositionLimit_def Let_def not_less)

lemma checkTotalExposure_ok: "checkTotalExposure l rm order = [] \<longleftrightarrow> rl_MaxTotalPosition l = 0 \<or>
    total_exposure rm + \<bar>or_Price order * or_Quantity order\<bar> \<le> rl_MaxTotalPosition l"
  by (simp add: checkTotalExposure_def Let_def not_less)

lemma checkDailyLoss_ok: "checkDailyLoss l rm = [] \<longleftrightarrow>
    rl_MaxDailyLoss l = 0 \<or> - rl_MaxDailyLoss l \<le> total_pnl rm"
  by (simp add: checkDailyLoss_def not_less)

lemma checkOpenOrderCount_ok: "checkOpenOrderCount l rm order = [] \<longleftrightarrow>
    rl_MaxOpenOrders l \<le> 0 \<or> open_orders rm (or_Symbol order) < rl_MaxOpenOrders l"
  by (simp add: checkOpenOrderCount_def Let_def not_less)

lemma checkMinSpread_ok: "checkMinSpread l order = [] \<longleftrightarrow>
    rl_MinSpreadBps l \<le> 0 \<or> rl_MinSpreadBps l \<le> or_SpreadBps order"
  by (simp add: checkMinSpread_def not_less)

lemmas check_iffs = checkPositionLimit_ok checkTotalExposure_ok checkDailyLoss_ok
  checkOpenOrderCount_ok checkMinSpread_ok

section \<open>Properties\<close>

definition sample_limits :: RiskLimits where
  "sample_limits = \<lparr>rl_MaxPositionPerSymbol = 1000, rl_MaxTotalPosition = 1000, rl_MaxDailyLoss = 50,
     rl_MaxStrategyLoss = 0, rl_MaxOrdersPerSecond = 2, rl_MaxOpenOrders = 5, rl_MinSpreadBps = 3,
     rl_EmergencyStopLoss = 100\<rparr>"

definition sample_order :: OrderRequest where
  "sample_order = \<lparr>or_Symbol = ''BTC'', or_Side = SideBuy, or_OrderType = OrderTypeLimit, or_Price = 100,
     or_Quantity = 8, or_StrategyID = [], or_SpreadBps = 10\<rparr>"

text \<open>C15: the complete decision rule. An order is approved exactly when the emergency stop is off
  and either no limits are set or each enabled limit holds: symbol notional, total exposure,
  daily loss, orders in the last second, open orders of the symbol and minimum spread; an approval
  has no reasons, a rejection has at least one, and the check changes nothing but the rate window.\<close>

theorem CheckOrder_iff:
  assumes "CheckOrder now now' order rm = (rm', d)"
  shows "(d_Approved d \<longleftrightarrow> \<not> rm_emergencyStop rm \<and>
      (case rm_limits rm of None \<Rightarrow> True | Some l \<Rightarrow>
        (rl_MaxPositionPerSymbol l = 0 \<or>
          \<bar>(case map_of (rm_positions rm) (or_Symbol order) of
              None \<Rightarrow> 0 | Some p \<Rightarrow> pos_Quantity p * pos_AvgEntryPrice p) + or_Price order * or_Quantity order\<bar>
            \<le> rl_MaxPositionPerSymbol l) \<and>
        (rl_MaxTotalPosition l = 0 \<or>
          total_exposure rm + \<bar>or_Price order * or_Quantity order\<bar> \<le> rl_MaxTotalPosition l) \<and>
        (rl_MaxDailyLoss l = 0 \<or> - rl_MaxDailyLoss l \<le> total_pnl rm) \<and>
        (rl_MaxOrdersPerSecond l \<le> 0 \<or>
          int (length (dropWhile (\<lambda>t. t < now - second) (rm_orderTimestamps rm))) < rl_MaxOrdersPerSecond l) \<and>
        (rl_MaxOpenOrders l \<le> 0 \<or> open_orders rm (or_Symbol order) < rl_MaxOpenOrders l) \<and>
        (rl_MinSpreadBps l \<le> 0 \<or> rl_MinSpreadBps l \<le> or_SpreadBps order))) \<and>
    (d_Approved d \<longleftrightarrow> d_Reasons d = []) \<and> (\<exists>ts. rm' = rm\<lparr>rm_orderTimestamps := ts\<rparr>)"
proof (cases "rm_limits rm")
  case None
  then show ?thesis using assms CheckOrder_frame [OF assms] by (auto simp: CheckOrder_def split: if_splits)
next
  case (Some l)
  obtain rm1 r4 where r: "checkOrderRate l now rm = (rm1, r4)" by fastforce
  obtain ts where ts: "rm1 = rm\<lparr>rm_orderTimestamps := ts\<rparr>" using checkOrderRate_frame [OF r] by blast
  have r4: "r4 = [] \<longleftrightarrow> (rl_MaxOrdersPerSecond l \<le> 0 \<or>
      int (length (dropWhile (\<lambda>t. t < now - second) (rm_orderTimestamps rm))) < rl_MaxOrdersPerSecond l)"
    using r by (auto simp: checkOrderRate_def Let_def split: if_splits)
  have d: "d_Approved d \<longleftrightarrow> \<not> rm_emergencyStop rm \<and> checkPositionLimit l rm order = [] \<and>
      checkTotalExposure l rm order = [] \<and> checkDailyLoss l rm = [] \<and> r4 = [] \<and>
      checkOpenOrderCount l rm order = [] \<and> checkMinSpread l order = []"
    and e: "d_Approved d \<longleftrightarrow> d_Reasons d = []"
    using assms Some r ts by (auto simp: CheckOrder_def Let_def split: if_splits)
  show ?thesis
    using e CheckOrder_frame [OF assms] unfolding d r4 Some option.case check_iffs by blast
qed

theorem CheckOrder_iff_witness:
  "d_Approved (snd (CheckOrder 5 6 sample_order (NewRiskManager (Some sample_limits)))) \<and>
   \<not> d_Approved (snd (CheckOrder 5 6 (sample_order\<lparr>or_Quantity := 11\<rparr>) (NewRiskManager (Some sample_limits))))"
  using CheckOrder_iff [OF surjective_pairing, of 5 6 sample_order "NewRiskManager (Some sample_limits)"]
    CheckOrder_iff [OF surjective_pairing, of 5 6 "sample_order\<lparr>or_Quantity := 11\<rparr>" "NewRiskManager (Some sample_limits)"]
  by (simp add: sample_order_def sample_limits_def NewRiskManager_def total_exposure_def total_pnl_def open_orders_def)

text \<open>C29: the sliding window is a real rate limit: over any history of checks with a clock that
  does not run backwards, any \<open>MaxOrdersPerSecond + 1\<close> consecutive approvals span more than one
  second, so no window of one second ever holds more approvals than the limit.\<close>

theorem order_rate_bounded:
  assumes "0 < rl_MaxOrdersPerSecond l" and "clocks orders" and "sorted (map fst orders)"
  shows "\<forall>i. i + nat (rl_MaxOrdersPerSecond l) < length (approved_times orders (NewRiskManager (Some l))) \<longrightarrow>
    approved_times orders (NewRiskManager (Some l)) ! i + second
      < approved_times orders (NewRiskManager (Some l)) ! (i + nat (rl_MaxOrdersPerSecond l))"
proof -
  have "spaced (nat (rl_MaxOrdersPerSecond l)) ([] @ approved_times orders (NewRiskManager (Some l)))"
    using assms by (intro approved_times_spaced [where old = "[]"]) (auto simp: NewRiskManager_def spaced_def)
  then show ?thesis by (simp add: spaced_def)
qed

theorem order_rate_bounded_witness:
  "approved_times [(0, 1, sample_order), (2, 3, sample_order), (4, 5, sample_order),
      (2000000000, 2000000001, sample_order)] (NewRiskManager (Some sample_limits)) = [1, 3, 2000000001] \<and>
   1 + second < 2000000001"
proof -
  let ?h = "[(0, 1, sample_order), (2, 3, sample_order), (4, 5, sample_order),
      (2000000000, 2000000001, sample_order)] :: (time \<times> time \<times> OrderRequest) list"
  have a: "approved_times ?h (NewRiskManager (Some sample_limits)) = [1, 3, 2000000001]"
    by (simp add: NewRiskManager_def sample_limits_def sample_order_def CheckOrder_def checkOrderRate_def
        checkPositionLimit_def checkTotalExposure_def checkDailyLoss_def checkOpenOrderCount_def
        checkMinSpread_def total_exposure_def total_pnl_def open_orders_def second_def Let_def)
  have "clocks ?h" "sorted (map fst ?h)" "0 < rl_MaxOrdersPerSecond sample_limits"
    by (simp_all add: clocks_def sample_limits_def)
  from order_rate_bounded [OF this(3,1,2)] a show ?thesis
    by (auto simp: sample_limits_def)
qed

text \<open>A batch does not accumulate: with the rate limit disabled, a batch of any number of
  copies of an order that would be approved alone is approved, however far their combined
  notional exceeds the position and exposure limits.\<close>

theorem batch_exposure_not_accumulated:
  assumes "rm_limits rm = Some l" and "rl_MaxOrdersPerSecond l \<le> 0"
    and "d_Approved (snd (CheckOrder now now' order rm))"
  shows "d_Approved (snd (CheckBatchOrders (replicate n (now, now', order)) rm))"
proof -
  have alone: "d_Approved (snd (CheckOrder now now' order (rm\<lparr>rm_orderTimestamps := ts\<rparr>)))" for ts
    using CheckOrder_iff [OF surjective_pairing, of now now' order "rm\<lparr>rm_orderTimestamps := ts\<rparr>"]
      CheckOrder_iff [OF surjective_pairing, of now now' order rm] assms
    by (simp add: total_exposure_def total_pnl_def)
  have "d_Approved c \<Longrightarrow>
      d_Approved (snd (check_batch_loop (replicate n (now, now', order)) (rm\<lparr>rm_orderTimestamps := ts\<rparr>) c))"
    for ts c
  proof (induction n arbitrary: ts c)
    case (Suc n)
    obtain rm1 d where c: "CheckOrder now now' order (rm\<lparr>rm_orderTimestamps := ts\<rparr>) = (rm1, d)" by fastforce
    with alone [of ts] have "d_Approved d" by simp
    moreover obtain ts' where "rm1 = rm\<lparr>rm_orderTimestamps := ts'\<rparr>" using CheckOrder_frame [OF c] by auto
    ultimately show ?case using c Suc by simp
  qed simp
  from this [of "\<lparr>d_Approved = True, d_Reasons = []\<rparr>" "rm_orderTimestamps rm"] show ?thesis
    by (simp add: CheckBatchOrders_def)
qed

theorem batch_exposure_not_accumulated_witness:
  "d_Approved (snd (CheckBatchOrders (replicate 100 (5, 6, sample_order))
     (NewRiskManager (Some (sample_limits\<lparr>rl_MaxOrdersPerSecond := 0\<rparr>))))) \<and>
   or_Price sample_order * or_Quantity sample_order * 100 > rl_MaxTotalPosition sample_limits"
proof -
  let ?rm = "NewRiskManager (Some (sample_limits\<lparr>rl_MaxOrdersPerSecond := 0\<rparr>))"
  have "d_Approved (snd (CheckOrder 5 6 sample_order ?rm))"
    by (simp add: NewRiskManager_def sample_limits_def sample_order_def CheckOrder_def checkOrderRate_def
        checkPositionLimit_def checkTotalExposure_def checkDailyLoss_def checkOpenOrderCount_def
        checkMinSpread_def total_exposure_def total_pnl_def open_orders_def Let_def)
  with batch_exposure_not_accumulated [of ?rm "sample_limits\<lparr>rl_MaxOrdersPerSecond := 0\<rparr>" 5 6 sample_order 100]
  show ?thesis by (simp add: NewRiskManager_def sample_order_def sample_limits_def)
qed

text \<open>The reference printer: the decimal digits of a natural number, most significant first.\<close>

fun show_nat :: "nat \<Rightarrow> string" where
  "show_nat n = (if n < 10 then [char_of (48 + n)] else show_nat (n div 10) @ [char_of (48 + n mod 10)])"

declare show_nat.simps [simp del]

lemma itoa_digits_show: "0 < n \<Longrightarrow> rev (map (\<lambda>d. char_of (48 + d)) (itoa_digits n)) = show_nat n"
proof (induction n rule: itoa_digits.induct)
  case (1 n)
  show ?case
  proof (cases "n < 10")
    case True
    then have "n div 10 = 0" by simp
    with True "1.prems" show ?thesis
      by (simp add: itoa_digits.simps [of n] itoa_digits.simps [of 0] show_nat.simps [of n])
  next
    case False
    then have "0 < n div 10" by (simp add: div_greater_zero_iff)
    with False "1.IH" "1.prems" show ?thesis
      by (simp add: itoa_digits.simps [of n] show_nat.simps [of n])
  qed
qed

text \<open>\<open>itoa\<close> prints every 64-bit integer in decimal, except the smallest one, whose negation
  wraps: it prints a lone minus sign.\<close>

theorem itoa_correct:
  "itoa n =
     (if sint n = - (2 ^ 63) then ''-''
      else if sint n < 0 then CHR ''-'' # show_nat (nat (- sint n))
      else show_nat (nat (sint n)))"
proof (cases "n = 0")
  case True
  then show ?thesis by (simp add: itoa_def show_nat.simps [of 0]) code_simp
next
  case False
  have range: "- (2 ^ 63) \<le> sint n" "sint n < 2 ^ 63"
    using sint_greater_eq [of n] sint_less [of n] by simp_all
  have n0: "sint n \<noteq> 0" using False by (simp add: signed_eq_0_iff)
  consider "sint n = - (2 ^ 63)" | "- (2 ^ 63) < sint n" "sint n < 0" | "0 < sint n" using range n0 by linarith
  then show ?thesis
  proof cases
    case 1
    have "n = of_int (sint n)" by simp
    then have "n = of_int (- (2 ^ 63))" unfolding 1 .
    then have "sint (- n) = - (2 ^ 63)" by simp
    with 1 False show ?thesis by (simp add: itoa_def itoa_digits.simps [of 0])
  next
    case 2
    have "sint (- n) = - sint n"
      using 2 by (simp add: sint_word_ariths signed_take_bit_int_eq_self_iff)
    with 2 False itoa_digits_show [of "nat (- sint n)"] show ?thesis by (simp add: itoa_def)
  next
    case 3
    with False itoa_digits_show [of "nat (sint n)"] show ?thesis by (simp add: itoa_def)
  qed
qed

end
