(* ===== verification/ExtremeMarket.thy ===== *)
theory ExtremeMarket
  imports Models
begin

text \<open>
  The extreme market detector (\<open>src/internal/risk/extreme_market.go\<close>): per-symbol price and
  spread histories pruned to a time window, the two checks, and the callbacks they trigger. A
  missing map entry and an empty history are treated alike by the code, so a history map is a
  total function. Callbacks are handles; \<open>Detect\<close> returns the calls it makes. The two histories
  share the contract of a sliding window, the locale \<open>window_history\<close>.
\<close>

record priceEntry =
  pe_price :: decimal
  pe_timestamp :: time

record spreadEntry =
  se_spread :: decimal
  se_timestamp :: time

datatype emd_effect = CancelGridOrders nat | PauseMeanReversion nat | SendAlert nat string

record ExtremeMarketDetector =
  emd_priceHistory :: "string \<Rightarrow> priceEntry list"
  emd_spreadHistory :: "string \<Rightarrow> spreadEntry list"
  emd_priceChangeThreshold :: decimal
  emd_spreadMultiplier :: decimal
  emd_priceWindow :: duration
  emd_spreadWindow :: duration
  emd_callbacks :: "nat list"

definition NewExtremeMarketDetector :: ExtremeMarketDetector where
  "NewExtremeMarketDetector = \<lparr>emd_priceHistory = (\<lambda>_. []), emd_spreadHistory = (\<lambda>_. []),
     emd_priceChangeThreshold = 5 / 100, emd_spreadMultiplier = 3,
     emd_priceWindow = 60 * 1000000000, emd_spreadWindow = 5 * (60 * 1000000000), emd_callbacks = []\<rparr>"

definition RegisterCallback :: "nat \<Rightarrow> ExtremeMarketDetector \<Rightarrow> ExtremeMarketDetector" where
  "RegisterCallback cb emd = emd\<lparr>emd_callbacks := emd_callbacks emd @ [cb]\<rparr>"

definition pruneOldPrices :: "string \<Rightarrow> time \<Rightarrow> ExtremeMarketDetector \<Rightarrow> ExtremeMarketDetector" where
  "pruneOldPrices symbol now emd =
     (let cutoff = now - emd_priceWindow emd in
      emd\<lparr>emd_priceHistory := (emd_priceHistory emd)
        (symbol := dropWhile (\<lambda>e. pe_timestamp e < cutoff) (emd_priceHistory emd symbol))\<rparr>)"

definition pruneOldSpreads :: "string \<Rightarrow> time \<Rightarrow> ExtremeMarketDetector \<Rightarrow> ExtremeMarketDetector" where
  "pruneOldSpreads symbol now emd =
     (let cutoff = now - emd_spreadWindow emd in
      emd\<lparr>emd_spreadHistory := (emd_spreadHistory emd)
        (symbol := dropWhile (\<lambda>e. se_timestamp e < cutoff) (emd_spreadHistory emd symbol))\<rparr>)"

definition RecordPrice :: "string \<Rightarrow> decimal \<Rightarrow> time \<Rightarrow> ExtremeMarketDetector \<Rightarrow> ExtremeMarketDetector" where
  "RecordPrice symbol price timestamp emd =
     pruneOldPrices symbol timestamp
       (emd\<lparr>emd_priceHistory := (emd_priceHistory emd)
          (symbol := emd_priceHistory emd symbol @ [\<lparr>pe_price = price, pe_timestamp = timestamp\<rparr>])\<rparr>)"

definition RecordSpread :: "string \<Rightarrow> decimal \<Rightarrow> time \<Rightarrow> ExtremeMarketDetector \<Rightarrow> ExtremeMarketDetector" where
  "RecordSpread symbol spread timestamp emd =
     pruneOldSpreads symbol timestamp
       (emd\<lparr>emd_spreadHistory := (emd_spreadHistory emd)
          (symbol := emd_spreadHistory emd symbol @ [\<lparr>se_spread = spread, se_timestamp = timestamp\<rparr>])\<rparr>)"

definition CheckPriceChange :: "declib \<Rightarrow> ExtremeMarketDetector \<Rightarrow> string \<Rightarrow> decimal \<Rightarrow> bool" where
  "CheckPriceChange L emd symbol currentPrice =
     (case emd_priceHistory emd symbol of
        [] \<Rightarrow> False
      | oldest # _ \<Rightarrow>
          if pe_price oldest = 0 then False
          else
            let change = \<bar>currentPrice - pe_price oldest\<bar>;
                percentChange = dl_div L change (pe_price oldest)
            in percentChange > emd_priceChangeThreshold emd)"

definition CheckSpreadAnomaly :: "declib \<Rightarrow> ExtremeMarketDetector \<Rightarrow> string \<Rightarrow> decimal \<Rightarrow> bool" where
  "CheckSpreadAnomaly L emd symbol currentSpread =
     (let history = emd_spreadHistory emd symbol in
      if history = [] then False
      else
        let avgSpread = dl_div L (sum_list (map se_spread history)) (of_nat (length history)) in
        if avgSpread = 0 then False
        else currentSpread > avgSpread * emd_spreadMultiplier emd)"

definition detect_reason :: "string \<Rightarrow> bool \<Rightarrow> bool \<Rightarrow> string" where
  "detect_reason symbol priceTriggered spreadTriggered =
     ''extreme market detected for '' @ symbol @ '':'' @
     (if priceTriggered then '' price change >5% in 1min'' else []) @
     (if spreadTriggered then (if priceTriggered then '','' else []) @ '' spread >3x rolling average'' else [])"

definition Detect ::
  "declib \<Rightarrow> ExtremeMarketDetector \<Rightarrow> string \<Rightarrow> decimal \<Rightarrow> decimal \<Rightarrow> bool \<times> emd_effect list" where
  "Detect L emd symbol currentPrice currentSpread =
     (let priceTriggered = CheckPriceChange L emd symbol currentPrice;
          spreadTriggered = CheckSpreadAnomaly L emd symbol currentSpread
      in if \<not> priceTriggered \<and> \<not> spreadTriggered then (False, [])
         else
           let reason = detect_reason symbol priceTriggered spreadTriggered
           in (True, concat (map (\<lambda>cb. [CancelGridOrders cb, PauseMeanReversion cb, SendAlert cb reason])
                (emd_callbacks emd))))"

definition GetPriceChangeThreshold :: "ExtremeMarketDetector \<Rightarrow> decimal" where
  "GetPriceChangeThreshold emd = emd_priceChangeThreshold emd"

definition GetSpreadMultiplier :: "ExtremeMarketDetector \<Rightarrow> decimal" where
  "GetSpreadMultiplier emd = emd_spreadMultiplier emd"

section \<open>The contract of a sliding window\<close>

text \<open>
  A provider keeps, inside a state \<open>'s\<close>, the history \<open>hist s\<close> of the entries recorded so far;
  \<open>add e s\<close> appends the entry and drops the leading ones that are older than \<open>width\<close>.
\<close>

locale window_history =
  fixes stamp :: "'e \<Rightarrow> time"
    and width :: "'s \<Rightarrow> duration"
    and hist :: "'s \<Rightarrow> 'e list"
    and add :: "'e \<Rightarrow> 's \<Rightarrow> 's"
  assumes hist_add: "hist (add e s) = dropWhile (\<lambda>x. stamp x < stamp e - width s) (hist s @ [e])"
    and width_add: "width (add e s) = width s"
begin

lemma dropWhile_sorted:
  "sorted (map stamp es) \<Longrightarrow> dropWhile (\<lambda>x. stamp x < c) es = filter (\<lambda>x. c \<le> stamp x) es"
proof (induction es)
  case (Cons e es)
  then have tl: "sorted (map stamp es)" and ge: "\<forall>x \<in> set es. stamp e \<le> stamp x" by auto
  show ?case
  proof (cases "stamp e < c")
    case True
    with Cons.IH [OF tl] show ?thesis by simp
  next
    case False
    with ge have "filter (\<lambda>x. c \<le> stamp x) es = es" by (intro filter_True) auto
    with False show ?thesis by simp
  qed
qed simp

text \<open>With entries in time order the window is exactly the recent entries.\<close>

lemma window_exact:
  assumes "sorted (map stamp (hist s @ es))" and "es \<noteq> []" and "0 \<le> width s"
  shows "hist (fold add es s) = filter (\<lambda>x. stamp (last es) - width s \<le> stamp x) (hist s @ es)"
  using assms
proof (induction es arbitrary: s)
  case Nil
  then show ?case by simp
next
  case (Cons e es)
  have se: "sorted (map stamp (hist s @ [e]))" using Cons.prems(1) by (auto simp: sorted_append)
  have h: "hist (add e s) = filter (\<lambda>x. stamp e - width s \<le> stamp x) (hist s @ [e])"
    unfolding hist_add by (rule dropWhile_sorted [OF se])
  show ?case
  proof (cases "es = []")
    case True
    with h show ?thesis by simp
  next
    case False
    have "sorted (map stamp (hist (add e s) @ es))"
      using Cons.prems(1) unfolding h
      by (auto simp: sorted_append sorted_filter)
    then have "hist (fold add es (add e s)) =
        filter (\<lambda>x. stamp (last es) - width s \<le> stamp x) (hist (add e s) @ es)"
      using Cons.IH [of "add e s"] False Cons.prems(3) by (simp add: width_add)
    moreover have "stamp e \<le> stamp (last es)"
      using Cons.prems(1) False by (auto simp: sorted_append)
    then have "filter (\<lambda>x. stamp (last es) - width s \<le> stamp x) (hist (add e s)) =
        filter (\<lambda>x. stamp (last es) - width s \<le> stamp x) (hist s @ [e])"
      unfolding h filter_filter by (intro filter_cong) auto
    ultimately show ?thesis using False by simp
  qed
qed

end

text \<open>Both histories of the detector provide it, for every symbol.\<close>

definition add_price :: "string \<Rightarrow> priceEntry \<Rightarrow> ExtremeMarketDetector \<Rightarrow> ExtremeMarketDetector" where
  "add_price symbol e = RecordPrice symbol (pe_price e) (pe_timestamp e)"

definition add_spread :: "string \<Rightarrow> spreadEntry \<Rightarrow> ExtremeMarketDetector \<Rightarrow> ExtremeMarketDetector" where
  "add_spread symbol e = RecordSpread symbol (se_spread e) (se_timestamp e)"

lemma price_entry_eta: "\<lparr>pe_price = pe_price e, pe_timestamp = pe_timestamp e\<rparr> = e"
  by (cases e) simp

lemma spread_entry_eta: "\<lparr>se_spread = se_spread e, se_timestamp = se_timestamp e\<rparr> = e"
  by (cases e) simp

interpretation price_window: window_history pe_timestamp emd_priceWindow
    "\<lambda>emd. emd_priceHistory emd symbol" "add_price symbol" for symbol
  by unfold_locales (simp_all add: add_price_def RecordPrice_def pruneOldPrices_def price_entry_eta)

interpretation spread_window: window_history se_timestamp emd_spreadWindow
    "\<lambda>emd. emd_spreadHistory emd symbol" "add_spread symbol" for symbol
  by unfold_locales (simp_all add: add_spread_def RecordSpread_def pruneOldSpreads_def spread_entry_eta)

lemma rounded_quotient_threshold:
  assumes "declib_ok L" and "b \<noteq> 0"
  shows "a / b \<le> of_int m / 10 ^ 16 \<Longrightarrow> dl_div L a b \<le> of_int m / 10 ^ 16"
    and "of_int m / 10 ^ 16 + 1 / 10 ^ 16 \<le> a / b \<Longrightarrow> of_int m / 10 ^ 16 < dl_div L a b"
proof -
  note d = declib_div [OF assms, of a]
  show "a / b \<le> of_int m / 10 ^ 16 \<Longrightarrow> dl_div L a b \<le> of_int m / 10 ^ 16"
    by (rule near_multiple_le_grid [OF d])
  assume "of_int m / 10 ^ 16 + 1 / 10 ^ 16 \<le> a / b"
  then show "of_int m / 10 ^ 16 < dl_div L a b"
    using near_multiple_bounds(1) [OF d] by simp
qed

section \<open>Properties\<close>

text \<open>Prices recorded in time order leave exactly the prices of the last window in the
  symbol's history, in order, so its first entry is the oldest price of the window.\<close>

theorem price_window_exact:
  assumes "sorted (map pe_timestamp es)" and "es \<noteq> []" and "emd_priceHistory emd symbol = []"
    and "0 \<le> emd_priceWindow emd"
  shows "emd_priceHistory (fold (add_price symbol) es emd) symbol =
    filter (\<lambda>e. pe_timestamp (last es) - emd_priceWindow emd \<le> pe_timestamp e) es"
  using price_window.window_exact [of emd symbol es] assms by simp

theorem price_window_exact_witness:
  "emd_priceHistory (fold (add_price ''X'') [\<lparr>pe_price = 1, pe_timestamp = 0\<rparr>,
      \<lparr>pe_price = 2, pe_timestamp = 50000000000\<rparr>, \<lparr>pe_price = 3, pe_timestamp = 70000000000\<rparr>]
      NewExtremeMarketDetector) ''X'' =
    [\<lparr>pe_price = 2, pe_timestamp = 50000000000\<rparr>, \<lparr>pe_price = 3, pe_timestamp = 70000000000\<rparr>]"
  using price_window_exact [of "[\<lparr>pe_price = 1, pe_timestamp = 0\<rparr>, \<lparr>pe_price = 2, pe_timestamp = 50000000000\<rparr>,
      \<lparr>pe_price = 3, pe_timestamp = 70000000000\<rparr>]" NewExtremeMarketDetector "''X''"]
  by (simp add: NewExtremeMarketDetector_def)

text \<open>With the default thresholds, a price that moved by at most five percent of the oldest
  price in the window never triggers the detector's price check, and one that moved by at least
  five percent and one unit of the sixteenth decimal always does, in either direction: the
  rounding of the quotient cannot hide or invent a trigger beyond that unit.\<close>

theorem CheckPriceChange_threshold:
  assumes "declib_ok L" and "emd_priceHistory emd symbol = oldest # rest" and "0 < pe_price oldest"
    and "emd_priceChangeThreshold emd = 5 / 100"
  shows "(\<bar>p - pe_price oldest\<bar> / pe_price oldest \<le> 5 / 100 \<longrightarrow> \<not> CheckPriceChange L emd symbol p) \<and>
    (5 / 100 + 1 / 10 ^ 16 \<le> \<bar>p - pe_price oldest\<bar> / pe_price oldest \<longrightarrow> CheckPriceChange L emd symbol p)"
proof -
  have g: "(5 / 100 :: rat) = of_int (5 * 10 ^ 14) / 10 ^ 16" by simp
  show ?thesis
    using assms(2-4) rounded_quotient_threshold [OF assms(1), where b = "pe_price oldest" and a = "\<bar>p - pe_price oldest\<bar>" and m = "5 * 10 ^ 14"]
    by (auto simp: CheckPriceChange_def Let_def)
qed

theorem CheckPriceChange_threshold_witness:
  "CheckPriceChange std_declib (RecordPrice ''X'' 100 0 NewExtremeMarketDetector) ''X'' 94 \<and>
   \<not> CheckPriceChange std_declib (RecordPrice ''X'' 100 0 NewExtremeMarketDetector) ''X'' 105"
proof -
  let ?emd = "RecordPrice ''X'' 100 0 NewExtremeMarketDetector"
  have h: "emd_priceHistory ?emd ''X'' = [\<lparr>pe_price = 100, pe_timestamp = 0\<rparr>]"
    "emd_priceChangeThreshold ?emd = 5 / 100"
    by (simp_all add: RecordPrice_def pruneOldPrices_def NewExtremeMarketDetector_def Let_def)
  from CheckPriceChange_threshold [OF std_declib_ok h(1) _ h(2), of 94]
    CheckPriceChange_threshold [OF std_declib_ok h(1) _ h(2), of 105]
  show ?thesis by simp
qed

end
