(* ===== verification/FillIdentity.thy ===== *)
theory FillIdentity
  imports Models
begin

text \<open>
  The functions of \<open>src/pkg/models/recovery.go\<close>: the cumulative-quantity delta that makes
  fill processing idempotent, the canonical encoding whose digest identifies a fill, an
  intent and a client order, and the validation of an observation. \<open>sha\<close> stands for the
  lower-case hexadecimal SHA-256 digest of a byte string, \<open>dstr\<close> for \<open>decimal.String\<close>.
\<close>

section \<open>Strings of the standard library\<close>

definition is_space :: "char \<Rightarrow> bool" where
  "is_space c \<longleftrightarrow> c \<in> {CHR 0x09, CHR 0x0A, CHR 0x0B, CHR 0x0C, CHR 0x0D, CHR '' ''}"

definition TrimSpace :: "string \<Rightarrow> string" where
  "TrimSpace s = rev (dropWhile is_space (rev (dropWhile is_space s)))"

definition char_upper :: "char \<Rightarrow> char" where
  "char_upper c = (let n = (of_char c :: nat) in if 97 \<le> n \<and> n \<le> 122 then char_of (n - 32) else c)"

definition ToUpper :: "string \<Rightarrow> string" where
  "ToUpper s = map char_upper s"

definition digit_char :: "nat \<Rightarrow> char" where
  "digit_char d = char_of (48 + d)"

text \<open>\<open>strconv.Itoa\<close> on a length.\<close>

fun Itoa :: "nat \<Rightarrow> string" where
  "Itoa n = (if n < 10 then [digit_char n] else Itoa (n div 10) @ [digit_char (n mod 10)])"

declare Itoa.simps [simp del]

fun Atoi_from :: "nat \<Rightarrow> string \<Rightarrow> nat" where
  "Atoi_from acc [] = acc"
| "Atoi_from acc (c # cs) = Atoi_from (10 * acc + (of_char c - 48)) cs"

lemma Atoi_from_append: "Atoi_from acc (xs @ ys) = Atoi_from (Atoi_from acc xs) ys"
  by (induction xs arbitrary: acc) auto

lemma of_digit_char: "d < 10 \<Longrightarrow> (of_char (digit_char d) :: nat) = 48 + d"
  by (simp add: digit_char_def)

lemma Atoi_Itoa: "Atoi_from 0 (Itoa n) = n"
proof (induction n rule: Itoa.induct)
  case (1 n)
  then show ?case by (simp add: Itoa.simps [of n] Atoi_from_append of_digit_char)
qed

lemma Itoa_inj: "Itoa m = Itoa n \<longleftrightarrow> m = n"
  by (metis Atoi_Itoa)

lemma colon_not_digit: "d < 10 \<Longrightarrow> digit_char d \<noteq> CHR '':''"
  using of_digit_char [of d] by (auto dest!: arg_cong [of _ _ "of_char :: char \<Rightarrow> nat"])

lemma Itoa_no_colon: "c \<in> set (Itoa n) \<Longrightarrow> c \<noteq> CHR '':''"
proof (induction n rule: Itoa.induct)
  case (1 n)
  then show ?case
    by (auto simp: Itoa.simps [of n] colon_not_digit colon_not_digit [THEN not_sym] split: if_splits)
qed

lemma Itoa_nonempty [simp]: "Itoa n \<noteq> []"
  by (subst Itoa.simps) simp

section \<open>The canonical encoding\<close>

fun canonicalFields :: "string list \<Rightarrow> string" where
  "canonicalFields [] = []"
| "canonicalFields (f # fs) = Itoa (length f) @ CHR '':'' # f @ canonicalFields fs"

lemma split_at_colon:
  assumes "CHR '':'' \<notin> set a" and "CHR '':'' \<notin> set b"
    and "a @ CHR '':'' # x = b @ CHR '':'' # y"
  shows "a = b \<and> x = y"
  using assms
proof (induction a arbitrary: b)
  case Nil
  then show ?case by (cases b) auto
next
  case (Cons c a)
  then show ?case by (cases b) auto
qed

text \<open>The length prefixes make the encoding of a list of fields unambiguous.\<close>

lemma canonicalFields_eq_iff: "canonicalFields fs = canonicalFields gs \<longleftrightarrow> fs = gs"
proof (induction fs arbitrary: gs)
  case Nil
  then show ?case by (cases gs) auto
next
  case (Cons f fs)
  show ?case
  proof (cases gs)
    case Nil
    then show ?thesis by simp
  next
    case gs: (Cons g gs')
    have "f # fs = g # gs'" if eq: "canonicalFields (f # fs) = canonicalFields (g # gs')"
    proof -
      from eq have "Itoa (length f) = Itoa (length g)"
        and rest: "f @ canonicalFields fs = g @ canonicalFields gs'"
        using split_at_colon [of "Itoa (length f)" "Itoa (length g)"] Itoa_no_colon by auto
      then have "length f = length g" by (simp add: Itoa_inj)
      with rest Cons.IH [of gs'] show ?thesis by simp
    qed
    with gs show ?thesis by blast
  qed
qed

section \<open>Keys and identifiers\<close>

datatype recovery_error =
    ErrInvalidFillIdentity
  | ErrInvalidCumulative
  | ErrInvalidCounterIntentIdentity
  | ErrInvalidClientOrderIdentity
  | ErrInvalidFillSide Side
  | ErrFillPriceNotPositive
  | ErrObservedAtRequired
  | ErrFillSourceRequired

definition fill_preimage :: "(decimal \<Rightarrow> string) \<Rightarrow> string \<Rightarrow> string \<Rightarrow> string \<Rightarrow> decimal \<Rightarrow> string" where
  "fill_preimage dstr symbol exchangeOrderID exchangeFillID cumulative =
     canonicalFields [''unique-fill-v1'', ToUpper (TrimSpace symbol), TrimSpace exchangeOrderID,
       TrimSpace exchangeFillID, dstr cumulative]"

definition UniqueFillKey ::
  "(string \<Rightarrow> string) \<Rightarrow> (decimal \<Rightarrow> string) \<Rightarrow> string \<Rightarrow> string \<Rightarrow> string \<Rightarrow> decimal \<Rightarrow>
    recovery_error + string" where
  "UniqueFillKey sha dstr symbol exchangeOrderID exchangeFillID cumulative =
     (if ToUpper (TrimSpace symbol) = [] \<or> TrimSpace exchangeOrderID = [] \<or>
         TrimSpace exchangeFillID = [] \<or> \<not> (0 < cumulative)
      then Inl ErrInvalidFillIdentity
      else Inr (''uf1_'' @ sha (fill_preimage dstr symbol exchangeOrderID exchangeFillID cumulative)))"

definition CanonicalUniqueFillKey ::
  "(string \<Rightarrow> string) \<Rightarrow> (decimal \<Rightarrow> string) \<Rightarrow> FillObservation \<Rightarrow> recovery_error + string" where
  "CanonicalUniqueFillKey sha dstr obs =
     UniqueFillKey sha dstr (fo_Symbol obs) (fo_ExchangeOrderID obs) (fo_ExchangeFillID obs)
       (fo_CumulativeQuantity obs)"

definition CounterIntentID ::
  "(string \<Rightarrow> string) \<Rightarrow> string \<Rightarrow> string \<Rightarrow> string \<Rightarrow> recovery_error + string" where
  "CounterIntentID sha fillKey symbol purpose =
     (if TrimSpace fillKey = [] \<or> TrimSpace symbol = [] \<or> TrimSpace purpose = []
      then Inl ErrInvalidCounterIntentIdentity
      else Inr (''ci1_'' @ sha (canonicalFields
             [''counter-intent-v1'', fillKey, ToUpper (TrimSpace symbol), purpose])))"

definition DeterministicClientOrderID ::
  "(string \<Rightarrow> string) \<Rightarrow> string \<Rightarrow> string \<Rightarrow> string \<Rightarrow> recovery_error + string" where
  "DeterministicClientOrderID sha intentID symbol purpose =
     (if TrimSpace intentID = [] \<or> TrimSpace symbol = [] \<or> TrimSpace purpose = []
      then Inl ErrInvalidClientOrderIdentity
      else Inr (''tb1'' @ take 29 (sha (canonicalFields
             [''client-order-v1'', intentID, ToUpper (TrimSpace symbol), purpose]))))"

definition ValidateFillObservation ::
  "(string \<Rightarrow> string) \<Rightarrow> (decimal \<Rightarrow> string) \<Rightarrow> FillObservation \<Rightarrow> recovery_error option" where
  "ValidateFillObservation sha dstr obs =
     (case CanonicalUniqueFillKey sha dstr obs of
        Inl e \<Rightarrow> Some e
      | Inr _ \<Rightarrow>
          if fo_Side obs \<noteq> SideBuy \<and> fo_Side obs \<noteq> SideSell then Some (ErrInvalidFillSide (fo_Side obs))
          else if \<not> (0 < fo_FillPrice obs) then Some ErrFillPriceNotPositive
          else if fo_ObservedAt obs = zero_time then Some ErrObservedAtRequired
          else (case fo_Source obs of
              FillSourcePrivateWS \<Rightarrow> None | FillSourceReconciliation \<Rightarrow> None
            | FillSourceReplay \<Rightarrow> None | FillSourceOther _ \<Rightarrow> Some ErrFillSourceRequired))"

text \<open>What SHA-256 in hexadecimal promises: 64 characters, each a hexadecimal digit.\<close>

definition hex_digest :: "(string \<Rightarrow> string) \<Rightarrow> bool" where
  "hex_digest sha \<longleftrightarrow> (\<forall>s. length (sha s) = 64 \<and> set (sha s) \<subseteq> set ''0123456789abcdef'')"

definition alnum :: "char \<Rightarrow> bool" where
  "alnum c \<longleftrightarrow> c \<in> set ''0123456789abcdefghijklmnopqrstuvwxyzABCDEFGHIJKLMNOPQRSTUVWXYZ''"

section \<open>The cumulative delta\<close>

definition CumulativeDelta :: "decimal \<Rightarrow> decimal \<Rightarrow> recovery_error + decimal \<times> bool" where
  "CumulativeDelta previous observed =
     (if previous < 0 \<or> \<not> (0 < observed) then Inl ErrInvalidCumulative
      else if observed \<le> previous then Inr (0, False)
      else Inr (observed - previous, True))"

text \<open>
  The watermark protocol of its callers: an observation that is new moves the watermark
  to the observed value, any other leaves it; the deltas are accumulated.
\<close>

fun apply_observations :: "decimal \<Rightarrow> decimal \<Rightarrow> decimal list \<Rightarrow> decimal \<times> decimal" where
  "apply_observations wm acc [] = (wm, acc)"
| "apply_observations wm acc (q # qs) =
     (case CumulativeDelta wm q of
        Inr (d, True) \<Rightarrow> apply_observations q (acc + d) qs
      | _ \<Rightarrow> apply_observations wm acc qs)"

lemma apply_observations_eq:
  assumes "0 \<le> wm"
  shows "apply_observations wm acc qs = (foldr max qs wm, acc + (foldr max qs wm - wm))"
  using assms
proof (induction qs arbitrary: wm acc)
  case Nil
  then show ?case by simp
next
  case (Cons q qs)
  have fm: "foldr max qs (max q w) = max q (foldr max qs w)" for w :: decimal
    by (induction qs) (auto simp: max.left_commute)
  show ?case
  proof (cases "wm < q")
    case True
    then have "max q wm = q" by simp
    with fm [of wm] have "foldr max qs q = max q (foldr max qs wm)" by simp
    moreover from True Cons.prems have "CumulativeDelta wm q = Inr (q - wm, True)"
      by (simp add: CumulativeDelta_def)
    ultimately show ?thesis
      using True Cons.prems Cons.IH [of q "acc + (q - wm)"] by simp
  next
    case False
    then have "max q wm = wm" by simp
    with fm [of wm] have "foldr max qs wm = max q (foldr max qs wm)" by simp
    moreover from False Cons.prems have "CumulativeDelta wm q = Inr (0, False) \<or>
        CumulativeDelta wm q = Inl ErrInvalidCumulative"
      by (simp add: CumulativeDelta_def)
    ultimately show ?thesis using Cons.prems Cons.IH [of wm acc] by auto
  qed
qed

lemma CumulativeDelta_new:
  "CumulativeDelta p q = Inr (d, True) \<longleftrightarrow> 0 \<le> p \<and> p < q \<and> d = q - p"
  by (auto simp: CumulativeDelta_def)

lemma CumulativeDelta_old:
  "CumulativeDelta p q = Inr (d, False) \<longleftrightarrow> 0 \<le> p \<and> 0 < q \<and> q \<le> p \<and> d = 0"
  by (auto simp: CumulativeDelta_def)

section \<open>Properties\<close>

text \<open>Two observations that get the same fill key have the same normalised symbol, exchange
  order id and fill id and the same printed cumulative quantity, unless the two different byte
  strings that were hashed collide under SHA-256: the length-prefixed encoding adds no ambiguity
  of its own.\<close>

theorem UniqueFillKey_identifies:
  assumes "UniqueFillKey sha dstr s1 o1 f1 c1 = Inr k" and "UniqueFillKey sha dstr s2 o2 f2 c2 = Inr k"
  shows "(ToUpper (TrimSpace s1) = ToUpper (TrimSpace s2) \<and> TrimSpace o1 = TrimSpace o2 \<and>
      TrimSpace f1 = TrimSpace f2 \<and> dstr c1 = dstr c2) \<or>
    (fill_preimage dstr s1 o1 f1 c1 \<noteq> fill_preimage dstr s2 o2 f2 c2 \<and>
      sha (fill_preimage dstr s1 o1 f1 c1) = sha (fill_preimage dstr s2 o2 f2 c2))"
proof -
  have "sha (fill_preimage dstr s1 o1 f1 c1) = sha (fill_preimage dstr s2 o2 f2 c2)"
    using assms by (auto simp: UniqueFillKey_def split: if_splits)
  moreover have "fill_preimage dstr s1 o1 f1 c1 = fill_preimage dstr s2 o2 f2 c2 \<longleftrightarrow>
      ToUpper (TrimSpace s1) = ToUpper (TrimSpace s2) \<and> TrimSpace o1 = TrimSpace o2 \<and>
      TrimSpace f1 = TrimSpace f2 \<and> dstr c1 = dstr c2"
    unfolding fill_preimage_def canonicalFields_eq_iff by simp
  ultimately show ?thesis by blast
qed

text \<open>The identity is a hash without collisions, the printed quantity a constant.\<close>

theorem UniqueFillKey_identifies_witness:
  "TrimSpace ''17 '' = TrimSpace '' 17'' \<and>
    UniqueFillKey id (\<lambda>_. ''1'') ''btc'' ''17 '' ''3'' 1 = UniqueFillKey id (\<lambda>_. ''1'') ''BTC'' '' 17'' ''3'' 1"
proof -
  let ?k = "''uf1_'' @ id (fill_preimage (\<lambda>_. ''1'') ''BTC'' '' 17'' ''3'' 1)"
  have a: "UniqueFillKey id (\<lambda>_. ''1'') ''btc'' ''17 '' ''3'' 1 = Inr ?k" by code_simp
  have b: "UniqueFillKey id (\<lambda>_. ''1'') ''BTC'' '' 17'' ''3'' 1 = Inr ?k" by code_simp
  show ?thesis using UniqueFillKey_identifies [OF a b] a b by auto
qed

text \<open>Whatever order and multiplicity cumulative observations arrive in (duplicates, late and
  invalid ones included), the deltas that the watermark protocol hands out add up to exactly the
  distance from the first watermark to the largest observation, and the watermark ends there:
  no quantity is counted twice and none is lost.\<close>

theorem deltas_sum_to_maximum:
  assumes "0 \<le> wm"
  shows "apply_observations wm 0 qs = (Max (insert wm (set qs)), Max (insert wm (set qs)) - wm)"
proof -
  have "foldr max qs wm = Max (insert wm (set qs))"
    by (induction qs) (simp_all add: insert_commute [of wm])
  with apply_observations_eq [OF assms, of 0 qs] show ?thesis by simp
qed

theorem deltas_sum_to_maximum_witness:
  "apply_observations 1 0 [3, 2, 3, -1, 5] = (5, 4)"
proof -
  have "(0::decimal) \<le> 1" by simp
  from deltas_sum_to_maximum [OF this, of "[3, 2, 3, -1, 5]"] show ?thesis by simp
qed

text \<open>The client order id of an intent is a fixed function of it (every retry sends the same
  id), has exactly 32 characters, all of them letters or digits, as the exchange requires, and
  is refused exactly when one of its inputs is blank.\<close>

theorem client_order_id_format:
  assumes "hex_digest sha"
  shows "case DeterministicClientOrderID sha intentID symbol purpose of
      Inl e \<Rightarrow> e = ErrInvalidClientOrderIdentity \<and>
        (TrimSpace intentID = [] \<or> TrimSpace symbol = [] \<or> TrimSpace purpose = [])
    | Inr cid \<Rightarrow> length cid = 32 \<and> list_all alnum cid \<and> take 3 cid = ''tb1'' \<and>
        TrimSpace intentID \<noteq> [] \<and> TrimSpace symbol \<noteq> [] \<and> TrimSpace purpose \<noteq> []"
proof -
  have sub: "set ''0123456789abcdef'' \<subseteq> {c. alnum c}" by (auto simp: alnum_def)
  have "length (sha x) = 64" "list_all alnum (take 29 (sha x))" for x
    using assms sub set_take_subset [of 29 "sha x"] unfolding hex_digest_def list_all_iff by blast+
  moreover have "list_all alnum ''tb1''" by (simp add: alnum_def)
  ultimately show ?thesis
    by (simp add: DeterministicClientOrderID_def)
qed

theorem client_order_id_format_witness:
  "\<exists>cid. DeterministicClientOrderID (\<lambda>_. replicate 64 (CHR ''a'')) ''ci1_x'' ''BTC'' ''counter'' = Inr cid \<and>
     length cid = 32"
proof -
  have "hex_digest (\<lambda>_. replicate 64 (CHR ''a''))" by (simp add: hex_digest_def)
  from client_order_id_format [OF this, of "''ci1_x''" "''BTC''" "''counter''"] show ?thesis
    by (simp add: DeterministicClientOrderID_def TrimSpace_def is_space_def)
qed

end
