(* ===== verification/DurableStore.thy ===== *)
theory DurableStore
  imports FillIdentity
begin

text \<open>
  The durable fill path (\<open>src/internal/persistence/fill_ledger.go\<close>, the transaction wrapper of
  \<open>transaction.go\<close> and the tables of \<open>durable_schema.go\<close>). A table is an association list from
  its primary key to its row; the other \<open>UNIQUE\<close> constraints are checked where a row is inserted.
  Decimals are stored as text that parses back to the same value, so a row holds the value.

  SQLite is not part of the sources. What can go wrong in it is a parameter: \<open>io op\<close> says whether
  the statement that the code labels \<open>op\<close> succeeds, and the outcome of the commit is one of
  \<open>CommitOk\<close>, \<open>CommitLost\<close> and \<open>CommitApplied\<close> (an error is reported, the changes are or are not
  there). \<open>sha\<close> and \<open>dstr\<close> are the digest and \<open>decimal.String\<close>.
\<close>

section \<open>Tables\<close>

record DurableDB =
  db_fill_ledger :: "(string, FillLedgerRecord) gomap"
  db_watermarks :: "(string \<times> string, OrderFillWatermark) gomap"
  db_grid_state :: "(string, GridStateRecord) gomap"
  db_intents :: "(string, CounterOrderIntent) gomap"
  db_outbox :: "(string, OutboxRecord) gomap"
  db_recon :: "(string \<times> string, ReconciliationWatermark) gomap"

definition empty_db :: DurableDB where
  "empty_db = \<lparr>db_fill_ledger = [], db_watermarks = [], db_grid_state = [], db_intents = [], db_outbox = [],
     db_recon = []\<rparr>"

datatype persist_error =
    InvariantViolation recovery_error
  | WriteFailure string
  | CriticalCommitUncertain string
  | StoreClosed
  | ErrNoOutboxWork
  | WorkerIDRequired

definition IsSharedPersistenceFailure :: "persist_error \<Rightarrow> bool" where
  "IsSharedPersistenceFailure e =
     (case e of WriteFailure _ \<Rightarrow> True | CriticalCommitUncertain _ \<Rightarrow> True | _ \<Rightarrow> False)"

definition IsCriticalCommitUncertain :: "persist_error \<Rightarrow> bool" where
  "IsCriticalCommitUncertain e = (case e of CriticalCommitUncertain _ \<Rightarrow> True | _ \<Rightarrow> False)"

definition ledger_conflict :: "DurableDB \<Rightarrow> FillLedgerRecord \<Rightarrow> bool" where
  "ledger_conflict db row \<longleftrightarrow>
     map_of (db_fill_ledger db) (fl_FillKey row) \<noteq> None \<or>
     list_ex (\<lambda>(_, r). fl_Symbol r = fl_Symbol row \<and> fl_ExchangeOrderID r = fl_ExchangeOrderID row \<and>
        fl_ExchangeFillID r = fl_ExchangeFillID row \<and>
        fl_CumulativeQuantity r = fl_CumulativeQuantity row) (db_fill_ledger db)"

definition intent_conflict :: "DurableDB \<Rightarrow> CounterOrderIntent \<Rightarrow> bool" where
  "intent_conflict db row \<longleftrightarrow>
     map_of (db_intents db) (ci_IntentID row) \<noteq> None \<or>
     list_ex (\<lambda>(_, r). ci_FillKey r = ci_FillKey row \<or>
        ci_DeterministicClientOrderID r = ci_DeterministicClientOrderID row) (db_intents db)"

definition outbox_conflict :: "DurableDB \<Rightarrow> OutboxRecord \<Rightarrow> bool" where
  "outbox_conflict db row \<longleftrightarrow>
     map_of (db_outbox db) (ob_OutboxID row) \<noteq> None \<or>
     list_ex (\<lambda>(_, r). ob_IntentID r = ob_IntentID row) (db_outbox db)"

section \<open>Grid state\<close>

text \<open>The position part: division happens only for a positive position.\<close>

definition grid_position_update ::
  "declib \<Rightarrow> FillObservation \<Rightarrow> decimal \<Rightarrow> GridStateRecord \<Rightarrow> GridStateRecord" where
  "grid_position_update L obs delta gs =
     (case fo_Side obs of
        SideBuy \<Rightarrow>
          let cost = gs_Position gs * gs_AvgEntryPrice gs + delta * fo_FillPrice obs;
              position = gs_Position gs + delta
          in gs\<lparr>gs_Position := position,
                gs_AvgEntryPrice := (if 0 < position then dl_div L cost position else gs_AvgEntryPrice gs),
                gs_TotalBuys := gs_TotalBuys gs + 1\<rparr>
      | SideSell \<Rightarrow>
          let realized = (if 0 < gs_Position gs \<and> 0 < gs_AvgEntryPrice gs
                then gs_RealizedPnL gs + (delta * (fo_FillPrice obs - gs_AvgEntryPrice gs) - fo_Fee obs)
                else gs_RealizedPnL gs);
              position = gs_Position gs - delta
          in gs\<lparr>gs_RealizedPnL := realized,
                gs_Position := (if position < 0 then 0 else position),
                gs_TotalSells := gs_TotalSells gs + 1\<rparr>
      | SideOther _ \<Rightarrow> gs)"

definition applyGridStateDelta ::
  "declib \<Rightarrow> (string \<Rightarrow> bool) \<Rightarrow> FillObservation \<Rightarrow> decimal \<Rightarrow> time \<Rightarrow> DurableDB \<Rightarrow>
    persist_error + DurableDB \<times> GridStateRecord" where
  "applyGridStateDelta L io obs delta now db =
     (if \<not> io ''read-grid-state'' then Inl (WriteFailure ''read-grid-state'')
      else
        let current = (case map_of (db_grid_state db) (fo_Symbol obs) of
              Some gs \<Rightarrow> gs
            | None \<Rightarrow> \<lparr>gs_Symbol = fo_Symbol obs, gs_StrategyID = [], gs_Position = 0, gs_AvgEntryPrice = 0,
                gs_RealizedPnL = 0, gs_TotalBuys = 0, gs_TotalSells = 0, gs_UpdatedAt = 0\<rparr>);
            updated = grid_position_update L obs delta current;
            sid = (if fo_StrategyID obs = [] then gs_StrategyID current else fo_StrategyID obs);
            row = updated\<lparr>gs_Symbol := fo_Symbol obs, gs_StrategyID := sid, gs_UpdatedAt := now\<rparr>
        in if \<not> io ''update-grid-state'' then Inl (WriteFailure ''update-grid-state'')
           else Inr (db\<lparr>db_grid_state := AList.update (fo_Symbol obs) row (db_grid_state db)\<rparr>, row))"

section \<open>Counter intent and outbox\<close>

text \<open>The rows differ from the returned structs in the columns left to their default \<open>0\<close>.\<close>

definition createCounterIntent ::
  "(string \<Rightarrow> string) \<Rightarrow> (string \<Rightarrow> bool) \<Rightarrow> string \<Rightarrow> FillObservation \<Rightarrow> CounterOrderPlan \<Rightarrow>
    decimal \<Rightarrow> time \<Rightarrow> DurableDB \<Rightarrow> persist_error + DurableDB \<times> CounterOrderIntent \<times> OutboxRecord" where
  "createCounterIntent sha io fillKey obs plan delta now db =
     (case CounterIntentID sha fillKey (fo_Symbol obs) (cp_Purpose plan) of
        Inl e \<Rightarrow> Inl (InvariantViolation e)
      | Inr intentID \<Rightarrow>
          (case DeterministicClientOrderID sha intentID (fo_Symbol obs) (cp_Purpose plan) of
             Inl e \<Rightarrow> Inl (InvariantViolation e)
           | Inr clOrdID \<Rightarrow>
               let intent = \<lparr>ci_IntentID = intentID, ci_FillKey = fillKey, ci_Symbol = fo_Symbol obs,
                     ci_Side = SideSell, ci_Price = cp_Price plan, ci_Quantity = delta,
                     ci_Purpose = cp_Purpose plan, ci_DeterministicClientOrderID = clOrdID,
                     ci_ObservedAt = fo_ObservedAt obs,
                     ci_InitiationDeadline = fo_ObservedAt obs + CounterOrderInitiationSLO,
                     ci_TerminalDeadline = fo_ObservedAt obs + CounterOrderTerminalSLO,
                     ci_InitiatedAt = zero_time, ci_TerminalAt = zero_time,
                     ci_Status = IntentPending, ci_Attempts = 0, ci_ExchangeOrderID = [],
                     ci_FinalErrorClass = FailureNone, ci_FinalSCode = [], ci_FinalSMsg = []\<rparr>
               in if \<not> io ''insert-counter-intent'' \<or> intent_conflict db intent
                  then Inl (WriteFailure ''insert-counter-intent'')
                  else
                    let db1 = db\<lparr>db_intents := AList.update intentID
                          (intent\<lparr>ci_InitiatedAt := 0, ci_TerminalAt := 0\<rparr>) (db_intents db)\<rparr>;
                        outboxID = ''ob_'' @ drop 4 intentID;
                        outbox = \<lparr>ob_OutboxID = outboxID, ob_IntentID = intentID, ob_Status = OutboxPending,
                          ob_LeaseOwner = [], ob_LeaseUntil = zero_time, ob_NextAttemptAt = now,
                          ob_AttemptCount = 0, ob_LastErrorClass = FailureNone, ob_CreatedAt = now,
                          ob_UpdatedAt = now\<rparr>
                    in if \<not> io ''insert-outbox'' \<or> outbox_conflict db1 outbox
                       then Inl (WriteFailure ''insert-outbox'')
                       else Inr (db1\<lparr>db_outbox := AList.update outboxID (outbox\<lparr>ob_LeaseUntil := 0\<rparr>)
                              (db_outbox db1)\<rparr>, intent, outbox)))"

section \<open>Observing a fill\<close>

definition no_result :: FillApplyResult where
  "no_result = \<lparr>fr_Duplicate = False, fr_OutOfOrder = False, fr_Delta = 0, fr_Ledger = None,
     fr_GridState = None, fr_Intent = None, fr_Outbox = None\<rparr>"

definition watermark :: "DurableDB \<Rightarrow> string \<Rightarrow> string \<Rightarrow> decimal" where
  "watermark db symbol orderID =
     (case map_of (db_watermarks db) (symbol, orderID) of
        None \<Rightarrow> 0 | Some w \<Rightarrow> wm_ProcessedCumulativeQuantity w)"

definition ledger_row :: "string \<Rightarrow> FillObservation \<Rightarrow> CounterOrderPlan \<Rightarrow> decimal \<Rightarrow> FillLedgerRecord" where
  "ledger_row fillKey obs plan delta = \<lparr>fl_FillKey = fillKey, fl_Symbol = fo_Symbol obs,
     fl_ExchangeOrderID = fo_ExchangeOrderID obs, fl_ExchangeFillID = fo_ExchangeFillID obs,
     fl_Side = fo_Side obs, fl_CumulativeQuantity = fo_CumulativeQuantity obs, fl_DeltaQuantity = delta,
     fl_FillPrice = fo_FillPrice obs, fl_Fee = fo_Fee obs, fl_Source = fo_Source obs,
     fl_ExchangeTimestamp = fo_ExchangeTimestamp obs, fl_ObservedAt = fo_ObservedAt obs,
     fl_Eligibility = cp_Eligibility plan, fl_IneligibleReason = cp_IneligibleReason plan\<rparr>"

definition ObserveFill ::
  "(string \<Rightarrow> string) \<Rightarrow> (decimal \<Rightarrow> string) \<Rightarrow> declib \<Rightarrow> (string \<Rightarrow> bool) \<Rightarrow> FillObservation \<Rightarrow>
    CounterOrderPlan \<Rightarrow> time \<Rightarrow> DurableDB \<Rightarrow> persist_error + DurableDB \<times> FillApplyResult" where
  "ObserveFill sha dstr L io obs plan now db =
     (case ValidateFillObservation sha dstr obs of
        Some e \<Rightarrow> Inl (InvariantViolation e)
      | None \<Rightarrow>
     (case CanonicalUniqueFillKey sha dstr obs of
        Inl e \<Rightarrow> Inl (InvariantViolation e)
      | Inr fillKey \<Rightarrow>
     if \<not> io ''read-watermark'' then Inl (WriteFailure ''read-watermark'')
     else
     let previous = watermark db (fo_Symbol obs) (fo_ExchangeOrderID obs) in
     (case CumulativeDelta previous (fo_CumulativeQuantity obs) of
        Inl e \<Rightarrow> Inl (InvariantViolation e)
      | Inr (delta, isNew) \<Rightarrow>
          if \<not> isNew
          then Inr (db, no_result\<lparr>fr_Duplicate := True,
                 fr_OutOfOrder := (fo_CumulativeQuantity obs < previous)\<rparr>)
          else if \<not> io ''insert-fill-ledger'' then Inl (WriteFailure ''insert-fill-ledger'')
          else
            let row = ledger_row fillKey obs plan delta in
            if ledger_conflict db row then Inr (db, no_result\<lparr>fr_Duplicate := True\<rparr>)
            else
              let db1 = db\<lparr>db_fill_ledger := AList.update fillKey row (db_fill_ledger db)\<rparr>;
                  wm = \<lparr>wm_Symbol = fo_Symbol obs, wm_ExchangeOrderID = fo_ExchangeOrderID obs,
                    wm_ProcessedCumulativeQuantity = fo_CumulativeQuantity obs, wm_UpdatedAt = now\<rparr>
              in if \<not> io ''update-watermark'' then Inl (WriteFailure ''update-watermark'')
              else
                let db2 = db1\<lparr>db_watermarks :=
                      AList.update (fo_Symbol obs, fo_ExchangeOrderID obs) wm (db_watermarks db1)\<rparr>
                in (case applyGridStateDelta L io obs delta now db2 of
                      Inl e \<Rightarrow> Inl e
                    | Inr (db3, gridState) \<Rightarrow>
                        let result = no_result\<lparr>fr_Delta := delta, fr_Ledger := Some row,
                              fr_GridState := Some gridState\<rparr>
                        in if fo_Side obs = SideBuy \<and> cp_Eligibility plan = FillEligible
                           then (case createCounterIntent sha io fillKey obs plan delta now db3 of
                                   Inl e \<Rightarrow> Inl e
                                 | Inr (db4, intent, outbox) \<Rightarrow>
                                     Inr (db4, result\<lparr>fr_Intent := Some intent, fr_Outbox := Some outbox\<rparr>))
                           else Inr (db3, result)))))"

section \<open>Transactions\<close>

datatype commit_outcome = CommitOk | CommitLost | CommitApplied

text \<open>The database after the transaction, and what the caller sees.\<close>

definition WithImmediateTx ::
  "bool \<Rightarrow> (string \<Rightarrow> bool) \<Rightarrow> commit_outcome \<Rightarrow> (DurableDB \<Rightarrow> persist_error + DurableDB \<times> 'a) \<Rightarrow>
    DurableDB \<Rightarrow> DurableDB \<times> (persist_error + 'a)" where
  "WithImmediateTx isClosed io commit fn db =
     (if isClosed then (db, Inl StoreClosed)
      else if \<not> io ''begin-immediate'' then (db, Inl (WriteFailure ''begin-immediate''))
      else case fn db of
        Inl e \<Rightarrow> (db, Inl (if io ''rollback'' then e else WriteFailure ''rollback''))
      | Inr (db', x) \<Rightarrow>
          (case commit of
             CommitOk \<Rightarrow> (db', Inr x)
           | CommitLost \<Rightarrow> (db, Inl (CriticalCommitUncertain ''commit''))
           | CommitApplied \<Rightarrow> (db', Inl (CriticalCommitUncertain ''commit''))))"


section \<open>What the operations change\<close>

lemma update_fresh: "map_of m k = None \<Longrightarrow> AList.update k v m = m @ [(k, v)]"
  by (induction m) (auto split: if_splits)

definition grid_row_of :: "DurableDB \<Rightarrow> string \<Rightarrow> GridStateRecord" where
  "grid_row_of db s = (case map_of (db_grid_state db) s of Some gs \<Rightarrow> gs
     | None \<Rightarrow> \<lparr>gs_Symbol = s, gs_StrategyID = [], gs_Position = 0, gs_AvgEntryPrice = 0,
         gs_RealizedPnL = 0, gs_TotalBuys = 0, gs_TotalSells = 0, gs_UpdatedAt = 0\<rparr>)"

lemma applyGridStateDelta_effect:
  assumes "applyGridStateDelta L io obs delta now db = Inr (db', gs)"
  obtains sid where
    "gs = (grid_position_update L obs delta (grid_row_of db (fo_Symbol obs)))
       \<lparr>gs_Symbol := fo_Symbol obs, gs_StrategyID := sid, gs_UpdatedAt := now\<rparr>"
    and "db' = db\<lparr>db_grid_state := AList.update (fo_Symbol obs) gs (db_grid_state db)\<rparr>"
proof -
  define cur where "cur = grid_row_of db (fo_Symbol obs)"
  define sid where "sid = (if fo_StrategyID obs = [] then gs_StrategyID cur else fo_StrategyID obs)"
  show thesis
    using assms by (intro that [of sid])
      (auto simp: applyGridStateDelta_def cur_def [symmetric] grid_row_of_def [symmetric] sid_def Let_def
        split: if_splits)
qed

lemma createCounterIntent_effect:
  assumes "createCounterIntent sha io k obs plan delta now db = Inr (db', intent, outbox)"
  shows "map_of (db_intents db) (ci_IntentID intent) = None \<and>
    map_of (db_outbox db) (ob_OutboxID outbox) = None \<and>
    (\<forall>r \<in> snd ` set (db_intents db). ci_FillKey r \<noteq> k \<and>
       ci_DeterministicClientOrderID r \<noteq> ci_DeterministicClientOrderID intent) \<and>
    ci_FillKey intent = k \<and> ci_Symbol intent = fo_Symbol obs \<and> ci_Quantity intent = delta \<and>
    ci_Side intent = SideSell \<and> ci_Price intent = cp_Price plan \<and> ci_Status intent = IntentPending \<and>
    ci_TerminalDeadline intent = fo_ObservedAt obs + CounterOrderTerminalSLO \<and>
    ob_IntentID outbox = ci_IntentID intent \<and> ob_Status outbox = OutboxPending \<and>
    ob_LeaseOwner outbox = [] \<and> ob_NextAttemptAt outbox = now \<and>
    db' = db\<lparr>
      db_intents := db_intents db @
        [(ci_IntentID intent, intent\<lparr>ci_InitiatedAt := 0, ci_TerminalAt := 0\<rparr>)],
      db_outbox := db_outbox db @ [(ob_OutboxID outbox, outbox\<lparr>ob_LeaseUntil := 0\<rparr>)]\<rparr>"
  using assms
  by (auto simp: createCounterIntent_def Let_def intent_conflict_def outbox_conflict_def update_fresh
      list_ex_iff split: sum.splits if_splits)

definition eligible_buy :: "FillLedgerRecord \<Rightarrow> bool" where
  "eligible_buy r \<longleftrightarrow> fl_Side r = SideBuy \<and> fl_Eligibility r = FillEligible"

text \<open>A successful call found a duplicate and changed nothing, or did all of its writes.\<close>

lemma ObserveFill_effect:
  assumes "ObserveFill sha dstr L io obs plan now db = Inr (db', r)"
  obtains (duplicate) "db' = db" and "fr_Duplicate r" and "fr_Intent r = None" and "fr_Outbox r = None"
  | (recorded) k d db3 gs where
      "CanonicalUniqueFillKey sha dstr obs = Inr k"
      and "ValidateFillObservation sha dstr obs = None"
      and "0 \<le> watermark db (fo_Symbol obs) (fo_ExchangeOrderID obs)"
      and "watermark db (fo_Symbol obs) (fo_ExchangeOrderID obs) < fo_CumulativeQuantity obs"
      and "d = fo_CumulativeQuantity obs - watermark db (fo_Symbol obs) (fo_ExchangeOrderID obs)"
      and "map_of (db_fill_ledger db) k = None"
      and "\<not> fr_Duplicate r" and "fr_Delta r = d" and "fr_Ledger r = Some (ledger_row k obs plan d)"
      and "applyGridStateDelta L io obs d now (db\<lparr>
             db_fill_ledger := db_fill_ledger db @ [(k, ledger_row k obs plan d)],
             db_watermarks := AList.update (fo_Symbol obs, fo_ExchangeOrderID obs)
               \<lparr>wm_Symbol = fo_Symbol obs, wm_ExchangeOrderID = fo_ExchangeOrderID obs,
                wm_ProcessedCumulativeQuantity = fo_CumulativeQuantity obs, wm_UpdatedAt = now\<rparr>
               (db_watermarks db)\<rparr>) = Inr (db3, gs)"
      and "fr_GridState r = Some gs"
      and "if fo_Side obs = SideBuy \<and> cp_Eligibility plan = FillEligible
           then \<exists>i ob. createCounterIntent sha io k obs plan d now db3 = Inr (db', i, ob) \<and>
             fr_Intent r = Some i \<and> fr_Outbox r = Some ob
           else db' = db3 \<and> fr_Intent r = None \<and> fr_Outbox r = None"
proof -
  let ?w = "watermark db (fo_Symbol obs) (fo_ExchangeOrderID obs)"
  from assms obtain k where v: "ValidateFillObservation sha dstr obs = None"
    and k: "CanonicalUniqueFillKey sha dstr obs = Inr k"
    by (auto simp: ObserveFill_def split: option.splits sum.splits)
  from assms v k obtain d n where d: "CumulativeDelta ?w (fo_CumulativeQuantity obs) = Inr (d, n)"
    by (auto simp: ObserveFill_def Let_def split: sum.splits if_splits)
  show thesis
  proof (cases "n \<and> \<not> ledger_conflict db (ledger_row k obs plan d)")
    case False
    with assms v k d show thesis
      by (intro duplicate) (auto simp: ObserveFill_def Let_def no_result_def split: if_splits)
  next
    case True
    have fresh: "map_of (db_fill_ledger db) k = None"
      using True by (simp add: ledger_conflict_def ledger_row_def)
    have cd: "0 \<le> ?w" "?w < fo_CumulativeQuantity obs" "d = fo_CumulativeQuantity obs - ?w"
      using d True by (auto simp: CumulativeDelta_new)
    let ?db2 = "db\<lparr>db_fill_ledger := db_fill_ledger db @ [(k, ledger_row k obs plan d)],
      db_watermarks := AList.update (fo_Symbol obs, fo_ExchangeOrderID obs)
        \<lparr>wm_Symbol = fo_Symbol obs, wm_ExchangeOrderID = fo_ExchangeOrderID obs,
         wm_ProcessedCumulativeQuantity = fo_CumulativeQuantity obs, wm_UpdatedAt = now\<rparr>
        (db_watermarks db)\<rparr>"
    obtain db3 gs where g: "applyGridStateDelta L io obs d now ?db2 = Inr (db3, gs)"
      using assms v k d True fresh
      by (auto simp: ObserveFill_def Let_def update_fresh split: if_splits sum.splits)
    show thesis
      using assms v k d True fresh g
      by (intro recorded [OF k v cd fresh _ _ _ g])
        (auto simp: ObserveFill_def Let_def no_result_def update_fresh split: if_splits sum.splits)
  qed
qed


section \<open>The durable invariant\<close>

text \<open>The deltas that the ledger holds for one exchange order.\<close>

definition order_deltas :: "DurableDB \<Rightarrow> string \<Rightarrow> string \<Rightarrow> decimal" where
  "order_deltas db s oid = sum_list (map fl_DeltaQuantity
     (filter (\<lambda>r. fl_Symbol r = s \<and> fl_ExchangeOrderID r = oid) (map snd (db_fill_ledger db))))"

definition side_count :: "DurableDB \<Rightarrow> string \<Rightarrow> Side \<Rightarrow> nat" where
  "side_count db s sd =
     length (filter (\<lambda>r. fl_Symbol r = s \<and> fl_Side r = sd) (map snd (db_fill_ledger db)))"

definition ledger_inv :: "DurableDB \<Rightarrow> bool" where
  "ledger_inv db \<longleftrightarrow> map_wf (db_fill_ledger db) \<and>
     (\<forall>(k, r) \<in> set (db_fill_ledger db). fl_FillKey r = k \<and> 0 < fl_DeltaQuantity r) \<and>
     (\<forall>s oid. watermark db s oid = order_deltas db s oid)"

definition grid_inv :: "DurableDB \<Rightarrow> bool" where
  "grid_inv db \<longleftrightarrow> (\<forall>s. 0 \<le> gs_Position (grid_row_of db s) \<and> 0 \<le> gs_AvgEntryPrice (grid_row_of db s) \<and>
     gs_TotalBuys (grid_row_of db s) = int (side_count db s SideBuy) \<and>
     gs_TotalSells (grid_row_of db s) = int (side_count db s SideSell))"

text \<open>What an intent covers, and what the eligible BUY rows of the ledger ask to be covered.\<close>

definition covered :: "DurableDB \<Rightarrow> (string \<times> string \<times> decimal) multiset" where
  "covered db = mset (map (\<lambda>i. (ci_FillKey i, ci_Symbol i, ci_Quantity i)) (map snd (db_intents db)))"

definition to_cover :: "DurableDB \<Rightarrow> (string \<times> string \<times> decimal) multiset" where
  "to_cover db = mset (map (\<lambda>r. (fl_FillKey r, fl_Symbol r, fl_DeltaQuantity r))
     (filter eligible_buy (map snd (db_fill_ledger db))))"

definition cover_inv :: "DurableDB \<Rightarrow> bool" where
  "cover_inv db \<longleftrightarrow> covered db = to_cover db \<and>
     map fst (db_intents db) = map (ci_IntentID \<circ> snd) (db_intents db) \<and> map_wf (db_intents db) \<and>
     map fst (db_outbox db) = map (ob_OutboxID \<circ> snd) (db_outbox db) \<and> map_wf (db_outbox db) \<and>
     map (ob_IntentID \<circ> snd) (db_outbox db) = map (ci_IntentID \<circ> snd) (db_intents db)"

definition durable_inv :: "DurableDB \<Rightarrow> bool" where
  "durable_inv db \<longleftrightarrow> ledger_inv db \<and> grid_inv db \<and> cover_inv db"

lemma empty_db_inv [inv_intros]: "durable_inv empty_db"
  by (simp add: durable_inv_def ledger_inv_def grid_inv_def cover_inv_def empty_db_def watermark_def
      order_deltas_def grid_row_of_def side_count_def covered_def to_cover_def)

lemma map_wf_snoc: "map_of m k = None \<Longrightarrow> map_wf m \<Longrightarrow> map_wf (m @ [(k, v)])"
  by (auto simp: map_wf_def map_of_eq_None_iff)

lemma grid_position_update_sound:
  assumes "declib_ok L" and "0 < fo_FillPrice obs" and "0 < delta"
    and "0 \<le> gs_Position gs" and "0 \<le> gs_AvgEntryPrice gs"
  shows "0 \<le> gs_Position (grid_position_update L obs delta gs) \<and>
    0 \<le> gs_AvgEntryPrice (grid_position_update L obs delta gs)"
proof (cases "fo_Side obs")
  case SideBuy
  let ?c = "gs_Position gs * gs_AvgEntryPrice gs + delta * fo_FillPrice obs"
  let ?p = "gs_Position gs + delta"
  have "0 \<le> ?c / ?p" using assms by simp
  moreover from assms have "near_multiple 16 (?c / ?p) (dl_div L ?c ?p)"
    by (intro declib_div) auto
  ultimately have "0 \<le> dl_div L ?c ?p" using near_multiple_nonneg by blast
  with SideBuy assms show ?thesis by (simp add: grid_position_update_def Let_def)
next
  case SideSell
  with assms show ?thesis by (simp add: grid_position_update_def Let_def)
next
  case (SideOther x)
  with assms show ?thesis by (simp add: grid_position_update_def)
qed

lemma grid_position_update_counts:
  "gs_TotalBuys (grid_position_update L obs d gs) = gs_TotalBuys gs + (if fo_Side obs = SideBuy then 1 else 0)"
  "gs_TotalSells (grid_position_update L obs d gs) = gs_TotalSells gs + (if fo_Side obs = SideSell then 1 else 0)"
  by (cases "fo_Side obs"; simp add: grid_position_update_def Let_def)+

lemma grid_row_of_update:
  "grid_row_of (db\<lparr>db_grid_state := AList.update k gs m\<rparr>) s =
     (if s = k then gs else grid_row_of (db\<lparr>db_grid_state := m\<rparr>) s)"
  by (simp add: grid_row_of_def)

lemma valid_observation:
  "ValidateFillObservation sha dstr obs = None \<Longrightarrow>
     0 < fo_FillPrice obs \<and> (fo_Side obs = SideBuy \<or> fo_Side obs = SideSell)"
  by (auto simp: ValidateFillObservation_def split: sum.splits if_splits)


lemma ledger_inv_record:
  assumes "ledger_inv db" and "map_of (db_fill_ledger db) k = None"
    and "watermark db (fo_Symbol obs) (fo_ExchangeOrderID obs) < fo_CumulativeQuantity obs"
    and "db_fill_ledger db' = db_fill_ledger db @ [(k, ledger_row k obs plan
      (fo_CumulativeQuantity obs - watermark db (fo_Symbol obs) (fo_ExchangeOrderID obs)))]"
    and "db_watermarks db' = AList.update (fo_Symbol obs, fo_ExchangeOrderID obs) w (db_watermarks db)"
    and "wm_ProcessedCumulativeQuantity w = fo_CumulativeQuantity obs"
  shows "ledger_inv db'"
proof -
  have wm: "watermark db' s oid = (if s = fo_Symbol obs \<and> oid = fo_ExchangeOrderID obs
      then fo_CumulativeQuantity obs else watermark db s oid)" for s oid
    by (simp add: watermark_def assms)
  have od: "order_deltas db' s oid = order_deltas db s oid +
      (if s = fo_Symbol obs \<and> oid = fo_ExchangeOrderID obs
       then fo_CumulativeQuantity obs - watermark db s oid else 0)" for s oid
    by (simp add: order_deltas_def assms(4) ledger_row_def)
  have "watermark db' s oid = order_deltas db' s oid" for s oid
    unfolding wm od using assms(1) by (simp add: ledger_inv_def)
  moreover have "map_wf (db_fill_ledger db')"
    unfolding assms(4) using assms(1,2) by (intro map_wf_snoc) (auto simp: ledger_inv_def)
  ultimately show ?thesis
    using assms(1,3) unfolding ledger_inv_def assms(4) by (auto simp: ledger_row_def)
qed

lemma grid_inv_record:
  assumes "declib_ok L" and "grid_inv db" and "ValidateFillObservation sha dstr obs = None" and "0 < d"
    and gs: "gs = (grid_position_update L obs d (grid_row_of db (fo_Symbol obs)))
       \<lparr>gs_Symbol := fo_Symbol obs, gs_StrategyID := sid, gs_UpdatedAt := now\<rparr>"
    and "db_grid_state db' = AList.update (fo_Symbol obs) gs (db_grid_state db)"
    and "db_fill_ledger db' = db_fill_ledger db @ [(k, ledger_row k obs plan d)]"
  shows "grid_inv db'"
proof -
  let ?g = "grid_row_of db (fo_Symbol obs)"
  have v: "0 < fo_FillPrice obs" "fo_Side obs = SideBuy \<or> fo_Side obs = SideSell"
    using valid_observation [OF assms(3)] by auto
  have inv: "0 \<le> gs_Position (grid_row_of db s) \<and> 0 \<le> gs_AvgEntryPrice (grid_row_of db s) \<and>
     gs_TotalBuys (grid_row_of db s) = int (side_count db s SideBuy) \<and>
     gs_TotalSells (grid_row_of db s) = int (side_count db s SideSell)" for s
    using assms(2) by (simp add: grid_inv_def)
  have row: "grid_row_of db' s = (if s = fo_Symbol obs then gs else grid_row_of db s)" for s
    by (simp add: grid_row_of_def assms(6))
  have cnt: "side_count db' s sd = side_count db s sd +
      (if s = fo_Symbol obs \<and> sd = fo_Side obs then 1 else 0)" for s sd
    by (simp add: side_count_def assms(7) ledger_row_def)
  have "0 \<le> gs_Position gs \<and> 0 \<le> gs_AvgEntryPrice gs"
    unfolding gs using grid_position_update_sound [OF assms(1) v(1) assms(4)] inv by simp
  moreover have "gs_TotalBuys gs = int (side_count db' (fo_Symbol obs) SideBuy)"
    "gs_TotalSells gs = int (side_count db' (fo_Symbol obs) SideSell)"
    using inv unfolding gs cnt by (auto simp: grid_position_update_counts)
  moreover have "side_count db' s sd = side_count db s sd" if "s \<noteq> fo_Symbol obs" for s sd
    using that by (simp add: cnt)
  ultimately show ?thesis
    using inv unfolding grid_inv_def row by auto
qed

lemma cover_inv_record:
  assumes inv: "cover_inv db" and tables: "db_intents db3 = db_intents db" "db_outbox db3 = db_outbox db"
    and ledger: "db_fill_ledger db3 = db_fill_ledger db @ [(k, ledger_row k obs plan d)]"
    and "if fo_Side obs = SideBuy \<and> cp_Eligibility plan = FillEligible
           then \<exists>i ob. createCounterIntent sha io k obs plan d now db3 = Inr (db', i, ob) else db' = db3"
  shows "cover_inv db'"
proof (cases "fo_Side obs = SideBuy \<and> cp_Eligibility plan = FillEligible")
  case False
  then have "db' = db3" using assms(5) by (simp split: if_splits)
  moreover from False have "to_cover db3 = to_cover db"
    by (simp add: to_cover_def ledger eligible_buy_def ledger_row_def)
  ultimately show ?thesis using inv tables by (simp add: cover_inv_def covered_def)
next
  case True
  then obtain i ob where c: "createCounterIntent sha io k obs plan d now db3 = Inr (db', i, ob)"
    using assms(5) by auto
  note eff = createCounterIntent_effect [OF c]
  from eff have "db_fill_ledger db' = db_fill_ledger db3" by auto
  with True have "to_cover db' = to_cover db + {#(k, fo_Symbol obs, d)#}"
    by (simp add: to_cover_def ledger eligible_buy_def ledger_row_def)
  moreover have "covered db' = covered db + {#(k, fo_Symbol obs, d)#}"
    using eff tables by (simp add: covered_def)
  moreover have "map_wf (db_intents db')" "map_wf (db_outbox db')"
    using eff inv tables by (auto simp: cover_inv_def intro!: map_wf_snoc)
  ultimately show ?thesis
    using inv eff tables by (simp add: cover_inv_def)
qed

lemma ObserveFill_inv [inv_intros]:
  assumes ok: "declib_ok L" and inv: "durable_inv db"
    and "ObserveFill sha dstr L io obs plan now db = Inr (db', r)"
  shows "durable_inv db'"
  using assms(3)
proof (cases rule: ObserveFill_effect)
  case duplicate
  with inv show ?thesis by simp
next
  case (recorded k d db3 gs)
  let ?db2 = "db\<lparr>db_fill_ledger := db_fill_ledger db @ [(k, ledger_row k obs plan d)],
      db_watermarks := AList.update (fo_Symbol obs, fo_ExchangeOrderID obs)
        \<lparr>wm_Symbol = fo_Symbol obs, wm_ExchangeOrderID = fo_ExchangeOrderID obs,
         wm_ProcessedCumulativeQuantity = fo_CumulativeQuantity obs, wm_UpdatedAt = now\<rparr>
        (db_watermarks db)\<rparr>"
  from recorded(10) obtain sid where
    gs: "gs = (grid_position_update L obs d (grid_row_of ?db2 (fo_Symbol obs)))
       \<lparr>gs_Symbol := fo_Symbol obs, gs_StrategyID := sid, gs_UpdatedAt := now\<rparr>"
    and db3: "db3 = ?db2\<lparr>db_grid_state := AList.update (fo_Symbol obs) gs (db_grid_state ?db2)\<rparr>"
    by (rule applyGridStateDelta_effect)
  have tables: "db_fill_ledger db3 = db_fill_ledger db @ [(k, ledger_row k obs plan d)]"
    "db_watermarks db3 = db_watermarks ?db2" "db_intents db3 = db_intents db" "db_outbox db3 = db_outbox db"
    "db_grid_state db3 = AList.update (fo_Symbol obs) gs (db_grid_state db)"
    by (simp_all add: db3)
  have same: "db_fill_ledger db' = db_fill_ledger db3 \<and> db_watermarks db' = db_watermarks db3 \<and>
      db_grid_state db' = db_grid_state db3"
  proof (cases "fo_Side obs = SideBuy \<and> cp_Eligibility plan = FillEligible")
    case True
    then obtain i ob where "createCounterIntent sha io k obs plan d now db3 = Inr (db', i, ob)"
      using recorded(12) by auto
    from createCounterIntent_effect [OF this] show ?thesis by auto
  next
    case False
    with recorded(12) show ?thesis by (simp split: if_splits)
  qed
  have inv': "ledger_inv db" "grid_inv db" "cover_inv db" using inv by (simp_all add: durable_inv_def)
  have d: "0 < d" using recorded(4,5) by simp
  have gs': "gs = (grid_position_update L obs d (grid_row_of db (fo_Symbol obs)))
       \<lparr>gs_Symbol := fo_Symbol obs, gs_StrategyID := sid, gs_UpdatedAt := now\<rparr>"
    unfolding gs by (simp add: grid_row_of_def)
  have "ledger_inv db'"
    using inv'(1) recorded(6,4) by (rule ledger_inv_record) (simp add: same tables recorded(5))+
  moreover have "grid_inv db'"
    using ok inv'(2) recorded(2) d gs' by (rule grid_inv_record) (simp_all add: same tables)
  moreover have "cover_inv db'"
  proof (rule cover_inv_record [OF inv'(3) tables(3,4,1)])
    show "if fo_Side obs = SideBuy \<and> cp_Eligibility plan = FillEligible
      then \<exists>i ob. createCounterIntent sha io k obs plan d now db3 = Inr (db', i, ob) else db' = db3"
      using recorded(12) by (auto split: if_splits)
  qed
  ultimately show ?thesis by (simp add: durable_inv_def)
qed


section \<open>Properties\<close>

text \<open>What recording a fill has to leave behind.\<close>

definition fill_recorded ::
  "(string \<Rightarrow> string) \<Rightarrow> (decimal \<Rightarrow> string) \<Rightarrow> FillObservation \<Rightarrow> CounterOrderPlan \<Rightarrow>
    DurableDB \<Rightarrow> DurableDB \<Rightarrow> FillApplyResult \<Rightarrow> bool" where
  "fill_recorded sha dstr obs plan db db' r \<longleftrightarrow>
     watermark db' (fo_Symbol obs) (fo_ExchangeOrderID obs) = fo_CumulativeQuantity obs \<and>
     fr_Delta r = fo_CumulativeQuantity obs - watermark db (fo_Symbol obs) (fo_ExchangeOrderID obs) \<and>
     0 < fr_Delta r \<and>
     (case CanonicalUniqueFillKey sha dstr obs of Inl _ \<Rightarrow> False
      | Inr k \<Rightarrow> map_of (db_fill_ledger db) k = None \<and> fr_Ledger r = Some (ledger_row k obs plan (fr_Delta r)) \<and>
          db_fill_ledger db' = db_fill_ledger db @ [(k, ledger_row k obs plan (fr_Delta r))]) \<and>
     (if fo_Side obs = SideBuy \<and> cp_Eligibility plan = FillEligible
      then (case (fr_Intent r, fr_Outbox r) of
          (Some i, Some ob) \<Rightarrow> ci_Quantity i = fr_Delta r \<and> ci_Side i = SideSell \<and>
            ci_TerminalDeadline i = fo_ObservedAt obs + CounterOrderTerminalSLO \<and>
            db_intents db' = db_intents db @
              [(ci_IntentID i, i\<lparr>ci_InitiatedAt := 0, ci_TerminalAt := 0\<rparr>)] \<and>
            ob_IntentID ob = ci_IntentID i \<and> ob_Status ob = OutboxPending \<and>
            db_outbox db' = db_outbox db @ [(ob_OutboxID ob, ob\<lparr>ob_LeaseUntil := 0\<rparr>)]
        | _ \<Rightarrow> False)
      else fr_Intent r = None \<and> fr_Outbox r = None \<and> db_intents db' = db_intents db \<and>
        db_outbox db' = db_outbox db)"

lemma observe_recorded:
  assumes "ObserveFill sha dstr L io obs plan now db = Inr (db', r)" and "\<not> fr_Duplicate r"
  shows "fill_recorded sha dstr obs plan db db' r"
  using assms(1)
proof (cases rule: ObserveFill_effect)
  case duplicate
  with assms(2) show ?thesis by simp
next
  case (recorded k d db3 gs)
  have t: "db_fill_ledger db3 = db_fill_ledger db @ [(k, ledger_row k obs plan d)] \<and>
    watermark db3 (fo_Symbol obs) (fo_ExchangeOrderID obs) = fo_CumulativeQuantity obs \<and>
    db_intents db3 = db_intents db \<and> db_outbox db3 = db_outbox db"
    using recorded(10) by (rule applyGridStateDelta_effect) (simp add: watermark_def)
  show ?thesis
  proof (cases "fo_Side obs = SideBuy \<and> cp_Eligibility plan = FillEligible")
    case True
    then obtain i ob where c: "createCounterIntent sha io k obs plan d now db3 = Inr (db', i, ob)"
      and "fr_Intent r = Some i" "fr_Outbox r = Some ob"
      using recorded(12) by auto
    with createCounterIntent_effect [OF c] True t recorded show ?thesis
      by (simp add: watermark_def fill_recorded_def)
  next
    case False
    with t recorded show ?thesis by (simp add: fill_recorded_def split: if_splits)
  qed
qed


text \<open>C19: processing is idempotent. Once a fill has been recorded, observing it again - or any late
  observation of the same order with a cumulative quantity no larger, whatever its source, fill id
  and plan - succeeds as a duplicate, creates no second intent and leaves the database as it is.\<close>

theorem replay_is_duplicate:
  assumes "WithImmediateTx isClosed io commit (ObserveFill sha dstr L io obs plan now) db = (db', Inr r)"
    and "\<not> fr_Duplicate r"
    and "ValidateFillObservation sha dstr obs' = None"
    and "fo_Symbol obs' = fo_Symbol obs" and "fo_ExchangeOrderID obs' = fo_ExchangeOrderID obs"
    and "fo_CumulativeQuantity obs' \<le> fo_CumulativeQuantity obs"
    and "io' ''begin-immediate''" and "io' ''read-watermark''"
  shows "\<exists>r'. WithImmediateTx False io' CommitOk (ObserveFill sha dstr L io' obs' plan' now') db' = (db', Inr r') \<and>
    fr_Duplicate r' \<and> fr_Intent r' = None \<and> fr_Outbox r' = None \<and>
    fr_OutOfOrder r' = (fo_CumulativeQuantity obs' < fo_CumulativeQuantity obs)"
proof -
  have o: "ObserveFill sha dstr L io obs plan now db = Inr (db', r)"
    using assms(1) by (auto simp: WithImmediateTx_def split: if_splits sum.splits commit_outcome.splits)
  have w: "watermark db' (fo_Symbol obs) (fo_ExchangeOrderID obs) = fo_CumulativeQuantity obs"
    using observe_recorded [OF o assms(2)] by (simp add: fill_recorded_def)
  have "0 \<le> watermark db (fo_Symbol obs) (fo_ExchangeOrderID obs)"
    "watermark db (fo_Symbol obs) (fo_ExchangeOrderID obs) < fo_CumulativeQuantity obs"
    using o assms(2) by (auto elim!: ObserveFill_effect)
  then have pos: "0 < fo_CumulativeQuantity obs" by simp
  from assms(3) obtain k where k: "CanonicalUniqueFillKey sha dstr obs' = Inr k"
    and pos': "0 < fo_CumulativeQuantity obs'"
    by (auto simp: ValidateFillObservation_def CanonicalUniqueFillKey_def UniqueFillKey_def
        split: sum.splits if_splits)
  have "CumulativeDelta (fo_CumulativeQuantity obs) (fo_CumulativeQuantity obs') = Inr (0, False)"
    using assms(6) pos pos' by (simp add: CumulativeDelta_def)
  then show ?thesis
    using assms k w by (simp add: WithImmediateTx_def ObserveFill_def no_result_def)
qed

definition demo_obs :: FillObservation where
  "demo_obs = \<lparr>fo_Symbol = ''BTC'', fo_ClientOrderID = ''c'', fo_ExchangeOrderID = ''17'',
     fo_ExchangeFillID = ''3'', fo_Side = SideBuy, fo_CumulativeQuantity = 2, fo_FillPrice = 100, fo_Fee = 0,
     fo_Source = FillSourcePrivateWS, fo_ExchangeTimestamp = 5, fo_ObservedAt = 6, fo_StrategyID = ''g'',
     fo_GridLevel = 1\<rparr>"

definition demo_plan :: CounterOrderPlan where
  "demo_plan = \<lparr>cp_Eligibility = FillEligible, cp_Price = 101, cp_Purpose = ''counter'', cp_IneligibleReason = []\<rparr>"

definition demo_lib :: declib where
  "demo_lib = \<lparr>dl_div = (/), dl_round = (\<lambda>a _. a)\<rparr>"

theorem replay_is_duplicate_witness:
  "\<exists>db' r. WithImmediateTx False (\<lambda>_. True) CommitOk
       (ObserveFill id (\<lambda>_. ''2'') demo_lib (\<lambda>_. True) demo_obs demo_plan 7) empty_db = (db', Inr r) \<and>
     \<not> fr_Duplicate r \<and>
     (\<exists>r'. WithImmediateTx False (\<lambda>_. True) CommitOk
       (ObserveFill id (\<lambda>_. ''2'') demo_lib (\<lambda>_. True) demo_obs demo_plan 9) db' = (db', Inr r') \<and> fr_Duplicate r')"
proof -
  let ?tx = "WithImmediateTx False (\<lambda>_. True) CommitOk
       (ObserveFill id (\<lambda>_. ''2'') demo_lib (\<lambda>_. True) demo_obs demo_plan 7) empty_db"
  have "case snd ?tx of Inl _ \<Rightarrow> False | Inr r \<Rightarrow> \<not> fr_Duplicate r" by code_simp
  then obtain db' r where tx: "?tx = (db', Inr r)" and dup: "\<not> fr_Duplicate r"
    by (cases ?tx) (auto split: sum.splits)
  have "ValidateFillObservation id (\<lambda>_. ''2'') demo_obs = None" by code_simp
  from replay_is_duplicate [OF tx dup this, of "\<lambda>_. True" demo_plan 9] tx dup show ?thesis by auto
qed

end
