(* ===== verification/Outbox.thy ===== *)
theory Outbox
  imports DurableStore
begin

text \<open>
  The transactional outbox (\<open>src/internal/persistence/outbox.go\<close>): leasing of ready entries to
  workers, their terminal transitions, the recovery of expired leases, retries, and the
  reconciliation watermark (\<open>reconciliation_watermark.go\<close>). SQL statements are updates of the rows
  that their \<open>WHERE\<close> clause selects. \<open>io\<close> and the commit outcome are those of \<open>DurableStore\<close>; a
  statement outside a transaction that reports an error has changed nothing. \<open>ORDER BY\<close> leaves the
  order of equal keys open: the sort is a parameter.
\<close>

section \<open>Statements\<close>

definition update_where :: "('v \<Rightarrow> bool) \<Rightarrow> ('v \<Rightarrow> 'v) \<Rightarrow> ('k, 'v) gomap \<Rightarrow> ('k, 'v) gomap" where
  "update_where p f m = map (\<lambda>(k, v). (k, if p v then f v else v)) m"

definition OutboxLeaseTimeout :: duration where
  "OutboxLeaseTimeout = 10 * 1000000000"

definition outbox_ready :: "time \<Rightarrow> OutboxRecord \<Rightarrow> bool" where
  "outbox_ready now r \<longleftrightarrow> (ob_Status r = OutboxPending \<or> ob_Status r = OutboxUncertain) \<and>
     ob_NextAttemptAt r \<le> now \<and> (ob_LeaseUntil r \<le> now \<or> ob_LeaseOwner r = [])"

definition by_next_attempt :: "OutboxRecord \<Rightarrow> OutboxRecord \<Rightarrow> bool" where
  "by_next_attempt a b \<longleftrightarrow> ob_NextAttemptAt a < ob_NextAttemptAt b"

definition by_created :: "OutboxRecord \<Rightarrow> OutboxRecord \<Rightarrow> bool" where
  "by_created a b \<longleftrightarrow> ob_CreatedAt a < ob_CreatedAt b"

definition commit_tx :: "commit_outcome \<Rightarrow> string \<Rightarrow> DurableDB \<Rightarrow> DurableDB \<Rightarrow> 'a \<Rightarrow>
    DurableDB \<times> (persist_error + 'a)" where
  "commit_tx commit op db db' x =
     (case commit of
        CommitOk \<Rightarrow> (db', Inr x)
      | CommitLost \<Rightarrow> (db, Inl (CriticalCommitUncertain op))
      | CommitApplied \<Rightarrow> (db', Inl (CriticalCommitUncertain op)))"

section \<open>Operations\<close>

definition lease_row :: "string \<Rightarrow> time \<Rightarrow> OutboxRecord \<Rightarrow> OutboxRecord" where
  "lease_row workerID now r = r\<lparr>ob_LeaseOwner := workerID, ob_LeaseUntil := now + OutboxLeaseTimeout,
     ob_Status := OutboxLeased, ob_UpdatedAt := now\<rparr>"

text \<open>The intent is read without its fill key, which the returned struct leaves empty.\<close>

definition ClaimOutbox ::
  "OutboxRecord slice_sort \<Rightarrow> bool \<Rightarrow> (string \<Rightarrow> bool) \<Rightarrow> commit_outcome \<Rightarrow> string \<Rightarrow> time \<Rightarrow> DurableDB \<Rightarrow>
    DurableDB \<times> (persist_error + OutboxRecord \<times> CounterOrderIntent)" where
  "ClaimOutbox srt isClosed io commit workerID now db =
     (if workerID = [] then (db, Inl WorkerIDRequired)
      else if isClosed then (db, Inl StoreClosed)
      else if \<not> io ''claim-outbox-begin'' then (db, Inl (WriteFailure ''claim-outbox-begin''))
      else if \<not> io ''claim-outbox-select'' then (db, Inl (WriteFailure ''claim-outbox-select''))
      else case srt by_next_attempt (filter (outbox_ready now) (map snd (db_outbox db))) of
        [] \<Rightarrow> (db, Inl ErrNoOutboxWork)
      | r # _ \<Rightarrow>
          if \<not> io ''claim-outbox-update'' then (db, Inl (WriteFailure ''claim-outbox-update''))
          else
            let db' = db\<lparr>db_outbox := update_where
                  (\<lambda>q. ob_OutboxID q = ob_OutboxID r \<and> (ob_LeaseUntil q \<le> now \<or> ob_LeaseOwner q = []))
                  (lease_row workerID now) (db_outbox db)\<rparr>
            in if \<not> io ''claim-outbox-load-intent''
               then (db, Inl (WriteFailure ''claim-outbox-load-intent''))
               else case map_of (db_intents db') (ob_IntentID r) of
                 None \<Rightarrow> (db, Inl (WriteFailure ''claim-outbox-load-intent''))
               | Some i \<Rightarrow> commit_tx commit ''commit-claim'' db db'
                   (lease_row workerID now r, i\<lparr>ci_FillKey := []\<rparr>))"

definition CompleteOutbox ::
  "bool \<Rightarrow> (string \<Rightarrow> bool) \<Rightarrow> commit_outcome \<Rightarrow> string \<Rightarrow> string \<Rightarrow> time \<Rightarrow> DurableDB \<Rightarrow>
    DurableDB \<times> (persist_error + unit)" where
  "CompleteOutbox isClosed io commit outboxID exchangeOrderID now db =
     (if isClosed then (db, Inl StoreClosed)
      else if \<not> io ''complete-outbox-begin'' then (db, Inl (WriteFailure ''complete-outbox-begin''))
      else if \<not> io ''complete-outbox-status'' then (db, Inl (WriteFailure ''complete-outbox-status''))
      else
        let db1 = db\<lparr>db_outbox := update_where (\<lambda>q. ob_OutboxID q = outboxID)
              (\<lambda>q. q\<lparr>ob_Status := OutboxCompleted, ob_UpdatedAt := now\<rparr>) (db_outbox db)\<rparr>
        in if \<not> io ''complete-outbox-lookup'' then (db, Inl (WriteFailure ''complete-outbox-lookup''))
        else case map_of (db_outbox db1) outboxID of
          None \<Rightarrow> (db, Inl (WriteFailure ''complete-outbox-lookup''))
        | Some r \<Rightarrow>
            if \<not> io ''complete-intent-confirm'' then (db, Inl (WriteFailure ''complete-intent-confirm''))
            else commit_tx commit ''commit-complete'' db
              (db1\<lparr>db_intents := update_where (\<lambda>i. ci_IntentID i = ob_IntentID r)
                (\<lambda>i. i\<lparr>ci_Status := IntentConfirmed, ci_ExchangeOrderID := exchangeOrderID,
                       ci_TerminalAt := now, ci_Attempts := ci_Attempts i + 1\<rparr>) (db_intents db1)\<rparr>) ())"

definition FailOutbox ::
  "bool \<Rightarrow> (string \<Rightarrow> bool) \<Rightarrow> commit_outcome \<Rightarrow> string \<Rightarrow> FailureClass \<Rightarrow> string \<Rightarrow> string \<Rightarrow> time \<Rightarrow>
    DurableDB \<Rightarrow> DurableDB \<times> (persist_error + unit)" where
  "FailOutbox isClosed io commit outboxID errClass sCode sMsg now db =
     (if isClosed then (db, Inl StoreClosed)
      else if \<not> io ''fail-outbox-begin'' then (db, Inl (WriteFailure ''fail-outbox-begin''))
      else if \<not> io ''fail-outbox-status'' then (db, Inl (WriteFailure ''fail-outbox-status''))
      else
        let db1 = db\<lparr>db_outbox := update_where (\<lambda>q. ob_OutboxID q = outboxID)
              (\<lambda>q. q\<lparr>ob_Status := OutboxFailed, ob_LastErrorClass := errClass, ob_UpdatedAt := now\<rparr>)
              (db_outbox db)\<rparr>
        in if \<not> io ''fail-outbox-lookup'' then (db, Inl (WriteFailure ''fail-outbox-lookup''))
        else case map_of (db_outbox db1) outboxID of
          None \<Rightarrow> (db, Inl (WriteFailure ''fail-outbox-lookup''))
        | Some r \<Rightarrow>
            if \<not> io ''fail-intent-terminal'' then (db, Inl (WriteFailure ''fail-intent-terminal''))
            else commit_tx commit ''commit-fail'' db
              (db1\<lparr>db_intents := update_where (\<lambda>i. ci_IntentID i = ob_IntentID r)
                (\<lambda>i. i\<lparr>ci_Status := IntentSafeFailureTerminal, ci_FinalErrorClass := errClass,
                       ci_FinalSCode := sCode, ci_FinalSMsg := sMsg, ci_TerminalAt := now,
                       ci_Attempts := ci_Attempts i + 1\<rparr>) (db_intents db1)\<rparr>) ())"

definition lease_expired :: "time \<Rightarrow> OutboxRecord \<Rightarrow> bool" where
  "lease_expired now r \<longleftrightarrow> ob_Status r = OutboxLeased \<and> 0 < ob_LeaseUntil r \<and> ob_LeaseUntil r \<le> now"

definition RecoverExpiredLeases ::
  "bool \<Rightarrow> (string \<Rightarrow> bool) \<Rightarrow> time \<Rightarrow> DurableDB \<Rightarrow> DurableDB \<times> (persist_error + nat)" where
  "RecoverExpiredLeases isClosed io now db =
     (if isClosed then (db, Inl StoreClosed)
      else if \<not> io ''recover-leases'' then (db, Inl (WriteFailure ''recover-leases''))
      else (db\<lparr>db_outbox := update_where (lease_expired now)
              (\<lambda>q. q\<lparr>ob_Status := OutboxPending, ob_LeaseOwner := [], ob_LeaseUntil := 0, ob_UpdatedAt := now\<rparr>)
              (db_outbox db)\<rparr>,
            Inr (length (filter (lease_expired now) (map snd (db_outbox db))))))"

definition QueryOutboxByIntentID ::
  "bool \<Rightarrow> (string \<Rightarrow> bool) \<Rightarrow> string \<Rightarrow> DurableDB \<Rightarrow> persist_error + OutboxRecord option" where
  "QueryOutboxByIntentID isClosed io intentID db =
     (if isClosed then Inl StoreClosed
      else if \<not> io ''query-outbox'' then Inl (WriteFailure ''query-outbox'')
      else Inr (find (\<lambda>r. ob_IntentID r = intentID) (map snd (db_outbox db))))"

definition ScheduleRetry ::
  "bool \<Rightarrow> (string \<Rightarrow> bool) \<Rightarrow> string \<Rightarrow> time \<Rightarrow> FailureClass \<Rightarrow> time \<Rightarrow> DurableDB \<Rightarrow>
    DurableDB \<times> (persist_error + unit)" where
  "ScheduleRetry isClosed io outboxID nextAttempt errClass now db =
     (if isClosed then (db, Inl StoreClosed)
      else if \<not> io ''schedule-retry'' then (db, Inl (WriteFailure ''schedule-retry''))
      else (db\<lparr>db_outbox := update_where (\<lambda>q. ob_OutboxID q = outboxID)
              (\<lambda>q. q\<lparr>ob_Status := OutboxUncertain, ob_LeaseOwner := [], ob_LeaseUntil := 0,
                     ob_NextAttemptAt := nextAttempt, ob_AttemptCount := ob_AttemptCount q + 1,
                     ob_LastErrorClass := errClass, ob_UpdatedAt := now\<rparr>) (db_outbox db)\<rparr>, Inr ()))"

definition LoadRecoveryState ::
  "OutboxRecord slice_sort \<Rightarrow> bool \<Rightarrow> (string \<Rightarrow> bool) \<Rightarrow> DurableDB \<Rightarrow> persist_error + OutboxRecord list" where
  "LoadRecoveryState srt isClosed io db =
     (if isClosed then Inl StoreClosed
      else if \<not> io ''load-recovery'' then Inl (WriteFailure ''load-recovery'')
      else if \<not> io ''scan-recovery'' then Inl (WriteFailure ''scan-recovery'')
      else Inr (srt by_created (filter (\<lambda>r. ob_Status r = OutboxPending \<or> ob_Status r = OutboxLeased \<or>
             ob_Status r = OutboxUncertain) (map snd (db_outbox db)))))"

section \<open>The reconciliation watermark\<close>

definition LoadReconciliationWatermark ::
  "bool \<Rightarrow> (string \<Rightarrow> bool) \<Rightarrow> string \<Rightarrow> string \<Rightarrow> DurableDB \<Rightarrow>
    persist_error + ReconciliationWatermark option" where
  "LoadReconciliationWatermark isClosed io symbol stream db =
     (if isClosed then Inl StoreClosed
      else if \<not> io ''load-reconciliation-watermark''
      then Inl (WriteFailure ''load-reconciliation-watermark'')
      else Inr (map_of (db_recon db) (symbol, stream)))"

definition CommitReconciliationWatermark ::
  "bool \<Rightarrow> (string \<Rightarrow> bool) \<Rightarrow> commit_outcome \<Rightarrow> ReconciliationWatermark \<Rightarrow> DurableDB \<Rightarrow>
    DurableDB \<times> (persist_error + unit)" where
  "CommitReconciliationWatermark isClosed io commit wm db =
     (if isClosed then (db, Inl StoreClosed)
      else if \<not> io ''commit-watermark-begin'' then (db, Inl (WriteFailure ''commit-watermark-begin''))
      else if \<not> io ''commit-watermark-upsert'' then (db, Inl (WriteFailure ''commit-watermark-upsert''))
      else commit_tx commit ''commit-watermark'' db
        (db\<lparr>db_recon := AList.update (rw_Symbol wm, rw_Stream wm) wm (db_recon db)\<rparr>) ())"

section \<open>The store as a state machine\<close>

datatype store_op =
    OpObserve FillObservation CounterOrderPlan
  | OpClaim string
  | OpComplete string string
  | OpFail string FailureClass string string
  | OpRecover
  | OpRetry string time FailureClass
  | OpWatermark ReconciliationWatermark

text \<open>One call at time \<open>now\<close>, with what the database does during it; the outbox id it hands out.\<close>

record env =
  env_srt :: "OutboxRecord slice_sort"
  env_sha :: "string \<Rightarrow> string"
  env_dstr :: "decimal \<Rightarrow> string"
  env_lib :: declib

record call =
  c_now :: time
  c_closed :: bool
  c_io :: "string \<Rightarrow> bool"
  c_commit :: commit_outcome
  c_op :: store_op

definition run_call :: "env \<Rightarrow> call \<Rightarrow> DurableDB \<Rightarrow> DurableDB \<times> string option" where
  "run_call E c db =
     (let now = c_now c; io = c_io c; commit = c_commit c; cl = c_closed c in
      case c_op c of
        OpObserve obs plan \<Rightarrow> (fst (WithImmediateTx cl io commit
          (ObserveFill (env_sha E) (env_dstr E) (env_lib E) io obs plan now) db), None)
      | OpClaim w \<Rightarrow> (case ClaimOutbox (env_srt E) cl io commit w now db of
          (db', Inr (r, _)) \<Rightarrow> (db', Some (ob_OutboxID r)) | (db', Inl _) \<Rightarrow> (db', None))
      | OpComplete oid x \<Rightarrow> (fst (CompleteOutbox cl io commit oid x now db), None)
      | OpFail oid e sc sm \<Rightarrow> (fst (FailOutbox cl io commit oid e sc sm now db), None)
      | OpRecover \<Rightarrow> (fst (RecoverExpiredLeases cl io now db), None)
      | OpRetry oid t e \<Rightarrow> (fst (ScheduleRetry cl io oid t e now db), None)
      | OpWatermark wm \<Rightarrow> (fst (CommitReconciliationWatermark cl io commit wm db), None))"

fun run_calls :: "env \<Rightarrow> call list \<Rightarrow> DurableDB \<Rightarrow> DurableDB \<times> string option list" where
  "run_calls E [] db = (db, [])"
| "run_calls E (c # cs) db =
     (let (db1, x) = run_call E c db; (db2, xs) = run_calls E cs db1 in (db2, x # xs))"

inductive store_reachable :: "env \<Rightarrow> DurableDB \<Rightarrow> bool" for E where
  start: "store_reachable E empty_db"
| step: "store_reachable E db \<Longrightarrow> store_reachable E (fst (run_call E c db))"


section \<open>Statements keep the invariant\<close>

lemma update_where_simps [simp]:
  "map fst (update_where p f m) = map fst m"
  "map_of (update_where p f m) k = map_option (\<lambda>v. if p v then f v else v) (map_of m k)"
  "map snd (update_where p f m) = map (\<lambda>v. if p v then f v else v) (map snd m)"
  "map_wf (update_where p f m) = map_wf m"
  by (induction m) (auto simp: update_where_def map_wf_def image_iff)

lemma update_where_proj:
  "(\<And>v. g (f v) = g v) \<Longrightarrow> map (g \<circ> snd) (update_where p f m) = map (g \<circ> snd) m"
  by (induction m) (auto simp: update_where_def)

lemma durable_inv_outbox [inv_intros]:
  assumes "\<And>v. ob_OutboxID (f v) = ob_OutboxID v" and "\<And>v. ob_IntentID (f v) = ob_IntentID v"
    and "durable_inv db"
  shows "durable_inv (db\<lparr>db_outbox := update_where p f (db_outbox db)\<rparr>)"
  using assms(3) update_where_proj [of ob_OutboxID f p "db_outbox db"]
    update_where_proj [of ob_IntentID f p "db_outbox db"]
  by (simp add: assms(1,2) durable_inv_def ledger_inv_def grid_inv_def cover_inv_def watermark_def
      order_deltas_def grid_row_of_def side_count_def covered_def to_cover_def)

lemma durable_inv_intents [inv_intros]:
  assumes "\<And>i. ci_IntentID (f i) = ci_IntentID i"
    and "\<And>i. (ci_FillKey (f i), ci_Symbol (f i), ci_Quantity (f i)) = (ci_FillKey i, ci_Symbol i, ci_Quantity i)"
    and "durable_inv db"
  shows "durable_inv (db\<lparr>db_intents := update_where p f (db_intents db)\<rparr>)"
proof -
  let ?g = "\<lambda>i. (ci_FillKey i, ci_Symbol i, ci_Quantity i)"
  have "map ?g (map snd (update_where p f (db_intents db))) = map ?g (map snd (db_intents db))"
    using update_where_proj [of ?g f p "db_intents db", OF assms(2)] by (simp only: map_map)
  moreover have "db_intents (db\<lparr>db_intents := update_where p f (db_intents db)\<rparr>) =
      update_where p f (db_intents db)" by simp
  ultimately have "covered (db\<lparr>db_intents := update_where p f (db_intents db)\<rparr>) = covered db"
    by (simp only: covered_def)
  then show ?thesis
    using assms(3) update_where_proj [of ci_IntentID f p "db_intents db", OF assms(1)]
    by (simp add: durable_inv_def ledger_inv_def grid_inv_def cover_inv_def watermark_def
        order_deltas_def grid_row_of_def side_count_def to_cover_def)
qed

lemma durable_inv_both [inv_intros]:
  assumes "\<And>v. ob_OutboxID (f v) = ob_OutboxID v" and "\<And>v. ob_IntentID (f v) = ob_IntentID v"
    and "\<And>i. ci_IntentID (h i) = ci_IntentID i"
    and "\<And>i. (ci_FillKey (h i), ci_Symbol (h i), ci_Quantity (h i)) = (ci_FillKey i, ci_Symbol i, ci_Quantity i)"
    and "durable_inv db"
  shows "durable_inv (db\<lparr>db_outbox := update_where p f (db_outbox db),
    db_intents := update_where q h (db_intents db)\<rparr>)"
  using durable_inv_intents [of h "db\<lparr>db_outbox := update_where p f (db_outbox db)\<rparr>" q]
    durable_inv_outbox [of f db p] assms by simp

lemma durable_inv_recon [inv_intros]:
  "durable_inv (db\<lparr>db_recon := m\<rparr>) = durable_inv db"
  by (simp add: durable_inv_def ledger_inv_def grid_inv_def cover_inv_def watermark_def
      order_deltas_def grid_row_of_def side_count_def covered_def to_cover_def)

lemma commit_tx_inv [inv_intros]:
  "durable_inv db \<Longrightarrow> durable_inv db' \<Longrightarrow> durable_inv (fst (commit_tx commit op db db' x))"
  by (simp add: commit_tx_def split: commit_outcome.split)

lemma commit_tx_cases: "fst (commit_tx commit op db db' x) \<in> {db, db'}"
  by (simp add: commit_tx_def split: commit_outcome.split)

lemma WithImmediateTx_cases:
  "fst (WithImmediateTx cl io commit fn db) = db \<or>
    (\<exists>x. fn db = Inr (fst (WithImmediateTx cl io commit fn db), x))"
  by (auto simp: WithImmediateTx_def split: sum.split commit_outcome.split)

lemma lease_row_ids [simp]:
  "ob_OutboxID (lease_row w t r) = ob_OutboxID r" "ob_IntentID (lease_row w t r) = ob_IntentID r"
  by (simp_all add: lease_row_def)

lemma ClaimOutbox_inv [inv_intros]:
  "durable_inv db \<Longrightarrow> durable_inv (fst (ClaimOutbox srt cl io commit w now db))"
  by (auto simp: ClaimOutbox_def Let_def split: list.split option.split intro!: inv_intros)

lemma CompleteOutbox_inv [inv_intros]:
  "durable_inv db \<Longrightarrow> durable_inv (fst (CompleteOutbox cl io commit oid x now db))"
  by (auto simp: CompleteOutbox_def Let_def split: option.split
      intro!: commit_tx_inv durable_inv_both)

lemma FailOutbox_inv [inv_intros]:
  "durable_inv db \<Longrightarrow> durable_inv (fst (FailOutbox cl io commit oid e sc sm now db))"
  by (auto simp: FailOutbox_def Let_def split: option.split
      intro!: commit_tx_inv durable_inv_both)

lemma run_call_inv:
  assumes "declib_ok (env_lib E)" and "durable_inv db"
  shows "durable_inv (fst (run_call E c db))"
proof (cases "c_op c")
  case (OpObserve obs plan)
  then show ?thesis
    using assms WithImmediateTx_cases [of "c_closed c" "c_io c" "c_commit c"
        "ObserveFill (env_sha E) (env_dstr E) (env_lib E) (c_io c) obs plan (c_now c)" db]
    by (auto simp: run_call_def Let_def intro: ObserveFill_inv)
next
  case (OpClaim w)
  have "fst (run_call E c db) = fst (ClaimOutbox (env_srt E) (c_closed c) (c_io c) (c_commit c) w (c_now c) db)"
    by (simp add: run_call_def Let_def OpClaim split: prod.split sum.split)
  then show ?thesis using assms by (simp add: ClaimOutbox_inv)
next
  case OpRecover
  then show ?thesis
    using assms by (auto simp: run_call_def Let_def RecoverExpiredLeases_def intro!: durable_inv_outbox)
next
  case (OpRetry oid t e)
  then show ?thesis
    using assms by (auto simp: run_call_def Let_def ScheduleRetry_def intro!: durable_inv_outbox)
next
  case (OpWatermark wm)
  then show ?thesis
    using assms by (auto simp: run_call_def Let_def CommitReconciliationWatermark_def durable_inv_recon intro!: commit_tx_inv)
qed (use assms in \<open>simp_all add: run_call_def Let_def CompleteOutbox_inv FailOutbox_inv\<close>)

lemma store_reachable_inv:
  "store_reachable E db \<Longrightarrow> declib_ok (env_lib E) \<Longrightarrow> durable_inv db"
  by (induction rule: store_reachable.induct) (auto intro: run_call_inv empty_db_inv)


section \<open>Held entries\<close>

text \<open>The entry is leased until \<open>d\<close> (when \<open>L\<close>) or in a terminal status.\<close>

definition holding :: "bool \<Rightarrow> time \<Rightarrow> string \<Rightarrow> OutboxRecord \<Rightarrow> bool" where
  "holding L d oid r \<longleftrightarrow> ob_OutboxID r = oid \<and>
     (L \<and> ob_Status r = OutboxLeased \<and> ob_LeaseUntil r = d \<or>
      ob_Status r = OutboxCompleted \<or> ob_Status r = OutboxFailed)"

definition held :: "bool \<Rightarrow> time \<Rightarrow> string \<Rightarrow> DurableDB \<Rightarrow> bool" where
  "held L d oid db \<longleftrightarrow> (\<exists>r. map_of (db_outbox db) oid = Some r \<and> holding L d oid r)"

lemma outbox_keyed:
  assumes "cover_inv db" and "r \<in> set (map snd (db_outbox db))"
  shows "map_of (db_outbox db) (ob_OutboxID r) = Some r"
proof -
  from assms(2) obtain k where kr: "(k, r) \<in> set (db_outbox db)" by auto
  have "map fst (db_outbox db) = map (ob_OutboxID \<circ> snd) (db_outbox db)" "map_wf (db_outbox db)"
    using assms(1) by (simp_all add: cover_inv_def)
  moreover from this(1) kr have "k = ob_OutboxID r" by (fastforce dest: map_eq_conv [THEN iffD1])
  ultimately show ?thesis using kr by (simp add: map_wf_def)
qed

lemma held_not_ready: "held L d oid db \<Longrightarrow> cover_inv db \<Longrightarrow> r \<in> set (map snd (db_outbox db)) \<Longrightarrow>
    ob_OutboxID r = oid \<Longrightarrow> \<not> outbox_ready now r"
  using outbox_keyed [of db r] by (auto simp: held_def holding_def outbox_ready_def)

lemma held_outbox_mono:
  assumes "held L d oid db" and "\<And>r. map_of (db_outbox db) oid = Some r \<Longrightarrow> map_of (db_outbox db') oid = Some r"
  shows "held L d oid db'"
  using assms by (auto simp: held_def)

lemma held_update:
  assumes "held L d oid db" and "db_outbox db' = update_where p f (db_outbox db)"
    and step: "\<And>r. p r \<Longrightarrow> holding L d oid r \<Longrightarrow> holding L d oid (f r)"
  shows "held L d oid db'"
proof -
  from assms(1) obtain r where "map_of (db_outbox db) oid = Some r" "holding L d oid r"
    by (auto simp: held_def)
  then show ?thesis
    unfolding held_def assms(2) by (cases "p r") (auto intro: step)
qed

lemma ObserveFill_outbox:
  assumes "ObserveFill sha dstr L io obs plan now db = Inr (db', r)" and "map_of (db_outbox db) oid = Some x"
  shows "map_of (db_outbox db') oid = Some x"
proof (cases "fr_Duplicate r")
  case True
  with assms show ?thesis by (auto elim: ObserveFill_effect)
next
  case False
  from observe_recorded [OF assms(1) False] assms(2) show ?thesis
    by (auto simp: fill_recorded_def map_add_Some_iff split: if_splits option.splits prod.splits)
qed

lemma claim_effect:
  assumes "ClaimOutbox srt cl io commit w now db = (db', res)"
  shows "(db' = db \<and> (\<forall>x. res \<noteq> Inr x)) \<or> (\<exists>r. r \<in> set (srt by_next_attempt (filter (outbox_ready now) (map snd (db_outbox db)))) \<and>
      db' = db\<lparr>db_outbox := update_where
                  (\<lambda>q. ob_OutboxID q = ob_OutboxID r \<and> (ob_LeaseUntil q \<le> now \<or> ob_LeaseOwner q = []))
                  (lease_row w now) (db_outbox db)\<rparr> \<and>
      (case res of Inr (r', i) \<Rightarrow> r' = lease_row w now r \<and>
          (\<exists>i'. map_of (db_intents db) (ob_IntentID r) = Some i' \<and> i = i'\<lparr>ci_FillKey := []\<rparr>)
        | Inl e \<Rightarrow> IsCriticalCommitUncertain e))"
  using assms
  by (auto simp: ClaimOutbox_def Let_def commit_tx_def IsCriticalCommitUncertain_def
      split: if_splits list.splits option.splits commit_outcome.splits sum.splits)

lemma run_call_held:
  assumes "held L d oid db" and "durable_inv db" and "slice_sort_ok (env_srt E) by_next_attempt"
    and "L \<longrightarrow> c_now c < d" and "\<forall>t e. c_op c \<noteq> OpRetry oid t e"
  shows "held L d oid (fst (run_call E c db)) \<and> snd (run_call E c db) \<noteq> Some oid"
proof (cases "c_op c")
  case (OpObserve obs plan)
  let ?fn = "ObserveFill (env_sha E) (env_dstr E) (env_lib E) (c_io c) obs plan (c_now c)"
  let ?db' = "fst (WithImmediateTx (c_closed c) (c_io c) (c_commit c) ?fn db)"
  have "?db' = db \<or> (\<exists>x. ?fn db = Inr (?db', x))" by (rule WithImmediateTx_cases)
  then have "held L d oid ?db'"
  proof
    assume "\<exists>x. ?fn db = Inr (?db', x)"
    then obtain x where "?fn db = Inr (?db', x)" by blast
    from ObserveFill_outbox [OF this] assms(1) show ?thesis by (rule held_outbox_mono [rotated])
  qed (use assms(1) in simp)
  then show ?thesis by (simp add: run_call_def OpObserve Let_def)
next
  case (OpClaim w)
  obtain db' res where cl: "ClaimOutbox (env_srt E) (c_closed c) (c_io c) (c_commit c) w (c_now c) db = (db', res)"
    by (meson surj_pair)
  have mem: "r \<in> set (map snd (db_outbox db)) \<and> outbox_ready (c_now c) r"
    if "r \<in> set (env_srt E by_next_attempt (filter (outbox_ready (c_now c)) (map snd (db_outbox db))))" for r
  proof -
    have "set (env_srt E by_next_attempt (filter (outbox_ready (c_now c)) (map snd (db_outbox db)))) =
        set (filter (outbox_ready (c_now c)) (map snd (db_outbox db)))"
      using assms(3) by (metis set_mset_mset slice_sort_ok_def)
    with that show ?thesis by auto
  qed
  have "cover_inv db" using assms(2) by (simp add: durable_inv_def)
  note nr = held_not_ready [OF assms(1) this]
  have upd: "held L d oid (db\<lparr>db_outbox := update_where
      (\<lambda>q. ob_OutboxID q = ob_OutboxID r \<and> (ob_LeaseUntil q \<le> c_now c \<or> ob_LeaseOwner q = []))
      (lease_row w (c_now c)) (db_outbox db)\<rparr>)" if "ob_OutboxID r \<noteq> oid" for r
    by (rule held_update [OF assms(1)], simp) (use that in \<open>simp add: holding_def\<close>)
  from claim_effect [OF cl] have "held L d oid db' \<and> (\<forall>r i. res = Inr (r, i) \<longrightarrow> ob_OutboxID r \<noteq> oid)"
  proof (elim disjE exE conjE)
    fix r
    assume r: "r \<in> set (env_srt E by_next_attempt (filter (outbox_ready (c_now c)) (map snd (db_outbox db))))"
      and db': "db' = db\<lparr>db_outbox := update_where
          (\<lambda>q. ob_OutboxID q = ob_OutboxID r \<and> (ob_LeaseUntil q \<le> c_now c \<or> ob_LeaseOwner q = []))
          (lease_row w (c_now c)) (db_outbox db)\<rparr>"
      and res: "case res of Inr (r', i) \<Rightarrow> r' = lease_row w (c_now c) r \<and>
          (\<exists>i'. map_of (db_intents db) (ob_IntentID r) = Some i' \<and> i = i'\<lparr>ci_FillKey := []\<rparr>)
        | Inl e \<Rightarrow> IsCriticalCommitUncertain e"
    have ne: "ob_OutboxID r \<noteq> oid" using mem [OF r] nr by blast
    with upd [OF ne] res show ?thesis unfolding db' by auto
  qed (use assms(1) in auto)
  then show ?thesis
    by (auto simp: run_call_def OpClaim cl Let_def split: sum.split)
next
  case (OpComplete o2 x)
  have "held L d oid (fst (CompleteOutbox (c_closed c) (c_io c) (c_commit c) o2 x (c_now c) db))"
    using assms(1)
    by (auto simp: CompleteOutbox_def Let_def commit_tx_def split: option.split commit_outcome.split
        simp: holding_def intro: held_update [OF assms(1)])
  then show ?thesis by (simp add: run_call_def OpComplete Let_def)
next
  case (OpFail o2 e sc sm)
  have "held L d oid (fst (FailOutbox (c_closed c) (c_io c) (c_commit c) o2 e sc sm (c_now c) db))"
    using assms(1)
    by (auto simp: FailOutbox_def Let_def commit_tx_def split: option.split commit_outcome.split
        simp: holding_def intro: held_update [OF assms(1)])
  then show ?thesis by (simp add: run_call_def OpFail Let_def)
next
  case OpRecover
  have "held L d oid (fst (RecoverExpiredLeases (c_closed c) (c_io c) (c_now c) db))"
    using assms(1,4)
    by (auto simp: RecoverExpiredLeases_def lease_expired_def holding_def intro: held_update [OF assms(1)])
  then show ?thesis by (simp add: run_call_def OpRecover Let_def)
next
  case (OpRetry o2 t e)
  with assms(5) have "o2 \<noteq> oid" by auto
  then have "held L d oid (fst (ScheduleRetry (c_closed c) (c_io c) o2 t e (c_now c) db))"
    using assms(1) by (auto simp: ScheduleRetry_def holding_def intro: held_update [OF assms(1)])
  then show ?thesis by (simp add: run_call_def OpRetry Let_def)
next
  case (OpWatermark wm)
  have "held L d oid (fst (CommitReconciliationWatermark (c_closed c) (c_io c) (c_commit c) wm db))"
    using assms(1)
    by (auto simp: CommitReconciliationWatermark_def commit_tx_def split: commit_outcome.split
        intro: held_outbox_mono)
  then show ?thesis by (simp add: run_call_def OpWatermark Let_def)
qed

lemma run_calls_held:
  assumes "slice_sort_ok (env_srt E) by_next_attempt" and "declib_ok (env_lib E)"
  shows "held L d oid db \<Longrightarrow> durable_inv db \<Longrightarrow>
    \<forall>c \<in> set cs. (L \<longrightarrow> c_now c < d) \<and> (\<forall>t e. c_op c \<noteq> OpRetry oid t e) \<Longrightarrow>
    Some oid \<notin> set (snd (run_calls E cs db))"
proof (induction cs arbitrary: db)
  case (Cons c cs)
  have "held L d oid (fst (run_call E c db)) \<and> snd (run_call E c db) \<noteq> Some oid"
    using Cons.prems assms(1) by (intro run_call_held) auto
  moreover have "durable_inv (fst (run_call E c db))"
    using run_call_inv [OF assms(2) Cons.prems(2)] .
  ultimately show ?case
    using Cons.IH [of "fst (run_call E c db)"] Cons.prems(3)
    by (auto split: prod.split)
qed simp


lemma claim_head:
  assumes "slice_sort_ok srt by_next_attempt"
    and "srt by_next_attempt (filter (outbox_ready now) xs) = r # rs"
  shows "r \<in> set xs \<and> outbox_ready now r \<and>
    (\<forall>q \<in> set xs. outbox_ready now q \<longrightarrow> ob_NextAttemptAt r \<le> ob_NextAttemptAt q)"
proof -
  have s: "set (r # rs) = set (filter (outbox_ready now) xs)"
    "sorted_wrt (\<lambda>a b. \<not> by_next_attempt b a) (r # rs)"
    using assms by (metis set_mset_mset slice_sort_ok_def)+
  then show ?thesis by (force simp: by_next_attempt_def not_less set_eq_iff)
qed

lemma claim_empty:
  assumes "slice_sort_ok srt by_next_attempt"
  shows "srt by_next_attempt (filter (outbox_ready now) xs) = [] \<longleftrightarrow> (\<forall>q \<in> set xs. \<not> outbox_ready now q)"
proof -
  have "mset (srt by_next_attempt (filter (outbox_ready now) xs)) = mset (filter (outbox_ready now) xs)"
    using assms by (simp only: slice_sort_ok_def)
  then have "srt by_next_attempt (filter (outbox_ready now) xs) = [] \<longleftrightarrow> filter (outbox_ready now) xs = []"
    by (metis mset_zero_iff)
  then show ?thesis by (simp add: filter_empty_conv)
qed

lemma mset_short: "mset xs = mset ys \<Longrightarrow> length ys \<le> 1 \<Longrightarrow> xs = ys"
  by (cases ys) auto

lemma filter_keyed:
  assumes "map_wf m" and "\<forall>(k', r) \<in> set m. g r = k'"
  shows "filter (\<lambda>r. P r \<and> g r = k) (map snd m) =
    (case map_of m k of None \<Rightarrow> [] | Some r \<Rightarrow> if P r then [r] else [])"
  using assms
proof (induction m)
  case (Cons x m)
  obtain kx rx where x: "x = (kx, rx)" by (cases x)
  have "map_of m kx = None" using Cons.prems(1) by (auto simp: map_wf_def x map_of_eq_None_iff)
  with Cons show ?case by (auto simp: x map_wf_def)
qed simp

lemma isort_by_next_attempt: "slice_sort_ok isort by_next_attempt"
  by (rule isort_ok) (auto simp: by_next_attempt_def)

lemma commit_tx_Inr: "commit_tx commit op db db' x = (d, Inr y) \<longleftrightarrow> commit = CommitOk \<and> d = db' \<and> y = x"
  by (auto simp: commit_tx_def split: commit_outcome.splits)

lemma claimed_held:
  assumes "durable_inv db" and "slice_sort_ok srt by_next_attempt"
    and "ClaimOutbox srt cl io commit w now db = (db', Inr (r, i))"
  shows "held True (now + OutboxLeaseTimeout) (ob_OutboxID r) db'"
proof -
  from assms(3) obtain q qs where q: "srt by_next_attempt (filter (outbox_ready now) (map snd (db_outbox db))) = q # qs"
    and r: "r = lease_row w now q"
    and db': "db_outbox db' = update_where
        (\<lambda>x. ob_OutboxID x = ob_OutboxID q \<and> (ob_LeaseUntil x \<le> now \<or> ob_LeaseOwner x = []))
        (lease_row w now) (db_outbox db)"
    by (auto simp: ClaimOutbox_def Let_def commit_tx_Inr split: if_splits list.splits option.splits)
  from claim_head [OF assms(2) q] have "q \<in> set (map snd (db_outbox db))" "outbox_ready now q" by auto
  then have "map_of (db_outbox db) (ob_OutboxID q) = Some q" "outbox_ready now q"
    using outbox_keyed assms(1) by (auto simp: durable_inv_def)
  then show ?thesis
    by (auto simp: held_def db' r holding_def outbox_ready_def lease_row_def)
qed

section \<open>Properties\<close>

text \<open>C1: over any run of the store from an empty database - fills in any order and number, claims,
  completions, failures, retries and recoveries, with any statement failing and any commit
  uncertain - every eligible BUY fill of the ledger is covered by exactly one counter order intent,
  for its symbol and for exactly the newly filled quantity, and no other fill has an intent: nothing
  is sold twice and nothing bought is left without its sell.\<close>

theorem every_buy_covered_once:
  assumes "declib_ok (env_lib E)" and "store_reachable E db"
  shows "map (\<lambda>i. (ci_Symbol i, ci_Quantity i)) (filter (\<lambda>i. ci_FillKey i = k) (map snd (db_intents db))) =
    (case map_of (db_fill_ledger db) k of
       None \<Rightarrow> []
     | Some r \<Rightarrow> if eligible_buy r then [(fl_Symbol r, fl_DeltaQuantity r)] else [])"
proof -
  have inv: "ledger_inv db" "cover_inv db"
    using store_reachable_inv [OF assms(2,1)] by (simp_all add: durable_inv_def)
  let ?pick = "\<lambda>M. image_mset snd (filter_mset (\<lambda>x. fst x = k) M)"
  have "mset (map (\<lambda>i. (ci_Symbol i, ci_Quantity i)) (filter (\<lambda>i. ci_FillKey i = k) (map snd (db_intents db)))) =
      ?pick (covered db)"
    by (simp add: covered_def filter_mset_image_mset image_mset.compositionality comp_def)
  also have "\<dots> = ?pick (to_cover db)" using inv(2) by (simp add: cover_inv_def)
  also have "\<dots> = mset (map (\<lambda>r. (fl_Symbol r, fl_DeltaQuantity r))
      (filter (\<lambda>r. eligible_buy r \<and> fl_FillKey r = k) (map snd (db_fill_ledger db))))"
    by (simp add: to_cover_def filter_mset_image_mset filter_filter_mset image_mset.compositionality comp_def
        conj_commute)
  also have "filter (\<lambda>r. eligible_buy r \<and> fl_FillKey r = k) (map snd (db_fill_ledger db)) =
      (case map_of (db_fill_ledger db) k of None \<Rightarrow> [] | Some r \<Rightarrow> if eligible_buy r then [r] else [])"
    using inv(1) by (intro filter_keyed) (auto simp: ledger_inv_def)
  finally show ?thesis
    by (rule mset_short [THEN trans]) (simp_all split: option.split)
qed

definition demo_env :: env where
  "demo_env = \<lparr>env_srt = isort, env_sha = id, env_dstr = (\<lambda>_. ''2''), env_lib = std_declib\<rparr>"

definition demo_call :: "time \<Rightarrow> store_op \<Rightarrow> call" where
  "demo_call t c = \<lparr>c_now = t, c_closed = False, c_io = (\<lambda>_. True), c_commit = CommitOk, c_op = c\<rparr>"

definition demo_db :: DurableDB where
  "demo_db = fst (run_call demo_env (demo_call 7 (OpObserve demo_obs demo_plan)) empty_db)"

lemma demo_reachable: "store_reachable demo_env demo_db"
  unfolding demo_db_def by (intro store_reachable.intros)

lemma demo_env_ok: "declib_ok (env_lib demo_env)" "slice_sort_ok (env_srt demo_env) by_next_attempt"
  by (simp_all add: demo_env_def std_declib_ok isort_by_next_attempt)

theorem every_buy_covered_once_witness:
  "\<exists>k. map (\<lambda>i. (ci_Symbol i, ci_Quantity i)) (filter (\<lambda>i. ci_FillKey i = k) (map snd (db_intents demo_db))) =
    [(''BTC'', 2)]"
proof -
  have "case db_fill_ledger demo_db of
      (k, r) # _ \<Rightarrow> eligible_buy r \<and> fl_Symbol r = ''BTC'' \<and> fl_DeltaQuantity r = 2 | [] \<Rightarrow> False"
    by code_simp
  then obtain k r rs where "db_fill_ledger demo_db = (k, r) # rs" "eligible_buy r" "fl_Symbol r = ''BTC''"
    "fl_DeltaQuantity r = 2"
    by (auto split: list.splits prod.splits)
  with every_buy_covered_once [OF demo_env_ok(1) demo_reachable, of k] show ?thesis
    by (intro exI [of _ k]) simp
qed


text \<open>C37: over any such run the watermark of an exchange order is exactly the sum of the quantities
  recorded for it, and a symbol's grid state has a position and an average entry price that are
  never negative and trade counters that equal the numbers of its BUY and SELL rows in the ledger:
  the state can be rebuilt from the ledger.\<close>

theorem ledger_accounts_for_state:
  assumes "declib_ok (env_lib E)" and "store_reachable E db"
  shows "watermark db s oid = sum_list (map fl_DeltaQuantity (filter (\<lambda>r. fl_Symbol r = s \<and>
      fl_ExchangeOrderID r = oid) (map snd (db_fill_ledger db)))) \<and>
    (case map_of (db_grid_state db) s of
       None \<Rightarrow> side_count db s SideBuy = 0 \<and> side_count db s SideSell = 0
     | Some gs \<Rightarrow> 0 \<le> gs_Position gs \<and> 0 \<le> gs_AvgEntryPrice gs \<and>
         gs_TotalBuys gs = int (side_count db s SideBuy) \<and>
         gs_TotalSells gs = int (side_count db s SideSell))"
proof -
  have inv: "ledger_inv db" "grid_inv db"
    using store_reachable_inv [OF assms(2,1)] by (simp_all add: durable_inv_def)
  then have "watermark db s oid = order_deltas db s oid"
    and g: "0 \<le> gs_Position (grid_row_of db s) \<and> 0 \<le> gs_AvgEntryPrice (grid_row_of db s) \<and>
     gs_TotalBuys (grid_row_of db s) = int (side_count db s SideBuy) \<and>
     gs_TotalSells (grid_row_of db s) = int (side_count db s SideSell)"
    by (simp_all only: ledger_inv_def grid_inv_def)
  moreover have "case map_of (db_grid_state db) s of
       None \<Rightarrow> side_count db s SideBuy = 0 \<and> side_count db s SideSell = 0
     | Some gs \<Rightarrow> 0 \<le> gs_Position gs \<and> 0 \<le> gs_AvgEntryPrice gs \<and>
         gs_TotalBuys gs = int (side_count db s SideBuy) \<and>
         gs_TotalSells gs = int (side_count db s SideSell)"
    using g by (cases "map_of (db_grid_state db) s") (simp_all add: grid_row_of_def)
  ultimately show ?thesis by (simp only: order_deltas_def)
qed

theorem ledger_accounts_for_state_witness: "watermark demo_db ''BTC'' ''17'' = 2"
proof -
  have "sum_list (map fl_DeltaQuantity (filter (\<lambda>r. fl_Symbol r = ''BTC'' \<and>
      fl_ExchangeOrderID r = ''17'') (map snd (db_fill_ledger demo_db)))) = 2"
    by code_simp
  with ledger_accounts_for_state [OF demo_env_ok(1) demo_reachable, of "''BTC''" "''17''"] show ?thesis by simp
qed

text \<open>C14: a lease is exclusive. After a worker has claimed an entry at time \<open>t\<close>, no call of any worker
  made before \<open>t\<close> plus ten seconds is handed the same entry, whatever other calls run in between
  (fills, claims, completions, failures, recoveries), unless a retry of this entry is scheduled.\<close>

theorem lease_is_exclusive:
  assumes "declib_ok (env_lib E)" and "slice_sort_ok (env_srt E) by_next_attempt" and "store_reachable E db"
    and "c_op c = OpClaim w" and "run_call E c db = (db', Some oid)"
    and "\<forall>c' \<in> set cs. c_now c' < c_now c + OutboxLeaseTimeout \<and> (\<forall>t e. c_op c' \<noteq> OpRetry oid t e)"
  shows "Some oid \<notin> set (snd (run_calls E cs db'))"
proof -
  have inv: "durable_inv db" using store_reachable_inv [OF assms(3,1)] .
  obtain d2 res where cl: "ClaimOutbox (env_srt E) (c_closed c) (c_io c) (c_commit c) w (c_now c) db = (d2, res)"
    by (meson surj_pair)
  with assms(4,5) obtain r i where "res = Inr (r, i)" "d2 = db'" "ob_OutboxID r = oid"
    by (auto simp: run_call_def Let_def split: sum.splits prod.splits)
  with claimed_held [OF inv assms(2)] cl have "held True (c_now c + OutboxLeaseTimeout) oid db'" by blast
  moreover have "durable_inv db'" using run_call_inv [OF assms(1) inv, of c] assms(5) by simp
  ultimately show ?thesis
    using run_calls_held [OF assms(2,1)] assms(6) by blast
qed

theorem lease_is_exclusive_witness:
  "\<exists>oid db'. run_call demo_env (demo_call 8 (OpClaim ''w1'')) demo_db = (db', Some oid) \<and>
     Some oid \<notin> set (snd (run_calls demo_env [demo_call 9 OpRecover, demo_call 10 (OpClaim ''w2'')] db'))"
proof -
  let ?c = "demo_call 8 (OpClaim ''w1'')"
  have "snd (run_call demo_env ?c demo_db) \<noteq> None" by code_simp
  then obtain oid db' where r: "run_call demo_env ?c demo_db = (db', Some oid)"
    by (cases "run_call demo_env ?c demo_db") auto
  have "c_op ?c = OpClaim ''w1''" by (simp add: demo_call_def)
  from lease_is_exclusive [OF demo_env_ok demo_reachable this r,
      of "[demo_call 9 OpRecover, demo_call 10 (OpClaim ''w2'')]"] r show ?thesis
    by (auto simp: demo_call_def OutboxLeaseTimeout_def)
qed

text \<open>What a claim does, on every branch: it hands out a ready entry with the earliest next attempt
  and the intent it belongs to, and leases exactly that row for ten seconds; it reports no work only
  if no entry is ready; and an error leaves the database as it was, unless the commit was uncertain.\<close>

theorem ClaimOutbox_spec:
  assumes "slice_sort_ok srt by_next_attempt" and "store_reachable E db" and "declib_ok (env_lib E)"
    and "ClaimOutbox srt isClosed io commit w now db = (db', res)"
  shows "case res of
      Inr (r, i) \<Rightarrow> w \<noteq> [] \<and> (\<exists>q. map_of (db_outbox db) (ob_OutboxID r) = Some q \<and> outbox_ready now q \<and>
        (\<forall>q' \<in> set (map snd (db_outbox db)). outbox_ready now q' \<longrightarrow> ob_NextAttemptAt q \<le> ob_NextAttemptAt q') \<and>
        r = q\<lparr>ob_LeaseOwner := w, ob_LeaseUntil := now + 10 * 1000000000, ob_Status := OutboxLeased,
          ob_UpdatedAt := now\<rparr> \<and> ci_IntentID i = ob_IntentID q \<and>
        map_of (db_outbox db') = (map_of (db_outbox db))(ob_OutboxID r \<mapsto> r))
    | Inl ErrNoOutboxWork \<Rightarrow> db' = db \<and> (\<forall>q \<in> set (map snd (db_outbox db)). \<not> outbox_ready now q)
    | Inl e \<Rightarrow> db' = db \<or> IsCriticalCommitUncertain e"
proof (cases res)
  case (Inl e)
  with assms(4) show ?thesis
    using claim_empty [OF assms(1), of now "map snd (db_outbox db)"]
    by (auto simp: ClaimOutbox_def Let_def commit_tx_def IsCriticalCommitUncertain_def
        split: if_splits list.splits option.splits commit_outcome.splits persist_error.splits)
next
  case (Inr p)
  obtain r i where p: "p = (r, i)" by (cases p)
  from assms(4) Inr p obtain q qs i0 where
    q: "srt by_next_attempt (filter (outbox_ready now) (map snd (db_outbox db))) = q # qs"
    and r: "r = lease_row w now q" and w: "w \<noteq> []" and i: "map_of (db_intents db) (ob_IntentID q) = Some i0"
      "i = i0\<lparr>ci_FillKey := []\<rparr>"
    and db': "db_outbox db' = update_where
        (\<lambda>x. ob_OutboxID x = ob_OutboxID q \<and> (ob_LeaseUntil x \<le> now \<or> ob_LeaseOwner x = []))
        (lease_row w now) (db_outbox db)"
    by (auto simp: ClaimOutbox_def Let_def commit_tx_Inr split: if_splits list.splits option.splits)
  have cov: "cover_inv db" using store_reachable_inv [OF assms(2,3)] by (simp add: durable_inv_def)
  note h = claim_head [OF assms(1) q]
  have k: "map_of (db_outbox db) (ob_OutboxID q) = Some q"
    using h outbox_keyed [OF cov] by blast
  have own: "ob_OutboxID v = x" if "map_of (db_outbox db) x = Some v" for x v
  proof -
    have "map fst (db_outbox db) = map (ob_OutboxID \<circ> snd) (db_outbox db)" using cov by (simp add: cover_inv_def)
    with map_of_SomeD [OF that] show ?thesis by (fastforce dest: map_eq_conv [THEN iffD1])
  qed
  have intent: "ci_IntentID i0 = ob_IntentID q"
  proof -
    have "map fst (db_intents db) = map (ci_IntentID \<circ> snd) (db_intents db)" using cov by (simp add: cover_inv_def)
    with map_of_SomeD [OF i(1)] show ?thesis by (fastforce dest: map_eq_conv [THEN iffD1])
  qed
  have "map_of (db_outbox db') = (map_of (db_outbox db))(ob_OutboxID q \<mapsto> r)"
  proof
    fix x
    show "map_of (db_outbox db') x = ((map_of (db_outbox db))(ob_OutboxID q \<mapsto> r)) x"
    proof (cases "x = ob_OutboxID q")
      case True
      have "ob_LeaseUntil q \<le> now \<or> ob_LeaseOwner q = []" using h by (simp add: outbox_ready_def)
      with True k show ?thesis by (simp add: db' r)
    next
      case False
      then have "ob_OutboxID v \<noteq> ob_OutboxID q" if "map_of (db_outbox db) x = Some v" for v
        using own [OF that] by simp
      with False show ?thesis by (cases "map_of (db_outbox db) x") (simp_all add: db')
    qed
  qed
  moreover have id: "ob_OutboxID r = ob_OutboxID q" by (simp add: r)
  ultimately have upd: "map_of (db_outbox db') = (map_of (db_outbox db))(ob_OutboxID r \<mapsto> r)"
    by (simp only: id)
  show ?thesis unfolding Inr p sum.case prod.case
  proof (intro conjI exI [of _ q])
    show "map_of (db_outbox db) (ob_OutboxID r) = Some q" by (simp only: id k)
    show "r = q\<lparr>ob_LeaseOwner := w, ob_LeaseUntil := now + 10 * 1000000000, ob_Status := OutboxLeased,
        ob_UpdatedAt := now\<rparr>"
      by (simp add: r lease_row_def OutboxLeaseTimeout_def)
    show "ci_IntentID i = ob_IntentID q" by (simp add: i intent)
  qed (rule w upd h [THEN conjunct2, THEN conjunct1] h [THEN conjunct2, THEN conjunct2])+
qed

theorem ClaimOutbox_spec_witness:
  "\<exists>db' r i. ClaimOutbox isort False (\<lambda>_. True) CommitOk ''w1'' 8 demo_db = (db', Inr (r, i)) \<and>
     map_of (db_outbox db') = (map_of (db_outbox demo_db))(ob_OutboxID r \<mapsto> r)"
proof -
  let ?c = "ClaimOutbox isort False (\<lambda>_. True) CommitOk ''w1'' 8 demo_db"
  have "case snd ?c of Inl _ \<Rightarrow> False | Inr _ \<Rightarrow> True" by code_simp
  then obtain db' r i where c: "?c = (db', Inr (r, i))"
    by (cases ?c) (auto split: sum.splits)
  from ClaimOutbox_spec [OF isort_by_next_attempt demo_reachable demo_env_ok(1) c] c show ?thesis by auto
qed

text \<open>No entry is stranded by a crashed worker: once a lease has run out, recovering the expired
  leases makes the entry ready again, and the next claim whose statements succeed is handed work.\<close>

theorem expired_lease_is_reclaimed:
  assumes "slice_sort_ok srt by_next_attempt" and "store_reachable E db" and "declib_ok (env_lib E)"
    and "map_of (db_outbox db) oid = Some r" and "ob_Status r = OutboxLeased" and "0 < ob_LeaseUntil r"
    and "ob_LeaseUntil r \<le> now" and "ob_NextAttemptAt r \<le> now" and "w \<noteq> []"
    and "RecoverExpiredLeases False (\<lambda>_. True) now db = (db1, Inr n)"
  shows "1 \<le> n \<and> (\<exists>db2 q i. ClaimOutbox srt False (\<lambda>_. True) CommitOk w now db1 = (db2, Inr (q, i)))"
proof -
  have db1: "db1 = db\<lparr>db_outbox := update_where (lease_expired now)
      (\<lambda>q. q\<lparr>ob_Status := OutboxPending, ob_LeaseOwner := [], ob_LeaseUntil := 0, ob_UpdatedAt := now\<rparr>) (db_outbox db)\<rparr>"
    and n: "n = length (filter (lease_expired now) (map snd (db_outbox db)))"
    using assms(10) by (auto simp: RecoverExpiredLeases_def)
  have ex: "lease_expired now r" using assms by (simp add: lease_expired_def)
  have rin: "r \<in> set (map snd (db_outbox db))" using map_of_SomeD [OF assms(4)] by force
  with ex have "filter (lease_expired now) (map snd (db_outbox db)) \<noteq> []" by (auto simp: filter_empty_conv)
  then have "1 \<le> n" unfolding n by (cases "filter (lease_expired now) (map snd (db_outbox db))") auto
  let ?r = "r\<lparr>ob_Status := OutboxPending, ob_LeaseOwner := [], ob_LeaseUntil := 0, ob_UpdatedAt := now\<rparr>"
  have r1: "?r \<in> set (map snd (db_outbox db1))" "outbox_ready now ?r"
    using rin ex assms(8) unfolding db1 by (force, simp add: outbox_ready_def)
  have inv1: "durable_inv db1"
    unfolding db1 using store_reachable_inv [OF assms(2,3)] by (intro durable_inv_outbox) auto
  have "srt by_next_attempt (filter (outbox_ready now) (map snd (db_outbox db1))) \<noteq> []"
    using claim_empty [OF assms(1)] r1 by blast
  then obtain q qs where q: "srt by_next_attempt (filter (outbox_ready now) (map snd (db_outbox db1))) = q # qs"
    by (meson list.exhaust)
  have "q \<in> set (map snd (db_outbox db1))" using claim_head [OF assms(1) q] by simp
  then have "ob_IntentID q \<in> set (map (ob_IntentID \<circ> snd) (db_outbox db1))" by auto
  also have "map (ob_IntentID \<circ> snd) (db_outbox db1) = map fst (db_intents db1)"
    using inv1 by (simp add: durable_inv_def cover_inv_def)
  finally obtain i where "map_of (db_intents db1) (ob_IntentID q) = Some i"
    by (metis list.set_map map_of_eq_None_iff not_None_eq)
  with q assms(9) \<open>1 \<le> n\<close> show ?thesis
    by (simp add: ClaimOutbox_def Let_def commit_tx_def)
qed

theorem expired_lease_is_reclaimed_witness:
  "\<exists>db db1 n. store_reachable demo_env db \<and>
     RecoverExpiredLeases False (\<lambda>_. True) 20000000000 db = (db1, Inr n) \<and> 1 \<le> n"
proof -
  let ?db = "fst (run_call demo_env (demo_call 8 (OpClaim ''w1'')) demo_db)"
  have re: "store_reachable demo_env ?db" by (intro store_reachable.step demo_reachable)
  have "case db_outbox ?db of (k, r) # _ \<Rightarrow> ob_Status r = OutboxLeased \<and> 0 < ob_LeaseUntil r \<and>
      ob_LeaseUntil r \<le> 20000000000 \<and> ob_NextAttemptAt r \<le> 20000000000 | [] \<Rightarrow> False"
    by code_simp
  then obtain k r rs where "db_outbox ?db = (k, r) # rs" and "ob_Status r = OutboxLeased" "0 < ob_LeaseUntil r"
    "ob_LeaseUntil r \<le> 20000000000" "ob_NextAttemptAt r \<le> 20000000000"
    by (auto split: list.splits prod.splits)
  moreover from this(1) have "map_of (db_outbox ?db) k = Some r" by simp
  moreover obtain db1 n where "RecoverExpiredLeases False (\<lambda>_. True) 20000000000 ?db = (db1, Inr n)"
    by (simp add: RecoverExpiredLeases_def)
  ultimately show ?thesis
    using expired_lease_is_reclaimed [OF isort_by_next_attempt re demo_env_ok(1), of k r 20000000000 "''w''"] re
    by fastforce
qed

end
