(* ===== verification/RingBuffer.thy ===== *)
theory RingBuffer
  imports Prelude
begin

text \<open>
  The in-memory time series (\<open>src/internal/persistence/ring_buffer.go\<close>): a circular buffer per
  symbol that keeps the last \<open>capacity\<close> records, and range queries in chronological order.
  \<open>sort.Slice\<close> is a parameter. The interface of a bounded log is the locale \<open>bounded_log\<close>.
\<close>

section \<open>State and operations\<close>

record TimeSeriesRecord =
  ts_Timestamp :: int
  ts_Price :: decimal
  ts_Volume :: decimal
  ts_Symbol :: string

definition zero_ts :: TimeSeriesRecord where
  "zero_ts = \<lparr>ts_Timestamp = 0, ts_Price = 0, ts_Volume = 0, ts_Symbol = []\<rparr>"

record ringBuffer =
  rb_data :: "TimeSeriesRecord list"
  rb_head :: nat
  rb_count :: nat
  rb_cap :: nat

definition newRingBuffer :: "nat \<Rightarrow> ringBuffer" where
  "newRingBuffer capacity =
     \<lparr>rb_data = replicate capacity zero_ts, rb_head = 0, rb_count = 0, rb_cap = capacity\<rparr>"

definition rb_append :: "ringBuffer \<Rightarrow> TimeSeriesRecord \<Rightarrow> ringBuffer" where
  "rb_append rb r =
     rb\<lparr>rb_data := (rb_data rb)[rb_head rb := r],
        rb_head := (rb_head rb + 1) mod rb_cap rb,
        rb_count := (if rb_count rb < rb_cap rb then rb_count rb + 1 else rb_count rb)\<rparr>"

definition rb_start :: "ringBuffer \<Rightarrow> nat" where
  "rb_start rb = (if rb_count rb = rb_cap rb then rb_head rb else 0)"

text \<open>The loop \<open>for i := 0; i < rb.count; i++\<close> with its accumulator.\<close>

fun query_loop :: "ringBuffer \<Rightarrow> int \<Rightarrow> int \<Rightarrow> nat \<Rightarrow> nat \<Rightarrow> TimeSeriesRecord list \<Rightarrow> TimeSeriesRecord list" where
  "query_loop rb lo hi i 0 results = results"
| "query_loop rb lo hi i (Suc n) results =
     (let idx = (rb_start rb + i) mod rb_cap rb; rec = rb_data rb ! idx
      in query_loop rb lo hi (i + 1) n
           (if lo \<le> ts_Timestamp rec \<and> ts_Timestamp rec \<le> hi then results @ [rec] else results))"

definition rb_queryByTimeRange :: "ringBuffer \<Rightarrow> int \<Rightarrow> int \<Rightarrow> TimeSeriesRecord list" where
  "rb_queryByTimeRange rb lo hi =
     (if rb_count rb = 0 then [] else query_loop rb lo hi 0 (rb_count rb) [])"

definition DefaultCapacityPerSymbol :: nat where
  "DefaultCapacityPerSymbol = 1000000"

record TimeSeriesBuffer =
  tsb_buffers :: "string \<rightharpoonup> ringBuffer"
  tsb_capacityPerSymbol :: nat

definition NewTimeSeriesBuffer :: "int \<Rightarrow> TimeSeriesBuffer" where
  "NewTimeSeriesBuffer capacity =
     \<lparr>tsb_buffers = Map.empty,
      tsb_capacityPerSymbol = (if capacity \<le> 0 then DefaultCapacityPerSymbol else nat capacity)\<rparr>"

definition TSB_Append :: "TimeSeriesBuffer \<Rightarrow> TimeSeriesRecord \<Rightarrow> TimeSeriesBuffer" where
  "TSB_Append tsb r =
     (let rb = (case tsb_buffers tsb (ts_Symbol r) of
            None \<Rightarrow> newRingBuffer (tsb_capacityPerSymbol tsb) | Some rb \<Rightarrow> rb)
      in tsb\<lparr>tsb_buffers := (tsb_buffers tsb)(ts_Symbol r \<mapsto> rb_append rb r)\<rparr>)"

definition ts_less :: "TimeSeriesRecord \<Rightarrow> TimeSeriesRecord \<Rightarrow> bool" where
  "ts_less a b \<longleftrightarrow> ts_Timestamp a < ts_Timestamp b"

definition TSB_QueryByTimeRange ::
  "TimeSeriesRecord slice_sort \<Rightarrow> TimeSeriesBuffer \<Rightarrow> string \<Rightarrow> int \<Rightarrow> int \<Rightarrow> TimeSeriesRecord list" where
  "TSB_QueryByTimeRange srt tsb symbol lo hi =
     (case tsb_buffers tsb symbol of None \<Rightarrow> [] | Some rb \<Rightarrow> srt ts_less (rb_queryByTimeRange rb lo hi))"

definition TSB_Count :: "TimeSeriesBuffer \<Rightarrow> string \<Rightarrow> nat" where
  "TSB_Count tsb symbol = (case tsb_buffers tsb symbol of None \<Rightarrow> 0 | Some rb \<Rightarrow> rb_count rb)"

section \<open>Bounded logs\<close>

definition take_last :: "nat \<Rightarrow> 'a list \<Rightarrow> 'a list" where
  "take_last n xs = drop (length xs - n) xs"

lemma take_last_short: "length xs \<le> n \<Longrightarrow> take_last n xs = xs"
  by (simp add: take_last_def)

lemma length_take_last [simp]: "length (take_last n xs) = min n (length xs)"
  by (auto simp: take_last_def)

lemma take_last_snoc: "take_last n (take_last n xs @ [x]) = take_last n (xs @ [x])"
proof (cases n)
  case 0
  then show ?thesis by (simp add: take_last_def)
next
  case (Suc m)
  show ?thesis
  proof (cases "length xs \<le> n")
    case True
    then show ?thesis by (simp add: take_last_def)
  next
    case False
    with Suc have "Suc (length xs - n) = length xs - m" by simp
    with False Suc show ?thesis by (simp add: take_last_def)
  qed
qed

locale bounded_log =
  fixes inv :: "'b \<Rightarrow> bool"
    and capacity :: "'b \<Rightarrow> nat"
    and add :: "'b \<Rightarrow> 'a \<Rightarrow> 'b"
    and contents :: "'b \<Rightarrow> 'a list"
  assumes inv_add: "inv b \<Longrightarrow> inv (add b x)"
    and capacity_add: "inv b \<Longrightarrow> capacity (add b x) = capacity b"
    and contents_bounded: "inv b \<Longrightarrow> length (contents b) \<le> capacity b"
    and contents_add: "inv b \<Longrightarrow> contents (add b x) = take_last (capacity b) (contents b @ [x])"
begin

lemma log_contents:
  "inv b \<Longrightarrow> inv (foldl add b xs) \<and> capacity (foldl add b xs) = capacity b \<and>
     contents (foldl add b xs) = take_last (capacity b) (contents b @ xs)"
proof (induction xs rule: rev_induct)
  case Nil
  then show ?case by (simp add: contents_bounded take_last_short)
next
  case (snoc x xs)
  then show ?case
    using take_last_snoc [of "capacity b" "contents b @ xs" x]
    by (simp add: inv_add capacity_add contents_add)
qed

end

section \<open>The circular buffer is a bounded log\<close>

definition rb_inv :: "ringBuffer \<Rightarrow> bool" where
  "rb_inv rb \<longleftrightarrow> length (rb_data rb) = rb_cap rb \<and> rb_head rb < rb_cap rb \<and> rb_count rb \<le> rb_cap rb \<and>
     (rb_count rb < rb_cap rb \<longrightarrow> rb_head rb = rb_count rb)"

definition rb_contents :: "ringBuffer \<Rightarrow> TimeSeriesRecord list" where
  "rb_contents rb = map (\<lambda>i. rb_data rb ! ((rb_start rb + i) mod rb_cap rb)) [0..<rb_count rb]"

lemma newRingBuffer_inv [inv_intros]: "0 < n \<Longrightarrow> rb_inv (newRingBuffer n)"
  by (simp add: rb_inv_def newRingBuffer_def)

lemma newRingBuffer_contents [simp]: "rb_contents (newRingBuffer n) = []" "rb_cap (newRingBuffer n) = n"
  by (simp_all add: rb_contents_def newRingBuffer_def)

lemma rb_append_inv [inv_intros]: "rb_inv rb \<Longrightarrow> rb_inv (rb_append rb r)"
  by (auto simp: rb_inv_def rb_append_def mod_Suc)

lemma rb_contents_append:
  assumes "rb_inv rb"
  shows "rb_contents (rb_append rb r) = take_last (rb_cap rb) (rb_contents rb @ [r])"
proof (cases "rb_count rb < rb_cap rb")
  case True
  then have h: "rb_head rb = rb_count rb" "length (rb_data rb) = rb_cap rb"
    using assms by (auto simp: rb_inv_def)
  have data: "rb_contents rb = map (\<lambda>i. rb_data rb ! i) [0..<rb_count rb]"
    unfolding rb_contents_def rb_start_def using True by (intro map_cong) auto
  have "rb_contents (rb_append rb r) = map (\<lambda>i. (rb_data rb)[rb_count rb := r] ! i) [0..<Suc (rb_count rb)]"
    using True h by (auto simp: rb_contents_def rb_start_def rb_append_def simp del: upt_Suc intro!: map_cong)
  also have "\<dots> = rb_contents rb @ [r]"
    using True h by (auto simp: data)
  finally show ?thesis
    using True by (subst take_last_short) (auto simp: rb_contents_def)
next
  case False
  then have full: "rb_count rb = rb_cap rb" and c: "0 < rb_cap rb" "rb_head rb < rb_cap rb"
    and len: "length (rb_data rb) = rb_cap rb"
    using assms by (auto simp: rb_inv_def)
  let ?c = "rb_cap rb"
  let ?h = "rb_head rb"
  have idx: "(Suc ?h mod ?c + i) mod ?c = (?h + Suc i) mod ?c" for i
    by (metis add_Suc_right add_Suc_shift mod_add_left_eq)
  have "rb_contents (rb_append rb r) ! i = take_last ?c (rb_contents rb @ [r]) ! i" if i: "i < ?c" for i
  proof (cases "Suc i = ?c")
    case True
    then have "Suc (?h + i) = ?h + ?c" by simp
    then have "Suc (?h + i) mod ?c = ?h" using c(2) by (simp only: mod_add_self2 mod_less)
    moreover have "\<not> i < ?c - Suc 0" using True by simp
    ultimately show ?thesis
      using True full len c
      by (simp add: rb_contents_def rb_append_def rb_start_def take_last_def idx nth_append)
  next
    case False
    with i have "Suc i < ?c" by simp
    have "Suc (?h + i) mod ?c \<noteq> ?h"
    proof (cases "Suc (?h + i) < ?c")
      case False
      then have "Suc (?h + i) mod ?c = Suc (?h + i) - ?c"
        using \<open>Suc i < ?c\<close> c(2) by (simp add: le_mod_geq)
      with False \<open>Suc i < ?c\<close> show ?thesis by simp
    qed simp
    with \<open>Suc i < ?c\<close> full len c show ?thesis
      by (simp add: rb_contents_def rb_append_def rb_start_def take_last_def idx nth_append)
  qed
  moreover have "length (rb_contents (rb_append rb r)) = ?c"
    using full by (simp add: rb_contents_def rb_append_def)
  ultimately show ?thesis
    using full by (intro nth_equalityI) (auto simp: rb_contents_def)
qed

interpretation ring: bounded_log rb_inv rb_cap rb_append rb_contents
  by unfold_locales
    (auto simp: rb_append_inv rb_contents_append, auto simp: rb_append_def rb_contents_def rb_inv_def)

lemma query_loop_eq:
  "query_loop rb lo hi i n res = res @ filter (\<lambda>r. lo \<le> ts_Timestamp r \<and> ts_Timestamp r \<le> hi)
     (map (\<lambda>j. rb_data rb ! ((rb_start rb + j) mod rb_cap rb)) [i..<i + n])"
proof (induction n arbitrary: i res)
  case (Suc n)
  have "[i..<i + Suc n] = i # [Suc i..<Suc i + n]" by (simp add: upt_conv_Cons)
  with Suc [of "Suc i"] show ?case by (simp add: Let_def)
qed simp

lemma rb_query_eq:
  "rb_queryByTimeRange rb lo hi =
     filter (\<lambda>r. lo \<le> ts_Timestamp r \<and> ts_Timestamp r \<le> hi) (rb_contents rb)"
  by (simp add: rb_queryByTimeRange_def query_loop_eq rb_contents_def)

section \<open>The buffers of all symbols\<close>

definition symbol_records :: "string \<Rightarrow> TimeSeriesRecord list \<Rightarrow> TimeSeriesRecord list" where
  "symbol_records s rs = filter (\<lambda>r. ts_Symbol r = s) rs"

lemma tsb_appends:
  assumes "0 < tsb_capacityPerSymbol tsb" and "tsb_buffers tsb = Map.empty"
  shows "tsb_capacityPerSymbol (foldl TSB_Append tsb rs) = tsb_capacityPerSymbol tsb \<and>
    tsb_buffers (foldl TSB_Append tsb rs) s =
      (if symbol_records s rs = [] then None
       else Some (foldl rb_append (newRingBuffer (tsb_capacityPerSymbol tsb)) (symbol_records s rs)))"
  using assms
proof (induction rs rule: rev_induct)
  case (snoc r rs)
  then show ?case
    by (cases "ts_Symbol r = s") (auto simp: TSB_Append_def symbol_records_def Let_def)
qed (simp add: symbol_records_def)

section \<open>Properties\<close>

text \<open>After any sequence of appends, the records that a range query returns are exactly those of
  the symbol's last \<open>capacity\<close> records whose timestamps lie in the range, in chronological order,
  and the count is the number of records held: the circular buffer loses nothing but the oldest.\<close>

theorem range_query_exact:
  assumes "slice_sort_ok srt ts_less"
    and "tsb = foldl TSB_Append (NewTimeSeriesBuffer capacity) rs"
    and "n = (if capacity \<le> 0 then 1000000 else nat capacity)"
  shows "mset (TSB_QueryByTimeRange srt tsb s lo hi) = mset (filter (\<lambda>r. lo \<le> ts_Timestamp r \<and> ts_Timestamp r \<le> hi)
      (take_last n (symbol_records s rs))) \<and>
    sorted (map ts_Timestamp (TSB_QueryByTimeRange srt tsb s lo hi)) \<and>
    TSB_Count tsb s = min n (length (symbol_records s rs))"
proof -
  have n: "tsb_capacityPerSymbol (NewTimeSeriesBuffer capacity) = n" "0 < n"
    using assms(3) by (simp_all add: NewTimeSeriesBuffer_def DefaultCapacityPerSymbol_def)
  have b: "tsb_buffers tsb s = (if symbol_records s rs = [] then None
      else Some (foldl rb_append (newRingBuffer n) (symbol_records s rs)))"
    using tsb_appends [of "NewTimeSeriesBuffer capacity" rs s] n
    by (simp add: assms(2) NewTimeSeriesBuffer_def)
  have log: "rb_contents (foldl rb_append (newRingBuffer n) xs) = take_last n xs" for xs
    using ring.log_contents [of "newRingBuffer n" xs] n(2) by (simp add: newRingBuffer_inv)
  have len: "rb_count rb = length (rb_contents rb)" for rb by (simp add: rb_contents_def)
  have srt: "mset (srt ts_less xs) = mset xs" "sorted (map ts_Timestamp (srt ts_less xs))" for xs
    using assms(1) by (auto simp: slice_sort_ok_def ts_less_def sorted_wrt_map not_less)
  show ?thesis
    by (cases "symbol_records s rs = []")
      (simp_all add: TSB_QueryByTimeRange_def TSB_Count_def b srt rb_query_eq log len take_last_def)
qed

theorem range_query_exact_witness:
  "TSB_Count (foldl TSB_Append (NewTimeSeriesBuffer 2)
     (map (\<lambda>t. zero_ts\<lparr>ts_Timestamp := t, ts_Symbol := ''A''\<rparr>) [3, 1, 2])) ''A'' = 2"
proof -
  have "slice_sort_ok isort ts_less" by (rule isort_ok) (auto simp: ts_less_def)
  from range_query_exact [OF this refl refl, of 2 "map (\<lambda>t. zero_ts\<lparr>ts_Timestamp := t, ts_Symbol := ''A''\<rparr>) [3, 1, 2]" "''A''"]
  show ?thesis by (simp add: symbol_records_def)
qed

end
