(* ===== verification/Json.thy ===== *)
theory Json
  imports Prelude
begin

text \<open>
  What the code uses of \<open>encoding/json\<close>. A message is either text that is not JSON or the JSON
  value it denotes; \<open>json.Unmarshal\<close> into a struct is the selection of its fields: a missing or
  \<open>null\<close> member leaves the zero value, a member of another type is an error, and \<open>null\<close> itself
  leaves the whole struct zero. Objects are taken without duplicate or case-variant keys.
\<close>

datatype json =
    JNull
  | JBool bool
  | JNum int
  | JStr string
  | JArr "json list"
  | JObj "(string \<times> json) list"

datatype frame = TextFrame string | JsonFrame json

text \<open>\<open>None\<close> is the error of \<open>json.Unmarshal\<close>.\<close>

definition str_field :: "string \<Rightarrow> json \<Rightarrow> string option" where
  "str_field k j =
     (case j of
        JNull \<Rightarrow> Some []
      | JObj fs \<Rightarrow> (case map_of fs k of
          None \<Rightarrow> Some [] | Some JNull \<Rightarrow> Some [] | Some (JStr s) \<Rightarrow> Some s | Some _ \<Rightarrow> None)
      | _ \<Rightarrow> None)"

text \<open>A \<open>json.RawMessage\<close> member: empty when absent.\<close>

definition raw_field :: "string \<Rightarrow> json \<Rightarrow> json option option" where
  "raw_field k j =
     (case j of JNull \<Rightarrow> Some None | JObj fs \<Rightarrow> Some (map_of fs k) | _ \<Rightarrow> None)"

text \<open>A member that is a struct: absent or \<open>null\<close> members are read as \<open>null\<close>.\<close>

definition sub_field :: "string \<Rightarrow> json \<Rightarrow> json option" where
  "sub_field k j =
     (case raw_field k j of
        None \<Rightarrow> None
      | Some None \<Rightarrow> Some JNull
      | Some (Some (JObj fs)) \<Rightarrow> Some (JObj fs)
      | Some (Some JNull) \<Rightarrow> Some JNull
      | Some (Some _) \<Rightarrow> None)"

text \<open>A member that is a slice.\<close>

definition arr_field :: "string \<Rightarrow> json \<Rightarrow> json list option" where
  "arr_field k j =
     (case raw_field k j of
        None \<Rightarrow> None
      | Some None \<Rightarrow> Some []
      | Some (Some JNull) \<Rightarrow> Some []
      | Some (Some (JArr xs)) \<Rightarrow> Some xs
      | Some (Some _) \<Rightarrow> None)"

text \<open>A member that is a number.\<close>

definition int_field :: "string \<Rightarrow> json \<Rightarrow> int option" where
  "int_field k j =
     (case raw_field k j of
        None \<Rightarrow> None
      | Some None \<Rightarrow> Some 0
      | Some (Some JNull) \<Rightarrow> Some 0
      | Some (Some (JNum n)) \<Rightarrow> Some n
      | Some (Some _) \<Rightarrow> None)"

text \<open>All elements of a slice have to decode.\<close>

fun decode_all :: "('a \<Rightarrow> 'b option) \<Rightarrow> 'a list \<Rightarrow> 'b list option" where
  "decode_all f [] = Some []"
| "decode_all f (x # xs) =
     (case f x of None \<Rightarrow> None
      | Some y \<Rightarrow> (case decode_all f xs of None \<Rightarrow> None | Some ys \<Rightarrow> Some (y # ys)))"

lemma decode_all_Some:
  "decode_all f xs = Some ys \<longleftrightarrow> list_all2 (\<lambda>x y. f x = Some y) xs ys"
proof (induction xs arbitrary: ys)
  case Nil
  then show ?case by auto
next
  case (Cons x xs)
  show ?case by (cases ys) (auto simp: Cons.IH [symmetric] split: option.splits)
qed

end
