(* ===== verification/PrivateWS.thy ===== *)
theory PrivateWS
  imports Json
begin

text \<open>
  The private WebSocket state machine (\<open>src/internal/marketdata/private_ws_state_machine.go\<close>):
  connect, authenticate, subscribe, reconcile, then watch liveness and reconnect with exponential
  backoff. A connection sequence runs with a \<open>conn_env\<close> that says what the dialer, the connection
  and the reconciliation callback answer and what the clock shows at each stage. The goroutines
  are part of the state: which loops are running and whether the context of each read loop has been
  cancelled. Every transition of the system is one input of \<open>pws_step\<close>: one iteration of one loop,
  or one run of the reconnect loop.
\<close>

section \<open>States, events, configuration\<close>

datatype PrivateWSState =
    PWS_Disconnected | PWS_Connecting | PWS_Authenticating | PWS_Subscribing | PWS_Reconciling
  | PWS_Ready | PWS_Unhealthy | PWS_Backoff | PWS_SafeStopped | PWS_Other int

fun PrivateWSState_String :: "PrivateWSState \<Rightarrow> string" where
  "PrivateWSState_String PWS_Disconnected = ''Disconnected''"
| "PrivateWSState_String PWS_Connecting = ''Connecting''"
| "PrivateWSState_String PWS_Authenticating = ''Authenticating''"
| "PrivateWSState_String PWS_Subscribing = ''Subscribing''"
| "PrivateWSState_String PWS_Reconciling = ''Reconciling''"
| "PrivateWSState_String PWS_Ready = ''Ready''"
| "PrivateWSState_String PWS_Unhealthy = ''Unhealthy''"
| "PrivateWSState_String PWS_Backoff = ''Backoff''"
| "PrivateWSState_String PWS_SafeStopped = ''SafeStopped''"
| "PrivateWSState_String (PWS_Other _) = ''Unknown''"

datatype StateChangeReason =
    ReasonStartup | ReasonPongReceived | ReasonAuthSuccess | ReasonSubConfirmed
  | ReasonReconcileComplete | ReasonLivenessTimeout | ReasonReadError | ReasonCloseFrame
  | ReasonAuthFailed | ReasonSubFailed | ReasonConnectFailed | ReasonRetriesExhausted
  | ReasonReconcileFailed | ReasonShutdown | ReasonRecoveryProbe

record SubscriptionSpec =
  ss_Channel :: string
  ss_InstType :: string
  ss_InstID :: string

record StateChangeEvent =
  sc_From :: PrivateWSState
  sc_To :: PrivateWSState
  sc_Reason :: StateChangeReason
  sc_Epoch :: "64 word"
  sc_LastLiveness :: time
  sc_ReconnectCount :: int
  sc_SubscriptionSet :: "SubscriptionSpec list"
  sc_Timestamp :: time

record PrivateWSStateMachineConfig =
  pc_URL :: string
  pc_HeartbeatSendInterval :: duration
  pc_LivenessTimeout :: duration
  pc_ReconnectStartDeadline :: duration
  pc_WatchdogInterval :: duration
  pc_InitialBackoff :: duration
  pc_MaxBackoff :: duration
  pc_MaxReconnectAttempts :: int
  pc_ConnectTimeout :: duration
  pc_AuthTimeout :: duration
  pc_SubscribeTimeout :: duration
  pc_RequiredSubscriptions :: "SubscriptionSpec list"

definition DefaultPrivateWSStateMachineConfig :: PrivateWSStateMachineConfig where
  "DefaultPrivateWSStateMachineConfig = \<lparr>pc_URL = [],
     pc_HeartbeatSendInterval = 20 * 1000000000, pc_LivenessTimeout = 45 * 1000000000,
     pc_ReconnectStartDeadline = 5 * 1000000000, pc_WatchdogInterval = 1 * 1000000000,
     pc_InitialBackoff = 1 * 1000000000, pc_MaxBackoff = 30 * 1000000000,
     pc_MaxReconnectAttempts = 10, pc_ConnectTimeout = 10 * 1000000000,
     pc_AuthTimeout = 10 * 1000000000, pc_SubscribeTimeout = 10 * 1000000000,
     pc_RequiredSubscriptions = []\<rparr>"

record fill_call =
  fc_InstID :: string
  fc_Side :: string
  fc_FillPx :: string
  fc_FillSz :: string
  fc_OrdID :: string
  fc_State :: string

text \<open>A read loop: whether its context is cancelled, and whether it is inside \<open>ReadMessage\<close>.\<close>

record reader =
  rd_cancelled :: bool
  rd_reading :: bool

text \<open>
  The machine, the calls it has made to its callbacks (\<open>pw_events\<close>, \<open>pw_gate\<close>, \<open>pw_fills\<close>) and its
  goroutines. \<open>pw_reconnects\<close> counts reconnect loops that were started and have not run.
\<close>

record PrivateWS =
  pw_state :: PrivateWSState
  pw_epoch :: "64 word"
  pw_lastLiveness :: time
  pw_reconnectCount :: int
  pw_conn :: "nat option"
  pw_confirmedSubs :: "string set"
  pw_unhealthyAt :: time
  pw_onStateChange :: bool
  pw_onReconcile :: bool
  pw_onRiskGate :: bool
  pw_onFill :: bool
  pw_done :: bool
  pw_events :: "StateChangeEvent list"
  pw_gate :: "(bool \<times> StateChangeReason) list"
  pw_fills :: "fill_call list"
  pw_readers :: "reader list"
  pw_heartbeat :: bool
  pw_watchdog :: bool
  pw_reconnects :: nat

definition NewPrivateWSStateMachine :: PrivateWS where
  "NewPrivateWSStateMachine = \<lparr>pw_state = PWS_Disconnected, pw_epoch = 0, pw_lastLiveness = - 62135596800000000000,
     pw_reconnectCount = 0, pw_conn = None, pw_confirmedSubs = {}, pw_unhealthyAt = - 62135596800000000000,
     pw_onStateChange = False, pw_onReconcile = False, pw_onRiskGate = False, pw_onFill = False,
     pw_done = False, pw_events = [], pw_gate = [], pw_fills = [], pw_readers = [],
     pw_heartbeat = False, pw_watchdog = False, pw_reconnects = 0\<rparr>"

definition IsReady :: "PrivateWS \<Rightarrow> bool" where
  "IsReady sm \<longleftrightarrow> pw_state sm = PWS_Ready"

section \<open>Publishing\<close>

definition publishStateChange ::
  "PrivateWSStateMachineConfig \<Rightarrow> PrivateWSState \<Rightarrow> PrivateWSState \<Rightarrow> StateChangeReason \<Rightarrow> time \<Rightarrow>
    PrivateWS \<Rightarrow> PrivateWS" where
  "publishStateChange cfg src dst reason now sm =
     (if pw_onStateChange sm
      then sm\<lparr>pw_events := pw_events sm @ [\<lparr>sc_From = src, sc_To = dst, sc_Reason = reason,
             sc_Epoch = pw_epoch sm, sc_LastLiveness = pw_lastLiveness sm,
             sc_ReconnectCount = pw_reconnectCount sm,
             sc_SubscriptionSet = pc_RequiredSubscriptions cfg, sc_Timestamp = now\<rparr>]\<rparr>
      else sm)"

definition transition ::
  "PrivateWSStateMachineConfig \<Rightarrow> PrivateWSState \<Rightarrow> StateChangeReason \<Rightarrow> time \<Rightarrow> PrivateWS \<Rightarrow> PrivateWS" where
  "transition cfg dst reason now sm =
     (let src = pw_state sm; sm1 = sm\<lparr>pw_state := dst\<rparr>
      in if src \<noteq> dst then publishStateChange cfg src dst reason now sm1 else sm1)"

definition closeRiskGate :: "StateChangeReason \<Rightarrow> PrivateWS \<Rightarrow> PrivateWS" where
  "closeRiskGate reason sm =
     (if pw_onRiskGate sm then sm\<lparr>pw_gate := pw_gate sm @ [(False, reason)]\<rparr> else sm)"

definition openRiskGate :: "StateChangeReason \<Rightarrow> PrivateWS \<Rightarrow> PrivateWS" where
  "openRiskGate reason sm =
     (if pw_onRiskGate sm then sm\<lparr>pw_gate := pw_gate sm @ [(True, reason)]\<rparr> else sm)"

definition closeConn :: "PrivateWS \<Rightarrow> PrivateWS" where
  "closeConn sm = sm\<lparr>pw_conn := None\<rparr>"

section \<open>Authentication and subscription\<close>

datatype pws_error =
    AlreadyStarted PrivateWSState
  | NoConnection
  | DialFailed
  | LoginBuilderFailed
  | SendLoginFailed
  | SetReadDeadlineFailed
  | ReadResponseFailed
  | ParseResponseFailed
  | LoginRejected string string string
  | SendSubscribeFailed
  | DataPushInsteadOfAck string string
  | SubscriptionError string string
  | UnexpectedEvent string
  | ChannelMismatch string string
  | InstTypeMismatch string string
  | InstIdMismatch string string
  | ReconciliationFailed

record sub_io =
  si_write :: bool
  si_deadline :: bool
  si_reply :: "frame option"

record conn_env =
  ce_dial :: "nat option"
  ce_login :: bool
  ce_write :: bool
  ce_deadline :: bool
  ce_reply :: "frame option"
  ce_sub :: "nat \<Rightarrow> sub_io"
  ce_reconcile :: bool
  ce_t_auth :: time
  ce_t_sub :: time
  ce_t_ready :: time

definition parse_login :: "frame \<Rightarrow> (string \<times> string \<times> string) option" where
  "parse_login f =
     (case f of TextFrame _ \<Rightarrow> None
      | JsonFrame j \<Rightarrow> (case (str_field ''event'' j, str_field ''code'' j, str_field ''msg'' j) of
          (Some e, Some c, Some m) \<Rightarrow> Some (e, c, m) | _ \<Rightarrow> None))"

definition performAuth :: "conn_env \<Rightarrow> PrivateWS \<Rightarrow> pws_error option \<times> PrivateWS" where
  "performAuth env sm =
     (if pw_conn sm = None then (Some NoConnection, sm)
      else if \<not> ce_login env then (Some LoginBuilderFailed, sm)
      else if \<not> ce_write env then (Some SendLoginFailed, sm)
      else if \<not> ce_deadline env then (Some SetReadDeadlineFailed, sm)
      else case ce_reply env of
        None \<Rightarrow> (Some ReadResponseFailed, sm)
      | Some f \<Rightarrow> (case parse_login f of
          None \<Rightarrow> (Some ParseResponseFailed, sm)
        | Some (event, code, msg) \<Rightarrow>
            if event \<noteq> ''login'' \<or> code \<noteq> ''0'' then (Some (LoginRejected event code msg), sm)
            else (None, sm\<lparr>pw_lastLiveness := ce_t_auth env\<rparr>)))"

definition subKey :: "SubscriptionSpec \<Rightarrow> string" where
  "subKey s = ss_Channel s @ '':'' @ ss_InstType s @ '':'' @ ss_InstID s"

record sub_ack =
  sa_event :: string
  sa_code :: string
  sa_msg :: string
  sa_channel :: string
  sa_instType :: string
  sa_instId :: string
  sa_hasData :: bool

definition parse_ack :: "frame \<Rightarrow> sub_ack option" where
  "parse_ack f =
     (case f of TextFrame _ \<Rightarrow> None
      | JsonFrame j \<Rightarrow>
          (case (str_field ''event'' j, str_field ''code'' j, str_field ''msg'' j, sub_field ''arg'' j,
                 raw_field ''data'' j) of
             (Some e, Some c, Some m, Some a, Some d) \<Rightarrow>
               (case (str_field ''channel'' a, str_field ''instType'' a, str_field ''instId'' a) of
                  (Some ch, Some ty, Some i) \<Rightarrow> Some \<lparr>sa_event = e, sa_code = c, sa_msg = m,
                    sa_channel = ch, sa_instType = ty, sa_instId = i, sa_hasData = (d \<noteq> None)\<rparr>
                | _ \<Rightarrow> None)
           | _ \<Rightarrow> None))"

definition waitForSubAck ::
  "frame option \<Rightarrow> SubscriptionSpec \<Rightarrow> PrivateWS \<Rightarrow> pws_error option \<times> PrivateWS" where
  "waitForSubAck reply expected sm =
     (case reply of None \<Rightarrow> (Some ReadResponseFailed, sm)
      | Some f \<Rightarrow> (case parse_ack f of
          None \<Rightarrow> (Some ParseResponseFailed, sm)
        | Some resp \<Rightarrow>
            if sa_hasData resp \<and> sa_event resp = []
            then (Some (DataPushInsteadOfAck (ss_Channel expected) (ss_InstType expected)), sm)
            else if sa_event resp \<noteq> ''subscribe'' then
              (if sa_event resp = ''error'' then (Some (SubscriptionError (sa_code resp) (sa_msg resp)), sm)
               else (Some (UnexpectedEvent (sa_event resp)), sm))
            else if sa_channel resp \<noteq> ss_Channel expected
            then (Some (ChannelMismatch (sa_channel resp) (ss_Channel expected)), sm)
            else if sa_instType resp \<noteq> ss_InstType expected
            then (Some (InstTypeMismatch (sa_instType resp) (ss_InstType expected)), sm)
            else if ss_InstID expected \<noteq> [] \<and> sa_instId resp \<noteq> ss_InstID expected
            then (Some (InstIdMismatch (sa_instId resp) (ss_InstID expected)), sm)
            else (None, sm\<lparr>pw_confirmedSubs := insert (subKey expected) (pw_confirmedSubs sm)\<rparr>)))"

fun subscribe_loop ::
  "(nat \<Rightarrow> sub_io) \<Rightarrow> nat \<Rightarrow> SubscriptionSpec list \<Rightarrow> PrivateWS \<Rightarrow> pws_error option \<times> PrivateWS" where
  "subscribe_loop io i [] sm = (None, sm)"
| "subscribe_loop io i (sub # subs) sm =
     (if \<not> si_write (io i) then (Some SendSubscribeFailed, sm)
      else if \<not> si_deadline (io i) then (Some SetReadDeadlineFailed, sm)
      else case waitForSubAck (si_reply (io i)) sub sm of
        (Some e, sm1) \<Rightarrow> (Some e, sm1)
      | (None, sm1) \<Rightarrow> subscribe_loop io (i + 1) subs sm1)"

definition performSubscribe ::
  "PrivateWSStateMachineConfig \<Rightarrow> conn_env \<Rightarrow> PrivateWS \<Rightarrow> pws_error option \<times> PrivateWS" where
  "performSubscribe cfg env sm =
     (if pw_conn sm = None then (Some NoConnection, sm)
      else case subscribe_loop (ce_sub env) 0 (pc_RequiredSubscriptions cfg) (sm\<lparr>pw_confirmedSubs := {}\<rparr>) of
        (Some e, sm1) \<Rightarrow> (Some e, sm1)
      | (None, sm1) \<Rightarrow> (None, sm1\<lparr>pw_lastLiveness := ce_t_sub env\<rparr>))"

definition performReconciliation :: "conn_env \<Rightarrow> PrivateWS \<Rightarrow> pws_error option" where
  "performReconciliation env sm =
     (if \<not> pw_onReconcile sm then None
      else if ce_reconcile env then None else Some ReconciliationFailed)"

section \<open>The connection sequences\<close>

definition new_reader :: reader where
  "new_reader = \<lparr>rd_cancelled = False, rd_reading = False\<rparr>"

definition connectSequence ::
  "PrivateWSStateMachineConfig \<Rightarrow> conn_env \<Rightarrow> PrivateWS \<Rightarrow> pws_error option \<times> PrivateWS" where
  "connectSequence cfg env sm =
     (let sm1 = transition cfg PWS_Connecting ReasonStartup (ce_t_auth env) sm in
      case ce_dial env of
        None \<Rightarrow> (Some DialFailed, transition cfg PWS_Backoff ReasonConnectFailed (ce_t_auth env) sm1)
      | Some conn \<Rightarrow>
      (let sm2 = transition cfg PWS_Authenticating ReasonStartup (ce_t_auth env) (sm1\<lparr>pw_conn := Some conn\<rparr>) in
       case performAuth env sm2 of
         (Some e, sm3) \<Rightarrow> (Some e, transition cfg PWS_Backoff ReasonAuthFailed (ce_t_auth env) (closeConn sm3))
       | (None, sm3) \<Rightarrow>
      (let sm4 = transition cfg PWS_Subscribing ReasonAuthSuccess (ce_t_auth env) sm3 in
       case performSubscribe cfg env sm4 of
         (Some e, sm5) \<Rightarrow> (Some e, transition cfg PWS_Backoff ReasonSubFailed (ce_t_sub env) (closeConn sm5))
       | (None, sm5) \<Rightarrow>
      (let sm6 = transition cfg PWS_Reconciling ReasonSubConfirmed (ce_t_sub env) sm5 in
       case performReconciliation env sm6 of
         Some e \<Rightarrow> (Some e, transition cfg PWS_SafeStopped ReasonReconcileFailed (ce_t_ready env) (closeConn sm6))
       | None \<Rightarrow>
           let sm7 = sm6\<lparr>pw_lastLiveness := ce_t_ready env, pw_epoch := pw_epoch sm6 + 1,
                 pw_reconnectCount := 0\<rparr>;
               sm8 = transition cfg PWS_Ready ReasonReconcileComplete (ce_t_ready env) sm7;
               sm9 = openRiskGate ReasonReconcileComplete sm8
           in (None, sm9\<lparr>pw_readers := pw_readers sm9 @ [new_reader]\<rparr>)))))"

definition Start ::
  "PrivateWSStateMachineConfig \<Rightarrow> conn_env \<Rightarrow> PrivateWS \<Rightarrow> pws_error option \<times> PrivateWS" where
  "Start cfg env sm =
     (if pw_state sm \<noteq> PWS_Disconnected then (Some (AlreadyStarted (pw_state sm)), sm)
      else case connectSequence cfg env (closeRiskGate ReasonStartup (sm\<lparr>pw_done := False\<rparr>)) of
        (Some e, sm1) \<Rightarrow> (Some e, sm1)
      | (None, sm1) \<Rightarrow> (None, sm1\<lparr>pw_heartbeat := True, pw_watchdog := True\<rparr>))"

text \<open>\<open>Stop\<close> cancels the contexts and waits for the loops to return.\<close>

definition Stop :: "PrivateWSStateMachineConfig \<Rightarrow> time \<Rightarrow> PrivateWS \<Rightarrow> PrivateWS" where
  "Stop cfg now sm =
     (let old = pw_state sm;
          sm1 = sm\<lparr>pw_done := True, pw_conn := None, pw_state := PWS_Disconnected,
                  pw_readers := [], pw_heartbeat := False, pw_watchdog := False\<rparr>
      in if old \<noteq> PWS_Disconnected
         then publishStateChange cfg old PWS_Disconnected ReasonShutdown now sm1 else sm1)"

definition attemptReconnect ::
  "PrivateWSStateMachineConfig \<Rightarrow> conn_env \<Rightarrow> PrivateWS \<Rightarrow> pws_error option \<times> PrivateWS" where
  "attemptReconnect cfg env sm =
     (let sm1 = transition cfg PWS_Connecting ReasonRecoveryProbe (ce_t_auth env) sm in
      case ce_dial env of
        None \<Rightarrow> (Some DialFailed, transition cfg PWS_Backoff ReasonConnectFailed (ce_t_auth env) sm1)
      | Some conn \<Rightarrow>
      (let sm2 = transition cfg PWS_Authenticating ReasonRecoveryProbe (ce_t_auth env) (sm1\<lparr>pw_conn := Some conn\<rparr>) in
       case performAuth env sm2 of
         (Some e, sm3) \<Rightarrow> (Some e, transition cfg PWS_Backoff ReasonAuthFailed (ce_t_auth env) (closeConn sm3))
       | (None, sm3) \<Rightarrow>
      (let sm4 = transition cfg PWS_Subscribing ReasonAuthSuccess (ce_t_auth env) sm3 in
       case performSubscribe cfg env sm4 of
         (Some e, sm5) \<Rightarrow> (Some e, transition cfg PWS_Backoff ReasonSubFailed (ce_t_sub env) (closeConn sm5))
       | (None, sm5) \<Rightarrow>
      (let sm6 = transition cfg PWS_Reconciling ReasonSubConfirmed (ce_t_sub env) sm5 in
       case performReconciliation env sm6 of
         Some e \<Rightarrow> (Some e, transition cfg PWS_SafeStopped ReasonReconcileFailed (ce_t_ready env) (closeConn sm6))
       | None \<Rightarrow>
           let sm7 = sm6\<lparr>pw_lastLiveness := ce_t_ready env, pw_epoch := pw_epoch sm6 + 1\<rparr>;
               sm8 = transition cfg PWS_Ready ReasonReconcileComplete (ce_t_ready env) sm7;
               sm9 = openRiskGate ReasonReconcileComplete sm8
           in (None, sm9\<lparr>pw_readers := pw_readers sm9 @ [new_reader]\<rparr>)))))"

section \<open>Messages\<close>

record envelope =
  en_event :: string
  en_code :: string
  en_arg :: "json option"
  en_data :: "json option"

definition parse_envelope :: "frame \<Rightarrow> envelope option" where
  "parse_envelope f =
     (case f of TextFrame _ \<Rightarrow> None
      | JsonFrame j \<Rightarrow>
          (case (str_field ''event'' j, str_field ''code'' j, raw_field ''arg'' j, raw_field ''data'' j) of
             (Some e, Some c, Some a, Some d) \<Rightarrow>
               Some \<lparr>en_event = e, en_code = c, en_arg = a, en_data = d\<rparr>
           | _ \<Rightarrow> None))"

definition parse_fill_item :: "json \<Rightarrow> fill_call option" where
  "parse_fill_item d =
     (case (str_field ''instId'' d, str_field ''ordId'' d, str_field ''side'' d, str_field ''fillPx'' d,
            str_field ''fillSz'' d, str_field ''state'' d) of
        (Some i, Some oid, Some sd, Some px, Some sz, Some st) \<Rightarrow>
          Some \<lparr>fc_InstID = i, fc_Side = sd, fc_FillPx = px, fc_FillSz = sz, fc_OrdID = oid, fc_State = st\<rparr>
      | _ \<Rightarrow> None)"

definition parse_push :: "frame \<Rightarrow> (string \<times> fill_call list) option" where
  "parse_push f =
     (case f of TextFrame _ \<Rightarrow> None
      | JsonFrame j \<Rightarrow> (case (sub_field ''arg'' j, arr_field ''data'' j) of
          (Some a, Some ds) \<Rightarrow> (case (str_field ''channel'' a, decode_all parse_fill_item ds) of
              (Some ch, Some xs) \<Rightarrow> Some (ch, xs) | _ \<Rightarrow> None)
        | _ \<Rightarrow> None))"

definition dispatchFill :: "frame \<Rightarrow> PrivateWS \<Rightarrow> PrivateWS" where
  "dispatchFill f sm =
     (case parse_push f of None \<Rightarrow> sm
      | Some (channel, xs) \<Rightarrow>
          if channel \<noteq> ''orders'' then sm
          else if \<not> pw_onFill sm then sm
          else sm\<lparr>pw_fills := pw_fills sm @
            filter (\<lambda>d. fc_State d = ''filled'' \<or> fc_State d = ''partially_filled'') xs\<rparr>)"

definition processMessage :: "frame \<Rightarrow> time \<Rightarrow> PrivateWS \<Rightarrow> PrivateWS" where
  "processMessage f now sm =
     (if f = TextFrame ''pong'' then sm\<lparr>pw_lastLiveness := now\<rparr>
      else case parse_envelope f of
        None \<Rightarrow> sm
      | Some en \<Rightarrow>
          if en_event en \<noteq> [] then sm\<lparr>pw_lastLiveness := now\<rparr>
          else case (en_arg en, en_data en) of
            (Some a, Some d) \<Rightarrow>
              (case (str_field ''channel'' a, str_field ''instType'' a) of
                 (Some ch, Some _) \<Rightarrow>
                   if ch \<noteq> [] then dispatchFill f (sm\<lparr>pw_lastLiveness := now\<rparr>) else sm
               | _ \<Rightarrow> sm)
          | _ \<Rightarrow> sm)"

section \<open>The loops\<close>

definition handleConnectionLoss ::
  "PrivateWSStateMachineConfig \<Rightarrow> StateChangeReason \<Rightarrow> time \<Rightarrow> PrivateWS \<Rightarrow> PrivateWS" where
  "handleConnectionLoss cfg reason now sm =
     (if pw_state sm = PWS_Unhealthy \<or> pw_state sm = PWS_Backoff \<or> pw_state sm = PWS_SafeStopped \<or>
         pw_state sm = PWS_Disconnected
      then sm
      else
        let sm1 = sm\<lparr>pw_state := PWS_Unhealthy, pw_unhealthyAt := now\<rparr>;
            sm2 = closeConn (closeRiskGate reason sm1);
            sm3 = publishStateChange cfg PWS_Ready PWS_Unhealthy reason now sm2
        in sm3\<lparr>pw_reconnects := pw_reconnects sm3 + 1\<rparr>)"

definition drop_reader :: "nat \<Rightarrow> PrivateWS \<Rightarrow> PrivateWS" where
  "drop_reader i sm = sm\<lparr>pw_readers := take i (pw_readers sm) @ drop (Suc i) (pw_readers sm)\<rparr>"

text \<open>The top of the read loop: it returns, or enters \<open>ReadMessage\<close>.\<close>

definition readLoop_check :: "nat \<Rightarrow> PrivateWS \<Rightarrow> PrivateWS" where
  "readLoop_check i sm =
     (if rd_cancelled (pw_readers sm ! i) \<or> pw_done sm then drop_reader i sm
      else if pw_conn sm = None then drop_reader i sm
      else sm\<lparr>pw_readers := (pw_readers sm)[i := (pw_readers sm ! i)\<lparr>rd_reading := True\<rparr>]\<rparr>)"

text \<open>\<open>ReadMessage\<close> returns a message, or (\<open>None\<close>) an error.\<close>

definition readLoop_recv ::
  "PrivateWSStateMachineConfig \<Rightarrow> nat \<Rightarrow> frame option \<Rightarrow> time \<Rightarrow> PrivateWS \<Rightarrow> PrivateWS" where
  "readLoop_recv cfg i msg now sm =
     (case msg of
        None \<Rightarrow>
          drop_reader i (if rd_cancelled (pw_readers sm ! i) \<or> pw_done sm then sm
            else handleConnectionLoss cfg ReasonReadError now sm)
      | Some f \<Rightarrow>
          processMessage f now
            (sm\<lparr>pw_readers := (pw_readers sm)[i := (pw_readers sm ! i)\<lparr>rd_reading := False\<rparr>]\<rparr>))"

text \<open>One tick of the heartbeat loop; \<open>ok\<close> says whether the write succeeds.\<close>

definition heartbeat_tick :: "PrivateWSStateMachineConfig \<Rightarrow> bool \<Rightarrow> time \<Rightarrow> PrivateWS \<Rightarrow> PrivateWS" where
  "heartbeat_tick cfg ok now sm =
     (if pw_done sm then sm\<lparr>pw_heartbeat := False\<rparr>
      else if pw_state sm \<noteq> PWS_Ready \<or> pw_conn sm = None then sm
      else if \<not> ok then (handleConnectionLoss cfg ReasonReadError now sm)\<lparr>pw_heartbeat := False\<rparr>
      else sm)"

definition watchdog_tick :: "PrivateWSStateMachineConfig \<Rightarrow> time \<Rightarrow> PrivateWS \<Rightarrow> PrivateWS" where
  "watchdog_tick cfg now sm =
     (if pw_done sm then sm\<lparr>pw_watchdog := False\<rparr>
      else if pw_state sm \<noteq> PWS_Ready then sm
      else if now - pw_lastLiveness sm \<ge> pc_LivenessTimeout cfg
      then (handleConnectionLoss cfg ReasonLivenessTimeout now sm)\<lparr>pw_watchdog := False\<rparr>
      else sm)"

text \<open>The context of an attempt is cancelled as soon as the attempt has returned.\<close>

definition cancel_last :: "PrivateWS \<Rightarrow> PrivateWS" where
  "cancel_last sm = sm\<lparr>pw_readers := butlast (pw_readers sm) @ [(last (pw_readers sm))\<lparr>rd_cancelled := True\<rparr>]\<rparr>"

datatype loop_outcome = Reconnected | Exhausted | Aborted

text \<open>
  The \<open>for\<close> loop over the attempts: \<open>left\<close> attempts remain; the result has the delays waited.
  \<open>stopped attempt\<close> says that \<open>done\<close> was closed before or during that attempt's wait.
\<close>

fun reconnect_attempts ::
  "PrivateWSStateMachineConfig \<Rightarrow> (nat \<Rightarrow> conn_env) \<Rightarrow> (nat \<Rightarrow> bool) \<Rightarrow> nat \<Rightarrow> nat \<Rightarrow> duration \<Rightarrow>
    PrivateWS \<Rightarrow> loop_outcome \<times> duration list \<times> PrivateWS" where
  "reconnect_attempts cfg env stopped attempt 0 delay sm = (Exhausted, [], sm)"
| "reconnect_attempts cfg env stopped attempt (Suc left) delay sm =
     (if pw_done sm \<or> stopped attempt then (Aborted, [], sm)
      else
        let sm1 = sm\<lparr>pw_reconnectCount := int attempt + 1\<rparr>
        in case attemptReconnect cfg (env attempt) sm1 of
          (None, sm2) \<Rightarrow> (Reconnected, [delay], cancel_last sm2)
        | (Some _, sm2) \<Rightarrow>
            let delay2 = delay * 2;
                delay3 = (if delay2 > pc_MaxBackoff cfg then pc_MaxBackoff cfg else delay2);
                (oc, ds, sm3) = reconnect_attempts cfg env stopped (attempt + 1) left delay3 sm2
            in (oc, delay # ds, sm3))"

definition reconnectLoop ::
  "PrivateWSStateMachineConfig \<Rightarrow> (nat \<Rightarrow> conn_env) \<Rightarrow> (nat \<Rightarrow> bool) \<Rightarrow> time \<Rightarrow> PrivateWS \<Rightarrow>
    loop_outcome \<times> duration list \<times> PrivateWS" where
  "reconnectLoop cfg env stopped now sm =
     (let sm1 = transition cfg PWS_Backoff ReasonLivenessTimeout now (sm\<lparr>pw_reconnectCount := 0\<rparr>)
      in case reconnect_attempts cfg env stopped 0 (nat (pc_MaxReconnectAttempts cfg)) (pc_InitialBackoff cfg) sm1 of
        (Exhausted, ds, sm2) \<Rightarrow>
          (Exhausted, ds, publishStateChange cfg PWS_Backoff PWS_SafeStopped ReasonRetriesExhausted now
             (transition cfg PWS_SafeStopped ReasonRetriesExhausted now sm2))
      | other \<Rightarrow> other)"

section \<open>The system\<close>

datatype pws_input =
    InCheck nat
  | InRecv nat "frame option" time
  | InHeartbeat bool time
  | InWatchdog time
  | InReconnect "nat \<Rightarrow> conn_env" "nat \<Rightarrow> bool" time
  | InStop time

definition pws_step :: "PrivateWSStateMachineConfig \<Rightarrow> pws_input \<Rightarrow> PrivateWS \<Rightarrow> PrivateWS" where
  "pws_step cfg inp sm =
     (case inp of
        InCheck i \<Rightarrow> if i < length (pw_readers sm) \<and> \<not> rd_reading (pw_readers sm ! i)
                     then readLoop_check i sm else sm
      | InRecv i msg now \<Rightarrow> if i < length (pw_readers sm) \<and> rd_reading (pw_readers sm ! i)
                     then readLoop_recv cfg i msg now sm else sm
      | InHeartbeat ok now \<Rightarrow> if pw_heartbeat sm then heartbeat_tick cfg ok now sm else sm
      | InWatchdog now \<Rightarrow> if pw_watchdog sm then watchdog_tick cfg now sm else sm
      | InReconnect env stopped now \<Rightarrow>
          if 0 < pw_reconnects sm
          then snd (snd (reconnectLoop cfg env stopped now (sm\<lparr>pw_reconnects := pw_reconnects sm - 1\<rparr>)))
          else sm
      | InStop now \<Rightarrow> Stop cfg now sm)"

definition pws_run :: "PrivateWSStateMachineConfig \<Rightarrow> pws_input list \<Rightarrow> PrivateWS \<Rightarrow> PrivateWS" where
  "pws_run cfg ins sm = foldl (\<lambda>s i. pws_step cfg i s) sm ins"

section \<open>What the steps leave alone\<close>

lemma publish_fields [simp]:
  "pw_state (publishStateChange cfg a b r now sm) = pw_state sm"
  "pw_epoch (publishStateChange cfg a b r now sm) = pw_epoch sm"
  "pw_lastLiveness (publishStateChange cfg a b r now sm) = pw_lastLiveness sm"
  "pw_reconnectCount (publishStateChange cfg a b r now sm) = pw_reconnectCount sm"
  "pw_conn (publishStateChange cfg a b r now sm) = pw_conn sm"
  "pw_confirmedSubs (publishStateChange cfg a b r now sm) = pw_confirmedSubs sm"
  "pw_onReconcile (publishStateChange cfg a b r now sm) = pw_onReconcile sm"
  "pw_onRiskGate (publishStateChange cfg a b r now sm) = pw_onRiskGate sm"
  "pw_onFill (publishStateChange cfg a b r now sm) = pw_onFill sm"
  "pw_onStateChange (publishStateChange cfg a b r now sm) = pw_onStateChange sm"
  "pw_done (publishStateChange cfg a b r now sm) = pw_done sm"
  "pw_gate (publishStateChange cfg a b r now sm) = pw_gate sm"
  "pw_fills (publishStateChange cfg a b r now sm) = pw_fills sm"
  "pw_readers (publishStateChange cfg a b r now sm) = pw_readers sm"
  "pw_heartbeat (publishStateChange cfg a b r now sm) = pw_heartbeat sm"
  "pw_watchdog (publishStateChange cfg a b r now sm) = pw_watchdog sm"
  "pw_reconnects (publishStateChange cfg a b r now sm) = pw_reconnects sm"
  by (simp_all add: publishStateChange_def)

lemma transition_fields [simp]:
  "pw_state (transition cfg b r now sm) = b"
  "pw_epoch (transition cfg b r now sm) = pw_epoch sm"
  "pw_lastLiveness (transition cfg b r now sm) = pw_lastLiveness sm"
  "pw_reconnectCount (transition cfg b r now sm) = pw_reconnectCount sm"
  "pw_conn (transition cfg b r now sm) = pw_conn sm"
  "pw_confirmedSubs (transition cfg b r now sm) = pw_confirmedSubs sm"
  "pw_onReconcile (transition cfg b r now sm) = pw_onReconcile sm"
  "pw_onRiskGate (transition cfg b r now sm) = pw_onRiskGate sm"
  "pw_onFill (transition cfg b r now sm) = pw_onFill sm"
  "pw_onStateChange (transition cfg b r now sm) = pw_onStateChange sm"
  "pw_done (transition cfg b r now sm) = pw_done sm"
  "pw_gate (transition cfg b r now sm) = pw_gate sm"
  "pw_fills (transition cfg b r now sm) = pw_fills sm"
  "pw_readers (transition cfg b r now sm) = pw_readers sm"
  "pw_heartbeat (transition cfg b r now sm) = pw_heartbeat sm"
  "pw_watchdog (transition cfg b r now sm) = pw_watchdog sm"
  "pw_reconnects (transition cfg b r now sm) = pw_reconnects sm"
  by (simp_all add: transition_def Let_def)

lemma gate_fields [simp]:
  "pw_state (openRiskGate r sm) = pw_state sm" "pw_state (closeRiskGate r sm) = pw_state sm"
  "pw_epoch (openRiskGate r sm) = pw_epoch sm"
  "pw_lastLiveness (openRiskGate r sm) = pw_lastLiveness sm"
  "pw_reconnectCount (openRiskGate r sm) = pw_reconnectCount sm"
  "pw_conn (openRiskGate r sm) = pw_conn sm"
  "pw_confirmedSubs (openRiskGate r sm) = pw_confirmedSubs sm"
  "pw_onReconcile (openRiskGate r sm) = pw_onReconcile sm"
  "pw_onRiskGate (openRiskGate r sm) = pw_onRiskGate sm"
  "pw_onFill (openRiskGate r sm) = pw_onFill sm"
  "pw_onStateChange (openRiskGate r sm) = pw_onStateChange sm"
  "pw_done (openRiskGate r sm) = pw_done sm"
  "pw_fills (openRiskGate r sm) = pw_fills sm"
  "pw_readers (openRiskGate r sm) = pw_readers sm"
  "pw_heartbeat (openRiskGate r sm) = pw_heartbeat sm"
  "pw_watchdog (openRiskGate r sm) = pw_watchdog sm"
  "pw_reconnects (openRiskGate r sm) = pw_reconnects sm"
  "pw_epoch (closeRiskGate r sm) = pw_epoch sm"
  "pw_lastLiveness (closeRiskGate r sm) = pw_lastLiveness sm"
  "pw_reconnectCount (closeRiskGate r sm) = pw_reconnectCount sm"
  "pw_conn (closeRiskGate r sm) = pw_conn sm"
  "pw_confirmedSubs (closeRiskGate r sm) = pw_confirmedSubs sm"
  "pw_onReconcile (closeRiskGate r sm) = pw_onReconcile sm"
  "pw_onRiskGate (closeRiskGate r sm) = pw_onRiskGate sm"
  "pw_onFill (closeRiskGate r sm) = pw_onFill sm"
  "pw_onStateChange (closeRiskGate r sm) = pw_onStateChange sm"
  "pw_done (closeRiskGate r sm) = pw_done sm"
  "pw_fills (closeRiskGate r sm) = pw_fills sm"
  "pw_readers (closeRiskGate r sm) = pw_readers sm"
  "pw_heartbeat (closeRiskGate r sm) = pw_heartbeat sm"
  "pw_watchdog (closeRiskGate r sm) = pw_watchdog sm"
  "pw_reconnects (closeRiskGate r sm) = pw_reconnects sm"
  by (simp_all add: openRiskGate_def closeRiskGate_def)

lemma closeConn_fields [simp]:
  "pw_conn (closeConn sm) = None" "pw_state (closeConn sm) = pw_state sm"
  "pw_epoch (closeConn sm) = pw_epoch sm"
  "pw_lastLiveness (closeConn sm) = pw_lastLiveness sm"
  "pw_reconnectCount (closeConn sm) = pw_reconnectCount sm"
  "pw_confirmedSubs (closeConn sm) = pw_confirmedSubs sm"
  "pw_onReconcile (closeConn sm) = pw_onReconcile sm"
  "pw_onRiskGate (closeConn sm) = pw_onRiskGate sm"
  "pw_onFill (closeConn sm) = pw_onFill sm"
  "pw_onStateChange (closeConn sm) = pw_onStateChange sm"
  "pw_done (closeConn sm) = pw_done sm"
  "pw_gate (closeConn sm) = pw_gate sm"
  "pw_fills (closeConn sm) = pw_fills sm"
  "pw_readers (closeConn sm) = pw_readers sm"
  "pw_heartbeat (closeConn sm) = pw_heartbeat sm"
  "pw_watchdog (closeConn sm) = pw_watchdog sm"
  "pw_reconnects (closeConn sm) = pw_reconnects sm"
  by (simp_all add: closeConn_def)

text \<open>The last word to the risk gate was to open.\<close>

definition gate_open :: "PrivateWS \<Rightarrow> bool" where
  "gate_open sm \<longleftrightarrow> pw_gate sm \<noteq> [] \<and> fst (last (pw_gate sm))"

lemma gate_open_simps [simp]:
  "pw_onRiskGate sm \<Longrightarrow> gate_open (openRiskGate r sm)"
  "pw_onRiskGate sm \<Longrightarrow> \<not> gate_open (closeRiskGate r sm)"
  by (simp_all add: gate_open_def openRiskGate_def closeRiskGate_def)

lemma gate_open_cong: "pw_gate sm = pw_gate sm' \<Longrightarrow> gate_open sm = gate_open sm'"
  by (simp add: gate_open_def)

section \<open>When a connection is good\<close>

definition login_acked :: "conn_env \<Rightarrow> bool" where
  "login_acked env \<longleftrightarrow> ce_login env \<and> ce_write env \<and> ce_deadline env \<and>
     (case ce_reply env of None \<Rightarrow> False | Some f \<Rightarrow>
        (case parse_login f of None \<Rightarrow> False | Some (event, code, _) \<Rightarrow> event = ''login'' \<and> code = ''0''))"

definition ack_matches :: "SubscriptionSpec \<Rightarrow> sub_io \<Rightarrow> bool" where
  "ack_matches sub io \<longleftrightarrow> si_write io \<and> si_deadline io \<and>
     (case si_reply io of None \<Rightarrow> False | Some f \<Rightarrow>
        (case parse_ack f of None \<Rightarrow> False | Some r \<Rightarrow>
           sa_event r = ''subscribe'' \<and> sa_channel r = ss_Channel sub \<and> sa_instType r = ss_InstType sub \<and>
           (ss_InstID sub = [] \<or> sa_instId r = ss_InstID sub)))"

definition connection_good :: "PrivateWSStateMachineConfig \<Rightarrow> conn_env \<Rightarrow> bool \<Rightarrow> bool" where
  "connection_good cfg env reconciles \<longleftrightarrow> ce_dial env \<noteq> None \<and> login_acked env \<and>
     (\<forall>i < length (pc_RequiredSubscriptions cfg). ack_matches (pc_RequiredSubscriptions cfg ! i) (ce_sub env i)) \<and>
     (reconciles \<longrightarrow> ce_reconcile env)"

lemma performAuth_cases:
  assumes "pw_conn sm \<noteq> None"
  shows "if login_acked env then performAuth env sm = (None, sm\<lparr>pw_lastLiveness := ce_t_auth env\<rparr>)
    else (\<exists>e. performAuth env sm = (Some e, sm) \<and> e \<noteq> ReconciliationFailed)"
  using assms by (auto simp: performAuth_def login_acked_def split: option.split)

lemma waitForSubAck_cases:
  assumes "si_write io" and "si_deadline io"
  shows "if ack_matches sub io
    then waitForSubAck (si_reply io) sub sm =
      (None, sm\<lparr>pw_confirmedSubs := insert (subKey sub) (pw_confirmedSubs sm)\<rparr>)
    else (\<exists>e. waitForSubAck (si_reply io) sub sm = (Some e, sm) \<and> e \<noteq> ReconciliationFailed)"
  using assms by (auto simp: waitForSubAck_def ack_matches_def split: option.split)

lemma subscribe_loop_cases:
  "if \<forall>k < length subs. ack_matches (subs ! k) (io (i + k))
   then subscribe_loop io i subs sm =
     (None, sm\<lparr>pw_confirmedSubs := subKey ` set subs \<union> pw_confirmedSubs sm\<rparr>)
   else (\<exists>e C. subscribe_loop io i subs sm = (Some e, sm\<lparr>pw_confirmedSubs := C\<rparr>) \<and> e \<noteq> ReconciliationFailed)"
proof (induction subs arbitrary: i sm)
  case Nil
  then show ?case by simp
next
  case (Cons sub subs)
  have split: "(\<forall>k < length (sub # subs). ack_matches ((sub # subs) ! k) (io (i + k))) \<longleftrightarrow>
      ack_matches sub (io i) \<and> (\<forall>k < length subs. ack_matches (subs ! k) (io (i + 1 + k)))"
    by (auto simp: less_Suc_eq_0_disj nth_Cons split: nat.splits)
  show ?case
  proof (cases "ack_matches sub (io i)")
    case True
    then have "si_write (io i)" "si_deadline (io i)" by (simp_all add: ack_matches_def)
    with True waitForSubAck_cases [of "io i" sub sm]
      Cons.IH [of "i + 1" "sm\<lparr>pw_confirmedSubs := insert (subKey sub) (pw_confirmedSubs sm)\<rparr>"]
    show ?thesis unfolding split by (auto split: if_splits)
  next
    case False
    then have "\<exists>e. subscribe_loop io i (sub # subs) sm = (Some e, sm) \<and> e \<noteq> ReconciliationFailed"
      using waitForSubAck_cases [of "io i" sub sm] by (auto split: if_splits)
    moreover have "sm = sm\<lparr>pw_confirmedSubs := pw_confirmedSubs sm\<rparr>" by simp
    ultimately have "\<exists>e C. subscribe_loop io i (sub # subs) sm = (Some e, sm\<lparr>pw_confirmedSubs := C\<rparr>) \<and>
        e \<noteq> ReconciliationFailed"
      by metis
    with False show ?thesis unfolding split by simp
  qed
qed

lemma performSubscribe_cases:
  assumes "pw_conn sm \<noteq> None"
  shows "if \<forall>i < length (pc_RequiredSubscriptions cfg). ack_matches (pc_RequiredSubscriptions cfg ! i) (ce_sub env i)
   then performSubscribe cfg env sm = (None, sm\<lparr>
     pw_confirmedSubs := subKey ` set (pc_RequiredSubscriptions cfg), pw_lastLiveness := ce_t_sub env\<rparr>)
   else (\<exists>e C. performSubscribe cfg env sm = (Some e, sm\<lparr>pw_confirmedSubs := C\<rparr>) \<and> e \<noteq> ReconciliationFailed)"
  using assms subscribe_loop_cases [of "pc_RequiredSubscriptions cfg" "ce_sub env" 0 "sm\<lparr>pw_confirmedSubs := {}\<rparr>"]
  by (auto simp: performSubscribe_def split: if_splits)

section \<open>What a connection sequence achieves\<close>

definition sequence_spec ::
  "PrivateWSStateMachineConfig \<Rightarrow> conn_env \<Rightarrow> PrivateWS \<Rightarrow> pws_error option \<Rightarrow> PrivateWS \<Rightarrow> bool" where
  "sequence_spec cfg env sm res sm' \<longleftrightarrow>
     (if connection_good cfg env (pw_onReconcile sm)
      then res = None \<and> pw_state sm' = PWS_Ready \<and> pw_conn sm' = ce_dial env \<and>
        pw_epoch sm' = pw_epoch sm + 1 \<and> pw_lastLiveness sm' = ce_t_ready env \<and>
        pw_confirmedSubs sm' = subKey ` set (pc_RequiredSubscriptions cfg) \<and>
        pw_gate sm' = pw_gate sm @ (if pw_onRiskGate sm then [(True, ReasonReconcileComplete)] else []) \<and>
        pw_readers sm' = pw_readers sm @ [new_reader]
      else (case res of None \<Rightarrow> False
        | Some e \<Rightarrow> pw_state sm' = (if e = ReconciliationFailed then PWS_SafeStopped else PWS_Backoff) \<and>
            pw_conn sm' = (if ce_dial env = None then pw_conn sm else None) \<and>
            pw_epoch sm' = pw_epoch sm \<and> pw_gate sm' = pw_gate sm \<and> pw_readers sm' = pw_readers sm))"

definition same_wiring :: "PrivateWS \<Rightarrow> PrivateWS \<Rightarrow> bool" where
  "same_wiring sm' sm \<longleftrightarrow> pw_onStateChange sm' = pw_onStateChange sm \<and> pw_onReconcile sm' = pw_onReconcile sm \<and>
     pw_onRiskGate sm' = pw_onRiskGate sm \<and> pw_onFill sm' = pw_onFill sm \<and> pw_done sm' = pw_done sm \<and>
     pw_heartbeat sm' = pw_heartbeat sm \<and> pw_watchdog sm' = pw_watchdog sm \<and>
     pw_reconnects sm' = pw_reconnects sm \<and> pw_fills sm' = pw_fills sm"

lemma keep_reconnectCount:
  "pw_reconnectCount sm = c \<Longrightarrow> sm\<lparr>pw_lastLiveness := t, pw_epoch := e, pw_reconnectCount := c\<rparr> =
     (sm\<lparr>pw_lastLiveness := t, pw_epoch := e\<rparr> :: PrivateWS)"
  by auto

lemma sequence_cases:
  assumes res: "(if startup then connectSequence cfg env sm else attemptReconnect cfg env sm) = (res, sm')"
  shows "sequence_spec cfg env sm res sm' \<and> same_wiring sm' sm"
proof (cases "ce_dial env")
  case None
  then show ?thesis
    using assms by (cases startup) (auto simp: connectSequence_def attemptReconnect_def sequence_spec_def
        connection_good_def same_wiring_def Let_def)
next
  case (Some conn)
  let ?subs = "\<forall>i < length (pc_RequiredSubscriptions cfg). ack_matches (pc_RequiredSubscriptions cfg ! i) (ce_sub env i)"
  define s2 where "s2 = (if startup
      then transition cfg PWS_Authenticating ReasonStartup (ce_t_auth env)
        ((transition cfg PWS_Connecting ReasonStartup (ce_t_auth env) sm)\<lparr>pw_conn := Some conn\<rparr>)
      else transition cfg PWS_Authenticating ReasonRecoveryProbe (ce_t_auth env)
        ((transition cfg PWS_Connecting ReasonRecoveryProbe (ce_t_auth env) sm)\<lparr>pw_conn := Some conn\<rparr>))"
  have same: "pw_conn s2 = Some conn" "pw_epoch s2 = pw_epoch sm" "pw_gate s2 = pw_gate sm"
    "pw_readers s2 = pw_readers sm" "same_wiring s2 sm"
    by (simp_all add: s2_def same_wiring_def)
  define s4 where "s4 = transition cfg PWS_Subscribing ReasonAuthSuccess (ce_t_auth env)
      (s2\<lparr>pw_lastLiveness := ce_t_auth env\<rparr>)"
  have a: "if login_acked env then performAuth env s2 = (None, s2\<lparr>pw_lastLiveness := ce_t_auth env\<rparr>)
    else (\<exists>e. performAuth env s2 = (Some e, s2) \<and> e \<noteq> ReconciliationFailed)"
    using same(1) by (intro performAuth_cases) simp
  have b: "if ?subs then performSubscribe cfg env s4 = (None, s4\<lparr>
     pw_confirmedSubs := subKey ` set (pc_RequiredSubscriptions cfg), pw_lastLiveness := ce_t_sub env\<rparr>)
   else (\<exists>e C. performSubscribe cfg env s4 = (Some e, s4\<lparr>pw_confirmedSubs := C\<rparr>) \<and> e \<noteq> ReconciliationFailed)"
    using same(1) by (intro performSubscribe_cases) (simp add: s4_def)
  have run: "(if startup then connectSequence cfg env sm else attemptReconnect cfg env sm) = (case performAuth env s2 of
         (Some e, sm3) \<Rightarrow> (Some e, transition cfg PWS_Backoff ReasonAuthFailed (ce_t_auth env) (closeConn sm3))
       | (None, sm3) \<Rightarrow>
      (let sm4 = transition cfg PWS_Subscribing ReasonAuthSuccess (ce_t_auth env) sm3 in
       case performSubscribe cfg env sm4 of
         (Some e, sm5) \<Rightarrow> (Some e, transition cfg PWS_Backoff ReasonSubFailed (ce_t_sub env) (closeConn sm5))
       | (None, sm5) \<Rightarrow>
      (let sm6 = transition cfg PWS_Reconciling ReasonSubConfirmed (ce_t_sub env) sm5 in
       case performReconciliation env sm6 of
         Some e \<Rightarrow> (Some e, transition cfg PWS_SafeStopped ReasonReconcileFailed (ce_t_ready env) (closeConn sm6))
       | None \<Rightarrow>
           let sm7 = sm6\<lparr>pw_lastLiveness := ce_t_ready env, pw_epoch := pw_epoch sm6 + 1,
                 pw_reconnectCount := (if startup then 0 else pw_reconnectCount sm6)\<rparr>;
               sm8 = transition cfg PWS_Ready ReasonReconcileComplete (ce_t_ready env) sm7;
               sm9 = openRiskGate ReasonReconcileComplete sm8
           in (None, sm9\<lparr>pw_readers := pw_readers sm9 @ [new_reader]\<rparr>))))"
    using Some by (cases startup) (simp_all add: s2_def connectSequence_def attemptReconnect_def Let_def keep_reconnectCount
          split: prod.split option.split)
  show ?thesis
  proof (cases "login_acked env \<and> ?subs")
    case False
    then have "\<not> connection_good cfg env r" for r by (auto simp: connection_good_def)
    with False a b run res Some same show ?thesis
      by (cases "login_acked env")
        (auto simp: Let_def s4_def sequence_spec_def same_wiring_def split: if_splits)
  next
    case True
    then have g: "connection_good cfg env r = (r \<longrightarrow> ce_reconcile env)" for r
      using Some by (simp add: connection_good_def)
    from True a b run res have "(res, sm') = (let sm6 = transition cfg PWS_Reconciling ReasonSubConfirmed (ce_t_sub env)
            (s4\<lparr>pw_confirmedSubs := subKey ` set (pc_RequiredSubscriptions cfg), pw_lastLiveness := ce_t_sub env\<rparr>) in
       case performReconciliation env sm6 of
         Some e \<Rightarrow> (Some e, transition cfg PWS_SafeStopped ReasonReconcileFailed (ce_t_ready env) (closeConn sm6))
       | None \<Rightarrow>
           let sm7 = sm6\<lparr>pw_lastLiveness := ce_t_ready env, pw_epoch := pw_epoch sm6 + 1,
                 pw_reconnectCount := (if startup then 0 else pw_reconnectCount sm6)\<rparr>;
               sm8 = transition cfg PWS_Ready ReasonReconcileComplete (ce_t_ready env) sm7;
               sm9 = openRiskGate ReasonReconcileComplete sm8
           in (None, sm9\<lparr>pw_readers := pw_readers sm9 @ [new_reader]\<rparr>))"
      by (simp add: s4_def [symmetric] Let_def)
    then show ?thesis
      using Some same unfolding sequence_spec_def g
      by (auto simp: Let_def s4_def same_wiring_def performReconciliation_def openRiskGate_def split: if_splits)
  qed
qed

section \<open>The reconnect loop\<close>

lemma same_wiring_trans: "same_wiring a b \<Longrightarrow> same_wiring b c \<Longrightarrow> same_wiring a c"
  by (simp add: same_wiring_def)

lemma attempt_cases:
  assumes "attemptReconnect cfg env sm = (res, sm')"
  shows "sequence_spec cfg env sm res sm'" and "same_wiring sm' sm"
  using sequence_cases [of False cfg env sm res sm'] assms by simp_all

lemma cancel_last_fields [simp]:
  "pw_state (cancel_last sm) = pw_state sm" "pw_gate (cancel_last sm) = pw_gate sm"
  "same_wiring (cancel_last sm) x = same_wiring sm x"
  by (simp_all add: cancel_last_def same_wiring_def)

lemma attempts_effect:
  assumes "reconnect_attempts cfg env stopped k n delay sm = (oc, ds, sm')"
    and "pw_state sm = PWS_Backoff \<or> pw_state sm = PWS_SafeStopped"
  shows "same_wiring sm' sm \<and> length ds \<le> n \<and>
    (case oc of
       Reconnected \<Rightarrow> pw_state sm' = PWS_Ready \<and>
         pw_gate sm' = pw_gate sm @ (if pw_onRiskGate sm then [(True, ReasonReconcileComplete)] else []) \<and>
         pw_readers sm' = pw_readers sm @ [new_reader\<lparr>rd_cancelled := True\<rparr>] \<and> ds \<noteq> []
     | Exhausted \<Rightarrow> (pw_state sm' = PWS_Backoff \<or> pw_state sm' = PWS_SafeStopped) \<and> pw_gate sm' = pw_gate sm \<and>
         pw_readers sm' = pw_readers sm \<and> length ds = n
     | Aborted \<Rightarrow> (pw_state sm' = PWS_Backoff \<or> pw_state sm' = PWS_SafeStopped) \<and> pw_gate sm' = pw_gate sm \<and>
         pw_readers sm' = pw_readers sm)"
  using assms
proof (induction n arbitrary: k delay sm ds)
  case 0
  then show ?case by (auto simp: same_wiring_def)
next
  case (Suc n)
  show ?case
  proof (cases "pw_done sm \<or> stopped k")
    case True
    with Suc.prems show ?thesis by (auto simp: same_wiring_def)
  next
    case False
    let ?s1 = "sm\<lparr>pw_reconnectCount := int k + 1\<rparr>"
    obtain res s2 where att: "attemptReconnect cfg (env k) ?s1 = (res, s2)" by (meson surj_pair)
    note sp = attempt_cases [OF att]
    have w: "same_wiring s2 sm" using sp(2) by (simp add: same_wiring_def)
    show ?thesis
    proof (cases res)
      case None
      with Suc.prems False att have eq: "oc = Reconnected" "ds = [delay]" "sm' = cancel_last s2"
        by (simp_all add: Let_def)
      from sp(1) None have "pw_state s2 = PWS_Ready"
        "pw_gate s2 = pw_gate sm @ (if pw_onRiskGate sm then [(True, ReasonReconcileComplete)] else [])"
        "pw_readers s2 = pw_readers sm @ [new_reader]"
        by (auto simp: sequence_spec_def split: if_splits)
      with eq w show ?thesis by (simp add: cancel_last_def same_wiring_def)
    next
      case (Some e)
      define delay3 where "delay3 = (if delay * 2 > pc_MaxBackoff cfg then pc_MaxBackoff cfg else delay * 2)"
      obtain oc' ds' s3 where rest: "reconnect_attempts cfg env stopped (k + 1) n delay3 s2 = (oc', ds', s3)"
        by (metis prod_cases3)
      with Suc.prems False att Some have eq: "oc = oc'" "ds = delay # ds'" "sm' = s3"
        by (simp_all add: Let_def delay3_def)
      from sp(1) Some have st: "pw_state s2 = PWS_Backoff \<or> pw_state s2 = PWS_SafeStopped"
        "pw_gate s2 = pw_gate sm" "pw_readers s2 = pw_readers sm"
        by (auto simp: sequence_spec_def split: if_splits)
      from Suc.IH [OF rest [folded eq(1,3)] st(1)] w st eq show ?thesis
        by (cases oc) (auto simp: same_wiring_def)
    qed
  qed
qed

lemma attempts_delays:
  assumes "reconnect_attempts cfg env stopped k n delay sm = (oc, ds, sm')"
    and "delay = min (d0 * 2 ^ k) (pc_MaxBackoff cfg)" and "0 \<le> d0" and "0 \<le> pc_MaxBackoff cfg"
  shows "ds = map (\<lambda>i. min (d0 * 2 ^ i) (pc_MaxBackoff cfg)) [k..<k + length ds]"
  using assms(1,2)
proof (induction n arbitrary: k delay sm ds)
  case 0
  then show ?case by simp
next
  case (Suc n)
  show ?case
  proof (cases "pw_done sm \<or> stopped k")
    case True
    with Suc.prems show ?thesis by auto
  next
    case False
    obtain res s2 where att: "attemptReconnect cfg (env k) (sm\<lparr>pw_reconnectCount := int k + 1\<rparr>) = (res, s2)"
      by (meson surj_pair)
    show ?thesis
    proof (cases res)
      case None
      with Suc.prems False att have "ds = [min (d0 * 2 ^ k) (pc_MaxBackoff cfg)]" by (auto simp: Let_def)
      then show ?thesis by simp
    next
      case (Some e)
      define delay3 where "delay3 = (if delay * 2 > pc_MaxBackoff cfg then pc_MaxBackoff cfg else delay * 2)"
      have d3: "delay3 = min (d0 * 2 ^ (k + 1)) (pc_MaxBackoff cfg)"
        using Suc.prems(2) assms(4) by (auto simp: delay3_def min_def)
      obtain oc' ds' s3 where rest: "reconnect_attempts cfg env stopped (k + 1) n delay3 s2 = (oc', ds', s3)"
        by (metis prod_cases3)
      with Suc.prems(1) False att Some have eq: "oc = oc'" "ds = delay # ds'" "sm' = s3"
        by (simp_all add: Let_def delay3_def)
      have "ds' = map (\<lambda>i. min (d0 * 2 ^ i) (pc_MaxBackoff cfg)) [k + 1..<k + 1 + length ds']"
        using Suc.IH [OF rest [folded eq(1,3)] d3] .
      then show ?thesis
        unfolding eq(2) using Suc.prems(2)
        by (simp add: upt_conv_Cons del: upt_Suc) 
    qed
  qed
qed

lemma reconnectLoop_effect:
  assumes "reconnectLoop cfg env stopped now sm = (oc, ds, sm')"
  shows "same_wiring sm' sm \<and> length ds \<le> nat (pc_MaxReconnectAttempts cfg) \<and>
    (case oc of
       Reconnected \<Rightarrow> pw_state sm' = PWS_Ready \<and>
         pw_gate sm' = pw_gate sm @ (if pw_onRiskGate sm then [(True, ReasonReconcileComplete)] else []) \<and>
         pw_readers sm' = pw_readers sm @ [new_reader\<lparr>rd_cancelled := True\<rparr>] \<and> ds \<noteq> []
     | Exhausted \<Rightarrow> pw_state sm' = PWS_SafeStopped \<and> pw_gate sm' = pw_gate sm \<and>
         pw_readers sm' = pw_readers sm \<and> length ds = nat (pc_MaxReconnectAttempts cfg)
     | Aborted \<Rightarrow> (pw_state sm' = PWS_Backoff \<or> pw_state sm' = PWS_SafeStopped) \<and> pw_gate sm' = pw_gate sm \<and>
         pw_readers sm' = pw_readers sm)"
proof -
  let ?s1 = "transition cfg PWS_Backoff ReasonLivenessTimeout now (sm\<lparr>pw_reconnectCount := 0\<rparr>)"
  obtain oc' ds' s2 where run: "reconnect_attempts cfg env stopped 0 (nat (pc_MaxReconnectAttempts cfg))
      (pc_InitialBackoff cfg) ?s1 = (oc', ds', s2)"
    by (metis prod_cases3)
  have "same_wiring ?s1 sm" by (simp add: same_wiring_def)
  moreover note attempts_effect [OF run]
  moreover have "oc = oc'" "ds = ds'" "same_wiring sm' s2" "pw_gate sm' = pw_gate s2" "pw_readers sm' = pw_readers s2"
    "pw_state sm' = (if oc' = Exhausted then PWS_SafeStopped else pw_state s2)"
    using assms run by (cases oc'; auto simp: reconnectLoop_def Let_def same_wiring_def)+
  ultimately show ?thesis
    by (cases oc') (auto simp: same_wiring_def)
qed

section \<open>Invariants of a run\<close>

definition gate_inv :: "PrivateWS \<Rightarrow> bool" where
  "gate_inv sm \<longleftrightarrow> pw_onRiskGate sm \<and> \<not> pw_done sm \<and>
     (pw_state sm = PWS_Ready \<or> pw_state sm = PWS_Unhealthy \<or> pw_state sm = PWS_Backoff \<or>
      pw_state sm = PWS_SafeStopped) \<and>
     (gate_open sm \<longleftrightarrow> pw_state sm = PWS_Ready) \<and>
     pw_reconnects sm \<le> (if pw_state sm = PWS_Unhealthy then 1 else 0)"

lemma gate_inv_cong:
  "gate_inv sm \<Longrightarrow> pw_onRiskGate sm' = pw_onRiskGate sm \<Longrightarrow> pw_done sm' = pw_done sm \<Longrightarrow>
     pw_state sm' = pw_state sm \<Longrightarrow> pw_gate sm' = pw_gate sm \<Longrightarrow> pw_reconnects sm' = pw_reconnects sm \<Longrightarrow>
     gate_inv sm'"
  by (simp add: gate_inv_def gate_open_def)

lemma handleConnectionLoss_effect:
  "if pw_state sm = PWS_Unhealthy \<or> pw_state sm = PWS_Backoff \<or> pw_state sm = PWS_SafeStopped \<or>
      pw_state sm = PWS_Disconnected
   then handleConnectionLoss cfg r now sm = sm
   else pw_state (handleConnectionLoss cfg r now sm) = PWS_Unhealthy \<and>
     pw_gate (handleConnectionLoss cfg r now sm) = pw_gate (closeRiskGate r sm) \<and>
     pw_conn (handleConnectionLoss cfg r now sm) = None \<and>
     pw_reconnects (handleConnectionLoss cfg r now sm) = pw_reconnects sm + 1"
  by (simp add: handleConnectionLoss_def Let_def closeRiskGate_def)

lemma handleConnectionLoss_wiring [simp]:
  "pw_onRiskGate (handleConnectionLoss cfg r now sm) = pw_onRiskGate sm"
  "pw_done (handleConnectionLoss cfg r now sm) = pw_done sm"
  "pw_readers (handleConnectionLoss cfg r now sm) = pw_readers sm"
  "pw_watchdog (handleConnectionLoss cfg r now sm) = pw_watchdog sm"
  "pw_heartbeat (handleConnectionLoss cfg r now sm) = pw_heartbeat sm"
  "pw_fills (handleConnectionLoss cfg r now sm) = pw_fills sm"
  "pw_lastLiveness (handleConnectionLoss cfg r now sm) = pw_lastLiveness sm"
  by (simp_all add: handleConnectionLoss_def Let_def)

lemma handleConnectionLoss_inv [inv_intros]:
  "gate_inv sm \<Longrightarrow> gate_inv (handleConnectionLoss cfg r now sm)"
  using handleConnectionLoss_effect [of sm cfg r now]
  by (auto simp: gate_inv_def gate_open_def closeRiskGate_def split: if_splits)

lemma processMessage_fields [simp]:
  "pw_onRiskGate (processMessage f now sm) = pw_onRiskGate sm"
  "pw_done (processMessage f now sm) = pw_done sm"
  "pw_state (processMessage f now sm) = pw_state sm"
  "pw_gate (processMessage f now sm) = pw_gate sm"
  "pw_reconnects (processMessage f now sm) = pw_reconnects sm"
  by (simp_all add: processMessage_def dispatchFill_def split: option.split)

lemma gate_inv_drop [inv_intros]: "gate_inv sm \<Longrightarrow> gate_inv (drop_reader i sm)"
  by (rule gate_inv_cong) (simp_all add: drop_reader_def)

lemma gate_inv_flags [inv_intros]:
  "gate_inv sm \<Longrightarrow> gate_inv (sm\<lparr>pw_heartbeat := b\<rparr>)" "gate_inv sm \<Longrightarrow> gate_inv (sm\<lparr>pw_watchdog := b\<rparr>)"
  "gate_inv sm \<Longrightarrow> gate_inv (sm\<lparr>pw_readers := rs\<rparr>)"
  by (erule gate_inv_cong, simp_all)+

lemma reconnect_inv:
  assumes "gate_inv sm" and "0 < pw_reconnects sm"
    and "reconnectLoop cfg env stopped now (sm\<lparr>pw_reconnects := pw_reconnects sm - 1\<rparr>) = (oc, ds, sm')"
  shows "gate_inv sm'"
proof -
  from assms(1,2) have "pw_state sm = PWS_Unhealthy" "pw_reconnects sm = 1" "\<not> gate_open sm"
    by (auto simp: gate_inv_def split: if_splits)
  with assms(1) reconnectLoop_effect [OF assms(3)] show ?thesis
    by (cases oc) (auto simp: gate_inv_def gate_open_def same_wiring_def)
qed

lemma pws_step_inv:
  assumes "gate_inv sm" and "\<forall>t. inp \<noteq> InStop t"
  shows "gate_inv (pws_step cfg inp sm)"
proof (cases inp)
  case (InCheck i)
  with assms(1) show ?thesis by (simp add: pws_step_def readLoop_check_def inv_intros)
next
  case (InRecv i msg now)
  have "gate_inv (processMessage f now (sm\<lparr>pw_readers := rs\<rparr>))" for f rs
    using assms(1) by (rule gate_inv_cong) simp_all
  with InRecv assms(1) show ?thesis
    by (simp add: pws_step_def readLoop_recv_def inv_intros split: option.split)
next
  case (InHeartbeat ok now)
  with assms(1) show ?thesis by (simp add: pws_step_def heartbeat_tick_def inv_intros)
next
  case (InWatchdog now)
  with assms(1) show ?thesis by (simp add: pws_step_def watchdog_tick_def inv_intros)
next
  case (InReconnect env stopped now)
  obtain oc ds sm' where "reconnectLoop cfg env stopped now (sm\<lparr>pw_reconnects := pw_reconnects sm - 1\<rparr>) = (oc, ds, sm')"
    by (metis prod_cases3)
  with InReconnect assms(1) reconnect_inv [OF assms(1) _ this] show ?thesis by (simp add: pws_step_def)
qed (use assms in simp)

lemma pws_run_inv:
  "gate_inv sm \<Longrightarrow> \<forall>inp \<in> set ins. \<forall>t. inp \<noteq> InStop t \<Longrightarrow> gate_inv (pws_run cfg ins sm)"
  by (induction ins arbitrary: sm) (auto simp: pws_run_def pws_step_inv)

lemma Start_effect:
  assumes "Start cfg env sm = (res, sm')" and "pw_state sm = PWS_Disconnected" and "pw_onRiskGate sm"
    and "pw_reconnects sm = 0"
  shows "gate_inv sm'"
proof -
  let ?s = "closeRiskGate ReasonStartup (sm\<lparr>pw_done := False\<rparr>)"
  obtain r s1 where c: "connectSequence cfg env ?s = (r, s1)" by (meson surj_pair)
  have sp: "sequence_spec cfg env ?s r s1 \<and> same_wiring s1 ?s"
    using sequence_cases [of True cfg env ?s r s1] c by simp
  have wiring: "pw_onRiskGate s1" "\<not> pw_done s1" "pw_reconnects s1 = 0"
    using sp assms(3,4) by (simp_all add: same_wiring_def closeRiskGate_def)
  have "pw_state s1 = PWS_Ready \<and> gate_open s1 \<or> pw_state s1 \<in> {PWS_SafeStopped, PWS_Backoff} \<and> \<not> gate_open s1"
  proof (cases "connection_good cfg env (pw_onReconcile ?s)")
    case True
    with sp assms(3) show ?thesis by (simp add: sequence_spec_def gate_open_def closeRiskGate_def)
  next
    case False
    with sp obtain e where "pw_state s1 = (if e = ReconciliationFailed then PWS_SafeStopped else PWS_Backoff)"
      "pw_gate s1 = pw_gate ?s" by (auto simp: sequence_spec_def split: option.splits)
    with assms(3) show ?thesis by (simp add: gate_open_def closeRiskGate_def)
  qed
  with wiring have "gate_inv s1" by (auto simp: gate_inv_def)
  with assms(1,2) c show ?thesis
    by (auto simp: Start_def inv_intros split: option.splits)
qed

section \<open>Inputs for the witnesses\<close>

definition demo_sub :: SubscriptionSpec where
  "demo_sub = \<lparr>ss_Channel = ''orders'', ss_InstType = ''SPOT'', ss_InstID = []\<rparr>"

definition demo_cfg :: PrivateWSStateMachineConfig where
  "demo_cfg = DefaultPrivateWSStateMachineConfig\<lparr>pc_RequiredSubscriptions := [demo_sub]\<rparr>"

definition demo_conn :: "time \<Rightarrow> conn_env" where
  "demo_conn t = \<lparr>ce_dial = Some 1, ce_login = True, ce_write = True, ce_deadline = True,
     ce_reply = Some (JsonFrame (JObj [(''event'', JStr ''login''), (''code'', JStr ''0'')])),
     ce_sub = (\<lambda>_. \<lparr>si_write = True, si_deadline = True,
       si_reply = Some (JsonFrame (JObj [(''event'', JStr ''subscribe''),
         (''arg'', JObj [(''channel'', JStr ''orders''), (''instType'', JStr ''SPOT'')])]))\<rparr>),
     ce_reconcile = True, ce_t_auth = t, ce_t_sub = t, ce_t_ready = t\<rparr>"

definition demo_sm :: PrivateWS where
  "demo_sm = NewPrivateWSStateMachine\<lparr>pw_onRiskGate := True, pw_onReconcile := True\<rparr>"

lemma demo_parse:
  "parse_login (JsonFrame (JObj [(''event'', JStr ''login''), (''code'', JStr ''0'')])) = Some (''login'', ''0'', [])"
  "parse_ack (JsonFrame (JObj [(''event'', JStr ''subscribe''),
     (''arg'', JObj [(''channel'', JStr ''orders''), (''instType'', JStr ''SPOT'')])])) =
   Some \<lparr>sa_event = ''subscribe'', sa_code = [], sa_msg = [], sa_channel = ''orders'', sa_instType = ''SPOT'',
     sa_instId = [], sa_hasData = False\<rparr>"
  by (simp_all add: parse_login_def parse_ack_def str_field_def raw_field_def sub_field_def)

lemma demo_good: "connection_good demo_cfg (demo_conn t) True"
  by (simp add: connection_good_def login_acked_def ack_matches_def demo_cfg_def demo_conn_def demo_sub_def
      demo_parse)

definition demo_started :: PrivateWS where
  "demo_started = snd (Start demo_cfg (demo_conn 0) demo_sm)"

lemma demo_start:
  "Start demo_cfg (demo_conn 0) demo_sm = (None, demo_started)"
  "pw_state demo_started = PWS_Ready" "pw_lastLiveness demo_started = 0" "pw_watchdog demo_started"
  "pw_heartbeat demo_started" "pw_readers demo_started = [new_reader]" "pw_onReconcile demo_started"
  "pw_onRiskGate demo_started" "pw_conn demo_started = Some 1" "gate_open demo_started"
proof -
  let ?s = "closeRiskGate ReasonStartup (demo_sm\<lparr>pw_done := False\<rparr>)"
  obtain r s1 where c: "connectSequence demo_cfg (demo_conn 0) ?s = (r, s1)" by (meson surj_pair)
  have sp: "sequence_spec demo_cfg (demo_conn 0) ?s r s1 \<and> same_wiring s1 ?s"
    using sequence_cases [of True demo_cfg "demo_conn 0" ?s r s1] c by simp
  have f: "pw_onReconcile demo_sm" "pw_onRiskGate demo_sm" "pw_state demo_sm = PWS_Disconnected"
    "pw_readers demo_sm = []" "ce_dial (demo_conn 0) = Some 1" "ce_t_ready (demo_conn 0) = 0"
    by (simp_all add: demo_sm_def NewPrivateWSStateMachine_def demo_conn_def)
  have g: "connection_good demo_cfg (demo_conn 0) (pw_onReconcile ?s)" using f demo_good [of 0] by simp
  from sp g have "r = None" by (simp add: sequence_spec_def)
  with c f have st: "Start demo_cfg (demo_conn 0) demo_sm = (None, s1\<lparr>pw_heartbeat := True, pw_watchdog := True\<rparr>)"
    by (simp add: Start_def)
  then have d: "demo_started = s1\<lparr>pw_heartbeat := True, pw_watchdog := True\<rparr>" by (simp add: demo_started_def)
  show "Start demo_cfg (demo_conn 0) demo_sm = (None, demo_started)" using st d by simp
  show "pw_state demo_started = PWS_Ready" "pw_lastLiveness demo_started = 0" "pw_watchdog demo_started"
    "pw_heartbeat demo_started" "pw_readers demo_started = [new_reader]" "pw_onReconcile demo_started"
    "pw_onRiskGate demo_started" "pw_conn demo_started = Some 1" "gate_open demo_started"
    using sp g f by (simp_all add: d sequence_spec_def same_wiring_def gate_open_def)
qed

section \<open>Properties\<close>

text \<open>C11: the machine becomes ready, and tells the risk gate to open, exactly when the dial succeeded,
  the login was acknowledged with code 0, every required subscription was acknowledged by a reply
  that names it, in order, and reconciliation succeeded. In every other case it reports an error,
  says nothing to the gate, drops the connection and backs off - or stops safely if it was the
  reconciliation that failed. This holds for the first connection and for every reconnection.\<close>

theorem ready_only_on_good_connection:
  "(case connectSequence cfg env sm of (res, sm') \<Rightarrow> sequence_spec cfg env sm res sm') \<and>
   (case attemptReconnect cfg env sm of (res, sm') \<Rightarrow> sequence_spec cfg env sm res sm')"
  using sequence_cases [of True cfg env sm] sequence_cases [of False cfg env sm]
  by (auto split: prod.split)



text \<open>A watchdog tick on a ready machine declares the connection lost exactly when the last evidence
  of life is at least the liveness timeout old; it then closes the gate, drops the connection and
  starts one reconnect loop, and otherwise changes nothing.\<close>

theorem watchdog_detects:
  assumes "pw_state sm = PWS_Ready" and "\<not> pw_done sm" and "pw_watchdog sm" and "pw_onRiskGate sm"
  shows "if pw_lastLiveness sm + pc_LivenessTimeout cfg \<le> now
    then let sm' = pws_step cfg (InWatchdog now) sm in
      pw_state sm' = PWS_Unhealthy \<and> pw_gate sm' = pw_gate sm @ [(False, ReasonLivenessTimeout)] \<and>
      pw_conn sm' = None \<and> pw_reconnects sm' = pw_reconnects sm + 1
    else pws_step cfg (InWatchdog now) sm = sm"
  using assms handleConnectionLoss_effect [of sm cfg ReasonLivenessTimeout now]
  by (auto simp: pws_step_def watchdog_tick_def Let_def closeRiskGate_def)

theorem watchdog_detects_witness:
  "pw_conn (pws_step demo_cfg (InWatchdog 45000000000) demo_started) = None"
proof -
  have "\<not> pw_done demo_started"
    using Start_effect [OF demo_start(1)] by (simp add: gate_inv_def demo_sm_def NewPrivateWSStateMachine_def)
  from watchdog_detects [OF demo_start(2) this demo_start(4,8), of demo_cfg 45000000000] show ?thesis
    by (simp add: demo_start(3) demo_cfg_def DefaultPrivateWSStateMachineConfig_def Let_def)
qed

text \<open>The reconnect loop waits \<open>min (initial * 2^i) max\<close> before its attempt \<open>i\<close>, makes at most
  \<open>MaxReconnectAttempts\<close> of them, and ends ready with the gate opened, or - all attempts used up -
  safely stopped, or aborted; the gate hears nothing unless it is ready.\<close>

theorem reconnect_backoff_bounded:
  assumes "reconnectLoop cfg env stopped now sm = (oc, ds, sm')"
    and "0 \<le> pc_InitialBackoff cfg" and "pc_InitialBackoff cfg \<le> pc_MaxBackoff cfg"
  shows "ds = map (\<lambda>i. min (pc_InitialBackoff cfg * 2 ^ i) (pc_MaxBackoff cfg)) [0..<length ds] \<and>
    length ds \<le> nat (pc_MaxReconnectAttempts cfg) \<and>
    (case oc of
       Reconnected \<Rightarrow> pw_state sm' = PWS_Ready
     | Exhausted \<Rightarrow> pw_state sm' = PWS_SafeStopped \<and> length ds = nat (pc_MaxReconnectAttempts cfg) \<and>
         pw_gate sm' = pw_gate sm
     | Aborted \<Rightarrow> pw_state sm' \<noteq> PWS_Ready \<and> pw_gate sm' = pw_gate sm)"
proof -
  let ?s1 = "transition cfg PWS_Backoff ReasonLivenessTimeout now (sm\<lparr>pw_reconnectCount := 0\<rparr>)"
  obtain oc' ds' s2 where run: "reconnect_attempts cfg env stopped 0 (nat (pc_MaxReconnectAttempts cfg))
      (pc_InitialBackoff cfg) ?s1 = (oc', ds', s2)"
    by (metis prod_cases3)
  have "ds = ds'" using assms(1) run by (cases oc') (auto simp: reconnectLoop_def Let_def)
  moreover have "ds' = map (\<lambda>i. min (pc_InitialBackoff cfg * 2 ^ i) (pc_MaxBackoff cfg)) [0..<0 + length ds']"
    using assms(2,3) by (intro attempts_delays [OF run]) auto
  ultimately show ?thesis
    using reconnectLoop_effect [OF assms(1)] by (cases oc) auto
qed

theorem reconnect_backoff_bounded_witness:
  "sum_list (fst (snd (reconnectLoop demo_cfg (\<lambda>_. (demo_conn 0)\<lparr>ce_dial := None\<rparr>) (\<lambda>_. False) 0
     (demo_started\<lparr>pw_state := PWS_Unhealthy\<rparr>)))) \<le> 181 * 1000000000"
proof -
  obtain oc ds sm' where r: "reconnectLoop demo_cfg (\<lambda>_. (demo_conn 0)\<lparr>ce_dial := None\<rparr>) (\<lambda>_. False) 0
     (demo_started\<lparr>pw_state := PWS_Unhealthy\<rparr>) = (oc, ds, sm')"
    by (metis prod_cases3)
  define b where "b = (\<lambda>i. min ((1000000000::int) * 2 ^ i) 30000000000)"
  have ds: "ds = map b [0..<length ds]" "length ds \<le> 10"
    using reconnect_backoff_bounded [OF r]
    by (simp_all add: demo_cfg_def DefaultPrivateWSStateMachineConfig_def b_def)
  have "sum_list (map b [0..<n]) \<le> sum_list (map b [0..<n + k])" for n k
  proof (induction k)
    case (Suc k)
    have "0 \<le> b (n + k)" by (simp add: b_def)
    with Suc show ?case by simp
  qed simp
  from this [of "length ds" "10 - length ds"] ds(2) have "sum_list (map b [0..<length ds]) \<le> sum_list (map b [0..<10])"
    by simp
  also have "\<dots> = 181 * 1000000000" by (simp add: b_def upt_rec)
  finally show ?thesis using ds(1) r by simp
qed

text \<open>A connection nobody watches: no watchdog, every read loop cancelled.\<close>

definition unwatched :: "PrivateWS \<Rightarrow> bool" where
  "unwatched sm \<longleftrightarrow> pw_state sm = PWS_Ready \<and> \<not> pw_watchdog sm \<and> pw_reconnects sm = 0 \<and>
     (\<forall>r \<in> set (pw_readers sm). rd_cancelled r \<and> \<not> rd_reading r)"

lemma unwatched_step:
  assumes "unwatched sm" and "\<forall>t. inp \<noteq> InStop t" and "\<forall>t. inp \<noteq> InHeartbeat False t"
  shows "unwatched (pws_step cfg inp sm) \<and> pw_gate (pws_step cfg inp sm) = pw_gate sm \<and>
    pw_lastLiveness (pws_step cfg inp sm) = pw_lastLiveness sm \<and> pw_fills (pws_step cfg inp sm) = pw_fills sm"
proof (cases inp)
  case (InCheck i)
  have "set (take i xs @ drop (Suc i) xs) \<subseteq> set xs" for xs :: "reader list"
    using set_take_subset set_drop_subset by fastforce
  with assms(1) InCheck show ?thesis
    by (auto simp: pws_step_def readLoop_check_def unwatched_def drop_reader_def dest!: subsetD)
next
  case (InRecv i msg now)
  with assms(1) show ?thesis by (auto simp: pws_step_def unwatched_def)
next
  case (InHeartbeat ok now)
  with assms show ?thesis by (auto simp: pws_step_def heartbeat_tick_def unwatched_def)
qed (use assms in \<open>auto simp: pws_step_def unwatched_def\<close>)

lemma unwatched_run:
  "unwatched sm \<Longrightarrow> \<forall>inp \<in> set ins. (\<forall>t. inp \<noteq> InStop t) \<and> (\<forall>t. inp \<noteq> InHeartbeat False t) \<Longrightarrow>
     unwatched (pws_run cfg ins sm) \<and> pw_gate (pws_run cfg ins sm) = pw_gate sm \<and>
     pw_lastLiveness (pws_run cfg ins sm) = pw_lastLiveness sm \<and> pw_fills (pws_run cfg ins sm) = pw_fills sm"
proof (induction ins arbitrary: sm)
  case (Cons i ins)
  have st: "pws_run cfg (i # ins) sm = pws_run cfg ins (pws_step cfg i sm)" by (simp add: pws_run_def)
  show ?case
    unfolding st using unwatched_step [OF Cons.prems(1), of i cfg] Cons.prems(2)
      Cons.IH [of "pws_step cfg i sm"] by auto
qed (simp add: pws_run_def)

text \<open>After the watchdog has caught a dead connection and the reconnect loop has connected again,
  nothing guards the new connection: the watchdog loop has returned and is not started again, and
  the context of the new read loop is cancelled as soon as the attempt succeeds. However old the
  last evidence of life becomes, the machine stays ready with the gate open, no fill is delivered
  any more, and only a failing heartbeat write could still notice.\<close>

theorem reconnected_machine_is_deaf:
  assumes "pw_state sm = PWS_Ready" and "\<not> pw_done sm" and "pw_watchdog sm" and "pw_onRiskGate sm"
    and "pw_readers sm = []" and "pw_reconnects sm = 0"
    and "pw_lastLiveness sm + pc_LivenessTimeout cfg \<le> t"
    and "smr = pws_run cfg [InWatchdog t, InReconnect env stopped u] sm" and "IsReady smr"
    and "\<forall>inp \<in> set ins. (\<forall>t. inp \<noteq> InStop t) \<and> (\<forall>t. inp \<noteq> InHeartbeat False t)"
  shows "IsReady (pws_run cfg ins smr) \<and> gate_open (pws_run cfg ins smr) \<and>
    pw_lastLiveness (pws_run cfg ins smr) = pw_lastLiveness smr \<and>
    pw_fills (pws_run cfg ins smr) = pw_fills smr"
proof -
  define s1 where "s1 = pws_step cfg (InWatchdog t) sm"
  have s1: "pw_state s1 = PWS_Unhealthy" "pw_reconnects s1 = 1" "pw_readers s1 = []" "\<not> pw_watchdog s1"
    "pw_onRiskGate s1"
    using assms(1-7) handleConnectionLoss_effect [of sm cfg ReasonLivenessTimeout t]
    by (auto simp: s1_def pws_step_def watchdog_tick_def)
  obtain oc ds s2 where r: "reconnectLoop cfg env stopped u (s1\<lparr>pw_reconnects := 0\<rparr>) = (oc, ds, s2)"
    by (metis prod_cases3)
  have "smr = pws_step cfg (InReconnect env stopped u) s1"
    by (simp only: assms(8) pws_run_def foldl.simps s1_def)
  with s1(2) r have smr: "smr = s2" by (simp add: pws_step_def)
  from reconnectLoop_effect [OF r] assms(9) s1 have "unwatched smr" "gate_open smr"
    by (auto simp: smr IsReady_def unwatched_def same_wiring_def new_reader_def gate_open_def
        split: loop_outcome.splits)
  with unwatched_run [OF this(1) assms(10), of cfg] show ?thesis
    by (auto simp: unwatched_def IsReady_def gate_open_def)
qed

theorem reconnected_machine_is_deaf_witness:
  "\<exists>sm2. IsReady sm2 \<and> pw_lastLiveness sm2 = 60000000000 \<and>
     IsReady (pws_run demo_cfg [InCheck 0, InWatchdog 900000000000] sm2)"
proof -
  let ?sm = "demo_started\<lparr>pw_readers := []\<rparr>"
  have st: "gate_inv demo_started"
    using Start_effect [OF demo_start(1)] by (simp add: demo_sm_def NewPrivateWSStateMachine_def)
  then have d: "\<not> pw_done demo_started" "pw_reconnects demo_started = 0" "pw_state demo_started = PWS_Ready"
    using demo_start(2) by (simp_all add: gate_inv_def)
  define s1 where "s1 = pws_step demo_cfg (InWatchdog 45000000000) ?sm"
  have s1: "pw_reconnects s1 = 1" "pw_onReconcile s1" "\<not> pw_done s1"
    using d demo_start handleConnectionLoss_effect [of ?sm demo_cfg ReasonLivenessTimeout 45000000000]
    by (auto simp: s1_def pws_step_def watchdog_tick_def demo_cfg_def DefaultPrivateWSStateMachineConfig_def
        handleConnectionLoss_def Let_def)
  let ?sm2 = "pws_run demo_cfg [InWatchdog 45000000000, InReconnect (\<lambda>_. demo_conn 60000000000) (\<lambda>_. False) 45000000000] ?sm"
  define p1 where "p1 = (transition demo_cfg PWS_Backoff ReasonLivenessTimeout 45000000000
      (s1\<lparr>pw_reconnects := 0, pw_reconnectCount := 0\<rparr>))\<lparr>pw_reconnectCount := 1\<rparr>"
  obtain res s2 where att: "attemptReconnect demo_cfg (demo_conn 60000000000) p1 = (res, s2)" by (meson surj_pair)
  have "pw_onReconcile p1" using s1 by (simp add: p1_def)
  with attempt_cases(1) [OF att] demo_good [of 60000000000]
  have s2: "res = None" "pw_state s2 = PWS_Ready" "pw_lastLiveness s2 = 60000000000"
    by (simp_all add: sequence_spec_def demo_conn_def)
  have att1: "nat (pc_MaxReconnectAttempts demo_cfg) = Suc 9"
    by (simp add: demo_cfg_def DefaultPrivateWSStateMachineConfig_def)
  have "?sm2 = pws_step demo_cfg (InReconnect (\<lambda>_. demo_conn 60000000000) (\<lambda>_. False) 45000000000) s1"
    by (simp only: pws_run_def foldl.simps s1_def)
  moreover have "reconnect_attempts demo_cfg (\<lambda>_. demo_conn 60000000000) (\<lambda>_. False) 0
      (nat (pc_MaxReconnectAttempts demo_cfg)) (pc_InitialBackoff demo_cfg)
      (transition demo_cfg PWS_Backoff ReasonLivenessTimeout 45000000000
        (s1\<lparr>pw_reconnects := 0, pw_reconnectCount := 0\<rparr>)) = (Reconnected, [pc_InitialBackoff demo_cfg], cancel_last s2)"
    unfolding att1 reconnect_attempts.simps using s1 att s2(1) by (simp add: p1_def Let_def)
  ultimately have "?sm2 = cancel_last s2"
    using s1 by (simp add: pws_step_def reconnectLoop_def Let_def)
  then have "IsReady ?sm2" "pw_lastLiveness ?sm2 = 60000000000"
    using s2 by (simp_all add: IsReady_def cancel_last_def)
  moreover have "IsReady (pws_run demo_cfg [InCheck 0, InWatchdog 900000000000] ?sm2)"
    using reconnected_machine_is_deaf [where sm = ?sm and cfg = demo_cfg and t = 45000000000 and
        env = "\<lambda>_. demo_conn 60000000000" and stopped = "\<lambda>_. False" and u = 45000000000 and smr = ?sm2 and
        ins = "[InCheck 0, InWatchdog 900000000000]"] d demo_start calculation(1)
    by (simp add: demo_cfg_def DefaultPrivateWSStateMachineConfig_def)
  ultimately show ?thesis by blast
qed

end
