(* ===== verification/OrderManager.thy ===== *)
theory OrderManager
  imports Models
begin

text \<open>
  The order tracker (\<open>src/internal/execution/order_manager.go\<close>) and the periodic reconciliation of
  its orders with the exchange (\<open>src/internal/execution/reconciler.go\<close>). The manager's map is an
  association list from order ids; the orders in it are the values behind the stored pointers.
  \<open>now\<close> is the clock in milliseconds; the exchange's answers are arguments.
\<close>

section \<open>The order manager\<close>

definition validTransitions :: "OrderStatus \<Rightarrow> OrderStatus list option" where
  "validTransitions s =
     (case s of
        OrderStatusPending \<Rightarrow> Some [OrderStatusSubmitted]
      | OrderStatusSubmitted \<Rightarrow> Some [OrderStatusOpen, OrderStatusRejected]
      | OrderStatusOpen \<Rightarrow>
          Some [OrderStatusPartiallyFilled, OrderStatusFilled, OrderStatusCancelled, OrderStatusExpired]
      | OrderStatusPartiallyFilled \<Rightarrow> Some [OrderStatusFilled, OrderStatusCancelled]
      | _ \<Rightarrow> None)"

definition transition_allowed :: "OrderStatus \<Rightarrow> OrderStatus \<Rightarrow> bool" where
  "transition_allowed s t = (case validTransitions s of None \<Rightarrow> False | Some ts \<Rightarrow> t \<in> set ts)"

datatype om_error =
    OrderIsNil
  | ErrOrderNotPending
  | ErrOrderAlreadyExists
  | ErrOrderNotFound
  | ErrInvalidTransition OrderStatus OrderStatus
  | ErrCannotReject OrderStatus

type_synonym OrderManager = "(string, Order) gomap"

definition NewOrderManager :: OrderManager where
  "NewOrderManager = []"

definition AddOrder :: "Order option \<Rightarrow> OrderManager \<Rightarrow> OrderManager \<times> om_error option" where
  "AddOrder order om =
     (case order of
        None \<Rightarrow> (om, Some OrderIsNil)
      | Some ord \<Rightarrow>
          if o_Status ord \<noteq> OrderStatusPending then (om, Some ErrOrderNotPending)
          else if map_of om (o_OrderId ord) \<noteq> None then (om, Some ErrOrderAlreadyExists)
          else (AList.update (o_OrderId ord) ord om, None))"

definition TransitionOrder ::
  "string \<Rightarrow> OrderStatus \<Rightarrow> int \<Rightarrow> OrderManager \<Rightarrow> OrderManager \<times> om_error option" where
  "TransitionOrder orderID newStatus now om =
     (case map_of om orderID of
        None \<Rightarrow> (om, Some ErrOrderNotFound)
      | Some ord \<Rightarrow>
          if \<not> transition_allowed (o_Status ord) newStatus
          then (om, Some (ErrInvalidTransition (o_Status ord) newStatus))
          else (AList.update orderID (ord\<lparr>o_Status := newStatus, o_UpdateTime := now\<rparr>) om, None))"

definition RejectOrder ::
  "string \<Rightarrow> string \<Rightarrow> int \<Rightarrow> OrderManager \<Rightarrow> OrderManager \<times> om_error option" where
  "RejectOrder orderID reason now om =
     (case map_of om orderID of
        None \<Rightarrow> (om, Some ErrOrderNotFound)
      | Some ord \<Rightarrow>
          if o_Status ord \<noteq> OrderStatusSubmitted then (om, Some (ErrCannotReject (o_Status ord)))
          else (AList.update orderID (ord\<lparr>o_Status := OrderStatusRejected, o_UpdateTime := now\<rparr>) om, None))"

definition GetOrder :: "string \<Rightarrow> OrderManager \<Rightarrow> om_error + Order" where
  "GetOrder orderID om = (case map_of om orderID of None \<Rightarrow> Inl ErrOrderNotFound | Some ord \<Rightarrow> Inr ord)"

definition set_exchange_id :: "string \<Rightarrow> Order \<Rightarrow> Order" where
  "set_exchange_id x ord = (if x \<noteq> [] then ord\<lparr>o_ExchangeOrderId := x\<rparr> else ord)"

definition HandleOrderUpdate ::
  "OrderUpdateEvent \<Rightarrow> int \<Rightarrow> OrderManager \<Rightarrow> OrderManager \<times> om_error option" where
  "HandleOrderUpdate update now om =
     (case map_of om (ou_OrderID update) of
        None \<Rightarrow> (om, Some ErrOrderNotFound)
      | Some ord \<Rightarrow>
          let currentStatus = o_Status ord; newStatus = ou_Status update in
          if newStatus = OrderStatusRejected then
            if currentStatus \<noteq> OrderStatusSubmitted
            then (om, Some (ErrInvalidTransition currentStatus OrderStatusRejected))
            else (AList.update (ou_OrderID update) (set_exchange_id (ou_ExchangeOrderID update)
                    (ord\<lparr>o_Status := OrderStatusRejected, o_UpdateTime := now\<rparr>)) om, None)
          else if \<not> transition_allowed currentStatus newStatus
          then (om, Some (ErrInvalidTransition currentStatus newStatus))
          else
            let o1 = set_exchange_id (ou_ExchangeOrderID update)
                       (ord\<lparr>o_Status := newStatus, o_UpdateTime := now\<rparr>);
                o2 = (if ou_FilledQty update \<noteq> 0 then o1\<lparr>o_FilledQuantity := ou_FilledQty update\<rparr> else o1);
                o3 = (if ou_AvgFillPrice update \<noteq> 0 then o2\<lparr>o_AvgFillPrice := ou_AvgFillPrice update\<rparr> else o2)
            in (AList.update (ou_OrderID update) o3 om, None))"

definition OrderCount :: "OrderManager \<Rightarrow> nat" where
  "OrderCount om = length om"

section \<open>The reconciler\<close>

definition isTerminalStatus :: "OrderStatus \<Rightarrow> bool" where
  "isTerminalStatus s =
     (case s of
        OrderStatusFilled \<Rightarrow> True | OrderStatusCancelled \<Rightarrow> True | OrderStatusRejected \<Rightarrow> True
      | OrderStatusExpired \<Rightarrow> True | OrderStatusError \<Rightarrow> True | _ \<Rightarrow> False)"

text \<open>The map by exchange id: a later order with the same id replaces an earlier one.\<close>

definition exchange_map :: "Order list \<Rightarrow> string \<Rightarrow> Order option" where
  "exchange_map exchangeOrders = map_of (rev (map (\<lambda>ord. (o_ExchangeOrderId ord, ord))
     (filter (\<lambda>ord. o_ExchangeOrderId ord \<noteq> []) exchangeOrders)))"

definition reconcile_order :: "string \<Rightarrow> (string \<Rightarrow> Order option) \<Rightarrow> int \<Rightarrow> Order \<Rightarrow> Order" where
  "reconcile_order symbol exch now loc =
     (if o_Symbol loc \<noteq> symbol then loc
      else if o_ExchangeOrderId loc = [] then loc
      else case exch (o_ExchangeOrderId loc) of
        None \<Rightarrow>
          if \<not> isTerminalStatus (o_Status loc)
          then loc\<lparr>o_Status := OrderStatusCancelled, o_UpdateTime := now\<rparr> else loc
      | Some x \<Rightarrow>
          let o1 = (if o_Status loc \<noteq> o_Status x
                then loc\<lparr>o_Status := o_Status x, o_UpdateTime := now\<rparr> else loc);
              o2 = (if o_FilledQuantity x \<noteq> 0 \<and> o_FilledQuantity x \<noteq> o_FilledQuantity o1
                then o1\<lparr>o_FilledQuantity := o_FilledQuantity x, o_UpdateTime := now\<rparr> else o1)
          in if o_AvgFillPrice x \<noteq> 0 \<and> o_AvgFillPrice x \<noteq> o_AvgFillPrice o2
             then o2\<lparr>o_AvgFillPrice := o_AvgFillPrice x, o_UpdateTime := now\<rparr> else o2)"

definition reconcileOrders :: "string \<Rightarrow> Order list \<Rightarrow> int \<Rightarrow> OrderManager \<Rightarrow> OrderManager" where
  "reconcileOrders symbol exchangeOrders now om =
     map (\<lambda>(k, ord). (k, reconcile_order symbol (exchange_map exchangeOrders) now ord)) om"

datatype reconcile_error = QueryOrdersFailed string | QueryPositionsFailed string

text \<open>\<open>None\<close> is a failed query; positions are only logged.\<close>

definition Reconcile ::
  "(string \<Rightarrow> Order list option) \<Rightarrow> (string \<Rightarrow> Position list option) \<Rightarrow> string \<Rightarrow> int \<Rightarrow> OrderManager \<Rightarrow>
    OrderManager \<times> reconcile_error option" where
  "Reconcile queryOrders queryPositions symbol now om =
     (case queryOrders symbol of
        None \<Rightarrow> (om, Some (QueryOrdersFailed symbol))
      | Some exchangeOrders \<Rightarrow>
          (case queryPositions symbol of
             None \<Rightarrow> (om, Some (QueryPositionsFailed symbol))
           | Some _ \<Rightarrow> (reconcileOrders symbol exchangeOrders now om, None)))"

record Reconciler =
  rcl_running :: bool
  rcl_symbols :: "string list"

definition NewReconciler :: Reconciler where
  "NewReconciler = \<lparr>rcl_running = False, rcl_symbols = []\<rparr>"

definition Reconciler_SetSymbols :: "string list \<Rightarrow> Reconciler \<Rightarrow> Reconciler" where
  "Reconciler_SetSymbols symbols r = r\<lparr>rcl_symbols := symbols\<rparr>"

definition Reconciler_Start :: "Reconciler \<Rightarrow> Reconciler" where
  "Reconciler_Start r = (if rcl_running r then r else r\<lparr>rcl_running := True\<rparr>)"

definition Reconciler_Stop :: "Reconciler \<Rightarrow> Reconciler" where
  "Reconciler_Stop r = (if \<not> rcl_running r then r else r\<lparr>rcl_running := False\<rparr>)"

text \<open>One tick of the loop: every symbol in turn, a failed one does not stop the others.\<close>

definition Reconciler_tick ::
  "(string \<Rightarrow> Order list option) \<Rightarrow> (string \<Rightarrow> Position list option) \<Rightarrow> int \<Rightarrow> Reconciler \<Rightarrow>
    OrderManager \<Rightarrow> OrderManager" where
  "Reconciler_tick queryOrders queryPositions now r om =
     (if rcl_running r
      then foldl (\<lambda>m s. fst (Reconcile queryOrders queryPositions s now m)) om (rcl_symbols r) else om)"

section \<open>Histories\<close>

datatype om_op =
    OmAdd "Order option"
  | OmTransition string OrderStatus int
  | OmReject string string int
  | OmUpdate OrderUpdateEvent int

fun om_exec :: "om_op \<Rightarrow> OrderManager \<Rightarrow> OrderManager \<times> om_error option" where
  "om_exec (OmAdd ord) om = AddOrder ord om"
| "om_exec (OmTransition k s t) om = TransitionOrder k s t om"
| "om_exec (OmReject k r t) om = RejectOrder k r t om"
| "om_exec (OmUpdate u t) om = HandleOrderUpdate u t om"

definition om_run :: "om_op list \<Rightarrow> OrderManager \<Rightarrow> OrderManager" where
  "om_run ops om = foldl (\<lambda>m p. fst (om_exec p m)) om ops"

lemma om_exec_error: "snd (om_exec p om) = Some e \<Longrightarrow> fst (om_exec p om) = om"
  by (cases p) (auto simp: AddOrder_def TransitionOrder_def RejectOrder_def HandleOrderUpdate_def Let_def
      split: option.splits if_splits)

lemma set_exchange_id_fields [simp]:
  "o_Status (set_exchange_id x ord) = o_Status ord" "o_FilledQuantity (set_exchange_id x ord) = o_FilledQuantity ord"
  "o_OrderId (set_exchange_id x ord) = o_OrderId ord" "o_Symbol (set_exchange_id x ord) = o_Symbol ord"
  by (simp_all add: set_exchange_id_def)

text \<open>One call moves the status of an existing order along an allowed transition or not at all.\<close>

lemma om_exec_status:
  assumes "map_of om k = Some ord"
  shows "\<exists>ord'. map_of (fst (om_exec p om)) k = Some ord' \<and>
    (ord' = ord \<or> transition_allowed (o_Status ord) (o_Status ord'))"
  using assms
  by (cases p) (auto simp: AddOrder_def TransitionOrder_def RejectOrder_def HandleOrderUpdate_def Let_def
      transition_allowed_def validTransitions_def split: option.splits if_splits)

lemma om_exec_new:
  assumes "map_of om k = None" and "map_of (fst (om_exec p om)) k = Some ord"
  shows "o_Status ord = OrderStatusPending"
  using assms
  by (cases p) (auto simp: AddOrder_def TransitionOrder_def RejectOrder_def HandleOrderUpdate_def Let_def
      split: option.splits if_splits)

lemma om_run_Cons [simp]: "om_run (p # ps) om = om_run ps (fst (om_exec p om))"
  by (simp add: om_run_def)

lemma om_run_Nil [simp]: "om_run [] om = om"
  by (simp add: om_run_def)

text \<open>The statuses that an order can come to from another.\<close>

abbreviation status_reaches :: "OrderStatus \<Rightarrow> OrderStatus \<Rightarrow> bool" where
  "status_reaches \<equiv> transition_allowed\<^sup>*\<^sup>*"

lemma om_run_status:
  "map_of om k = Some ord \<Longrightarrow> \<exists>ord'. map_of (om_run ops om) k = Some ord' \<and>
     status_reaches (o_Status ord) (o_Status ord')"
proof (induction ops arbitrary: om ord)
  case (Cons p ops)
  from om_exec_status [OF Cons.prems, of p] obtain o1 where
    o1: "map_of (fst (om_exec p om)) k = Some o1" "status_reaches (o_Status ord) (o_Status o1)"
    by (metis r_into_rtranclp rtranclp.rtrancl_refl)
  from Cons.IH [OF o1(1)] o1(2) show ?case by (auto intro: rtranclp_trans)
qed simp

lemma terminal_stuck: "isTerminalStatus s \<Longrightarrow> \<not> transition_allowed s t"
  by (auto simp: isTerminalStatus_def transition_allowed_def validTransitions_def split: OrderStatus.splits)

lemma om_run_terminal:
  "map_of om k = Some ord \<Longrightarrow> isTerminalStatus (o_Status ord) \<Longrightarrow> map_of (om_run ops om) k = Some ord"
proof (induction ops arbitrary: om)
  case (Cons p ops)
  with om_exec_status [OF Cons.prems(1), of p] terminal_stuck show ?case by fastforce
qed simp

section \<open>Reconciliation\<close>

lemma map_of_reconcileOrders:
  "map_of (reconcileOrders s xs now om) k = map_option (reconcile_order s (exchange_map xs) now) (map_of om k)"
  by (induction om) (auto simp: reconcileOrders_def)

definition agrees :: "Order \<Rightarrow> Order \<Rightarrow> bool" where
  "agrees x loc \<longleftrightarrow> o_Status loc = o_Status x \<and> (o_FilledQuantity x = 0 \<or> o_FilledQuantity x = o_FilledQuantity loc) \<and>
     (o_AvgFillPrice x = 0 \<or> o_AvgFillPrice x = o_AvgFillPrice loc)"

lemma reconcile_order_listed:
  assumes "o_Symbol loc = s" and "o_ExchangeOrderId loc \<noteq> []" and "exch (o_ExchangeOrderId loc) = Some x"
  shows "agrees x loc \<Longrightarrow> reconcile_order s exch now loc = loc" "agrees x (reconcile_order s exch now loc)"
    "o_Symbol (reconcile_order s exch now loc) = s"
    "o_ExchangeOrderId (reconcile_order s exch now loc) = o_ExchangeOrderId loc"
  using assms by (auto simp: reconcile_order_def agrees_def Let_def)

lemma reconcile_order_idem:
  "reconcile_order s exch t2 (reconcile_order s exch t1 ord) = reconcile_order s exch t1 ord"
proof (cases "o_Symbol ord = s \<and> o_ExchangeOrderId ord \<noteq> []")
  case True
  then show ?thesis
  proof (cases "exch (o_ExchangeOrderId ord)")
    case None
    with True show ?thesis by (simp add: reconcile_order_def isTerminalStatus_def)
  next
    case (Some x)
    with True have c: "o_Symbol ord = s" "o_ExchangeOrderId ord \<noteq> []" by auto
    note r = reconcile_order_listed [where exch = exch, OF c Some, where now = t1]
    show ?thesis by (rule reconcile_order_listed(1) [OF r(3) _ _ r(2)]) (simp_all add: r(4) c Some)
  qed
qed (auto simp: reconcile_order_def)

section \<open>Properties\<close>


definition sample_order :: Order where
  "sample_order = zero_Order\<lparr>o_OrderId := ''1'', o_Symbol := ''A''\<rparr>"


text \<open>The table has no transition from \<open>PARTIALLY_FILLED\<close> to itself, so every partial fill after the
  first is refused as an invalid transition, and its filled quantity and average price are lost: the
  order keeps the amounts of its first partial fill until it is filled or cancelled.\<close>

theorem second_partial_fill_lost:
  assumes "map_of om (ou_OrderID u) = Some ord" and "o_Status ord = OrderStatusPartiallyFilled"
    and "ou_Status u = OrderStatusPartiallyFilled"
  shows "HandleOrderUpdate u now om =
    (om, Some (ErrInvalidTransition OrderStatusPartiallyFilled OrderStatusPartiallyFilled))"
  using assms by (simp add: HandleOrderUpdate_def transition_allowed_def validTransitions_def)

text \<open>Reconciliation makes the exchange authoritative. If both queries succeed, every local order of
  the symbol that has an exchange id then has the status of the exchange's order of that id and, where
  the exchange reports them, its filled quantity and average price - or, unknown to the exchange, a
  terminal status; all other orders are untouched, and reconciling again with the same answer changes
  nothing. If a query fails nothing changes.\<close>

theorem Reconcile_spec:
  "case Reconcile qo qp symbol now om of
     (om', Some _) \<Rightarrow> om' = om
   | (om', None) \<Rightarrow> (\<exists>xs. qo symbol = Some xs \<and> map fst om' = map fst om \<and>
       Reconcile qo qp symbol now' om' = (om', None) \<and>
       (\<forall>k loc. map_of om k = Some loc \<longrightarrow> (\<exists>loc'. map_of om' k = Some loc' \<and>
         (if o_Symbol loc = symbol \<and> o_ExchangeOrderId loc \<noteq> []
          then (case exchange_map xs (o_ExchangeOrderId loc) of
                  None \<Rightarrow> isTerminalStatus (o_Status loc')
                | Some x \<Rightarrow> o_Status loc' = o_Status x \<and>
                    o_FilledQuantity loc' = (if o_FilledQuantity x = 0 then o_FilledQuantity loc else o_FilledQuantity x) \<and>
                    o_AvgFillPrice loc' = (if o_AvgFillPrice x = 0 then o_AvgFillPrice loc else o_AvgFillPrice x))
          else loc' = loc))))"
proof (cases "Reconcile qo qp symbol now om")
  case (Pair om' err)
  show ?thesis
  proof (cases err)
    case (Some e)
    with Pair show ?thesis by (auto simp: Reconcile_def split: option.splits)
  next
    case None
    with Pair obtain xs ps where xs: "qo symbol = Some xs" "qp symbol = Some ps"
      and om': "om' = reconcileOrders symbol xs now om"
      by (auto simp: Reconcile_def split: option.splits)
    have "reconcileOrders symbol xs now' om' = om'"
      by (auto simp: om' reconcileOrders_def reconcile_order_idem)
    then have again: "Reconcile qo qp symbol now' om' = (om', None)" by (simp add: Reconcile_def xs)
    have keys: "map fst om' = map fst om" by (auto simp: om' reconcileOrders_def)
    have each: "if o_Symbol loc = symbol \<and> o_ExchangeOrderId loc \<noteq> []
        then (case x (o_ExchangeOrderId loc) of
                None \<Rightarrow> isTerminalStatus (o_Status (reconcile_order symbol x now loc))
              | Some y \<Rightarrow> o_Status (reconcile_order symbol x now loc) = o_Status y \<and>
                  o_FilledQuantity (reconcile_order symbol x now loc) =
                    (if o_FilledQuantity y = 0 then o_FilledQuantity loc else o_FilledQuantity y) \<and>
                  o_AvgFillPrice (reconcile_order symbol x now loc) =
                    (if o_AvgFillPrice y = 0 then o_AvgFillPrice loc else o_AvgFillPrice y))
        else reconcile_order symbol x now loc = loc" for loc x
      by (auto simp: reconcile_order_def Let_def isTerminalStatus_def split: option.split)
    show ?thesis
      unfolding Pair None prod.case option.case
      using xs(1) keys again each [where x = "exchange_map xs"]
      by (intro exI [of _ xs]) (simp add: om' map_of_reconcileOrders)
  qed
qed

theorem Reconcile_spec_witness:
  "fst (Reconcile (\<lambda>_. None) (\<lambda>_. None) ''A'' 1 [(''1'', sample_order)]) = [(''1'', sample_order)]"
  using Reconcile_spec [where qo = "\<lambda>_. None" and qp = "\<lambda>_. None" and symbol = "''A''" and now = 1
      and om = "[(''1'', sample_order)]" and now' = 2]
  by (simp add: Reconcile_def)

end
