(* ===== verification/ApiClient.thy ===== *)
theory ApiClient
  imports FillIdentity Json
begin

text \<open>
  The REST client (\<open>src/internal/execution/api_client.go\<close>) and the request and result types of
  \<open>src/internal/execution/engine.go\<close>. The HTTP library and the server are arguments: \<open>he_response i\<close>
  is what the \<open>i\<close>-th request of a call comes back with, and the two other fields of \<open>http_env\<close> are
  what the context reports. The endpoint guard's and the rate limiter's verdicts, the keyed digest
  (\<open>hmac\<close>: base64 of HMAC-SHA256) and \<open>decimal.String\<close> (\<open>dstr\<close>) are arguments too. Header fields
  other than the signature and log output are not modelled.
\<close>

section \<open>Requests\<close>

record http_request =
  hq_method :: string
  hq_path :: string
  hq_body :: "(string \<times> string) list list"

datatype body = Unreadable | Readable frame

record response =
  rs_Status :: int
  rs_Body :: body

datatype do_error =
    CtxError
  | RequestBlocked
  | RequestCancelled
  | RequestFailed
  | CancelledDuringBackoff
  | RateLimitExceeded
  | CancelledDuringRetry
  | ServerErrorAfterRetries int

type_synonym http_result = "do_error + response"

definition maxBatchSize :: nat where "maxBatchSize = 20"
definition retry429MaxRetries :: nat where "retry429MaxRetries = 3"
definition retry429InitialBackoff :: duration where "retry429InitialBackoff = 100 * 1000000"
definition retry429MaxBackoff :: duration where "retry429MaxBackoff = 5000 * 1000000"
definition retry5xxMaxRetries :: nat where "retry5xxMaxRetries = 3"
definition retry5xxInterval :: duration where "retry5xxInterval = 100 * 1000000"

definition SignRequest :: "(string \<Rightarrow> string \<Rightarrow> string) \<Rightarrow> string \<Rightarrow> string \<Rightarrow> string \<Rightarrow> string \<Rightarrow> string \<Rightarrow> string" where
  "SignRequest hmac secretKey meth path bodyStr timestamp = hmac secretKey (timestamp @ meth @ path @ bodyStr)"

definition api_hardTTL :: duration where "api_hardTTL = 15 * 60 * 1000000000"

record http_env =
  he_cancelled :: "nat \<Rightarrow> bool"
  he_response :: "nat \<Rightarrow> response option"
  he_waitCancelled :: "nat \<Rightarrow> bool"

definition backoff429 :: "nat \<Rightarrow> duration" where
  "backoff429 retries =
     (let b = retry429InitialBackoff * 2 ^ (retries - 1)
      in if b > retry429MaxBackoff then retry429MaxBackoff else b)"

text \<open>
  The retry loop: its result, the waits it started, and the number of requests sent. \<open>i\<close> is the
  number of requests sent before.
\<close>

function do_loop :: "http_env \<Rightarrow> nat \<Rightarrow> nat \<Rightarrow> nat \<Rightarrow> http_result \<times> duration list \<times> nat" where
  "do_loop env i retries429 retries5xx =
     (if he_cancelled env i then (Inl RequestCancelled, [], i)
      else case he_response env i of
        None \<Rightarrow> (Inl RequestFailed, [], i + 1)
      | Some resp \<Rightarrow>
          if rs_Status resp = 429 then
            if retries429 + 1 > retry429MaxRetries then (Inl RateLimitExceeded, [], i + 1)
            else if he_waitCancelled env i then (Inl CancelledDuringBackoff, [backoff429 (retries429 + 1)], i + 1)
            else (case do_loop env (i + 1) (retries429 + 1) retries5xx of
                    (r, ws, n) \<Rightarrow> (r, backoff429 (retries429 + 1) # ws, n))
          else if rs_Status resp \<ge> 500 then
            if retries5xx + 1 > retry5xxMaxRetries
            then (Inl (ServerErrorAfterRetries (rs_Status resp)), [], i + 1)
            else if he_waitCancelled env i then (Inl CancelledDuringRetry, [retry5xxInterval], i + 1)
            else (case do_loop env (i + 1) retries429 (retries5xx + 1) of
                    (r, ws, n) \<Rightarrow> (r, retry5xxInterval # ws, n))
          else (Inr resp, [], i + 1))"
  by pat_completeness auto
termination
  by (relation "measure (\<lambda>(env, i, r4, r5). (4 - r4) + (4 - r5))")
    (auto simp: retry429MaxRetries_def retry5xxMaxRetries_def)

declare do_loop.simps [simp del]

definition DoRequestContext :: "bool \<Rightarrow> http_env \<Rightarrow> http_result \<times> duration list \<times> nat" where
  "DoRequestContext guardAllows env =
     (if \<not> guardAllows then (Inl RequestBlocked, [], 0) else do_loop env 0 0 0)"

section \<open>Orders\<close>

record ExecOrderRequest =
  eq_Symbol :: string
  eq_Side :: Side
  eq_OrderType :: OrderType
  eq_Price :: decimal
  eq_Quantity :: decimal
  eq_StrategyID :: string
  eq_GridLevel :: int
  eq_ClientOrderID :: string

datatype api_reason =
    RateLimited
  | HttpFailure do_error
  | ReadFailure
  | ParseFailure
  | OkxError string string
  | OkxItemError string string string string
  | OrderDataParseFailure
  | NoOrderData
  | OrderItemError string string

record OrderResult =
  or_Success :: bool
  or_OrderID :: string
  or_ExchangeOrderID :: string
  or_Error :: "api_reason option"
  or_Status :: OrderStatus

record CancelResult =
  cr_Success :: bool
  cr_OrderID :: string
  cr_Error :: "api_reason option"

datatype api_error = NilOrderRequest | EmptyOrderID | NoOrdersToPlace | ApiFailed api_reason

fun sideToOKX :: "Side \<Rightarrow> string" where
  "sideToOKX SideBuy = ''buy''"
| "sideToOKX SideSell = ''sell''"
| "sideToOKX (SideOther _) = ''buy''"

fun orderTypeToOKX :: "OrderType \<Rightarrow> string" where
  "orderTypeToOKX OrderTypeLimit = ''limit''"
| "orderTypeToOKX OrderTypeMarket = ''market''"
| "orderTypeToOKX OrderTypePostOnly = ''post_only''"
| "orderTypeToOKX (OrderTypeOther _) = ''limit''"

text \<open>Members tagged \<open>omitempty\<close> are left out when empty.\<close>

definition omitempty :: "string \<Rightarrow> string \<Rightarrow> (string \<times> string) list" where
  "omitempty k v = (if v = [] then [] else [(k, v)])"

definition OKXOrderRequest_json :: "(decimal \<Rightarrow> string) \<Rightarrow> ExecOrderRequest \<Rightarrow> (string \<times> string) list" where
  "OKXOrderRequest_json dstr req =
     [(''instId'', eq_Symbol req), (''tdMode'', ''cash''), (''side'', sideToOKX (eq_Side req)),
      (''ordType'', orderTypeToOKX (eq_OrderType req))] @ omitempty ''px'' (dstr (eq_Price req)) @
     [(''sz'', dstr (eq_Quantity req))] @ omitempty ''clOrdId'' (eq_ClientOrderID req)"

section \<open>Responses\<close>

record OKXOrderData =
  od_OrdID :: string
  od_ClOrdID :: string
  od_SCode :: string
  od_SMsg :: string

definition decode_order_data :: "json \<Rightarrow> OKXOrderData option" where
  "decode_order_data j =
     (case (str_field ''ordId'' j, str_field ''clOrdId'' j, str_field ''sCode'' j, str_field ''sMsg'' j) of
        (Some i, Some c, Some sc, Some sm) \<Rightarrow>
          Some \<lparr>od_OrdID = i, od_ClOrdID = c, od_SCode = sc, od_SMsg = sm\<rparr>
      | _ \<Rightarrow> None)"

record OKXResponse =
  ox_Code :: string
  ox_Msg :: string
  ox_Data :: "json option"

definition decode_envelope :: "frame \<Rightarrow> OKXResponse option" where
  "decode_envelope f =
     (case f of
        TextFrame _ \<Rightarrow> None
      | JsonFrame j \<Rightarrow>
          (case (str_field ''code'' j, str_field ''msg'' j, raw_field ''data'' j) of
             (Some c, Some ms, Some d) \<Rightarrow> Some \<lparr>ox_Code = c, ox_Msg = ms, ox_Data = d\<rparr>
           | _ \<Rightarrow> None))"

text \<open>\<open>json.Unmarshal(okxResp.Data, &orderData)\<close>: absent data is empty input, an error.\<close>

definition decode_items :: "json option \<Rightarrow> OKXOrderData list option" where
  "decode_items d =
     (case d of
        None \<Rightarrow> None
      | Some JNull \<Rightarrow> Some []
      | Some (JArr xs) \<Rightarrow> decode_all decode_order_data xs
      | Some _ \<Rightarrow> None)"

definition failed_order :: "api_reason \<Rightarrow> OrderResult" where
  "failed_order r = \<lparr>or_Success = False, or_OrderID = [], or_ExchangeOrderID = [], or_Error = Some r,
     or_Status = OrderStatusPending\<rparr>"

definition placed_order :: "OKXOrderData \<Rightarrow> OrderResult" where
  "placed_order d = \<lparr>or_Success = True, or_OrderID = od_ClOrdID d, or_ExchangeOrderID = od_OrdID d,
     or_Error = None, or_Status = OrderStatusPending\<rparr>"

definition Api_PlaceOrder ::
  "(decimal \<Rightarrow> string) \<Rightarrow> bool \<Rightarrow> (http_request \<Rightarrow> http_result) \<Rightarrow> ExecOrderRequest option \<Rightarrow>
    OrderResult option \<times> api_error option" where
  "Api_PlaceOrder dstr limited send request =
     (case request of
        None \<Rightarrow> (None, Some NilOrderRequest)
      | Some req \<Rightarrow>
          if limited then (Some (failed_order RateLimited), None)
          else (case send \<lparr>hq_method = ''POST'', hq_path = ''/api/v5/trade/order'',
                        hq_body = [OKXOrderRequest_json dstr req]\<rparr> of
            Inl e \<Rightarrow> (Some (failed_order (HttpFailure e)), Some (ApiFailed (HttpFailure e)))
          | Inr resp \<Rightarrow> (case rs_Body resp of
              Unreadable \<Rightarrow> (Some (failed_order ReadFailure), Some (ApiFailed ReadFailure))
            | Readable f \<Rightarrow> (case decode_envelope f of
                None \<Rightarrow> (Some (failed_order ParseFailure), Some (ApiFailed ParseFailure))
              | Some okx \<Rightarrow>
                  if ox_Code okx \<noteq> ''0'' then
                    (case decode_items (ox_Data okx) of
                       Some (d # _) \<Rightarrow> (Some (failed_order (OkxItemError (ox_Code okx) (ox_Msg okx) (od_SCode d) (od_SMsg d))), None)
                     | _ \<Rightarrow> (Some (failed_order (OkxError (ox_Code okx) (ox_Msg okx))), None))
                  else (case decode_items (ox_Data okx) of
                      None \<Rightarrow> (Some (failed_order OrderDataParseFailure), Some (ApiFailed OrderDataParseFailure))
                    | Some [] \<Rightarrow> (Some (failed_order NoOrderData), None)
                    | Some (d # _) \<Rightarrow>
                        if od_SCode d \<noteq> ''0'' then (Some (failed_order (OrderItemError (od_SCode d) (od_SMsg d))), None)
                        else (Some (placed_order d), None))))))"

definition failed_cancel :: "string \<Rightarrow> api_reason \<Rightarrow> CancelResult" where
  "failed_cancel orderID r = \<lparr>cr_Success = False, cr_OrderID = orderID, cr_Error = Some r\<rparr>"

definition Api_CancelOrder ::
  "bool \<Rightarrow> (http_request \<Rightarrow> http_result) \<Rightarrow> string \<Rightarrow> string \<Rightarrow> CancelResult option \<times> api_error option" where
  "Api_CancelOrder limited send instID orderID =
     (if orderID = [] then (None, Some EmptyOrderID)
      else if limited then (Some (failed_cancel [] RateLimited), None)
      else (case send \<lparr>hq_method = ''POST'', hq_path = ''/api/v5/trade/cancel-order'',
                    hq_body = [[(''instId'', instID)] @ omitempty ''ordId'' orderID]\<rparr> of
        Inl e \<Rightarrow> (Some (failed_cancel orderID (HttpFailure e)), Some (ApiFailed (HttpFailure e)))
      | Inr resp \<Rightarrow> (case rs_Body resp of
          Unreadable \<Rightarrow> (Some (failed_cancel orderID ReadFailure), Some (ApiFailed ReadFailure))
        | Readable f \<Rightarrow> (case decode_envelope f of
            None \<Rightarrow> (Some (failed_cancel orderID ParseFailure), Some (ApiFailed ParseFailure))
          | Some okx \<Rightarrow>
              if ox_Code okx \<noteq> ''0''
              then (Some (failed_cancel orderID (OkxError (ox_Code okx) (ox_Msg okx))), None)
              else (Some \<lparr>cr_Success = True, cr_OrderID = orderID, cr_Error = None\<rparr>, None)))))"

section \<open>Batches\<close>

definition batch_result :: "OKXOrderData \<Rightarrow> OrderResult" where
  "batch_result d = (if od_SCode d = ''0'' then placed_order d
     else failed_order (OrderItemError (od_SCode d) (od_SMsg d)))"

definition placeBatch ::
  "(decimal \<Rightarrow> string) \<Rightarrow> bool \<Rightarrow> (http_request \<Rightarrow> http_result) \<Rightarrow> ExecOrderRequest list \<Rightarrow>
    api_reason + OrderResult list" where
  "placeBatch dstr limited send reqs =
     (if limited then Inr (map (\<lambda>_. failed_order RateLimited) reqs)
      else (case send \<lparr>hq_method = ''POST'', hq_path = ''/api/v5/trade/batch-orders'',
                    hq_body = map (OKXOrderRequest_json dstr) reqs\<rparr> of
        Inl e \<Rightarrow> Inl (HttpFailure e)
      | Inr resp \<Rightarrow> (case rs_Body resp of
          Unreadable \<Rightarrow> Inl ReadFailure
        | Readable f \<Rightarrow> (case decode_envelope f of
            None \<Rightarrow> Inl ParseFailure
          | Some okx \<Rightarrow>
              if ox_Code okx \<noteq> ''0'' then Inl (OkxError (ox_Code okx) (ox_Msg okx))
              else (case decode_items (ox_Data okx) of
                  None \<Rightarrow> Inl OrderDataParseFailure
                | Some ds \<Rightarrow> Inr (map batch_result ds))))))"

text \<open>The batches of a request, in order; batch \<open>i\<close> meets limiter answer \<open>i\<close> and server answer \<open>i\<close>.\<close>

function batches_loop ::
  "(decimal \<Rightarrow> string) \<Rightarrow> (nat \<Rightarrow> bool) \<Rightarrow> (nat \<Rightarrow> http_request \<Rightarrow> http_result) \<Rightarrow> nat \<Rightarrow>
    ExecOrderRequest list \<Rightarrow> OrderResult list" where
  "batches_loop dstr limited send i reqs =
     (if reqs = [] then []
      else
        let batch = take maxBatchSize reqs in
        (case placeBatch dstr (limited i) (send i) batch of
           Inl r \<Rightarrow> map (\<lambda>_. failed_order r) batch
         | Inr rs \<Rightarrow> rs) @ batches_loop dstr limited send (i + 1) (drop maxBatchSize reqs))"
  by pat_completeness auto
termination
  by (relation "measure (\<lambda>(dstr, limited, send, i, reqs). length reqs)") (auto simp: maxBatchSize_def)

declare batches_loop.simps [simp del]

definition BatchPlaceOrders ::
  "(decimal \<Rightarrow> string) \<Rightarrow> (nat \<Rightarrow> bool) \<Rightarrow> (nat \<Rightarrow> http_request \<Rightarrow> http_result) \<Rightarrow>
    ExecOrderRequest list \<Rightarrow> api_error + OrderResult list" where
  "BatchPlaceOrders dstr limited send reqs =
     (if reqs = [] then Inl NoOrdersToPlace else Inr (batches_loop dstr limited send 0 reqs))"

section \<open>The retry loop\<close>

lemma do_loop_count: "do_loop env i r4 r5 = (r, ws, n) \<Longrightarrow> i + length ws \<le> n"
proof (induction env i r4 r5 arbitrary: r ws n rule: do_loop.induct)
  case (1 env i r4 r5)
  from "1.prems" show ?case
    by (subst (asm) do_loop.simps)
      (auto dest: "1.IH" split: if_splits option.splits prod.splits)
qed

lemma do_loop_requests:
  "do_loop env i r4 r5 = (r, ws, n) \<Longrightarrow> r4 \<le> 3 \<Longrightarrow> r5 \<le> 3 \<Longrightarrow> n + r4 + r5 \<le> i + 7"
proof (induction env i r4 r5 arbitrary: r ws n rule: do_loop.induct)
  case (1 env i r4 r5)
  from "1.prems" show ?case
    by (subst (asm) do_loop.simps)
      (auto dest: "1.IH" simp: retry429MaxRetries_def retry5xxMaxRetries_def split: if_splits option.splits prod.splits)
qed

lemma do_loop_response:
  "do_loop env i r4 r5 = (Inr resp, ws, n) \<Longrightarrow>
    rs_Status resp \<noteq> 429 \<and> rs_Status resp < 500 \<and> i < n \<and> he_response env (n - 1) = Some resp"
proof (induction env i r4 r5 arbitrary: ws n rule: do_loop.induct)
  case (1 env i r4 r5)
  from "1.prems" show ?case
    by (subst (asm) do_loop.simps)
      (auto dest: "1.IH" split: if_splits option.splits prod.splits)
qed

text \<open>The time that the loop can still spend waiting.\<close>

definition wait_left :: "nat \<Rightarrow> nat \<Rightarrow> duration" where
  "wait_left r4 r5 = (8 - 2 ^ r4) * 100000000 + (3 - int r5) * 100000000"

lemma le_3_cases: "(k :: nat) \<le> 3 \<Longrightarrow> k = 0 \<or> k = 1 \<or> k = 2 \<or> k = 3"
  by auto

lemma wait_left_nonneg [simp]: "r4 \<le> 3 \<Longrightarrow> r5 \<le> 3 \<Longrightarrow> 0 \<le> wait_left r4 r5"
  by (drule le_3_cases) (auto simp: wait_left_def)

lemma wait_left_429:
  "r4 + 1 \<le> 3 \<Longrightarrow> backoff429 (r4 + 1) + wait_left (r4 + 1) r5 = wait_left r4 r5"
proof -
  assume "r4 + 1 \<le> 3"
  then have "r4 = 0 \<or> r4 = 1 \<or> r4 = 2" by auto
  then show ?thesis
    by (auto simp: wait_left_def backoff429_def retry429InitialBackoff_def retry429MaxBackoff_def)
qed

lemma wait_left_5xx: "retry5xxInterval + wait_left r4 (r5 + 1) = wait_left r4 r5"
  by (simp add: wait_left_def retry5xxInterval_def)

lemma do_loop_waits:
  "do_loop env i r4 r5 = (r, ws, n) \<Longrightarrow> r4 \<le> 3 \<Longrightarrow> r5 \<le> 3 \<Longrightarrow> sum_list ws \<le> wait_left r4 r5"
proof (induction env i r4 r5 arbitrary: r ws n rule: do_loop.induct)
  case (1 env i r4 r5)
  have w4: "backoff429 (r4 + 1) + x \<le> wait_left r4 r5" if "\<not> 2 < r4" "x \<le> wait_left (r4 + 1) r5" for x
    using wait_left_429 [of r4 r5] that by linarith
  have w5: "retry5xxInterval + x \<le> wait_left r4 r5" if "x \<le> wait_left r4 (r5 + 1)" for x
    using wait_left_5xx [of r4 r5] that by linarith
  have w40: "backoff429 (r4 + 1) \<le> wait_left r4 r5" if "\<not> 2 < r4" "r5 \<le> 3"
    using w4 [of 0] that by simp
  have w50: "retry5xxInterval \<le> wait_left r4 r5" if "r4 \<le> 3" "\<not> 2 < r5"
    using w5 [of 0] that by simp
  note le = retry429MaxRetries_def retry5xxMaxRetries_def
  from "1.prems" show ?case
    by (subst (asm) do_loop.simps)
      (auto simp: le simp del: One_nat_def add_Suc_right intro!: w4 w5 w40 w50 "1.IH" [unfolded le]
        split: if_splits option.splits prod.splits)
qed

section \<open>Properties\<close>

text \<open>A REST call ends. Whatever the server answers, it sends at most seven requests (the first, three
  repetitions after HTTP 429 and three after HTTP 5xx) and waits at most one second in all, starting no
  more waits than it has sent requests; a response that it hands back is the last one received and is
  neither a 429 nor a 5xx; a forbidden endpoint is never contacted.\<close>

theorem request_retries_bounded:
  "case DoRequestContext guardAllows env of
     (r, waits, requests) \<Rightarrow>
       requests \<le> 7 \<and> sum_list waits \<le> 1000 * 1000000 \<and> length waits \<le> requests \<and>
       (guardAllows \<or> requests = 0 \<and> r = Inl RequestBlocked) \<and>
       (case r of Inl _ \<Rightarrow> True
        | Inr resp \<Rightarrow> rs_Status resp \<noteq> 429 \<and> rs_Status resp < 500 \<and> 0 < requests \<and>
            he_response env (requests - 1) = Some resp)"
proof (cases guardAllows)
  case True
  obtain r ws n where run: "do_loop env 0 0 0 = (r, ws, n)" by (cases "do_loop env 0 0 0")
  have "n \<le> 7" using do_loop_requests [OF run] by simp
  moreover have "sum_list ws \<le> 1000 * 1000000" using do_loop_waits [OF run] by (simp add: wait_left_def)
  moreover have "length ws \<le> n" using do_loop_count [OF run] by simp
  moreover have "case r of Inl _ \<Rightarrow> True | Inr resp \<Rightarrow> rs_Status resp \<noteq> 429 \<and> rs_Status resp < 500 \<and> 0 < n \<and>
      he_response env (n - 1) = Some resp"
    using do_loop_response [of env 0 0 0] run by (cases r) auto
  ultimately show ?thesis using True by (simp add: DoRequestContext_def run)
qed (simp add: DoRequestContext_def)

text \<open>The chunks of at most twenty orders.\<close>

function order_batches :: "'a list \<Rightarrow> 'a list list" where
  "order_batches xs = (if xs = [] then [] else take maxBatchSize xs # order_batches (drop maxBatchSize xs))"
  by pat_completeness auto
termination
  by (relation "measure length") (auto simp: maxBatchSize_def)

declare order_batches.simps [simp del]

lemma order_batches_props:
  "concat (order_batches xs) = xs \<and> (\<forall>b \<in> set (order_batches xs). b \<noteq> [] \<and> length b \<le> 20) \<and>
    length (order_batches xs) = (length xs + 19) div 20"
proof (induction xs rule: order_batches.induct)
  case (1 xs)
  show ?case
  proof (cases "xs = []")
    case True
    then show ?thesis by (simp add: order_batches.simps [of "[]"])
  next
    case False
    then have l: "1 \<le> length xs" by (cases xs) auto
    have "(length (drop 20 xs) + 19) div 20 + 1 = (length xs + 19) div 20"
    proof (cases "length xs \<le> 20")
      case True
      with l have "(length xs + 19) div 20 = 1" by (intro div_nat_eqI) auto
      with True show ?thesis by simp
    next
      case False
      then have "length xs + 19 = (length (drop 20 xs) + 19) + 20" by simp
      then show ?thesis by (simp only:)
    qed
    with False "1.IH" [OF False] show ?thesis
      by (simp add: order_batches.simps [of xs] maxBatchSize_def)
  qed
qed

definition batch_outcome ::
  "(decimal \<Rightarrow> string) \<Rightarrow> (nat \<Rightarrow> bool) \<Rightarrow> (nat \<Rightarrow> http_request \<Rightarrow> http_result) \<Rightarrow>
    nat \<times> ExecOrderRequest list \<Rightarrow> OrderResult list" where
  "batch_outcome dstr limited send = (\<lambda>(i, b). case placeBatch dstr (limited i) (send i) b of
     Inl r \<Rightarrow> map (\<lambda>_. failed_order r) b | Inr rs \<Rightarrow> rs)"

lemma batches_loop_chunks:
  "batches_loop dstr limited send i reqs =
    concat (map (batch_outcome dstr limited send) (enumerate i (order_batches reqs)))"
proof (induction dstr limited send i reqs rule: batches_loop.induct)
  case (1 dstr limited send i reqs)
  then show ?case
    by (subst batches_loop.simps, subst order_batches.simps) (auto simp: batch_outcome_def Let_def)
qed

text \<open>A batch placement splits the orders, in order and without loss or repetition, into requests of one
  to twenty orders, as few as possible; the results are those of the requests in the same order, and a
  request that fails as a whole yields one failed result per order of it and does not keep the later
  ones from being sent.\<close>

theorem BatchPlaceOrders_spec:
  "BatchPlaceOrders dstr limited send reqs =
     (if reqs = [] then Inl NoOrdersToPlace
      else Inr (concat (map (batch_outcome dstr limited send) (enumerate 0 (order_batches reqs))))) \<and>
   concat (order_batches reqs) = reqs \<and>
   list_all (\<lambda>b. b \<noteq> [] \<and> length b \<le> 20) (order_batches reqs) \<and>
   length (order_batches reqs) = (length reqs + 19) div 20"
  using order_batches_props [of reqs] by (simp add: BatchPlaceOrders_def batches_loop_chunks list_all_iff)

text \<open>The number of results is the server's, not the caller's: a batch answer with fewer items than orders
  leaves orders without a result.\<close>

lemma batch_results_short:
  "placeBatch dstr False (\<lambda>_. Inr \<lparr>rs_Status = 200, rs_Body = Readable (JsonFrame (JObj
      [(''code'', JStr ''0''), (''data'', JArr [])]))\<rparr>) reqs = Inr []"
  by (simp add: placeBatch_def decode_envelope_def decode_items_def str_field_def raw_field_def)

text \<open>An order is reported as placed only if the envelope code and the code of the first item of the
  exchange's answer to its own request are both \<open>0\<close>; its ids are those of that item, and the request
  was a cash-mode order with the caller's symbol, price, size and client id.\<close>

theorem Api_PlaceOrder_success:
  assumes "Api_PlaceOrder dstr limited send request = (Some res, err)" and "or_Success res"
  shows "\<exists>req resp f okx d rest. request = Some req \<and> \<not> limited \<and> err = None \<and>
    send \<lparr>hq_method = ''POST'', hq_path = ''/api/v5/trade/order'', hq_body = [OKXOrderRequest_json dstr req]\<rparr> = Inr resp \<and>
    rs_Body resp = Readable f \<and> decode_envelope f = Some okx \<and> ox_Code okx = ''0'' \<and>
    decode_items (ox_Data okx) = Some (d # rest) \<and> od_SCode d = ''0'' \<and>
    or_ExchangeOrderID res = od_OrdID d \<and> or_OrderID res = od_ClOrdID d"
  using assms
  by (auto simp: Api_PlaceOrder_def failed_order_def placed_order_def
      split: option.splits sum.splits body.splits if_splits list.splits)

definition sample_okx_reply :: response where
  "sample_okx_reply = \<lparr>rs_Status = 200, rs_Body = Readable (JsonFrame (JObj
     [(''code'', JStr ''0''), (''data'', JArr [JObj [(''ordId'', JStr ''7''), (''clOrdId'', JStr ''c''), (''sCode'', JStr ''0'')]])]))\<rparr>"

definition sample_exec_order :: ExecOrderRequest where
  "sample_exec_order = \<lparr>eq_Symbol = ''BTC'', eq_Side = SideBuy, eq_OrderType = OrderTypePostOnly, eq_Price = 1,
     eq_Quantity = 1, eq_StrategyID = [], eq_GridLevel = 0, eq_ClientOrderID = ''c''\<rparr>"

theorem Api_PlaceOrder_success_witness:
  "\<exists>res. Api_PlaceOrder (\<lambda>_. ''1'') False (\<lambda>_. Inr sample_okx_reply) (Some sample_exec_order) = (Some res, None) \<and>
    or_Success res \<and> or_ExchangeOrderID res = ''7''"
proof -
  let ?res = "placed_order \<lparr>od_OrdID = ''7'', od_ClOrdID = ''c'', od_SCode = ''0'', od_SMsg = []\<rparr>"
  have eq: "Api_PlaceOrder (\<lambda>_. ''1'') False (\<lambda>_. Inr sample_okx_reply) (Some sample_exec_order) = (Some ?res, None)"
    by (simp add: Api_PlaceOrder_def sample_okx_reply_def decode_envelope_def decode_items_def
        decode_order_data_def str_field_def raw_field_def)
  from Api_PlaceOrder_success [OF eq] have "or_ExchangeOrderID ?res = ''7''"
    by (auto simp: placed_order_def)
  with eq show ?thesis by (auto simp: placed_order_def)
qed

end
