(* ===== verification/OrderNormalization.thy ===== *)
theory OrderNormalization
  imports Models Json
begin

text \<open>
  Instrument rules and order normalisation (\<open>src/internal/execution/instrument_rules.go\<close>): the
  cache of the rules, their parsing from the exchange's answer, and \<open>NormalizeOrder\<close>, which rounds
  an order candidate to the exchange's price and quantity steps or refuses to send it. The gateway's
  answer, \<open>decimal.NewFromString\<close> (\<open>dparse\<close>) and the clock readings are arguments.
\<close>

section \<open>Normalisation\<close>

record NormalizedOrderRequest =
  no_Symbol :: string
  no_Side :: Side
  no_OrderType :: OrderType
  no_Price :: decimal
  no_Quantity :: decimal
  no_ClOrdID :: string
  no_Purpose :: string

datatype no_send_reason =
    NsRulesInvalid instrument_error
  | NsSymbolMismatch string string
  | NsInvalidSide
  | NsPriceNotMultiple
  | NsQuantityNotMultiple
  | NsBelowMinSize decimal decimal
  | NsPriceNotPositive
  | NsQuantityNotPositive
  | NsBelowMinNotional decimal decimal

record NormalizationResult =
  nr_Normalized :: "NormalizedOrderRequest option"
  nr_NoSend :: bool
  nr_Reason :: "no_send_reason option"

definition no_send :: "no_send_reason \<Rightarrow> NormalizationResult" where
  "no_send r = \<lparr>nr_Normalized = None, nr_NoSend = True, nr_Reason = Some r\<rparr>"

text \<open>The price by side, \<open>None\<close> on the \<open>default\<close> branch.\<close>

definition normalize_price :: "declib \<Rightarrow> NormalizedOrderRequest \<Rightarrow> InstrumentRules \<Rightarrow> decimal option" where
  "normalize_price L candidate rules =
     (case no_Side candidate of
        SideBuy \<Rightarrow> Some (FloorToMultiple L (no_Price candidate) (ir_TickSize rules))
      | SideSell \<Rightarrow> Some (CeilToMultiple L (no_Price candidate) (ir_TickSize rules))
      | SideOther _ \<Rightarrow> None)"

definition NormalizeOrder ::
  "declib \<Rightarrow> NormalizedOrderRequest \<Rightarrow> InstrumentRules \<Rightarrow> time \<Rightarrow> NormalizationResult" where
  "NormalizeOrder L candidate rules now =
     (case InstrumentRules_Valid rules now of
        Some e \<Rightarrow> no_send (NsRulesInvalid e)
      | None \<Rightarrow>
          if no_Symbol candidate \<noteq> ir_Symbol rules
          then no_send (NsSymbolMismatch (no_Symbol candidate) (ir_Symbol rules))
          else (case normalize_price L candidate rules of
            None \<Rightarrow> no_send NsInvalidSide
          | Some price \<Rightarrow>
              let qty = FloorToMultiple L (no_Quantity candidate) (ir_LotSize rules) in
              if \<not> IsExactMultiple price (ir_TickSize rules) then no_send NsPriceNotMultiple
              else if \<not> IsExactMultiple qty (ir_LotSize rules) then no_send NsQuantityNotMultiple
              else if qty < ir_MinSize rules then no_send (NsBelowMinSize qty (ir_MinSize rules))
              else if \<not> (0 < price) then no_send NsPriceNotPositive
              else if \<not> (0 < qty) then no_send NsQuantityNotPositive
              else if 0 < ir_MinNotional rules \<and> price * qty < ir_MinNotional rules
              then no_send (NsBelowMinNotional (price * qty) (ir_MinNotional rules))
              else \<lparr>nr_Normalized = Some (candidate\<lparr>no_Price := price, no_Quantity := qty\<rparr>),
                    nr_NoSend = False, nr_Reason = None\<rparr>))"

section \<open>The rules cache\<close>

record InstrumentRulesCache =
  irc_ttl :: duration
  irc_hardTTL :: duration
  irc_cache :: "string \<rightharpoonup> InstrumentRules"

definition DefaultInstrumentRulesTTL :: duration where
  "DefaultInstrumentRulesTTL = 5 * 60 * 1000000000"

definition DefaultInstrumentRulesHardTTL :: duration where
  "DefaultInstrumentRulesHardTTL = 15 * 60 * 1000000000"

definition NewInstrumentRulesCache :: InstrumentRulesCache where
  "NewInstrumentRulesCache =
     \<lparr>irc_ttl = DefaultInstrumentRulesTTL, irc_hardTTL = DefaultInstrumentRulesHardTTL, irc_cache = Map.empty\<rparr>"

datatype rules_error = RefreshFailed string | FetchedRulesInvalid instrument_error

text \<open>\<open>answer\<close> is what the gateway returns for the symbol, \<open>None\<close> its error; \<open>now\<close> the clock after it.\<close>

definition Rules_Refresh ::
  "InstrumentRules option \<Rightarrow> time \<Rightarrow> string \<Rightarrow> InstrumentRulesCache \<Rightarrow>
    InstrumentRulesCache \<times> (rules_error + InstrumentRules)" where
  "Rules_Refresh answer now symbol c =
     (case answer of
        None \<Rightarrow> (c, Inl (RefreshFailed symbol))
      | Some fetched \<Rightarrow>
          let rules = fetched\<lparr>ir_FetchedAt := now, ir_ExpiresAt := now + irc_hardTTL c\<rparr> in
          (case InstrumentRules_Valid rules now of
             Some e \<Rightarrow> (c, Inl (FetchedRulesInvalid e))
           | None \<Rightarrow> (c\<lparr>irc_cache := (irc_cache c)(symbol \<mapsto> rules)\<rparr>, Inr rules)))"

definition Rules_Current ::
  "InstrumentRules option \<Rightarrow> time \<Rightarrow> time \<Rightarrow> string \<Rightarrow> InstrumentRulesCache \<Rightarrow>
    InstrumentRulesCache \<times> (rules_error + InstrumentRules)" where
  "Rules_Current answer now refreshed symbol c =
     (case irc_cache c symbol of
        None \<Rightarrow> Rules_Refresh answer refreshed symbol c
      | Some rules \<Rightarrow>
          (case InstrumentRules_Valid rules now of
             Some _ \<Rightarrow> Rules_Refresh answer refreshed symbol c
           | None \<Rightarrow> (c, Inr rules)))"

section \<open>Parsing the exchange's instruments\<close>

record OKXInstrumentData =
  oi_InstID :: string
  oi_TickSz :: string
  oi_LotSz :: string
  oi_MinSz :: string
  oi_InstType :: string
  oi_State :: string

type_synonym decparse = "string \<Rightarrow> decimal option"

datatype parse_rules_error = InvalidTickSz string string | InvalidLotSz string string | InvalidMinSz string string

definition positive_decimal :: "decparse \<Rightarrow> string \<Rightarrow> decimal option" where
  "positive_decimal dparse s =
     (case dparse s of None \<Rightarrow> None | Some v \<Rightarrow> if 0 < v then Some v else None)"

definition ParseInstrumentRules ::
  "decparse \<Rightarrow> OKXInstrumentData \<Rightarrow> time \<Rightarrow> duration \<Rightarrow> parse_rules_error + InstrumentRules" where
  "ParseInstrumentRules dparse d now hardTTL =
     (case positive_decimal dparse (oi_TickSz d) of
        None \<Rightarrow> Inl (InvalidTickSz (oi_TickSz d) (oi_InstID d))
      | Some tickSz \<Rightarrow> (case positive_decimal dparse (oi_LotSz d) of
          None \<Rightarrow> Inl (InvalidLotSz (oi_LotSz d) (oi_InstID d))
        | Some lotSz \<Rightarrow> (case positive_decimal dparse (oi_MinSz d) of
            None \<Rightarrow> Inl (InvalidMinSz (oi_MinSz d) (oi_InstID d))
          | Some minSz \<Rightarrow>
              Inr \<lparr>ir_Symbol = oi_InstID d, ir_TickSize = tickSz, ir_LotSize = lotSz, ir_MinSize = minSz,
                   ir_MinNotional = 0, ir_FetchedAt = now, ir_ExpiresAt = now + hardTTL\<rparr>)))"

datatype instruments_error = InstrumentsDecodeError | InstrumentsApiError string string

definition decode_instrument :: "json \<Rightarrow> OKXInstrumentData option" where
  "decode_instrument j =
     (case (str_field ''instId'' j, str_field ''tickSz'' j, str_field ''lotSz'' j,
            str_field ''minSz'' j, str_field ''instType'' j, str_field ''state'' j) of
        (Some i, Some t, Some l, Some mn, Some ty, Some st) \<Rightarrow>
          Some \<lparr>oi_InstID = i, oi_TickSz = t, oi_LotSz = l, oi_MinSz = mn, oi_InstType = ty, oi_State = st\<rparr>
      | _ \<Rightarrow> None)"

definition parseInstrumentsResponse :: "frame \<Rightarrow> instruments_error + OKXInstrumentData list" where
  "parseInstrumentsResponse body =
     (case body of
        TextFrame _ \<Rightarrow> Inl InstrumentsDecodeError
      | JsonFrame j \<Rightarrow>
          (case (str_field ''code'' j, str_field ''msg'' j, arr_field ''data'' j) of
             (Some code, Some msg, Some xs) \<Rightarrow>
               (case decode_all decode_instrument xs of
                  None \<Rightarrow> Inl InstrumentsDecodeError
                | Some ds \<Rightarrow> if code \<noteq> ''0'' then Inl (InstrumentsApiError code msg) else Inr ds)
           | _ \<Rightarrow> Inl InstrumentsDecodeError))"

section \<open>Rounding to a step\<close>

abbreviation half_ulp :: decimal where
  "half_ulp \<equiv> 1 / (2 * 10 ^ 16)"

lemma near_multiple_of_int:
  assumes "near_multiple n (of_int m) r"
  shows "r = of_int m"
proof (rule antisym)
  have "r \<le> of_int (m * 10 ^ n) / 10 ^ n" by (rule near_multiple_le_grid [OF assms]) simp
  then show "r \<le> of_int m" by simp
  have "of_int (m * 10 ^ n) / 10 ^ n \<le> r" by (rule near_multiple_mono_grid [OF assms]) simp
  then show "of_int m \<le> r" by simp
qed

lemma div_step_exact: "declib_ok L \<Longrightarrow> 0 < step \<Longrightarrow> dl_div L (of_int k * step) step = of_int k"
  using declib_div [of L step "of_int k * step"] near_multiple_of_int [of 16 k] by simp

lemma FloorToMultiple_exact: "declib_ok L \<Longrightarrow> 0 < step \<Longrightarrow> FloorToMultiple L (of_int k * step) step = of_int k * step"
  by (simp add: FloorToMultiple_def div_step_exact)

lemma CeilToMultiple_exact: "declib_ok L \<Longrightarrow> 0 < step \<Longrightarrow> CeilToMultiple L (of_int k * step) step = of_int k * step"
  by (simp add: CeilToMultiple_def div_step_exact)

lemma IsExactMultiple_iff: "0 < step \<Longrightarrow> IsExactMultiple v step \<longleftrightarrow> (\<exists>k::int. v = of_int k * step)"
proof
  assume s: "0 < step" and m: "IsExactMultiple v step"
  define k where "k = (if 0 \<le> v / step then \<lfloor>v / step\<rfloor> else \<lceil>v / step\<rceil>)"
  from s m have "v - step * of_int k = 0" by (simp only: IsExactMultiple_def dec_mod_def k_def) simp
  then have "v = of_int k * step" by (simp add: mult.commute)
  then show "\<exists>k::int. v = of_int k * step" ..
next
  assume s: "0 < step" and "\<exists>k::int. v = of_int k * step"
  then obtain k :: int where k: "v = of_int k * step" by blast
  with s have "v / step = of_int k" by simp
  with s k show "IsExactMultiple v step" by (simp add: IsExactMultiple_def dec_mod_def)
qed

lemma FloorToMultiple_multiple: "0 < step \<Longrightarrow> \<exists>k::int. FloorToMultiple L v step = of_int k * step"
  by (auto simp: FloorToMultiple_def)

lemma CeilToMultiple_multiple: "0 < step \<Longrightarrow> \<exists>k::int. CeilToMultiple L v step = of_int k * step"
  by (auto simp: CeilToMultiple_def)

lemma div_step_bounds:
  assumes "declib_ok L" and "0 < step"
  shows "dl_div L v step * step \<le> v + half_ulp * step" and "v - half_ulp * step \<le> dl_div L v step * step"
proof -
  have n: "near_multiple 16 (v / step) (dl_div L v step)" using assms by (intro declib_div) auto
  have "dl_div L v step * step \<le> (v / step + half_ulp) * step"
    using near_multiple_bounds(2) [OF n] assms(2) by (intro mult_right_mono) auto
  then show "dl_div L v step * step \<le> v + half_ulp * step" using assms(2) by (simp add: distrib_right)
  have "(v / step - half_ulp) * step \<le> dl_div L v step * step"
    using near_multiple_bounds(1) [OF n] assms(2) by (intro mult_right_mono) auto
  then show "v - half_ulp * step \<le> dl_div L v step * step" using assms(2) by (simp add: left_diff_distrib)
qed

lemma FloorToMultiple_bounds:
  assumes "declib_ok L" and "0 < step"
  shows "FloorToMultiple L v step \<le> v + half_ulp * step"
    and "v - (1 + half_ulp) * step < FloorToMultiple L v step"
proof -
  let ?q = "dl_div L v step"
  have "of_int \<lfloor>?q\<rfloor> * step \<le> ?q * step" using assms(2) by (intro mult_right_mono) auto
  with div_step_bounds(1) [OF assms, of v] have "of_int \<lfloor>?q\<rfloor> * step \<le> v + half_ulp * step"
    by (rule order_trans [rotated])
  with assms(2) show "FloorToMultiple L v step \<le> v + half_ulp * step"
    by (simp only: FloorToMultiple_def) simp
  have "(?q - 1) * step < of_int \<lfloor>?q\<rfloor> * step" using assms(2) by (intro mult_strict_right_mono) linarith+
  with div_step_bounds(2) [OF assms, of v] assms(2)
  show "v - (1 + half_ulp) * step < FloorToMultiple L v step"
    by (simp add: FloorToMultiple_def distrib_right left_diff_distrib)
qed

lemma CeilToMultiple_bounds:
  assumes "declib_ok L" and "0 < step"
  shows "v - half_ulp * step \<le> CeilToMultiple L v step"
    and "CeilToMultiple L v step < v + (1 + half_ulp) * step"
proof -
  let ?q = "dl_div L v step"
  have "?q * step \<le> of_int \<lceil>?q\<rceil> * step" using assms(2) by (intro mult_right_mono) auto
  with div_step_bounds(2) [OF assms, of v] have "v - half_ulp * step \<le> of_int \<lceil>?q\<rceil> * step"
    by (rule order_trans)
  with assms(2) show "v - half_ulp * step \<le> CeilToMultiple L v step"
    by (simp only: CeilToMultiple_def) simp
  have "of_int \<lceil>?q\<rceil> * step < (?q + 1) * step" using assms(2) by (intro mult_strict_right_mono) linarith+
  with div_step_bounds(1) [OF assms, of v] assms(2)
  show "CeilToMultiple L v step < v + (1 + half_ulp) * step"
    by (simp add: CeilToMultiple_def distrib_right)
qed

section \<open>What a normalised order is\<close>

definition satisfies_rules :: "NormalizedOrderRequest \<Rightarrow> InstrumentRules \<Rightarrow> bool" where
  "satisfies_rules r rules \<longleftrightarrow>
     no_Symbol r = ir_Symbol rules \<and> (no_Side r = SideBuy \<or> no_Side r = SideSell) \<and>
     IsExactMultiple (no_Price r) (ir_TickSize rules) \<and> IsExactMultiple (no_Quantity r) (ir_LotSize rules) \<and>
     0 < no_Price r \<and> 0 < no_Quantity r \<and> ir_MinSize rules \<le> no_Quantity r \<and>
     (0 < ir_MinNotional rules \<longrightarrow> ir_MinNotional rules \<le> no_Price r * no_Quantity r)"

lemma rules_valid_steps:
  "InstrumentRules_Valid rules now = None \<Longrightarrow> 0 < ir_TickSize rules \<and> 0 < ir_LotSize rules \<and> 0 < ir_MinSize rules"
  by (auto simp: InstrumentRules_Valid_def split: if_splits)

lemma normalize_price_cases:
  assumes "normalize_price L c rules = Some price"
  obtains "no_Side c = SideBuy" "price = FloorToMultiple L (no_Price c) (ir_TickSize rules)"
  | "no_Side c = SideSell" "price = CeilToMultiple L (no_Price c) (ir_TickSize rules)"
  using assms by (auto simp: normalize_price_def split: Side.splits)

lemma normalize_price_multiple:
  "normalize_price L c rules = Some price \<Longrightarrow> 0 < ir_TickSize rules \<Longrightarrow> IsExactMultiple price (ir_TickSize rules)"
  by (erule normalize_price_cases) (auto simp: IsExactMultiple_iff FloorToMultiple_multiple CeilToMultiple_multiple)

lemma NormalizeOrder_Some:
  assumes "nr_Normalized (NormalizeOrder L c rules now) = Some r"
  obtains price where "InstrumentRules_Valid rules now = None" "normalize_price L c rules = Some price"
    "r = c\<lparr>no_Price := price, no_Quantity := FloorToMultiple L (no_Quantity c) (ir_LotSize rules)\<rparr>"
    "satisfies_rules r rules"
proof -
  from assms obtain price where
    v: "InstrumentRules_Valid rules now = None" and p: "normalize_price L c rules = Some price"
    by (auto simp: NormalizeOrder_def no_send_def split: option.splits if_splits)
  from p have side: "no_Side c = SideBuy \<or> no_Side c = SideSell" by (rule normalize_price_cases) auto
  from assms v p side show ?thesis
    by (intro that [of price])
      (auto simp: NormalizeOrder_def no_send_def satisfies_rules_def Let_def split: if_splits)
qed

text \<open>An order that satisfies the rules is a fixed point.\<close>

lemma NormalizeOrder_fixed:
  assumes L: "declib_ok L" and v: "InstrumentRules_Valid rules now = None" and r: "satisfies_rules r rules"
  shows "NormalizeOrder L r rules now = \<lparr>nr_Normalized = Some r, nr_NoSend = False, nr_Reason = None\<rparr>"
proof -
  note s = rules_valid_steps [OF v]
  obtain k j :: int where k: "no_Price r = of_int k * ir_TickSize rules" "no_Quantity r = of_int j * ir_LotSize rules"
    using r s by (auto simp: satisfies_rules_def IsExactMultiple_iff)
  have q: "FloorToMultiple L (no_Quantity r) (ir_LotSize rules) = no_Quantity r"
    using FloorToMultiple_exact [OF L] s by (simp add: k)
  have p: "normalize_price L r rules = Some (no_Price r)"
    using r FloorToMultiple_exact [OF L] CeilToMultiple_exact [OF L] s
    by (auto simp: satisfies_rules_def normalize_price_def k)
  show ?thesis
    using r v by (auto simp: NormalizeOrder_def p q satisfies_rules_def Let_def)
qed

section \<open>Properties\<close>

text \<open>C25: An order that \<open>NormalizeOrder\<close> lets through satisfies every instrument rule (exact multiples
  of the price and quantity steps, the minimum size and notional, positivity), differs from the
  candidate in price and quantity only, and each of those by less than a step: the price of a BUY and
  every quantity is rounded down, the price of a SELL up, where the quotient's rounding at the sixteenth
  decimal allows half a unit of it per step to the other side. Normalising it again changes nothing.\<close>

theorem NormalizeOrder_sound:
  assumes "declib_ok L" and "nr_Normalized (NormalizeOrder L c rules now) = Some r"
  shows "satisfies_rules r rules \<and> InstrumentRules_Valid rules now = None \<and>
    r = c\<lparr>no_Price := no_Price r, no_Quantity := no_Quantity r\<rparr> \<and>
    no_Quantity r \<le> no_Quantity c + half_ulp * ir_LotSize rules \<and>
    no_Quantity c - (1 + half_ulp) * ir_LotSize rules < no_Quantity r \<and>
    (if no_Side c = SideBuy
     then no_Price r \<le> no_Price c + half_ulp * ir_TickSize rules \<and>
          no_Price c - (1 + half_ulp) * ir_TickSize rules < no_Price r
     else no_Price c - half_ulp * ir_TickSize rules \<le> no_Price r \<and>
          no_Price r < no_Price c + (1 + half_ulp) * ir_TickSize rules) \<and>
    NormalizeOrder L r rules now = \<lparr>nr_Normalized = Some r, nr_NoSend = False, nr_Reason = None\<rparr>"
proof -
  from assms(2) obtain price where v: "InstrumentRules_Valid rules now = None"
    and p: "normalize_price L c rules = Some price"
    and r: "r = c\<lparr>no_Price := price, no_Quantity := FloorToMultiple L (no_Quantity c) (ir_LotSize rules)\<rparr>"
    and s: "satisfies_rules r rules" by (rule NormalizeOrder_Some)
  note pos = rules_valid_steps [OF v]
  note q = FloorToMultiple_bounds [OF assms(1), of "ir_LotSize rules" "no_Quantity c"]
  have price: "if no_Side c = SideBuy
     then price \<le> no_Price c + half_ulp * ir_TickSize rules \<and>
          no_Price c - (1 + half_ulp) * ir_TickSize rules < price
     else no_Price c - half_ulp * ir_TickSize rules \<le> price \<and>
          price < no_Price c + (1 + half_ulp) * ir_TickSize rules"
    using p
  proof (cases rule: normalize_price_cases)
    case 1
    then show ?thesis using FloorToMultiple_bounds [OF assms(1)] pos by simp
  next
    case 2
    then show ?thesis using CeilToMultiple_bounds [OF assms(1)] pos by simp
  qed
  have r': "no_Price r = price" "no_Quantity r = FloorToMultiple L (no_Quantity c) (ir_LotSize rules)"
    by (simp_all add: r)
  have upd: "r = c\<lparr>no_Price := no_Price r, no_Quantity := no_Quantity r\<rparr>" unfolding r' by (rule r)
  show ?thesis
    using s v upd q(1) [folded r'(2)] q(2) [folded r'(2)] price [folded r'(1)]
      NormalizeOrder_fixed [OF assms(1) v s] pos
    by (intro conjI) blast+
qed

lemma rat_floor_numeral: "\<lfloor>numeral a / numeral b :: rat\<rfloor> = numeral a div numeral b"
  by (metis floor_divide_of_int_eq of_int_numeral)

definition sample_rules :: InstrumentRules where
  "sample_rules = \<lparr>ir_Symbol = ''BTC'', ir_TickSize = 1/10, ir_LotSize = 1/100, ir_MinSize = 1/100,
     ir_MinNotional = 5, ir_FetchedAt = 0, ir_ExpiresAt = 100\<rparr>"

definition sample_candidate :: "decimal \<Rightarrow> decimal \<Rightarrow> NormalizedOrderRequest" where
  "sample_candidate p q = \<lparr>no_Symbol = ''BTC'', no_Side = SideBuy, no_OrderType = OrderTypePostOnly,
     no_Price = p, no_Quantity = q, no_ClOrdID = ''c'', no_Purpose = ''initial''\<rparr>"

lemma sample_normalized:
  "NormalizeOrder std_declib (sample_candidate (1234567/100) (12345/10000)) sample_rules 7 =
    \<lparr>nr_Normalized = Some (sample_candidate (123456/10) (123/100)), nr_NoSend = False, nr_Reason = None\<rparr>"
  by (simp add: NormalizeOrder_def normalize_price_def sample_candidate_def sample_rules_def
      InstrumentRules_Valid_def FloorToMultiple_def std_declib_def round_half_away_def
      IsExactMultiple_def dec_mod_def Let_def rat_floor_numeral)

theorem NormalizeOrder_sound_witness:
  "satisfies_rules (sample_candidate (123456/10) (123/100)) sample_rules"
proof -
  have "nr_Normalized (NormalizeOrder std_declib (sample_candidate (1234567/100) (12345/10000)) sample_rules 7) =
      Some (sample_candidate (123456/10) (123/100))"
    by (simp only: sample_normalized NormalizationResult.simps)
  from NormalizeOrder_sound [OF std_declib_ok this] show ?thesis by (rule conjunct1)
qed

text \<open>\<open>NormalizeOrder\<close> refuses an order exactly when the rules are invalid or expired, are those
  of another symbol, the side is neither BUY nor SELL, or the rounded order is below the minimum size,
  not positive, or below the minimum notional: the two re-checks of exact multiples never fail.\<close>

theorem NormalizeOrder_refuses_iff:
  "nr_NoSend (NormalizeOrder L c rules now) \<longleftrightarrow> \<not>
    (InstrumentRules_Valid rules now = None \<and> no_Symbol c = ir_Symbol rules \<and>
     (\<exists>price. normalize_price L c rules = Some price \<and> 0 < price \<and>
       ir_MinSize rules \<le> FloorToMultiple L (no_Quantity c) (ir_LotSize rules) \<and>
       (ir_MinNotional rules \<le> 0 \<or>
        ir_MinNotional rules \<le> price * FloorToMultiple L (no_Quantity c) (ir_LotSize rules))))"
proof (cases "InstrumentRules_Valid rules now")
  case None
  note s = rules_valid_steps [OF None]
  show ?thesis
  proof (cases "normalize_price L c rules")
    case (Some price)
    have "IsExactMultiple (FloorToMultiple L (no_Quantity c) (ir_LotSize rules)) (ir_LotSize rules)"
      using s by (simp add: IsExactMultiple_iff FloorToMultiple_multiple)
    then show ?thesis
      using None Some s normalize_price_multiple [OF Some] by (auto simp: NormalizeOrder_def no_send_def Let_def)
  qed (simp add: NormalizeOrder_def no_send_def None)
qed (simp add: NormalizeOrder_def no_send_def)

text \<open>The library's \<open>Div\<close> rounds, so the floor of a BUY price can be above the price.\<close>

lemma FloorToMultiple_above:
  "FloorToMultiple std_declib (1 - 1 / 10 ^ 17) 1 = 1"
  by (simp add: FloorToMultiple_def std_declib_def round_half_away_def rat_floor_numeral)

text \<open>The rules that \<open>Current\<close> returns are valid at the moment of their check, from the cache or
  freshly fetched, they are then the cached ones, and after a fetch they expire one hard time-to-live
  later; an error leaves the cache as it was.\<close>

theorem Rules_Current_valid:
  "case Rules_Current answer now refreshed symbol c of
     (c', Inl _) \<Rightarrow> c' = c
   | (c', Inr rules) \<Rightarrow> irc_cache c' symbol = Some rules \<and>
       (c' = c \<and> InstrumentRules_Valid rules now = None \<or>
        InstrumentRules_Valid rules refreshed = None \<and> ir_FetchedAt rules = refreshed \<and>
        ir_ExpiresAt rules = refreshed + irc_hardTTL c \<and>
        (\<exists>fetched. answer = Some fetched \<and> ir_Symbol rules = ir_Symbol fetched))"
  by (auto simp: Rules_Current_def Rules_Refresh_def Let_def split: option.splits sum.splits)

lemma positive_decimal_Some: "positive_decimal f s = Some v \<longleftrightarrow> f s = Some v \<and> 0 < v"
  by (auto simp: positive_decimal_def split: option.splits)

lemma ParseInstrumentRules_valid:
  assumes "ParseInstrumentRules dparse d now ttl = Inr rules" and "oi_InstID d \<noteq> []" and "0 \<le> ttl"
  shows "InstrumentRules_Valid rules now = None \<and> ir_Symbol rules = oi_InstID d \<and>
    dparse (oi_TickSz d) = Some (ir_TickSize rules) \<and> dparse (oi_LotSz d) = Some (ir_LotSize rules) \<and>
    dparse (oi_MinSz d) = Some (ir_MinSize rules)"
  using assms by (auto simp: ParseInstrumentRules_def InstrumentRules_Valid_def positive_decimal_Some
      split: option.splits)

end
