(* ===== verification/ExchangeGateway.thy ===== *)
theory ExchangeGateway
  imports ApiClient OrderNormalization
begin

text \<open>
  The typed adapter of the OKX REST API (\<open>src/internal/execution/exchange_gateway.go\<close>). Every
  operation builds requests and interprets the results of \<open>doContextRequest\<close>: \<open>send\<close> is that
  function, its argument the request, its result an error of the client or the HTTP response.
  \<open>dstr\<close> is \<open>decimal.String\<close>, \<open>dparse\<close> is \<open>decimal.NewFromString\<close>; the clock is an argument. The two
  loops over pages carry the number of requests that the caller's context leaves time for; when it is
  used up the context has expired and \<open>doContextRequest\<close> fails.
\<close>

section \<open>Types\<close>

datatype transport_error = TrRequest do_error | TrReadBody | TrParse

record GatewayError =
  ge_HTTPStatus :: int
  ge_Code :: string
  ge_Msg :: string
  ge_SCode :: string
  ge_SMsg :: string
  ge_Transport :: "transport_error option"

definition zero_GatewayError :: GatewayError where
  "zero_GatewayError = \<lparr>ge_HTTPStatus = 0, ge_Code = [], ge_Msg = [], ge_SCode = [], ge_SMsg = [],
     ge_Transport = None\<rparr>"

definition transport_failure :: "transport_error \<Rightarrow> GatewayError" where
  "transport_failure t = zero_GatewayError\<lparr>ge_Transport := Some t\<rparr>"

definition IsTransportError :: "GatewayError \<Rightarrow> bool" where
  "IsTransportError e \<longleftrightarrow> ge_Transport e \<noteq> None"

datatype gateway_message =
    MsgTransport transport_error | MsgItem string string | MsgEnvelope string string | MsgUnknown

definition GatewayError_Error :: "GatewayError \<Rightarrow> gateway_message" where
  "GatewayError_Error e =
     (case ge_Transport e of
        Some t \<Rightarrow> MsgTransport t
      | None \<Rightarrow>
          if ge_SCode e \<noteq> [] \<and> ge_SCode e \<noteq> ''0'' then MsgItem (ge_SCode e) (ge_SMsg e)
          else if ge_Code e \<noteq> [] \<and> ge_Code e \<noteq> ''0'' then MsgEnvelope (ge_Code e) (ge_Msg e)
          else MsgUnknown)"

text \<open>The \<open>error\<close> values of the operations.\<close>

datatype gateway_failure =
    ClOrdIdRequired | SymbolRequired | OrderIdRequired
  | ClientFailure do_error
  | GatewayFailure GatewayError
  | InstrumentsFailure instruments_error
  | RulesFailure parse_rules_error
  | InstrumentNotFound string

record OrderPlaceResult =
  pr_ExchangeOrderID :: string
  pr_ClientOrderID :: string
  pr_Status :: OrderStatus
  pr_Err :: "GatewayError option"

definition zero_OrderPlaceResult :: OrderPlaceResult where
  "zero_OrderPlaceResult = \<lparr>pr_ExchangeOrderID = [], pr_ClientOrderID = [], pr_Status = OrderStatusPending,
     pr_Err = None\<rparr>"

record CancelAttemptResult =
  ca_ExchangeOrderID :: string
  ca_ClientOrderID :: string
  ca_Cancelled :: bool
  ca_Err :: "GatewayError option"

definition zero_CancelAttemptResult :: CancelAttemptResult where
  "zero_CancelAttemptResult = \<lparr>ca_ExchangeOrderID = [], ca_ClientOrderID = [], ca_Cancelled = False,
     ca_Err = None\<rparr>"

record ExchangeOrderInfo =
  ei_ExchangeOrderID :: string
  ei_ClientOrderID :: string
  ei_Symbol :: string
  ei_Side :: Side
  ei_Status :: OrderStatus
  ei_Price :: decimal
  ei_Quantity :: decimal
  ei_CumulativeFillQty :: decimal
  ei_AvgFillPrice :: decimal
  ei_CreateTime :: time
  ei_UpdateTime :: time

record OrderRef =
  rf_Symbol :: string
  rf_ExchangeOrderID :: string
  rf_ClientOrderID :: string

record QueryWindow =
  qw_After :: time
  qw_Before :: time

record FillCursor =
  fc_After :: string
  fc_Limit :: int
  fc_StartTime :: time

record OrderPage =
  op_Orders :: "ExchangeOrderInfo list"
  op_HasMore :: bool
  op_Cursor :: string

record FillRecord =
  fi_Symbol :: string
  fi_ExchangeOrderID :: string
  fi_ExchangeFillID :: string
  fi_Side :: Side
  fi_Price :: decimal
  fi_Quantity :: decimal
  fi_CumulativeQuantity :: decimal
  fi_Fee :: decimal
  fi_Timestamp :: time

record FillPage =
  fp_Fills :: "FillRecord list"
  fp_HasMore :: bool
  fp_Cursor :: string

record TickerObservation =
  to_Symbol :: string
  to_Last :: decimal
  to_BestBid :: decimal
  to_BestAsk :: decimal
  to_High24h :: decimal
  to_Low24h :: decimal
  to_ExchangeTimestamp :: time
  to_ReceivedAt :: time

type_synonym 'a sender = "http_request \<Rightarrow> http_result"

section \<open>Decoding of members\<close>

definition ascii_lower :: "char \<Rightarrow> char" where
  "ascii_lower c = (let n = (of_char c :: nat) in if 65 \<le> n \<and> n \<le> 90 then char_of (n + 32) else c)"

definition ToLower :: "string \<Rightarrow> string" where
  "ToLower s = map ascii_lower s"

definition EqualFold :: "string \<Rightarrow> string \<Rightarrow> bool" where
  "EqualFold s t \<longleftrightarrow> ToLower s = ToLower t"

definition okxSideToModel :: "string \<Rightarrow> Side" where
  "okxSideToModel side = (if ToLower side = ''sell'' then SideSell else SideBuy)"

definition okxStateToStatus :: "string \<Rightarrow> OrderStatus" where
  "okxStateToStatus state =
     (let s = ToLower state in
      if s = ''live'' then OrderStatusOpen
      else if s = ''partially_filled'' then OrderStatusPartiallyFilled
      else if s = ''filled'' then OrderStatusFilled
      else if s = ''canceled'' \<or> s = ''cancelled'' then OrderStatusCancelled
      else OrderStatusPending)"

text \<open>\<open>fmt.Sscanf(ts, "%d", &ms)\<close>: blanks, a sign, digits; an error when there are none or on overflow.\<close>

definition is_digit :: "char \<Rightarrow> bool" where
  "is_digit c = (let n = (of_char c :: nat) in 48 \<le> n \<and> n \<le> 57)"

definition sscan_int64 :: "string \<Rightarrow> int option" where
  "sscan_int64 s =
     (let t = dropWhile (\<lambda>c. c = CHR '' '' \<or> c = CHR 0x09) s;
          neg = (case t of c # _ \<Rightarrow> c = CHR ''-'' | [] \<Rightarrow> False);
          u = (case t of c # cs \<Rightarrow> if c = CHR ''-'' \<or> c = CHR ''+'' then cs else t | [] \<Rightarrow> []);
          ds = takeWhile is_digit u;
          v = (if neg then - int (Atoi_from 0 ds) else int (Atoi_from 0 ds))
      in if ds = [] \<or> v < - (2 ^ 63) \<or> 2 ^ 63 \<le> v then None else Some v)"

definition scan_int64 :: "string \<Rightarrow> int" where
  "scan_int64 s = (case sscan_int64 s of None \<Rightarrow> 0 | Some v \<Rightarrow> v)"

definition okxTimestampToTime :: "string \<Rightarrow> time" where
  "okxTimestampToTime ts =
     (if ts = [] then zero_time
      else let ms = scan_int64 ts in if ms > 0 then ms * 1000000 else zero_time)"

text \<open>\<open>v, _ = decimal.NewFromString(s)\<close>\<close>

definition dec_or_zero :: "decparse \<Rightarrow> string \<Rightarrow> decimal" where
  "dec_or_zero dparse s = (case dparse s of None \<Rightarrow> 0 | Some v \<Rightarrow> v)"

text \<open>A struct of string members: its decoding succeeds when that of every member does.\<close>

definition strings_ok :: "string list \<Rightarrow> json \<Rightarrow> bool" where
  "strings_ok ks j \<longleftrightarrow> list_all (\<lambda>k. str_field k j \<noteq> None) ks"

definition fld :: "string \<Rightarrow> json \<Rightarrow> string" where
  "fld k j = (case str_field k j of None \<Rightarrow> [] | Some s \<Rightarrow> s)"

text \<open>The envelope with its rows.\<close>

definition decode_rows :: "string list \<Rightarrow> frame \<Rightarrow> (string \<times> string \<times> json list) option" where
  "decode_rows ks f =
     (case f of
        TextFrame _ \<Rightarrow> None
      | JsonFrame j \<Rightarrow>
          (case (str_field ''code'' j, str_field ''msg'' j, arr_field ''data'' j) of
             (Some c, Some ms, Some rows) \<Rightarrow> if list_all (strings_ok ks) rows then Some (c, ms, rows) else None
           | _ \<Rightarrow> None))"

definition order_keys :: "string list" where
  "order_keys = [''instId'', ''ordId'', ''clOrdId'', ''side'', ''state'', ''px'', ''sz'', ''accFillSz'', ''avgPx'',
     ''cTime'', ''uTime'']"

definition order_info :: "decparse \<Rightarrow> json \<Rightarrow> ExchangeOrderInfo" where
  "order_info dparse d = \<lparr>ei_ExchangeOrderID = fld ''ordId'' d, ei_ClientOrderID = fld ''clOrdId'' d,
     ei_Symbol = fld ''instId'' d, ei_Side = okxSideToModel (fld ''side'' d),
     ei_Status = okxStateToStatus (fld ''state'' d), ei_Price = dec_or_zero dparse (fld ''px'' d),
     ei_Quantity = dec_or_zero dparse (fld ''sz'' d),
     ei_CumulativeFillQty = dec_or_zero dparse (fld ''accFillSz'' d),
     ei_AvgFillPrice = dec_or_zero dparse (fld ''avgPx'' d),
     ei_CreateTime = okxTimestampToTime (fld ''cTime'' d), ei_UpdateTime = okxTimestampToTime (fld ''uTime'' d)\<rparr>"

definition fill_keys :: "string list" where
  "fill_keys = [''instId'', ''ordId'', ''tradeId'', ''billId'', ''side'', ''fillPx'', ''fillSz'', ''fee'', ''ts'']"

definition fill_record :: "decparse \<Rightarrow> json \<Rightarrow> FillRecord" where
  "fill_record dparse d = \<lparr>fi_Symbol = fld ''instId'' d, fi_ExchangeOrderID = fld ''ordId'' d,
     fi_ExchangeFillID = (if fld ''tradeId'' d = [] then fld ''billId'' d else fld ''tradeId'' d),
     fi_Side = okxSideToModel (fld ''side'' d), fi_Price = dec_or_zero dparse (fld ''fillPx'' d),
     fi_Quantity = dec_or_zero dparse (fld ''fillSz'' d), fi_CumulativeQuantity = 0,
     fi_Fee = dec_or_zero dparse (fld ''fee'' d), fi_Timestamp = okxTimestampToTime (fld ''ts'' d)\<rparr>"

definition fill_page_id :: "json \<Rightarrow> string" where
  "fill_page_id d = (if fld ''billId'' d = [] then fld ''tradeId'' d else fld ''billId'' d)"

section \<open>Placing, cancelling, querying\<close>

definition parseOrderResponse :: "response \<Rightarrow> GatewayError + OKXResponse \<times> OKXOrderData list" where
  "parseOrderResponse resp =
     (case rs_Body resp of
        Unreadable \<Rightarrow> Inl (transport_failure TrReadBody)
      | Readable f \<Rightarrow> (case decode_envelope f of
          None \<Rightarrow> Inl (transport_failure TrParse)
        | Some okx \<Rightarrow> (case ox_Data okx of
            None \<Rightarrow> Inr (okx, [])
          | Some d \<Rightarrow> (case decode_items (Some d) of
              None \<Rightarrow> Inl (transport_failure TrParse)
            | Some items \<Rightarrow> Inr (okx, items)))))"

definition place_body :: "(decimal \<Rightarrow> string) \<Rightarrow> NormalizedOrderRequest \<Rightarrow> (string \<times> string) list" where
  "place_body dstr req =
     [(''instId'', no_Symbol req), (''tdMode'', ''cash''), (''side'', sideToOKX (no_Side req)),
      (''ordType'', orderTypeToOKX (no_OrderType req)), (''px'', dstr (no_Price req)),
      (''sz'', dstr (no_Quantity req)), (''clOrdId'', no_ClOrdID req)]"

definition Gateway_PlaceOrder ::
  "(decimal \<Rightarrow> string) \<Rightarrow> (http_request \<Rightarrow> http_result) \<Rightarrow> NormalizedOrderRequest \<Rightarrow>
    OrderPlaceResult \<times> gateway_failure option" where
  "Gateway_PlaceOrder dstr send req =
     (let failed = (\<lambda>ge. (zero_OrderPlaceResult\<lparr>pr_Err := Some ge\<rparr>, Some (GatewayFailure ge))) in
      if no_ClOrdID req = [] then (zero_OrderPlaceResult, Some ClOrdIdRequired)
      else (case send \<lparr>hq_method = ''POST'', hq_path = ''/api/v5/trade/order'', hq_body = [place_body dstr req]\<rparr> of
        Inl e \<Rightarrow> (zero_OrderPlaceResult\<lparr>pr_Err := Some (transport_failure (TrRequest e))\<rparr>, Some (ClientFailure e))
      | Inr resp \<Rightarrow> (case parseOrderResponse resp of
          Inl ge \<Rightarrow> failed ge
        | Inr (okx, items) \<Rightarrow>
            if ox_Code okx \<noteq> ''0''
            then failed (zero_GatewayError\<lparr>ge_HTTPStatus := rs_Status resp, ge_Code := ox_Code okx, ge_Msg := ox_Msg okx\<rparr>)
            else (case items of
                [] \<Rightarrow> failed (zero_GatewayError\<lparr>ge_Code := ox_Code okx, ge_Msg := ''no order data in response''\<rparr>)
              | item # _ \<Rightarrow>
                  if od_SCode item \<noteq> ''0'' then
                    (let ge = \<lparr>ge_HTTPStatus = rs_Status resp, ge_Code = ox_Code okx, ge_Msg = ox_Msg okx,
                               ge_SCode = od_SCode item, ge_SMsg = od_SMsg item, ge_Transport = None\<rparr>
                     in (zero_OrderPlaceResult\<lparr>pr_ClientOrderID := od_ClOrdID item, pr_Err := Some ge\<rparr>,
                         Some (GatewayFailure ge)))
                  else (\<lparr>pr_ExchangeOrderID = od_OrdID item, pr_ClientOrderID = od_ClOrdID item,
                         pr_Status = OrderStatusSubmitted, pr_Err = None\<rparr>, None)))))"

definition cancel_body :: "OrderRef \<Rightarrow> (string \<times> string) list" where
  "cancel_body ref = [(''instId'', rf_Symbol ref)] @ omitempty ''ordId'' (rf_ExchangeOrderID ref) @
     omitempty ''clOrdId'' (rf_ClientOrderID ref)"

definition Gateway_CancelOrder ::
  "(http_request \<Rightarrow> http_result) \<Rightarrow> OrderRef \<Rightarrow> CancelAttemptResult \<times> gateway_failure option" where
  "Gateway_CancelOrder send ref =
     (let failed = (\<lambda>ge. (zero_CancelAttemptResult\<lparr>ca_Err := Some ge\<rparr>, Some (GatewayFailure ge))) in
      if rf_Symbol ref = [] then (zero_CancelAttemptResult, Some SymbolRequired)
      else if rf_ExchangeOrderID ref = [] \<and> rf_ClientOrderID ref = []
      then (zero_CancelAttemptResult, Some OrderIdRequired)
      else (case send \<lparr>hq_method = ''POST'', hq_path = ''/api/v5/trade/cancel-order'', hq_body = [cancel_body ref]\<rparr> of
        Inl e \<Rightarrow> (zero_CancelAttemptResult\<lparr>ca_Err := Some (transport_failure (TrRequest e))\<rparr>, Some (ClientFailure e))
      | Inr resp \<Rightarrow> (case parseOrderResponse resp of
          Inl ge \<Rightarrow> failed ge
        | Inr (okx, items) \<Rightarrow>
            if ox_Code okx \<noteq> ''0''
            then failed (zero_GatewayError\<lparr>ge_HTTPStatus := rs_Status resp, ge_Code := ox_Code okx, ge_Msg := ox_Msg okx\<rparr>)
            else (case items of
                [] \<Rightarrow> (zero_CancelAttemptResult\<lparr>ca_Cancelled := True\<rparr>, None)
              | item # _ \<Rightarrow>
                  if od_SCode item \<noteq> ''0'' then
                    (let ge = \<lparr>ge_HTTPStatus = 0, ge_Code = ox_Code okx, ge_Msg = ox_Msg okx,
                               ge_SCode = od_SCode item, ge_SMsg = od_SMsg item, ge_Transport = None\<rparr>
                     in (\<lparr>ca_ExchangeOrderID = od_OrdID item, ca_ClientOrderID = od_ClOrdID item,
                          ca_Cancelled = False, ca_Err = Some ge\<rparr>, Some (GatewayFailure ge)))
                  else (\<lparr>ca_ExchangeOrderID = od_OrdID item, ca_ClientOrderID = od_ClOrdID item,
                         ca_Cancelled = True, ca_Err = None\<rparr>, None)))))"

definition get_request :: "string \<Rightarrow> http_request" where
  "get_request path = \<lparr>hq_method = ''GET'', hq_path = path, hq_body = []\<rparr>"

text \<open>The common part of the queries: the code, message and rows of the answer.\<close>

definition fetch_rows ::
  "string list \<Rightarrow> (http_request \<Rightarrow> http_result) \<Rightarrow> string \<Rightarrow> gateway_failure + string \<times> string \<times> json list" where
  "fetch_rows ks send path =
     (case send (get_request path) of
        Inl e \<Rightarrow> Inl (GatewayFailure (transport_failure (TrRequest e)))
      | Inr resp \<Rightarrow> (case rs_Body resp of
          Unreadable \<Rightarrow> Inl (GatewayFailure (transport_failure TrReadBody))
        | Readable f \<Rightarrow> (case decode_rows ks f of
            None \<Rightarrow> Inl (GatewayFailure (transport_failure TrParse))
          | Some (code, msg, rows) \<Rightarrow>
              if code \<noteq> ''0''
              then Inl (GatewayFailure (zero_GatewayError\<lparr>ge_Code := code, ge_Msg := msg\<rparr>))
              else Inr (code, msg, rows))))"

definition query_path :: "OrderRef \<Rightarrow> string option" where
  "query_path ref =
     (let path = ''/api/v5/trade/order?instId='' @ rf_Symbol ref in
      if rf_ExchangeOrderID ref \<noteq> [] then Some (path @ ''&ordId='' @ rf_ExchangeOrderID ref)
      else if rf_ClientOrderID ref \<noteq> [] then Some (path @ ''&clOrdId='' @ rf_ClientOrderID ref)
      else None)"

definition Gateway_QueryOrder ::
  "decparse \<Rightarrow> (http_request \<Rightarrow> http_result) \<Rightarrow> OrderRef \<Rightarrow> gateway_failure + ExchangeOrderInfo" where
  "Gateway_QueryOrder dparse send ref =
     (if rf_Symbol ref = [] then Inl SymbolRequired
      else (case query_path ref of
        None \<Rightarrow> Inl OrderIdRequired
      | Some path \<Rightarrow> (case fetch_rows order_keys send path of
          Inl e \<Rightarrow> Inl e
        | Inr (code, msg, []) \<Rightarrow> Inl (GatewayFailure (zero_GatewayError\<lparr>ge_Code := code, ge_Msg := ''order not found''\<rparr>))
        | Inr (code, msg, d # _) \<Rightarrow> Inr (order_info dparse d))))"

section \<open>Lists\<close>

definition fmt_d :: "int \<Rightarrow> string" where
  "fmt_d n = (if n < 0 then CHR ''-'' # Itoa (nat (- n)) else Itoa (nat n))"

definition unix_milli :: "time \<Rightarrow> int" where
  "unix_milli t = t div 1000000"

text \<open>The rows of an order list and the cursor to the next page: the last id of a full page.\<close>

definition parseOrderListResponse ::
  "decparse \<Rightarrow> (http_request \<Rightarrow> http_result) \<Rightarrow> string \<Rightarrow> gateway_failure + ExchangeOrderInfo list \<times> string" where
  "parseOrderListResponse dparse send path =
     (case fetch_rows order_keys send path of
        Inl e \<Rightarrow> Inl e
      | Inr (code, msg, rows) \<Rightarrow>
          Inr (map (order_info dparse) rows,
               if 100 \<le> length rows then fld ''ordId'' (last rows) else []))"

definition pending_path :: "string \<Rightarrow> string \<Rightarrow> string" where
  "pending_path symbol after = ''/api/v5/trade/orders-pending?instId='' @ symbol @ ''&instType=SPOT'' @
     (if after \<noteq> [] then ''&after='' @ after else [])"

fun pending_loop ::
  "decparse \<Rightarrow> nat \<Rightarrow> (nat \<Rightarrow> http_request \<Rightarrow> http_result) \<Rightarrow> string \<Rightarrow> string \<Rightarrow> ExchangeOrderInfo list \<Rightarrow>
    gateway_failure + ExchangeOrderInfo list" where
  "pending_loop dparse 0 send symbol after acc = Inl (GatewayFailure (transport_failure (TrRequest CtxError)))"
| "pending_loop dparse (Suc n) send symbol after acc =
     (case parseOrderListResponse dparse (send n) (pending_path symbol after) of
        Inl e \<Rightarrow> Inl e
      | Inr (orders, nextCursor) \<Rightarrow>
          if nextCursor = [] \<or> orders = [] then Inr (acc @ orders)
          else pending_loop dparse n send symbol nextCursor (acc @ orders))"

definition ListPendingOrders ::
  "decparse \<Rightarrow> nat \<Rightarrow> (nat \<Rightarrow> http_request \<Rightarrow> http_result) \<Rightarrow> string \<Rightarrow> gateway_failure + ExchangeOrderInfo list" where
  "ListPendingOrders dparse budget send symbol = pending_loop dparse budget send symbol [] []"

definition history_path :: "string \<Rightarrow> QueryWindow \<Rightarrow> string" where
  "history_path symbol w = ''/api/v5/trade/orders-history-archive?instId='' @ symbol @ ''&instType=SPOT'' @
     (if qw_After w \<noteq> zero_time then ''&begin='' @ fmt_d (unix_milli (qw_After w)) else []) @
     (if qw_Before w \<noteq> zero_time then ''&end='' @ fmt_d (unix_milli (qw_Before w)) else [])"

definition ListOrderHistory ::
  "decparse \<Rightarrow> (http_request \<Rightarrow> http_result) \<Rightarrow> string \<Rightarrow> QueryWindow \<Rightarrow> gateway_failure + OrderPage" where
  "ListOrderHistory dparse send symbol w =
     (case parseOrderListResponse dparse send (history_path symbol w) of
        Inl e \<Rightarrow> Inl e
      | Inr (orders, cursor) \<Rightarrow>
          Inr \<lparr>op_Orders = orders, op_HasMore = (cursor \<noteq> []), op_Cursor = cursor\<rparr>)"

definition fills_path :: "string \<Rightarrow> FillCursor \<Rightarrow> string" where
  "fills_path symbol c = ''/api/v5/trade/fills?instId='' @ symbol @ ''&instType=SPOT'' @
     (if fc_After c \<noteq> [] then ''&after='' @ fc_After c else []) @
     (if 0 < fc_Limit c then ''&limit='' @ fmt_d (fc_Limit c) else []) @
     (if fc_StartTime c \<noteq> zero_time then ''&begin='' @ fmt_d (unix_milli (fc_StartTime c)) else [])"

definition ListFills ::
  "decparse \<Rightarrow> (http_request \<Rightarrow> http_result) \<Rightarrow> string \<Rightarrow> FillCursor \<Rightarrow> gateway_failure + FillPage" where
  "ListFills dparse send symbol c =
     (case fetch_rows fill_keys send (fills_path symbol c) of
        Inl e \<Rightarrow> Inl e
      | Inr (code, msg, rows) \<Rightarrow>
          let hasMore = (rows \<noteq> [] \<and> 0 < fc_Limit c \<and> fc_Limit c \<le> int (length rows))
          in Inr \<lparr>fp_Fills = map (fill_record dparse) rows, fp_HasMore = hasMore,
                  fp_Cursor = (if hasMore then fill_page_id (last rows) else [])\<rparr>)"

section \<open>Market data\<close>

definition ticker_keys :: "string list" where
  "ticker_keys = [''instId'', ''last'', ''bidPx'', ''askPx'', ''high24h'', ''low24h'', ''ts'']"

definition GetTicker ::
  "decparse \<Rightarrow> (http_request \<Rightarrow> http_result) \<Rightarrow> time \<Rightarrow> string \<Rightarrow> gateway_failure + TickerObservation" where
  "GetTicker dparse send now symbol =
     (case fetch_rows ticker_keys send (''/api/v5/market/ticker?instId='' @ symbol) of
        Inl e \<Rightarrow> Inl e
      | Inr (code, msg, []) \<Rightarrow> Inl (GatewayFailure (zero_GatewayError\<lparr>ge_Code := code, ge_Msg := ''no ticker data''\<rparr>))
      | Inr (code, msg, d # _) \<Rightarrow>
          Inr \<lparr>to_Symbol = fld ''instId'' d, to_Last = dec_or_zero dparse (fld ''last'' d),
               to_BestBid = dec_or_zero dparse (fld ''bidPx'' d), to_BestAsk = dec_or_zero dparse (fld ''askPx'' d),
               to_High24h = dec_or_zero dparse (fld ''high24h'' d), to_Low24h = dec_or_zero dparse (fld ''low24h'' d),
               to_ExchangeTimestamp = okxTimestampToTime (fld ''ts'' d), to_ReceivedAt = now\<rparr>)"

definition GetInstrumentRules ::
  "decparse \<Rightarrow> (http_request \<Rightarrow> http_result) \<Rightarrow> time \<Rightarrow> string \<Rightarrow> gateway_failure + InstrumentRules" where
  "GetInstrumentRules dparse send now symbol =
     (case send (get_request (''/api/v5/public/instruments?instType=SPOT&instId='' @ symbol)) of
        Inl e \<Rightarrow> Inl (GatewayFailure (transport_failure (TrRequest e)))
      | Inr resp \<Rightarrow>
          (case (case rs_Body resp of Unreadable \<Rightarrow> Inl InstrumentsDecodeError
                 | Readable f \<Rightarrow> parseInstrumentsResponse f) of
             Inl e \<Rightarrow> Inl (InstrumentsFailure e)
           | Inr instruments \<Rightarrow>
               (case find (\<lambda>i. EqualFold (oi_InstID i) symbol) instruments of
                  None \<Rightarrow> Inl (InstrumentNotFound symbol)
                | Some inst \<Rightarrow>
                    (case ParseInstrumentRules dparse inst now api_hardTTL of
                       Inl e \<Rightarrow> Inl (RulesFailure e)
                     | Inr rules \<Rightarrow> Inr rules))))"

section \<open>Timestamps\<close>

lemma digit_char_is_digit: "d < 10 \<Longrightarrow> is_digit (digit_char d)"
  by (simp add: is_digit_def Let_def of_digit_char)

lemma Itoa_digits: "c \<in> set (Itoa n) \<Longrightarrow> is_digit c"
proof (induction n rule: Itoa.induct)
  case (1 n)
  then show ?case by (subst (asm) (2) Itoa.simps) (auto simp: digit_char_is_digit split: if_splits)
qed

lemma digit_not_sign: "is_digit c \<Longrightarrow> c \<noteq> CHR '' '' \<and> c \<noteq> CHR 0x09 \<and> c \<noteq> CHR ''-'' \<and> c \<noteq> CHR ''+''"
  by (auto simp: is_digit_def)

lemma scan_Itoa: "n < 2 ^ 63 \<Longrightarrow> scan_int64 (Itoa n) = int n"
proof -
  assume n: "n < 2 ^ 63"
  obtain c cs where e: "Itoa n = c # cs" by (cases "Itoa n") auto
  have c: "is_digit c" using Itoa_digits [of c n] by (simp add: e)
  have all: "takeWhile is_digit cs = cs" using Itoa_digits [of _ n] by (auto simp: e takeWhile_eq_all_conv)
  have "int n < 2 ^ 63" using n by (metis of_nat_less_iff of_nat_numeral of_nat_power)
  moreover have "Atoi_from 0 (c # cs) = n" using Atoi_Itoa [of n] by (simp only: e)
  ultimately show ?thesis
    using digit_not_sign [OF c] c by (auto simp: scan_int64_def sscan_int64_def Let_def e all)
qed

text \<open>Printing a positive millisecond time in the query and reading a timestamp of the exchange are
  inverse to each other, in the range of \<open>int64\<close>.\<close>

theorem timestamp_roundtrip:
  assumes "0 < ms" and "ms < 2 ^ 63"
  shows "okxTimestampToTime (fmt_d ms) = ms * 1000000 \<and> unix_milli (okxTimestampToTime (fmt_d ms)) = ms"
proof -
  have "fmt_d ms = Itoa (nat ms)" and "scan_int64 (Itoa (nat ms)) = ms"
    using assms scan_Itoa [of "nat ms"] by (auto simp: fmt_d_def nat_less_iff)
  with assms show ?thesis by (simp add: okxTimestampToTime_def unix_milli_def Let_def)
qed

theorem timestamp_roundtrip_witness: "okxTimestampToTime (fmt_d 1700000000000) = 1700000000000 * 1000000"
  using timestamp_roundtrip [of 1700000000000] by simp

section \<open>Pagination\<close>

text \<open>A loop over pages of \<open>psz\<close> rows that stops at the first short page collects all rows.\<close>

lemma paged_loop_complete:
  assumes step: "\<And>n k acc. k \<le> length items \<Longrightarrow> loop (Suc n) k acc =
      (if length (take psz (drop k items)) < psz then Inr (acc @ take psz (drop k items))
       else loop n (k + psz) (acc @ take psz (drop k items)))"
    and "0 < psz" and "k \<le> length items" and "(length items - k) div psz < n"
  shows "loop n k acc = Inr (acc @ drop k items)"
  using assms(3,4)
proof (induction n arbitrary: k acc)
  case (Suc n)
  show ?case
  proof (cases "length items - k < psz")
    case True
    then show ?thesis by (simp add: step [OF Suc.prems(1)])
  next
    case False
    then have k: "k + psz \<le> length items" using Suc.prems(1) by simp
    have "(length items - k) div psz = Suc ((length items - (k + psz)) div psz)"
      using False \<open>0 < psz\<close> by (simp add: le_div_geq)
    with Suc.prems(2) have "(length items - (k + psz)) div psz < n" by simp
    from Suc.IH [OF k this] have "loop n (k + psz) (acc @ take psz (drop k items)) =
        Inr (acc @ take psz (drop k items) @ drop (k + psz) items)" by simp
    also have "take psz (drop k items) @ drop (k + psz) items = drop k items"
      by (metis add.commute append_take_drop_id drop_drop)
    finally show ?thesis using k False by (simp add: step [OF Suc.prems(1)])
  qed
qed simp

definition list_answer :: "json list \<Rightarrow> response" where
  "list_answer rows = \<lparr>rs_Status = 200, rs_Body = Readable (JsonFrame (JObj
     [(''code'', JStr ''0''), (''data'', JArr rows)]))\<rparr>"

text \<open>The cursor that stands for the first \<open>k\<close> rows of a list.\<close>

definition cursor_at :: "(json \<Rightarrow> string) \<Rightarrow> json list \<Rightarrow> nat \<Rightarrow> string" where
  "cursor_at pid rows k = (if k = 0 then [] else pid (rows ! (k - 1)))"

text \<open>A server that returns, after the cursor of a row, the next rows of a fixed list.\<close>

definition serves_pending :: "string \<Rightarrow> json list \<Rightarrow> (nat \<Rightarrow> http_request \<Rightarrow> http_result) \<Rightarrow> bool" where
  "serves_pending symbol rows send \<longleftrightarrow> (\<forall>n k. k \<le> length rows \<longrightarrow>
     send n (get_request (pending_path symbol (cursor_at (fld ''ordId'') rows k))) =
       Inr (list_answer (take 100 (drop k rows))))"

definition rows_ok :: "string list \<Rightarrow> (json \<Rightarrow> string) \<Rightarrow> json list \<Rightarrow> bool" where
  "rows_ok ks pid rows \<longleftrightarrow> list_all (\<lambda>d. strings_ok ks d \<and> pid d \<noteq> []) rows"

lemma rows_ok_sub: "rows_ok ks pid rows \<Longrightarrow> list_all (strings_ok ks) (take n (drop k rows))"
  by (auto simp: rows_ok_def list_all_iff dest!: in_set_takeD in_set_dropD)

lemma fetch_list_answer:
  "send (get_request path) = Inr (list_answer rows) \<Longrightarrow> list_all (strings_ok ks) rows \<Longrightarrow>
    fetch_rows ks send path = Inr (''0'', [], rows)"
  by (simp add: fetch_rows_def list_answer_def decode_rows_def str_field_def arr_field_def raw_field_def)

lemma cursor_next:
  assumes "k + psz \<le> length rows" and "0 < psz"
  shows "pid (last (take psz (drop k rows))) = cursor_at pid rows (k + psz)"
proof -
  have "last (take psz (drop k rows)) = rows ! (k + psz - 1)"
    using assms by (subst last_conv_nth) (auto simp: add.commute)
  then show ?thesis using assms by (simp add: cursor_at_def)
qed

lemma cursor_nonempty: "rows_ok ks pid rows \<Longrightarrow> 0 < k \<Longrightarrow> k \<le> length rows \<Longrightarrow> cursor_at pid rows k \<noteq> []"
  by (simp add: cursor_at_def rows_ok_def list_all_length)

lemma pending_step:
  assumes "serves_pending symbol rows send" and "rows_ok order_keys (fld ''ordId'') rows" and "k \<le> length rows"
  shows "pending_loop dparse (Suc n) send symbol (cursor_at (fld ''ordId'') rows k) acc =
    (if length (take 100 (drop k rows)) < 100
     then Inr (acc @ map (order_info dparse) (take 100 (drop k rows)))
     else pending_loop dparse n send symbol (cursor_at (fld ''ordId'') rows (k + 100))
            (acc @ map (order_info dparse) (take 100 (drop k rows))))"
proof -
  let ?pg = "take 100 (drop k rows)"
  have "send n (get_request (pending_path symbol (cursor_at (fld ''ordId'') rows k))) = Inr (list_answer ?pg)"
    using assms(1,3) by (simp add: serves_pending_def)
  then have "fetch_rows order_keys (send n) (pending_path symbol (cursor_at (fld ''ordId'') rows k)) =
      Inr (''0'', [], ?pg)"
    by (rule fetch_list_answer) (rule rows_ok_sub [OF assms(2)])
  then have parse: "parseOrderListResponse dparse (send n) (pending_path symbol (cursor_at (fld ''ordId'') rows k)) =
      Inr (map (order_info dparse) ?pg, if 100 \<le> length ?pg then fld ''ordId'' (last ?pg) else [])"
    by (simp add: parseOrderListResponse_def)
  show ?thesis
  proof (cases "length ?pg < 100")
    case True
    then show ?thesis by (simp add: parse del: length_take)
  next
    case False
    then have k: "k + 100 \<le> length rows" using assms(3) by simp
    have "fld ''ordId'' (last ?pg) = cursor_at (fld ''ordId'') rows (k + 100)" by (rule cursor_next [OF k]) simp
    moreover have "cursor_at (fld ''ordId'') rows (k + 100) \<noteq> []" using cursor_nonempty [OF assms(2)] k by simp
    moreover have "?pg \<noteq> []" using False by auto
    ultimately show ?thesis using False by (simp add: parse del: length_take)
  qed
qed

text \<open>Listing the pending orders loses none and repeats none. Against a server that returns, after the id of
  an order, the next hundred orders of its list, and with time for one request per hundred orders and one
  more, the result is that list in its order, each order decoded.\<close>

theorem ListPendingOrders_complete:
  assumes "serves_pending symbol rows send" and "rows_ok order_keys (fld ''ordId'') rows"
    and "length rows div 100 < budget"
  shows "ListPendingOrders dparse budget send symbol = Inr (map (order_info dparse) rows)"
proof -
  let ?items = "map (order_info dparse) rows"
  let ?loop = "\<lambda>n k acc. pending_loop dparse n send symbol (cursor_at (fld ''ordId'') rows k) acc"
  have "?loop budget 0 [] = Inr ([] @ drop 0 ?items)"
  proof (rule paged_loop_complete [where psz = 100])
    fix n k acc
    assume "k \<le> length ?items"
    then show "?loop (Suc n) k acc = (if length (take 100 (drop k ?items)) < 100
        then Inr (acc @ take 100 (drop k ?items)) else ?loop n (k + 100) (acc @ take 100 (drop k ?items)))"
      using pending_step [OF assms(1,2)] by (simp only: drop_map take_map length_map)
  qed (use assms(3) in simp_all)
  then show ?thesis by (simp add: ListPendingOrders_def cursor_at_def)
qed

definition sample_order_row :: json where
  "sample_order_row = JObj [(''ordId'', JStr ''9''), (''state'', JStr ''live'')]"

definition sample_pending_server :: "nat \<Rightarrow> http_request \<Rightarrow> http_result" where
  "sample_pending_server n rq =
     (if rq = get_request (pending_path ''BTC'' []) then Inr (list_answer [sample_order_row])
      else Inr (list_answer []))"

theorem ListPendingOrders_complete_witness:
  "ListPendingOrders (\<lambda>_. None) 1 sample_pending_server ''BTC'' = Inr [order_info (\<lambda>_. None) sample_order_row]"
proof -
  have rows: "rows_ok order_keys (fld ''ordId'') [sample_order_row]"
    by (simp add: rows_ok_def order_keys_def strings_ok_def sample_order_row_def str_field_def fld_def)
  have k: "k = 0 \<or> k = 1" if "k \<le> 1" for k :: nat using that by auto
  have "serves_pending ''BTC'' [sample_order_row] sample_pending_server"
    by (auto simp: serves_pending_def sample_pending_server_def get_request_def pending_path_def cursor_at_def
        sample_order_row_def fld_def str_field_def dest!: k)
  from ListPendingOrders_complete [OF this rows] show ?thesis by simp
qed

section \<open>What a result means\<close>

text \<open>An operation succeeds only on the exchange's word. A placed order has a client id, went out as a
  cash-mode order with the caller's client id, and both codes of the answer are \<open>0\<close>; any error is
  also carried in the result, and a failed placement never looks placed.\<close>

theorem Gateway_PlaceOrder_spec:
  "case Gateway_PlaceOrder dstr send req of
     (res, None) \<Rightarrow> no_ClOrdID req \<noteq> [] \<and> pr_Err res = None \<and> pr_Status res = OrderStatusSubmitted \<and>
       (\<exists>resp okx item rest. send \<lparr>hq_method = ''POST'', hq_path = ''/api/v5/trade/order'',
            hq_body = [place_body dstr req]\<rparr> = Inr resp \<and>
          parseOrderResponse resp = Inr (okx, item # rest) \<and> ox_Code okx = ''0'' \<and> od_SCode item = ''0'' \<and>
          pr_ExchangeOrderID res = od_OrdID item \<and> pr_ClientOrderID res = od_ClOrdID item)
   | (res, Some e) \<Rightarrow> pr_ExchangeOrderID res = [] \<and> pr_Status res = OrderStatusPending \<and>
       (pr_Err res = None \<longleftrightarrow> e = ClOrdIdRequired) \<and> (no_ClOrdID req = [] \<longleftrightarrow> e = ClOrdIdRequired)"
  by (auto simp: Gateway_PlaceOrder_def zero_OrderPlaceResult_def Let_def
      split: sum.splits prod.splits list.splits option.splits)

text \<open>The code of the single item is lost when the envelope reports a failure.\<close>

lemma Gateway_PlaceOrder_drops_sCode:
  assumes "no_ClOrdID req \<noteq> []" and "send \<lparr>hq_method = ''POST'', hq_path = ''/api/v5/trade/order'',
      hq_body = [place_body dstr req]\<rparr> = Inr resp"
    and "parseOrderResponse resp = Inr (okx, item # rest)" and "ox_Code okx \<noteq> ''0''"
  shows "\<exists>ge. pr_Err (fst (Gateway_PlaceOrder dstr send req)) = Some ge \<and> ge_SCode ge = [] \<and> ge_SMsg ge = []"
  using assms by (simp add: Gateway_PlaceOrder_def zero_GatewayError_def zero_OrderPlaceResult_def)

text \<open>No fill that \<open>ListFills\<close> returns carries a cumulative quantity.\<close>

lemma ListFills_no_cumulative:
  "ListFills dparse send symbol c = Inr page \<Longrightarrow> f \<in> set (fp_Fills page) \<Longrightarrow> fi_CumulativeQuantity f = 0"
  by (auto simp: ListFills_def fill_record_def Let_def split: sum.splits)

lemma GetTicker_received_now:
  "GetTicker dparse send now symbol = Inr t \<Longrightarrow> to_ReceivedAt t = now"
  by (auto simp: GetTicker_def split: sum.splits list.splits prod.splits)

end
