(* ===== verification/Coordinator.thy ===== *)
theory Coordinator
  imports ExchangeGateway Outbox
begin

text \<open>
  The reconciliation coordinator (\<open>src/internal/execution/reconciliation_coordinator.go\<close>): one
  reconciliation cycle of a symbol (load the committed watermark, page through the exchange's fills,
  hand each to the fill processor, commit the new watermark) and the per-symbol scheduling of cycles
  (triggers, coalescing, the direct call). The gateway, the fill processor and the store are
  interfaces of the code and arguments here, each call with its index; \<open>clock i\<close> is the \<open>i\<close>-th reading
  of the clock in a cycle; \<open>budget\<close> is the number of page requests that the 25 second context leaves
  time for. At the end the interfaces are those of the model: \<open>ListFills\<close> of the gateway and the
  durable store.
\<close>

section \<open>Results and configuration\<close>

datatype ReconcileReason =
    ReconcileReasonStartup | ReconcileReasonReconnect | ReconcileReasonGap
  | ReconcileReasonUncertainOutbox | ReconcileReasonPeriodic | ReconcileReasonManual

datatype 'e reconcile_failure =
    LoadWatermarkFailed 'e
  | PaginateFillsFailed gateway_failure
  | ApplyFillFailed 'e
  | CommitWatermarkFailed 'e
  | AlreadyInProgress

record 'e ReconcileResult =
  rr_Symbol :: string
  rr_Reason :: ReconcileReason
  rr_StartedAt :: time
  rr_CompletedAt :: time
  rr_PagesQueried :: nat
  rr_FillsChecked :: nat
  rr_FillsCompensated :: nat
  rr_DuplicatesFound :: nat
  rr_OrdersChecked :: nat
  rr_OrderDiffs :: nat
  rr_WatermarkBefore :: "ReconciliationWatermark option"
  rr_WatermarkAfter :: "ReconciliationWatermark option"
  rr_Err :: "'e reconcile_failure option"
  rr_Overrun :: bool

definition new_result :: "string \<Rightarrow> ReconcileReason \<Rightarrow> time \<Rightarrow> 'e ReconcileResult" where
  "new_result symbol reason started = \<lparr>rr_Symbol = symbol, rr_Reason = reason, rr_StartedAt = started,
     rr_CompletedAt = zero_time, rr_PagesQueried = 0, rr_FillsChecked = 0, rr_FillsCompensated = 0,
     rr_DuplicatesFound = 0, rr_OrdersChecked = 0, rr_OrderDiffs = 0, rr_WatermarkBefore = None,
     rr_WatermarkAfter = None, rr_Err = None, rr_Overrun = False\<rparr>"

record ReconciliationCoordinatorConfig =
  cc_Interval :: duration
  cc_OverlapWindow :: duration
  cc_PageSize :: int

definition DefaultOverlapWindow :: duration where
  "DefaultOverlapWindow = 5 * 1000000000"

definition DefaultReconciliationCoordinatorConfig :: ReconciliationCoordinatorConfig where
  "DefaultReconciliationCoordinatorConfig =
     \<lparr>cc_Interval = 30 * 1000000000, cc_OverlapWindow = DefaultOverlapWindow, cc_PageSize = 100\<rparr>"

definition normalize_config :: "ReconciliationCoordinatorConfig \<Rightarrow> ReconciliationCoordinatorConfig" where
  "normalize_config cfg =
     cfg\<lparr>cc_Interval := (if cc_Interval cfg \<le> 0 then 30 * 1000000000 else cc_Interval cfg),
         cc_OverlapWindow := (if cc_OverlapWindow cfg \<le> 0 then DefaultOverlapWindow else cc_OverlapWindow cfg),
         cc_PageSize := (if cc_PageSize cfg \<le> 0 then 100 else cc_PageSize cfg)\<rparr>"

section \<open>One cycle\<close>

definition fillRecordToObservation :: "FillRecord \<Rightarrow> string \<Rightarrow> time \<Rightarrow> FillObservation" where
  "fillRecordToObservation fr symbol now = \<lparr>fo_Symbol = symbol, fo_ClientOrderID = [],
     fo_ExchangeOrderID = fi_ExchangeOrderID fr, fo_ExchangeFillID = fi_ExchangeFillID fr,
     fo_Side = fi_Side fr, fo_CumulativeQuantity = fi_CumulativeQuantity fr, fo_FillPrice = fi_Price fr,
     fo_Fee = fi_Fee fr, fo_Source = FillSourceReconciliation, fo_ExchangeTimestamp = fi_Timestamp fr,
     fo_ObservedAt = now, fo_StrategyID = [], fo_GridLevel = 0\<rparr>"

definition reconcile_plan :: "FillRecord \<Rightarrow> CounterOrderPlan" where
  "reconcile_plan fr =
     (let plan = \<lparr>cp_Eligibility = FillEligible, cp_Price = fi_Price fr, cp_Purpose = ''counter-sell'',
                  cp_IneligibleReason = []\<rparr>
      in if fi_Side fr = SideSell
         then plan\<lparr>cp_Eligibility := FillIneligible, cp_IneligibleReason := ''sell-fill-no-counter''\<rparr>
         else plan)"

text \<open>All pages of the fills, with the number of pages queried.\<close>

fun paginate_loop ::
  "nat \<Rightarrow> (nat \<Rightarrow> FillCursor \<Rightarrow> gateway_failure + FillPage) \<Rightarrow> FillCursor \<Rightarrow> nat \<Rightarrow> FillRecord list \<Rightarrow>
    nat \<times> (gateway_failure + FillRecord list)" where
  "paginate_loop 0 listFills cursor pages acc =
     (pages, Inl (GatewayFailure (transport_failure (TrRequest CtxError))))"
| "paginate_loop (Suc n) listFills cursor pages acc =
     (case listFills n cursor of
        Inl e \<Rightarrow> (pages, Inl e)
      | Inr page \<Rightarrow>
          if \<not> fp_HasMore page \<or> fp_Cursor page = [] then (pages + 1, Inr (acc @ fp_Fills page))
          else paginate_loop n listFills (cursor\<lparr>fc_After := fp_Cursor page\<rparr>) (pages + 1) (acc @ fp_Fills page))"

definition paginateFills ::
  "ReconciliationCoordinatorConfig \<Rightarrow> nat \<Rightarrow> (nat \<Rightarrow> FillCursor \<Rightarrow> gateway_failure + FillPage) \<Rightarrow> time \<Rightarrow>
    nat \<times> (gateway_failure + FillRecord list)" where
  "paginateFills cfg budget listFills windowStart =
     paginate_loop budget listFills \<lparr>fc_After = [], fc_Limit = cc_PageSize cfg, fc_StartTime = windowStart\<rparr> 0 []"

text \<open>The fills in order; \<open>i\<close> is the number already handed on, \<open>latest\<close> the latest time and its fill id.\<close>

type_synonym ('db, 'e) fill_observer =
  "nat \<Rightarrow> FillObservation \<Rightarrow> CounterOrderPlan \<Rightarrow> 'db \<Rightarrow> 'db \<times> ('e + FillApplyResult)"

definition count_fill :: "FillApplyResult \<Rightarrow> 'e ReconcileResult \<Rightarrow> 'e ReconcileResult" where
  "count_fill applied result =
     (let r1 = result\<lparr>rr_FillsChecked := rr_FillsChecked result + 1\<rparr>
      in if fr_Duplicate applied
         then r1\<lparr>rr_DuplicatesFound := rr_DuplicatesFound r1 + 1\<rparr>
         else r1\<lparr>rr_FillsCompensated := rr_FillsCompensated r1 + 1\<rparr>)"

definition later_fill :: "time \<times> string \<Rightarrow> FillRecord \<Rightarrow> time \<times> string" where
  "later_fill latest f = (if fst latest < fi_Timestamp f then (fi_Timestamp f, fi_ExchangeFillID f) else latest)"

fun process_fills ::
  "('db, 'e) fill_observer \<Rightarrow> (nat \<Rightarrow> time) \<Rightarrow> string \<Rightarrow> nat \<Rightarrow> FillRecord list \<Rightarrow> time \<times> string \<Rightarrow>
    'e ReconcileResult \<Rightarrow> 'db \<Rightarrow> 'db \<times> 'e ReconcileResult \<times> ('e + time \<times> string)" where
  "process_fills observe clock symbol i [] latest result db = (db, result, Inr latest)"
| "process_fills observe clock symbol i (fill # fills) latest result db =
     (case observe i (fillRecordToObservation fill symbol (clock (i + 1))) (reconcile_plan fill) db of
        (db', Inl e) \<Rightarrow> (db', result\<lparr>rr_FillsChecked := rr_FillsChecked result + 1\<rparr>, Inl e)
      | (db', Inr applied) \<Rightarrow>
          process_fills observe clock symbol (i + 1) fills (later_fill latest fill) (count_fill applied result) db')"

definition windowStart_of :: "ReconciliationCoordinatorConfig \<Rightarrow> ReconciliationWatermark option \<Rightarrow> time" where
  "windowStart_of cfg wm =
     (case wm of
        Some w \<Rightarrow> if rw_ExchangeAt w \<noteq> zero_time then rw_ExchangeAt w - cc_OverlapWindow cfg else zero_time
      | None \<Rightarrow> zero_time)"

definition executeCycle ::
  "ReconciliationCoordinatorConfig \<Rightarrow>
    (string \<Rightarrow> string \<Rightarrow> 'db \<Rightarrow> 'e + ReconciliationWatermark option) \<Rightarrow>
    (ReconciliationWatermark \<Rightarrow> 'db \<Rightarrow> 'db \<times> 'e option) \<Rightarrow>
    nat \<Rightarrow> (nat \<Rightarrow> FillCursor \<Rightarrow> gateway_failure + FillPage) \<Rightarrow>
    ('db, 'e) fill_observer \<Rightarrow> (nat \<Rightarrow> time) \<Rightarrow>
    string \<Rightarrow> ReconcileReason \<Rightarrow> 'db \<Rightarrow> 'db \<times> 'e ReconcileResult" where
  "executeCycle cfg load commit budget listFills observe clock symbol reason db =
     (let result = new_result symbol reason (clock 0) in
      case load symbol ''rest'' db of
        Inl e \<Rightarrow> (db, result\<lparr>rr_Err := Some (LoadWatermarkFailed e), rr_CompletedAt := clock 1\<rparr>)
      | Inr wm \<Rightarrow>
          let r1 = result\<lparr>rr_WatermarkBefore := wm\<rparr> in
          (case paginateFills cfg budget listFills (windowStart_of cfg wm) of
             (pages, Inl e) \<Rightarrow>
               (db, r1\<lparr>rr_PagesQueried := pages, rr_Err := Some (PaginateFillsFailed e), rr_CompletedAt := clock 1\<rparr>)
           | (pages, Inr fills) \<Rightarrow>
               (case process_fills observe clock symbol 0 fills (zero_time, []) (r1\<lparr>rr_PagesQueried := pages\<rparr>) db of
                  (db1, r2, Inl e) \<Rightarrow>
                    (db1, r2\<lparr>rr_Err := Some (ApplyFillFailed e), rr_CompletedAt := clock (rr_FillsChecked r2 + 1)\<rparr>)
                | (db1, r2, Inr (latestTS, latestID)) \<Rightarrow>
                    let k = rr_FillsChecked r2 in
                    if zero_time < latestTS then
                      let wm' = \<lparr>rw_Symbol = symbol, rw_Stream = ''rest'', rw_ExchangeAt = latestTS,
                                 rw_StableID = latestID, rw_CompletedAt = clock (k + 1)\<rparr>
                      in (case commit wm' db1 of
                            (db2, Some e) \<Rightarrow>
                              (db2, r2\<lparr>rr_Err := Some (CommitWatermarkFailed e), rr_CompletedAt := clock (k + 2)\<rparr>)
                          | (db2, None) \<Rightarrow>
                              (db2, r2\<lparr>rr_WatermarkAfter := Some wm', rr_CompletedAt := clock (k + 2)\<rparr>))
                    else (db1, r2\<lparr>rr_CompletedAt := clock (k + 1)\<rparr>))))"

section \<open>Scheduling\<close>

record symbolReconcileState =
  sr_running :: bool
  sr_pendingTrigger :: "ReconcileReason option"
  sr_overrunCount :: int
  sr_lastCycleStart :: time

definition new_symbol_state :: symbolReconcileState where
  "new_symbol_state = \<lparr>sr_running = False, sr_pendingTrigger = None, sr_overrunCount = 0,
     sr_lastCycleStart = zero_time\<rparr>"

record ReconciliationCoordinator =
  rc_config :: ReconciliationCoordinatorConfig
  rc_symbols :: "(string, symbolReconcileState) gomap"
  rc_running :: bool
  rc_triggerCh :: "(string \<times> ReconcileReason) list"

definition trigger_capacity :: nat where
  "trigger_capacity = 64"

definition NewReconciliationCoordinator :: "ReconciliationCoordinatorConfig \<Rightarrow> ReconciliationCoordinator" where
  "NewReconciliationCoordinator cfg =
     \<lparr>rc_config = normalize_config cfg, rc_symbols = [], rc_running = False, rc_triggerCh = []\<rparr>"

definition Coordinator_SetSymbols :: "string list \<Rightarrow> ReconciliationCoordinator \<Rightarrow> ReconciliationCoordinator" where
  "Coordinator_SetSymbols symbols rc = rc\<lparr>rc_symbols :=
     foldl (\<lambda>m s. if map_of m s = None then AList.update s new_symbol_state m else m) (rc_symbols rc) symbols\<rparr>"

definition Trigger :: "string \<Rightarrow> ReconcileReason \<Rightarrow> ReconciliationCoordinator \<Rightarrow> ReconciliationCoordinator" where
  "Trigger symbol reason rc =
     (if length (rc_triggerCh rc) < trigger_capacity
      then rc\<lparr>rc_triggerCh := rc_triggerCh rc @ [(symbol, reason)]\<rparr> else rc)"

definition TriggerAll :: "ReconcileReason \<Rightarrow> ReconciliationCoordinator \<Rightarrow> ReconciliationCoordinator" where
  "TriggerAll reason rc = foldl (\<lambda>r s. Trigger s reason r) rc (map fst (rc_symbols rc))"

definition Coordinator_Start :: "ReconciliationCoordinator \<Rightarrow> ReconciliationCoordinator" where
  "Coordinator_Start rc = (if rc_running rc then rc else rc\<lparr>rc_running := True\<rparr>)"

definition Coordinator_Stop :: "ReconciliationCoordinator \<Rightarrow> ReconciliationCoordinator" where
  "Coordinator_Stop rc = (if \<not> rc_running rc then rc else rc\<lparr>rc_running := False\<rparr>)"

definition symbol_state :: "ReconciliationCoordinator \<Rightarrow> string \<Rightarrow> symbolReconcileState" where
  "symbol_state rc s = (case map_of (rc_symbols rc) s of None \<Rightarrow> new_symbol_state | Some st \<Rightarrow> st)"

definition put_state :: "string \<Rightarrow> symbolReconcileState \<Rightarrow> ReconciliationCoordinator \<Rightarrow> ReconciliationCoordinator" where
  "put_state s st rc = rc\<lparr>rc_symbols := AList.update s st (rc_symbols rc)\<rparr>"

text \<open>
  The lock section that \<open>handleTrigger\<close> and \<open>ReconcileNow\<close> share: start a cycle, or coalesce into the
  one that runs. The boolean is whether the caller starts a cycle.
\<close>

definition begin_cycle ::
  "string \<Rightarrow> ReconcileReason \<Rightarrow> ReconciliationCoordinator \<Rightarrow> ReconciliationCoordinator \<times> bool" where
  "begin_cycle symbol reason rc =
     (let st = symbol_state rc symbol in
      if sr_running st then
        (put_state symbol (st\<lparr>sr_pendingTrigger := (case sr_pendingTrigger st of None \<Rightarrow> Some reason | Some r \<Rightarrow> Some r),
                              sr_overrunCount := sr_overrunCount st + 1\<rparr>) rc, False)
      else (put_state symbol (st\<lparr>sr_running := True\<rparr>) rc, True))"

text \<open>The section of \<open>runCycle\<close> after a cycle: the follow-up's reason, if a trigger is pending.\<close>

definition end_background ::
  "string \<Rightarrow> ReconciliationCoordinator \<Rightarrow> ReconciliationCoordinator \<times> ReconcileReason option" where
  "end_background symbol rc =
     (let st = symbol_state rc symbol in
      case sr_pendingTrigger st of
        Some r \<Rightarrow> (put_state symbol (st\<lparr>sr_pendingTrigger := None\<rparr>) rc, Some r)
      | None \<Rightarrow> (put_state symbol (st\<lparr>sr_running := False\<rparr>) rc, None))"

text \<open>The section of \<open>ReconcileNow\<close> after its cycle.\<close>

definition end_direct :: "string \<Rightarrow> ReconciliationCoordinator \<Rightarrow> ReconciliationCoordinator" where
  "end_direct symbol rc = put_state symbol ((symbol_state rc symbol)\<lparr>sr_running := False\<rparr>) rc"

text \<open>\<open>ReconcileNow\<close> without interleaving: \<open>run\<close> is \<open>executeCycle\<close>.\<close>

definition coalesced_result :: "string \<Rightarrow> ReconcileReason \<Rightarrow> 'e ReconcileResult" where
  "coalesced_result symbol reason =
     (new_result symbol reason zero_time)\<lparr>rr_Overrun := True, rr_Err := Some AlreadyInProgress\<rparr>"

definition ReconcileNow ::
  "(string \<Rightarrow> ReconcileReason \<Rightarrow> 'db \<Rightarrow> 'db \<times> 'e ReconcileResult) \<Rightarrow> string \<Rightarrow> ReconcileReason \<Rightarrow>
    ReconciliationCoordinator \<Rightarrow> 'db \<Rightarrow> ReconciliationCoordinator \<times> 'db \<times> 'e ReconcileResult" where
  "ReconcileNow run symbol reason rc db =
     (case begin_cycle symbol reason rc of
        (rc', False) \<Rightarrow> (rc', db, coalesced_result symbol reason)
      | (rc', True) \<Rightarrow> (case run symbol reason db of (db', res) \<Rightarrow> (end_direct symbol rc', db', res)))"

definition OverrunCount :: "string \<Rightarrow> ReconciliationCoordinator \<Rightarrow> int" where
  "OverrunCount symbol rc = (case map_of (rc_symbols rc) symbol of None \<Rightarrow> 0 | Some st \<Rightarrow> sr_overrunCount st)"

text \<open>
  The coordinator with the cycles in progress. \<open>Background\<close> cycles are goroutines of \<open>runCycle\<close>,
  \<open>Direct\<close> ones calls of \<open>ReconcileNow\<close>. The loop's \<open>select\<close> may take a tick or a trigger.
\<close>

datatype cycle = Background string ReconcileReason | Direct string ReconcileReason

fun cycle_symbol :: "cycle \<Rightarrow> string" where
  "cycle_symbol (Background s _) = s"
| "cycle_symbol (Direct s _) = s"

definition handleTrigger ::
  "string \<times> ReconcileReason \<Rightarrow> ReconciliationCoordinator \<times> cycle list \<Rightarrow> ReconciliationCoordinator \<times> cycle list" where
  "handleTrigger trigger w =
     (case begin_cycle (fst trigger) (snd trigger) (fst w) of
        (rc, starts) \<Rightarrow> (rc, if starts then Background (fst trigger) (snd trigger) # snd w else snd w))"

definition periodicReconcileAll ::
  "ReconciliationCoordinator \<times> cycle list \<Rightarrow> ReconciliationCoordinator \<times> cycle list" where
  "periodicReconcileAll w =
     foldl (\<lambda>v s. handleTrigger (s, ReconcileReasonPeriodic) v) w (map fst (rc_symbols (fst w)))"

inductive coord_step :: "ReconciliationCoordinator \<times> cycle list \<Rightarrow> ReconciliationCoordinator \<times> cycle list \<Rightarrow> bool" where
  set_symbols: "coord_step (rc, cs) (Coordinator_SetSymbols symbols rc, cs)"
| trigger: "coord_step (rc, cs) (Trigger s reason rc, cs)"
| trigger_all: "coord_step (rc, cs) (TriggerAll reason rc, cs)"
| start: "coord_step (rc, cs) (Coordinator_Start rc, cs)"
| stop: "coord_step (rc, cs) (Coordinator_Stop rc, cs)"
| tick: "rc_running rc \<Longrightarrow> coord_step (rc, cs) (periodicReconcileAll (rc, cs))"
| take_trigger: "rc_running rc \<Longrightarrow> rc_triggerCh rc = t # ts \<Longrightarrow>
    coord_step (rc, cs) (handleTrigger t (rc\<lparr>rc_triggerCh := ts\<rparr>, cs))"
| finish: "cs = ds @ Background s reason # es \<Longrightarrow> end_background s rc = (rc', next) \<Longrightarrow>
    coord_step (rc, cs) (rc', ds @ (case next of None \<Rightarrow> [] | Some r \<Rightarrow> [Background s r]) @ es)"
| now_begin: "begin_cycle s reason rc = (rc', starts) \<Longrightarrow>
    coord_step (rc, cs) (rc', if starts then Direct s reason # cs else cs)"
| now_end: "cs = ds @ Direct s reason # es \<Longrightarrow> coord_step (rc, cs) (end_direct s rc, ds @ es)"

definition coord_reachable :: "ReconciliationCoordinatorConfig \<Rightarrow> ReconciliationCoordinator \<times> cycle list \<Rightarrow> bool" where
  "coord_reachable cfg w \<longleftrightarrow> coord_step\<^sup>*\<^sup>* (NewReconciliationCoordinator cfg, []) w"

inductive_cases coord_stepE: "coord_step (rc, cs) w"

section \<open>Cycles do not overlap\<close>

text \<open>A symbol is marked running exactly while one cycle of it is in progress.\<close>

definition coord_inv :: "ReconciliationCoordinator \<times> cycle list \<Rightarrow> bool" where
  "coord_inv w \<longleftrightarrow> distinct (map cycle_symbol (snd w)) \<and>
     (\<forall>s. sr_running (symbol_state (fst w) s) \<longleftrightarrow> s \<in> cycle_symbol ` set (snd w)) \<and>
     length (rc_triggerCh (fst w)) \<le> trigger_capacity"

lemma symbol_state_put [simp]:
  "symbol_state (put_state s st rc) t = (if t = s then st else symbol_state rc t)"
  by (simp add: symbol_state_def put_state_def)

lemma triggerCh_put [simp]: "rc_triggerCh (put_state s st rc) = rc_triggerCh rc"
  by (simp add: put_state_def)

lemma symbol_state_channel [simp]: "symbol_state (rc\<lparr>rc_triggerCh := ts\<rparr>) s = symbol_state rc s"
  "symbol_state (rc\<lparr>rc_running := b\<rparr>) s = symbol_state rc s"
  by (simp_all add: symbol_state_def)

lemma begin_cycle_effect:
  assumes "begin_cycle s r rc = (rc', starts)"
  shows "starts = (\<not> sr_running (symbol_state rc s)) \<and> rc_triggerCh rc' = rc_triggerCh rc \<and>
    sr_running (symbol_state rc' t) = (t = s \<or> sr_running (symbol_state rc t))"
  using assms by (auto simp: begin_cycle_def Let_def split: if_splits)

lemma begin_inv:
  assumes "coord_inv (rc, cs)" and "begin_cycle s r rc = (rc', starts)" and "cycle_symbol c = s"
  shows "coord_inv (rc', if starts then c # cs else cs)"
  using assms begin_cycle_effect [OF assms(2)] by (auto simp: coord_inv_def)

lemma handleTrigger_inv: "coord_inv w \<Longrightarrow> coord_inv (handleTrigger t w)"
  using begin_inv [of "fst w" "snd w" "fst t" "snd t" _ _ "Background (fst t) (snd t)"]
  by (auto simp: handleTrigger_def split: prod.split)

lemma periodic_inv: "coord_inv w \<Longrightarrow> coord_inv (periodicReconcileAll w)"
proof -
  have "coord_inv w \<Longrightarrow> coord_inv (foldl (\<lambda>v s. handleTrigger (s, ReconcileReasonPeriodic) v) w ss)" for ss
    by (induction ss arbitrary: w) (simp_all add: handleTrigger_inv)
  then show "coord_inv w \<Longrightarrow> coord_inv (periodicReconcileAll w)" by (simp add: periodicReconcileAll_def)
qed

lemma Trigger_inv: "coord_inv (rc, cs) \<Longrightarrow> coord_inv (Trigger s r rc, cs)"
  by (auto simp: coord_inv_def Trigger_def)

lemma TriggerAll_inv: "coord_inv (rc, cs) \<Longrightarrow> coord_inv (TriggerAll r rc, cs)"
proof -
  have "coord_inv (rc, cs) \<Longrightarrow> coord_inv (foldl (\<lambda>q s. Trigger s r q) rc ss, cs)" for ss
    by (induction ss arbitrary: rc) (auto intro: Trigger_inv)
  then show "coord_inv (rc, cs) \<Longrightarrow> coord_inv (TriggerAll r rc, cs)" by (simp add: TriggerAll_def)
qed

lemma SetSymbols_state: "symbol_state (Coordinator_SetSymbols symbols rc) s = symbol_state rc s"
proof -
  have "(case map_of (foldl (\<lambda>m s. if map_of m s = None then AList.update s new_symbol_state m else m) m symbols) s of
      None \<Rightarrow> new_symbol_state | Some st \<Rightarrow> st) = (case map_of m s of None \<Rightarrow> new_symbol_state | Some st \<Rightarrow> st)" for m
  proof (induction symbols arbitrary: m)
    case (Cons a symbols)
    show ?case by (subst foldl_Cons, subst Cons.IH) (auto split: option.split)
  qed simp
  then show ?thesis by (simp add: symbol_state_def Coordinator_SetSymbols_def)
qed

lemma coord_step_inv: "coord_step w w' \<Longrightarrow> coord_inv w \<Longrightarrow> coord_inv w'"
proof (induction rule: coord_step.induct)
  case (finish cs ds s reason es rc rc' "next")
  have run: "sr_running (symbol_state rc' t) =
      (if t = s then next \<noteq> None else sr_running (symbol_state rc t))" for t
    using finish.hyps(2) finish.prems finish.hyps(1)
    by (auto simp: end_background_def Let_def coord_inv_def split: option.splits)
  have "rc_triggerCh rc' = rc_triggerCh rc"
    using finish.hyps(2) by (auto simp: end_background_def Let_def split: option.splits)
  then show ?case using finish.prems finish.hyps(1) by (cases "next") (auto simp: coord_inv_def run)
next
  case (now_begin s reason rc rc' starts cs)
  then show ?case using begin_inv [of rc cs s reason rc' starts "Direct s reason"] by simp
next
  case (now_end cs ds s reason es rc)
  then show ?case by (auto simp: coord_inv_def end_direct_def)
next
  case (take_trigger rc t ts cs)
  have "coord_inv (rc\<lparr>rc_triggerCh := ts\<rparr>, cs)" using take_trigger by (auto simp: coord_inv_def)
  then show ?case by (rule handleTrigger_inv)
next
  case (set_symbols rc cs symbols)
  then show ?case by (simp add: coord_inv_def SetSymbols_state) (simp add: Coordinator_SetSymbols_def)
next
  case (start rc cs)
  then show ?case by (simp add: coord_inv_def Coordinator_Start_def)
next
  case (stop rc cs)
  then show ?case by (simp add: coord_inv_def Coordinator_Stop_def)
qed (rule Trigger_inv TriggerAll_inv periodic_inv, assumption)+

text \<open>C7: Reconciliation cycles of one symbol never overlap. Whatever ticks, triggers, direct calls and
  cycle ends interleave, there is at most one cycle of each symbol in progress, the symbol is marked as
  running exactly then, and at most 64 triggers wait; a cycle that ends with a trigger pending is followed
  by one for it.\<close>

theorem cycles_never_overlap:
  assumes "coord_reachable cfg (rc, cs)"
  shows "distinct (map cycle_symbol cs) \<and>
    (\<forall>s. sr_running (symbol_state rc s) \<longleftrightarrow> s \<in> cycle_symbol ` set cs) \<and>
    length (rc_triggerCh rc) \<le> 64 \<and>
    (\<forall>s r. sr_pendingTrigger (symbol_state rc s) = Some r \<longrightarrow>
      snd (end_background s rc) = Some r \<and> sr_running (symbol_state (fst (end_background s rc)) s) = sr_running (symbol_state rc s))"
proof -
  have "coord_inv (NewReconciliationCoordinator cfg, [])"
    by (simp add: coord_inv_def NewReconciliationCoordinator_def symbol_state_def new_symbol_state_def)
  with assms have "coord_inv (rc, cs)" unfolding coord_reachable_def
    by (induction rule: rtranclp_induct) (auto intro: coord_step_inv)
  then show ?thesis by (auto simp: coord_inv_def trigger_capacity_def end_background_def Let_def)
qed

theorem cycles_never_overlap_witness:
  "\<exists>rc cs. coord_reachable DefaultReconciliationCoordinatorConfig (rc, cs) \<and> cs = [Direct ''BTC'' ReconcileReasonManual] \<and>
    sr_running (symbol_state rc ''BTC'')"
proof -
  let ?rc0 = "NewReconciliationCoordinator DefaultReconciliationCoordinatorConfig"
  obtain rc starts where b: "begin_cycle ''BTC'' ReconcileReasonManual ?rc0 = (rc, starts)"
    by (cases "begin_cycle ''BTC'' ReconcileReasonManual ?rc0")
  have "starts" using begin_cycle_effect [OF b]
    by (simp add: NewReconciliationCoordinator_def symbol_state_def new_symbol_state_def)
  with coord_step.now_begin [OF b, of "[]"]
  have r: "coord_reachable DefaultReconciliationCoordinatorConfig (rc, [Direct ''BTC'' ReconcileReasonManual])"
    by (simp add: coord_reachable_def r_into_rtranclp)
  from cycles_never_overlap [OF r] have "sr_running (symbol_state rc ''BTC'')" by simp
  with r show ?thesis by blast
qed

text \<open>A trigger that arrives while a direct call runs is coalesced, and nothing runs it when the call ends:
  no cycle is in progress and the trigger stays pending until a later cycle of the symbol ends.\<close>

lemma direct_call_strands_trigger:
  assumes "begin_cycle s r rc = (rc1, True)" and "sr_pendingTrigger (symbol_state rc s) = None"
    and "begin_cycle s q rc1 = (rc2, starts)"
  shows "\<not> starts \<and> sr_pendingTrigger (symbol_state (end_direct s rc2) s) = Some q \<and>
    \<not> sr_running (symbol_state (end_direct s rc2) s)"
  using assms by (auto simp: begin_cycle_def end_direct_def Let_def split: if_splits)

end
