(* ===== verification/Reconciliation.thy ===== *)
theory Reconciliation
  imports Coordinator
begin

text \<open>
  Properties of the reconciliation coordinator: the contract that its cycle relies on (the locale
  \<open>fill_store\<close>), which the durable store of the model fulfils; the composition of a cycle with that
  store and with \<open>ListFills\<close> of the gateway; and the scheduling of cycles.
\<close>

section \<open>The contract of the fill processor\<close>

text \<open>A fill that was accepted is accounted for, and no later observation takes that back.\<close>

locale fill_store =
  fixes observe :: "('db, 'e) fill_observer"
    and recorded :: "FillObservation \<Rightarrow> 'db \<Rightarrow> bool"
  assumes observe_records: "observe i obs plan db = (db', Inr r) \<Longrightarrow> recorded obs db'"
    and recorded_kept: "recorded obs db \<Longrightarrow> recorded obs (fst (observe i obs' plan db))"
begin

lemma process_fills_kept:
  "recorded obs db \<Longrightarrow> recorded obs (fst (process_fills observe clock symbol i fills latest r db))"
proof (induction fills arbitrary: i latest r db)
  case (Cons f fs)
  obtain db1 res where o: "observe i (fillRecordToObservation f symbol (clock (i + 1))) (reconcile_plan f) db = (db1, res)"
    by (cases "observe i (fillRecordToObservation f symbol (clock (i + 1))) (reconcile_plan f) db")
  have "recorded obs db1" using recorded_kept [OF Cons.prems] o by (metis fst_conv)
  with o show ?case using Cons.IH by (cases res) simp_all
qed simp

lemma process_fills_recorded:
  "process_fills observe clock symbol i fills latest r db = (db', r', Inr latest') \<Longrightarrow> j < length fills \<Longrightarrow>
    recorded (fillRecordToObservation (fills ! j) symbol (clock (i + j + 1))) db'"
proof (induction fills arbitrary: i j latest r db)
  case (Cons f fs)
  let ?obs = "fillRecordToObservation f symbol (clock (i + 1))"
  from Cons.prems(1) obtain db1 applied where o: "observe i ?obs (reconcile_plan f) db = (db1, Inr applied)"
    by (auto split: prod.splits sum.splits)
  with Cons.prems(1) have
    rest: "process_fills observe clock symbol (i + 1) fs (later_fill latest f) (count_fill applied r) db1 = (db', r', Inr latest')"
    by simp
  show ?case
  proof (cases j)
    case 0
    have "recorded ?obs (fst (process_fills observe clock symbol (i + 1) fs (later_fill latest f) (count_fill applied r) db1))"
      using observe_records [OF o] by (rule process_fills_kept)
    with 0 rest show ?thesis by simp
  next
    case (Suc j')
    with Cons.IH [OF rest, of j'] Cons.prems(2) show ?thesis by simp
  qed
qed simp

end

text \<open>What the loop over the fills counts, and which time it ends with.\<close>

lemma process_fills_counts:
  "process_fills observe clock symbol i fills latest r db = (db', r', Inr latest') \<Longrightarrow>
    rr_FillsChecked r' = rr_FillsChecked r + length fills \<and>
    rr_FillsCompensated r' + rr_DuplicatesFound r' = rr_FillsCompensated r + rr_DuplicatesFound r + length fills \<and>
    rr_Err r' = rr_Err r \<and> rr_WatermarkAfter r' = rr_WatermarkAfter r \<and> rr_PagesQueried r' = rr_PagesQueried r"
proof (induction fills arbitrary: i latest r db)
  case (Cons f fs)
  from Cons.prems obtain applied db1 where
    "process_fills observe clock symbol (i + 1) fs (later_fill latest f) (count_fill applied r) db1 = (db', r', Inr latest')"
    by (simp split: prod.splits sum.splits)
  from Cons.IH [OF this] show ?case by (simp add: count_fill_def Let_def)
qed simp

lemma process_fills_before:
  "process_fills observe clock symbol i fills latest r db = (db', r', q) \<Longrightarrow>
    rr_WatermarkBefore r' = rr_WatermarkBefore r \<and> rr_WatermarkAfter r' = rr_WatermarkAfter r"
proof (induction fills arbitrary: i latest r db)
  case (Cons f fs)
  obtain db1 res where o: "observe i (fillRecordToObservation f symbol (clock (i + 1))) (reconcile_plan f) db = (db1, res)"
    by (cases "observe i (fillRecordToObservation f symbol (clock (i + 1))) (reconcile_plan f) db")
  with Cons.prems Cons.IH show ?case by (cases res) (auto simp: count_fill_def Let_def split: if_splits)
qed simp

lemma process_fills_latest:
  "process_fills observe clock symbol i fills latest r db = (db', r', Inr latest') \<Longrightarrow>
    latest' = foldl later_fill latest fills"
proof (induction fills arbitrary: i latest r db)
  case (Cons f fs)
  then show ?case by (simp split: prod.splits sum.splits)
qed simp

lemma foldl_later_fill:
  "fst (foldl later_fill latest fills) = foldl max (fst latest) (map fi_Timestamp fills)"
  by (induction fills arbitrary: latest) (auto simp: later_fill_def max_def)

lemma foldl_max_bounds:
  fixes t :: int
  shows "t \<le> foldl max t ts \<and> (\<forall>x \<in> set ts. x \<le> foldl max t ts) \<and> (foldl max t ts = t \<or> foldl max t ts \<in> set ts)"
proof (induction ts arbitrary: t)
  case (Cons x xs)
  from Cons [of "max t x"] show ?case by (auto simp: max_def split: if_splits)
qed simp

section \<open>The durable store fulfils the contract\<close>

record store_env =
  se_now :: "nat \<Rightarrow> time"
  se_closed :: "nat \<Rightarrow> bool"
  se_io :: "nat \<Rightarrow> string \<Rightarrow> bool"
  se_commit :: "nat \<Rightarrow> commit_outcome"

definition durable_observe ::
  "(string \<Rightarrow> string) \<Rightarrow> (decimal \<Rightarrow> string) \<Rightarrow> declib \<Rightarrow> store_env \<Rightarrow> (DurableDB, persist_error) fill_observer" where
  "durable_observe sha dstr L env i obs plan db =
     WithImmediateTx (se_closed env i) (se_io env i) (se_commit env i)
       (ObserveFill sha dstr L (se_io env i) obs plan (se_now env i)) db"

text \<open>
  A fill is accounted for: the order's watermark covers its cumulative quantity, or the ledger already
  holds a row with its key or its identity.
\<close>

definition accounted_for :: "(string \<Rightarrow> string) \<Rightarrow> (decimal \<Rightarrow> string) \<Rightarrow> FillObservation \<Rightarrow> DurableDB \<Rightarrow> bool" where
  "accounted_for sha dstr obs db \<longleftrightarrow>
     fo_CumulativeQuantity obs \<le> watermark db (fo_Symbol obs) (fo_ExchangeOrderID obs) \<or>
     (case CanonicalUniqueFillKey sha dstr obs of
        Inl _ \<Rightarrow> False
      | Inr k \<Rightarrow> \<exists>plan d. ledger_conflict db (ledger_row k obs plan d))"

lemma ObserveFill_accounts:
  assumes "ObserveFill sha dstr L io obs plan now db = Inr (db', r)"
  shows "accounted_for sha dstr obs db'"
proof (cases "fr_Duplicate r")
  case False
  with observe_recorded [OF assms] show ?thesis by (simp add: fill_recorded_def accounted_for_def)
next
  case True
  obtain k where k: "CanonicalUniqueFillKey sha dstr obs = Inr k"
    and v: "ValidateFillObservation sha dstr obs = None"
    using assms by (auto simp: ObserveFill_def split: option.splits sum.splits)
  from True assms have db': "db' = db" by (auto elim: ObserveFill_effect)
  let ?w = "watermark db (fo_Symbol obs) (fo_ExchangeOrderID obs)"
  from assms v k obtain d n where d: "CumulativeDelta ?w (fo_CumulativeQuantity obs) = Inr (d, n)"
    by (auto simp: ObserveFill_def Let_def split: sum.splits if_splits)
  show ?thesis
  proof (cases n)
    case False
    with d show ?thesis by (auto simp: accounted_for_def db' CumulativeDelta_old)
  next
    case new: True
    have "ledger_conflict db (ledger_row k obs plan d)"
    proof (rule ccontr)
      assume nc: "\<not> ledger_conflict db (ledger_row k obs plan d)"
      with assms True v k d new show False
        by (auto simp: ObserveFill_def Let_def no_result_def split: if_splits sum.splits)
    qed
    with k show ?thesis by (auto simp: accounted_for_def db')
  qed
qed

lemma ObserveFill_grows:
  assumes "ObserveFill sha dstr L io obs plan now db = Inr (db', r)"
  shows "watermark db s oid \<le> watermark db' s oid \<and> (\<exists>rows. db_fill_ledger db' = db_fill_ledger db @ rows) \<and>
    db_recon db' = db_recon db"
  using assms
proof (cases rule: ObserveFill_effect)
  case (recorded k d db3 gs)
  have t: "db_fill_ledger db3 = db_fill_ledger db @ [(k, ledger_row k obs plan d)] \<and>
    watermark db s oid \<le> watermark db3 s oid \<and> db_recon db3 = db_recon db"
    using recorded(10) by (rule applyGridStateDelta_effect) (use recorded(4) in \<open>auto simp: watermark_def\<close>)
  have "watermark db' s oid = watermark db3 s oid \<and> db_fill_ledger db' = db_fill_ledger db3 \<and> db_recon db' = db_recon db3"
  proof (cases "fo_Side obs = SideBuy \<and> cp_Eligibility plan = FillEligible")
    case True
    then obtain i ob where c: "createCounterIntent sha io k obs plan d now db3 = Inr (db', i, ob)"
      using recorded(12) by auto
    then show ?thesis
      by (auto simp: createCounterIntent_def Let_def watermark_def split: sum.splits if_splits)
  next
    case False
    with recorded(12) show ?thesis by (simp split: if_splits)
  qed
  with t show ?thesis by auto
qed simp

lemma accounted_for_grows:
  assumes "accounted_for sha dstr obs db"
    and "\<And>s oid. watermark db s oid \<le> watermark db' s oid" and "db_fill_ledger db' = db_fill_ledger db @ rows"
  shows "accounted_for sha dstr obs db'"
proof -
  have "ledger_conflict db row \<Longrightarrow> ledger_conflict db' row" for row
    using assms(3) by (auto simp: ledger_conflict_def map_add_def split: option.split)
  moreover have "q \<le> watermark db s oid \<Longrightarrow> q \<le> watermark db' s oid" for q s oid
    using order_trans [OF _ assms(2)] .
  ultimately show ?thesis using assms(1) by (simp add: accounted_for_def split: sum.splits) blast
qed

lemma durable_observe_cases:
  obtains (kept) "fst (durable_observe sha dstr L env i obs plan db) = db"
  | (applied) r where "ObserveFill sha dstr L (se_io env i) obs plan (se_now env i) db =
      Inr (fst (durable_observe sha dstr L env i obs plan db), r)"
proof (cases "ObserveFill sha dstr L (se_io env i) obs plan (se_now env i) db")
  case (Inl e)
  then show ?thesis by (intro kept) (simp add: durable_observe_def WithImmediateTx_def)
next
  case (Inr p)
  obtain d r where p: "p = (d, r)" by (cases p)
  have "fst (durable_observe sha dstr L env i obs plan db) = db \<or> fst (durable_observe sha dstr L env i obs plan db) = d"
    by (cases "se_commit env i") (simp_all add: durable_observe_def WithImmediateTx_def Inr p)
  with Inr p show ?thesis using kept applied [of r] by auto
qed

lemma durable_observe_Inr:
  "durable_observe sha dstr L env i obs plan db = (db', Inr r) \<Longrightarrow>
    ObserveFill sha dstr L (se_io env i) obs plan (se_now env i) db = Inr (db', r)"
  by (auto simp: durable_observe_def WithImmediateTx_def split: if_splits sum.splits commit_outcome.splits)

lemma accounted_for_kept:
  assumes "accounted_for sha dstr obs db"
  shows "accounted_for sha dstr obs (fst (durable_observe sha dstr L env i obs' plan db))"
proof (cases rule: durable_observe_cases [of sha dstr L env i obs' plan db])
  case kept
  with assms show ?thesis by simp
next
  case (applied r)
  note g = ObserveFill_grows [OF applied]
  from g obtain rows where
    "db_fill_ledger (fst (durable_observe sha dstr L env i obs' plan db)) = db_fill_ledger db @ rows" by blast
  with assms g [THEN conjunct1] show ?thesis by (rule accounted_for_grows)
qed

interpretation durable: fill_store "durable_observe sha dstr L env" "accounted_for sha dstr"
  for sha dstr L env
proof unfold_locales
  show "accounted_for sha dstr obs db'"
    if "durable_observe sha dstr L env i obs plan db = (db', Inr r)" for i obs plan db db' r
    using durable_observe_Inr [OF that] by (rule ObserveFill_accounts)
  show "accounted_for sha dstr obs (fst (durable_observe sha dstr L env i obs' plan db))"
    if "accounted_for sha dstr obs db" for obs db i obs' plan
    using that by (rule accounted_for_kept)
qed

section \<open>A cycle on the durable store\<close>

definition commit_watermark ::
  "store_env \<Rightarrow> ReconciliationWatermark \<Rightarrow> DurableDB \<Rightarrow> DurableDB \<times> persist_error option" where
  "commit_watermark env wm db =
     (case CommitReconciliationWatermark (se_closed env 0) (se_io env 0) (se_commit env 0) wm db of
        (db', Inl e) \<Rightarrow> (db', Some e)
      | (db', Inr _) \<Rightarrow> (db', None))"

text \<open>\<open>ld\<close>, \<open>ob\<close> and \<open>cm\<close> say what the database does during the load, the observations and the commit.\<close>

definition durable_cycle ::
  "(string \<Rightarrow> string) \<Rightarrow> (decimal \<Rightarrow> string) \<Rightarrow> declib \<Rightarrow> store_env \<Rightarrow> store_env \<Rightarrow> store_env \<Rightarrow>
    ReconciliationCoordinatorConfig \<Rightarrow> nat \<Rightarrow> (nat \<Rightarrow> FillCursor \<Rightarrow> gateway_failure + FillPage) \<Rightarrow>
    (nat \<Rightarrow> time) \<Rightarrow> string \<Rightarrow> ReconcileReason \<Rightarrow> DurableDB \<Rightarrow> DurableDB \<times> persist_error ReconcileResult" where
  "durable_cycle sha dstr L ld ob cm cfg budget listFills clock symbol reason db =
     executeCycle cfg (\<lambda>sy st d. LoadReconciliationWatermark (se_closed ld 0) (se_io ld 0) sy st d)
       (commit_watermark cm) budget listFills (durable_observe sha dstr L ob) clock symbol reason db"

lemma durable_observe_recon: "db_recon (fst (durable_observe sha dstr L env i obs plan db)) = db_recon db"
  by (cases rule: durable_observe_cases [of sha dstr L env i obs plan db])
    (simp_all add: ObserveFill_grows)

lemma process_fills_recon:
  "db_recon (fst (process_fills (durable_observe sha dstr L env) clock symbol i fills latest r db)) = db_recon db"
proof (induction fills arbitrary: i latest r db)
  case (Cons f fs)
  obtain db1 res where o: "durable_observe sha dstr L env i (fillRecordToObservation f symbol (clock (i + 1)))
      (reconcile_plan f) db = (db1, res)"
    by (cases "durable_observe sha dstr L env i (fillRecordToObservation f symbol (clock (i + 1)))
      (reconcile_plan f) db")
  have "db_recon db1 = db_recon db" using durable_observe_recon o by (metis fst_conv)
  with o Cons.IH show ?case by (cases res) simp_all
qed simp

lemma commit_watermark_cases:
  assumes "commit_watermark cm wm db = (db', err)"
  obtains (ok) "err = None" "db' = db\<lparr>db_recon := AList.update (rw_Symbol wm, rw_Stream wm) wm (db_recon db)\<rparr>"
  | (failed) e where "err = Some e" "db' = db"
  | (uncertain) e where "err = Some e" "IsCriticalCommitUncertain e"
      "db' = db\<lparr>db_recon := AList.update (rw_Symbol wm, rw_Stream wm) wm (db_recon db)\<rparr>"
  using assms
  by (auto simp: commit_watermark_def CommitReconciliationWatermark_def commit_tx_def IsCriticalCommitUncertain_def
      split: if_splits commit_outcome.splits)

lemma ledger_conflict_recon [simp]: "ledger_conflict (db\<lparr>db_recon := w\<rparr>) row = ledger_conflict db row"
  by (simp add: ledger_conflict_def)

lemma accounted_for_recon [simp]: "accounted_for sha dstr obs (db\<lparr>db_recon := w\<rparr>) = accounted_for sha dstr obs db"
  by (simp add: accounted_for_def watermark_def split: sum.split)

text \<open>The ways through a cycle.\<close>

lemma executeCycle_cases:
  assumes "executeCycle cfg load commit budget listFills observe clock symbol reason db = (db', res)"
  obtains (failed) "db' = db" "rr_Err res \<noteq> None" "rr_WatermarkAfter res = None"
  | (apply_failed) e r1 fills r2 where
      "process_fills observe clock symbol 0 fills (zero_time, []) r1 db = (db', r2, Inl e)"
      "rr_Err res = Some (ApplyFillFailed e)" "rr_WatermarkAfter r1 = None" "rr_WatermarkAfter res = rr_WatermarkAfter r2"
  | (no_fills) wm pages fills r1 r2 latestTS latestID where
      "load symbol ''rest'' db = Inr wm" "paginateFills cfg budget listFills (windowStart_of cfg wm) = (pages, Inr fills)"
      "r1 = (new_result symbol reason (clock 0))\<lparr>rr_WatermarkBefore := wm, rr_PagesQueried := pages\<rparr>"
      "process_fills observe clock symbol 0 fills (zero_time, []) r1 db = (db', r2, Inr (latestTS, latestID))"
      "latestTS \<le> zero_time" "res = r2\<lparr>rr_CompletedAt := clock (rr_FillsChecked r2 + 1)\<rparr>"
  | (committed) wm pages fills r1 db1 r2 latestTS latestID wm' err where
      "load symbol ''rest'' db = Inr wm" "paginateFills cfg budget listFills (windowStart_of cfg wm) = (pages, Inr fills)"
      "r1 = (new_result symbol reason (clock 0))\<lparr>rr_WatermarkBefore := wm, rr_PagesQueried := pages\<rparr>"
      "process_fills observe clock symbol 0 fills (zero_time, []) r1 db = (db1, r2, Inr (latestTS, latestID))"
      "zero_time < latestTS"
      "wm' = \<lparr>rw_Symbol = symbol, rw_Stream = ''rest'', rw_ExchangeAt = latestTS, rw_StableID = latestID,
         rw_CompletedAt = clock (rr_FillsChecked r2 + 1)\<rparr>"
      "commit wm' db1 = (db', err)"
      "res = (case err of
           Some e \<Rightarrow> r2\<lparr>rr_Err := Some (CommitWatermarkFailed e), rr_CompletedAt := clock (rr_FillsChecked r2 + 2)\<rparr>
         | None \<Rightarrow> r2\<lparr>rr_WatermarkAfter := Some wm', rr_CompletedAt := clock (rr_FillsChecked r2 + 2)\<rparr>)"
proof (cases "load symbol ''rest'' db")
  case (Inl e)
  with assms show thesis by (intro failed) (auto simp: executeCycle_def Let_def new_result_def)
next
  case load: (Inr wm)
  obtain pages p where pg: "paginateFills cfg budget listFills (windowStart_of cfg wm) = (pages, p)"
    by (cases "paginateFills cfg budget listFills (windowStart_of cfg wm)")
  show thesis
  proof (cases p)
    case (Inl e)
    with assms load pg show thesis by (intro failed) (auto simp: executeCycle_def Let_def new_result_def)
  next
    case (Inr fills)
    let ?r1 = "(new_result symbol reason (clock 0))\<lparr>rr_WatermarkBefore := wm, rr_PagesQueried := pages\<rparr>"
    obtain db1 r2 q where run: "process_fills observe clock symbol 0 fills (zero_time, []) ?r1 db = (db1, r2, q)"
      by (cases "process_fills observe clock symbol 0 fills (zero_time, []) ?r1 db")
    show thesis
    proof (cases q)
      case (Inl e)
      with assms load pg Inr run have
        "db1 = db'" "res = r2\<lparr>rr_Err := Some (ApplyFillFailed e), rr_CompletedAt := clock (rr_FillsChecked r2 + 1)\<rparr>"
        by (simp_all add: executeCycle_def Let_def)
      with run Inl show thesis by (intro apply_failed [of fills ?r1 r2 e]) (simp_all add: new_result_def)
    next
      case q: (Inr l)
      obtain ts i where l: "l = (ts, i)" by (cases l)
      show thesis
      proof (cases "zero_time < ts")
        case False
        with assms load pg Inr run q l show thesis
          by (intro no_fills [of wm pages fills ?r1 r2 ts i]) (simp_all add: executeCycle_def Let_def)
      next
        case True
        let ?wm = "\<lparr>rw_Symbol = symbol, rw_Stream = ''rest'', rw_ExchangeAt = ts, rw_StableID = i,
           rw_CompletedAt = clock (rr_FillsChecked r2 + 1)\<rparr>"
        obtain d err where c: "commit ?wm db1 = (d, err)" by (cases "commit ?wm db1")
        with assms load pg Inr run q l True show thesis
          by (intro committed [of wm pages fills ?r1 db1 r2 ts i ?wm err])
            (auto simp: executeCycle_def Let_def split: option.splits)
      qed
    qed
  qed
qed

section \<open>Properties of a cycle\<close>


text \<open>A concrete cycle: one page with one fill, on an empty store.\<close>

definition fill_stub :: "decimal \<Rightarrow> FillRecord" where
  "fill_stub q = \<lparr>fi_Symbol = ''BTC'', fi_ExchangeOrderID = ''17'', fi_ExchangeFillID = ''3'', fi_Side = SideBuy,
     fi_Price = 100, fi_Quantity = q, fi_CumulativeQuantity = q, fi_Fee = 0, fi_Timestamp = 50\<rparr>"

definition good_env :: store_env where
  "good_env = \<lparr>se_now = (\<lambda>_. 60), se_closed = (\<lambda>_. False), se_io = (\<lambda>_ _. True), se_commit = (\<lambda>_. CommitOk)\<rparr>"

definition one_page :: "FillRecord \<Rightarrow> nat \<Rightarrow> FillCursor \<Rightarrow> gateway_failure + FillPage" where
  "one_page f n c = Inr \<lparr>fp_Fills = [f], fp_HasMore = False, fp_Cursor = []\<rparr>"

definition demo_cycle :: "DurableDB \<times> persist_error ReconcileResult" where
  "demo_cycle = durable_cycle id (\<lambda>_. ''2'') demo_lib good_env good_env good_env
     DefaultReconciliationCoordinatorConfig 1 (one_page (fill_stub 2)) int ''BTC'' ReconcileReasonManual empty_db"

lemma demo_cycle_ok: "rr_Err (snd demo_cycle) = None"
proof -
  have "case rr_Err (snd demo_cycle) of None \<Rightarrow> True | Some _ \<Rightarrow> False" by code_simp
  then show ?thesis by (simp split: option.splits)
qed


text \<open>C36: A cycle that fails commits no watermark: it reports none and the watermark table is as before,
  unless the commit itself had an uncertain outcome, and then the error says so.\<close>

theorem cycle_error_keeps_watermark:
  assumes "durable_cycle sha dstr L ld ob cm cfg budget listFills clock symbol reason db = (db', res)"
    and "rr_Err res = Some e"
  shows "rr_WatermarkAfter res = None \<and>
    (db_recon db' = db_recon db \<or> (\<exists>pe. e = CommitWatermarkFailed pe \<and> IsCriticalCommitUncertain pe))"
  using assms(1) unfolding durable_cycle_def
proof (cases rule: executeCycle_cases)
  case failed
  then show ?thesis by simp
next
  case (apply_failed e' r1 fills r2)
  with process_fills_before [OF apply_failed(1)]
    process_fills_recon [of sha dstr L ob clock symbol 0 fills "(zero_time, [])" r1 db]
  show ?thesis by simp
next
  case (no_fills wm pages fills r1 r2 latestTS latestID)
  with process_fills_counts [OF no_fills(4)] assms(2) show ?thesis by (simp add: new_result_def)
next
  case (committed wm pages fills r1 db1 r2 latestTS latestID wm' err)
  note c = process_fills_counts [OF committed(4)]
  have k: "db_recon db1 = db_recon db"
    using process_fills_recon [of sha dstr L ob clock symbol 0 fills "(zero_time, [])" r1 db] committed(4) by simp
  from committed(7) show ?thesis
  proof (cases rule: commit_watermark_cases)
    case ok
    with c committed(3,8) assms(2) show ?thesis by (simp add: new_result_def)
  next
    case (failed pe)
    with c committed(3,8) k show ?thesis by (simp add: new_result_def)
  next
    case (uncertain pe)
    with c committed(3,8) assms(2) show ?thesis by (auto simp: new_result_def)
  qed
qed

definition broken_env :: store_env where
  "broken_env = good_env\<lparr>se_io := (\<lambda>_ _. False)\<rparr>"

theorem cycle_error_keeps_watermark_witness:
  "\<exists>db' res. durable_cycle id (\<lambda>_. ''2'') demo_lib good_env broken_env good_env
      DefaultReconciliationCoordinatorConfig 1 (one_page (fill_stub 2)) int ''BTC'' ReconcileReasonManual empty_db = (db', res) \<and>
    rr_WatermarkAfter res = None \<and> db_recon db' = []"
proof -
  let ?run = "durable_cycle id (\<lambda>_. ''2'') demo_lib good_env broken_env good_env
      DefaultReconciliationCoordinatorConfig 1 (one_page (fill_stub 2)) int ''BTC'' ReconcileReasonManual empty_db"
  have "case rr_Err (snd ?run) of Some (ApplyFillFailed _) \<Rightarrow> True | _ \<Rightarrow> False" by code_simp
  then obtain e where "rr_Err (snd ?run) = Some (ApplyFillFailed e)"
    by (simp split: option.splits reconcile_failure.splits)
  from cycle_error_keeps_watermark [OF prod.collapse [symmetric] this]
  have "rr_WatermarkAfter (snd ?run) = None \<and> db_recon (fst ?run) = []" by (simp add: empty_db_def)
  then show ?thesis by (metis prod.collapse)
qed

section \<open>The cycle on the gateway\<close>

lemma paginate_loop_all:
  assumes "\<And>n c page. listFills n c = Inr page \<Longrightarrow> list_all P (fp_Fills page)"
  shows "paginate_loop n listFills cursor pages acc = (pages', Inr fills) \<Longrightarrow> list_all P acc \<Longrightarrow> list_all P fills"
proof (induction n arbitrary: cursor pages acc)
  case (Suc n)
  then show ?case using assms by (auto split: sum.splits if_splits)
qed simp

lemma zero_cumulative_refused:
  "fi_CumulativeQuantity f = 0 \<Longrightarrow>
    \<exists>e. durable_observe sha dstr L env i (fillRecordToObservation f symbol t) plan db = (db, Inl e)"
  by (simp add: durable_observe_def WithImmediateTx_def ObserveFill_def ValidateFillObservation_def
      CanonicalUniqueFillKey_def UniqueFillKey_def fillRecordToObservation_def)

text \<open>Fills that come through the gateway never reconcile. \<open>ListFills\<close> leaves the cumulative quantity of
  every fill at zero, the coordinator hands that on, and the durable store refuses it as an invalid identity:
  with this gateway every cycle whose pages hold a fill ends in an error at the first one, records nothing and
  commits no watermark.\<close>

theorem gateway_fills_never_reconcile:
  assumes "LoadReconciliationWatermark (se_closed ld 0) (se_io ld 0) symbol ''rest'' db = Inr wm"
    and "paginateFills cfg budget (\<lambda>n. ListFills dparse (send n) symbol) (windowStart_of cfg wm) = (pages, Inr fills)"
    and "fills \<noteq> []"
    and "durable_cycle sha dstr L ld ob cm cfg budget (\<lambda>n. ListFills dparse (send n) symbol) clock symbol reason db = (db', res)"
  shows "(\<exists>e. rr_Err res = Some (ApplyFillFailed e)) \<and> db' = db \<and> rr_FillsChecked res = 1 \<and>
    rr_FillsCompensated res = 0 \<and> rr_WatermarkAfter res = None"
proof -
  obtain f fs where f: "fills = f # fs" using assms(3) by (cases fills) auto
  have zero: "list_all (\<lambda>f. fi_CumulativeQuantity f = 0) (fp_Fills page)"
    if "ListFills dparse (send n) symbol c = Inr page" for n c page
    using ListFills_no_cumulative [OF that] by (simp add: list_all_iff)
  have nil: "list_all (\<lambda>f. fi_CumulativeQuantity f = 0) ([] :: FillRecord list)" by simp
  have "list_all (\<lambda>f. fi_CumulativeQuantity f = 0) fills"
    using zero assms(2) [unfolded paginateFills_def] nil by (rule paginate_loop_all)
  then have "fi_CumulativeQuantity f = 0" by (simp add: f)
  from zero_cumulative_refused [OF this] obtain e where
    "durable_observe sha dstr L ob 0 (fillRecordToObservation f symbol (clock 1)) (reconcile_plan f) db = (db, Inl e)" by blast
  with assms(1,2,4) show ?thesis
    by (auto simp: durable_cycle_def executeCycle_def Let_def f new_result_def)
qed

definition fill_row :: json where
  "fill_row = JObj [(''ordId'', JStr ''17''), (''tradeId'', JStr ''3''), (''side'', JStr ''buy''), (''ts'', JStr ''5'')]"

theorem gateway_fills_never_reconcile_witness:
  "\<exists>e. rr_Err (snd (durable_cycle id (\<lambda>_. ''2'') demo_lib good_env good_env good_env
      DefaultReconciliationCoordinatorConfig 1 (\<lambda>n. ListFills (\<lambda>_. Some 2) (\<lambda>_. Inr (list_answer [fill_row])) ''BTC'')
      int ''BTC'' ReconcileReasonManual empty_db)) = Some (ApplyFillFailed e)"
proof -
  let ?list = "\<lambda>n::nat. ListFills (\<lambda>_. Some 2) (\<lambda>_. Inr (list_answer [fill_row])) ''BTC''"
  let ?run = "durable_cycle id (\<lambda>_. ''2'') demo_lib good_env good_env good_env
      DefaultReconciliationCoordinatorConfig 1 ?list int ''BTC'' ReconcileReasonManual empty_db"
  have load: "LoadReconciliationWatermark (se_closed good_env 0) (se_io good_env 0) ''BTC'' ''rest'' empty_db = Inr None"
    by (simp add: LoadReconciliationWatermark_def good_env_def empty_db_def)
  have pages: "paginateFills DefaultReconciliationCoordinatorConfig 1 ?list
      (windowStart_of DefaultReconciliationCoordinatorConfig None) = (1, Inr [fill_record (\<lambda>_. Some 2) fill_row])"
    by (simp add: paginateFills_def ListFills_def fetch_list_answer fill_keys_def strings_ok_def fill_row_def
        str_field_def Let_def DefaultReconciliationCoordinatorConfig_def)
  show ?thesis
    using gateway_fills_never_reconcile [OF load pages _ prod.collapse [symmetric]] by blast
qed

text \<open>The counter order of a reconciled BUY fill is planned at the price that it was bought for.\<close>

lemma reconcile_plan_at_cost: "cp_Price (reconcile_plan f) = fi_Price f"
  by (simp add: reconcile_plan_def Let_def)

section \<open>All pages\<close>

definition fills_cursor :: "time \<Rightarrow> nat \<Rightarrow> json list \<Rightarrow> nat \<Rightarrow> FillCursor" where
  "fills_cursor start psz rows k =
     \<lparr>fc_After = cursor_at fill_page_id rows k, fc_Limit = int psz, fc_StartTime = start\<rparr>"

definition serves_fills :: "string \<Rightarrow> time \<Rightarrow> nat \<Rightarrow> json list \<Rightarrow> (nat \<Rightarrow> http_request \<Rightarrow> http_result) \<Rightarrow> bool" where
  "serves_fills symbol start psz rows send \<longleftrightarrow> (\<forall>n k. k \<le> length rows \<longrightarrow>
     send n (get_request (fills_path symbol (fills_cursor start psz rows k))) =
       Inr (list_answer (take psz (drop k rows))))"

lemma paginate_loop_pages:
  "snd (paginate_loop n lf c p acc) = snd (paginate_loop n lf c q acc)"
  by (induction n arbitrary: c p q acc) (simp_all split: sum.split)

lemma fills_step:
  assumes "serves_fills symbol start psz rows send" and "rows_ok fill_keys fill_page_id rows"
    and "k \<le> length rows" and "0 < psz"
  shows "snd (paginate_loop (Suc n) (\<lambda>n. ListFills dparse (send n) symbol) (fills_cursor start psz rows k) 0 acc) =
    (if length (take psz (drop k rows)) < psz
     then Inr (acc @ map (fill_record dparse) (take psz (drop k rows)))
     else snd (paginate_loop n (\<lambda>n. ListFills dparse (send n) symbol) (fills_cursor start psz rows (k + psz)) 0
            (acc @ map (fill_record dparse) (take psz (drop k rows)))))"
proof -
  let ?pg = "take psz (drop k rows)"
  let ?c = "fills_cursor start psz rows k"
  have "send n (get_request (fills_path symbol ?c)) = Inr (list_answer ?pg)"
    using assms(1,3) by (simp add: serves_fills_def)
  then have fetch: "fetch_rows fill_keys (send n) (fills_path symbol ?c) = Inr (''0'', [], ?pg)"
    by (rule fetch_list_answer) (rule rows_ok_sub [OF assms(2)])
  show ?thesis
  proof (cases "length ?pg < psz")
    case True
    have "ListFills dparse (send n) symbol ?c =
        Inr \<lparr>fp_Fills = map (fill_record dparse) ?pg, fp_HasMore = False, fp_Cursor = []\<rparr>"
      using True unfolding ListFills_def fetch by (simp add: fills_cursor_def del: length_take)
    with True show ?thesis by (simp del: length_take)
  next
    case False
    then have k: "k + psz \<le> length rows" using assms(3) by simp
    have cur: "fill_page_id (last ?pg) = cursor_at fill_page_id rows (k + psz)"
      by (rule cursor_next [OF k assms(4)])
    have ne: "cursor_at fill_page_id rows (k + psz) \<noteq> []" using cursor_nonempty [OF assms(2)] k assms(4) by simp
    have "?pg \<noteq> []" using False assms(4) by auto
    then have "ListFills dparse (send n) symbol ?c =
        Inr \<lparr>fp_Fills = map (fill_record dparse) ?pg, fp_HasMore = True, fp_Cursor = cursor_at fill_page_id rows (k + psz)\<rparr>"
      using False assms(4) cur unfolding ListFills_def fetch by (simp add: fills_cursor_def del: length_take)
    moreover have "?c\<lparr>fc_After := cursor_at fill_page_id rows (k + psz)\<rparr> = fills_cursor start psz rows (k + psz)"
      by (simp add: fills_cursor_def)
    ultimately show ?thesis
      using False ne paginate_loop_pages [of n _ _ 1 _ 0] by (simp del: length_take)
  qed
qed

text \<open>C27: A cycle sees every fill. Against a server that returns, after the id of a fill, the next page of a
  fixed list of fills since the window's start, and with time for one request per page and one more, the
  pages put together are that list, in its order, without loss or repetition.\<close>

theorem paginateFills_complete:
  assumes "serves_fills symbol start psz rows send" and "rows_ok fill_keys fill_page_id rows"
    and "cc_PageSize cfg = int psz" and "0 < psz" and "length rows div psz < budget"
  shows "snd (paginateFills cfg budget (\<lambda>n. ListFills dparse (send n) symbol) start) =
    Inr (map (fill_record dparse) rows)"
proof -
  let ?items = "map (fill_record dparse) rows"
  let ?loop = "\<lambda>n k acc. snd (paginate_loop n (\<lambda>n. ListFills dparse (send n) symbol) (fills_cursor start psz rows k) 0 acc)"
  have "?loop budget 0 [] = Inr ([] @ drop 0 ?items)"
  proof (rule paged_loop_complete [where psz = psz and loop = ?loop and items = ?items])
    fix n k acc
    assume "k \<le> length ?items"
    then show "?loop (Suc n) k acc = (if length (take psz (drop k ?items)) < psz
        then Inr (acc @ take psz (drop k ?items)) else ?loop n (k + psz) (acc @ take psz (drop k ?items)))"
      using fills_step [OF assms(1,2) _ assms(4)] by (simp only: drop_map take_map length_map)
  qed (use assms(4,5) in simp_all)
  then show ?thesis by (simp add: paginateFills_def fills_cursor_def cursor_at_def assms(3))
qed

theorem paginateFills_complete_witness:
  "snd (paginateFills DefaultReconciliationCoordinatorConfig 1
      (\<lambda>n. ListFills (\<lambda>_. Some 2) (\<lambda>rq. if rq = get_request (fills_path ''BTC'' (fills_cursor 5 100 [] 0))
         then Inr (list_answer [fill_row]) else Inr (list_answer [])) ''BTC'') 5) =
    Inr [fill_record (\<lambda>_. Some 2) fill_row]"
proof -
  have k: "k = 0 \<or> k = 1" if "k \<le> 1" for k :: nat using that by auto
  have rows: "rows_ok fill_keys fill_page_id [fill_row]"
    by (simp add: rows_ok_def fill_keys_def strings_ok_def fill_row_def str_field_def fld_def fill_page_id_def)
  have "serves_fills ''BTC'' 5 100 [fill_row] (\<lambda>_ rq. if rq = get_request (fills_path ''BTC'' (fills_cursor 5 100 [] 0))
      then Inr (list_answer [fill_row]) else Inr (list_answer []))"
    by (auto simp: serves_fills_def fills_cursor_def get_request_def fills_path_def cursor_at_def fill_row_def
        fld_def str_field_def fill_page_id_def dest!: k)
  from paginateFills_complete [OF this rows, of DefaultReconciliationCoordinatorConfig 1 "\<lambda>_. Some 2"]
  show ?thesis by (simp add: DefaultReconciliationCoordinatorConfig_def)
qed

end
