(* ===== verification/Rebalancer.thy ===== *)
theory Rebalancer
  imports ExchangeGateway SafeStop
begin

text \<open>
  The per-symbol rebalancer (\<open>src/internal/execution/rebalancer.go\<close>): in each cycle it cancels the
  bot's orders that deviate by more than two percent from the ticker and places replacements. The
  trading gate is that of \<open>SafeStop\<close>, through the adapter of \<open>src/cmd/main.go\<close>; the answers of the gateway, the
  ownership store and the clock are arguments (\<open>order_answers\<close> for one order, each call's answer
  once). What the rebalancer does to the outside is the trace of its world. Error texts are left
  out of the details of safe stops.
\<close>

section \<open>The world\<close>

datatype rb_effect =
    EffFill FillObservation CounterOrderPlan
  | EffCancel OrderRef
  | EffPlace NormalizedOrderRequest
  | EffPersist RebalanceOutcomeRecord

record rb_world =
  rbw_gate :: TradingGate
  rbw_trace :: "rb_effect list"

definition emit :: "rb_effect \<Rightarrow> rb_world \<Rightarrow> rb_world" where
  "emit e w = w\<lparr>rbw_trace := rbw_trace w @ [e]\<rparr>"

text \<open>Interface fields of \<open>RebalancerDeps\<close> that may be nil.\<close>

record RebalancerDeps =
  rd_HasFillObserver :: bool
  rd_HasOutcomeStore :: bool

record RebalancerConfig =
  rbc_Interval :: duration
  rbc_MaxJitter :: duration
  rbc_TickerMaxAge :: duration

definition StaleThreshold :: decimal where "StaleThreshold = 2 / 100"
definition MaxTickerAge :: duration where "MaxTickerAge = 5 * 1000000000"
definition MaxScheduleJitter :: duration where "MaxScheduleJitter = 5 * 1000000000"

definition DefaultRebalancerConfig :: RebalancerConfig where
  "DefaultRebalancerConfig =
     \<lparr>rbc_Interval = 30 * 1000000000, rbc_MaxJitter = MaxScheduleJitter, rbc_TickerMaxAge = MaxTickerAge\<rparr>"

record RebalancerState =
  rbs_symbol :: string
  rbs_config :: RebalancerConfig
  rbs_running :: bool
  rbs_cycleNum :: nat

definition NewRebalancer :: "string \<Rightarrow> RebalancerConfig \<Rightarrow> RebalancerState" where
  "NewRebalancer symbol c = \<lparr>rbs_symbol = symbol,
     rbs_config = \<lparr>rbc_Interval = (if rbc_Interval c \<le> 0 then 30 * 1000000000 else rbc_Interval c),
       rbc_MaxJitter = (if rbc_MaxJitter c \<le> 0 then MaxScheduleJitter else rbc_MaxJitter c),
       rbc_TickerMaxAge = (if rbc_TickerMaxAge c \<le> 0 then MaxTickerAge else rbc_TickerMaxAge c)\<rparr>,
     rbs_running = False, rbs_cycleNum = 0\<rparr>"

definition Rebalancer_Start :: "RebalancerState \<Rightarrow> RebalancerState" where
  "Rebalancer_Start r = (if rbs_running r then r else r\<lparr>rbs_running := True\<rparr>)"

definition Rebalancer_Stop :: "RebalancerState \<Rightarrow> RebalancerState" where
  "Rebalancer_Stop r = (if \<not> rbs_running r then r else r\<lparr>rbs_running := False\<rparr>)"

section \<open>One order\<close>

record order_answers =
  an_owned :: "bool option"
  an_preQuery :: "ExchangeOrderInfo option"
  an_cancelOk :: bool
  an_postQuery :: "ExchangeOrderInfo option"
  an_place :: "OrderPlaceResult \<times> bool"
  an_clock :: "nat \<Rightarrow> time"

definition order_ref :: "string \<Rightarrow> ExchangeOrderInfo \<Rightarrow> OrderRef" where
  "order_ref symbol ord = \<lparr>rf_Symbol = symbol, rf_ExchangeOrderID = ei_ExchangeOrderID ord,
     rf_ClientOrderID = ei_ClientOrderID ord\<rparr>"

definition persistOutcome :: "RebalancerDeps \<Rightarrow> RebalanceOutcomeRecord \<Rightarrow> rb_world \<Rightarrow> rb_world" where
  "persistOutcome deps out w = (if rd_HasOutcomeStore deps then emit (EffPersist out) w else w)"

definition safe_stop_reason :: string where
  "safe_stop_reason = ''rebalance-terminal-failure''"

definition enter_safe_stop :: "order_answers \<Rightarrow> string \<Rightarrow> string \<Rightarrow> rb_world \<Rightarrow> rb_world" where
  "enter_safe_stop ans symbol details w =
     w\<lparr>rbw_gate := EnterSymbolSafeStop (an_clock ans 9) symbol safe_stop_reason details (rbw_gate w)\<rparr>"

definition missed_observation :: "string \<Rightarrow> ExchangeOrderInfo \<Rightarrow> time \<Rightarrow> time \<Rightarrow> FillObservation" where
  "missed_observation symbol info t observed = \<lparr>fo_Symbol = symbol, fo_ClientOrderID = ei_ClientOrderID info,
     fo_ExchangeOrderID = ei_ExchangeOrderID info,
     fo_ExchangeFillID = ''rebalance-discover-'' @ ei_ExchangeOrderID info @ ''-'' @ fmt_d (unix_milli t),
     fo_Side = ei_Side info, fo_CumulativeQuantity = ei_CumulativeFillQty info, fo_FillPrice = ei_AvgFillPrice info,
     fo_Fee = 0, fo_Source = FillSourceReconciliation, fo_ExchangeTimestamp = ei_UpdateTime info,
     fo_ObservedAt = observed, fo_StrategyID = [], fo_GridLevel = 0\<rparr>"

definition missed_plan :: "ExchangeOrderInfo \<Rightarrow> CounterOrderPlan" where
  "missed_plan info =
     (if ei_Side info = SideSell
      then \<lparr>cp_Eligibility = FillIneligible, cp_Price = ei_AvgFillPrice info, cp_Purpose = ''counter-sell'',
            cp_IneligibleReason = ''sell-fill-no-counter-from-rebalancer''\<rparr>
      else \<lparr>cp_Eligibility = FillEligible, cp_Price = ei_AvgFillPrice info, cp_Purpose = ''counter-sell'',
            cp_IneligibleReason = []\<rparr>)"

text \<open>A call on a nil \<open>FillObserver\<close> panics.\<close>

definition processMissedFill ::
  "RebalancerDeps \<Rightarrow> string \<Rightarrow> time \<Rightarrow> time \<Rightarrow> ExchangeOrderInfo \<Rightarrow> rb_world \<Rightarrow> rb_world outcome" where
  "processMissedFill deps symbol t observed info w =
     (if \<not> (0 < ei_CumulativeFillQty info) then Returned w
      else if \<not> rd_HasFillObserver deps then Panicked
      else Returned (emit (EffFill (missed_observation symbol info t observed) (missed_plan info)) w))"

definition replacement_id :: "ExchangeOrderInfo \<Rightarrow> time \<Rightarrow> string" where
  "replacement_id ord t =
     take 32 (''tb1rb'' @ take 8 (ei_ExchangeOrderID ord) @ fmt_d (unix_milli t mod 100000))"

definition replacement_quantity :: "ExchangeOrderInfo \<Rightarrow> decimal" where
  "replacement_quantity ord =
     (if 0 < ei_CumulativeFillQty ord then ei_Quantity ord - ei_CumulativeFillQty ord else ei_Quantity ord)"

definition replacement_candidate :: "string \<Rightarrow> ExchangeOrderInfo \<Rightarrow> decimal \<Rightarrow> time \<Rightarrow> NormalizedOrderRequest" where
  "replacement_candidate symbol ord referencePrice t = \<lparr>no_Symbol = symbol, no_Side = ei_Side ord,
     no_OrderType = OrderTypePostOnly, no_Price = referencePrice, no_Quantity = replacement_quantity ord,
     no_ClOrdID = replacement_id ord t, no_Purpose = ''replacement''\<rparr>"

definition failed_safe :: "FailureClass \<Rightarrow> RebalanceOutcomeRecord \<Rightarrow> RebalanceOutcomeRecord" where
  "failed_safe c out = out\<lparr>ro_TerminalOutcome := RebalanceFailedSafe, ro_ErrorClass := c\<rparr>"

definition createReplacement ::
  "declib \<Rightarrow> string \<Rightarrow> order_answers \<Rightarrow> ExchangeOrderInfo \<Rightarrow> decimal \<Rightarrow> InstrumentRules \<Rightarrow>
    RebalanceOutcomeRecord \<Rightarrow> rb_world \<Rightarrow> rb_world \<times> RebalanceOutcomeRecord" where
  "createReplacement L symbol ans oldOrder referencePrice rules out w =
     (if \<not> (0 < replacement_quantity oldOrder) then (w, out)
      else
        let norm = NormalizeOrder L (replacement_candidate symbol oldOrder referencePrice (an_clock ans 5))
                     rules (an_clock ans 6)
        in case nr_Normalized norm of
          None \<Rightarrow> (enter_safe_stop ans symbol ''replacement normalization failed'' w,
                   failed_safe FailureDefinitiveReject out)
        | Some req \<Rightarrow>
            if \<not> gd_Allowed (Authorize (rbw_gate w) symbol RiskIncreasing)
            then (w, failed_safe FailureDefinitiveReject out)
            else
              let w1 = emit (EffPlace req) w in
              (case an_place ans of
                 (res, True) \<Rightarrow> (enter_safe_stop ans symbol ''replacement place error'' w1,
                                 failed_safe FailureUncertainTransport out)
               | (res, False) \<Rightarrow>
                   if pr_Err res \<noteq> None
                   then (enter_safe_stop ans symbol ''replacement rejected'' w1,
                         failed_safe FailureDefinitiveReject out)
                   else (w1, out\<lparr>ro_TerminalOutcome := RebalanceReplaced,
                                 ro_ReplacementClientOrderID := replacement_id oldOrder (an_clock ans 5)\<rparr>)))"

text \<open>The uncertain cancel: \<open>an_postQuery\<close> is the query after it.\<close>

definition handleCancelUncertainty ::
  "RebalancerDeps \<Rightarrow> string \<Rightarrow> order_answers \<Rightarrow> RebalanceOutcomeRecord \<Rightarrow> rb_world \<Rightarrow>
    (rb_world \<times> RebalanceOutcomeRecord) outcome" where
  "handleCancelUncertainty deps symbol ans out w =
     (case an_postQuery ans of
        None \<Rightarrow> Returned (enter_safe_stop ans symbol ''cancel failed and query failed'' w,
                          failed_safe FailureUnknownTerminal out)
      | Some query \<Rightarrow>
          (case ei_Status query of
             OrderStatusFilled \<Rightarrow>
               (case processMissedFill deps symbol (an_clock ans 3) (an_clock ans 4) query w of
                  Panicked \<Rightarrow> Panicked
                | Returned w1 \<Rightarrow> Returned (w1, out\<lparr>ro_TerminalOutcome := RebalanceFilled\<rparr>))
           | OrderStatusCancelled \<Rightarrow> Returned (w, out\<lparr>ro_TerminalOutcome := RebalanceAlreadyCancelled\<rparr>)
           | _ \<Rightarrow> Returned (enter_safe_stop ans symbol ''order not terminal after cancel failure'' w,
                            failed_safe FailureUnknownTerminal out)))"

definition finish_order ::
  "RebalancerDeps \<Rightarrow> (rb_world \<times> RebalanceOutcomeRecord) outcome \<Rightarrow> (rb_world \<times> RebalanceOutcomeRecord) outcome" where
  "finish_order deps r =
     (case r of Panicked \<Rightarrow> Panicked | Returned (w, out) \<Rightarrow> Returned (persistOutcome deps out w, out))"

definition after_cancel ::
  "declib \<Rightarrow> RebalancerDeps \<Rightarrow> string \<Rightarrow> order_answers \<Rightarrow> ExchangeOrderInfo \<Rightarrow> decimal \<Rightarrow> InstrumentRules \<Rightarrow>
    RebalanceOutcomeRecord \<Rightarrow> rb_world \<Rightarrow> (rb_world \<times> RebalanceOutcomeRecord) outcome" where
  "after_cancel L deps symbol ans ord referencePrice rules out w =
     (case an_postQuery ans of
        None \<Rightarrow> Returned (enter_safe_stop ans symbol ''post-cancel query failed'' w,
                          failed_safe FailureUncertainTransport out)
      | Some postQuery \<Rightarrow>
          (case ei_Status postQuery of
             OrderStatusCancelled \<Rightarrow>
               (case processMissedFill deps symbol (an_clock ans 3) (an_clock ans 4) postQuery w of
                  Panicked \<Rightarrow> Panicked
                | Returned w1 \<Rightarrow> Returned (createReplacement L symbol ans ord referencePrice rules
                                   (out\<lparr>ro_TerminalOutcome := RebalanceReplaced\<rparr>) w1))
           | OrderStatusFilled \<Rightarrow>
               (case processMissedFill deps symbol (an_clock ans 3) (an_clock ans 4) postQuery w of
                  Panicked \<Rightarrow> Panicked
                | Returned w1 \<Rightarrow> Returned (w1, out\<lparr>ro_TerminalOutcome := RebalanceFilled\<rparr>))
           | _ \<Rightarrow> Returned (enter_safe_stop ans symbol ''order not terminal after cancel'' w,
                            failed_safe FailureUnknownTerminal out)))"

text \<open>The flow of \<open>processStaleOrder\<close>; every one of its returns persists the outcome.\<close>

definition stale_flow ::
  "declib \<Rightarrow> RebalancerDeps \<Rightarrow> string \<Rightarrow> order_answers \<Rightarrow> ExchangeOrderInfo \<Rightarrow> decimal \<Rightarrow> InstrumentRules \<Rightarrow>
    RebalanceOutcomeRecord \<Rightarrow> rb_world \<Rightarrow> (rb_world \<times> RebalanceOutcomeRecord) outcome" where
  "stale_flow L deps symbol ans ord referencePrice rules out w =
     (case an_preQuery ans of
        None \<Rightarrow> Returned (enter_safe_stop ans symbol ''pre-cancel query failed'' w,
                          failed_safe FailureUncertainTransport out)
      | Some preQuery \<Rightarrow>
          if ei_Status preQuery = OrderStatusFilled then
            (case processMissedFill deps symbol (an_clock ans 1) (an_clock ans 2) preQuery w of
               Panicked \<Rightarrow> Panicked
             | Returned w1 \<Rightarrow> Returned (w1, out\<lparr>ro_TerminalOutcome := RebalanceFilled\<rparr>))
          else if ei_Status preQuery = OrderStatusCancelled then
            (case processMissedFill deps symbol (an_clock ans 1) (an_clock ans 2) preQuery w of
               Panicked \<Rightarrow> Panicked
             | Returned w1 \<Rightarrow> Returned (createReplacement L symbol ans ord referencePrice rules
                                (out\<lparr>ro_TerminalOutcome := RebalanceAlreadyCancelled\<rparr>) w1))
          else
            (case (if 0 < ei_CumulativeFillQty preQuery \<and> ei_CumulativeFillQty ord < ei_CumulativeFillQty preQuery
                   then processMissedFill deps symbol (an_clock ans 1) (an_clock ans 2) preQuery w
                   else Returned w) of
               Panicked \<Rightarrow> Panicked
             | Returned w1 \<Rightarrow>
                 let w2 = emit (EffCancel (order_ref symbol ord)) w1 in
                 if \<not> an_cancelOk ans then handleCancelUncertainty deps symbol ans out w2
                 else after_cancel L deps symbol ans ord referencePrice rules out w2))"

definition processStaleOrder ::
  "declib \<Rightarrow> RebalancerDeps \<Rightarrow> string \<Rightarrow> order_answers \<Rightarrow> ExchangeOrderInfo \<Rightarrow> decimal \<Rightarrow> InstrumentRules \<Rightarrow>
    RebalanceOutcomeRecord \<Rightarrow> rb_world \<Rightarrow> (rb_world \<times> RebalanceOutcomeRecord) outcome" where
  "processStaleOrder L deps symbol ans ord referencePrice rules out w =
     finish_order deps (stale_flow L deps symbol ans ord referencePrice rules out w)"

definition new_outcome ::
  "string \<Rightarrow> string \<Rightarrow> ExchangeOrderInfo \<Rightarrow> decimal \<Rightarrow> duration \<Rightarrow> order_answers \<Rightarrow> RebalanceTerminalOutcome \<Rightarrow>
    RebalanceOutcomeRecord" where
  "new_outcome runID symbol ord referencePrice referenceAge ans t = \<lparr>ro_RunID = runID, ro_Symbol = symbol,
     ro_OldClientOrderID = ei_ClientOrderID ord, ro_OldExchangeOrderID = ei_ExchangeOrderID ord,
     ro_ReferencePrice = referencePrice, ro_ReferenceAge = referenceAge, ro_Deviation = 0,
     ro_TerminalOutcome = t, ro_ReplacementClientOrderID = [], ro_ErrorClass = FailureNone,
     ro_RecordedAt = an_clock ans 0\<rparr>"

definition order_deviation :: "declib \<Rightarrow> ExchangeOrderInfo \<Rightarrow> decimal \<Rightarrow> decimal" where
  "order_deviation L ord referencePrice = dl_div L \<bar>ei_Price ord - referencePrice\<bar> referencePrice"

text \<open>The terminal outcome has no value before it is set; every path sets it.\<close>

definition processOrder ::
  "declib \<Rightarrow> RebalancerDeps \<Rightarrow> string \<Rightarrow> order_answers \<Rightarrow> ExchangeOrderInfo \<Rightarrow> decimal \<Rightarrow> duration \<Rightarrow>
    InstrumentRules \<Rightarrow> string \<Rightarrow> rb_world \<Rightarrow> (rb_world \<times> RebalanceOutcomeRecord) outcome" where
  "processOrder L deps symbol ans ord referencePrice referenceAge rules runID w =
     (let kept = new_outcome runID symbol ord referencePrice referenceAge ans RebalanceKeptByRule in
      case an_owned ans of
        None \<Rightarrow> finish_order deps (Returned (w, kept\<lparr>ro_ErrorClass := FailureUncertainTransport\<rparr>))
      | Some False \<Rightarrow> finish_order deps (Returned (w, kept))
      | Some True \<Rightarrow>
          let deviation = order_deviation L ord referencePrice;
              out = kept\<lparr>ro_Deviation := deviation\<rparr>
          in if deviation \<le> StaleThreshold then finish_order deps (Returned (w, out))
             else processStaleOrder L deps symbol ans ord referencePrice rules out w)"

section \<open>A cycle\<close>

datatype skip_reason =
    TradingGateBlocked block_reason | TickerFetchError | TickerInvalid | TickerStale duration
  | ListPendingError | InstrumentRulesError

record RebalancerCycleResult =
  rbr_Symbol :: string
  rbr_StartedAt :: time
  rbr_CompletedAt :: time
  rbr_RunID :: string
  rbr_ReferencePrice :: decimal
  rbr_ReferenceAge :: duration
  rbr_Skip :: "skip_reason option"
  rbr_StaleCount :: nat
  rbr_KeptCount :: nat
  rbr_Outcomes :: "RebalanceOutcomeRecord list"

text \<open>The answers of a cycle; the orders are the listed ones, each with its own answers.\<close>

record cycle_answers =
  cy_ticker :: "TickerObservation option"
  cy_pending :: "(ExchangeOrderInfo \<times> order_answers) list option"
  cy_rules :: "InstrumentRules option"
  cy_started :: time
  cy_aged :: time
  cy_completed :: time

fun process_orders ::
  "declib \<Rightarrow> RebalancerDeps \<Rightarrow> string \<Rightarrow> (ExchangeOrderInfo \<times> order_answers) list \<Rightarrow> decimal \<Rightarrow> duration \<Rightarrow>
    InstrumentRules \<Rightarrow> string \<Rightarrow> RebalancerCycleResult \<Rightarrow> rb_world \<Rightarrow> (rb_world \<times> RebalancerCycleResult) outcome" where
  "process_orders L deps symbol [] referencePrice referenceAge rules runID result w = Returned (w, result)"
| "process_orders L deps symbol ((ord, ans) # orders) referencePrice referenceAge rules runID result w =
     (case processOrder L deps symbol ans ord referencePrice referenceAge rules runID w of
        Panicked \<Rightarrow> Panicked
      | Returned (w1, out) \<Rightarrow>
          let r1 = result\<lparr>rbr_Outcomes := rbr_Outcomes result @ [out]\<rparr>;
              r2 = (if ro_TerminalOutcome out = RebalanceKeptByRule
                then r1\<lparr>rbr_KeptCount := rbr_KeptCount r1 + 1\<rparr>
                else r1\<lparr>rbr_StaleCount := rbr_StaleCount r1 + 1\<rparr>)
          in process_orders L deps symbol orders referencePrice referenceAge rules runID r2 w1)"

definition run_id :: "string \<Rightarrow> time \<Rightarrow> nat \<Rightarrow> string" where
  "run_id symbol now n = ''rb-'' @ symbol @ ''-'' @ fmt_d (unix_milli now) @ ''-'' @ Itoa n"

definition Rebalancer_executeCycle ::
  "declib \<Rightarrow> RebalancerDeps \<Rightarrow> cycle_answers \<Rightarrow> RebalancerState \<Rightarrow> rb_world \<Rightarrow>
    RebalancerState \<times> (rb_world \<times> RebalancerCycleResult) outcome" where
  "Rebalancer_executeCycle L deps cy r w =
     (let r' = r\<lparr>rbs_cycleNum := rbs_cycleNum r + 1\<rparr>;
          symbol = rbs_symbol r;
          runID = run_id symbol (cy_started cy) (rbs_cycleNum r');
          result = \<lparr>rbr_Symbol = symbol, rbr_StartedAt = cy_started cy, rbr_CompletedAt = zero_time,
            rbr_RunID = runID, rbr_ReferencePrice = 0, rbr_ReferenceAge = 0, rbr_Skip = None,
            rbr_StaleCount = 0, rbr_KeptCount = 0, rbr_Outcomes = []\<rparr>;
          skip = (\<lambda>res reason. Returned (w, res\<lparr>rbr_Skip := Some reason, rbr_CompletedAt := cy_completed cy\<rparr>));
          decision = Authorize (rbw_gate w) symbol RiskIncreasing
      in (r',
       if \<not> gd_Allowed decision then skip result (TradingGateBlocked (gd_BlockReason decision))
       else case cy_ticker cy of
         None \<Rightarrow> skip result TickerFetchError
       | Some t \<Rightarrow>
           if \<not> (0 < to_Last t) then skip result TickerInvalid
           else
             let age = cy_aged cy - to_ReceivedAt t in
             if age > rbc_TickerMaxAge (rbs_config r) then skip result (TickerStale age)
             else
               let res1 = result\<lparr>rbr_ReferencePrice := to_Last t, rbr_ReferenceAge := age\<rparr> in
               (case cy_pending cy of
                  None \<Rightarrow> skip res1 ListPendingError
                | Some orders \<Rightarrow>
                    (case cy_rules cy of
                       None \<Rightarrow> skip res1 InstrumentRulesError
                     | Some rules \<Rightarrow>
                         (case process_orders L deps symbol orders (to_Last t) age rules runID res1 w of
                            Panicked \<Rightarrow> Panicked
                          | Returned (w1, res2) \<Rightarrow> Returned (w1, res2\<lparr>rbr_CompletedAt := cy_completed cy\<rparr>))))))"

text \<open>The wiring of \<open>startRebalancers\<close> and \<open>botOrderStoreAdapter\<close> in \<open>src/cmd/main.go\<close>.\<close>

definition production_deps :: RebalancerDeps where
  "production_deps = \<lparr>rd_HasFillObserver = False, rd_HasOutcomeStore = False\<rparr>"

definition isBotOwnedClientOrderID :: "string \<Rightarrow> bool" where
  "isBotOwnedClientOrderID clOrdID =
     (if clOrdID = [] then False
      else list_ex (\<lambda>p. length p \<le> length clOrdID \<and> take (length p) clOrdID = p) [''tb1'', ''pgv1''])"

section \<open>The gate\<close>

definition gate_blocks :: "TradingGate \<Rightarrow> string \<Rightarrow> bool" where
  "gate_blocks g symbol \<longleftrightarrow> \<not> gd_Allowed (Authorize g symbol RiskIncreasing)"

lemma EnterSymbolSafeStop_blocks: "symbol \<noteq> [] \<Longrightarrow> gate_blocks (EnterSymbolSafeStop now symbol code details g) symbol"
  by (auto simp: gate_blocks_def Authorize_def EnterSymbolSafeStop_def put_symbol_def Let_def allowed_def
      gomap_empty_iff split: option.split)

text \<open>What one call may do: append to the trace, and change the gate only so that it blocks the symbol.\<close>

definition rb_step :: "string \<Rightarrow> rb_world \<Rightarrow> rb_world \<Rightarrow> rb_effect list \<Rightarrow> bool" where
  "rb_step symbol w w' effs \<longleftrightarrow> rbw_trace w' = rbw_trace w @ effs \<and>
     (rbw_gate w' = rbw_gate w \<or> gate_blocks (rbw_gate w') symbol)"

lemma rb_step_refl: "rb_step symbol w w []"
  by (simp add: rb_step_def)

lemma rb_step_emit: "rb_step symbol w (emit e w) [e]"
  by (simp add: rb_step_def emit_def)

lemma rb_step_enter: "symbol \<noteq> [] \<Longrightarrow> rb_step symbol w (enter_safe_stop ans symbol d w) []"
  by (simp add: rb_step_def enter_safe_stop_def EnterSymbolSafeStop_blocks)

lemma rb_step_trans: "rb_step symbol w w1 es \<Longrightarrow> rb_step symbol w1 w2 fs \<Longrightarrow> rb_step symbol w w2 (es @ fs)"
  by (auto simp: rb_step_def)

lemma rb_step_blocks: "rb_step symbol w w' es \<Longrightarrow> gate_blocks (rbw_gate w) symbol \<Longrightarrow> gate_blocks (rbw_gate w') symbol"
  by (auto simp: rb_step_def)

lemma enter_safe_stop_blocks [simp]:
  "symbol \<noteq> [] \<Longrightarrow> gate_blocks (rbw_gate (enter_safe_stop ans symbol d w)) symbol"
  by (simp add: enter_safe_stop_def EnterSymbolSafeStop_blocks)

lemma emit_gate [simp]: "rbw_gate (emit e w) = rbw_gate w"
  by (simp add: emit_def)

section \<open>What each part does\<close>

lemma processMissedFill_step:
  assumes "processMissedFill deps symbol t u info w = Returned w'"
  obtains es where "rb_step symbol w w' es"
    and "es = (if 0 < ei_CumulativeFillQty info
      then [EffFill (missed_observation symbol info t u) (missed_plan info)] else [])"
    and "rbw_gate w' = rbw_gate w"
  using assms by (auto simp: processMissedFill_def split: if_splits intro: that rb_step_refl rb_step_emit)

text \<open>A replacement goes out normalised and with the gate's consent.\<close>

definition sound_replacement ::
  "declib \<Rightarrow> string \<Rightarrow> order_answers \<Rightarrow> ExchangeOrderInfo \<Rightarrow> decimal \<Rightarrow> InstrumentRules \<Rightarrow> TradingGate \<Rightarrow>
    NormalizedOrderRequest \<Rightarrow> bool" where
  "sound_replacement L symbol ans ord ref rules g req \<longleftrightarrow>
     satisfies_rules req rules \<and> \<not> gate_blocks g symbol \<and>
     no_Symbol req = symbol \<and> no_Side req = ei_Side ord \<and> no_OrderType req = OrderTypePostOnly \<and>
     no_ClOrdID req = replacement_id ord (an_clock ans 5) \<and>
     no_Quantity req = FloorToMultiple L (replacement_quantity ord) (ir_LotSize rules)"

lemma createReplacement_step:
  assumes "createReplacement L symbol ans ord ref rules out w = (w', out')" and "symbol \<noteq> []"
  obtains es where "rb_step symbol w w' es"
    and "es = [] \<or> (\<exists>req. es = [EffPlace req] \<and> sound_replacement L symbol ans ord ref rules (rbw_gate w) req)"
    and "ro_TerminalOutcome out' = RebalanceFailedSafe \<longrightarrow>
      ro_TerminalOutcome out = RebalanceFailedSafe \<or> gate_blocks (rbw_gate w') symbol"
    and "ro_TerminalOutcome out' \<in> {ro_TerminalOutcome out, RebalanceFailedSafe, RebalanceReplaced}"
proof (cases "0 < replacement_quantity ord")
  case False
  with assms show thesis by (intro that [of "[]"]) (auto simp: createReplacement_def rb_step_refl)
next
  case pos: True
  let ?c = "replacement_candidate symbol ord ref (an_clock ans 5)"
  show thesis
  proof (cases "nr_Normalized (NormalizeOrder L ?c rules (an_clock ans 6))")
    case None
    with pos assms show thesis
      by (intro that [of "[]"]) (auto simp: createReplacement_def Let_def failed_safe_def rb_step_enter)
  next
    case (Some req)
    show thesis
    proof (cases "gate_blocks (rbw_gate w) symbol")
      case True
      with pos Some assms show thesis
        by (intro that [of "[]"]) (auto simp: createReplacement_def Let_def failed_safe_def rb_step_refl gate_blocks_def)
    next
      case free: False
      have sound: "sound_replacement L symbol ans ord ref rules (rbw_gate w) req"
        using Some free
        by (elim NormalizeOrder_Some) (simp add: sound_replacement_def replacement_candidate_def)
      let ?w1 = "emit (EffPlace req) w"
      obtain res err where a: "an_place ans = (res, err)" by (cases "an_place ans")
      have enter: "rb_step symbol w (enter_safe_stop ans symbol d ?w1) [EffPlace req]" for d
        using rb_step_trans [OF rb_step_emit rb_step_enter [OF assms(2)]] by fastforce
      from pos Some free assms a have "w' = enter_safe_stop ans symbol ''replacement place error'' ?w1 \<and> err \<or>
          w' = enter_safe_stop ans symbol ''replacement rejected'' ?w1 \<and> \<not> err \<and> pr_Err res \<noteq> None \<or>
          w' = ?w1 \<and> ro_TerminalOutcome out' = RebalanceReplaced"
        and o: "ro_TerminalOutcome out' \<in> {RebalanceFailedSafe, RebalanceReplaced}"
        by (auto simp: createReplacement_def Let_def failed_safe_def gate_blocks_def split: bool.splits if_splits)
      then show thesis using sound enter rb_step_emit [of symbol w "EffPlace req"] assms(2)
        by (intro that [of "[EffPlace req]"]) auto
    qed
  qed
qed

text \<open>The orders that a list of effects places.\<close>

fun placements :: "rb_effect list \<Rightarrow> NormalizedOrderRequest list" where
  "placements [] = []"
| "placements (EffPlace req # es) = req # placements es"
| "placements (_ # es) = placements es"

lemma placements_append [simp]: "placements (es @ fs) = placements es @ placements fs"
  by (induction es rule: placements.induct) auto

text \<open>The effects of a part: at most one placement, which is sound and confirmed by a query.\<close>

definition part_ok ::
  "declib \<Rightarrow> string \<Rightarrow> order_answers \<Rightarrow> ExchangeOrderInfo \<Rightarrow> decimal \<Rightarrow> InstrumentRules \<Rightarrow> TradingGate \<Rightarrow>
    ExchangeOrderInfo option \<Rightarrow> rb_effect list \<Rightarrow> bool" where
  "part_ok L symbol ans ord ref rules g query es \<longleftrightarrow>
     placements es = [] \<or>
     (\<exists>req q. placements es = [req] \<and> sound_replacement L symbol ans ord ref rules g req \<and>
        query = Some q \<and> ei_Status q = OrderStatusCancelled)"

lemma processMissedFill_quiet:
  assumes "processMissedFill deps symbol t u info w = Returned w'"
  obtains es where "rb_step symbol w w' es" "placements es = []" "rbw_gate w' = rbw_gate w"
  using assms
proof (rule processMissedFill_step)
  fix es
  assume "rb_step symbol w w' es" "rbw_gate w' = rbw_gate w"
    "es = (if 0 < ei_CumulativeFillQty info
      then [EffFill (missed_observation symbol info t u) (missed_plan info)] else [])"
  then show thesis by (intro that [of es]) simp_all
qed

lemma replace_after_query:
  assumes m: "processMissedFill deps symbol t u q w = Returned w1"
    and c: "createReplacement L symbol ans ord ref rules out w1 = (w', out')" and s: "symbol \<noteq> []"
    and q: "ei_Status q = OrderStatusCancelled"
  obtains es where "rb_step symbol w w' es" "part_ok L symbol ans ord ref rules (rbw_gate w) (Some q) es"
    "ro_TerminalOutcome out' = RebalanceFailedSafe \<longrightarrow>
      ro_TerminalOutcome out = RebalanceFailedSafe \<or> gate_blocks (rbw_gate w') symbol"
    "ro_TerminalOutcome out' \<in> {ro_TerminalOutcome out, RebalanceFailedSafe, RebalanceReplaced}"
proof -
  from m obtain es where es: "rb_step symbol w w1 es" "placements es = []" "rbw_gate w1 = rbw_gate w"
    by (rule processMissedFill_quiet)
  from c s obtain fs where fs: "rb_step symbol w1 w' fs"
    "fs = [] \<or> (\<exists>req. fs = [EffPlace req] \<and> sound_replacement L symbol ans ord ref rules (rbw_gate w1) req)"
    "ro_TerminalOutcome out' = RebalanceFailedSafe \<longrightarrow>
      ro_TerminalOutcome out = RebalanceFailedSafe \<or> gate_blocks (rbw_gate w') symbol"
    "ro_TerminalOutcome out' \<in> {ro_TerminalOutcome out, RebalanceFailedSafe, RebalanceReplaced}"
    by (rule createReplacement_step)
  show thesis
    using rb_step_trans [OF es(1) fs(1)] es(2,3) fs(2,3,4) q by (intro that [of "es @ fs"]) (auto simp: part_ok_def)
qed

lemma after_cancel_step:
  assumes "after_cancel L deps symbol ans ord ref rules out w = Returned (w', out')" and "symbol \<noteq> []"
  obtains es where "rb_step symbol w w' es" "part_ok L symbol ans ord ref rules (rbw_gate w) (an_postQuery ans) es"
    "ro_TerminalOutcome out' = RebalanceFailedSafe \<longrightarrow> gate_blocks (rbw_gate w') symbol"
    "ro_TerminalOutcome out' \<noteq> RebalanceKeptByRule"
proof (cases "an_postQuery ans")
  case None
  with assms show thesis
    by (intro that [of "[]"]) (auto simp: after_cancel_def failed_safe_def part_ok_def rb_step_enter)
next
  case (Some q)
  show thesis
  proof (cases "ei_Status q = OrderStatusCancelled")
    case True
    with Some assms(1) obtain w1 where m: "processMissedFill deps symbol (an_clock ans 3) (an_clock ans 4) q w = Returned w1"
      and c: "createReplacement L symbol ans ord ref rules (out\<lparr>ro_TerminalOutcome := RebalanceReplaced\<rparr>) w1 = (w', out')"
      by (auto simp: after_cancel_def split: outcome.splits)
    from m c assms(2) True show thesis
      by (rule replace_after_query) (rule that, auto simp: Some)
  next
    case nc: False
    show thesis
    proof (cases "ei_Status q = OrderStatusFilled")
      case True
      with Some assms(1) have m: "processMissedFill deps symbol (an_clock ans 3) (an_clock ans 4) q w = Returned w'"
        and o: "ro_TerminalOutcome out' = RebalanceFilled"
        by (auto simp: after_cancel_def split: outcome.splits)
      from m obtain es where "rb_step symbol w w' es" "placements es = []" by (rule processMissedFill_quiet)
      with o show thesis by (intro that [of es]) (simp_all add: part_ok_def)
    next
      case False
      have "w' = enter_safe_stop ans symbol ''order not terminal after cancel'' w \<and>
          out' = failed_safe FailureUnknownTerminal out"
        using nc False Some assms(1) by (cases "ei_Status q") (simp_all add: after_cancel_def)
      with assms(2) show thesis by (intro that [of "[]"]) (simp_all add: failed_safe_def part_ok_def rb_step_enter)
    qed
  qed
qed

lemma handleCancelUncertainty_step:
  assumes "handleCancelUncertainty deps symbol ans out w = Returned (w', out')" and "symbol \<noteq> []"
  obtains es where "rb_step symbol w w' es" "placements es = []"
    "ro_TerminalOutcome out' = RebalanceFailedSafe \<longrightarrow> gate_blocks (rbw_gate w') symbol"
    "ro_TerminalOutcome out' \<noteq> RebalanceKeptByRule"
proof (cases "an_postQuery ans")
  case None
  with assms show thesis
    by (intro that [of "[]"]) (auto simp: handleCancelUncertainty_def failed_safe_def rb_step_enter)
next
  case (Some q)
  show thesis
  proof (cases "ei_Status q = OrderStatusFilled")
    case True
    with Some assms(1) have m: "processMissedFill deps symbol (an_clock ans 3) (an_clock ans 4) q w = Returned w'"
      and o: "ro_TerminalOutcome out' = RebalanceFilled"
      by (auto simp: handleCancelUncertainty_def split: outcome.splits)
    from m obtain es where "rb_step symbol w w' es" "placements es = []" by (rule processMissedFill_quiet)
    with o show thesis by (intro that [of es]) simp_all
  next
    case False
    have "w' = enter_safe_stop ans symbol ''order not terminal after cancel failure'' w \<and>
          out' = failed_safe FailureUnknownTerminal out \<or>
        w' = w \<and> ro_TerminalOutcome out' = RebalanceAlreadyCancelled"
      using False Some assms(1) by (cases "ei_Status q") (simp_all add: handleCancelUncertainty_def, auto)
    with assms(2) show thesis
      by (intro that [of "[]"]) (auto simp: failed_safe_def rb_step_enter rb_step_refl)
  qed
qed

lemma finish_orderE:
  assumes "finish_order deps r = Returned (w', out)"
  obtains w1 es where "r = Returned (w1, out)" "rb_step symbol w1 w' es" "placements es = []" "rbw_gate w' = rbw_gate w1"
proof (cases r)
  case (Returned p)
  obtain w1 o1 where p: "p = (w1, o1)" by (cases p)
  show thesis
  proof (cases "rd_HasOutcomeStore deps")
    case True
    with assms Returned p show thesis
      by (intro that [of w1 "[EffPersist out]"]) (auto simp: finish_order_def persistOutcome_def rb_step_emit)
  next
    case False
    with assms Returned p show thesis
      by (intro that [of w1 "[]"]) (auto simp: finish_order_def persistOutcome_def rb_step_refl)
  qed
qed (use assms in \<open>simp add: finish_order_def\<close>)

lemma part_ok_pad:
  "part_ok L symbol ans ord ref rules g q es \<Longrightarrow> placements ds = [] \<Longrightarrow> placements fs = [] \<Longrightarrow>
    part_ok L symbol ans ord ref rules g q (ds @ es @ fs)"
  by (auto simp: part_ok_def)

text \<open>Whether an order ended by a cancellation that the exchange confirmed, before or after the cancel request.\<close>

definition replaced_soundly ::
  "declib \<Rightarrow> string \<Rightarrow> order_answers \<Rightarrow> ExchangeOrderInfo \<Rightarrow> decimal \<Rightarrow> InstrumentRules \<Rightarrow> TradingGate \<Rightarrow>
    rb_effect list \<Rightarrow> bool" where
  "replaced_soundly L symbol ans ord ref rules g es \<longleftrightarrow>
     part_ok L symbol ans ord ref rules g (an_preQuery ans) es \<or>
     (EffCancel (order_ref symbol ord) \<in> set es \<and> an_cancelOk ans \<and>
      part_ok L symbol ans ord ref rules g (an_postQuery ans) es)"

lemma stale_flow_step:
  assumes flow: "stale_flow L deps symbol ans ord ref rules out w = Returned (w', out')" and s: "symbol \<noteq> []"
  obtains es where "rb_step symbol w w' es" "replaced_soundly L symbol ans ord ref rules (rbw_gate w) es"
    "ro_TerminalOutcome out' = RebalanceFailedSafe \<longrightarrow> gate_blocks (rbw_gate w') symbol"
    "ro_TerminalOutcome out' \<noteq> RebalanceKeptByRule"
proof (cases "an_preQuery ans")
  case None
  with flow s show thesis
    by (intro that [of "[]"])
      (auto simp: stale_flow_def failed_safe_def replaced_soundly_def part_ok_def rb_step_enter)
next
  case (Some q)
  let ?missed = "processMissedFill deps symbol (an_clock ans 1) (an_clock ans 2) q w"
  consider (filled) "ei_Status q = OrderStatusFilled" | (cancelled) "ei_Status q = OrderStatusCancelled"
    | (live) "ei_Status q \<noteq> OrderStatusFilled" "ei_Status q \<noteq> OrderStatusCancelled" by blast
  then show thesis
  proof cases
    case filled
    with Some flow have m: "?missed = Returned w'" and o: "ro_TerminalOutcome out' = RebalanceFilled"
      by (auto simp: stale_flow_def split: outcome.splits)
    from m obtain es where "rb_step symbol w w' es" "placements es = []" by (rule processMissedFill_quiet)
    with o show thesis by (intro that [of es]) (simp_all add: replaced_soundly_def part_ok_def)
  next
    case cancelled
    with Some flow obtain w1 where m: "?missed = Returned w1"
      and c: "createReplacement L symbol ans ord ref rules (out\<lparr>ro_TerminalOutcome := RebalanceAlreadyCancelled\<rparr>) w1 = (w', out')"
      by (auto simp: stale_flow_def split: outcome.splits)
    from m c s cancelled show thesis
      by (rule replace_after_query) (rule that, auto simp: Some replaced_soundly_def)
  next
    case live
    let ?cond = "0 < ei_CumulativeFillQty q \<and> ei_CumulativeFillQty ord < ei_CumulativeFillQty q"
    from live Some flow obtain w1 where w1: "(if ?cond then ?missed else Returned w) = Returned w1"
      and rest: "(if \<not> an_cancelOk ans
        then handleCancelUncertainty deps symbol ans out (emit (EffCancel (order_ref symbol ord)) w1)
        else after_cancel L deps symbol ans ord ref rules out (emit (EffCancel (order_ref symbol ord)) w1)) =
        Returned (w', out')"
      by (auto simp: stale_flow_def Let_def split: outcome.splits)
    from w1 obtain ds where ds: "rb_step symbol w w1 ds" "placements ds = []" "rbw_gate w1 = rbw_gate w"
    proof (cases ?cond)
      case True
      with w1 have "?missed = Returned w1" by simp
      then show thesis by (rule processMissedFill_quiet) (rule that)
    next
      case False
      with w1 have "w1 = w" by simp
      then show thesis using that [of "[]"] rb_step_refl by simp
    qed
    let ?w2 = "emit (EffCancel (order_ref symbol ord)) w1"
    note step2 = rb_step_trans [OF ds(1) rb_step_emit [of symbol w1 "EffCancel (order_ref symbol ord)"]]
    show thesis
    proof (cases "an_cancelOk ans")
      case False
      with rest have "handleCancelUncertainty deps symbol ans out ?w2 = Returned (w', out')" by simp
      then obtain es where es: "rb_step symbol ?w2 w' es" "placements es = []"
        "ro_TerminalOutcome out' = RebalanceFailedSafe \<longrightarrow> gate_blocks (rbw_gate w') symbol"
        "ro_TerminalOutcome out' \<noteq> RebalanceKeptByRule"
        using s by (rule handleCancelUncertainty_step)
      from rb_step_trans [OF step2 es(1)] es(2-4) ds(2) show thesis
        by (intro that [of "(ds @ [EffCancel (order_ref symbol ord)]) @ es"]) (auto simp: replaced_soundly_def part_ok_def)
    next
      case True
      with rest have "after_cancel L deps symbol ans ord ref rules out ?w2 = Returned (w', out')" by simp
      then obtain es where es: "rb_step symbol ?w2 w' es"
        "part_ok L symbol ans ord ref rules (rbw_gate ?w2) (an_postQuery ans) es"
        "ro_TerminalOutcome out' = RebalanceFailedSafe \<longrightarrow> gate_blocks (rbw_gate w') symbol"
        "ro_TerminalOutcome out' \<noteq> RebalanceKeptByRule"
        using s by (rule after_cancel_step)
      have "part_ok L symbol ans ord ref rules (rbw_gate w) (an_postQuery ans)
          ((ds @ [EffCancel (order_ref symbol ord)]) @ es @ [])"
        using es(2) ds(2,3) by (intro part_ok_pad) simp_all
      with rb_step_trans [OF step2 es(1)] es(3,4) True show thesis
        by (intro that [of "(ds @ [EffCancel (order_ref symbol ord)]) @ es"]) (simp_all add: replaced_soundly_def)
    qed
  qed
qed

lemma processStaleOrder_step:
  assumes "processStaleOrder L deps symbol ans ord ref rules out w = Returned (w', out')" and s: "symbol \<noteq> []"
  obtains es where "rb_step symbol w w' es" "replaced_soundly L symbol ans ord ref rules (rbw_gate w) es"
    "ro_TerminalOutcome out' = RebalanceFailedSafe \<longrightarrow> gate_blocks (rbw_gate w') symbol"
    "ro_TerminalOutcome out' \<noteq> RebalanceKeptByRule"
proof -
  from assms(1) obtain w1 fs where flow: "stale_flow L deps symbol ans ord ref rules out w = Returned (w1, out')"
    and fin: "rb_step symbol w1 w' fs" "placements fs = []" "rbw_gate w' = rbw_gate w1"
    unfolding processStaleOrder_def by (rule finish_orderE)
  from flow s obtain es where es: "rb_step symbol w w1 es" "replaced_soundly L symbol ans ord ref rules (rbw_gate w) es"
    "ro_TerminalOutcome out' = RebalanceFailedSafe \<longrightarrow> gate_blocks (rbw_gate w1) symbol"
    "ro_TerminalOutcome out' \<noteq> RebalanceKeptByRule"
    by (rule stale_flow_step)
  have "replaced_soundly L symbol ans ord ref rules (rbw_gate w) (es @ fs)"
    using es(2) fin(2) by (auto simp: replaced_soundly_def part_ok_def)
  with rb_step_trans [OF es(1) fin(1)] es(3,4) fin(3) show thesis by (intro that) simp_all
qed

lemma processOrder_effects:
  assumes "processOrder L deps symbol ans ord ref age rules runID w = Returned (w', out)" and "symbol \<noteq> []"
  shows "\<exists>es. rbw_trace w' = rbw_trace w @ es \<and>
    (if an_owned ans = Some True \<and> StaleThreshold < order_deviation L ord ref
     then ro_TerminalOutcome out \<noteq> RebalanceKeptByRule \<and>
       replaced_soundly L symbol ans ord ref rules (rbw_gate w) es \<and>
       (rbw_gate w' = rbw_gate w \<or> gate_blocks (rbw_gate w') symbol) \<and>
       (ro_TerminalOutcome out = RebalanceFailedSafe \<longrightarrow> gate_blocks (rbw_gate w') symbol)
     else ro_TerminalOutcome out = RebalanceKeptByRule \<and> rbw_gate w' = rbw_gate w \<and>
       es = (if rd_HasOutcomeStore deps then [EffPersist out] else []))"
proof (cases "an_owned ans = Some True \<and> StaleThreshold < order_deviation L ord ref")
  case True
  with assms(1) have "processStaleOrder L deps symbol ans ord ref rules
      ((new_outcome runID symbol ord ref age ans RebalanceKeptByRule)\<lparr>ro_Deviation := order_deviation L ord ref\<rparr>) w =
      Returned (w', out)"
    by (simp add: processOrder_def Let_def)
  then obtain es where "rb_step symbol w w' es" "replaced_soundly L symbol ans ord ref rules (rbw_gate w) es"
    "ro_TerminalOutcome out = RebalanceFailedSafe \<longrightarrow> gate_blocks (rbw_gate w') symbol"
    "ro_TerminalOutcome out \<noteq> RebalanceKeptByRule"
    using assms(2) by (rule processStaleOrder_step)
  with True show ?thesis by (intro exI [of _ es]) (simp add: rb_step_def)
next
  case False
  then have "an_owned ans = None \<or> an_owned ans = Some False \<or>
      an_owned ans = Some True \<and> order_deviation L ord ref \<le> StaleThreshold" by (cases "an_owned ans") auto
  with assms(1) obtain o1 where "Returned (w', out) = Returned (persistOutcome deps o1 w, o1)"
    and "ro_TerminalOutcome o1 = RebalanceKeptByRule"
    by (auto simp: processOrder_def finish_order_def Let_def new_outcome_def)
  with False show ?thesis by (auto simp: persistOutcome_def emit_def)
qed

section \<open>Properties\<close>


text \<open>The two percent are exact where the code promises it. With a positive reference price an order that
  deviates by exactly two percent or less is kept, whatever the quotient is rounded to; one that deviates by
  more than two percent and half a unit of the sixteenth decimal is stale.\<close>

theorem stale_threshold_exact:
  assumes "declib_ok L" and "0 < ref"
  shows "(\<bar>ei_Price ord - ref\<bar> \<le> 2 / 100 * ref \<longrightarrow> order_deviation L ord ref \<le> StaleThreshold) \<and>
    ((2 / 100 + half_ulp) * ref < \<bar>ei_Price ord - ref\<bar> \<longrightarrow> StaleThreshold < order_deviation L ord ref)"
proof -
  let ?x = "\<bar>ei_Price ord - ref\<bar> / ref"
  have n: "near_multiple 16 ?x (order_deviation L ord ref)"
    using assms by (auto simp: order_deviation_def intro: declib_div)
  have "order_deviation L ord ref \<le> StaleThreshold" if "\<bar>ei_Price ord - ref\<bar> \<le> 2 / 100 * ref"
  proof -
    have "?x \<le> of_int 200000000000000 / 10 ^ 16" using that assms(2) by (simp add: field_simps)
    from near_multiple_le_grid [OF n this] show ?thesis by (simp add: StaleThreshold_def)
  qed
  moreover have "StaleThreshold < order_deviation L ord ref" if "(2 / 100 + half_ulp) * ref < \<bar>ei_Price ord - ref\<bar>"
  proof -
    have "2 / 100 + half_ulp < ?x" using that assms(2) by (simp only: pos_less_divide_eq)
    with near_multiple_bounds(1) [OF n] show ?thesis unfolding StaleThreshold_def by linarith
  qed
  ultimately show ?thesis by blast
qed

section \<open>Cycles\<close>

lemma process_orders_effects:
  "process_orders L deps symbol orders ref age rules runID result w = Returned (w', result') \<Longrightarrow> symbol \<noteq> [] \<Longrightarrow>
    (rbw_gate w' = rbw_gate w \<or> gate_blocks (rbw_gate w') symbol) \<and>
    (\<exists>outs. rbr_Outcomes result' = rbr_Outcomes result @ outs \<and> length outs = length orders \<and>
       rbr_KeptCount result' + rbr_StaleCount result' = rbr_KeptCount result + rbr_StaleCount result + length orders \<and>
       ((\<exists>out \<in> set outs. ro_TerminalOutcome out = RebalanceFailedSafe) \<longrightarrow> gate_blocks (rbw_gate w') symbol))"
proof (induction orders arbitrary: result w)
  case (Cons x orders)
  obtain ord ans where x: "x = (ord, ans)" by (cases x)
  from Cons.prems(1) x obtain w1 out r2 where
    p: "processOrder L deps symbol ans ord ref age rules runID w = Returned (w1, out)"
    and rest: "process_orders L deps symbol orders ref age rules runID r2 w1 = Returned (w', result')"
    and r2: "rbr_Outcomes r2 = rbr_Outcomes result @ [out]"
      "rbr_KeptCount r2 + rbr_StaleCount r2 = rbr_KeptCount result + rbr_StaleCount result + 1"
    by (auto simp: Let_def split: outcome.splits if_splits)
  from processOrder_effects [OF p Cons.prems(2)] have
    g: "rbw_gate w1 = rbw_gate w \<or> gate_blocks (rbw_gate w1) symbol"
    and f: "ro_TerminalOutcome out = RebalanceFailedSafe \<longrightarrow> gate_blocks (rbw_gate w1) symbol"
    by (auto split: if_splits)
  from Cons.IH [OF rest Cons.prems(2)] obtain outs where
    h: "rbw_gate w' = rbw_gate w1 \<or> gate_blocks (rbw_gate w') symbol"
      "rbr_Outcomes result' = rbr_Outcomes r2 @ outs" "length outs = length orders"
      "rbr_KeptCount result' + rbr_StaleCount result' = rbr_KeptCount r2 + rbr_StaleCount r2 + length orders"
      "(\<exists>out \<in> set outs. ro_TerminalOutcome out = RebalanceFailedSafe) \<longrightarrow> gate_blocks (rbw_gate w') symbol"
    by blast
  have "rbw_gate w' = rbw_gate w \<or> gate_blocks (rbw_gate w') symbol" using g h(1) by auto
  moreover have "(\<exists>o' \<in> set (out # outs). ro_TerminalOutcome o' = RebalanceFailedSafe) \<longrightarrow> gate_blocks (rbw_gate w') symbol"
    using f h(1,5) by auto
  ultimately show ?case using h(2-4) r2 by (intro conjI exI [of _ "out # outs"]) simp_all
qed simp

text \<open>A cycle that the gate blocks does nothing.\<close>

lemma executeCycle_blocked:
  assumes "gate_blocks (rbw_gate w) (rbs_symbol r)"
  shows "\<exists>res. snd (Rebalancer_executeCycle L deps cy r w) = Returned (w, res) \<and> rbr_Outcomes res = [] \<and>
    rbr_Skip res = Some (TradingGateBlocked (gd_BlockReason (Authorize (rbw_gate w) (rbs_symbol r) RiskIncreasing)))"
  using assms by (simp add: Rebalancer_executeCycle_def Let_def gate_blocks_def)

lemma executeCycle_ran:
  assumes "Rebalancer_executeCycle L deps cy r w = (r1, Returned (w1, res))"
  obtains (skipped) "w1 = w" "rbr_Outcomes res = []" "rbr_Skip res \<noteq> None"
  | (ran) orders t age rules runID res0 res2 where "cy_pending cy = Some orders" "cy_ticker cy = Some t"
      "age \<le> rbc_TickerMaxAge (rbs_config r)" "0 < to_Last t" "\<not> gate_blocks (rbw_gate w) (rbs_symbol r)"
      "process_orders L deps (rbs_symbol r) orders (to_Last t) age rules runID res0 w = Returned (w1, res2)"
      "rbr_Outcomes res0 = []" "rbr_KeptCount res0 = 0" "rbr_StaleCount res0 = 0"
      "res = res2\<lparr>rbr_CompletedAt := cy_completed cy\<rparr>"
proof -
  note d = Rebalancer_executeCycle_def Let_def gate_blocks_def
  show thesis
  proof (cases "gate_blocks (rbw_gate w) (rbs_symbol r)")
    case True
    with assms show thesis by (intro skipped) (auto simp: d)
  next
    case free: False
    show thesis
    proof (cases "cy_ticker cy")
      case None
      with free assms show thesis by (intro skipped) (auto simp: d)
    next
      case (Some t)
      let ?age = "cy_aged cy - to_ReceivedAt t"
      show thesis
      proof (cases "0 < to_Last t \<and> ?age \<le> rbc_TickerMaxAge (rbs_config r) \<and> cy_pending cy \<noteq> None \<and> cy_rules cy \<noteq> None")
        case False
        with free Some assms show thesis by (intro skipped) (auto simp: d split: if_splits option.splits)
      next
        case True
        then obtain orders rules where o: "cy_pending cy = Some orders" "cy_rules cy = Some rules" by auto
        let ?id = "run_id (rbs_symbol r) (cy_started cy) (rbs_cycleNum r + 1)"
        let ?res0 = "\<lparr>rbr_Symbol = rbs_symbol r, rbr_StartedAt = cy_started cy, rbr_CompletedAt = zero_time,
          rbr_RunID = ?id, rbr_ReferencePrice = to_Last t, rbr_ReferenceAge = ?age, rbr_Skip = None,
          rbr_StaleCount = 0, rbr_KeptCount = 0, rbr_Outcomes = []\<rparr>"
        from True free Some assms o obtain res2 where
          run: "process_orders L deps (rbs_symbol r) orders (to_Last t) ?age rules ?id ?res0 w = Returned (w1, res2)"
          and res: "res = res2\<lparr>rbr_CompletedAt := cy_completed cy\<rparr>"
          by (auto simp: d split: outcome.splits)
        show thesis using True free by (intro ran [OF o(1) Some _ _ _ run _ _ _ res]) simp_all
      qed
    qed
  qed
qed

text \<open>C26: After a failure the rebalancer stands still. If any order of a cycle ended \<open>failed safe\<close>, the trading
  gate blocks the symbol when the cycle ends, and the next cycle, whatever the exchange answers, is skipped
  by the gate: it cancels and places nothing and leaves the world as it is.\<close>

theorem failed_safe_stops_rebalancing:
  assumes "Rebalancer_executeCycle L deps cy r w = (r1, Returned (w1, res))"
    and "out \<in> set (rbr_Outcomes res)" and "ro_TerminalOutcome out = RebalanceFailedSafe"
    and "rbs_symbol r \<noteq> []"
  shows "\<not> gd_Allowed (Authorize (rbw_gate w1) (rbs_symbol r) RiskIncreasing) \<and>
    (\<exists>res' why. snd (Rebalancer_executeCycle L deps cy' r1 w1) = Returned (w1, res') \<and>
       rbr_Outcomes res' = [] \<and> rbr_Skip res' = Some (TradingGateBlocked why))"
  using assms(1)
proof (cases rule: executeCycle_ran)
  case skipped
  with assms(2) show ?thesis by simp
next
  case (ran orders t age rules runID res0 res2)
  from process_orders_effects [OF ran(6) assms(4)] ran(7) ran(10) assms(2,3)
  have b: "gate_blocks (rbw_gate w1) (rbs_symbol r)" by auto
  have r1: "rbs_symbol r1 = rbs_symbol r"
    using assms(1) by (auto simp: Rebalancer_executeCycle_def Let_def)
  from executeCycle_blocked [of w1 r1 L deps cy'] b r1 show ?thesis
    by (auto simp: gate_blocks_def)
qed

text \<open>As the program wires it, the rebalancer crashes on the first fill it discovers. \<open>startRebalancers\<close>
  passes no fill observer; for a stale order of the bot that the pre-cancel query reports as filled, or
  cancelled with a fill, or with more filled than the listing said, the call on the nil interface panics.\<close>

theorem production_rebalancer_panics:
  assumes "an_owned ans = Some (isBotOwnedClientOrderID (ei_ClientOrderID ord))"
    and "isBotOwnedClientOrderID (ei_ClientOrderID ord)"
    and "StaleThreshold < order_deviation L ord ref"
    and "an_preQuery ans = Some q" and "0 < ei_CumulativeFillQty q"
    and "ei_Status q = OrderStatusFilled \<or> ei_Status q = OrderStatusCancelled \<or>
      ei_CumulativeFillQty ord < ei_CumulativeFillQty q"
  shows "processOrder L production_deps symbol ans ord ref age rules runID w = Panicked"
  using assms
  by (auto simp: processOrder_def processStaleOrder_def stale_flow_def finish_order_def processMissedFill_def
      production_deps_def Let_def)

section \<open>Concrete runs\<close>

definition listed_order :: "decimal \<Rightarrow> decimal \<Rightarrow> OrderStatus \<Rightarrow> ExchangeOrderInfo" where
  "listed_order qty filled st = \<lparr>ei_ExchangeOrderID = ''123456789'', ei_ClientOrderID = ''tb1x'', ei_Symbol = ''BTC'',
     ei_Side = SideBuy, ei_Status = st, ei_Price = 90, ei_Quantity = qty, ei_CumulativeFillQty = filled,
     ei_AvgFillPrice = 90, ei_CreateTime = 1, ei_UpdateTime = 2\<rparr>"

definition race_answers :: "decimal \<Rightarrow> OrderStatus \<Rightarrow> order_answers" where
  "race_answers filled st = \<lparr>an_owned = Some True, an_preQuery = Some (listed_order 10 0 OrderStatusOpen),
     an_cancelOk = True, an_postQuery = Some (listed_order 10 filled st),
     an_place = (\<lparr>pr_ExchangeOrderID = ''9'', pr_ClientOrderID = ''y'', pr_Status = OrderStatusSubmitted, pr_Err = None\<rparr>, False),
     an_clock = (\<lambda>_. 50)\<rparr>"

definition full_deps :: RebalancerDeps where
  "full_deps = \<lparr>rd_HasFillObserver = True, rd_HasOutcomeStore = True\<rparr>"

definition rb_start :: rb_world where
  "rb_start = \<lparr>rbw_gate = NewTradingGate None, rbw_trace = []\<rparr>"

definition exact_lib :: declib where
  "exact_lib = \<lparr>dl_div = (/), dl_round = (\<lambda>a _. a)\<rparr>"

definition btc_rules :: InstrumentRules where
  "btc_rules = \<lparr>ir_Symbol = ''BTC'', ir_TickSize = 1, ir_LotSize = 1, ir_MinSize = 1, ir_MinNotional = 0,
     ir_FetchedAt = 0, ir_ExpiresAt = 100\<rparr>"

definition race_run :: "decimal \<Rightarrow> OrderStatus \<Rightarrow> (rb_world \<times> RebalanceOutcomeRecord) outcome" where
  "race_run filled st = processOrder exact_lib full_deps ''BTC'' (race_answers filled st)
     (listed_order 10 0 OrderStatusOpen) 100 0 btc_rules ''run'' rb_start"

text \<open>A fill of 4 during the cancel is recorded, and the replacement is still for the full 10.\<close>

lemma race_oversizes_replacement:
  "case race_run 4 OrderStatusCancelled of
     Panicked \<Rightarrow> False
   | Returned (w, out) \<Rightarrow> map no_Quantity (placements (rbw_trace w)) = [10] \<and>
       (case rbw_trace w of _ # EffFill obs _ # _ \<Rightarrow> fo_CumulativeQuantity obs = 4 | _ \<Rightarrow> False)"
  by code_simp

lemma race_run_returns: "\<exists>w out. race_run 4 OrderStatusCancelled = Returned (w, out)"
proof -
  have "case race_run 4 OrderStatusCancelled of Panicked \<Rightarrow> False | Returned _ \<Rightarrow> True" by code_simp
  then show ?thesis by (auto split: outcome.splits)
qed


theorem stale_threshold_exact_witness:
  "order_deviation std_declib ((listed_order 10 0 OrderStatusOpen)\<lparr>ei_Price := 98\<rparr>) 100 \<le> StaleThreshold \<and>
   StaleThreshold < order_deviation std_declib (listed_order 10 0 OrderStatusOpen) 100"
  using stale_threshold_exact [OF std_declib_ok, of 100 "(listed_order 10 0 OrderStatusOpen)\<lparr>ei_Price := 98\<rparr>"]
    stale_threshold_exact [OF std_declib_ok, of 100 "listed_order 10 0 OrderStatusOpen"]
  by (simp add: listed_order_def)

definition race_cycle :: cycle_answers where
  "race_cycle = \<lparr>cy_ticker = Some \<lparr>to_Symbol = ''BTC'', to_Last = 100, to_BestBid = 99, to_BestAsk = 101, to_High24h = 0,
       to_Low24h = 0, to_ExchangeTimestamp = 40, to_ReceivedAt = 50\<rparr>,
     cy_pending = Some [(listed_order 10 0 OrderStatusOpen, race_answers 0 OrderStatusOpen)],
     cy_rules = Some btc_rules, cy_started = 50, cy_aged = 51, cy_completed = 60\<rparr>"

theorem failed_safe_stops_rebalancing_witness:
  "\<exists>r1 w1 res. Rebalancer_executeCycle exact_lib full_deps race_cycle (NewRebalancer ''BTC'' DefaultRebalancerConfig) rb_start =
      (r1, Returned (w1, res)) \<and> \<not> gd_Allowed (Authorize (rbw_gate w1) ''BTC'' RiskIncreasing)"
proof -
  let ?run = "Rebalancer_executeCycle exact_lib full_deps race_cycle (NewRebalancer ''BTC'' DefaultRebalancerConfig) rb_start"
  have "case snd ?run of Panicked \<Rightarrow> False
    | Returned (w1, res) \<Rightarrow> list_ex (\<lambda>out. ro_TerminalOutcome out = RebalanceFailedSafe) (rbr_Outcomes res)"
    by code_simp
  then obtain r1 w1 res out where run: "?run = (r1, Returned (w1, res))"
    and out: "out \<in> set (rbr_Outcomes res)" "ro_TerminalOutcome out = RebalanceFailedSafe"
    by (cases ?run) (auto simp: list_ex_iff split: outcome.splits)
  have s: "rbs_symbol (NewRebalancer ''BTC'' DefaultRebalancerConfig) = ''BTC''" by (simp add: NewRebalancer_def)
  from failed_safe_stops_rebalancing [OF run out] run show ?thesis by (auto simp: s)
qed

theorem production_rebalancer_panics_witness:
  "processOrder exact_lib production_deps ''BTC'' ((race_answers 0 OrderStatusOpen)
      \<lparr>an_preQuery := Some (listed_order 10 3 OrderStatusPartiallyFilled)\<rparr>)
    (listed_order 10 0 OrderStatusOpen) 100 0 btc_rules ''run'' rb_start = Panicked"
proof -
  have own: "isBotOwnedClientOrderID (ei_ClientOrderID (listed_order 10 0 OrderStatusOpen))"
    by (simp add: isBotOwnedClientOrderID_def listed_order_def)
  then show ?thesis
    by (intro production_rebalancer_panics [of _ _ _ _ "listed_order 10 3 OrderStatusPartiallyFilled"])
      (simp_all add: race_answers_def listed_order_def StaleThreshold_def order_deviation_def exact_lib_def)
qed

end
