(* ===== verification/Inventory.thy ===== *)
theory Inventory
  imports ExchangeGateway RingBuffer
begin

text \<open>
  The inventory tracker (\<open>src/internal/execution/inventory_tracker.go\<close>) and the momentum filter
  (\<open>src/internal/execution/momentum_filter.go\<close>) of the market-making strategy. Neither map is
  iterated, so both are functions; a symbol without history has the empty one. \<open>now\<close> is the clock.
  The price histories of the filter are a second instance of the locale \<open>bounded_log\<close>.
\<close>

section \<open>The inventory tracker\<close>

record PositionEntry =
  pe_Symbol :: string
  pe_BuyPrice :: decimal
  pe_Quantity :: decimal
  pe_BuyTime :: time
  pe_OrderID :: string

record InventoryTracker =
  it_positions :: "string \<rightharpoonup> PositionEntry"
  it_maxValuePerSymbol :: decimal

definition NewInventoryTracker :: "decimal \<Rightarrow> InventoryTracker" where
  "NewInventoryTracker maxValue = \<lparr>it_positions = Map.empty, it_maxValuePerSymbol = maxValue\<rparr>"

definition RecordBuy :: "time \<Rightarrow> string \<Rightarrow> decimal \<Rightarrow> decimal \<Rightarrow> string \<Rightarrow> InventoryTracker \<Rightarrow> InventoryTracker" where
  "RecordBuy now symbol price quantity orderID t = t\<lparr>it_positions := (it_positions t)(symbol \<mapsto>
     \<lparr>pe_Symbol = symbol, pe_BuyPrice = price, pe_Quantity = quantity, pe_BuyTime = now, pe_OrderID = orderID\<rparr>)\<rparr>"

definition ClearPosition :: "string \<Rightarrow> InventoryTracker \<Rightarrow> InventoryTracker" where
  "ClearPosition symbol t = t\<lparr>it_positions := (it_positions t)(symbol := None)\<rparr>"

definition GetPosition :: "string \<Rightarrow> InventoryTracker \<Rightarrow> PositionEntry option" where
  "GetPosition symbol t = it_positions t symbol"

definition HasPosition :: "string \<Rightarrow> InventoryTracker \<Rightarrow> bool" where
  "HasPosition symbol t = (it_positions t symbol \<noteq> None)"

definition IsInventoryFull :: "string \<Rightarrow> InventoryTracker \<Rightarrow> bool" where
  "IsInventoryFull symbol t =
     (case it_positions t symbol of
        None \<Rightarrow> False
      | Some pos \<Rightarrow> it_maxValuePerSymbol t \<le> pe_BuyPrice pos * pe_Quantity pos)"

definition hour :: duration where "hour = 3600 * 1000000000"

definition CalculateSellPrice :: "time \<Rightarrow> string \<Rightarrow> InventoryTracker \<Rightarrow> decimal \<times> bool" where
  "CalculateSellPrice now symbol t =
     (case it_positions t symbol of
        None \<Rightarrow> (0, False)
      | Some pos \<Rightarrow>
          let elapsed = now - pe_BuyTime pos; buyPrice = pe_BuyPrice pos in
          if elapsed < 1 * hour then (buyPrice * (1003 / 1000), True)
          else if elapsed < 6 * hour then (buyPrice * (10025 / 10000), True)
          else if elapsed < 12 * hour then (buyPrice * (1002 / 1000), True)
          else (0, True))"

definition ShouldHardStop :: "declib \<Rightarrow> string \<Rightarrow> decimal \<Rightarrow> decimal \<Rightarrow> InventoryTracker \<Rightarrow> bool" where
  "ShouldHardStop L symbol currentPrice maxLossPct t =
     (case it_positions t symbol of
        None \<Rightarrow> False
      | Some pos \<Rightarrow>
          if \<not> (0 < currentPrice) \<or> \<not> (0 < pe_BuyPrice pos) then False
          else maxLossPct \<le> dl_div L (pe_BuyPrice pos - currentPrice) (pe_BuyPrice pos))"

section \<open>The momentum filter\<close>

record MomentumFilter =
  mf_history :: "string \<Rightarrow> decimal list"
  mf_maxLen :: int

definition NewMomentumFilter :: "int \<Rightarrow> MomentumFilter" where
  "NewMomentumFilter maxLen = \<lparr>mf_history = (\<lambda>_. []), mf_maxLen = (if maxLen < 4 then 6 else maxLen)\<rparr>"

definition Momentum_RecordPrice :: "string \<Rightarrow> decimal \<Rightarrow> MomentumFilter \<Rightarrow> MomentumFilter" where
  "Momentum_RecordPrice symbol price f =
     (let h = mf_history f symbol @ [price];
          h' = (if int (length h) > mf_maxLen f then drop (length h - nat (mf_maxLen f)) h else h)
      in f\<lparr>mf_history := (mf_history f)(symbol := h')\<rparr>)"

definition IsDowntrend :: "string \<Rightarrow> MomentumFilter \<Rightarrow> bool" where
  "IsDowntrend symbol f =
     (let h = mf_history f symbol; n = length h in
      if n < 4 then False
      else h ! (n - 4) > h ! (n - 3) \<and> h ! (n - 3) > h ! (n - 2) \<and> h ! (n - 2) > h ! (n - 1))"

definition HasEnoughData :: "string \<Rightarrow> MomentumFilter \<Rightarrow> bool" where
  "HasEnoughData symbol f = (4 \<le> length (mf_history f symbol))"

section \<open>Positions\<close>

lemma position_RecordBuy [simp]:
  "GetPosition s (RecordBuy now symbol p q i t) =
     (if s = symbol then Some \<lparr>pe_Symbol = symbol, pe_BuyPrice = p, pe_Quantity = q, pe_BuyTime = now, pe_OrderID = i\<rparr>
      else GetPosition s t)"
  by (simp add: GetPosition_def RecordBuy_def)

lemma position_ClearPosition [simp]:
  "GetPosition s (ClearPosition symbol t) = (if s = symbol then None else GetPosition s t)"
  by (simp add: GetPosition_def ClearPosition_def)

lemma position_New [simp]: "GetPosition s (NewInventoryTracker v) = None"
  by (simp add: GetPosition_def NewInventoryTracker_def)

text \<open>Positions are replaced, not accumulated: of several BUY fills the last is the position, and the cap on
  the inventory compares that fill alone.\<close>

lemma fills_overwrite:
  assumes "fills \<noteq> []"
  shows "map_option pe_Quantity (GetPosition s (foldl (\<lambda>t (now, p, q, i). RecordBuy now s p q i t) t fills)) =
    Some (fst (snd (snd (last fills))))"
  using assms by (induction fills rule: rev_induct) (auto split: prod.splits)

text \<open>Without a position the inventory is never full.\<close>

lemma full_needs_position [simp]: "GetPosition s t = None \<Longrightarrow> \<not> IsInventoryFull s t"
  by (simp add: IsInventoryFull_def GetPosition_def)

text \<open>The asked price only falls while a position ages, and stays above the price paid until it is given up.\<close>

lemma sell_price_decays:
  assumes "GetPosition s t = Some pos" and "0 < pe_BuyPrice pos" and "now \<le> later"
  shows "fst (CalculateSellPrice later s t) \<le> fst (CalculateSellPrice now s t)"
    and "now - pe_BuyTime pos < 12 * hour \<Longrightarrow>
      1002 / 1000 * pe_BuyPrice pos \<le> fst (CalculateSellPrice now s t) \<and>
      fst (CalculateSellPrice now s t) \<le> 1003 / 1000 * pe_BuyPrice pos"
  using assms by (simp_all add: CalculateSellPrice_def GetPosition_def Let_def hour_def)

text \<open>The hard stop is exact up to the last digit of the quotient.\<close>

lemma hard_stop_threshold:
  assumes "declib_ok L" and "GetPosition s t = Some pos" and "0 < pe_BuyPrice pos" and "0 < current"
  shows "ShouldHardStop L s current m t \<Longrightarrow> current \<le> (1 - m + 1 / (2 * 10 ^ 16)) * pe_BuyPrice pos"
    and "current \<le> (1 - m - 1 / (2 * 10 ^ 16)) * pe_BuyPrice pos \<Longrightarrow> ShouldHardStop L s current m t"
proof -
  let ?p = "pe_BuyPrice pos" and ?u = "1 / (2 * 10 ^ 16) :: rat"
  let ?q = "(?p - current) / ?p"
  have near: "near_multiple 16 ?q (dl_div L (?p - current) ?p)"
    using declib_div [OF assms(1)] assms(3) by simp
  have b: "?q - ?u \<le> dl_div L (?p - current) ?p" "dl_div L (?p - current) ?p \<le> ?q + ?u"
    using near_multiple_bounds [OF near] by simp_all
  have stop: "ShouldHardStop L s current m t \<longleftrightarrow> m \<le> dl_div L (?p - current) ?p"
    using assms by (simp add: ShouldHardStop_def GetPosition_def)
  have le1: "(c \<le> ?q) = (current \<le> (1 - c) * ?p)" for c
    using assms(3) by (simp add: pos_le_divide_eq left_diff_distrib) (auto simp: algebra_simps)
  show "current \<le> (1 - m + ?u) * ?p" if "ShouldHardStop L s current m t"
  proof -
    have "m - ?u \<le> ?q" using that b(2) stop by linarith
    then show ?thesis using le1 [of "m - ?u"] by (simp add: algebra_simps)
  qed
  show "ShouldHardStop L s current m t" if "current \<le> (1 - m - ?u) * ?p"
  proof -
    have "m + ?u \<le> ?q" using that le1 [of "m + ?u"] by (simp add: algebra_simps)
    then show ?thesis using b(1) stop by linarith
  qed
qed

section \<open>Momentum\<close>

definition momentum_inv :: "string \<Rightarrow> MomentumFilter \<Rightarrow> bool" where
  "momentum_inv s f \<longleftrightarrow> 4 \<le> mf_maxLen f \<and> int (length (mf_history f s)) \<le> mf_maxLen f"

interpretation momentum: bounded_log "momentum_inv s" "\<lambda>f. nat (mf_maxLen f)"
    "\<lambda>f p. Momentum_RecordPrice s p f" "\<lambda>f. mf_history f s" for s
  by unfold_locales (auto simp: momentum_inv_def Momentum_RecordPrice_def Let_def take_last_def)

lemma Momentum_maxLen [simp]: "mf_maxLen (Momentum_RecordPrice r p f) = mf_maxLen f"
  by (simp add: Momentum_RecordPrice_def Let_def)

lemma Momentum_other: "r \<noteq> s \<Longrightarrow> mf_history (Momentum_RecordPrice r p f) s = mf_history f s"
  by (simp add: Momentum_RecordPrice_def Let_def)

lemma momentum_inv_other: "r \<noteq> s \<Longrightarrow> momentum_inv s (Momentum_RecordPrice r p f) = momentum_inv s f"
  by (simp add: momentum_inv_def Momentum_other)

definition prices_of :: "string \<Rightarrow> (string \<times> decimal) list \<Rightarrow> decimal list" where
  "prices_of s obs = map snd (filter (\<lambda>(r, p). r = s) obs)"

definition record_all :: "MomentumFilter \<Rightarrow> (string \<times> decimal) list \<Rightarrow> MomentumFilter" where
  "record_all f obs = foldl (\<lambda>g (r, p). Momentum_RecordPrice r p g) f obs"

lemma record_all_history:
  assumes "momentum_inv s f"
  shows "momentum_inv s (record_all f obs) \<and> mf_maxLen (record_all f obs) = mf_maxLen f \<and>
    mf_history (record_all f obs) s = take_last (nat (mf_maxLen f)) (mf_history f s @ prices_of s obs)"
proof (induction obs rule: rev_induct)
  case Nil
  show ?case using momentum.log_contents [of s f "[]"] assms by (simp add: record_all_def prices_of_def)
next
  case (snoc o1 obs)
  let ?g = "record_all f obs"
  obtain r p where o1: "o1 = (r, p)" by force
  have ra: "record_all f (obs @ [(r, p)]) = Momentum_RecordPrice r p ?g" by (simp add: record_all_def)
  show ?case
  proof (cases "r = s")
    case True
    then show ?thesis unfolding o1 ra
      using momentum.inv_add [of s ?g p] momentum.contents_add [of s ?g p] snoc
        take_last_snoc [of "nat (mf_maxLen f)" "mf_history f s @ prices_of s obs" p]
      by (simp add: prices_of_def)
  next
    case False
    then show ?thesis unfolding o1 ra using snoc by (simp add: prices_of_def momentum_inv_other Momentum_other)
  qed
qed

lemma IsDowntrend_list:
  "IsDowntrend s f \<longleftrightarrow> (\<exists>ps a b c d. mf_history f s = ps @ [a, b, c, d] \<and> b < a \<and> c < b \<and> d < c)"
proof
  assume *: "IsDowntrend s f"
  let ?h = "mf_history f s"
  have n: "4 \<le> length ?h" using * by (auto simp: IsDowntrend_def Let_def split: if_splits)
  define tl where "tl = drop (length ?h - 4) ?h"
  have "length tl = 4" using n by (simp add: tl_def)
  then obtain a b c d where tl: "tl = [a, b, c, d]"
    by (auto simp: numeral_eq_Suc length_Suc_conv)
  then obtain ps where h: "?h = ps @ [a, b, c, d]" by (metis append_take_drop_id tl_def)
  have "b < a \<and> c < b \<and> d < c" using * by (simp add: IsDowntrend_def Let_def h nth_append)
  with h show "\<exists>ps a b c d. ?h = ps @ [a, b, c, d] \<and> b < a \<and> c < b \<and> d < c" by blast
next
  assume "\<exists>ps a b c d. mf_history f s = ps @ [a, b, c, d] \<and> b < a \<and> c < b \<and> d < c"
  then show "IsDowntrend s f" by (auto simp: IsDowntrend_def Let_def nth_append)
qed

lemma suffix_of_take_last:
  assumes "length ys \<le> n"
  shows "(\<exists>ps. take_last n xs = ps @ ys) \<longleftrightarrow> (\<exists>ps. xs = ps @ ys)"
proof
  assume "\<exists>ps. take_last n xs = ps @ ys"
  then obtain ps where "take_last n xs = ps @ ys" by blast
  then have "xs = (take (length xs - n) xs @ ps) @ ys"
    using append_take_drop_id [of "length xs - n" xs] by (simp add: take_last_def)
  then show "\<exists>ps. xs = ps @ ys" by blast
next
  assume "\<exists>ps. xs = ps @ ys"
  with assms show "\<exists>ps. take_last n xs = ps @ ys" by (auto simp: take_last_def drop_append)
qed

lemma downtrend_facts:
  "IsDowntrend s (record_all (NewMomentumFilter n) obs) =
     (\<exists>ps a b c d. prices_of s obs = ps @ [a, b, c, d] \<and> b < a \<and> c < b \<and> d < c) \<and>
   HasEnoughData s (record_all (NewMomentumFilter n) obs) = (4 \<le> length (prices_of s obs))"
proof -
  let ?f = "NewMomentumFilter n"
  let ?m = "nat (mf_maxLen ?f)"
  have inv: "momentum_inv s ?f" and m: "4 \<le> ?m" and e: "mf_history ?f s = []"
    by (auto simp: momentum_inv_def NewMomentumFilter_def)
  have h: "mf_history (record_all ?f obs) s = take_last ?m (prices_of s obs)"
    using record_all_history [OF inv, of obs] e by simp
  have "(\<exists>ps. take_last ?m (prices_of s obs) = ps @ [a, b, c, d]) = (\<exists>ps. prices_of s obs = ps @ [a, b, c, d])"
    for a b c d by (rule suffix_of_take_last) (use m in simp)
  then have "IsDowntrend s (record_all ?f obs) =
      (\<exists>ps a b c d. prices_of s obs = ps @ [a, b, c, d] \<and> b < a \<and> c < b \<and> d < c)"
    unfolding IsDowntrend_list h by blast
  moreover have "HasEnoughData s (record_all ?f obs) = (4 \<le> length (prices_of s obs))"
    using m by (simp add: HasEnoughData_def h take_last_def) linarith
  ultimately show ?thesis by blast
qed

lemmas downtrend_exact_trend = downtrend_facts [THEN conjunct1]
lemmas downtrend_exact_data = downtrend_facts [THEN conjunct2]

text \<open>A downtrend of a symbol is reported exactly when the last four prices recorded for it fall strictly, however
  the observations of the symbols interleave; before the fourth price no decision is possible.\<close>

theorem downtrend_exact:
  "IsDowntrend s (record_all (NewMomentumFilter n) obs) =
     (\<exists>ps a b c d. prices_of s obs = ps @ [a, b, c, d] \<and> b < a \<and> c < b \<and> d < c) \<and>
   HasEnoughData s (record_all (NewMomentumFilter n) obs) = (4 \<le> length (prices_of s obs))"
  by (rule downtrend_facts)

end
