(* ===== verification/FillHandler.thy ===== *)
theory FillHandler
  imports Inventory SafeStop
begin

text \<open>
  The fill handler of the private stream (\<open>src/internal/execution/fill_handler.go\<close>) and the gated
  callback through which \<open>src/cmd/main.go\<close> calls it. The inventory tracker is shared with other
  components, so it is passed in and out. The REST client's limiter and server are arguments, as are
  \<open>decimal.NewFromString\<close> (\<open>dparse\<close>) and the clock. What is only logged is the result \<open>fh_outcome\<close>.
\<close>

section \<open>Symbols\<close>

text \<open>\<open>strings.Contains\<close>.\<close>

definition Contains :: "string \<Rightarrow> string \<Rightarrow> bool" where
  "Contains s sub = list_ex (\<lambda>i. take (length sub) (drop i s) = sub) [0..<length s + 1]"

lemma Contains_iff: "Contains s sub \<longleftrightarrow> (\<exists>ps ss. s = ps @ sub @ ss)"
proof
  assume "Contains s sub"
  then obtain i where i: "take (length sub) (drop i s) = sub" by (auto simp: Contains_def list_ex_iff)
  have "s = take i s @ take (length sub) (drop i s) @ drop (length sub) (drop i s)"
    by (simp only: append_take_drop_id)
  then show "\<exists>ps ss. s = ps @ sub @ ss" unfolding i by blast
next
  assume "\<exists>ps ss. s = ps @ sub @ ss"
  then obtain ps ss where "s = ps @ sub @ ss" by blast
  then show "Contains s sub"
    unfolding Contains_def list_ex_iff by (intro bexI [of _ "length ps"]) auto
qed

text \<open>The number of decimal places of \<open>roundPriceForSymbol\<close>; the first match counts.\<close>

definition price_places :: "string \<Rightarrow> nat" where
  "price_places symbol =
     (if Contains symbol ''BTC'' then 1
      else if Contains symbol ''ETH'' then 2
      else if Contains symbol ''DOGE'' then 5
      else if Contains symbol ''PEPE'' then 10
      else if Contains symbol ''WIF'' then 4
      else if Contains symbol ''KOR'' then 4
      else 5)"

definition roundPriceForSymbol :: "declib \<Rightarrow> decimal \<Rightarrow> string \<Rightarrow> decimal" where
  "roundPriceForSymbol L price symbol = dl_round L price (price_places symbol)"

definition getTickSizeForFillHandler :: "string \<Rightarrow> decimal" where
  "getTickSizeForFillHandler symbol =
     (if Contains symbol ''DOGE'' then 1 / 100000
      else if Contains symbol ''WIF'' then 1 / 10000
      else if Contains symbol ''BTC'' then 1 / 10
      else if Contains symbol ''ETH'' then 1 / 100
      else 1 / 100000)"

section \<open>The handler\<close>

record GridFillHandler =
  gh_gridConfigs :: "GridConfig list"
  gh_gridLevels :: "string \<rightharpoonup> decimal list"

definition NewGridFillHandler :: "GridConfig list \<Rightarrow> (string \<rightharpoonup> decimal list) \<Rightarrow> GridFillHandler" where
  "NewGridFillHandler cfgs levels = \<lparr>gh_gridConfigs = cfgs, gh_gridLevels = levels\<rparr>"

definition UpdateGridLevels :: "string \<Rightarrow> decimal list \<Rightarrow> GridFillHandler \<Rightarrow> GridFillHandler" where
  "UpdateGridLevels symbol levels h = h\<lparr>gh_gridLevels := (gh_gridLevels h)(symbol \<mapsto> levels)\<rparr>"

definition findNearestLevel :: "decimal list \<Rightarrow> decimal \<Rightarrow> int" where
  "findNearestLevel levels price =
     (if levels = [] then -1
      else
        let idx = sort_search (length levels) (\<lambda>i. levels ! i \<ge> price) in
        if idx = 0 then 0
        else if idx \<ge> length levels then int (length levels) - 1
        else
          let diffLower = \<bar>price - levels ! (idx - 1)\<bar>; diffUpper = \<bar>levels ! idx - price\<bar>
          in if diffLower \<le> diffUpper then int idx - 1 else int idx)"

record fill_message =
  fm_instId :: string
  fm_side :: string
  fm_fillPx :: string
  fm_fillSz :: string
  fm_ordId :: string
  fm_state :: string

datatype fh_outcome =
    FhBlocked block_reason
  | FhBadPrice
  | FhBadSize
  | FhUnknownSide string
  | FhPlaceFailed api_error
  | FhRejected "api_reason option"
  | FhPlaced string

text \<open>The first configuration of the instrument decides the quantity.\<close>

definition counter_size :: "GridConfig list \<Rightarrow> string \<Rightarrow> string \<Rightarrow> decimal \<Rightarrow> decimal" where
  "counter_size cfgs instId side qty =
     (case find (\<lambda>cfg. gc_Symbol cfg = instId) cfgs of
        None \<Rightarrow> qty
      | Some cfg \<Rightarrow> if side = ''buy'' then qty * (1 - gc_FeeRate cfg) else gc_OrderSize cfg)"

definition counter_id :: "Side \<Rightarrow> int \<Rightarrow> string" where
  "counter_id side nanos = ''tb1'' @ take 1 (Side_String side) @ fmt_d (nanos mod 10000000000)"

definition counter_request ::
  "declib \<Rightarrow> GridFillHandler \<Rightarrow> fill_message \<Rightarrow> int \<Rightarrow> decimal \<Rightarrow> decimal \<Rightarrow> Side \<Rightarrow> decimal \<Rightarrow> ExecOrderRequest" where
  "counter_request L h m nanos price qty side target =
     \<lparr>eq_Symbol = fm_instId m, eq_Side = side, eq_OrderType = OrderTypePostOnly,
      eq_Price = roundPriceForSymbol L target (fm_instId m),
      eq_Quantity = counter_size (gh_gridConfigs h) (fm_instId m) (fm_side m) qty, eq_StrategyID = [],
      eq_GridLevel = findNearestLevel (case gh_gridLevels h (fm_instId m) of None \<Rightarrow> [] | Some ls \<Rightarrow> ls) price,
      eq_ClientOrderID = counter_id side nanos\<rparr>"

definition placement_outcome :: "OrderResult option \<times> api_error option \<Rightarrow> fh_outcome" where
  "placement_outcome r =
     (case r of
        (_, Some e) \<Rightarrow> FhPlaceFailed e
      | (Some res, None) \<Rightarrow> if or_Success res then FhPlaced (or_ExchangeOrderID res) else FhRejected (or_Error res)
      | (None, None) \<Rightarrow> FhRejected None)"

text \<open>\<open>tracker = None\<close> is a handler without a tracker. The request is what is handed to \<open>PlaceOrder\<close>.\<close>

definition OnFill ::
  "declib \<Rightarrow> decparse \<Rightarrow> (ExecOrderRequest \<Rightarrow> OrderResult option \<times> api_error option) \<Rightarrow> time \<Rightarrow> int \<Rightarrow>
    GridFillHandler \<Rightarrow> fill_message \<Rightarrow> InventoryTracker option \<Rightarrow>
    InventoryTracker option \<times> ExecOrderRequest option \<times> fh_outcome" where
  "OnFill L dparse place now nanos h m tracker =
     (case dparse (fm_fillPx m) of
        None \<Rightarrow> (tracker, None, FhBadPrice)
      | Some price \<Rightarrow>
          (case dparse (fm_fillSz m) of
             None \<Rightarrow> (tracker, None, FhBadSize)
           | Some qty \<Rightarrow>
               if fm_side m = ''buy'' then
                 let req = counter_request L h m nanos price qty SideSell (price * (101 / 100))
                 in (map_option (RecordBuy now (fm_instId m) price qty (fm_ordId m)) tracker, Some req,
                     placement_outcome (place req))
               else if fm_side m = ''sell'' then
                 let req = counter_request L h m nanos price qty SideBuy (price * (99 / 100))
                 in (map_option (ClearPosition (fm_instId m)) tracker, Some req, placement_outcome (place req))
               else (tracker, None, FhUnknownSide (fm_side m))))"

text \<open>The callback that \<open>startPrivateWSFillHandler\<close> registers.\<close>

definition fill_callback ::
  "declib \<Rightarrow> decparse \<Rightarrow> (ExecOrderRequest \<Rightarrow> OrderResult option \<times> api_error option) \<Rightarrow> time \<Rightarrow> int \<Rightarrow>
    TradingGate \<Rightarrow> GridFillHandler \<Rightarrow> fill_message \<Rightarrow> InventoryTracker option \<Rightarrow>
    InventoryTracker option \<times> ExecOrderRequest option \<times> fh_outcome" where
  "fill_callback L dparse place now nanos gate h m tracker =
     (let riskClass = (if fm_side m = ''sell'' then RiskIncreasing else RiskReducing);
          decision = Authorize gate (fm_instId m) riskClass
      in if \<not> gd_Allowed decision then (tracker, None, FhBlocked (gd_BlockReason decision))
         else OnFill L dparse place now nanos h m tracker)"

section \<open>The nearest level\<close>

lemma sorted_abs_left:
  fixes p :: decimal
  assumes "sorted levels" and "j \<le> i" and "i < length levels" and "levels ! i \<le> p"
  shows "\<bar>levels ! i - p\<bar> \<le> \<bar>levels ! j - p\<bar>"
proof -
  have "levels ! j \<le> levels ! i" using assms by (simp add: sorted_nth_mono)
  with assms(4) show ?thesis by linarith
qed

lemma sorted_abs_right:
  fixes p :: decimal
  assumes "sorted levels" and "i \<le> j" and "j < length levels" and "p \<le> levels ! i"
  shows "\<bar>levels ! i - p\<bar> \<le> \<bar>levels ! j - p\<bar>"
proof -
  have "levels ! i \<le> levels ! j" using assms by (simp add: sorted_nth_mono)
  with assms(4) show ?thesis by linarith
qed

text \<open>On an ascending list of levels the index found is that of a level nearest to the price.\<close>

theorem findNearestLevel_nearest:
  assumes "sorted levels" and "levels \<noteq> []"
  shows "0 \<le> findNearestLevel levels price \<and> nat (findNearestLevel levels price) < length levels \<and>
    (\<forall>j < length levels. \<bar>levels ! nat (findNearestLevel levels price) - price\<bar> \<le> \<bar>levels ! j - price\<bar>)"
proof -
  let ?n = "length levels" and ?f = "\<lambda>i. levels ! i \<ge> price"
  define idx where "idx = sort_search ?n ?f"
  have mono: "?f b" if "a \<le> b" "b < ?n" "?f a" for a b
    using sorted_nth_mono [OF assms(1), of a b] that by simp
  have below: "levels ! k < price" if "k < idx" for k
    using sort_search_spec(2) [of ?n ?f k, OF mono] that unfolding idx_def by force
  have above: "price \<le> levels ! k" if "idx \<le> k" "k < ?n" for k
    using sort_search_spec(3) [of ?n ?f k, OF mono] that unfolding idx_def by force
  have n: "0 < ?n" using assms(2) by simp
  consider (low) "idx = 0" | (high) "0 < idx" "?n \<le> idx" | (mid) "0 < idx" "idx < ?n" by linarith
  then show ?thesis
  proof cases
    case low
    then have "findNearestLevel levels price = 0" using assms(2) by (simp add: findNearestLevel_def idx_def [symmetric] Let_def)
    then show ?thesis using n low above [of 0] sorted_abs_right [OF assms(1), of 0 _ price] by simp
  next
    case high
    moreover have "int (?n - 1) = int ?n - 1" using n by linarith
    ultimately have "findNearestLevel levels price = int (?n - 1)"
      using assms(2) by (simp add: findNearestLevel_def idx_def [symmetric] Let_def)
    moreover have "levels ! (?n - 1) \<le> price"
    proof -
      have "?n - 1 < idx" using high n by linarith
      then show ?thesis using below [of "?n - 1"] by simp
    qed
    ultimately have r: "findNearestLevel levels price = int (?n - 1)" and le: "levels ! (?n - 1) \<le> price" by simp_all
    have "\<bar>levels ! (?n - 1) - price\<bar> \<le> \<bar>levels ! j - price\<bar>" if "j < ?n" for j
      using sorted_abs_left [OF assms(1), of j "?n - 1" price] that n le by linarith
    then show ?thesis unfolding r nat_int using n by simp
  next
    case mid
    let ?lo = "\<bar>price - levels ! (idx - 1)\<bar>" and ?hi = "\<bar>levels ! idx - price\<bar>"
    have r: "findNearestLevel levels price = int (if ?lo \<le> ?hi then idx - 1 else idx)"
      using assms(2) mid by (simp add: findNearestLevel_def idx_def [symmetric] Let_def of_nat_diff)
    have le: "levels ! (idx - 1) \<le> price" "price \<le> levels ! idx"
      using below [of "idx - 1"] above [of idx] mid by auto
    have lo: "?lo \<le> \<bar>levels ! j - price\<bar>" if "j < idx" for j
      using sorted_abs_left [OF assms(1), of j "idx - 1" price] that mid le(1) by (simp add: abs_minus_commute)
    have hi: "?hi \<le> \<bar>levels ! j - price\<bar>" if "idx \<le> j" "j < ?n" for j
      using sorted_abs_right [OF assms(1), of idx j price] that le(2) by simp
    have "\<bar>levels ! (if ?lo \<le> ?hi then idx - 1 else idx) - price\<bar> \<le> \<bar>levels ! j - price\<bar>" if "j < ?n" for j
      using lo [of j] hi [of j] that by (cases "j < idx") (auto simp: abs_minus_commute)
    then show ?thesis unfolding r using mid by auto
  qed
qed

theorem findNearestLevel_nearest_witness:
  "findNearestLevel [100, 110, 120] 114 = 1 \<and>
   (\<forall>j < 3. \<bar>[100, 110, 120] ! nat (findNearestLevel [100, 110, 120] 114) - 114\<bar> \<le> \<bar>[100, 110, 120 :: rat] ! j - 114\<bar>)"
proof -
  have s: "sort_search 3 (\<lambda>i. [100, 110, 120 :: rat] ! i \<ge> 114) = 2"
    by (simp add: sort_search_def search_loop.simps)
  have n: "findNearestLevel [100, 110, 120] 114 = 1"
    using s by (simp add: findNearestLevel_def Let_def numeral_3_eq_3)
  have len: "length [100, 110, 120 :: rat] = 3" by simp
  show ?thesis using findNearestLevel_nearest [of "[100, 110, 120]" 114] unfolding n len by simp
qed

section \<open>Counter orders\<close>

definition half_place :: "string \<Rightarrow> decimal" where
  "half_place symbol = 1 / (2 * 10 ^ price_places symbol)"

lemma roundPrice_near:
  assumes "declib_ok L"
  shows "\<bar>roundPriceForSymbol L price symbol - price\<bar> \<le> half_place symbol"
  using declib_round [OF assms] by (simp add: roundPriceForSymbol_def half_place_def near_multiple_def)

text \<open>What a fill leads to: with parsable price and size and a known side exactly one post-only order on the other
  side goes out, one percent from the fill price up to rounding to the symbol's places. A BUY fill sells what is
  left of it after the fee and becomes the position; a SELL fill buys the configured size and ends the position.
  Anything else sends nothing and keeps the tracker.\<close>

theorem OnFill_counter:
  assumes "declib_ok L" and "OnFill L dparse place now nanos h m (Some tracker) = (tracker', req, out)"
  shows "case (dparse (fm_fillPx m), dparse (fm_fillSz m)) of
     (Some price, Some qty) \<Rightarrow>
       if fm_side m = ''buy'' then
         (\<exists>r t. req = Some r \<and> tracker' = Some t \<and> eq_Side r = SideSell \<and> eq_OrderType r = OrderTypePostOnly \<and>
            eq_Symbol r = fm_instId m \<and> \<bar>eq_Price r - 101 / 100 * price\<bar> \<le> half_place (fm_instId m) \<and>
            eq_Quantity r = qty * (1 - (case find (\<lambda>cfg. gc_Symbol cfg = fm_instId m) (gh_gridConfigs h) of
              None \<Rightarrow> 0 | Some cfg \<Rightarrow> gc_FeeRate cfg)) \<and>
            map_option pe_BuyPrice (GetPosition (fm_instId m) t) = Some price \<and>
            map_option pe_Quantity (GetPosition (fm_instId m) t) = Some qty \<and>
            out = placement_outcome (place r))
       else if fm_side m = ''sell'' then
         (\<exists>r t. req = Some r \<and> tracker' = Some t \<and> eq_Side r = SideBuy \<and> eq_OrderType r = OrderTypePostOnly \<and>
            eq_Symbol r = fm_instId m \<and> \<bar>eq_Price r - 99 / 100 * price\<bar> \<le> half_place (fm_instId m) \<and>
            eq_Quantity r = (case find (\<lambda>cfg. gc_Symbol cfg = fm_instId m) (gh_gridConfigs h) of
              None \<Rightarrow> qty | Some cfg \<Rightarrow> gc_OrderSize cfg) \<and>
            GetPosition (fm_instId m) t = None \<and> out = placement_outcome (place r))
       else req = None \<and> tracker' = Some tracker \<and> out = FhUnknownSide (fm_side m)
   | _ \<Rightarrow> req = None \<and> tracker' = Some tracker \<and> (out = FhBadPrice \<or> out = FhBadSize)"
  using assms(2) roundPrice_near [OF assms(1)]
  by (auto simp: OnFill_def counter_request_def counter_size_def mult.commute Let_def split: option.splits if_splits)

definition btc_grid :: GridConfig where
  "btc_grid = \<lparr>gc_Symbol = ''BTC-USDT'', gc_UpperPrice = 0, gc_LowerPrice = 0, gc_GridCount = 1,
     gc_GridType = GridTypeArithmetic, gc_OrderSize = 2, gc_MaxPosition = 0, gc_FeeRate = 1 / 1000,
     gc_TakeProfitRatio = 0, gc_StopLossRatio = 0, gc_ReinvestProfit = False, gc_Drift = None\<rparr>"

definition btc_fill :: "string \<Rightarrow> fill_message" where
  "btc_fill side = \<lparr>fm_instId = ''BTC-USDT'', fm_side = side, fm_fillPx = ''100'', fm_fillSz = ''2'',
     fm_ordId = ''7'', fm_state = ''filled''\<rparr>"

lemma btc_fields [simp]:
  "gc_Symbol btc_grid = ''BTC-USDT''" "gc_FeeRate btc_grid = 1 / 1000" "gc_OrderSize btc_grid = 2"
  "fm_instId (btc_fill side) = ''BTC-USDT''" "fm_side (btc_fill side) = side"
  "fm_fillPx (btc_fill side) = ''100''" "fm_fillSz (btc_fill side) = ''2''"
  "gh_gridConfigs (NewGridFillHandler cfgs levels) = cfgs"
  by (simp_all add: btc_grid_def btc_fill_def NewGridFillHandler_def)

definition sample_dparse :: decparse where
  "sample_dparse s = (if s = ''100'' then Some 100 else if s = ''2'' then Some 2 else None)"

definition accepts :: "ExecOrderRequest \<Rightarrow> OrderResult option \<times> api_error option" where
  "accepts r = (Some \<lparr>or_Success = True, or_OrderID = eq_ClientOrderID r, or_ExchangeOrderID = ''99'',
     or_Error = None, or_Status = OrderStatusPending\<rparr>, None)"

theorem OnFill_counter_witness:
  "\<exists>r t. OnFill std_declib sample_dparse accepts 5 17 (NewGridFillHandler [btc_grid] Map.empty) (btc_fill ''buy'')
      (Some (NewInventoryTracker 50)) = (Some t, Some r, FhPlaced ''99'') \<and> eq_Side r = SideSell \<and>
    \<bar>eq_Price r - 101\<bar> \<le> half_place ''BTC-USDT'' \<and> eq_Quantity r = 2 * (1 - 1 / 1000) \<and>
    map_option pe_Quantity (GetPosition ''BTC-USDT'' t) = Some 2"
proof -
  obtain tracker' req out where run: "OnFill std_declib sample_dparse accepts 5 17 (NewGridFillHandler [btc_grid] Map.empty)
      (btc_fill ''buy'') (Some (NewInventoryTracker 50)) = (tracker', req, out)" by (metis prod_cases3)
  show ?thesis
    using OnFill_counter [OF std_declib_ok run]
    by (auto simp: run sample_dparse_def placement_outcome_def accepts_def)
qed

section \<open>The gate\<close>

text \<open>A blocked fill has no effect at all; a BUY order only answers a SELL fill that the gate lets increase risk.\<close>

lemma fill_callback_guarded:
  assumes "fill_callback L dparse place now nanos gate h m tracker = (tracker', Some r, out)"
  shows "gd_Allowed (Authorize gate (fm_instId m) (if eq_Side r = SideBuy then RiskIncreasing else RiskReducing))"
  using assms by (auto simp: fill_callback_def OnFill_def counter_request_def Let_def split: if_splits option.splits)

lemma fill_callback_blocked:
  assumes "\<not> gd_Allowed (Authorize gate (fm_instId m) (if fm_side m = ''sell'' then RiskIncreasing else RiskReducing))"
  shows "\<exists>why. fill_callback L dparse place now nanos gate h m tracker = (tracker, None, FhBlocked why)"
  using assms by (simp add: fill_callback_def Let_def)

text \<open>
  The gate is asked before the inventory is updated, so the SELL fill of a stopped symbol does not end the
  position it has sold: the tracker keeps a holding that is gone.
\<close>

theorem blocked_sell_keeps_position:
  assumes "fm_side m = ''sell''" and "\<not> gd_Allowed (Authorize gate (fm_instId m) RiskIncreasing)"
    and "GetPosition (fm_instId m) tracker = Some pos"
  shows "\<exists>why. fill_callback L dparse place now nanos gate h m (Some tracker) = (Some tracker, None, FhBlocked why) \<and>
    HasPosition (fm_instId m) tracker"
  using assms by (simp add: fill_callback_def Let_def HasPosition_def GetPosition_def)

definition stopped_gate :: TradingGate where
  "stopped_gate = EnterSymbolSafeStop 0 ''BTC-USDT'' ''c'' [] (NewTradingGate None)"

theorem blocked_sell_keeps_position_witness:
  "\<exists>why. fill_callback std_declib sample_dparse accepts 5 17 stopped_gate (NewGridFillHandler [btc_grid] Map.empty)
      (btc_fill ''sell'') (Some (RecordBuy 0 ''BTC-USDT'' 99 2 ''1'' (NewInventoryTracker 50))) =
    (Some (RecordBuy 0 ''BTC-USDT'' 99 2 ''1'' (NewInventoryTracker 50)), None, FhBlocked why)"
proof -
  have side: "fm_side (btc_fill ''sell'') = ''sell''" by simp
  have blocked: "\<not> gd_Allowed (Authorize stopped_gate (fm_instId (btc_fill ''sell'')) RiskIncreasing)"
    by (simp add: stopped_gate_def Authorize_def EnterSymbolSafeStop_def put_symbol_def NewTradingGate_def
        getOrCreateSymbolState_def)
  show ?thesis
    using blocked_sell_keeps_position [OF side blocked, of "RecordBuy 0 ''BTC-USDT'' 99 2 ''1'' (NewInventoryTracker 50)"]
    by simp
qed

text \<open>Five places are too few for a cheap coin: the counter SELL of a fill at \<open>0.00001\<close> is rounded to the price paid.\<close>

lemma default_places_erase_spread:
  "roundPriceForSymbol std_declib (1 / 100000 * (101 / 100)) ''SHIB-USDT'' = 1 / 100000"
proof -
  have "\<lfloor>151 / 100 :: rat\<rfloor> = 1" by (rule floor_unique) simp_all
  then show ?thesis
    by (simp add: roundPriceForSymbol_def price_places_def Contains_def std_declib_def round_half_away_def)
qed

end
