(* ===== verification/MarketMaker.thy ===== *)
theory MarketMaker
  imports FillHandler Rebalancer
begin

text \<open>
  The market-making loop of \<open>src/cmd/main.go\<close> (\<open>inventoryRebalanceLoop\<close>) with the helpers it uses:
  precision and tick tables, order ids. One iteration over one configured symbol is one step
  (\<open>mm_symbol\<close>); the answers of the exchange and the clock are its argument. A failed listing yields
  no orders, and the answers to cancellations and placements are only logged, so none of them is an
  argument. What the loop sends is the list of effects. Decimal division by zero panics.
\<close>

section \<open>Symbols and order ids\<close>

definition containsStr :: "string \<Rightarrow> string \<Rightarrow> bool" where
  "containsStr s sub =
     list_ex (\<lambda>i. take (length sub) (drop i s) = sub) [0..<length s + 1 - length sub]"

definition getPricePrecision :: "string \<Rightarrow> nat" where
  "getPricePrecision symbol =
     (if containsStr symbol ''BTC'' then 1
      else if containsStr symbol ''ETH'' then 2
      else if containsStr symbol ''DOGE'' then 5
      else if containsStr symbol ''PEPE'' then 10
      else if containsStr symbol ''WIF'' then 4
      else if containsStr symbol ''KOR'' then 4
      else 5)"

definition getTickSize :: "string \<Rightarrow> decimal" where
  "getTickSize symbol =
     (if containsStr symbol ''DOGE'' then 1 / 100000
      else if containsStr symbol ''WIF'' then 1 / 10000
      else if containsStr symbol ''BTC'' then 1 / 10
      else if containsStr symbol ''ETH'' then 1 / 100
      else 1 / 100000)"

definition generateBotOrderID :: "string \<Rightarrow> int \<Rightarrow> string" where
  "generateBotOrderID side nanos =
     ''tb1'' @ (if side = ''sell'' then ''s'' else ''b'') @ fmt_d (nanos mod 10000000000)"

section \<open>The loop\<close>

datatype mm_effect = MmCancel OrderRef | MmPlace ExecOrderRequest

record mm_state =
  mm_inventory :: InventoryTracker
  mm_momentum :: MomentumFilter

record mm_answers =
  ma_ticker :: "TickerObservation option"
  ma_pending :: "ExchangeOrderInfo list"
  ma_now :: time
  ma_nanos :: int

definition owned_buy :: "ExchangeOrderInfo \<Rightarrow> bool" where
  "owned_buy ord = (isBotOwnedClientOrderID (ei_ClientOrderID ord) \<and> ei_Side ord = SideBuy)"

definition buy_request :: "GridConfig \<Rightarrow> decimal \<Rightarrow> int \<Rightarrow> ExecOrderRequest" where
  "buy_request cfg price nanos = \<lparr>eq_Symbol = gc_Symbol cfg, eq_Side = SideBuy, eq_OrderType = OrderTypePostOnly,
     eq_Price = price, eq_Quantity = gc_OrderSize cfg, eq_StrategyID = [], eq_GridLevel = 0,
     eq_ClientOrderID = generateBotOrderID ''buy'' nanos\<rparr>"

definition exit_request :: "OrderType \<Rightarrow> GridConfig \<Rightarrow> PositionEntry \<Rightarrow> decimal \<Rightarrow> int \<Rightarrow> ExecOrderRequest" where
  "exit_request ty cfg pos price nanos = \<lparr>eq_Symbol = gc_Symbol cfg, eq_Side = SideSell, eq_OrderType = ty,
     eq_Price = price, eq_Quantity = pe_Quantity pos * (1 - gc_FeeRate cfg), eq_StrategyID = [],
     eq_GridLevel = 0, eq_ClientOrderID = generateBotOrderID ''sell'' nanos\<rparr>"

definition ideal_buy_price :: "declib \<Rightarrow> string \<Rightarrow> TickerObservation \<Rightarrow> decimal" where
  "ideal_buy_price L symbol t = dl_round L (to_BestBid t - getTickSize symbol) (getPricePrecision symbol)"

text \<open>The symbol has no position: keep one BUY one tick under the best bid.\<close>

definition track_buy ::
  "declib \<Rightarrow> GridConfig \<Rightarrow> mm_answers \<Rightarrow> mm_state \<Rightarrow> (mm_state \<times> mm_effect list) outcome" where
  "track_buy L cfg ans w =
     (case ma_ticker ans of
        None \<Rightarrow> Returned (w, [])
      | Some t \<Rightarrow>
          if \<not> (0 < to_BestBid t) then Returned (w, [])
          else
            let symbol = gc_Symbol cfg;
                w1 = w\<lparr>mm_momentum := Momentum_RecordPrice symbol (to_Last t) (mm_momentum w)\<rparr>
            in
            if \<not> HasEnoughData symbol (mm_momentum w1) then Returned (w1, [])
            else if IsDowntrend symbol (mm_momentum w1)
            then Returned (w1, map (\<lambda>ord. MmCancel (order_ref symbol ord)) (filter owned_buy (ma_pending ans)))
            else if IsInventoryFull symbol (mm_inventory w1) then Returned (w1, [])
            else
              let ideal = ideal_buy_price L symbol t; req = buy_request cfg ideal (ma_nanos ans) in
              (case find owned_buy (ma_pending ans) of
                 None \<Rightarrow> Returned (w1, [MmPlace req])
               | Some ord \<Rightarrow>
                   if \<not> (0 < ei_Price ord) then Returned (w1, [])
                   else if ideal = 0 then Panicked
                   else if 1 / 1000 < dl_div L \<bar>ideal - ei_Price ord\<bar> ideal
                   then Returned (w1, [MmCancel (order_ref symbol ord), MmPlace req])
                   else Returned (w1, [])))"

definition cancel_owned :: "string \<Rightarrow> ExchangeOrderInfo list \<Rightarrow> mm_effect list" where
  "cancel_owned symbol pending =
     map (\<lambda>ord. MmCancel (order_ref symbol ord)) (filter (\<lambda>ord. isBotOwnedClientOrderID (ei_ClientOrderID ord)) pending)"

definition force_exit ::
  "GridConfig \<Rightarrow> mm_answers \<Rightarrow> PositionEntry \<Rightarrow> mm_state \<Rightarrow> mm_state \<times> mm_effect list" where
  "force_exit cfg ans pos w =
     (w\<lparr>mm_inventory := ClearPosition (gc_Symbol cfg) (mm_inventory w)\<rparr>,
      [MmPlace (exit_request OrderTypeMarket cfg pos 0 (ma_nanos ans))])"

definition decayed_price :: "duration \<Rightarrow> decimal \<Rightarrow> decimal" where
  "decayed_price elapsed buyPrice =
     (let p = (if elapsed < 6 * hour then buyPrice * (1008 / 1000) else buyPrice * (10067 / 10000));
          floorPrice = buyPrice * (1002 / 1000)
      in if p < floorPrice then floorPrice else p)"

text \<open>The symbol has a position: hard stop, force exit, exit under water, or a price that decays with time.\<close>

definition manage_position ::
  "declib \<Rightarrow> GridConfig \<Rightarrow> mm_answers \<Rightarrow> PositionEntry \<Rightarrow> mm_state \<Rightarrow> mm_state \<times> mm_effect list" where
  "manage_position L cfg ans pos w =
     (case ma_ticker ans of
        None \<Rightarrow> (w, [])
      | Some t \<Rightarrow>
          let symbol = gc_Symbol cfg; current = to_Last t; elapsed = ma_now ans - pe_BuyTime pos in
          if ShouldHardStop L symbol current (3 / 100) (mm_inventory w) then force_exit cfg ans pos w
          else if 12 * hour < elapsed then force_exit cfg ans pos w
          else
            let w1 = w\<lparr>mm_momentum := Momentum_RecordPrice symbol current (mm_momentum w)\<rparr>;
                replace = (\<lambda>price. cancel_owned symbol (ma_pending ans) @
                  [MmPlace (exit_request OrderTypePostOnly cfg pos
                     (dl_round L price (getPricePrecision symbol)) (ma_nanos ans))])
            in
            if current < pe_BuyPrice pos then (w1, replace (pe_BuyPrice pos * (1005 / 1000)))
            else if elapsed < 1 * hour then (w1, [])
            else (w1, replace (decayed_price elapsed (pe_BuyPrice pos))))"

definition mm_symbol ::
  "declib \<Rightarrow> string \<Rightarrow> GridConfig \<Rightarrow> mm_answers \<Rightarrow> mm_state \<Rightarrow> (mm_state \<times> mm_effect list) outcome" where
  "mm_symbol L tdMode cfg ans w =
     (case GetPosition (gc_Symbol cfg) (mm_inventory w) of
        None \<Rightarrow> if tdMode = ''cash'' \<and> gc_GridCount cfg = 1 then track_buy L cfg ans w else Returned (w, [])
      | Some pos \<Rightarrow> Returned (manage_position L cfg ans pos w))"

text \<open>One tick: all configured symbols in turn.\<close>

fun mm_tick ::
  "declib \<Rightarrow> string \<Rightarrow> (nat \<Rightarrow> mm_answers) \<Rightarrow> nat \<Rightarrow> GridConfig list \<Rightarrow> mm_state \<Rightarrow>
    (mm_state \<times> mm_effect list) outcome" where
  "mm_tick L tdMode answers i [] w = Returned (w, [])"
| "mm_tick L tdMode answers i (cfg # cfgs) w =
     (case mm_symbol L tdMode cfg (answers i) w of
        Panicked \<Rightarrow> Panicked
      | Returned (w1, es) \<Rightarrow>
          (case mm_tick L tdMode answers (Suc i) cfgs w1 of
             Panicked \<Rightarrow> Panicked
           | Returned (w2, fs) \<Rightarrow> Returned (w2, es @ fs)))"

section \<open>The tables of the two packages agree\<close>

lemma containsStr_Contains: "containsStr s sub = Contains s sub"
proof
  assume "containsStr s sub"
  then obtain i where "i < length s + 1 - length sub" and i: "take (length sub) (drop i s) = sub"
    by (auto simp: containsStr_def list_ex_iff)
  then have "i \<in> set [0..<length s + 1]" by simp linarith
  with i show "Contains s sub" unfolding Contains_def list_ex_iff by blast
next
  assume "Contains s sub"
  then obtain ps ss where "s = ps @ sub @ ss" by (auto simp: Contains_iff)
  then show "containsStr s sub"
    unfolding containsStr_def list_ex_iff by (intro bexI [of _ "length ps"]) auto
qed

theorem tables_agree:
  "getPricePrecision symbol = price_places symbol \<and> getTickSize symbol = getTickSizeForFillHandler symbol \<and>
   (containsStr symbol sub = (\<exists>ps ss. symbol = ps @ sub @ ss))"
  by (simp add: getPricePrecision_def price_places_def getTickSize_def getTickSizeForFillHandler_def
      containsStr_Contains Contains_iff [symmetric])

lemma precision_places [simp]: "getPricePrecision symbol = price_places symbol"
  by (simp add: getPricePrecision_def price_places_def containsStr_Contains)

lemma generated_id_owned: "isBotOwnedClientOrderID (generateBotOrderID side nanos)"
  by (simp add: isBotOwnedClientOrderID_def generateBotOrderID_def)

section \<open>What one iteration may do\<close>

fun mm_placements :: "mm_effect list \<Rightarrow> ExecOrderRequest list" where
  "mm_placements [] = []"
| "mm_placements (MmPlace r # es) = r # mm_placements es"
| "mm_placements (MmCancel _ # es) = mm_placements es"

lemma mm_placements_append [simp]: "mm_placements (es @ fs) = mm_placements es @ mm_placements fs"
  by (induction es rule: mm_placements.induct) auto

lemma mm_placements_cancels [simp]: "mm_placements (map (\<lambda>x. MmCancel (f x)) xs) = []"
  by (induction xs) auto

lemma mm_placements_owned [simp]: "mm_placements (cancel_owned symbol pending) = []"
  by (simp add: cancel_owned_def)

lemma set_cancel_owned:
  "MmCancel r \<in> set (cancel_owned symbol pending) \<Longrightarrow>
    \<exists>ord \<in> set pending. isBotOwnedClientOrderID (ei_ClientOrderID ord) \<and> r = order_ref symbol ord"
  by (auto simp: cancel_owned_def)

definition sound_cancels :: "string \<Rightarrow> ExchangeOrderInfo list \<Rightarrow> mm_effect list \<Rightarrow> bool" where
  "sound_cancels symbol pending es \<longleftrightarrow> (\<forall>r. MmCancel r \<in> set es \<longrightarrow>
     (\<exists>ord \<in> set pending. isBotOwnedClientOrderID (ei_ClientOrderID ord) \<and> r = order_ref symbol ord))"

definition sound_buy :: "GridConfig \<Rightarrow> TickerObservation \<Rightarrow> mm_state \<Rightarrow> ExecOrderRequest \<Rightarrow> bool" where
  "sound_buy cfg t w' r \<longleftrightarrow> eq_OrderType r = OrderTypePostOnly \<and> eq_Quantity r = gc_OrderSize cfg \<and>
     0 < to_BestBid t \<and> HasEnoughData (gc_Symbol cfg) (mm_momentum w') \<and>
     \<not> IsDowntrend (gc_Symbol cfg) (mm_momentum w') \<and>
     \<bar>eq_Price r - (to_BestBid t - getTickSize (gc_Symbol cfg))\<bar> \<le> half_place (gc_Symbol cfg)"

definition must_exit :: "declib \<Rightarrow> GridConfig \<Rightarrow> time \<Rightarrow> TickerObservation \<Rightarrow> PositionEntry \<Rightarrow> mm_state \<Rightarrow> bool" where
  "must_exit L cfg now t pos w \<longleftrightarrow>
     ShouldHardStop L (gc_Symbol cfg) (to_Last t) (3 / 100) (mm_inventory w) \<or> 12 * hour < now - pe_BuyTime pos"

definition sound_sell ::
  "declib \<Rightarrow> GridConfig \<Rightarrow> time \<Rightarrow> TickerObservation \<Rightarrow> PositionEntry \<Rightarrow> mm_state \<Rightarrow> mm_state \<Rightarrow> ExecOrderRequest \<Rightarrow> bool" where
  "sound_sell L cfg now t pos w w' r \<longleftrightarrow> eq_Quantity r = pe_Quantity pos * (1 - gc_FeeRate cfg) \<and>
     (if must_exit L cfg now t pos w
      then eq_OrderType r = OrderTypeMarket \<and> GetPosition (gc_Symbol cfg) (mm_inventory w') = None
      else eq_OrderType r = OrderTypePostOnly \<and> mm_inventory w' = mm_inventory w \<and>
        1005 / 1000 * pe_BuyPrice pos - half_place (gc_Symbol cfg) \<le> eq_Price r)"

definition sound_iteration ::
  "declib \<Rightarrow> string \<Rightarrow> GridConfig \<Rightarrow> mm_answers \<Rightarrow> mm_state \<Rightarrow> mm_state \<Rightarrow> mm_effect list \<Rightarrow> bool" where
  "sound_iteration L tdMode cfg ans w w' es \<longleftrightarrow>
     sound_cancels (gc_Symbol cfg) (ma_pending ans) es \<and> length (mm_placements es) \<le> 1 \<and>
     (\<forall>r \<in> set (mm_placements es). eq_Symbol r = gc_Symbol cfg \<and> last es = MmPlace r \<and>
        isBotOwnedClientOrderID (eq_ClientOrderID r) \<and>
        (\<exists>t. ma_ticker ans = Some t \<and>
          (case GetPosition (gc_Symbol cfg) (mm_inventory w) of
             None \<Rightarrow> eq_Side r = SideBuy \<and> tdMode = ''cash'' \<and> gc_GridCount cfg = 1 \<and> sound_buy cfg t w' r \<and>
               mm_inventory w' = mm_inventory w
           | Some pos \<Rightarrow> eq_Side r = SideSell \<and> sound_sell L cfg (ma_now ans) t pos w w' r)))"

lemma request_fields [simp]:
  "eq_Symbol (buy_request cfg p n) = gc_Symbol cfg" "eq_Side (buy_request cfg p n) = SideBuy"
  "eq_OrderType (buy_request cfg p n) = OrderTypePostOnly" "eq_Price (buy_request cfg p n) = p"
  "eq_Quantity (buy_request cfg p n) = gc_OrderSize cfg"
  "isBotOwnedClientOrderID (eq_ClientOrderID (buy_request cfg p n))"
  "eq_Symbol (exit_request ty cfg pos p n) = gc_Symbol cfg" "eq_Side (exit_request ty cfg pos p n) = SideSell"
  "eq_OrderType (exit_request ty cfg pos p n) = ty" "eq_Price (exit_request ty cfg pos p n) = p"
  "eq_Quantity (exit_request ty cfg pos p n) = pe_Quantity pos * (1 - gc_FeeRate cfg)"
  "isBotOwnedClientOrderID (eq_ClientOrderID (exit_request ty cfg pos p n))"
  by (simp_all add: buy_request_def exit_request_def generated_id_owned)

lemma dl_round_near:
  "declib_ok L \<Longrightarrow> \<bar>dl_round L p (price_places s) - p\<bar> \<le> half_place s"
  using declib_round [of L "price_places s" p] by (simp add: half_place_def near_multiple_def)

lemma track_buy_sound:
  assumes "declib_ok L" and "track_buy L cfg ans w = Returned (w', es)"
    and "GetPosition (gc_Symbol cfg) (mm_inventory w) = None" and "tdMode = ''cash''" and "gc_GridCount cfg = 1"
  shows "sound_iteration L tdMode cfg ans w w' es"
proof -
  have near: "\<bar>ideal_buy_price L (gc_Symbol cfg) t - (to_BestBid t - getTickSize (gc_Symbol cfg))\<bar> \<le>
      half_place (gc_Symbol cfg)" for t
    using dl_round_near [OF assms(1)] by (simp add: ideal_buy_price_def)
  have owned: "isBotOwnedClientOrderID (ei_ClientOrderID ord) \<and> ord \<in> set (ma_pending ans)"
    if "find owned_buy (ma_pending ans) = Some ord" for ord
    using that by (auto simp: find_Some_iff owned_buy_def)
  show ?thesis
    using assms(2-) near owned
    by (auto simp: track_buy_def sound_iteration_def sound_cancels_def sound_buy_def owned_buy_def Let_def
        split: option.splits if_splits)
qed

lemma decayed_price_ge: "0 \<le> p \<Longrightarrow> 1005 / 1000 * p \<le> decayed_price elapsed p"
  by (simp add: decayed_price_def Let_def)

lemma manage_position_sound:
  assumes "declib_ok L" and "manage_position L cfg ans pos w = (w', es)"
    and "GetPosition (gc_Symbol cfg) (mm_inventory w) = Some pos" and "0 \<le> pe_BuyPrice pos"
  shows "sound_iteration L tdMode cfg ans w w' es"
proof (cases "ma_ticker ans")
  case None
  then show ?thesis using assms(2) by (simp add: manage_position_def sound_iteration_def sound_cancels_def)
next
  case (Some t)
  let ?s = "gc_Symbol cfg" and ?p = "pe_BuyPrice pos" and ?e = "ma_now ans - pe_BuyTime pos"
  have ge: "1005 / 1000 * ?p - half_place ?s \<le> dl_round L q (price_places ?s)" if "1005 / 1000 * ?p \<le> q" for q
    using dl_round_near [OF assms(1), of q ?s] that by linarith
  have skew: "1005 / 1000 * ?p - half_place ?s \<le> dl_round L (?p * (1005 / 1000)) (price_places ?s)"
    by (rule ge) simp
  have decay: "1005 / 1000 * ?p - half_place ?s \<le> dl_round L (decayed_price ?e ?p) (price_places ?s)"
    by (rule ge) (rule decayed_price_ge [OF assms(4)])
  have cancels: "sound_cancels ?s (ma_pending ans) (cancel_owned ?s (ma_pending ans) @ [MmPlace r])" for r
    using set_cancel_owned by (fastforce simp: sound_cancels_def)
  show ?thesis
  proof (cases "must_exit L cfg (ma_now ans) t pos w")
    case True
    then have "(w', es) = force_exit cfg ans pos w"
      using assms(2) Some by (auto simp: manage_position_def must_exit_def Let_def split: if_splits)
    then show ?thesis
      using True Some assms(3)
      by (auto simp: force_exit_def sound_iteration_def sound_cancels_def sound_sell_def)
  next
    case False
    with assms(2) Some have r: "es = [] \<or> (\<exists>q. es = cancel_owned ?s (ma_pending ans) @
        [MmPlace (exit_request OrderTypePostOnly cfg pos (dl_round L q (price_places ?s)) (ma_nanos ans))] \<and>
        1005 / 1000 * ?p - half_place ?s \<le> dl_round L q (price_places ?s))"
      and inv: "mm_inventory w' = mm_inventory w"
      using skew decay by (auto simp: manage_position_def must_exit_def Let_def split: if_splits)
    then show ?thesis
      using Some False assms(3) cancels
      by (elim disjE exE conjE) (simp_all add: sound_iteration_def sound_sell_def, simp add: sound_cancels_def)
  qed
qed

text \<open>C32: The safety of one iteration: cancellations only of listed orders of the bot; at most one placement, the
  last effect, with an id of the bot; a BUY only without a position, in single-grid cash mode, after the
  warm-up and outside a downtrend, post-only at one tick under the best bid; a SELL only of the position
  less the fee, at market exactly when the hard stop or the twelve hours force it, and otherwise
  post-only at half a percent above cost or more (prices up to the rounding to the symbol's places).
\<close>

theorem mm_symbol_sound:
  assumes "declib_ok L" and "mm_symbol L tdMode cfg ans w = Returned (w', es)"
    and "\<And>pos. GetPosition (gc_Symbol cfg) (mm_inventory w) = Some pos \<Longrightarrow> 0 \<le> pe_BuyPrice pos"
  shows "sound_iteration L tdMode cfg ans w w' es"
proof (cases "GetPosition (gc_Symbol cfg) (mm_inventory w)")
  case None
  show ?thesis
  proof (cases "tdMode = ''cash'' \<and> gc_GridCount cfg = 1")
    case True
    with assms(2) None have "track_buy L cfg ans w = Returned (w', es)" by (simp add: mm_symbol_def)
    with True None show ?thesis using track_buy_sound [OF assms(1)] by blast
  next
    case False
    then show ?thesis using assms(2) None by (auto simp: mm_symbol_def sound_iteration_def sound_cancels_def)
  qed
next
  case (Some pos)
  then show ?thesis
    using manage_position_sound [OF assms(1), of cfg ans pos w w' es] assms(2,3) by (simp add: mm_symbol_def)
qed

definition mm_ticker :: "decimal \<Rightarrow> decimal \<Rightarrow> TickerObservation" where
  "mm_ticker bid lst = \<lparr>to_Symbol = ''BTC-USDT'', to_Last = lst, to_BestBid = bid, to_BestAsk = bid,
     to_High24h = lst, to_Low24h = lst, to_ExchangeTimestamp = 0, to_ReceivedAt = 0\<rparr>"

definition mm_holding :: mm_state where
  "mm_holding = \<lparr>mm_inventory = RecordBuy 0 ''BTC-USDT'' 100 2 ''1'' (NewInventoryTracker 50),
     mm_momentum = NewMomentumFilter 6\<rparr>"

lemma mm_ticker_fields [simp]: "to_Last (mm_ticker bid lst) = lst" "to_BestBid (mm_ticker bid lst) = bid"
  by (simp_all add: mm_ticker_def)

text \<open>A position under water by one percent is offered at half a percent above cost.\<close>

theorem mm_symbol_sound_witness:
  "\<exists>w'. mm_symbol std_declib ''cash'' btc_grid \<lparr>ma_ticker = Some (mm_ticker 99 99), ma_pending = [], ma_now = 7, ma_nanos = 8\<rparr>
      mm_holding = Returned (w', [MmPlace (exit_request OrderTypePostOnly btc_grid
        \<lparr>pe_Symbol = ''BTC-USDT'', pe_BuyPrice = 100, pe_Quantity = 2, pe_BuyTime = 0, pe_OrderID = ''1''\<rparr> (1005 / 10) 8)]) \<and>
    sound_iteration std_declib ''cash'' btc_grid
      \<lparr>ma_ticker = Some (mm_ticker 99 99), ma_pending = [], ma_now = 7, ma_nanos = 8\<rparr> mm_holding w'
      [MmPlace (exit_request OrderTypePostOnly btc_grid
        \<lparr>pe_Symbol = ''BTC-USDT'', pe_BuyPrice = 100, pe_Quantity = 2, pe_BuyTime = 0, pe_OrderID = ''1''\<rparr> (1005 / 10) 8)]"
proof -
  have places: "price_places ''BTC-USDT'' = 1" by (simp add: price_places_def Contains_def)
  have "\<lfloor>2011 / 2 :: rat\<rfloor> = 1005" and "\<lfloor>201 / 2 :: rat\<rfloor> = 100"
    by (rule floor_unique, simp_all)+
  then have run: "\<exists>w'. mm_symbol std_declib ''cash'' btc_grid
      \<lparr>ma_ticker = Some (mm_ticker 99 99), ma_pending = [], ma_now = 7, ma_nanos = 8\<rparr>
      mm_holding = Returned (w', [MmPlace (exit_request OrderTypePostOnly btc_grid
        \<lparr>pe_Symbol = ''BTC-USDT'', pe_BuyPrice = 100, pe_Quantity = 2, pe_BuyTime = 0, pe_OrderID = ''1''\<rparr> (1005 / 10) 8)])"
    by (simp add: mm_symbol_def mm_holding_def manage_position_def ShouldHardStop_def GetPosition_def RecordBuy_def
        cancel_owned_def hour_def Let_def places std_declib_def round_half_away_def)
  have pos: "0 \<le> pe_BuyPrice pos" if "GetPosition (gc_Symbol btc_grid) (mm_inventory mm_holding) = Some pos" for pos
    using that by (auto simp: mm_holding_def)
  from run obtain w' where w': "mm_symbol std_declib ''cash'' btc_grid
      \<lparr>ma_ticker = Some (mm_ticker 99 99), ma_pending = [], ma_now = 7, ma_nanos = 8\<rparr>
      mm_holding = Returned (w', [MmPlace (exit_request OrderTypePostOnly btc_grid
        \<lparr>pe_Symbol = ''BTC-USDT'', pe_BuyPrice = 100, pe_Quantity = 2, pe_BuyTime = 0, pe_OrderID = ''1''\<rparr> (1005 / 10) 8)])" ..
  show ?thesis
    by (intro exI [of _ w'] conjI w' mm_symbol_sound [OF std_declib_ok w'] pos)
qed

section \<open>Exits\<close>

text \<open>After an iteration with a ticker the position, if one remains, is at most twelve hours old and not beyond the
  hard stop; an exit sends one market order for it and nothing else.\<close>

theorem mm_symbol_exits:
  assumes "mm_symbol L tdMode cfg ans w = Returned (w', es)" and "ma_ticker ans = Some t"
    and "GetPosition (gc_Symbol cfg) (mm_inventory w) = Some pos"
  shows "(if must_exit L cfg (ma_now ans) t pos w
     then GetPosition (gc_Symbol cfg) (mm_inventory w') = None \<and>
       es = [MmPlace (exit_request OrderTypeMarket cfg pos 0 (ma_nanos ans))]
     else GetPosition (gc_Symbol cfg) (mm_inventory w') = Some pos \<and>
       ma_now ans - pe_BuyTime pos \<le> 12 * hour \<and>
       \<not> ShouldHardStop L (gc_Symbol cfg) (to_Last t) (3 / 100) (mm_inventory w'))"
  using assms
  by (auto simp: mm_symbol_def manage_position_def must_exit_def force_exit_def Let_def split: if_splits)

theorem mm_symbol_exits_witness:
  "\<exists>w' es. mm_symbol std_declib ''cash'' btc_grid
      \<lparr>ma_ticker = Some (mm_ticker 100 100), ma_pending = [], ma_now = 13 * hour, ma_nanos = 8\<rparr> mm_holding = Returned (w', es) \<and>
    GetPosition ''BTC-USDT'' (mm_inventory w') = None \<and> length es = 1"
proof -
  let ?ans = "\<lparr>ma_ticker = Some (mm_ticker 100 100), ma_pending = [], ma_now = 13 * hour, ma_nanos = 8\<rparr>"
  let ?pos = "\<lparr>pe_Symbol = ''BTC-USDT'', pe_BuyPrice = 100, pe_Quantity = 2, pe_BuyTime = 0, pe_OrderID = ''1''\<rparr>"
  have pos: "GetPosition (gc_Symbol btc_grid) (mm_inventory mm_holding) = Some ?pos" by (simp add: mm_holding_def)
  have tick: "ma_ticker ?ans = Some (mm_ticker 100 100)" by simp
  obtain w' es where run: "mm_symbol std_declib ''cash'' btc_grid ?ans mm_holding = Returned (w', es)"
    by (simp add: mm_symbol_def pos [simplified]) (metis surj_pair)
  have exit: "must_exit std_declib btc_grid (ma_now ?ans) (mm_ticker 100 100) ?pos mm_holding"
    by (simp add: must_exit_def hour_def)
  show ?thesis
    using mm_symbol_exits [OF run tick pos] run exit by (intro exI [of _ w'] exI [of _ es]) simp
qed

text \<open>In a downtrend every listed BUY of the bot is cancelled and none is placed.\<close>

lemma downtrend_stops_buying:
  assumes "mm_symbol L ''cash'' cfg ans w = Returned (w', es)" and "gc_GridCount cfg = 1"
    and "GetPosition (gc_Symbol cfg) (mm_inventory w) = None"
    and "ma_ticker ans = Some t" and "0 < to_BestBid t"
    and "IsDowntrend (gc_Symbol cfg) (mm_momentum w')"
  shows "es = map (\<lambda>ord. MmCancel (order_ref (gc_Symbol cfg) ord)) (filter owned_buy (ma_pending ans))"
proof -
  have "IsDowntrend s f \<Longrightarrow> HasEnoughData s f" for s f
    by (auto simp: IsDowntrend_def HasEnoughData_def Let_def split: if_splits)
  then show ?thesis using assms
    by (auto simp: mm_symbol_def track_buy_def Let_def split: option.splits if_splits)
qed

section \<open>Guards without effect, and a panic\<close>

text \<open>The inventory cap is only asked when there is no position, where it never holds.\<close>

lemma inventory_cap_unreachable:
  assumes "GetPosition (gc_Symbol cfg) (mm_inventory w) = None"
  shows "\<not> IsInventoryFull (gc_Symbol cfg) (mm_inventory (w\<lparr>mm_momentum := f\<rparr>))"
  using assms by simp

text \<open>The floor of the decayed price is below both of its values.\<close>

lemma decay_floor_unreachable:
  "0 \<le> p \<Longrightarrow> decayed_price elapsed p = (if elapsed < 6 * hour then p * (1008 / 1000) else p * (10067 / 10000))"
  by (simp add: decayed_price_def Let_def)

text \<open>
  A coin cheaper than its assumed tick: the ideal price is rounded to zero, and the loop divides by it
  when a BUY order of the bot is listed. The panic ends the program, as the loop recovers none.
\<close>

theorem zero_ideal_price_panics:
  assumes "GetPosition (gc_Symbol cfg) (mm_inventory w) = None" and "gc_GridCount cfg = 1"
    and "ma_ticker ans = Some t" and "0 < to_BestBid t" and "ideal_buy_price L (gc_Symbol cfg) t = 0"
    and "find owned_buy (ma_pending ans) = Some ord" and "0 < ei_Price ord"
    and "HasEnoughData (gc_Symbol cfg) (Momentum_RecordPrice (gc_Symbol cfg) (to_Last t) (mm_momentum w))"
    and "\<not> IsDowntrend (gc_Symbol cfg) (Momentum_RecordPrice (gc_Symbol cfg) (to_Last t) (mm_momentum w))"
  shows "mm_symbol L ''cash'' cfg ans w = Panicked"
  using assms by (simp add: mm_symbol_def track_buy_def Let_def)

definition cheap_grid :: GridConfig where
  "cheap_grid = btc_grid\<lparr>gc_Symbol := ''SHIB-USDT'', gc_GridCount := 1\<rparr>"

definition cheap_state :: mm_state where
  "cheap_state = \<lparr>mm_inventory = NewInventoryTracker 50,
     mm_momentum = record_all (NewMomentumFilter 6) (replicate 3 (''SHIB-USDT'', 1 / 100000))\<rparr>"

theorem zero_ideal_price_panics_witness:
  "mm_symbol std_declib ''cash'' cheap_grid
     \<lparr>ma_ticker = Some (mm_ticker (1 / 100000) (1 / 100000)),
      ma_pending = [listed_order (1 / 100000) 0 OrderStatusOpen], ma_now = 0, ma_nanos = 0\<rparr> cheap_state = Panicked"
proof (rule zero_ideal_price_panics [where t = "mm_ticker (1 / 100000) (1 / 100000)" and
      ord = "listed_order (1 / 100000) 0 OrderStatusOpen"])
  let ?f = "Momentum_RecordPrice (gc_Symbol cheap_grid) (to_Last (mm_ticker (1 / 100000) (1 / 100000))) (mm_momentum cheap_state)"
  have f: "?f = record_all (NewMomentumFilter 6) (replicate 4 (''SHIB-USDT'', 1 / 100000))"
    by (simp add: cheap_state_def cheap_grid_def record_all_def numeral_eq_Suc)
  show "HasEnoughData (gc_Symbol cheap_grid) ?f"
    unfolding f downtrend_exact_data by (simp add: cheap_grid_def prices_of_def numeral_eq_Suc)
  show "\<not> IsDowntrend (gc_Symbol cheap_grid) ?f"
    unfolding f downtrend_exact_trend by (auto simp: cheap_grid_def prices_of_def numeral_eq_Suc Cons_eq_append_conv)
  show "ideal_buy_price std_declib (gc_Symbol cheap_grid) (mm_ticker (1 / 100000) (1 / 100000)) = 0"
  proof -
    have "\<lfloor>1 / 2 :: rat\<rfloor> = 0" by (rule floor_unique) simp_all
    then show ?thesis
      by (simp add: ideal_buy_price_def cheap_grid_def getTickSize_def containsStr_def std_declib_def round_half_away_def)
  qed
qed (simp_all add: cheap_grid_def cheap_state_def btc_grid_def listed_order_def owned_buy_def isBotOwnedClientOrderID_def)

end
