(* ===== verification/GridStartup.thy ===== *)
theory GridStartup
  imports MarketMaker Grid
begin

text \<open>
  What \<open>src/cmd/main.go\<close> does before the loops run: cancelling the bot's old orders
  (\<open>ownershipSafeCleanup\<close>), reading balances and holdings, the adaptive grid range, the sizes of the
  initial orders and their placement. HTTP answers, \<open>decimal.NewFromString\<close>, decimal rounding and the
  float powers of geometric grids are arguments. The program keeps a second, older path for an
  application without a gateway; \<open>gw\<close> tells which one is taken.
\<close>

section \<open>Queries through the raw client\<close>

datatype app_error =
    AppHttp do_error | AppRead | AppParse | AppApi string | AppNumber | UsdtMissing | TickerFailed | InvalidTicker

definition fetch_json :: "(http_request \<Rightarrow> http_result) \<Rightarrow> string \<Rightarrow> app_error + json" where
  "fetch_json send path =
     (case send (get_request path) of
        Inl e \<Rightarrow> Inl (AppHttp e)
      | Inr resp \<Rightarrow> (case rs_Body resp of
          Unreadable \<Rightarrow> Inl AppRead
        | Readable (TextFrame _) \<Rightarrow> Inl AppParse
        | Readable (JsonFrame j) \<Rightarrow> Inr j))"

definition decode_data :: "string list \<Rightarrow> json \<Rightarrow> (string \<times> json list) option" where
  "decode_data ks j =
     (case (str_field ''code'' j, arr_field ''data'' j) of
        (Some c, Some rows) \<Rightarrow> if list_all (strings_ok ks) rows then Some (c, rows) else None
      | _ \<Rightarrow> None)"

text \<open>The first row of a ticker answer.\<close>

definition legacy_ticker ::
  "string list \<Rightarrow> (http_request \<Rightarrow> http_result) \<Rightarrow> string \<Rightarrow> app_error + json" where
  "legacy_ticker ks send symbol =
     (case fetch_json send (''/api/v5/market/ticker?instId='' @ symbol) of
        Inl e \<Rightarrow> Inl e
      | Inr j \<Rightarrow> (case decode_data ks j of
          None \<Rightarrow> Inl AppParse
        | Some (code, rows) \<Rightarrow>
            if code \<noteq> ''0'' then Inl (AppApi code)
            else (case rows of [] \<Rightarrow> Inl (AppApi code) | d # _ \<Rightarrow> Inr d)))"

definition getCurrentPriceLegacy ::
  "decparse \<Rightarrow> (http_request \<Rightarrow> http_result) \<Rightarrow> string \<Rightarrow> app_error + decimal" where
  "getCurrentPriceLegacy dparse send symbol =
     (case legacy_ticker [''last''] send symbol of
        Inl e \<Rightarrow> Inl e
      | Inr d \<Rightarrow> (case dparse (fld ''last'' d) of None \<Rightarrow> Inl AppNumber | Some p \<Rightarrow> Inr p))"

record PendingOrder =
  po_InstID :: string
  po_OrdID :: string
  po_ClOrdID :: string
  po_Px :: string
  po_Sz :: string
  po_Side :: string
  po_State :: string

definition pending_keys :: "string list" where
  "pending_keys = [''instId'', ''ordId'', ''clOrdId'', ''px'', ''sz'', ''side'', ''state'']"

definition pending_order :: "json \<Rightarrow> PendingOrder" where
  "pending_order d = \<lparr>po_InstID = fld ''instId'' d, po_OrdID = fld ''ordId'' d, po_ClOrdID = fld ''clOrdId'' d,
     po_Px = fld ''px'' d, po_Sz = fld ''sz'' d, po_Side = fld ''side'' d, po_State = fld ''state'' d\<rparr>"

definition getPendingOrders :: "(http_request \<Rightarrow> http_result) \<Rightarrow> string \<Rightarrow> app_error + PendingOrder list" where
  "getPendingOrders send symbol =
     (case fetch_json send (''/api/v5/trade/orders-pending?instId='' @ symbol) of
        Inl e \<Rightarrow> Inl e
      | Inr j \<Rightarrow> (case decode_data pending_keys j of
          None \<Rightarrow> Inl AppParse
        | Some (code, rows) \<Rightarrow> if code \<noteq> ''0'' then Inl (AppApi code) else Inr (map pending_order rows)))"

text \<open>The rows of a balance answer: the details of its first account, if there is one.\<close>

definition balance_details ::
  "string list \<Rightarrow> (http_request \<Rightarrow> http_result) \<Rightarrow> app_error + json list" where
  "balance_details ks send =
     (case fetch_json send ''/api/v5/account/balance'' of
        Inl e \<Rightarrow> Inl e
      | Inr j \<Rightarrow> (case decode_data [] j of
          None \<Rightarrow> Inl AppParse
        | Some (code, rows) \<Rightarrow>
            (case decode_all (arr_field ''details'') rows of
               None \<Rightarrow> Inl AppParse
             | Some details \<Rightarrow>
                 if \<not> list_all (list_all (strings_ok ks)) details then Inl AppParse
                 else if code \<noteq> ''0'' then Inl (AppApi code)
                 else (case details of [] \<Rightarrow> Inl (AppApi code) | ds # _ \<Rightarrow> Inr ds))))"

definition getAvailableBalance ::
  "decparse \<Rightarrow> (http_request \<Rightarrow> http_result) \<Rightarrow> app_error + decimal" where
  "getAvailableBalance dparse send =
     (case balance_details [''ccy'', ''availBal''] send of
        Inl e \<Rightarrow> Inl e
      | Inr ds \<Rightarrow> (case find (\<lambda>d. fld ''ccy'' d = ''USDT'') ds of
          None \<Rightarrow> Inl UsdtMissing
        | Some d \<Rightarrow> (case dparse (fld ''availBal'' d) of None \<Rightarrow> Inl AppNumber | Some b \<Rightarrow> Inr b)))"

section \<open>Holdings found at startup\<close>

text \<open>One holding; \<open>ticker\<close> answers \<open>GetTicker\<close>. Holdings below five dollars are dust.\<close>

definition load_holding ::
  "decparse \<Rightarrow> (string \<Rightarrow> TickerObservation option) \<Rightarrow> time \<Rightarrow> GridConfig list \<Rightarrow> InventoryTracker \<Rightarrow> json \<Rightarrow>
    InventoryTracker" where
  "load_holding dparse ticker now cfgs t d =
     (let ccy = fld ''ccy'' d;
          total = dec_or_zero dparse (fld ''availBal'' d) + dec_or_zero dparse (fld ''frozenBal'' d);
          symbol = ccy @ ''-USDT''
      in if ccy = ''USDT'' then t
         else if \<not> (0 < total) then t
         else if \<not> list_ex (\<lambda>cfg. gc_Symbol cfg = symbol) cfgs then t
         else (case ticker symbol of
             None \<Rightarrow> t
           | Some tick \<Rightarrow>
               if \<not> (0 < to_Last tick) then t
               else if total * to_Last tick < 5 then t
               else RecordBuy now symbol (to_Last tick) total ''pre-restart'' t))"

definition loadExistingPositions ::
  "decparse \<Rightarrow> (http_request \<Rightarrow> http_result) \<Rightarrow> (string \<Rightarrow> TickerObservation option) \<Rightarrow> time \<Rightarrow>
    GridConfig list \<Rightarrow> InventoryTracker \<Rightarrow> InventoryTracker" where
  "loadExistingPositions dparse send ticker now cfgs t =
     (case balance_details [''ccy'', ''availBal'', ''frozenBal''] send of
        Inl _ \<Rightarrow> t
      | Inr ds \<Rightarrow> foldl (load_holding dparse ticker now cfgs) t ds)"

section \<open>Cleanup of the bot's orders\<close>

datatype cleanup_effect = CuCancel OrderRef | CuLegacyCancel string string

definition legacy_info :: "PendingOrder \<Rightarrow> ExchangeOrderInfo" where
  "legacy_info lo = \<lparr>ei_ExchangeOrderID = po_OrdID lo, ei_ClientOrderID = po_ClOrdID lo, ei_Symbol = po_InstID lo,
     ei_Side = SideBuy, ei_Status = OrderStatusPending, ei_Price = 0, ei_Quantity = 0,
     ei_CumulativeFillQty = 0, ei_AvgFillPrice = 0, ei_CreateTime = zero_time, ei_UpdateTime = zero_time\<rparr>"

text \<open>The effects, and how many orders were cancelled and preserved; \<open>cancelOk\<close> is the gateway's answer.\<close>

fun cleanup_orders ::
  "bool \<Rightarrow> string \<Rightarrow> (ExchangeOrderInfo \<Rightarrow> bool) \<Rightarrow> ExchangeOrderInfo list \<Rightarrow> cleanup_effect list \<times> nat \<times> nat" where
  "cleanup_orders gw symbol cancelOk [] = ([], 0, 0)"
| "cleanup_orders gw symbol cancelOk (ord # rest) =
     (case cleanup_orders gw symbol cancelOk rest of
        (es, cancelled, preserved) \<Rightarrow>
          if \<not> isBotOwnedClientOrderID (ei_ClientOrderID ord) then (es, cancelled, preserved + 1)
          else if gw then
            (CuCancel (order_ref symbol ord) # es, if cancelOk ord then cancelled + 1 else cancelled, preserved)
          else if ei_ExchangeOrderID ord \<noteq> []
          then (CuLegacyCancel symbol (ei_ExchangeOrderID ord) # es, cancelled + 1, preserved)
          else (es, cancelled + 1, preserved))"

definition cleanup_symbol ::
  "bool \<Rightarrow> ExchangeOrderInfo list option \<Rightarrow> PendingOrder list option \<Rightarrow> (ExchangeOrderInfo \<Rightarrow> bool) \<Rightarrow> string \<Rightarrow>
    cleanup_effect list \<times> nat \<times> nat" where
  "cleanup_symbol gw listed legacy cancelOk symbol =
     (case (if gw then listed else map_option (map legacy_info) legacy) of
        None \<Rightarrow> ([], 0, 0)
      | Some pending \<Rightarrow> cleanup_orders gw symbol cancelOk pending)"

definition ownershipSafeCleanup ::
  "bool \<Rightarrow> (string \<Rightarrow> ExchangeOrderInfo list option) \<Rightarrow> (string \<Rightarrow> PendingOrder list option) \<Rightarrow>
    (string \<Rightarrow> ExchangeOrderInfo \<Rightarrow> bool) \<Rightarrow> GridConfig list \<Rightarrow> cleanup_effect list" where
  "ownershipSafeCleanup gw listed legacy cancelOk cfgs =
     concat (map (\<lambda>cfg. let s = gc_Symbol cfg in fst (cleanup_symbol gw (listed s) (legacy s) (cancelOk s) s)) cfgs)"

text \<open>The older cleanup, kept for tests: every listed order goes.\<close>

definition cancelAllPendingOrders :: "(string \<Rightarrow> PendingOrder list option) \<Rightarrow> GridConfig list \<Rightarrow> cleanup_effect list" where
  "cancelAllPendingOrders legacy cfgs = concat (map (\<lambda>cfg.
     case legacy (gc_Symbol cfg) of
       None \<Rightarrow> []
     | Some os \<Rightarrow> map (\<lambda>lo. CuLegacyCancel (gc_Symbol cfg) (po_OrdID lo)) (filter (\<lambda>lo. po_OrdID lo \<noteq> []) os)) cfgs)"

lemma cleanup_orders_spec:
  "cleanup_orders gw symbol cancelOk pending = (es, cancelled, preserved) \<Longrightarrow>
    es = map (\<lambda>ord. if gw then CuCancel (order_ref symbol ord) else CuLegacyCancel symbol (ei_ExchangeOrderID ord))
      (filter (\<lambda>ord. isBotOwnedClientOrderID (ei_ClientOrderID ord) \<and> (gw \<or> ei_ExchangeOrderID ord \<noteq> [])) pending) \<and>
    preserved = length (filter (\<lambda>ord. \<not> isBotOwnedClientOrderID (ei_ClientOrderID ord)) pending) \<and>
    cancelled = length (filter (\<lambda>ord. isBotOwnedClientOrderID (ei_ClientOrderID ord) \<and> (gw \<longrightarrow> cancelOk ord)) pending)"
  by (induction pending arbitrary: es cancelled preserved) (auto split: prod.splits if_splits)

text \<open>The cleanup cancels exactly the listed orders whose client id is the bot's, each under the symbol it was
  listed for; it never touches another order. The order counts are those of the two kinds.\<close>

theorem cleanup_exact:
  "set (ownershipSafeCleanup True listed legacy cancelOk cfgs) =
     {CuCancel (order_ref (gc_Symbol cfg) ord) | cfg os ord. cfg \<in> set cfgs \<and> listed (gc_Symbol cfg) = Some os \<and>
        ord \<in> set os \<and> isBotOwnedClientOrderID (ei_ClientOrderID ord)} \<and>
   list_all (\<lambda>cfg. case listed (gc_Symbol cfg) of None \<Rightarrow> True | Some os \<Rightarrow>
     snd (snd (cleanup_symbol True (listed (gc_Symbol cfg)) (legacy (gc_Symbol cfg)) (cancelOk (gc_Symbol cfg)) (gc_Symbol cfg))) =
       length (filter (\<lambda>ord. \<not> isBotOwnedClientOrderID (ei_ClientOrderID ord)) os)) cfgs"
proof
  have preserved: "snd (snd (cleanup_orders True s ok os)) =
      length (filter (\<lambda>ord. \<not> isBotOwnedClientOrderID (ei_ClientOrderID ord)) os)" for s ok os
    using cleanup_orders_spec [of True s ok os] by (cases "cleanup_orders True s ok os") simp
  have one: "set (fst (cleanup_symbol True (listed s) (legacy s) (cancelOk s) s)) =
      {CuCancel (order_ref s ord) | os ord. listed s = Some os \<and> ord \<in> set os \<and>
         isBotOwnedClientOrderID (ei_ClientOrderID ord)}" for s
  proof (cases "listed s")
    case (Some os)
    obtain es c p where r: "cleanup_orders True s (cancelOk s) os = (es, c, p)" by (metis prod_cases3)
    show ?thesis using cleanup_orders_spec [OF r] r Some by (auto simp: cleanup_symbol_def)
  qed (simp add: cleanup_symbol_def)
  show "set (ownershipSafeCleanup True listed legacy cancelOk cfgs) =
     {CuCancel (order_ref (gc_Symbol cfg) ord) | cfg os ord. cfg \<in> set cfgs \<and> listed (gc_Symbol cfg) = Some os \<and>
        ord \<in> set os \<and> isBotOwnedClientOrderID (ei_ClientOrderID ord)}"
    unfolding ownershipSafeCleanup_def Let_def set_concat set_map image_image one by blast
  show "list_all (\<lambda>cfg. case listed (gc_Symbol cfg) of None \<Rightarrow> True | Some os \<Rightarrow>
     snd (snd (cleanup_symbol True (listed (gc_Symbol cfg)) (legacy (gc_Symbol cfg)) (cancelOk (gc_Symbol cfg)) (gc_Symbol cfg))) =
       length (filter (\<lambda>ord. \<not> isBotOwnedClientOrderID (ei_ClientOrderID ord)) os)) cfgs"
    by (simp add: list_all_iff cleanup_symbol_def preserved split: option.splits)
qed

text \<open>Holdings that become positions are of configured symbols, worth at least five dollars, and are booked at
  the current price; other positions stay.\<close>

lemma load_holding_position:
  "GetPosition s (load_holding dparse ticker now cfgs t d) = GetPosition s t \<or>
   (\<exists>tick q. GetPosition s (load_holding dparse ticker now cfgs t d) =
      Some \<lparr>pe_Symbol = s, pe_BuyPrice = to_Last tick, pe_Quantity = q, pe_BuyTime = now, pe_OrderID = ''pre-restart''\<rparr> \<and>
      ticker s = Some tick \<and> 5 \<le> q * to_Last tick \<and> 0 < q \<and> s \<in> gc_Symbol ` set cfgs)"
  by (auto simp: load_holding_def Let_def list_ex_iff split: option.split) (metis imageI)

theorem loaded_positions:
  "GetPosition s (loadExistingPositions dparse send ticker now cfgs t) = GetPosition s t \<or>
   (\<exists>tick q. GetPosition s (loadExistingPositions dparse send ticker now cfgs t) =
      Some \<lparr>pe_Symbol = s, pe_BuyPrice = to_Last tick, pe_Quantity = q, pe_BuyTime = now, pe_OrderID = ''pre-restart''\<rparr> \<and>
      ticker s = Some tick \<and> 5 \<le> q * to_Last tick \<and> 0 < q \<and> s \<in> gc_Symbol ` set cfgs)"
proof -
  let ?P = "\<lambda>p. \<exists>tick q. p = Some \<lparr>pe_Symbol = s, pe_BuyPrice = to_Last tick, pe_Quantity = q, pe_BuyTime = now,
      pe_OrderID = ''pre-restart''\<rparr> \<and> ticker s = Some tick \<and> 5 \<le> q * to_Last tick \<and> 0 < q \<and> s \<in> gc_Symbol ` set cfgs"
  have "GetPosition s (foldl (load_holding dparse ticker now cfgs) t ds) = GetPosition s t \<or>
      ?P (GetPosition s (foldl (load_holding dparse ticker now cfgs) t ds))" for ds
  proof (induction ds rule: rev_induct)
    case (snoc d ds)
    then show ?case
      using load_holding_position [of s dparse ticker now cfgs "foldl (load_holding dparse ticker now cfgs) t ds" d] by auto
  qed simp
  then show ?thesis by (auto simp: loadExistingPositions_def split: sum.splits)
qed

section \<open>The adaptive range\<close>

record AdaptiveRangeConfig =
  ar_MinHalfWidth :: decimal
  ar_MaxHalfWidth :: decimal
  ar_Symmetric :: bool
  ar_WidthMode :: string

definition half_width :: "declib \<Rightarrow> decimal \<Rightarrow> decimal \<Rightarrow> decimal \<Rightarrow> decimal \<Rightarrow> decimal \<Rightarrow> decimal \<Rightarrow> decimal" where
  "half_width L minHalf maxHalf fallback high low price =
     (if 0 < high \<and> 0 < low \<and> 0 < price then
        let halfVol = dl_div L (dl_div L (high - low) price) 2 in
        if halfVol < minHalf then minHalf else if halfVol > maxHalf then maxHalf else halfVol
      else fallback)"

definition calculateAdaptiveGridRange ::
  "declib \<Rightarrow> AdaptiveRangeConfig \<Rightarrow> TickerObservation option \<Rightarrow> app_error + decimal \<times> decimal" where
  "calculateAdaptiveGridRange L ar ticker =
     (case ticker of
        None \<Rightarrow> Inl TickerFailed
      | Some t \<Rightarrow>
          if \<not> (0 < to_Last t) then Inl InvalidTicker
          else
            let minHalf = (if ar_MinHalfWidth ar = 0 then 5 / 1000 else ar_MinHalfWidth ar);
                maxHalf = (if ar_MaxHalfWidth ar = 0 then 4 / 100 else ar_MaxHalfWidth ar);
                r = half_width L minHalf maxHalf minHalf (to_High24h t) (to_Low24h t) (to_Last t)
            in Inr (to_Last t * (1 - r), to_Last t * (1 + r)))"

definition calculateAdaptiveGridRangeLegacy ::
  "declib \<Rightarrow> decparse \<Rightarrow> (http_request \<Rightarrow> http_result) \<Rightarrow> string \<Rightarrow> app_error + decimal \<times> decimal" where
  "calculateAdaptiveGridRangeLegacy L dparse send symbol =
     (case legacy_ticker [''last'', ''high24h'', ''low24h''] send symbol of
        Inl e \<Rightarrow> Inl e
      | Inr d \<Rightarrow> (case dparse (fld ''last'' d) of
          None \<Rightarrow> Inl AppNumber
        | Some price \<Rightarrow>
            let r = half_width L (3 / 100) (8 / 100) (5 / 100)
                      (dec_or_zero dparse (fld ''high24h'' d)) (dec_or_zero dparse (fld ''low24h'' d)) price;
                precision = getPricePrecision symbol
            in Inr (dl_round L (price * (1 - r)) precision, dl_round L (price * (1 + r)) precision)))"

lemma half_width_bounds:
  "lo \<le> hi \<Longrightarrow> lo \<le> fb \<Longrightarrow> fb \<le> hi \<Longrightarrow> lo \<le> half_width L lo hi fb h l p \<and> half_width L lo hi fb h l p \<le> hi"
  by (auto simp: half_width_def Let_def)

text \<open>The range is symmetric around the price, with a half-width between the configured bounds; it is a valid grid
  range when the upper bound is below one.\<close>

theorem adaptive_range_bounds:
  assumes "calculateAdaptiveGridRange L ar (Some t) = Inr (lower, upper)"
    and "ar_MinHalfWidth ar = lo" and "ar_MaxHalfWidth ar = hi" and "0 < lo" and "lo \<le> hi" and "hi < 1"
  shows "0 < lower \<and> lower < upper \<and> lower + upper = 2 * to_Last t \<and>
    to_Last t * (1 - hi) \<le> lower \<and> lower \<le> to_Last t * (1 - lo) \<and>
    to_Last t * (1 + lo) \<le> upper \<and> upper \<le> to_Last t * (1 + hi)"
proof -
  define r where "r = half_width L lo hi lo (to_High24h t) (to_Low24h t) (to_Last t)"
  have p: "0 < to_Last t" and lu: "lower = to_Last t * (1 - r)" "upper = to_Last t * (1 + r)"
    using assms by (auto simp: calculateAdaptiveGridRange_def Let_def r_def split: if_splits)
  have r: "lo \<le> r" "r \<le> hi" using half_width_bounds [of lo hi lo L] assms(5) by (simp_all add: r_def)
  have "to_Last t * lo \<le> to_Last t * r" "to_Last t * r \<le> to_Last t * hi" "0 < to_Last t * (1 - r)"
    "0 < to_Last t * r"
    using r p assms(4,6) by (simp_all add: mult_left_mono)
  then show ?thesis unfolding lu by (simp add: algebra_simps)
qed

theorem adaptive_range_bounds_witness:
  "\<exists>lower upper. calculateAdaptiveGridRange std_declib \<lparr>ar_MinHalfWidth = 1 / 200, ar_MaxHalfWidth = 1 / 25,
      ar_Symmetric = True, ar_WidthMode = []\<rparr> (Some (mm_ticker 100 100)) = Inr (lower, upper) \<and>
    0 < lower \<and> lower < upper \<and> lower + upper = 200"
proof -
  let ?ar = "\<lparr>ar_MinHalfWidth = 1 / 200, ar_MaxHalfWidth = 1 / 25, ar_Symmetric = True, ar_WidthMode = []\<rparr>"
  obtain lower upper where r: "calculateAdaptiveGridRange std_declib ?ar (Some (mm_ticker 100 100)) = Inr (lower, upper)"
    by (simp add: calculateAdaptiveGridRange_def Let_def)
  show ?thesis
    using adaptive_range_bounds [OF r, of "1 / 200" "1 / 25"] r by (intro exI [of _ lower] exI [of _ upper]) simp
qed

section \<open>The initial grid\<close>

text \<open>The answers for configuration \<open>i\<close> at call \<open>k\<close>: sizing price, sizing range, grid range, grid price.\<close>

record price_source =
  ps_gateway :: bool
  ps_ticker :: "nat \<Rightarrow> nat \<Rightarrow> TickerObservation option"
  ps_legacyPrice :: "nat \<Rightarrow> nat \<Rightarrow> decimal option"
  ps_legacyRange :: "nat \<Rightarrow> nat \<Rightarrow> (decimal \<times> decimal) option"

definition source_range ::
  "declib \<Rightarrow> AdaptiveRangeConfig \<Rightarrow> price_source \<Rightarrow> nat \<Rightarrow> nat \<Rightarrow> (decimal \<times> decimal) option" where
  "source_range L ar ps i k =
     (if ps_gateway ps then
        (case calculateAdaptiveGridRange L ar (ps_ticker ps i k) of Inl _ \<Rightarrow> None | Inr r \<Rightarrow> Some r)
      else ps_legacyRange ps i k)"

definition ticker_price :: "TickerObservation option \<Rightarrow> decimal option" where
  "ticker_price t = (case t of None \<Rightarrow> None | Some x \<Rightarrow> if 0 < to_Last x then Some (to_Last x) else None)"

definition buy_slots :: "decimal \<Rightarrow> decimal \<Rightarrow> int \<Rightarrow> decimal \<Rightarrow> nat" where
  "buy_slots lower step gridCount price =
     length (filter (\<lambda>lvl. lower + step * of_int (int lvl) < price) [0..<nat (gridCount + 1)])"

definition sizing_price :: "price_source \<Rightarrow> nat \<Rightarrow> decimal option" where
  "sizing_price ps i =
     (if ps_gateway ps then ticker_price (ps_ticker ps i 0)
      else case ps_legacyPrice ps i 0 of None \<Rightarrow> None | Some p \<Rightarrow> if 0 < p then Some p else None)"

text \<open>The index, price and number of BUY slots of each symbol that answers.\<close>

fun size_infos ::
  "declib \<Rightarrow> AdaptiveRangeConfig \<Rightarrow> price_source \<Rightarrow> nat \<Rightarrow> GridConfig list \<Rightarrow> (nat \<times> decimal \<times> nat) list outcome" where
  "size_infos L ar ps i [] = Returned []"
| "size_infos L ar ps i (cfg # cfgs) =
     (case sizing_price ps i of
        None \<Rightarrow> size_infos L ar ps (Suc i) cfgs
      | Some price \<Rightarrow> (case source_range L ar ps i 1 of
          None \<Rightarrow> size_infos L ar ps (Suc i) cfgs
        | Some (lower, upper) \<Rightarrow>
            if gc_GridCount cfg = 0 then Panicked
            else
              let step = dl_div L (upper - lower) (of_int (gc_GridCount cfg)) in
              (case size_infos L ar ps (Suc i) cfgs of
                 Panicked \<Rightarrow> Panicked
               | Returned infos \<Rightarrow>
                   Returned ((i, price, buy_slots lower step (gc_GridCount cfg) price) # infos))))"

definition resize :: "declib \<Rightarrow> decimal \<Rightarrow> GridConfig list \<Rightarrow> nat \<times> decimal \<times> nat \<Rightarrow> GridConfig list" where
  "resize L perSlot cfgs info =
     (case info of (i, price, _) \<Rightarrow>
        let orderSize = dl_round L (dl_div L perSlot price) 0 in
        if 0 < orderSize then cfgs[i := (cfgs ! i)\<lparr>gc_OrderSize := orderSize\<rparr>] else cfgs)"

definition size_orders ::
  "declib \<Rightarrow> AdaptiveRangeConfig \<Rightarrow> price_source \<Rightarrow> app_error + decimal \<Rightarrow> GridConfig list \<Rightarrow> GridConfig list outcome" where
  "size_orders L ar ps balance cfgs =
     (case balance of
        Inl _ \<Rightarrow> Returned cfgs
      | Inr available \<Rightarrow> (case size_infos L ar ps 0 cfgs of
          Panicked \<Rightarrow> Panicked
        | Returned infos \<Rightarrow>
            let usable = available * (95 / 100); total = sum_list (map (\<lambda>(_, _, k). k) infos)
            in Returned (if 0 < total
                 then foldl (resize L (dl_div L usable (of_int (int total)))) cfgs infos else cfgs)))"

definition order_of_grid :: "string \<Rightarrow> Order \<Rightarrow> ExecOrderRequest" where
  "order_of_grid strategyID ord = \<lparr>eq_Symbol = o_Symbol ord, eq_Side = o_Side ord, eq_OrderType = o_OrderType ord,
     eq_Price = o_Price ord, eq_Quantity = o_Quantity ord, eq_StrategyID = strategyID, eq_GridLevel = 0,
     eq_ClientOrderID = []\<rparr>"

definition grid_price_of :: "price_source \<Rightarrow> nat \<Rightarrow> decimal option" where
  "grid_price_of ps i = (if ps_gateway ps then ticker_price (ps_ticker ps i 3) else ps_legacyPrice ps i 3)"

text \<open>The grid of one symbol: its configuration afterwards and the requests sent for it.\<close>

definition place_symbol ::
  "declib \<Rightarrow> 'f floatlib \<Rightarrow> AdaptiveRangeConfig \<Rightarrow> price_source \<Rightarrow> TradingGate \<Rightarrow> string \<Rightarrow> nat \<Rightarrow> GridConfig \<Rightarrow>
    (GridConfig \<times> ExecOrderRequest list) outcome" where
  "place_symbol L F ar ps gate tdMode i cfg =
     (if \<not> gd_Allowed (Authorize gate (gc_Symbol cfg) RiskIncreasing) then Returned (cfg, [])
      else
        (case (if gc_UpperPrice cfg = 0 \<or> gc_LowerPrice cfg = 0
               then map_option (\<lambda>(lower, upper). cfg\<lparr>gc_LowerPrice := lower, gc_UpperPrice := upper\<rparr>) (source_range L ar ps i 2)
               else Some cfg) of
           None \<Rightarrow> Returned (cfg, [])
         | Some cfg1 \<Rightarrow> (case grid_price_of ps i of
             None \<Rightarrow> Returned (cfg1, [])
           | Some price \<Rightarrow>
               if gc_GridCount cfg1 = 1 \<and> tdMode = ''cash'' then Returned (cfg1, [])
               else (case CalculateGridLevels L F cfg1 of
                   Panicked \<Rightarrow> Panicked
                 | Returned (Inl _) \<Rightarrow> Returned (cfg1, [])
                 | Returned (Inr levels) \<Rightarrow>
                     let orders = PlaceGridOrders levels price cfg1;
                         kept = (if tdMode = ''cash'' then filter (\<lambda>ord. o_Side ord = SideBuy) orders else orders)
                     in Returned (cfg1, map (order_of_grid (''grid_'' @ gc_Symbol cfg @ ''_'' @ fmt_d (int i))) kept)))))"

fun place_grids ::
  "declib \<Rightarrow> 'f floatlib \<Rightarrow> AdaptiveRangeConfig \<Rightarrow> price_source \<Rightarrow> TradingGate \<Rightarrow> string \<Rightarrow> nat \<Rightarrow> GridConfig list \<Rightarrow>
    (GridConfig list \<times> ExecOrderRequest list) outcome" where
  "place_grids L F ar ps gate tdMode i [] = Returned ([], [])"
| "place_grids L F ar ps gate tdMode i (cfg # cfgs) =
     (case place_symbol L F ar ps gate tdMode i cfg of
        Panicked \<Rightarrow> Panicked
      | Returned (cfg1, rs) \<Rightarrow>
          (case place_grids L F ar ps gate tdMode (Suc i) cfgs of
             Panicked \<Rightarrow> Panicked
           | Returned (cfgs1, qs) \<Rightarrow> Returned (cfg1 # cfgs1, rs @ qs)))"

definition placeInitialGridOrders ::
  "declib \<Rightarrow> 'f floatlib \<Rightarrow> AdaptiveRangeConfig \<Rightarrow> price_source \<Rightarrow> app_error + decimal \<Rightarrow> TradingGate \<Rightarrow> string \<Rightarrow>
    GridConfig list \<Rightarrow> (GridConfig list \<times> ExecOrderRequest list) outcome" where
  "placeInitialGridOrders L F ar ps balance gate tdMode cfgs =
     (case size_orders L ar ps balance cfgs of
        Panicked \<Rightarrow> Panicked
      | Returned sized \<Rightarrow> place_grids L F ar ps gate tdMode 0 sized)"

lemma PlaceGridOrders_orders:
  "ord \<in> set (PlaceGridOrders levels price cfg) \<Longrightarrow>
    o_Symbol ord = gc_Symbol cfg \<and> o_OrderType ord = OrderTypePostOnly \<and> o_Quantity ord = gc_OrderSize cfg \<and>
    o_Price ord \<in> set levels \<and>
    (o_Side ord = SideBuy \<and> o_Price ord < price \<or> o_Side ord = SideSell \<and> price < o_Price ord)"
  by (induction levels) (auto simp: grid_order_def split: if_splits)

definition grid_request_ok :: "TradingGate \<Rightarrow> string \<Rightarrow> price_source \<Rightarrow> nat \<Rightarrow> GridConfig \<Rightarrow> ExecOrderRequest \<Rightarrow> bool" where
  "grid_request_ok gate tdMode ps i cfg r \<longleftrightarrow>
     gd_Allowed (Authorize gate (gc_Symbol cfg) RiskIncreasing) \<and> eq_Symbol r = gc_Symbol cfg \<and>
     eq_OrderType r = OrderTypePostOnly \<and> eq_Quantity r = gc_OrderSize cfg \<and>
     (gc_GridCount cfg \<noteq> 1 \<or> tdMode \<noteq> ''cash'') \<and>
     (\<exists>price. grid_price_of ps i = Some price \<and>
       (eq_Side r = SideBuy \<and> eq_Price r < price \<or> tdMode \<noteq> ''cash'' \<and> eq_Side r = SideSell \<and> price < eq_Price r))"

lemma place_symbol_ok:
  assumes "place_symbol L F ar ps gate tdMode i cfg = Returned (cfg1, rs)"
  shows "list_all (grid_request_ok gate tdMode ps i cfg) rs \<and> gc_Symbol cfg1 = gc_Symbol cfg \<and>
    gc_OrderSize cfg1 = gc_OrderSize cfg"
  using assms
  by (auto simp: place_symbol_def Let_def list_all_iff grid_request_ok_def order_of_grid_def
      split: if_splits option.splits outcome.splits sum.splits prod.splits dest!: PlaceGridOrders_orders)

lemma place_grids_ok:
  assumes "place_grids L F ar ps gate tdMode i cfgs = Returned (cfgs1, rs)" and "r \<in> set rs"
  shows "\<exists>k < length cfgs. grid_request_ok gate tdMode ps (i + k) (cfgs ! k) r"
  using assms
proof (induction cfgs arbitrary: i cfgs1 rs)
  case (Cons cfg cfgs)
  then obtain c1 rs1 cs2 rs2 where one: "place_symbol L F ar ps gate tdMode i cfg = Returned (c1, rs1)"
    and rest: "place_grids L F ar ps gate tdMode (Suc i) cfgs = Returned (cs2, rs2)" and rs: "rs = rs1 @ rs2"
    by (auto split: outcome.splits prod.splits)
  show ?case
  proof (cases "r \<in> set rs1")
    case True
    then have "grid_request_ok gate tdMode ps i cfg r"
      using place_symbol_ok [OF one] by (simp add: list_all_iff)
    then show ?thesis by (intro exI [of _ 0]) simp
  next
    case False
    then obtain k where "k < length cfgs" "grid_request_ok gate tdMode ps (Suc i + k) (cfgs ! k) r"
      using Cons.IH [OF rest] Cons.prems(2) rs by auto
    then show ?thesis by (intro exI [of _ "Suc k"]) simp
  qed
qed simp

lemma resize_symbol: "map gc_Symbol (resize L perSlot cfgs info) = map gc_Symbol cfgs \<and>
    map gc_GridCount (resize L perSlot cfgs info) = map gc_GridCount cfgs"
proof -
  have upd: "map f (xs[i := (xs ! i)\<lparr>gc_OrderSize := q\<rparr>]) = map f xs"
    if "\<And>c. f (c\<lparr>gc_OrderSize := q\<rparr>) = f c" for f :: "GridConfig \<Rightarrow> 'b" and xs i q
    using that by (cases "i < length xs") (simp_all add: map_update list_update_same_conv list_update_beyond)
  show ?thesis by (auto simp: resize_def Let_def upd split: prod.split)
qed

lemma size_orders_symbol:
  assumes "size_orders L ar ps balance cfgs = Returned sized"
  shows "map gc_Symbol sized = map gc_Symbol cfgs \<and> map gc_GridCount sized = map gc_GridCount cfgs"
proof -
  have "map gc_Symbol (foldl (resize L q) cs infos) = map gc_Symbol cs \<and>
      map gc_GridCount (foldl (resize L q) cs infos) = map gc_GridCount cs" for q cs infos
    by (induction infos arbitrary: cs) (simp_all add: resize_symbol)
  then show ?thesis using assms
    by (auto simp: size_orders_def Let_def split: sum.splits outcome.splits if_splits)
qed

text \<open>
  Every order of the initial grid belongs to a configured symbol for which the gate lets risk increase,
  is post-only with the configured or computed size, and in cash mode a BUY below the current price of a
  symbol with more than one grid level.
\<close>

theorem initial_grid_guarded:
  assumes "placeInitialGridOrders L F ar ps balance gate tdMode cfgs = Returned (cfgs1, rs)" and "r \<in> set rs"
  shows "gd_Allowed (Authorize gate (eq_Symbol r) RiskIncreasing) \<and> eq_OrderType r = OrderTypePostOnly \<and>
    (\<exists>k price cfg. k < length cfgs \<and> cfg = cfgs ! k \<and> gc_Symbol cfg = eq_Symbol r \<and> grid_price_of ps k = Some price \<and>
      (if tdMode = ''cash'' then eq_Side r = SideBuy \<and> eq_Price r < price \<and> gc_GridCount cfg \<noteq> 1
       else eq_Side r = SideBuy \<and> eq_Price r < price \<or> eq_Side r = SideSell \<and> price < eq_Price r))"
proof -
  obtain sized where sized: "size_orders L ar ps balance cfgs = Returned sized"
    and placed: "place_grids L F ar ps gate tdMode 0 sized = Returned (cfgs1, rs)"
    using assms(1) by (auto simp: placeInitialGridOrders_def split: outcome.splits)
  obtain k where k: "k < length sized" "grid_request_ok gate tdMode ps k (sized ! k) r"
    using place_grids_ok [OF placed assms(2)] by auto
  have same: "map gc_Symbol sized = map gc_Symbol cfgs" "map gc_GridCount sized = map gc_GridCount cfgs"
    using size_orders_symbol [OF sized] by auto
  have len: "length sized = length cfgs" using arg_cong [OF same(1), of length] by simp
  have "gc_Symbol (sized ! k) = gc_Symbol (cfgs ! k)" "gc_GridCount (sized ! k) = gc_GridCount (cfgs ! k)"
    using arg_cong [OF same(1), of "\<lambda>xs. xs ! k"] arg_cong [OF same(2), of "\<lambda>xs. xs ! k"] k(1) len by simp_all
  then show ?thesis using k len by (auto simp: grid_request_ok_def)
qed

definition two_levels :: GridConfig where
  "two_levels = btc_grid\<lparr>gc_GridCount := 2, gc_LowerPrice := 90, gc_UpperPrice := 110\<rparr>"

definition sample_source :: price_source where
  "sample_source = \<lparr>ps_gateway = True, ps_ticker = (\<lambda>_ _. Some (mm_ticker 100 100)), ps_legacyPrice = (\<lambda>_ _. None),
     ps_legacyRange = (\<lambda>_ _. None)\<rparr>"

definition sample_range :: AdaptiveRangeConfig where
  "sample_range = \<lparr>ar_MinHalfWidth = 1 / 200, ar_MaxHalfWidth = 1 / 25, ar_Symmetric = True, ar_WidthMode = []\<rparr>"

lemma sample_levels: "CalculateGridLevels exact_lib F two_levels = Returned (Inr [90, 100, 110])"
  by (simp add: CalculateGridLevels_def two_levels_def btc_grid_def calculateArithmeticLevels_def validateLevels_def
      exact_lib_def Let_def numeral_eq_Suc)

theorem initial_grid_guarded_witness:
  "\<exists>r. placeInitialGridOrders exact_lib sample_floats sample_range sample_source (Inl AppRead) (NewTradingGate None) ''cash''
      [two_levels] = Returned ([two_levels], [r]) \<and>
    eq_Side r = SideBuy \<and> eq_Price r < 100 \<and> gd_Allowed (Authorize (NewTradingGate None) (eq_Symbol r) RiskIncreasing)"
proof -
  obtain r where run: "placeInitialGridOrders exact_lib sample_floats sample_range sample_source (Inl AppRead)
      (NewTradingGate None) ''cash'' [two_levels] = Returned ([two_levels], [r])"
    using sample_levels [of sample_floats]
    by (simp add: placeInitialGridOrders_def size_orders_def place_symbol_def Authorize_def NewTradingGate_def allowed_def
        two_levels_def sample_source_def grid_price_of_def ticker_price_def btc_grid_def grid_order_def Let_def)
  show ?thesis
    using initial_grid_guarded [OF run, of r] run
    by (intro exI [of _ r]) (auto simp: sample_source_def grid_price_of_def ticker_price_def)
qed

text \<open>The size of a slot is rounded to whole coins, upwards too: one coin at 12 is ordered with 9.5 to spend.\<close>

theorem initial_size_exceeds_balance:
  "size_orders std_declib sample_range
     \<lparr>ps_gateway = True, ps_ticker = (\<lambda>_ _. Some (mm_ticker 12 12)), ps_legacyPrice = (\<lambda>_ _. None),
      ps_legacyRange = (\<lambda>_ _. None)\<rparr> (Inr 10) [btc_grid\<lparr>gc_OrderSize := 0\<rparr>] =
   Returned [btc_grid\<lparr>gc_OrderSize := 1\<rparr>] \<and> 10 < 12 * gc_OrderSize (btc_grid\<lparr>gc_OrderSize := 1\<rparr>)"
proof -
  have r1: "round_half_away 16 (3 / 25) = 3 / 25"
    by (rule trans [OF round_half_away_eq [where k = 1200000000000000]]) simp_all
  have r2: "round_half_away 16 (19 / 2) = 19 / 2"
    by (rule trans [OF round_half_away_eq [where k = 95000000000000000]]) simp_all
  have r3: "round_half_away 16 (19 / 24) = 7916666666666667 / 10 ^ 16"
    by (rule trans [OF round_half_away_eq [where k = 7916666666666667]]) simp_all
  have r4: "round_half_away 0 (7916666666666667 / 10000000000000000) = 1"
    by (rule trans [OF round_half_away_eq [where k = 1]]) simp_all
  have r0: "round_half_away 16 0 = 0"
    by (rule trans [OF round_half_away_eq [where k = 0]]) simp_all
  have slots: "buy_slots (597 / 50) (3 / 25) 1 12 = 1" by (simp add: buy_slots_def numeral_eq_Suc)
  show ?thesis
    by (simp add: size_orders_def sizing_price_def source_range_def calculateAdaptiveGridRange_def half_width_def
        ticker_price_def sample_range_def std_declib_def mm_ticker_def r0 r1 r2 r3 r4 slots resize_def Let_def btc_grid_def)
qed

end
