(* ===== verification/GridDrift.thy ===== *)
theory GridDrift
  imports Grid ApiClient
begin

text \<open>
  Automatic relocation of a grid (\<open>src/internal/strategy/grid_drift.go\<close>). The engine shares the grid
  configuration with its strategy, so the configuration is part of the engine; the grid state may be
  nil. The order engine is a pair of functions on a world \<open>'w\<close> that answer whether a call succeeded;
  the clock, decimal division and the float powers of geometric grids are arguments. The code compares
  levels by their decimal strings, which is equality of values. Metrics, log and alert output are not
  modelled, nor are the sleeps between attempts.
\<close>

section \<open>State\<close>

record GridDriftEngine =
  ge_config :: GridConfig
  ge_driftConfig :: "DriftConfig option"
  ge_state :: "GridState option"
  ge_lastDriftTime :: time
  ge_driftCount :: int
  ge_gridSpacing :: decimal

text \<open>Division by a grid count of zero panics.\<close>

definition NewGridDriftEngine :: "declib \<Rightarrow> GridConfig \<Rightarrow> GridState option \<Rightarrow> GridDriftEngine outcome" where
  "NewGridDriftEngine L config state =
     (if gc_GridCount config = 0 then Panicked
      else Returned \<lparr>ge_config = config, ge_driftConfig = gc_Drift config, ge_state = state,
        ge_lastDriftTime = zero_time, ge_driftCount = 0,
        ge_gridSpacing = dl_div L (gc_UpperPrice config - gc_LowerPrice config) (of_int (gc_GridCount config))\<rparr>)"

definition Drift_Reset :: "GridDriftEngine \<Rightarrow> GridDriftEngine" where
  "Drift_Reset e = e\<lparr>ge_lastDriftTime := zero_time, ge_driftCount := 0\<rparr>"

definition DriftCount :: "GridDriftEngine \<Rightarrow> int" where
  "DriftCount e = ge_driftCount e"

section \<open>The decision\<close>

definition isEmergencyOverride :: "GridDriftEngine \<Rightarrow> DriftConfig \<Rightarrow> decimal \<Rightarrow> DriftDirection \<Rightarrow> bool" where
  "isEmergencyOverride e dc price direction =
     (let emergencyThreshold = of_int (dc_DriftStep dc) * ge_gridSpacing e * 2 in
      case direction of
        DriftUp \<Rightarrow> emergencyThreshold < price - gc_UpperPrice (ge_config e)
      | DriftDown \<Rightarrow> emergencyThreshold < gc_LowerPrice (ge_config e) - price
      | DriftNone \<Rightarrow> False)"

definition shouldTriggerDrift :: "GridDriftEngine \<Rightarrow> DriftConfig \<Rightarrow> decimal \<Rightarrow> DriftDirection \<times> bool" where
  "shouldTriggerDrift e dc price =
     (let upper = gc_UpperPrice (ge_config e); lower = gc_LowerPrice (ge_config e);
          threshold = dc_DriftThreshold dc * (upper - lower)
      in if price > upper then (DriftUp, isEmergencyOverride e dc price DriftUp)
         else if price < lower then (DriftDown, isEmergencyOverride e dc price DriftDown)
         else if price \<ge> upper - threshold then (DriftUp, isEmergencyOverride e dc price DriftUp)
         else if price \<le> lower + threshold then (DriftDown, isEmergencyOverride e dc price DriftDown)
         else (DriftNone, False))"

definition isCooldownActive :: "time \<Rightarrow> GridDriftEngine \<Rightarrow> DriftConfig \<Rightarrow> bool" where
  "isCooldownActive now e dc =
     (if ge_lastDriftTime e = zero_time then False else now - ge_lastDriftTime e < dc_CooldownPeriod dc)"

definition computeNewRange :: "GridDriftEngine \<Rightarrow> DriftConfig \<Rightarrow> DriftDirection \<Rightarrow> decimal \<times> decimal" where
  "computeNewRange e dc direction =
     (let shift = of_int (dc_DriftStep dc) * ge_gridSpacing e;
          lower = gc_LowerPrice (ge_config e); upper = gc_UpperPrice (ge_config e);
          clamp = (\<lambda>(newLower, newUpper).
            if newLower \<le> 0 then (1 / 10 ^ 8, 1 / 10 ^ 8 + (upper - lower)) else (newLower, newUpper))
      in case direction of
           DriftUp \<Rightarrow> clamp (lower + shift, upper + shift)
         | DriftDown \<Rightarrow> clamp (lower - shift, upper - shift)
         | DriftNone \<Rightarrow> (lower, upper))"

section \<open>Cancelling and placing\<close>

text \<open>At most \<open>n\<close> attempts, until one succeeds.\<close>

fun attempts :: "('w \<Rightarrow> 'w \<times> bool) \<Rightarrow> nat \<Rightarrow> 'w \<Rightarrow> 'w \<times> bool" where
  "attempts call 0 w = (w, False)"
| "attempts call (Suc n) w = (case call w of (w', True) \<Rightarrow> (w', True) | (w', False) \<Rightarrow> attempts call n w')"

text \<open>The number of items for which an attempt succeeded.\<close>

fun attempt_all :: "('x \<Rightarrow> 'w \<Rightarrow> 'w \<times> bool) \<Rightarrow> 'x list \<Rightarrow> 'w \<Rightarrow> 'w \<times> nat" where
  "attempt_all call [] w = (w, 0)"
| "attempt_all call (x # xs) w =
     (case attempts (call x) 3 w of
        (w1, ok) \<Rightarrow> (case attempt_all call xs w1 of (w2, k) \<Rightarrow> (w2, if ok then k + 1 else k)))"

definition stale_orders :: "GridLevel list \<Rightarrow> decimal list \<Rightarrow> string list" where
  "stale_orders levels newLevels = map gl_OrderId (filter (\<lambda>l. gl_Price l \<notin> set newLevels \<and>
     (gl_HasBuyOrder l \<or> gl_HasSellOrder l) \<and> gl_OrderId l \<noteq> []) levels)"

datatype drift_error = NoneCancelled | DriftLevels grid_error

definition cancelStaleOrders ::
  "(string \<Rightarrow> 'w \<Rightarrow> 'w \<times> bool) \<Rightarrow> GridLevel list \<Rightarrow> decimal list \<Rightarrow> 'w \<Rightarrow> 'w \<times> (drift_error + nat)" where
  "cancelStaleOrders cancel levels newLevels w =
     (let stale = stale_orders levels newLevels in
      if stale = [] then (w, Inr 0)
      else (case attempt_all cancel stale w of
              (w', cancelled) \<Rightarrow> (w', if cancelled = 0 then Inl NoneCancelled else Inr cancelled)))"

definition drift_targets ::
  "GridConfig \<Rightarrow> GridLevel list \<Rightarrow> decimal list \<Rightarrow> decimal \<Rightarrow> ExecOrderRequest list" where
  "drift_targets cfg levels newLevels currentPrice =
     map (\<lambda>(i, lvl). \<lparr>eq_Symbol = gc_Symbol cfg, eq_Side = (if lvl < currentPrice then SideBuy else SideSell),
            eq_OrderType = OrderTypePostOnly, eq_Price = lvl, eq_Quantity = gc_OrderSize cfg,
            eq_StrategyID = ''grid-drift'', eq_GridLevel = int i, eq_ClientOrderID = []\<rparr>)
       (filter (\<lambda>(i, lvl). lvl \<notin> gl_Price ` set levels \<and> lvl \<noteq> currentPrice) (enumerate 0 newLevels))"

definition placeNewOrders ::
  "(ExecOrderRequest \<Rightarrow> 'w \<Rightarrow> 'w \<times> bool) \<Rightarrow> GridConfig \<Rightarrow> GridLevel list \<Rightarrow> decimal list \<Rightarrow> decimal \<Rightarrow> 'w \<Rightarrow>
    'w \<times> nat" where
  "placeNewOrders place cfg levels newLevels currentPrice w =
     (let targets = drift_targets cfg levels newLevels currentPrice in
      if targets = [] then (w, 0) else attempt_all place targets w)"

definition trigger_reason :: "GridConfig \<Rightarrow> decimal \<Rightarrow> bool \<Rightarrow> string" where
  "trigger_reason cfg price emergency =
     (if emergency then ''emergency''
      else if price > gc_UpperPrice cfg \<or> price < gc_LowerPrice cfg then ''price_exceeded''
      else ''boundary_zone'')"

definition empty_level :: "nat \<times> decimal \<Rightarrow> GridLevel" where
  "empty_level x = \<lparr>gl_Index = int (fst x), gl_Price = snd x, gl_HasBuyOrder = False, gl_HasSellOrder = False,
     gl_OrderId = []\<rparr>"

text \<open>\<open>clock\<close> gives the start, the time recorded for the drift and the time the duration is taken.\<close>

definition executeDrift ::
  "declib \<Rightarrow> 'f floatlib \<Rightarrow> (string \<Rightarrow> 'w \<Rightarrow> 'w \<times> bool) \<Rightarrow> (ExecOrderRequest \<Rightarrow> 'w \<Rightarrow> 'w \<times> bool) \<Rightarrow>
    (nat \<Rightarrow> time) \<Rightarrow> DriftConfig \<Rightarrow> DriftDirection \<Rightarrow> decimal \<Rightarrow> bool \<Rightarrow> GridDriftEngine \<Rightarrow> 'w \<Rightarrow>
    (GridDriftEngine \<times> 'w \<times> (drift_error + DriftEvent)) outcome" where
  "executeDrift L F cancel place clock dc direction currentPrice emergency e w =
     (let cfg = ge_config e;
          (newLower, newUpper) = computeNewRange e dc direction;
          newCfg = cfg\<lparr>gc_LowerPrice := newLower, gc_UpperPrice := newUpper\<rparr>
      in case CalculateGridLevels L F newCfg of
        Panicked \<Rightarrow> Panicked
      | Returned (Inl err) \<Rightarrow> Returned (e, w, Inl (DriftLevels err))
      | Returned (Inr newLevels) \<Rightarrow>
          (case ge_state e of
             None \<Rightarrow> Panicked
           | Some st \<Rightarrow>
               (case cancelStaleOrders cancel (gst_Levels st) newLevels w of
                  (w1, Inl err) \<Rightarrow> Returned (e, w1, Inl err)
                | (w1, Inr cancelled) \<Rightarrow>
                    let st1 = st\<lparr>gst_Levels := map empty_level (enumerate 0 newLevels)\<rparr> in
                    (case placeNewOrders place newCfg (gst_Levels st1) newLevels currentPrice w1 of
                       (w2, placed) \<Rightarrow>
                         Returned
                           (e\<lparr>ge_config := newCfg, ge_state := Some st1, ge_lastDriftTime := clock 1,
                              ge_driftCount := ge_driftCount e + 1,
                              ge_gridSpacing := dl_div L (newUpper - newLower) (of_int (gc_GridCount cfg))\<rparr>,
                            w2,
                            Inr \<lparr>de_Timestamp = clock 0, de_Direction = direction,
                              de_TriggerReason = trigger_reason cfg currentPrice emergency,
                              de_TriggerPrice = currentPrice, de_OldLower = gc_LowerPrice cfg,
                              de_OldUpper = gc_UpperPrice cfg, de_NewLower = newLower, de_NewUpper = newUpper,
                              de_OrdersCancelled = int cancelled, de_OrdersPlaced = int placed,
                              de_OrdersFailed = max 0 (int (length newLevels) - int cancelled - int placed),
                              de_ElapsedMs = (clock 2 - clock 0) div 1000000, de_Success = True,
                              de_AbortReason = []\<rparr>)))))"

definition OnPriceUpdate ::
  "declib \<Rightarrow> 'f floatlib \<Rightarrow> (string \<Rightarrow> 'w \<Rightarrow> 'w \<times> bool) \<Rightarrow> (ExecOrderRequest \<Rightarrow> 'w \<Rightarrow> 'w \<times> bool) \<Rightarrow>
    time \<Rightarrow> (nat \<Rightarrow> time) \<Rightarrow> decimal \<Rightarrow> GridDriftEngine \<Rightarrow> 'w \<Rightarrow> (GridDriftEngine \<times> 'w \<times> bool) outcome" where
  "OnPriceUpdate L F cancel place now clock currentPrice e w =
     (case ge_driftConfig e of
        None \<Rightarrow> Returned (e, w, False)
      | Some dc \<Rightarrow>
          if \<not> dc_Enabled dc then Returned (e, w, False)
          else if 0 < dc_MaxDrifts dc \<and> dc_MaxDrifts dc \<le> ge_driftCount e then Returned (e, w, False)
          else
            (case shouldTriggerDrift e dc currentPrice of
               (direction, isEmergency) \<Rightarrow>
                 if direction = DriftNone then Returned (e, w, False)
                 else if isCooldownActive now e dc \<and> \<not> isEmergency then Returned (e, w, False)
                 else
                   (case executeDrift L F cancel place clock dc direction currentPrice isEmergency e w of
                      Panicked \<Rightarrow> Panicked
                    | Returned (e', w', Inl _) \<Rightarrow> Returned (e', w', False)
                    | Returned (e', w', Inr _) \<Rightarrow> Returned (e', w', True))))"

section \<open>The decision, exactly\<close>

lemma shouldTriggerDrift_direction:
  assumes "gc_LowerPrice (ge_config e) \<le> gc_UpperPrice (ge_config e)" and "0 \<le> dc_DriftThreshold dc"
  shows "fst (shouldTriggerDrift e dc price) =
    (let upper = gc_UpperPrice (ge_config e); lower = gc_LowerPrice (ge_config e);
         zone = dc_DriftThreshold dc * (upper - lower)
     in if lower \<le> price \<and> upper - zone \<le> price \<or> upper < price then DriftUp
        else if price \<le> lower + zone then DriftDown else DriftNone)"
proof -
  define z where "z = dc_DriftThreshold dc * (gc_UpperPrice (ge_config e) - gc_LowerPrice (ge_config e))"
  have "0 \<le> z" using assms by (simp add: z_def)
  then show ?thesis using assms(1) by (auto simp: shouldTriggerDrift_def Let_def z_def [symmetric])
qed

text \<open>The range keeps its width wherever it goes, and never reaches zero.\<close>

theorem computeNewRange_width:
  assumes "computeNewRange e dc direction = (lower, upper)" and "0 < gc_LowerPrice (ge_config e)"
  shows "upper - lower = gc_UpperPrice (ge_config e) - gc_LowerPrice (ge_config e) \<and> 0 < lower"
  using assms by (auto simp: computeNewRange_def Let_def split: DriftDirection.splits if_splits)

definition drift_grid :: GridConfig where
  "drift_grid = \<lparr>gc_Symbol = ''BTC-USDT'', gc_UpperPrice = 110, gc_LowerPrice = 90, gc_GridCount = 2,
     gc_GridType = GridTypeArithmetic, gc_OrderSize = 1, gc_MaxPosition = 0, gc_FeeRate = 0,
     gc_TakeProfitRatio = 0, gc_StopLossRatio = 0, gc_ReinvestProfit = False,
     gc_Drift = Some \<lparr>dc_Enabled = True, dc_DriftThreshold = 1 / 10, dc_DriftStep = 1,
       dc_CooldownPeriod = 60 * 1000000000, dc_MaxDrifts = 2\<rparr>\<rparr>"

definition drift_conf :: DriftConfig where
  "drift_conf = \<lparr>dc_Enabled = True, dc_DriftThreshold = 1 / 10, dc_DriftStep = 1,
     dc_CooldownPeriod = 60 * 1000000000, dc_MaxDrifts = 2\<rparr>"

definition exact_dec :: declib where
  "exact_dec = \<lparr>dl_div = (/), dl_round = (\<lambda>a _. a)\<rparr>"

definition live_level :: "int \<Rightarrow> decimal \<Rightarrow> string \<Rightarrow> GridLevel" where
  "live_level i p oid = \<lparr>gl_Index = i, gl_Price = p, gl_HasBuyOrder = True, gl_HasSellOrder = False, gl_OrderId = oid\<rparr>"

definition drift_engine :: GridDriftEngine where
  "drift_engine = \<lparr>ge_config = drift_grid, ge_driftConfig = Some drift_conf,
     ge_state = Some \<lparr>gst_Levels = [live_level 0 90 ''a'', live_level 1 100 ''b'', live_level 2 110 ''c''],
       gst_Position = 0, gst_AvgEntryPrice = 0, gst_RealizedPnL = 0, gst_TotalBuys = 0, gst_TotalSells = 0\<rparr>,
     ge_lastDriftTime = zero_time, ge_driftCount = 0, ge_gridSpacing = 10\<rparr>"

theorem computeNewRange_width_witness:
  "computeNewRange drift_engine drift_conf DriftUp = (100, 120) \<and> (120 :: rat) - 100 = 110 - 90"
proof -
  have r: "computeNewRange drift_engine drift_conf DriftUp = (100, 120)"
    by (simp add: computeNewRange_def drift_engine_def drift_grid_def drift_conf_def)
  show ?thesis using computeNewRange_width [OF r] r by (simp add: drift_engine_def drift_grid_def)
qed

section \<open>No order is placed\<close>

text \<open>
  The state's levels are replaced before the new orders are placed, and the levels to place are those
  that the state does not have: there are never any.
\<close>

lemma empty_level_prices: "map gl_Price (map empty_level (enumerate 0 newLevels)) = newLevels"
proof -
  have "gl_Price \<circ> empty_level = snd" by (simp add: fun_eq_iff empty_level_def)
  then show ?thesis by (simp only: map_map map_snd_enumerate)
qed

lemma new_levels_known: "drift_targets cfg (map empty_level (enumerate 0 newLevels)) newLevels p = []"
proof -
  have levels: "gl_Price ` set (map empty_level (enumerate 0 newLevels)) = set newLevels"
    using arg_cong [OF empty_level_prices [of newLevels], of set] by (simp only: set_map)
  have "lvl \<in> set newLevels" if "(i, lvl) \<in> set (enumerate 0 newLevels)" for i lvl
    using that by (auto simp: enumerate_eq_zip dest: set_zip_rightD)
  then show ?thesis unfolding drift_targets_def levels by (auto simp: filter_empty_conv)
qed

lemma executeDrift_spec:
  assumes "executeDrift L F cancel place clock dc direction p emergency e w = Returned (e', w', r)"
  shows "case r of
     Inl _ \<Rightarrow> e' = e
   | Inr ev \<Rightarrow> de_OrdersPlaced ev = 0 \<and> ge_driftCount e' = ge_driftCount e + 1 \<and> ge_lastDriftTime e' = clock 1 \<and>
       ge_driftConfig e' = ge_driftConfig e \<and>
       (gc_LowerPrice (ge_config e'), gc_UpperPrice (ge_config e')) = computeNewRange e dc direction \<and>
       (\<exists>st st' newLevels. ge_state e = Some st \<and> ge_state e' = Some st' \<and>
          CalculateGridLevels L F (ge_config e') = Returned (Inr newLevels) \<and>
          map gl_Price (gst_Levels st') = newLevels \<and>
          (\<forall>l \<in> set (gst_Levels st'). \<not> gl_HasBuyOrder l \<and> \<not> gl_HasSellOrder l \<and> gl_OrderId l = []) \<and>
          cancelStaleOrders cancel (gst_Levels st) newLevels w = (w', Inr (nat (de_OrdersCancelled ev))))"
proof -
  have blank: "\<forall>l \<in> set (map empty_level (enumerate 0 xs)). \<not> gl_HasBuyOrder l \<and> \<not> gl_HasSellOrder l \<and> gl_OrderId l = []" for xs
    by (auto simp: empty_level_def)
  obtain lo hi where range: "computeNewRange e dc direction = (lo, hi)" by force
  show ?thesis
    using assms empty_level_prices blank
    by (auto simp: executeDrift_def range Let_def placeNewOrders_def new_levels_known
        split: outcome.splits sum.splits option.splits prod.splits)
qed

lemma executeDrift_place_unused:
  "executeDrift L F cancel place clock dc direction p emergency e w =
   executeDrift L F cancel place' clock dc direction p emergency e w"
  by (auto simp: executeDrift_def placeNewOrders_def new_levels_known Let_def
      split: outcome.split sum.split option.split prod.split)

text \<open>What a price update does never depends on how orders are placed: none is. A drift leaves a grid without any
  order of its own: the levels it keeps lose the orders they had, so no later drift cancels those.\<close>

theorem drift_never_places:
  "OnPriceUpdate L F cancel place now clock p e w = OnPriceUpdate L F cancel place' now clock p e w"
proof -
  have unused: "executeDrift L F cancel place = executeDrift L F cancel place'"
    by (intro ext) (rule executeDrift_place_unused)
  show ?thesis unfolding OnPriceUpdate_def unused ..
qed

lemma OnPriceUpdate_cases:
  assumes "OnPriceUpdate L F cancel place now clock p e w = Returned (e', w', b)"
  shows "(\<not> b \<and> e' = e) \<or>
    (b \<and> (\<exists>dc dir em ev. ge_driftConfig e = Some dc \<and> dc_Enabled dc \<and>
       (0 < dc_MaxDrifts dc \<longrightarrow> ge_driftCount e < dc_MaxDrifts dc) \<and>
       shouldTriggerDrift e dc p = (dir, em) \<and> dir \<noteq> DriftNone \<and> (isCooldownActive now e dc \<longrightarrow> em) \<and>
       executeDrift L F cancel place clock dc dir p em e w = Returned (e', w', Inr ev)))"
proof (cases b)
  case True
  then show ?thesis using assms
    by (auto simp: OnPriceUpdate_def split: option.splits if_splits prod.splits outcome.splits sum.splits)
next
  case False
  then have "e' = e" using assms
    by (auto simp: OnPriceUpdate_def split: option.splits if_splits prod.splits outcome.splits sum.splits
        dest!: executeDrift_spec)
  then show ?thesis using False by simp
qed

text \<open>A drift replaces the levels by those of the shifted range, none of which carries an order.\<close>

theorem drift_forgets_orders:
  assumes "OnPriceUpdate L F cancel place now clock p e w = Returned (e', w', True)"
    and "0 < gc_LowerPrice (ge_config e)"
  shows "\<exists>st'. ge_state e' = Some st' \<and> stale_orders (gst_Levels st') later = [] \<and>
    CalculateGridLevels L F (ge_config e') = Returned (Inr (map gl_Price (gst_Levels st'))) \<and>
    0 < gc_LowerPrice (ge_config e') \<and>
    gc_UpperPrice (ge_config e') - gc_LowerPrice (ge_config e') = gc_UpperPrice (ge_config e) - gc_LowerPrice (ge_config e)"
proof -
  obtain dc dir em ev where x: "executeDrift L F cancel place clock dc dir p em e w = Returned (e', w', Inr ev)"
    using OnPriceUpdate_cases [OF assms(1)] by auto
  note sp = executeDrift_spec [OF x, simplified]
  then obtain st' where st': "ge_state e' = Some st'"
    "CalculateGridLevels L F (ge_config e') = Returned (Inr (map gl_Price (gst_Levels st')))"
    "\<forall>l \<in> set (gst_Levels st'). \<not> gl_HasBuyOrder l \<and> \<not> gl_HasSellOrder l \<and> gl_OrderId l = []" by blast
  have "stale_orders (gst_Levels st') later = []" using st'(3) by (auto simp: stale_orders_def filter_empty_conv)
  moreover have range: "computeNewRange e dc dir = (gc_LowerPrice (ge_config e'), gc_UpperPrice (ge_config e'))"
    using sp by simp
  ultimately show ?thesis using computeNewRange_width [OF range assms(2)] st' by auto
qed

section \<open>Runs\<close>

text \<open>Price updates with their clocks; a panic ends the run.\<close>

fun drift_run ::
  "declib \<Rightarrow> 'f floatlib \<Rightarrow> (string \<Rightarrow> 'w \<Rightarrow> 'w \<times> bool) \<Rightarrow> (ExecOrderRequest \<Rightarrow> 'w \<Rightarrow> 'w \<times> bool) \<Rightarrow>
    (time \<times> (nat \<Rightarrow> time) \<times> decimal) list \<Rightarrow> GridDriftEngine \<Rightarrow> 'w \<Rightarrow> (GridDriftEngine \<times> 'w \<times> nat) outcome" where
  "drift_run L F cancel place [] e w = Returned (e, w, 0)"
| "drift_run L F cancel place ((now, clock, p) # ups) e w =
     (case OnPriceUpdate L F cancel place now clock p e w of
        Panicked \<Rightarrow> Panicked
      | Returned (e1, w1, b) \<Rightarrow>
          (case drift_run L F cancel place ups e1 w1 of
             Panicked \<Rightarrow> Panicked
           | Returned (e2, w2, k) \<Rightarrow> Returned (e2, w2, if b then Suc k else k)))"

lemma OnPriceUpdate_count:
  assumes "OnPriceUpdate L F cancel place now clock p e w = Returned (e', w', b)"
  shows "ge_driftConfig e' = ge_driftConfig e \<and> ge_driftCount e' = ge_driftCount e + (if b then 1 else 0) \<and>
    (b \<longrightarrow> (\<forall>dc. ge_driftConfig e = Some dc \<longrightarrow> 0 < dc_MaxDrifts dc \<longrightarrow> ge_driftCount e < dc_MaxDrifts dc))"
  using OnPriceUpdate_cases [OF assms] by (auto dest!: executeDrift_spec)

text \<open>However the price moves, the drifts of a session are counted exactly and never exceed the configured maximum.\<close>

theorem drifts_limited:
  assumes "drift_run L F cancel place ups e w = Returned (e', w', k)" and "ge_driftConfig e = Some dc"
    and "0 < dc_MaxDrifts dc" and "ge_driftCount e \<le> dc_MaxDrifts dc"
  shows "ge_driftCount e' = ge_driftCount e + int k \<and> ge_driftCount e' \<le> dc_MaxDrifts dc"
  using assms
proof (induction ups arbitrary: e w k)
  case (Cons u ups)
  obtain now clock p where u: "u = (now, clock, p)" by (cases u) auto
  obtain e1 w1 b k1 where one: "OnPriceUpdate L F cancel place now clock p e w = Returned (e1, w1, b)"
    and rest: "drift_run L F cancel place ups e1 w1 = Returned (e', w', k1)" and k: "k = (if b then Suc k1 else k1)"
    using Cons.prems(1) by (auto simp: u split: outcome.splits prod.splits)
  have c: "ge_driftConfig e1 = Some dc" "ge_driftCount e1 = ge_driftCount e + (if b then 1 else 0)"
    "ge_driftCount e1 \<le> dc_MaxDrifts dc"
    using OnPriceUpdate_count [OF one] Cons.prems(2-4) by (auto split: if_splits)
  show ?case using Cons.IH [OF rest c(1) Cons.prems(3) c(3)] c(2) k by auto
qed simp

section \<open>Concrete runs\<close>

definition cancel_ok :: "string \<Rightarrow> string list \<Rightarrow> string list \<times> bool" where
  "cancel_ok oid w = (w @ [oid], True)"

definition place_ok :: "ExecOrderRequest \<Rightarrow> string list \<Rightarrow> string list \<times> bool" where
  "place_ok r w = (w @ [''placed''], True)"

lemma drift_levels: "CalculateGridLevels exact_dec F (drift_grid\<lparr>gc_LowerPrice := 100, gc_UpperPrice := 120\<rparr>) =
    Returned (Inr [100, 110, 120])"
  by (simp add: CalculateGridLevels_def drift_grid_def calculateArithmeticLevels_def validateLevels_def
      exact_dec_def Let_def numeral_eq_Suc)

text \<open>At 115 the grid moves up by one step: the order at 90 is cancelled, those at 100 and 110 stay on the exchange
  and are forgotten, and nothing is placed at 120.\<close>

lemma sample_drift:
  "\<exists>e'. OnPriceUpdate exact_dec sample_floats cancel_ok place_ok 1 (\<lambda>_. 1) 115 drift_engine [] = Returned (e', [''a''], True) \<and>
    ge_driftCount e' = 1"
proof -
  have trig: "shouldTriggerDrift drift_engine drift_conf 115 = (DriftUp, False)"
    by (simp add: shouldTriggerDrift_def isEmergencyOverride_def drift_engine_def drift_grid_def drift_conf_def)
  have range: "computeNewRange drift_engine drift_conf DriftUp = (100, 120)"
    by (simp add: computeNewRange_def drift_engine_def drift_grid_def drift_conf_def)
  have cfg: "ge_driftConfig drift_engine = Some drift_conf" "ge_config drift_engine = drift_grid"
    "ge_driftCount drift_engine = 0" "ge_lastDriftTime drift_engine = zero_time"
    by (simp_all add: drift_engine_def)
  have conf: "dc_Enabled drift_conf" "dc_MaxDrifts drift_conf = 2" by (simp_all add: drift_conf_def)
  have st: "ge_state drift_engine = Some \<lparr>gst_Levels = [live_level 0 90 ''a'', live_level 1 100 ''b'', live_level 2 110 ''c''],
      gst_Position = 0, gst_AvgEntryPrice = 0, gst_RealizedPnL = 0, gst_TotalBuys = 0, gst_TotalSells = 0\<rparr>"
    by (simp add: drift_engine_def)
  have cancel: "cancelStaleOrders cancel_ok [live_level 0 90 ''a'', live_level 1 100 ''b'', live_level 2 110 ''c'']
      [100, 110, 120] [] = ([''a''], Inr 1)"
    by (simp add: cancelStaleOrders_def stale_orders_def live_level_def cancel_ok_def numeral_eq_Suc)
  show ?thesis
    by (simp add: OnPriceUpdate_def cfg conf trig isCooldownActive_def executeDrift_def range drift_levels st cancel
        placeNewOrders_def new_levels_known [of _ "[100, 110, 120]", simplified])
qed

theorem drift_forgets_orders_witness:
  "\<exists>e'. OnPriceUpdate exact_dec sample_floats cancel_ok place_ok 1 (\<lambda>_. 1) 115 drift_engine [] = Returned (e', [''a''], True) \<and>
    (\<exists>st'. ge_state e' = Some st' \<and> stale_orders (gst_Levels st') [200] = []) \<and>
    gc_UpperPrice (ge_config e') - gc_LowerPrice (ge_config e') = 20"
proof -
  obtain e' where run: "OnPriceUpdate exact_dec sample_floats cancel_ok place_ok 1 (\<lambda>_. 1) 115 drift_engine [] =
      Returned (e', [''a''], True)" using sample_drift by auto
  have "0 < gc_LowerPrice (ge_config drift_engine)" by (simp add: drift_engine_def drift_grid_def)
  from drift_forgets_orders [OF run this, of "[200]"] run show ?thesis
    by (auto simp: drift_engine_def drift_grid_def)
qed

theorem drifts_limited_witness:
  "\<exists>e' w'. drift_run exact_dec sample_floats cancel_ok place_ok [(1, \<lambda>_. 1, 115)] drift_engine [] = Returned (e', w', 1) \<and>
    ge_driftCount e' = 1"
proof -
  obtain e' where run: "drift_run exact_dec sample_floats cancel_ok place_ok [(1, \<lambda>_. 1, 115)] drift_engine [] =
      Returned (e', [''a''], 1)" using sample_drift by auto
  have "ge_driftConfig drift_engine = Some drift_conf" "0 < dc_MaxDrifts drift_conf"
    "ge_driftCount drift_engine \<le> dc_MaxDrifts drift_conf" "ge_driftCount drift_engine = 0"
    by (simp_all add: drift_engine_def drift_conf_def)
  then show ?thesis using drifts_limited [OF run] run by auto
qed

section \<open>An engine without state\<close>

text \<open>The scheduler builds its engines with a nil state that nothing sets later: the first drift panics.\<close>

theorem nil_state_drift_panics:
  assumes "ge_state e = None" and "ge_driftConfig e = Some dc" and "dc_Enabled dc"
    and "\<not> (0 < dc_MaxDrifts dc \<and> dc_MaxDrifts dc \<le> ge_driftCount e)"
    and "shouldTriggerDrift e dc p = (dir, em)" and "dir \<noteq> DriftNone" and "\<not> isCooldownActive now e dc"
    and "computeNewRange e dc dir = (lower, upper)"
    and "CalculateGridLevels L F ((ge_config e)\<lparr>gc_LowerPrice := lower, gc_UpperPrice := upper\<rparr>) = Returned (Inr levels)"
  shows "OnPriceUpdate L F cancel place now clock p e w = Panicked"
  using assms by (simp add: OnPriceUpdate_def executeDrift_def)

theorem nil_state_drift_panics_witness:
  "OnPriceUpdate exact_dec sample_floats cancel_ok place_ok 1 (\<lambda>_. 1) 115 (drift_engine\<lparr>ge_state := None\<rparr>) [] = Panicked"
proof (rule nil_state_drift_panics [where dc = drift_conf and dir = DriftUp and em = False and lower = 100 and upper = 120
      and levels = "[100, 110, 120]"])
  show "CalculateGridLevels exact_dec sample_floats
      ((ge_config (drift_engine\<lparr>ge_state := None\<rparr>))\<lparr>gc_LowerPrice := 100, gc_UpperPrice := 120\<rparr>) = Returned (Inr [100, 110, 120])"
    using drift_levels by (simp add: drift_engine_def)
qed (simp_all add: drift_engine_def drift_conf_def drift_grid_def shouldTriggerDrift_def isEmergencyOverride_def
    isCooldownActive_def computeNewRange_def)

end
