(* ===== verification/MeanReversion.thy ===== *)
theory MeanReversion
  imports Models RingBuffer
begin

text \<open>
  The moving averages and the signal generator of the mean reversion strategy
  (\<open>src/internal/strategy/mean_reversion.go\<close>, \<open>mean_reversion_signal.go\<close>). The circular buffer is the
  third instance of the locale \<open>bounded_log\<close>. \<open>fsqrt\<close> stands for the float square root that starts the
  Newton iteration (\<open>None\<close> when the float of the variance is not positive).
\<close>

section \<open>The circular buffer\<close>

record PriceVolume =
  pv_Price :: decimal
  pv_Volume :: decimal

record MRRingBuffer =
  mr_data :: "PriceVolume list"
  mr_capacity :: nat
  mr_head :: nat
  mr_count :: nat

definition NewMRRingBuffer :: "int \<Rightarrow> MRRingBuffer" where
  "NewMRRingBuffer capacity =
     (let c = (if capacity \<le> 0 then 1 else nat capacity)
      in \<lparr>mr_data = replicate c \<lparr>pv_Price = 0, pv_Volume = 0\<rparr>, mr_capacity = c, mr_head = 0, mr_count = 0\<rparr>)"

definition MR_Push :: "MRRingBuffer \<Rightarrow> PriceVolume \<Rightarrow> MRRingBuffer" where
  "MR_Push rb pv = rb\<lparr>mr_data := (mr_data rb)[mr_head rb := pv],
     mr_head := (mr_head rb + 1) mod mr_capacity rb,
     mr_count := (if mr_count rb < mr_capacity rb then mr_count rb + 1 else mr_count rb)\<rparr>"

definition MR_Len :: "MRRingBuffer \<Rightarrow> nat" where
  "MR_Len rb = mr_count rb"

definition MR_Cap :: "MRRingBuffer \<Rightarrow> nat" where
  "MR_Cap rb = mr_capacity rb"

definition MR_GetAll :: "MRRingBuffer \<Rightarrow> PriceVolume list" where
  "MR_GetAll rb =
     (if mr_count rb = 0 then []
      else
        let start = (mr_head rb + mr_capacity rb - mr_count rb) mod mr_capacity rb
        in map (\<lambda>i. mr_data rb ! ((start + i) mod mr_capacity rb)) [0..<mr_count rb])"

definition MR_GetLast :: "MRRingBuffer \<Rightarrow> int \<Rightarrow> PriceVolume list" where
  "MR_GetLast rb n =
     (if n \<le> 0 then []
      else
        let m = (if n > int (mr_count rb) then mr_count rb else nat n);
            start = (mr_head rb + mr_capacity rb - m) mod mr_capacity rb
        in map (\<lambda>i. mr_data rb ! ((start + i) mod mr_capacity rb)) [0..<m])"

section \<open>Averages\<close>

definition CalculateSMA :: "declib \<Rightarrow> decimal list \<Rightarrow> decimal" where
  "CalculateSMA L prices =
     (if prices = [] then 0 else dl_div L (foldl (+) 0 prices) (of_nat (length prices)))"

definition min_max :: "decimal \<Rightarrow> decimal list \<Rightarrow> decimal \<times> decimal" where
  "min_max p ps = foldl (\<lambda>(lo, hi) q. (if q < lo then q else lo, if q > hi then q else hi)) (p, p) ps"

definition CalculateEMA :: "declib \<Rightarrow> decimal list \<Rightarrow> int \<Rightarrow> decimal" where
  "CalculateEMA L prices lookbackPeriod =
     (case prices of
        [] \<Rightarrow> 0
      | p # ps \<Rightarrow>
          if lookbackPeriod \<le> 0 then 0
          else
            let alpha = dl_div L 2 (of_int (lookbackPeriod + 1));
                ema = foldl (\<lambda>ema q. alpha * q + (1 - alpha) * ema) p ps;
                (lo, hi) = min_max p ps;
                ema1 = (if ema < lo then lo else ema)
            in if ema1 > hi then hi else ema1)"

definition CalculateVWAP :: "declib \<Rightarrow> decimal list \<Rightarrow> decimal list \<Rightarrow> decimal" where
  "CalculateVWAP L prices volumes =
     (if prices = [] \<or> volumes = [] \<or> length prices \<noteq> length volumes then 0
      else
        let (spv, sv) = foldl (\<lambda>(spv, sv) (p, v). (spv + p * v, sv + v)) (0, 0) (zip prices volumes)
        in if sv = 0 then 0 else dl_div L spv sv)"

record MeanReversionCalculator =
  mrc_buffer :: MRRingBuffer
  mrc_lookbackPeriod :: int

definition NewMeanReversionCalculator :: "int \<Rightarrow> MeanReversionCalculator option" where
  "NewMeanReversionCalculator lookbackPeriod =
     (if lookbackPeriod \<le> 0 then None
      else Some \<lparr>mrc_buffer = NewMRRingBuffer lookbackPeriod, mrc_lookbackPeriod = lookbackPeriod\<rparr>)"

definition MRC_AddDataPoint :: "decimal \<Rightarrow> decimal \<Rightarrow> MeanReversionCalculator \<Rightarrow> MeanReversionCalculator" where
  "MRC_AddDataPoint price volume c =
     c\<lparr>mrc_buffer := MR_Push (mrc_buffer c) \<lparr>pv_Price = price, pv_Volume = volume\<rparr>\<rparr>"

definition DataCount :: "MeanReversionCalculator \<Rightarrow> nat" where
  "DataCount c = MR_Len (mrc_buffer c)"

definition MRC_HasEnoughData :: "MeanReversionCalculator \<Rightarrow> bool" where
  "MRC_HasEnoughData c = (mrc_lookbackPeriod c \<le> int (MR_Len (mrc_buffer c)))"

definition GetSMA :: "declib \<Rightarrow> MeanReversionCalculator \<Rightarrow> decimal" where
  "GetSMA L c = CalculateSMA L (map pv_Price (MR_GetAll (mrc_buffer c)))"

definition GetEMA :: "declib \<Rightarrow> MeanReversionCalculator \<Rightarrow> decimal" where
  "GetEMA L c = CalculateEMA L (map pv_Price (MR_GetAll (mrc_buffer c))) (mrc_lookbackPeriod c)"

definition MR_GetVWAP :: "declib \<Rightarrow> MeanReversionCalculator \<Rightarrow> decimal" where
  "MR_GetVWAP L c = CalculateVWAP L (map pv_Price (MR_GetAll (mrc_buffer c))) (map pv_Volume (MR_GetAll (mrc_buffer c)))"

section \<open>Deviation and score\<close>

text \<open>Newton's iteration with the iterations left; an iterate of zero is returned at once.\<close>

fun newton :: "declib \<Rightarrow> decimal \<Rightarrow> nat \<Rightarrow> decimal \<Rightarrow> decimal" where
  "newton L variance 0 x = x"
| "newton L variance (Suc n) x =
     (if x = 0 then 0
      else
        let xNew = dl_div L (x + dl_div L variance x) 2
        in if xNew = x then x else newton L variance n xNew)"

definition CalculateStdDev :: "declib \<Rightarrow> (decimal \<Rightarrow> decimal option) \<Rightarrow> decimal list \<Rightarrow> decimal \<Rightarrow> decimal" where
  "CalculateStdDev L fsqrt prices mean =
     (if prices = [] then 0
      else
        let sumSquares = foldl (\<lambda>s p. s + (p - mean) * (p - mean)) 0 prices;
            variance = dl_div L sumSquares (of_nat (length prices))
        in if variance = 0 then 0
           else (case fsqrt variance of None \<Rightarrow> 0 | Some x \<Rightarrow> newton L variance 20 x))"

definition CalculateZScore :: "declib \<Rightarrow> decimal \<Rightarrow> decimal \<Rightarrow> decimal \<Rightarrow> decimal option" where
  "CalculateZScore L currentPrice mean stdDev =
     (if stdDev = 0 then None else Some (dl_div L (currentPrice - mean) stdDev))"

section \<open>The signal generator\<close>

record SignalGeneratorConfig =
  sg_EntryThreshold :: decimal
  sg_ExitThreshold :: decimal
  sg_CooldownMs :: int
  sg_LookbackPeriod :: int
  sg_MAType :: MAType

record SignalGenerator =
  sgn_config :: SignalGeneratorConfig
  sgn_calculator :: "MeanReversionCalculator option"
  sgn_lastSignal :: SignalDirection
  sgn_lastSignalTime :: time

definition NewSignalGenerator :: "SignalGeneratorConfig \<Rightarrow> SignalGenerator" where
  "NewSignalGenerator config =
     (let c1 = (if sg_CooldownMs config < 100 then config\<lparr>sg_CooldownMs := 100\<rparr> else config);
          c2 = (if sg_CooldownMs c1 > 60000 then c1\<lparr>sg_CooldownMs := 60000\<rparr> else c1)
      in \<lparr>sgn_config = c2, sgn_calculator = NewMeanReversionCalculator (sg_LookbackPeriod c2),
          sgn_lastSignal = SignalDirectionNone, sgn_lastSignalTime = zero_time\<rparr>)"

text \<open>The constructor's error is dropped, so the calculator may be nil; then every use panics.\<close>

definition SG_AddDataPoint :: "decimal \<Rightarrow> decimal \<Rightarrow> SignalGenerator \<Rightarrow> SignalGenerator outcome" where
  "SG_AddDataPoint price volume sg =
     (case sgn_calculator sg of
        None \<Rightarrow> Panicked
      | Some c \<Rightarrow> Returned (sg\<lparr>sgn_calculator := Some (MRC_AddDataPoint price volume c)\<rparr>))"

definition getMean :: "declib \<Rightarrow> SignalGenerator \<Rightarrow> MeanReversionCalculator \<Rightarrow> decimal" where
  "getMean L sg c =
     (case sg_MAType (sgn_config sg) of
        MATypeEMA \<Rightarrow> GetEMA L c | MATypeVWAP \<Rightarrow> MR_GetVWAP L c | _ \<Rightarrow> GetSMA L c)"

definition raw_signal :: "SignalGeneratorConfig \<Rightarrow> decimal \<Rightarrow> SignalDirection option" where
  "raw_signal cfg zscore =
     (if zscore < - sg_EntryThreshold cfg then Some SignalDirectionBuy
      else if zscore > sg_EntryThreshold cfg then Some SignalDirectionSell
      else if \<bar>zscore\<bar> < sg_ExitThreshold cfg then Some SignalDirectionClose
      else None)"

definition GenerateSignal ::
  "declib \<Rightarrow> (decimal \<Rightarrow> decimal option) \<Rightarrow> decimal \<Rightarrow> time \<Rightarrow> SignalGenerator \<Rightarrow>
    (SignalGenerator \<times> SignalDirection) outcome" where
  "GenerateSignal L fsqrt currentPrice now sg =
     (case sgn_calculator sg of
        None \<Rightarrow> Panicked
      | Some c \<Rightarrow>
          let kept = Returned (sg, sgn_lastSignal sg) in
          if \<not> MRC_HasEnoughData c then kept
          else
            let mean = getMean L sg c;
                stdDev = CalculateStdDev L fsqrt (map pv_Price (MR_GetAll (mrc_buffer c))) mean
            in (case CalculateZScore L currentPrice mean stdDev of
                  None \<Rightarrow> kept
                | Some zscore \<Rightarrow>
                    (case raw_signal (sgn_config sg) zscore of
                       None \<Rightarrow> kept
                     | Some newSignal \<Rightarrow>
                         if newSignal = sgn_lastSignal sg then kept
                         else if sgn_lastSignalTime sg \<noteq> zero_time \<and>
                           now - sgn_lastSignalTime sg < sg_CooldownMs (sgn_config sg) * 1000000 then kept
                         else Returned (sg\<lparr>sgn_lastSignal := newSignal, sgn_lastSignalTime := now\<rparr>, newSignal))))"

definition LastSignal :: "SignalGenerator \<Rightarrow> SignalDirection" where
  "LastSignal sg = sgn_lastSignal sg"

definition LastSignalTime :: "SignalGenerator \<Rightarrow> time" where
  "LastSignalTime sg = sgn_lastSignalTime sg"

section \<open>The buffer is a bounded log\<close>

text \<open>The entries from the newest to the oldest.\<close>

definition mr_recent :: "MRRingBuffer \<Rightarrow> PriceVolume list" where
  "mr_recent rb =
     map (\<lambda>j. mr_data rb ! ((mr_head rb + mr_capacity rb - 1 - j) mod mr_capacity rb)) [0..<mr_count rb]"

definition mr_inv :: "MRRingBuffer \<Rightarrow> bool" where
  "mr_inv rb \<longleftrightarrow> length (mr_data rb) = mr_capacity rb \<and> mr_head rb < mr_capacity rb \<and> mr_count rb \<le> mr_capacity rb"

lemma mr_inv_New [inv_intros]: "mr_inv (NewMRRingBuffer n)" "mr_recent (NewMRRingBuffer n) = []"
    "mr_capacity (NewMRRingBuffer n) = (if n \<le> 0 then 1 else nat n)"
  by (simp_all add: mr_inv_def NewMRRingBuffer_def mr_recent_def Let_def)

lemma MR_GetLast_recent:
  assumes "mr_inv rb" and "0 < n"
  shows "MR_GetLast rb n = rev (take (nat n) (mr_recent rb))"
proof -
  define m where "m = min (nat n) (mr_count rb)"
  have m: "m \<le> mr_count rb" "m \<le> mr_capacity rb" using assms by (auto simp: m_def mr_inv_def)
  have "MR_GetLast rb n = map (\<lambda>i. mr_data rb ! (((mr_head rb + mr_capacity rb - m) mod mr_capacity rb + i)
      mod mr_capacity rb)) [0..<m]"
    using assms(2) by (auto simp: MR_GetLast_def m_def Let_def min_def)
  also have "\<dots> = rev (take m (mr_recent rb))"
  proof (rule nth_equalityI)
    fix i assume i: "i < length (map (\<lambda>i. mr_data rb ! (((mr_head rb + mr_capacity rb - m) mod mr_capacity rb + i)
      mod mr_capacity rb)) [0..<m])"
    then have "i < m" by simp
    then have e: "mr_head rb + mr_capacity rb - m + i = mr_head rb + mr_capacity rb - 1 - (m - 1 - i)"
      using m by linarith
    have "((mr_head rb + mr_capacity rb - m) mod mr_capacity rb + i) mod mr_capacity rb =
        (mr_head rb + mr_capacity rb - 1 - (m - 1 - i)) mod mr_capacity rb"
      unfolding e [symmetric] by (simp add: mod_add_left_eq)
    then show "map (\<lambda>i. mr_data rb ! (((mr_head rb + mr_capacity rb - m) mod mr_capacity rb + i)
        mod mr_capacity rb)) [0..<m] ! i = rev (take m (mr_recent rb)) ! i"
      using \<open>i < m\<close> m by (simp add: mr_recent_def rev_nth)
  qed (use m in \<open>simp add: mr_recent_def\<close>)
  also have "take m (mr_recent rb) = take (nat n) (mr_recent rb)"
    by (simp add: m_def mr_recent_def min_def)
  finally show ?thesis .
qed

lemma MR_GetAll_recent: "mr_inv rb \<Longrightarrow> MR_GetAll rb = rev (mr_recent rb)"
  using MR_GetLast_recent [of rb "int (mr_count rb)"]
  by (cases "mr_count rb = 0") (auto simp: MR_GetAll_def MR_GetLast_def mr_recent_def Let_def)

lemma mr_recent_push:
  assumes "mr_inv rb"
  shows "mr_recent (MR_Push rb x) = take (mr_capacity rb) (x # mr_recent rb)"
proof (rule nth_equalityI)
  let ?c = "mr_capacity rb" and ?h = "mr_head rb"
  have c: "?h < ?c" "length (mr_data rb) = ?c" "mr_count rb \<le> ?c" using assms by (auto simp: mr_inv_def)
  show "length (mr_recent (MR_Push rb x)) = length (take ?c (x # mr_recent rb))"
    using c by (auto simp: mr_recent_def MR_Push_def)
  fix i assume "i < length (mr_recent (MR_Push rb x))"
  then have i: "i < ?c" "i \<le> mr_count rb" using c by (auto simp: mr_recent_def MR_Push_def split: if_splits)
  have entry: "mr_recent (MR_Push rb x) ! i = (mr_data rb)[?h := x] ! ((Suc ?h mod ?c + ?c - 1 - i) mod ?c)"
    using \<open>i < length (mr_recent (MR_Push rb x))\<close> by (simp add: mr_recent_def MR_Push_def)
  show "mr_recent (MR_Push rb x) ! i = take ?c (x # mr_recent rb) ! i"
  proof (cases i)
    case 0
    have "(Suc ?h mod ?c + ?c - 1) mod ?c = ?h"
      using c(1) by (cases "Suc ?h < ?c") (auto simp: not_less le_Suc_eq)
    then show ?thesis using entry 0 c i by simp
  next
    case (Suc j)
    have idx: "(Suc ?h mod ?c + ?c - 1 - i) mod ?c = (?h + ?c - 1 - j) mod ?c"
    proof (cases "Suc ?h < ?c")
      case False
      then have h: "Suc ?h = ?c" using c(1) by simp
      have "?h + ?c - 1 - j = ?c + (?c - 2 - j)" using h i Suc by linarith
      then have "(?h + ?c - 1 - j) mod ?c = (?c - 2 - j) mod ?c" by simp
      moreover have "Suc ?h mod ?c + ?c - 1 - i = ?c - 2 - j" using h Suc by simp
      ultimately show ?thesis by simp
    qed (simp add: Suc)
    have "(?h + ?c - 1 - j) mod ?c \<noteq> ?h"
    proof (cases "?h + ?c - 1 - j < ?c")
      case True
      then show ?thesis using i Suc by simp
    next
      case False
      then have "(?h + ?c - 1 - j) mod ?c = ?h + ?c - 1 - j - ?c" using c(1) by (simp add: le_mod_geq)
      then show ?thesis using False i Suc by simp
    qed
    then show ?thesis using entry idx Suc i by (simp add: mr_recent_def)
  qed
qed

lemma mr_inv_push [inv_intros]: "mr_inv rb \<Longrightarrow> mr_inv (MR_Push rb x)"
  by (auto simp: mr_inv_def MR_Push_def)

interpretation mr_ring: bounded_log mr_inv mr_capacity MR_Push MR_GetAll
proof unfold_locales
  fix rb x assume inv: "mr_inv rb"
  show "mr_inv (MR_Push rb x)" by (rule mr_inv_push [OF inv])
  show "mr_capacity (MR_Push rb x) = mr_capacity rb" by (simp add: MR_Push_def)
  show "length (MR_GetAll rb) \<le> mr_capacity rb"
    using inv by (simp add: MR_GetAll_recent mr_recent_def) (simp add: mr_inv_def)
  have "MR_GetAll (MR_Push rb x) = rev (take (mr_capacity rb) (x # mr_recent rb))"
    by (simp add: MR_GetAll_recent mr_inv_push inv mr_recent_push)
  also have "\<dots> = take_last (mr_capacity rb) (rev (x # mr_recent rb))"
    by (simp only: take_last_def rev_take length_rev)
  also have "rev (x # mr_recent rb) = MR_GetAll rb @ [x]"
    by (simp add: MR_GetAll_recent inv)
  finally show "MR_GetAll (MR_Push rb x) = take_last (mr_capacity rb) (MR_GetAll rb @ [x])" .
qed

text \<open>After any points the buffer answers with the last of them, as many as the lookback period holds, and
  \<open>GetLast\<close> with a suffix of those.\<close>

theorem MR_buffer_exact:
  assumes "0 < n" and "0 < k"
  shows "MR_GetAll (foldl MR_Push (NewMRRingBuffer n) pvs) = take_last (nat n) pvs \<and>
    MR_GetLast (foldl MR_Push (NewMRRingBuffer n) pvs) k = take_last (nat k) (take_last (nat n) pvs)"
proof -
  let ?rb = "foldl MR_Push (NewMRRingBuffer n) pvs"
  have e: "MR_GetAll (NewMRRingBuffer n) = []" by (simp add: MR_GetAll_def NewMRRingBuffer_def Let_def)
  have all: "mr_inv ?rb" "MR_GetAll ?rb = take_last (nat n) pvs"
    using mr_ring.log_contents [OF mr_inv_New(1), of n pvs] assms(1) e by (simp_all add: mr_inv_New)
  have "MR_GetLast ?rb k = take_last (nat k) (rev (mr_recent ?rb))"
    by (simp add: MR_GetLast_recent [OF all(1) assms(2)] take_last_def rev_take)
  then show ?thesis using all by (simp add: MR_GetAll_recent)
qed

theorem MR_buffer_exact_witness:
  "MR_GetAll (foldl MR_Push (NewMRRingBuffer 2) (map (\<lambda>p. \<lparr>pv_Price = p, pv_Volume = 1\<rparr>) [1, 2, 3])) =
    map (\<lambda>p. \<lparr>pv_Price = p, pv_Volume = 1\<rparr>) [2, 3]"
  using MR_buffer_exact [of 2 1 "map (\<lambda>p. \<lparr>pv_Price = p, pv_Volume = 1\<rparr>) [1, 2, 3]"] by (simp add: take_last_def)

section \<open>Averages stay within the prices\<close>

abbreviation ulp16 :: decimal where
  "ulp16 \<equiv> 1 / (2 * 10 ^ 16)"

lemma foldl_add_sum: "foldl (+) (a :: decimal) xs = a + sum_list xs"
  by (induction xs arbitrary: a) (simp_all add: add.assoc)

lemma quotient_near:
  assumes "declib_ok L" and "0 < b" and "lo * b \<le> a" and "a \<le> hi * b"
  shows "lo - ulp16 \<le> dl_div L a b" and "dl_div L a b \<le> hi + ulp16"
proof -
  have near: "near_multiple 16 (a / b) (dl_div L a b)" using declib_div [OF assms(1)] assms(2) by simp
  have "lo \<le> a / b" "a / b \<le> hi" using assms by (simp_all add: pos_le_divide_eq pos_divide_le_eq)
  with near_multiple_bounds [OF near] show "lo - ulp16 \<le> dl_div L a b" "dl_div L a b \<le> hi + ulp16" by simp_all
qed

lemma sum_list_range:
  fixes lo hi :: decimal
  assumes "list_all (\<lambda>p. lo \<le> p \<and> p \<le> hi) ps"
  shows "lo * of_nat (length ps) \<le> sum_list ps" and "sum_list ps \<le> hi * of_nat (length ps)"
  using assms by (induction ps) (auto simp: distrib_left)

lemma SMA_bounded:
  assumes "declib_ok L" and "list_all (\<lambda>p. lo \<le> p \<and> p \<le> hi) prices" and "prices \<noteq> []"
  shows "lo - ulp16 \<le> CalculateSMA L prices" and "CalculateSMA L prices \<le> hi + ulp16"
  using quotient_near [OF assms(1), of "of_nat (length prices)" lo "sum_list prices" hi]
    sum_list_range [OF assms(2)] assms(3)
  by (simp_all add: CalculateSMA_def foldl_add_sum)

lemma min_max_bounds:
  fixes lo hi :: decimal
  assumes "list_all (\<lambda>p. lo \<le> p \<and> p \<le> hi) ps" and "lo \<le> a" and "a \<le> b" and "b \<le> hi"
  shows "case foldl (\<lambda>(l, h) q. (if q < l then q else l, if q > h then q else h)) (a, b) ps of
    (l, h) \<Rightarrow> lo \<le> l \<and> l \<le> h \<and> h \<le> hi"
  using assms by (induction ps arbitrary: a b) auto

lemma EMA_bounded:
  assumes "list_all (\<lambda>p. lo \<le> p \<and> p \<le> hi) prices" and "prices \<noteq> []" and "0 < n"
  shows "lo \<le> CalculateEMA L prices n \<and> CalculateEMA L prices n \<le> hi"
proof (cases prices)
  case (Cons p ps)
  obtain l h where mm: "min_max p ps = (l, h)" by force
  have "lo \<le> l \<and> l \<le> h \<and> h \<le> hi"
    using min_max_bounds [of lo hi ps p p] assms(1) mm unfolding Cons min_max_def by simp
  then show ?thesis using assms(3) by (simp add: CalculateEMA_def Cons mm Let_def)
qed (use assms in simp)

lemma vwap_fold:
  "foldl (\<lambda>(spv, sv) (p, v). (spv + p * v, sv + v)) (a, b :: decimal) xs =
    (a + sum_list (map (\<lambda>(p, v). p * v) xs), b + sum_list (map snd xs))"
  by (induction xs arbitrary: a b) (auto simp: add.assoc)

lemma weighted_range:
  fixes lo hi :: decimal
  assumes "list_all (\<lambda>(p, v). lo \<le> p \<and> p \<le> hi \<and> 0 \<le> v) xs"
  shows "lo * sum_list (map snd xs) \<le> sum_list (map (\<lambda>(p, v). p * v) xs) \<and>
    sum_list (map (\<lambda>(p, v). p * v) xs) \<le> hi * sum_list (map snd xs)"
  using assms
proof (induction xs)
  case (Cons x xs)
  obtain p v where x: "x = (p, v)" by force
  have "lo * v \<le> p * v" "p * v \<le> hi * v" using Cons.prems by (auto simp: x mult_right_mono)
  with Cons show ?case by (simp add: x distrib_left)
qed simp

lemma VWAP_bounded:
  assumes "declib_ok L" and "list_all (\<lambda>p. lo \<le> p \<and> p \<le> hi) prices" and "list_all (\<lambda>v. 0 \<le> v) volumes"
    and "length prices = length volumes" and "0 < sum_list volumes"
  shows "lo - ulp16 \<le> CalculateVWAP L prices volumes" and "CalculateVWAP L prices volumes \<le> hi + ulp16"
proof -
  have "list_all (\<lambda>(p, v). lo \<le> p \<and> p \<le> hi \<and> 0 \<le> v) (zip prices volumes)"
    using assms(2,3) by (auto simp: list_all_iff dest: set_zip_leftD set_zip_rightD)
  note w = weighted_range [OF this]
  have snds: "map snd (zip prices volumes) = volumes" using assms(4) by simp
  have ne: "prices \<noteq> []" "volumes \<noteq> []" using assms(4,5) by auto
  have "CalculateVWAP L prices volumes =
      dl_div L (sum_list (map (\<lambda>(p, v). p * v) (zip prices volumes))) (sum_list volumes)"
    using ne assms(4,5) by (simp add: CalculateVWAP_def vwap_fold snds)
  then show "lo - ulp16 \<le> CalculateVWAP L prices volumes" "CalculateVWAP L prices volumes \<le> hi + ulp16"
    using quotient_near [OF assms(1,5) conjunct1 [OF w [unfolded snds]] conjunct2 [OF w [unfolded snds]]]
    by (simp_all only:)
qed

text \<open>Every moving average lies within the range of the prices it is taken of, the exponential one exactly, the
  others up to the last digit of the division.\<close>

theorem averages_bounded:
  assumes "declib_ok L" and "list_all (\<lambda>p. lo \<le> p \<and> p \<le> hi) prices" and "prices \<noteq> []"
    and "list_all (\<lambda>v. 0 \<le> v) volumes" and "length prices = length volumes" and "0 < sum_list volumes" and "0 < n"
  shows "lo - ulp16 \<le> CalculateSMA L prices \<and> CalculateSMA L prices \<le> hi + ulp16 \<and>
    lo \<le> CalculateEMA L prices n \<and> CalculateEMA L prices n \<le> hi \<and>
    lo - ulp16 \<le> CalculateVWAP L prices volumes \<and> CalculateVWAP L prices volumes \<le> hi + ulp16"
  using SMA_bounded [OF assms(1,2,3)] EMA_bounded [OF assms(2,3,7)] VWAP_bounded [OF assms(1,2,4,5,6)] by simp

theorem averages_bounded_witness:
  "1 - ulp16 \<le> CalculateSMA std_declib [1, 2, 4] \<and> CalculateEMA std_declib [1, 2, 4] 3 \<le> 4"
  using averages_bounded [OF std_declib_ok, of 1 4 "[1, 2, 4]" "[1, 1, 1]" 3] by simp

text \<open>Where Newton's iteration stops because the iterate repeats, its square is the variance up to three units.\<close>

lemma newton_fixpoint_accurate:
  assumes "declib_ok L" and "0 < x" and "dl_div L (x + dl_div L v x) 2 = x"
  shows "\<bar>x * x - v\<bar> \<le> 3 * ulp16 * x"
proof -
  let ?y = "dl_div L v x"
  have "near_multiple 16 ((x + ?y) / 2) x" using declib_div [OF assms(1), of 2 "x + ?y"] assms(3) by simp
  then have a: "\<bar>x - (x + ?y) / 2\<bar> \<le> ulp16" by (simp add: near_multiple_def)
  have b: "\<bar>?y - v / x\<bar> \<le> ulp16"
    using declib_div [OF assms(1), of x v] assms(2) by (simp add: near_multiple_def)
  have tri: "\<bar>x - z\<bar> \<le> 3 * u" if "\<bar>x - (x + y) / 2\<bar> \<le> u" "\<bar>y - z\<bar> \<le> u" for y z u :: decimal
    using that by (auto simp: abs_le_iff field_simps)
  have "\<bar>x - v / x\<bar> \<le> 3 * ulp16" by (rule tri [OF a b])
  then have "\<bar>x - v / x\<bar> * x \<le> 3 * ulp16 * x" using assms(2) by (intro mult_right_mono) simp_all
  moreover have "\<bar>x - v / x\<bar> * x = \<bar>x * x - v\<bar>"
    using assms(2) by (simp add: abs_mult_pos left_diff_distrib)
  ultimately show ?thesis by simp
qed

section \<open>Signals\<close>

lemma GenerateSignal_cases:
  assumes "GenerateSignal L fsqrt p now sg = Returned (sg', s)"
  shows "s = sgn_lastSignal sg' \<and> sgn_config sg' = sgn_config sg \<and> sgn_calculator sg' = sgn_calculator sg \<and>
    (sg' = sg \<or> (s \<noteq> sgn_lastSignal sg \<and> s \<noteq> SignalDirectionNone \<and> sgn_lastSignalTime sg' = now \<and>
       (sgn_lastSignalTime sg \<noteq> zero_time \<longrightarrow> sg_CooldownMs (sgn_config sg) * 1000000 \<le> now - sgn_lastSignalTime sg) \<and>
       (\<exists>c. sgn_calculator sg = Some c \<and> MRC_HasEnoughData c)))"
  using assms by (auto simp: GenerateSignal_def raw_signal_def Let_def split: option.splits if_splits)

lemma GenerateSignal_returns: "sgn_calculator sg = Some c \<Longrightarrow> \<exists>r. GenerateSignal L fsqrt p now sg = Returned r"
  by (auto simp: GenerateSignal_def Let_def split: option.splits)

text \<open>A run of ticks: each is added and evaluated. The result has the times at which the signal changed.\<close>

fun signal_run ::
  "declib \<Rightarrow> (decimal \<Rightarrow> decimal option) \<Rightarrow> (decimal \<times> decimal \<times> time) list \<Rightarrow> SignalGenerator \<Rightarrow>
    (SignalGenerator \<times> time list) outcome" where
  "signal_run L fsqrt [] sg = Returned (sg, [])"
| "signal_run L fsqrt ((price, volume, now) # ticks) sg =
     (case SG_AddDataPoint price volume sg of
        Panicked \<Rightarrow> Panicked
      | Returned sg1 \<Rightarrow>
          (case GenerateSignal L fsqrt price now sg1 of
             Panicked \<Rightarrow> Panicked
           | Returned (sg2, s) \<Rightarrow>
               (case signal_run L fsqrt ticks sg2 of
                  Panicked \<Rightarrow> Panicked
                | Returned (sg3, ts) \<Rightarrow> Returned (sg3, if s \<noteq> sgn_lastSignal sg then now # ts else ts))))"

lemma signal_run_spaced:
  assumes "sgn_calculator sg = Some c" and "list_all (\<lambda>(p, v, now). now \<noteq> zero_time) ticks"
  shows "\<exists>sg' ts. signal_run L fsqrt ticks sg = Returned (sg', ts) \<and>
    successively (\<lambda>a b. sg_CooldownMs (sgn_config sg) * 1000000 \<le> b - a)
      ((if sgn_lastSignalTime sg = zero_time then [] else [sgn_lastSignalTime sg]) @ ts)"
  using assms
proof (induction ticks arbitrary: sg c)
  case (Cons tick ticks)
  obtain p v now where tick: "tick = (p, v, now)" by (cases tick) auto
  obtain sg1 where add: "SG_AddDataPoint p v sg = Returned sg1"
    and sg1: "sgn_config sg1 = sgn_config sg" "sgn_lastSignal sg1 = sgn_lastSignal sg"
      "sgn_lastSignalTime sg1 = sgn_lastSignalTime sg" "sgn_calculator sg1 = Some (MRC_AddDataPoint p v c)"
    using Cons.prems(1)
    by (intro that [of "sg\<lparr>sgn_calculator := Some (MRC_AddDataPoint p v c)\<rparr>"]) (simp_all add: SG_AddDataPoint_def)
  obtain sg2 s where gen: "GenerateSignal L fsqrt p now sg1 = Returned (sg2, s)"
    using GenerateSignal_returns [OF sg1(4)] by (metis surj_pair)
  note gc = GenerateSignal_cases [OF gen]
  obtain sg3 ts where rest: "signal_run L fsqrt ticks sg2 = Returned (sg3, ts)"
    and sp: "successively (\<lambda>a b. sg_CooldownMs (sgn_config sg) * 1000000 \<le> b - a)
      ((if sgn_lastSignalTime sg2 = zero_time then [] else [sgn_lastSignalTime sg2]) @ ts)"
    using Cons.IH [of sg2 "MRC_AddDataPoint p v c"] Cons.prems(2) gc sg1 by (auto simp: tick)
  have run: "signal_run L fsqrt (tick # ticks) sg = Returned (sg3, if s \<noteq> sgn_lastSignal sg then now # ts else ts)"
    by (simp add: tick add gen rest)
  have now: "now \<noteq> zero_time" using Cons.prems(2) by (simp add: tick)
  show ?case
  proof (cases "sg2 = sg1")
    case True
    then show ?thesis using run sp gc sg1 by (simp split: if_splits)
  next
    case False
    then have "s \<noteq> sgn_lastSignal sg" "sgn_lastSignalTime sg2 = now"
      "sgn_lastSignalTime sg \<noteq> zero_time \<longrightarrow> sg_CooldownMs (sgn_config sg) * 1000000 \<le> now - sgn_lastSignalTime sg"
      using gc sg1 by auto
    then show ?thesis using run sp now by simp
  qed
qed simp

text \<open>Over any run the signal changes at most once per cooldown, which is at least a tenth of a second and at most
  a minute, and the generator never panics when its lookback period is positive.\<close>

theorem signals_spaced:
  assumes "0 < sg_LookbackPeriod cfg" and "list_all (\<lambda>(p, v, now). now \<noteq> zero_time) ticks"
  shows "\<exists>sg' ts cool. signal_run L fsqrt ticks (NewSignalGenerator cfg) = Returned (sg', ts) \<and>
    cool = sg_CooldownMs (sgn_config (NewSignalGenerator cfg)) * 1000000 \<and>
    100 * 1000000 \<le> cool \<and> cool \<le> 60 * 1000000000 \<and> successively (\<lambda>a b. cool \<le> b - a) ts"
proof -
  have "sgn_lastSignalTime (NewSignalGenerator cfg) = zero_time"
    "sgn_calculator (NewSignalGenerator cfg) = Some \<lparr>mrc_buffer = NewMRRingBuffer (sg_LookbackPeriod cfg),
       mrc_lookbackPeriod = sg_LookbackPeriod cfg\<rparr>"
    using assms(1) by (simp_all add: NewSignalGenerator_def NewMeanReversionCalculator_def Let_def)
  moreover have "100 \<le> sg_CooldownMs (sgn_config (NewSignalGenerator cfg))"
    "sg_CooldownMs (sgn_config (NewSignalGenerator cfg)) \<le> 60000"
    by (simp_all add: NewSignalGenerator_def Let_def)
  ultimately show ?thesis using signal_run_spaced [of "NewSignalGenerator cfg" _ ticks L fsqrt] assms(2) by auto
qed

definition sg_sample :: SignalGeneratorConfig where
  "sg_sample = \<lparr>sg_EntryThreshold = 1, sg_ExitThreshold = 1 / 2, sg_CooldownMs = 5, sg_LookbackPeriod = 2,
     sg_MAType = MATypeSMA\<rparr>"

theorem signals_spaced_witness:
  "\<exists>sg' ts. signal_run std_declib (\<lambda>v. Some v) [(10, 1, 1), (12, 1, 2)] (NewSignalGenerator sg_sample) = Returned (sg', ts) \<and>
    successively (\<lambda>a b. 100 * 1000000 \<le> b - a) ts"
  using signals_spaced [of sg_sample "[(10, 1, 1), (12, 1, 2)]" std_declib "\<lambda>v. Some v"]
  by (auto simp: sg_sample_def zero_time_def NewSignalGenerator_def Let_def)

text \<open>With a lookback period that is not positive the constructor's error is lost and the first tick panics.\<close>

lemma nil_calculator_panics:
  "sg_LookbackPeriod cfg \<le> 0 \<Longrightarrow> SG_AddDataPoint price volume (NewSignalGenerator cfg) = Panicked"
  by (simp add: SG_AddDataPoint_def NewSignalGenerator_def NewMeanReversionCalculator_def Let_def)

end
