(* ===== verification/Scheduler.thy ===== *)
theory Scheduler
  imports GridDrift MeanReversion RiskManager
begin

text \<open>
  The strategy scheduler (\<open>src/internal/strategy/scheduler.go\<close>, types of \<open>engine.go\<close>). The strategies
  are an association list with distinct ids in any order. An instance shares its grid configuration
  with its drift engine, so a drift changes both. \<open>ex_place\<close> and \<open>ex_cancel\<close> are the order engine, which
  may be nil; a drift engine made here has no grid state and so panics before it would call a nil
  order engine. The clock readings of one call are taken as one value.
\<close>

section \<open>State\<close>

datatype StrategyState = StrategyStateLoaded | StrategyStateActive | StrategyStateStopped

fun StrategyState_String :: "StrategyState \<Rightarrow> string" where
  "StrategyState_String StrategyStateLoaded = ''LOADED''"
| "StrategyState_String StrategyStateActive = ''ACTIVE''"
| "StrategyState_String StrategyStateStopped = ''STOPPED''"

record PnLTracker =
  pt_RealizedPnL :: decimal
  pt_UnrealizedPnL :: decimal
  pt_TotalTrades :: int
  pt_WinCount :: int

definition WinRate :: "declib \<Rightarrow> PnLTracker \<Rightarrow> decimal" where
  "WinRate L p =
     (if pt_TotalTrades p = 0 then 0
      else dl_div L (of_int (pt_WinCount p)) (of_int (pt_TotalTrades p)) * 100)"

record StrategyConfig =
  sc_StrategyID :: string
  sc_Type :: string
  sc_Grid :: "GridConfig option"
  sc_MeanReversion :: "MeanReversionConfig option"

record StrategyInstance =
  si_Config :: StrategyConfig
  si_State :: StrategyState
  si_PnL :: PnLTracker
  si_LastSignal :: SignalDirection
  si_LastUpdate :: time
  si_Symbol :: string
  si_DriftEngine :: "GridDriftEngine option"
  si_SignalGen :: "SignalGenerator option"

type_synonym strategies = "(string, StrategyInstance) gomap"

datatype scheduler_error =
    ErrStrategyNotFound | ErrStrategyExists | ErrStrategyAlreadyActive | ErrStrategyStopped | ErrInvalidConfig

definition zero_pnl :: PnLTracker where
  "zero_pnl = \<lparr>pt_RealizedPnL = 0, pt_UnrealizedPnL = 0, pt_TotalTrades = 0, pt_WinCount = 0\<rparr>"

section \<open>Lifecycle\<close>

definition mr_signal_config :: "MeanReversionConfig \<Rightarrow> SignalGeneratorConfig" where
  "mr_signal_config cfg = \<lparr>sg_EntryThreshold = mc_EntryThreshold cfg, sg_ExitThreshold = mc_ExitThreshold cfg,
     sg_CooldownMs = mc_CooldownMs cfg, sg_LookbackPeriod = mc_LookbackPeriod cfg, sg_MAType = mc_MAType cfg\<rparr>"

definition valid_strategy :: "StrategyConfig \<Rightarrow> bool" where
  "valid_strategy cfg \<longleftrightarrow> sc_StrategyID cfg \<noteq> [] \<and>
     (sc_Type cfg = ''grid'' \<and> sc_Grid cfg \<noteq> None \<or>
      sc_Type cfg = ''mean_reversion'' \<and> sc_MeanReversion cfg \<noteq> None)"

definition strategy_symbol :: "StrategyConfig \<Rightarrow> string" where
  "strategy_symbol cfg =
     (case sc_Grid cfg of
        Some g \<Rightarrow> gc_Symbol g
      | None \<Rightarrow> (case sc_MeanReversion cfg of Some m \<Rightarrow> mc_Symbol m | None \<Rightarrow> []))"

text \<open>The engine of a configuration with an enabled drift; its grid state is nil.\<close>

definition drift_engine_of :: "declib \<Rightarrow> StrategyConfig \<Rightarrow> GridDriftEngine option outcome" where
  "drift_engine_of L cfg =
     (case sc_Grid cfg of
        None \<Rightarrow> Returned None
      | Some g \<Rightarrow> (case gc_Drift g of
          None \<Rightarrow> Returned None
        | Some d \<Rightarrow>
            if dc_Enabled d
            then (case NewGridDriftEngine L g None of Panicked \<Rightarrow> Panicked | Returned e \<Rightarrow> Returned (Some e))
            else Returned None))"

definition LoadStrategy ::
  "declib \<Rightarrow> time \<Rightarrow> StrategyConfig \<Rightarrow> strategies \<Rightarrow> (strategies \<times> scheduler_error option) outcome" where
  "LoadStrategy L now cfg ss =
     (if \<not> valid_strategy cfg then Returned (ss, Some ErrInvalidConfig)
      else if map_of ss (sc_StrategyID cfg) \<noteq> None then Returned (ss, Some ErrStrategyExists)
      else (case drift_engine_of L cfg of
          Panicked \<Rightarrow> Panicked
        | Returned drift \<Rightarrow>
            let inst = \<lparr>si_Config = cfg, si_State = StrategyStateLoaded, si_PnL = zero_pnl,
                  si_LastSignal = SignalDirectionNone, si_LastUpdate = now, si_Symbol = strategy_symbol cfg,
                  si_DriftEngine = drift,
                  si_SignalGen = (if sc_Type cfg = ''mean_reversion''
                    then map_option (\<lambda>m. NewSignalGenerator (mr_signal_config m)) (sc_MeanReversion cfg) else None)\<rparr>
            in Returned (AList.update (sc_StrategyID cfg) inst ss, None)))"

definition StartStrategy :: "time \<Rightarrow> string \<Rightarrow> strategies \<Rightarrow> strategies \<times> scheduler_error option" where
  "StartStrategy now sid ss =
     (case map_of ss sid of
        None \<Rightarrow> (ss, Some ErrStrategyNotFound)
      | Some inst \<Rightarrow>
          if si_State inst = StrategyStateActive then (ss, Some ErrStrategyAlreadyActive)
          else (AList.update sid (inst\<lparr>si_State := StrategyStateActive, si_LastUpdate := now\<rparr>) ss, None))"

definition StopStrategy :: "time \<Rightarrow> string \<Rightarrow> strategies \<Rightarrow> strategies \<times> scheduler_error option" where
  "StopStrategy now sid ss =
     (case map_of ss sid of
        None \<Rightarrow> (ss, Some ErrStrategyNotFound)
      | Some inst \<Rightarrow>
          if si_State inst = StrategyStateStopped then (ss, Some ErrStrategyStopped)
          else (AList.update sid (inst\<lparr>si_State := StrategyStateStopped, si_LastUpdate := now\<rparr>) ss, None))"

definition StopAll :: "time \<Rightarrow> strategies \<Rightarrow> strategies" where
  "StopAll now ss = map (\<lambda>(sid, inst). (sid,
     if si_State inst = StrategyStateActive
     then inst\<lparr>si_State := StrategyStateStopped, si_LastUpdate := now\<rparr> else inst)) ss"

section \<open>Market updates\<close>

record 'w order_engine =
  ex_place :: "ExecOrderRequest \<Rightarrow> 'w \<Rightarrow> 'w \<times> bool"
  ex_cancel :: "string \<Rightarrow> 'w \<Rightarrow> 'w \<times> bool"

definition drift_place :: "'w order_engine option \<Rightarrow> ExecOrderRequest \<Rightarrow> 'w \<Rightarrow> 'w \<times> bool" where
  "drift_place ex = (case ex of None \<Rightarrow> \<lambda>_ w. (w, False) | Some x \<Rightarrow> ex_place x)"

definition drift_cancel :: "'w order_engine option \<Rightarrow> string \<Rightarrow> 'w \<Rightarrow> 'w \<times> bool" where
  "drift_cancel ex = (case ex of None \<Rightarrow> \<lambda>_ w. (w, False) | Some x \<Rightarrow> ex_cancel x)"

definition grid_signal :: "declib \<Rightarrow> GridConfig \<Rightarrow> decimal \<Rightarrow> SignalDirection" where
  "grid_signal L g price =
     (let midPrice = dl_div L (gc_LowerPrice g + gc_UpperPrice g) 2 in
      if price < midPrice then SignalDirectionBuy
      else if price > midPrice then SignalDirectionSell else SignalDirectionNone)"

definition processGridUpdate ::
  "declib \<Rightarrow> 'f floatlib \<Rightarrow> 'w order_engine option \<Rightarrow> time \<Rightarrow> TickData \<Rightarrow> StrategyInstance \<Rightarrow> 'w \<Rightarrow>
    (StrategyInstance \<times> 'w \<times> SignalDirection) outcome" where
  "processGridUpdate L F ex now tick inst w =
     (case sc_Grid (si_Config inst) of
        None \<Rightarrow> Returned (inst, w, SignalDirectionNone)
      | Some g \<Rightarrow>
          (case si_DriftEngine inst of
             None \<Rightarrow> Returned (inst, w, grid_signal L g (td_LastPrice tick))
           | Some e \<Rightarrow>
               (case OnPriceUpdate L F (drift_cancel ex) (drift_place ex) now (\<lambda>_. now) (td_LastPrice tick) e w of
                  Panicked \<Rightarrow> Panicked
                | Returned (e', w', _) \<Rightarrow>
                    Returned (inst\<lparr>si_DriftEngine := Some e',
                                si_Config := (si_Config inst)\<lparr>sc_Grid := Some (ge_config e')\<rparr>\<rparr>, w',
                              grid_signal L (ge_config e') (td_LastPrice tick)))))"

definition processMeanReversionUpdate ::
  "declib \<Rightarrow> (decimal \<Rightarrow> decimal option) \<Rightarrow> time \<Rightarrow> TickData \<Rightarrow> StrategyInstance \<Rightarrow>
    (StrategyInstance \<times> SignalDirection) outcome" where
  "processMeanReversionUpdate L fsqrt now tick inst =
     (case sc_MeanReversion (si_Config inst) of
        None \<Rightarrow> Returned (inst, SignalDirectionNone)
      | Some m \<Rightarrow>
          let sg = (case si_SignalGen inst of None \<Rightarrow> NewSignalGenerator (mr_signal_config m) | Some sg \<Rightarrow> sg) in
          (case SG_AddDataPoint (td_LastPrice tick) (td_Volume24h tick) sg of
             Panicked \<Rightarrow> Panicked
           | Returned sg1 \<Rightarrow>
               (case GenerateSignal L fsqrt (td_LastPrice tick) now sg1 of
                  Panicked \<Rightarrow> Panicked
                | Returned (sg2, s) \<Rightarrow> Returned (inst\<lparr>si_SignalGen := Some sg2\<rparr>, s))))"

definition processMarketUpdate ::
  "declib \<Rightarrow> 'f floatlib \<Rightarrow> (decimal \<Rightarrow> decimal option) \<Rightarrow> 'w order_engine option \<Rightarrow> time \<Rightarrow> TickData \<Rightarrow>
    StrategyInstance \<Rightarrow> 'w \<Rightarrow> (StrategyInstance \<times> 'w \<times> SignalDirection) outcome" where
  "processMarketUpdate L F fsqrt ex now tick inst w =
     (if sc_Type (si_Config inst) = ''grid'' then processGridUpdate L F ex now tick inst w
      else if sc_Type (si_Config inst) = ''mean_reversion'' then
        (case processMeanReversionUpdate L fsqrt now tick inst of
           Panicked \<Rightarrow> Panicked | Returned (inst', s) \<Rightarrow> Returned (inst', w, s))
      else Returned (inst, w, SignalDirectionNone))"

definition signal_size :: "StrategyConfig \<Rightarrow> decimal" where
  "signal_size cfg =
     (case sc_Grid cfg of
        Some g \<Rightarrow> gc_OrderSize g
      | None \<Rightarrow> (case sc_MeanReversion cfg of Some m \<Rightarrow> mc_OrderSize m | None \<Rightarrow> 0))"

definition signal_side :: "SignalDirection \<Rightarrow> Side option" where
  "signal_side s = (case s of SignalDirectionBuy \<Rightarrow> Some SideBuy | SignalDirectionSell \<Rightarrow> Some SideSell | _ \<Rightarrow> None)"

definition signal_request :: "StrategyInstance \<Rightarrow> Side \<Rightarrow> decimal \<Rightarrow> ExecOrderRequest" where
  "signal_request inst side price = \<lparr>eq_Symbol = si_Symbol inst, eq_Side = side, eq_OrderType = OrderTypeLimit,
     eq_Price = price, eq_Quantity = signal_size (si_Config inst), eq_StrategyID = sc_StrategyID (si_Config inst),
     eq_GridLevel = - 1, eq_ClientOrderID = []\<rparr>"

definition risk_request :: "ExecOrderRequest \<Rightarrow> OrderRequest" where
  "risk_request r = \<lparr>or_Symbol = eq_Symbol r, or_Side = eq_Side r, or_OrderType = eq_OrderType r,
     or_Price = eq_Price r, or_Quantity = eq_Quantity r, or_StrategyID = eq_StrategyID r, or_SpreadBps = 0\<rparr>"

text \<open>A nil risk manager is \<open>None\<close>.\<close>

definition submitSignalForApproval ::
  "'w order_engine option \<Rightarrow> time \<Rightarrow> StrategyInstance \<Rightarrow> SignalDirection \<Rightarrow> TickData \<Rightarrow>
    RiskManagerImpl option \<Rightarrow> 'w \<Rightarrow> RiskManagerImpl option \<times> 'w" where
  "submitSignalForApproval ex now inst signal tick rm w =
     (case (rm, ex, signal_side signal) of
        (Some r, Some x, Some side) \<Rightarrow>
          let req = signal_request inst side (td_LastPrice tick) in
          (case CheckOrder now now (risk_request req) r of
             (r', d) \<Rightarrow> (Some r', if d_Approved d then fst (ex_place x req w) else w))
      | _ \<Rightarrow> (rm, w))"

fun update_strategies ::
  "declib \<Rightarrow> 'f floatlib \<Rightarrow> (decimal \<Rightarrow> decimal option) \<Rightarrow> 'w order_engine option \<Rightarrow> time \<Rightarrow> string \<Rightarrow> TickData \<Rightarrow>
    strategies \<Rightarrow> RiskManagerImpl option \<Rightarrow> 'w \<Rightarrow> (strategies \<times> RiskManagerImpl option \<times> 'w) outcome" where
  "update_strategies L F fsqrt ex now symbol tick [] rm w = Returned ([], rm, w)"
| "update_strategies L F fsqrt ex now symbol tick ((sid, inst) # ss) rm w =
     (if si_State inst \<noteq> StrategyStateActive \<or> si_Symbol inst \<noteq> symbol then
        (case update_strategies L F fsqrt ex now symbol tick ss rm w of
           Panicked \<Rightarrow> Panicked | Returned (ss', r) \<Rightarrow> Returned ((sid, inst) # ss', r))
      else
        (case processMarketUpdate L F fsqrt ex now tick inst w of
           Panicked \<Rightarrow> Panicked
         | Returned (inst1, w1, signal) \<Rightarrow>
             let inst2 = (if signal \<noteq> SignalDirectionNone
                   then inst1\<lparr>si_LastSignal := signal, si_LastUpdate := now\<rparr> else inst1);
                 (rm1, w2) = (if signal \<noteq> SignalDirectionNone
                   then submitSignalForApproval ex now inst2 signal tick rm w1 else (rm, w1))
             in (case update_strategies L F fsqrt ex now symbol tick ss rm1 w2 of
                   Panicked \<Rightarrow> Panicked | Returned (ss', r) \<Rightarrow> Returned ((sid, inst2) # ss', r))))"

definition OnMarketUpdate ::
  "declib \<Rightarrow> 'f floatlib \<Rightarrow> (decimal \<Rightarrow> decimal option) \<Rightarrow> 'w order_engine option \<Rightarrow> time \<Rightarrow> string \<Rightarrow>
    TickData option \<Rightarrow> strategies \<Rightarrow> RiskManagerImpl option \<Rightarrow> 'w \<Rightarrow>
    (strategies \<times> RiskManagerImpl option \<times> 'w) outcome" where
  "OnMarketUpdate L F fsqrt ex now symbol tick ss rm w =
     (case tick of
        None \<Rightarrow> Returned (ss, rm, w)
      | Some t \<Rightarrow> update_strategies L F fsqrt ex now symbol t ss rm w)"

section \<open>Fills and reports\<close>

definition pnl_fill :: "FillEvent \<Rightarrow> PnLTracker \<Rightarrow> PnLTracker" where
  "pnl_fill fill p =
     (let fillValue = fe_Price fill * fe_Quantity fill; fee = fe_Fee fill in
      if fe_Side fill = SideSell then
        let p1 = p\<lparr>pt_RealizedPnL := pt_RealizedPnL p + (fillValue - fee), pt_TotalTrades := pt_TotalTrades p + 1\<rparr>
        in if 0 < fillValue - fee then p1\<lparr>pt_WinCount := pt_WinCount p1 + 1\<rparr> else p1
      else p\<lparr>pt_RealizedPnL := pt_RealizedPnL p - (fillValue + fee), pt_TotalTrades := pt_TotalTrades p + 1\<rparr>)"

definition OnOrderFill :: "time \<Rightarrow> FillEvent \<Rightarrow> strategies \<Rightarrow> strategies" where
  "OnOrderFill now fill ss =
     (case map_of ss (fe_StrategyID fill) of
        None \<Rightarrow> ss
      | Some inst \<Rightarrow> AList.update (fe_StrategyID fill)
          (inst\<lparr>si_PnL := pnl_fill fill (si_PnL inst), si_LastUpdate := now\<rparr>) ss)"

record StrategyStatus =
  ss_StrategyID :: string
  ss_Symbol :: string
  ss_Type :: string
  ss_IsActive :: bool
  ss_RealizedPnL :: decimal
  ss_UnrealizedPnL :: decimal

definition GetActiveStrategies :: "strategies \<Rightarrow> StrategyStatus list" where
  "GetActiveStrategies ss = map (\<lambda>(sid, inst). \<lparr>ss_StrategyID = sid, ss_Symbol = si_Symbol inst,
     ss_Type = sc_Type (si_Config inst), ss_IsActive = (si_State inst = StrategyStateActive),
     ss_RealizedPnL = pt_RealizedPnL (si_PnL inst), ss_UnrealizedPnL = pt_UnrealizedPnL (si_PnL inst)\<rparr>) ss"

record PnLReport =
  rp_StrategyID :: string
  rp_RealizedPnL :: decimal
  rp_UnrealizedPnL :: decimal
  rp_TotalTrades :: int
  rp_WinRate :: decimal

definition GetStrategyPnL :: "declib \<Rightarrow> string \<Rightarrow> strategies \<Rightarrow> scheduler_error + PnLReport" where
  "GetStrategyPnL L sid ss =
     (case map_of ss sid of
        None \<Rightarrow> Inl ErrStrategyNotFound
      | Some inst \<Rightarrow> Inr \<lparr>rp_StrategyID = sid, rp_RealizedPnL = pt_RealizedPnL (si_PnL inst),
          rp_UnrealizedPnL = pt_UnrealizedPnL (si_PnL inst), rp_TotalTrades = pt_TotalTrades (si_PnL inst),
          rp_WinRate = WinRate L (si_PnL inst)\<rparr>)"

section \<open>Well-formed instances\<close>

definition pnl_ok :: "PnLTracker \<Rightarrow> bool" where
  "pnl_ok p \<longleftrightarrow> 0 \<le> pt_WinCount p \<and> pt_WinCount p \<le> pt_TotalTrades p"

definition instance_ok :: "string \<Rightarrow> StrategyInstance \<Rightarrow> bool" where
  "instance_ok sid inst \<longleftrightarrow> valid_strategy (si_Config inst) \<and> sc_StrategyID (si_Config inst) = sid \<and>
     si_Symbol inst = strategy_symbol (si_Config inst) \<and>
     (si_SignalGen inst \<noteq> None \<longleftrightarrow> sc_Type (si_Config inst) = ''mean_reversion'') \<and>
     (\<forall>e. si_DriftEngine inst = Some e \<longrightarrow> ge_state e = None \<and> sc_Grid (si_Config inst) = Some (ge_config e)) \<and>
     pnl_ok (si_PnL inst)"

definition strategies_ok :: "strategies \<Rightarrow> bool" where
  "strategies_ok ss \<longleftrightarrow> map_wf ss \<and> (\<forall>(sid, inst) \<in> set ss. instance_ok sid inst)"

lemma strategies_ok_map: "map_wf ss \<Longrightarrow> strategies_ok ss \<longleftrightarrow> (\<forall>sid inst. map_of ss sid = Some inst \<longrightarrow> instance_ok sid inst)"
  by (auto simp: strategies_ok_def map_wf_def)

lemma strategies_ok_update:
  assumes "strategies_ok ss" and "instance_ok sid inst"
  shows "strategies_ok (AList.update sid inst ss)"
proof -
  have wf: "map_wf ss" "map_wf (AList.update sid inst ss)" using assms(1) by (simp_all add: strategies_ok_def)
  then show ?thesis using assms by (simp add: strategies_ok_map)
qed

lemma strategies_ok_lookup: "strategies_ok ss \<Longrightarrow> map_of ss sid = Some inst \<Longrightarrow> instance_ok sid inst"
  by (auto simp: strategies_ok_def dest: map_of_SomeD)

lemma pnl_ok_fill [inv_intros]: "pnl_ok p \<Longrightarrow> pnl_ok (pnl_fill fill p)"
  by (auto simp: pnl_ok_def pnl_fill_def Let_def)

lemma LoadStrategy_ok:
  assumes "strategies_ok ss" and "LoadStrategy L now cfg ss = Returned (ss', err)"
  shows "strategies_ok ss'"
proof (cases "valid_strategy cfg \<and> map_of ss (sc_StrategyID cfg) = None")
  case True
  then have v: "valid_strategy cfg" by simp
  obtain drift where d: "drift_engine_of L cfg = Returned drift"
    using assms(2) True by (auto simp: LoadStrategy_def split: outcome.splits)
  have nil: "ge_state e = None \<and> sc_Grid cfg = Some (ge_config e)" if "drift = Some e" for e
    using d that by (auto simp: drift_engine_of_def NewGridDriftEngine_def split: option.splits if_splits)
  have gen: "(if sc_Type cfg = ''mean_reversion'' then map_option (\<lambda>m. NewSignalGenerator (mr_signal_config m)) (sc_MeanReversion cfg)
      else None) \<noteq> None \<longleftrightarrow> sc_Type cfg = ''mean_reversion''"
    using v by (auto simp: valid_strategy_def)
  have ss': "ss' = AList.update (sc_StrategyID cfg) \<lparr>si_Config = cfg, si_State = StrategyStateLoaded, si_PnL = zero_pnl,
      si_LastSignal = SignalDirectionNone, si_LastUpdate = now, si_Symbol = strategy_symbol cfg, si_DriftEngine = drift,
      si_SignalGen = (if sc_Type cfg = ''mean_reversion''
        then map_option (\<lambda>m. NewSignalGenerator (mr_signal_config m)) (sc_MeanReversion cfg) else None)\<rparr> ss"
    using assms(2) True d by (simp add: LoadStrategy_def Let_def)
  show ?thesis unfolding ss'
    by (rule strategies_ok_update [OF assms(1)])
      (use v nil gen in \<open>simp add: instance_ok_def pnl_ok_def zero_pnl_def\<close>)
qed (use assms in \<open>auto simp: LoadStrategy_def split: if_splits\<close>)

lemma StartStrategy_ok: "strategies_ok ss \<Longrightarrow> strategies_ok (fst (StartStrategy now sid ss))"
  by (auto simp: StartStrategy_def instance_ok_def split: option.splits
      dest: strategies_ok_lookup intro!: strategies_ok_update)

lemma StopStrategy_ok: "strategies_ok ss \<Longrightarrow> strategies_ok (fst (StopStrategy now sid ss))"
  by (auto simp: StopStrategy_def instance_ok_def split: option.splits
      dest: strategies_ok_lookup intro!: strategies_ok_update)

lemma OnOrderFill_ok: "strategies_ok ss \<Longrightarrow> strategies_ok (OnOrderFill now fill ss)"
  by (auto simp: OnOrderFill_def instance_ok_def split: option.splits
      dest: strategies_ok_lookup intro!: strategies_ok_update pnl_ok_fill)

lemma StopAll_ok: "strategies_ok ss \<Longrightarrow> strategies_ok (StopAll now ss)"
proof -
  have keys: "map fst (StopAll now ss) = map fst ss" by (auto simp: StopAll_def)
  have one: "instance_ok sid inst \<Longrightarrow> instance_ok sid (if si_State inst = StrategyStateActive
      then inst\<lparr>si_State := StrategyStateStopped, si_LastUpdate := now\<rparr> else inst)" for sid inst
    by (simp add: instance_ok_def)
  assume "strategies_ok ss"
  then show "strategies_ok (StopAll now ss)"
    unfolding strategies_ok_def map_wf_def keys by (auto simp: StopAll_def intro!: one)
qed

lemma StopAll_stopped: "(sid, inst) \<in> set (StopAll now ss) \<Longrightarrow> si_State inst \<noteq> StrategyStateActive"
  by (auto simp: StopAll_def split: if_splits)

section \<open>One market update\<close>

text \<open>A drift engine without a grid state either panics or does nothing.\<close>

lemma nil_engine_idle:
  assumes "ge_state e = None" and "OnPriceUpdate L F cancel place now clock p e w = Returned (e', w', b)"
  shows "e' = e \<and> w' = w"
  using assms by (auto simp: OnPriceUpdate_def executeDrift_def Let_def split: option.splits if_splits prod.splits
      outcome.splits sum.splits)

lemma processMarketUpdate_keeps:
  assumes "instance_ok sid inst" and "processMarketUpdate L F fsqrt ex now tick inst w = Returned (inst', w', s)"
  shows "w' = w \<and> instance_ok sid inst' \<and> si_Config inst' = si_Config inst \<and> si_State inst' = si_State inst \<and>
    si_Symbol inst' = si_Symbol inst \<and> si_PnL inst' = si_PnL inst"
proof (cases "sc_Type (si_Config inst) = ''grid''")
  case True
  then have run: "processGridUpdate L F ex now tick inst w = Returned (inst', w', s)"
    using assms(2) by (simp add: processMarketUpdate_def)
  show ?thesis
  proof (cases "si_DriftEngine inst")
    case None
    then show ?thesis using run assms(1) by (auto simp: processGridUpdate_def split: option.splits)
  next
    case (Some e)
    then have e: "ge_state e = None" "sc_Grid (si_Config inst) = Some (ge_config e)"
      using assms(1) by (auto simp: instance_ok_def)
    then have "w' = w \<and> inst' = inst\<lparr>si_DriftEngine := Some e, si_Config := (si_Config inst)\<lparr>sc_Grid := Some (ge_config e)\<rparr>\<rparr>"
      using run Some by (auto simp: processGridUpdate_def split: outcome.splits dest: nil_engine_idle [OF e(1)])
    moreover have "inst\<lparr>si_DriftEngine := Some e, si_Config := (si_Config inst)\<lparr>sc_Grid := Some (ge_config e)\<rparr>\<rparr> = inst"
      using Some e by (cases inst, cases "si_Config inst") auto
    ultimately show ?thesis using assms(1) by simp
  qed
next
  case False
  show ?thesis
  proof (cases "sc_Type (si_Config inst) = ''mean_reversion''")
    case True
    then show ?thesis using assms False
      by (auto simp: processMarketUpdate_def processMeanReversionUpdate_def Let_def instance_ok_def
          split: option.splits outcome.splits)
  qed (use assms False in \<open>auto simp: processMarketUpdate_def\<close>)
qed

text \<open>
  The specification of what a market update may do to the risk manager and the exchange: check
  requests that \<open>allowed\<close> admits, one after the other, and place exactly those that are approved.
\<close>

inductive risk_checked ::
  "'w order_engine option \<Rightarrow> time \<Rightarrow> (ExecOrderRequest \<Rightarrow> bool) \<Rightarrow> RiskManagerImpl option \<times> 'w \<Rightarrow>
    RiskManagerImpl option \<times> 'w \<Rightarrow> bool"
  for ex now allowed where
  rc_done: "risk_checked ex now allowed s s"
| rc_refused: "CheckOrder now now (risk_request req) r = (r', d) \<Longrightarrow> \<not> d_Approved d \<Longrightarrow> allowed req \<Longrightarrow>
    risk_checked ex now allowed (Some r', w) s \<Longrightarrow> risk_checked ex now allowed (Some r, w) s"
| rc_approved: "CheckOrder now now (risk_request req) r = (r', d) \<Longrightarrow> d_Approved d \<Longrightarrow> allowed req \<Longrightarrow> ex = Some x \<Longrightarrow>
    risk_checked ex now allowed (Some r', fst (ex_place x req w)) s \<Longrightarrow> risk_checked ex now allowed (Some r, w) s"

lemma risk_checked_mono:
  "risk_checked ex now A s s' \<Longrightarrow> (\<And>q. A q \<Longrightarrow> B q) \<Longrightarrow> risk_checked ex now B s s'"
  by (induction rule: risk_checked.induct) (auto intro: risk_checked.intros)

lemma risk_checked_trans:
  "risk_checked ex now A s s' \<Longrightarrow> risk_checked ex now A s' s'' \<Longrightarrow> risk_checked ex now A s s''"
  by (induction rule: risk_checked.induct) (auto intro: risk_checked.intros)

text \<open>The request of an active strategy of the symbol at the price of the tick.\<close>

definition strategy_request :: "strategies \<Rightarrow> string \<Rightarrow> TickData \<Rightarrow> ExecOrderRequest \<Rightarrow> bool" where
  "strategy_request ss symbol tick req \<longleftrightarrow> (\<exists>inst side. (eq_StrategyID req, inst) \<in> set ss \<and>
     si_State inst = StrategyStateActive \<and> si_Symbol inst = symbol \<and> req = signal_request inst side (td_LastPrice tick))"

lemma submit_checked:
  assumes "submitSignalForApproval ex now inst signal tick rm w = (rm', w')"
    and "\<And>side. allowed (signal_request inst side (td_LastPrice tick))"
  shows "risk_checked ex now allowed (rm, w) (rm', w')"
proof (cases "\<exists>r x side. rm = Some r \<and> ex = Some x \<and> signal_side signal = Some side")
  case True
  then obtain r x side where c: "rm = Some r" "ex = Some x" "signal_side signal = Some side" by auto
  obtain r' d where chk: "CheckOrder now now (risk_request (signal_request inst side (td_LastPrice tick))) r = (r', d)" by force
  have out: "rm' = Some r'" "w' = (if d_Approved d then fst (ex_place x (signal_request inst side (td_LastPrice tick)) w) else w)"
    using assms(1) by (auto simp: submitSignalForApproval_def c chk Let_def)
  show ?thesis
  proof (cases "d_Approved d")
    case True
    show ?thesis unfolding c(1) out by (rule rc_approved [where ?ex = ex and ?allowed = allowed and ?w = w, OF chk True assms(2) c(2)]) (simp add: True rc_done)
  next
    case False
    show ?thesis unfolding c(1) out by (rule rc_refused [where ?ex = ex and ?allowed = allowed and ?w = w, OF chk False assms(2)]) (simp add: False rc_done)
  qed
next
  case False
  then have "rm' = rm \<and> w' = w" using assms(1)
    by (auto simp: submitSignalForApproval_def split: option.splits)
  then show ?thesis by (simp add: rc_done)
qed

lemma update_strategies_checked:
  assumes "update_strategies L F fsqrt ex now symbol tick ss rm w = Returned (ss', rm', w')"
    and "\<forall>(sid, inst) \<in> set ss. instance_ok sid inst"
  shows "map fst ss' = map fst ss \<and> (\<forall>(sid, inst) \<in> set ss'. instance_ok sid inst) \<and>
    risk_checked ex now (strategy_request ss symbol tick) (rm, w) (rm', w')"
  using assms
proof (induction ss arbitrary: rm w ss')
  case (Cons x ss)
  obtain sid inst where x: "x = (sid, inst)" by (cases x) auto
  have ok: "instance_ok sid inst" "\<forall>(sid, inst) \<in> set ss. instance_ok sid inst" using Cons.prems(2) by (auto simp: x)
  have wider: "strategy_request ss symbol tick q \<Longrightarrow> strategy_request (x # ss) symbol tick q" for q
    by (auto simp: strategy_request_def)
  show ?case
  proof (cases "si_State inst \<noteq> StrategyStateActive \<or> si_Symbol inst \<noteq> symbol")
    case True
    then obtain ss1 where ss1: "update_strategies L F fsqrt ex now symbol tick ss rm w = Returned (ss1, rm', w')"
      "ss' = (sid, inst) # ss1"
      using Cons.prems(1) by (auto simp: x split: outcome.splits)
    show ?thesis using Cons.IH [OF ss1(1) ok(2)] ok(1) by (auto simp: ss1(2) x intro: risk_checked_mono wider [unfolded x])
  next
    case False
    then have act: "si_State inst = StrategyStateActive" "si_Symbol inst = symbol" by auto
    obtain inst1 w1 signal where p: "processMarketUpdate L F fsqrt ex now tick inst w = Returned (inst1, w1, signal)"
      using Cons.prems(1) False by (auto simp: x split: outcome.splits)
    define inst2 where "inst2 = (if signal \<noteq> SignalDirectionNone
      then inst1\<lparr>si_LastSignal := signal, si_LastUpdate := now\<rparr> else inst1)"
    obtain rm1 w2 where sub: "(if signal \<noteq> SignalDirectionNone then submitSignalForApproval ex now inst2 signal tick rm w1
      else (rm, w1)) = (rm1, w2)" by force
    obtain ss1 where ss1: "update_strategies L F fsqrt ex now symbol tick ss rm1 w2 = Returned (ss1, rm', w')"
      "ss' = (sid, inst2) # ss1"
      using Cons.prems(1) False sub [unfolded inst2_def]
      by (auto simp: x p Let_def inst2_def split: outcome.splits prod.splits)
    note k = processMarketUpdate_keeps [OF ok(1) p]
    have ok2: "instance_ok sid inst2" using k by (auto simp: inst2_def instance_ok_def)
    have req: "strategy_request (x # ss) symbol tick (signal_request inst2 side (td_LastPrice tick))" for side
    proof -
      have "signal_request inst2 side (td_LastPrice tick) = signal_request inst side (td_LastPrice tick)"
        using k by (simp add: inst2_def signal_request_def)
      moreover have "sc_StrategyID (si_Config inst) = sid" using ok(1) by (simp add: instance_ok_def)
      ultimately show ?thesis using act by (auto simp: strategy_request_def x signal_request_def)
    qed
    have "risk_checked ex now (strategy_request (x # ss) symbol tick) (rm, w) (rm1, w2)"
      using sub k req by (auto split: if_splits intro: rc_done submit_checked)
    moreover have "risk_checked ex now (strategy_request (x # ss) symbol tick) (rm1, w2) (rm', w')"
      using Cons.IH [OF ss1(1) ok(2)] by (auto intro: risk_checked_mono wider)
    ultimately show ?thesis using Cons.IH [OF ss1(1) ok(2)] ok2 by (auto simp: ss1(2) x intro: risk_checked_trans)
  qed
qed (auto intro: rc_done)

section \<open>Runs\<close>

datatype sched_op =
    DoLoad StrategyConfig | DoStart string | DoStop string | DoStopAll | DoMarket string "TickData option" | DoFill FillEvent

type_synonym 'w sched_state = "strategies \<times> RiskManagerImpl option \<times> 'w"

fun sched_step ::
  "declib \<Rightarrow> 'f floatlib \<Rightarrow> (decimal \<Rightarrow> decimal option) \<Rightarrow> 'w order_engine option \<Rightarrow> time \<Rightarrow> sched_op \<Rightarrow> 'w sched_state \<Rightarrow>
    'w sched_state outcome" where
  "sched_step L F fsqrt ex now (DoLoad cfg) (ss, rw) =
     (case LoadStrategy L now cfg ss of Panicked \<Rightarrow> Panicked | Returned (ss', _) \<Rightarrow> Returned (ss', rw))"
| "sched_step L F fsqrt ex now (DoStart sid) (ss, rw) = Returned (fst (StartStrategy now sid ss), rw)"
| "sched_step L F fsqrt ex now (DoStop sid) (ss, rw) = Returned (fst (StopStrategy now sid ss), rw)"
| "sched_step L F fsqrt ex now DoStopAll (ss, rw) = Returned (StopAll now ss, rw)"
| "sched_step L F fsqrt ex now (DoMarket symbol tick) (ss, rw) = OnMarketUpdate L F fsqrt ex now symbol tick ss (fst rw) (snd rw)"
| "sched_step L F fsqrt ex now (DoFill fill) (ss, rw) = Returned (OnOrderFill now fill ss, rw)"

fun sched_run ::
  "declib \<Rightarrow> 'f floatlib \<Rightarrow> (decimal \<Rightarrow> decimal option) \<Rightarrow> 'w order_engine option \<Rightarrow> (time \<times> sched_op) list \<Rightarrow> 'w sched_state \<Rightarrow>
    'w sched_state outcome" where
  "sched_run L F fsqrt ex [] s = Returned s"
| "sched_run L F fsqrt ex ((now, op) # ops) s =
     (case sched_step L F fsqrt ex now op s of Panicked \<Rightarrow> Panicked | Returned s' \<Rightarrow> sched_run L F fsqrt ex ops s')"

lemma OnMarketUpdate_ok:
  assumes "strategies_ok ss" and "OnMarketUpdate L F fsqrt ex now symbol tick ss rm w = Returned (ss', rm', w')"
  shows "strategies_ok ss'"
  using assms
  by (auto simp: OnMarketUpdate_def strategies_ok_def map_wf_def split: option.splits dest!: update_strategies_checked)

lemma sched_step_ok:
  assumes "strategies_ok ss" and "sched_step L F fsqrt ex now op (ss, rw) = Returned (ss', rw')"
  shows "strategies_ok ss'"
proof (cases op)
  case (DoMarket symbol tick)
  then show ?thesis using assms OnMarketUpdate_ok [OF assms(1)] by (cases rw') auto
qed (use assms in \<open>auto split: outcome.splits prod.splits
  intro: LoadStrategy_ok StartStrategy_ok StopStrategy_ok StopAll_ok OnOrderFill_ok\<close>)

lemma sched_run_ok:
  "strategies_ok ss \<Longrightarrow> sched_run L F fsqrt ex ops (ss, rw) = Returned (ss', rw') \<Longrightarrow> strategies_ok ss'"
proof (induction ops arbitrary: ss rw)
  case (Cons x ops)
  obtain now op where x: "x = (now, op)" by (cases x) auto
  then obtain ss1 rw1 where one: "sched_step L F fsqrt ex now op (ss, rw) = Returned (ss1, rw1)"
    and rest: "sched_run L F fsqrt ex ops (ss1, rw1) = Returned (ss', rw')"
    using Cons.prems(2) by (auto split: outcome.splits)
  show ?case by (rule Cons.IH [OF sched_step_ok [OF Cons.prems(1) one] rest])
qed simp

lemma WinRate_range:
  assumes "pnl_ok p" and "declib_ok L"
  shows "0 \<le> WinRate L p \<and> WinRate L p \<le> 100"
proof (cases "pt_TotalTrades p = 0")
  case False
  then have t: "0 < pt_TotalTrades p" using assms(1) by (simp add: pnl_ok_def)
  let ?q = "of_int (pt_WinCount p) / (of_int (pt_TotalTrades p) :: decimal)"
  have n: "near_multiple 16 ?q (dl_div L (of_int (pt_WinCount p)) (of_int (pt_TotalTrades p)))"
    by (rule declib_div [OF assms(2)]) (use t in simp)
  have "0 \<le> ?q" "?q \<le> of_int (10 ^ 16) / 10 ^ 16"
    using t assms(1) by (simp_all add: pnl_ok_def)
  then show ?thesis using near_multiple_nonneg [OF n] near_multiple_le_grid [OF n, of "10 ^ 16"] False by (simp add: WinRate_def)
qed (simp add: WinRate_def)

text \<open>C34: Every strategy of a scheduler that started empty is well formed: its id is its key, its type has its
  configuration, a signal generator exists exactly for mean reversion, a drift engine shares the grid
  configuration and never gets a grid state, and its win rate is a percentage.\<close>

theorem scheduler_well_formed:
  assumes "sched_run L F fsqrt ex ops ([], rw) = Returned (ss, rw')" and "map_of ss sid = Some inst" and "declib_ok L"
  shows "map_wf ss \<and> instance_ok sid inst \<and> 0 \<le> WinRate L (si_PnL inst) \<and> WinRate L (si_PnL inst) \<le> 100"
proof -
  have "strategies_ok ([] :: strategies)" by (simp add: strategies_ok_def)
  then have ok: "strategies_ok ss" using assms(1) by (rule sched_run_ok)
  then have inst: "instance_ok sid inst" using assms(2) by (rule strategies_ok_lookup)
  then have "pnl_ok (si_PnL inst)" by (simp add: instance_ok_def)
  from WinRate_range [OF this assms(3)] inst ok show ?thesis by (simp add: strategies_ok_def)
qed

text \<open>C18: A market update places only orders that the risk manager approved just before, each of an active strategy of the
  symbol, for its own size and at the price of the tick.\<close>

theorem market_update_risk_checked:
  assumes "strategies_ok ss" and "OnMarketUpdate L F fsqrt ex now symbol (Some tick) ss rm w = Returned (ss', rm', w')"
  shows "risk_checked ex now (strategy_request ss symbol tick) (rm, w) (rm', w') \<and> strategies_ok ss'"
proof -
  have "update_strategies L F fsqrt ex now symbol tick ss rm w = Returned (ss', rm', w')"
    using assms(2) by (simp add: OnMarketUpdate_def)
  from update_strategies_checked [OF this] assms(1) show ?thesis by (auto simp: strategies_ok_def map_wf_def)
qed

definition none_active :: "strategies \<Rightarrow> bool" where
  "none_active ss \<longleftrightarrow> (\<forall>(sid, inst) \<in> set ss. si_State inst \<noteq> StrategyStateActive)"

lemma idle_update: "none_active ss \<Longrightarrow> update_strategies L F fsqrt ex now symbol tick ss rm w = Returned (ss, rm, w)"
  by (induction ss) (auto simp: none_active_def)

lemma none_active_update: "none_active ss \<Longrightarrow> si_State inst \<noteq> StrategyStateActive \<Longrightarrow> none_active (AList.update sid inst ss)"
  by (induction ss) (auto simp: none_active_def)

lemma none_active_lookup: "none_active ss \<Longrightarrow> map_of ss sid = Some inst \<Longrightarrow> si_State inst \<noteq> StrategyStateActive"
  by (auto simp: none_active_def dest: map_of_SomeD)

lemma none_active_step:
  assumes "none_active ss" and "\<forall>sid. op \<noteq> DoStart sid" and "sched_step L F fsqrt ex now op (ss, rw) = Returned (ss', rw')"
  shows "none_active ss' \<and> rw' = rw"
proof (cases op)
  case (DoLoad cfg)
  then show ?thesis using assms
    by (auto simp: LoadStrategy_def Let_def split: outcome.splits if_splits intro: none_active_update)
next
  case (DoMarket symbol tick)
  then show ?thesis using assms
    by (auto simp: OnMarketUpdate_def idle_update [OF assms(1)] split: option.splits)
next
  case (DoStop sid)
  then show ?thesis using assms
    by (auto simp: StopStrategy_def split: option.splits intro!: none_active_update)
next
  case DoStopAll
  then show ?thesis using assms by (auto simp: none_active_def dest: StopAll_stopped)
next
  case (DoFill fill)
  then show ?thesis using assms
    by (auto simp: OnOrderFill_def split: option.splits intro!: none_active_update dest: none_active_lookup)
qed (use assms in auto)

lemma none_active_run:
  "none_active ss \<Longrightarrow> \<forall>(t, op) \<in> set ops. \<forall>sid. op \<noteq> DoStart sid \<Longrightarrow>
    sched_run L F fsqrt ex ops (ss, rw) = Returned (ss', rw') \<Longrightarrow> none_active ss' \<and> rw' = rw"
proof (induction ops arbitrary: ss rw)
  case (Cons x ops)
  obtain now op where x: "x = (now, op)" by (cases x) auto
  then obtain ss1 rw1 where one: "sched_step L F fsqrt ex now op (ss, rw) = Returned (ss1, rw1)"
    and rest: "sched_run L F fsqrt ex ops (ss1, rw1) = Returned (ss', rw')"
    using Cons.prems(3) by (auto split: outcome.splits)
  have op: "\<forall>sid. op \<noteq> DoStart sid" using Cons.prems(2) by (auto simp: x)
  note k = none_active_step [OF Cons.prems(1) op one]
  show ?case using Cons.IH [of ss1 rw1] k rest Cons.prems(2) by auto
qed simp

text \<open>After \<open>StopAll\<close> nothing reaches the risk manager or the exchange until a strategy is started again, whatever is
  loaded, however the market moves and whichever fills arrive.\<close>

theorem stop_all_is_final:
  assumes "sched_run L F fsqrt ex ((now, DoStopAll) # ops) (ss, rm, w) = Returned (ss', rm', w')"
    and "\<forall>(t, op) \<in> set ops. \<forall>sid. op \<noteq> DoStart sid"
  shows "rm' = rm \<and> w' = w \<and> (\<forall>(sid, inst) \<in> set ss'. si_State inst \<noteq> StrategyStateActive)"
proof -
  have "none_active (StopAll now ss)" using StopAll_stopped by (fastforce simp: none_active_def)
  moreover have "sched_run L F fsqrt ex ops (StopAll now ss, rm, w) = Returned (ss', rm', w')" using assms(1) by simp
  ultimately have "none_active ss' \<and> (rm', w') = (rm, w)" by (rule none_active_run [OF _ assms(2)])
  then show ?thesis by (simp add: none_active_def)
qed

text \<open>The program builds its scheduler with a nil order engine: no signal ever reaches the risk manager.\<close>

lemma nil_engine_submit: "submitSignalForApproval None now inst signal tick rm w = (rm, w)"
  by (auto simp: submitSignalForApproval_def split: option.split)

lemma risk_checked_nil: "risk_checked None now allowed s s' \<Longrightarrow> snd s' = snd s"
  by (induction rule: risk_checked.induct) auto

theorem production_scheduler_never_orders:
  assumes "sched_run L F fsqrt None ops ([], rm, w) = Returned (ss, rm', w')"
  shows "w' = w"
proof -
  have step: "snd rw' = snd rw"
    if "strategies_ok ss" "sched_step L F fsqrt None now op (ss, rw) = Returned (ss', rw')" for ss rw now op ss' rw'
  proof (cases op)
    case (DoMarket symbol tick)
    then show ?thesis using that
      by (cases rw, cases rw')
        (auto simp: OnMarketUpdate_def strategies_ok_def split: option.splits
          dest!: update_strategies_checked dest: risk_checked_nil)
  qed (use that in \<open>auto split: outcome.splits prod.splits\<close>)
  have "snd rw' = snd rw" if "strategies_ok ss" "sched_run L F fsqrt None ops (ss, rw) = Returned (ss', rw')" for ss rw ss' rw' ops
    using that
  proof (induction ops arbitrary: ss rw)
    case (Cons x ops)
    obtain now op where x: "x = (now, op)" by (cases x) auto
    then obtain ss1 rw1 where one: "sched_step L F fsqrt None now op (ss, rw) = Returned (ss1, rw1)"
      and rest: "sched_run L F fsqrt None ops (ss1, rw1) = Returned (ss', rw')"
      using Cons.prems(2) by (auto split: outcome.splits)
    show ?case using Cons.IH [OF sched_step_ok [OF Cons.prems(1) one] rest] step [OF Cons.prems(1) one] by simp
  qed simp
  from this [OF _ assms] show ?thesis by (simp add: strategies_ok_def)
qed

section \<open>Concrete runs\<close>

definition plain_grid :: GridConfig where
  "plain_grid = drift_grid\<lparr>gc_Drift := None\<rparr>"

definition plain_strategy :: StrategyConfig where
  "plain_strategy = \<lparr>sc_StrategyID = ''g'', sc_Type = ''grid'', sc_Grid = Some plain_grid, sc_MeanReversion = None\<rparr>"

definition plain_instance :: "StrategyState \<Rightarrow> StrategyInstance" where
  "plain_instance st = \<lparr>si_Config = plain_strategy, si_State = st, si_PnL = zero_pnl, si_LastSignal = SignalDirectionNone,
     si_LastUpdate = 0, si_Symbol = ''BTC-USDT'', si_DriftEngine = None, si_SignalGen = None\<rparr>"

definition recorder :: "ExecOrderRequest list order_engine" where
  "recorder = \<lparr>ex_place = (\<lambda>r w. (w @ [r], True)), ex_cancel = (\<lambda>_ w. (w, True))\<rparr>"

definition tick_at :: "decimal \<Rightarrow> TickData" where
  "tick_at p = \<lparr>td_Symbol = ''BTC-USDT'', td_Timestamp = 0, td_LastPrice = p, td_BestBid = p, td_BestAsk = p,
     td_BidSize = 1, td_AskSize = 1, td_Volume24h = 1, td_SequenceId = 0\<rparr>"

lemma plain_load_start:
  "sched_run exact_dec F fsqrt ex [(0, DoLoad plain_strategy), (0, DoStart ''g'')] ([], rw) =
   Returned ([(''g'', plain_instance StrategyStateActive)], rw)"
  by (simp add: LoadStrategy_def StartStrategy_def valid_strategy_def plain_strategy_def plain_instance_def plain_grid_def
      drift_engine_of_def strategy_symbol_def drift_grid_def)

lemma plain_update:
  "OnMarketUpdate exact_dec F fsqrt (Some recorder) 1 ''BTC-USDT'' (Some (tick_at 95))
     [(''g'', plain_instance StrategyStateActive)] (Some (NewRiskManager None)) [] =
   Returned ([(''g'', (plain_instance StrategyStateActive)\<lparr>si_LastSignal := SignalDirectionBuy, si_LastUpdate := 1\<rparr>)],
     Some (NewRiskManager None), [signal_request (plain_instance StrategyStateActive) SideBuy 95])"
  by (simp add: OnMarketUpdate_def plain_instance_def plain_strategy_def plain_grid_def drift_grid_def tick_at_def
      processMarketUpdate_def processGridUpdate_def grid_signal_def exact_dec_def submitSignalForApproval_def
      signal_side_def CheckOrder_def NewRiskManager_def recorder_def signal_request_def signal_size_def)

lemma plain_ok: "strategies_ok [(''g'', plain_instance st)]"
  by (simp add: strategies_ok_def map_wf_def instance_ok_def plain_instance_def plain_strategy_def valid_strategy_def
      strategy_symbol_def plain_grid_def drift_grid_def pnl_ok_def zero_pnl_def)

theorem market_update_risk_checked_witness:
  "risk_checked (Some recorder) 1 (strategy_request [(''g'', plain_instance StrategyStateActive)] ''BTC-USDT'' (tick_at 95))
     (Some (NewRiskManager None), [])
     (Some (NewRiskManager None), [signal_request (plain_instance StrategyStateActive) SideBuy 95])"
  using market_update_risk_checked [OF plain_ok plain_update] by simp

theorem scheduler_well_formed_witness:
  "instance_ok ''g'' (plain_instance StrategyStateActive) \<and> WinRate exact_dec (si_PnL (plain_instance StrategyStateActive)) \<le> 100"
proof -
  have "sched_run std_declib sample_floats Some (None :: unit order_engine option)
      [(0, DoLoad plain_strategy), (0, DoStart ''g'')] ([], None, ()) = Returned ([(''g'', plain_instance StrategyStateActive)], None, ())"
    by (simp add: LoadStrategy_def StartStrategy_def valid_strategy_def plain_strategy_def plain_instance_def plain_grid_def
      drift_engine_of_def strategy_symbol_def drift_grid_def)
  from scheduler_well_formed [OF this _ std_declib_ok, of "''g''"]
  show ?thesis by (simp add: WinRate_def plain_instance_def zero_pnl_def)
qed

theorem stop_all_is_final_witness:
  "\<exists>ss'. sched_run exact_dec sample_floats Some (Some recorder) [(0, DoStopAll), (1, DoMarket ''BTC-USDT'' (Some (tick_at 95)))]
     ([(''g'', plain_instance StrategyStateActive)], Some (NewRiskManager None), []) = Returned (ss', Some (NewRiskManager None), []) \<and>
   (\<forall>(sid, inst) \<in> set ss'. si_State inst \<noteq> StrategyStateActive)"
proof -
  have run: "\<exists>ss'. sched_run exact_dec sample_floats Some (Some recorder) [(0, DoStopAll), (1, DoMarket ''BTC-USDT'' (Some (tick_at 95)))]
     ([(''g'', plain_instance StrategyStateActive)], Some (NewRiskManager None), []) = Returned (ss', Some (NewRiskManager None), [])"
    by (simp add: StopAll_def OnMarketUpdate_def plain_instance_def)
  then show ?thesis using stop_all_is_final by fastforce
qed

theorem production_scheduler_never_orders_witness:
  "\<exists>ss. sched_run exact_dec sample_floats Some (None :: nat order_engine option)
     [(0, DoLoad plain_strategy), (0, DoStart ''g''), (1, DoMarket ''BTC-USDT'' (Some (tick_at 95)))] ([], Some (NewRiskManager None), 0)
     = Returned (ss, Some (NewRiskManager None), 0)"
proof -
  have "\<exists>ss rm w. sched_run exact_dec sample_floats Some (None :: nat order_engine option)
     [(0, DoLoad plain_strategy), (0, DoStart ''g''), (1, DoMarket ''BTC-USDT'' (Some (tick_at 95)))] ([], Some (NewRiskManager None), 0)
     = Returned (ss, rm, w) \<and> rm = Some (NewRiskManager None)"
    by (simp add: LoadStrategy_def StartStrategy_def valid_strategy_def plain_strategy_def plain_grid_def
      drift_engine_of_def strategy_symbol_def drift_grid_def OnMarketUpdate_def tick_at_def
      processMarketUpdate_def processGridUpdate_def grid_signal_def exact_dec_def nil_engine_submit)
  then obtain ss w where run: "sched_run exact_dec sample_floats Some (None :: nat order_engine option)
     [(0, DoLoad plain_strategy), (0, DoStart ''g''), (1, DoMarket ''BTC-USDT'' (Some (tick_at 95)))] ([], Some (NewRiskManager None), 0)
     = Returned (ss, Some (NewRiskManager None), w)" by auto
  have "w = 0" by (rule production_scheduler_never_orders [OF run])
  with run show ?thesis by auto
qed

text \<open>The scheduler's requests carry no spread, so a risk manager with a minimum spread refuses all of them.\<close>

lemma spread_limit_refuses_signals:
  assumes "rm_limits r = Some l" and "0 < rl_MinSpreadBps l"
  shows "snd (submitSignalForApproval ex now inst signal tick (Some r) w) = w"
proof -
  have "checkMinSpread l (risk_request req) \<noteq> []" for req
    using assms(2) by (simp add: checkMinSpread_def risk_request_def)
  then have "\<not> d_Approved (snd (CheckOrder now now (risk_request req) r))" for req
    using assms(1) by (auto simp: CheckOrder_def Let_def split: prod.split)
  then show ?thesis
    by (auto simp: submitSignalForApproval_def Let_def split: option.split prod.split) (metis snd_conv)+
qed

text \<open>Every sale whose value exceeds its fee counts as a win, whatever the position cost.\<close>

lemma every_sale_wins:
  "fe_Side fill = SideSell \<Longrightarrow> fe_Fee fill < fe_Price fill * fe_Quantity fill \<Longrightarrow>
    pt_WinCount (pnl_fill fill p) = pt_WinCount p + 1"
  by (simp add: pnl_fill_def Let_def)

end
