(* ===== verification/RateLimiter.thy ===== *)
theory RateLimiter
  imports Prelude
begin

text \<open>
  The rate limiter of \<open>src/internal/ratelimiter\<close>: one token bucket per endpoint. Tokens are \<open>float64\<close>
  values, that is rationals, and \<open>fl\<close> rounds the exact result of each operation to such a value
  (\<open>float_ok\<close> is what IEEE 754 promises of it as long as nothing overflows). Intervals and rates are
  positive, as in every configuration of the program; a zero interval would give an infinity, which
  is outside the model. \<open>clock i\<close> is the \<open>i\<close>-th reading of the clock.
\<close>

section \<open>Buckets\<close>

record EndpointConfig =
  ec_Endpoint :: string
  ec_MaxTokens :: int
  ec_RefillRate :: int
  ec_RefillInterval :: duration

definition DefaultEndpointConfigs :: "EndpointConfig list" where
  "DefaultEndpointConfigs =
     map (\<lambda>e. \<lparr>ec_Endpoint = e, ec_MaxTokens = 20, ec_RefillRate = 20, ec_RefillInterval = 2 * 1000000000\<rparr>)
       [''trade/order'', ''trade/batch-orders'', ''trade/cancel-order'', ''trade/cancel-batch-orders'',
        ''market/ticker'', ''account/positions'']"

record bucket =
  bk_tokens :: rat
  bk_maxTokens :: int
  bk_refillRate :: int
  bk_refillInterval :: duration
  bk_lastRefill :: time

definition refill :: "(rat \<Rightarrow> rat) \<Rightarrow> time \<Rightarrow> bucket \<Rightarrow> bucket" where
  "refill fl now b =
     (let elapsed = now - bk_lastRefill b in
      if elapsed \<le> 0 then b
      else
        let tokensToAdd = fl (fl (of_int (bk_refillRate b)) * fl (fl (of_int elapsed) / fl (of_int (bk_refillInterval b))));
            tokens = fl (bk_tokens b + tokensToAdd);
            cap = fl (of_int (bk_maxTokens b))
        in b\<lparr>bk_tokens := (if tokens > cap then cap else tokens), bk_lastRefill := now\<rparr>)"

definition tryConsume :: "(rat \<Rightarrow> rat) \<Rightarrow> time \<Rightarrow> bucket \<Rightarrow> bucket \<times> bool" where
  "tryConsume fl now b =
     (let b1 = refill fl now b in
      if 1 \<le> bk_tokens b1 then (b1\<lparr>bk_tokens := fl (bk_tokens b1 - 1)\<rparr>, True) else (b1, False))"

text \<open>The conversion to a duration truncates.\<close>

definition timeUntilNextToken :: "(rat \<Rightarrow> rat) \<Rightarrow> time \<Rightarrow> bucket \<Rightarrow> bucket \<times> duration" where
  "timeUntilNextToken fl now b =
     (let b1 = refill fl now b in
      if 1 \<le> bk_tokens b1 then (b1, 0)
      else
        let deficit = fl (1 - bk_tokens b1);
            x = fl (fl (fl (of_int (bk_refillInterval b1)) * deficit) / fl (of_int (bk_refillRate b1)))
        in (b1, if 0 \<le> x then \<lfloor>x\<rfloor> else \<lceil>x\<rceil>))"

section \<open>The limiter\<close>

type_synonym TokenBucket = "(string, bucket) gomap"

definition NewTokenBucketLimiter :: "(rat \<Rightarrow> rat) \<Rightarrow> time \<Rightarrow> EndpointConfig list \<Rightarrow> TokenBucket" where
  "NewTokenBucketLimiter fl now configs =
     foldl (\<lambda>tb cfg. AList.update (ec_Endpoint cfg)
       \<lparr>bk_tokens = fl (of_int (ec_MaxTokens cfg)), bk_maxTokens = ec_MaxTokens cfg, bk_refillRate = ec_RefillRate cfg,
        bk_refillInterval = ec_RefillInterval cfg, bk_lastRefill = now\<rparr> tb) [] configs"

datatype acquire_result = Acquired | UnknownEndpoint string | AcquireTimeout string duration

definition maxWait :: duration where
  "maxWait = 5 * 1000000000"

text \<open>The reading \<open>clock i\<close> begins an iteration; how long the loop sleeps shows in the next readings.\<close>

partial_function (option) acquire_loop ::
  "(rat \<Rightarrow> rat) \<Rightarrow> (nat \<Rightarrow> time) \<Rightarrow> string \<Rightarrow> time \<Rightarrow> nat \<Rightarrow> bucket \<Rightarrow> (bucket \<times> acquire_result) option" where
  "acquire_loop fl clock endpoint deadline i b =
     (if clock i > deadline
      then (case timeUntilNextToken fl (clock i) b of (b1, d) \<Rightarrow> Some (b1, AcquireTimeout endpoint d))
      else
        (case tryConsume fl (clock i) b of
           (b1, ok) \<Rightarrow>
             if ok then Some (b1, Acquired)
             else
               let b2 = fst (timeUntilNextToken fl (clock i) b1) in
               if deadline - clock (i + 1) \<le> 0
               then (case timeUntilNextToken fl (clock (i + 2)) b2 of (b3, d) \<Rightarrow> Some (b3, AcquireTimeout endpoint d))
               else acquire_loop fl clock endpoint deadline (i + 2) b2))"

text \<open>The time the loop sleeps after a reading that found no token.\<close>

definition sleep_time :: "(rat \<Rightarrow> rat) \<Rightarrow> time \<Rightarrow> time \<Rightarrow> bucket \<Rightarrow> duration" where
  "sleep_time fl now remaining b =
     (let waitTime = snd (timeUntilNextToken fl now b);
          w = (if waitTime \<le> 0 then 1000000 else waitTime)
      in if w > remaining then remaining else w)"

definition TryAcquire ::
  "(rat \<Rightarrow> rat) \<Rightarrow> (nat \<Rightarrow> time) \<Rightarrow> string \<Rightarrow> TokenBucket \<Rightarrow> (TokenBucket \<times> acquire_result) option" where
  "TryAcquire fl clock endpoint tb =
     (case map_of tb endpoint of
        None \<Rightarrow> Some (tb, UnknownEndpoint endpoint)
      | Some b \<Rightarrow>
          (case acquire_loop fl clock endpoint (clock 0 + maxWait) 1 b of
             None \<Rightarrow> None
           | Some (b', r) \<Rightarrow> Some (AList.update endpoint b' tb, r)))"

definition GetNextAvailableTime :: "(rat \<Rightarrow> rat) \<Rightarrow> time \<Rightarrow> string \<Rightarrow> TokenBucket \<Rightarrow> TokenBucket \<times> duration" where
  "GetNextAvailableTime fl now endpoint tb =
     (case map_of tb endpoint of
        None \<Rightarrow> (tb, - 1)
      | Some b \<Rightarrow> (case timeUntilNextToken fl now b of (b', d) \<Rightarrow> (AList.update endpoint b' tb, d)))"

section \<open>Rounding\<close>

definition float_ok :: "(rat \<Rightarrow> rat) \<Rightarrow> bool" where
  "float_ok fl \<longleftrightarrow> mono fl \<and> (\<forall>k. \<bar>k\<bar> \<le> 2 ^ 53 \<longrightarrow> fl (of_int k) = of_int k) \<and>
     (\<forall>x. \<bar>x\<bar> \<le> 2 ^ 1000 \<longrightarrow> \<bar>fl x - x\<bar> \<le> \<bar>x\<bar> / 2 ^ 53 + 1 / 2 ^ 1000)"

lemma float_ok_id: "float_ok (\<lambda>x. x)"
  by (simp add: float_ok_def mono_def)

lemma fl_int: "float_ok fl \<Longrightarrow> \<bar>k\<bar> \<le> 2 ^ 53 \<Longrightarrow> fl (of_int k) = of_int k"
  by (simp add: float_ok_def)

lemma fl_zero: "float_ok fl \<Longrightarrow> fl 0 = 0"
  using fl_int [of fl 0] by simp

lemma fl_one: "float_ok fl \<Longrightarrow> fl 1 = 1"
  using fl_int [of fl 1] by simp

lemma fl_mono: "float_ok fl \<Longrightarrow> x \<le> y \<Longrightarrow> fl x \<le> fl y"
  by (simp add: float_ok_def mono_def)

lemma fl_nonneg: "float_ok fl \<Longrightarrow> 0 \<le> x \<Longrightarrow> 0 \<le> fl x"
  using fl_mono [of fl 0 x] fl_zero [of fl] by simp

definition unit_roundoff :: rat where
  "unit_roundoff = 1 / 2 ^ 53"

definition tiny :: rat where
  "tiny = 1 / 2 ^ 1000"

lemma fl_up: "float_ok fl \<Longrightarrow> 0 \<le> x \<Longrightarrow> x \<le> 2 ^ 1000 \<Longrightarrow> fl x \<le> x * (1 + unit_roundoff) + tiny"
proof -
  assume f: "float_ok fl" and x: "0 \<le> x" "x \<le> 2 ^ 1000"
  have "\<bar>fl x - x\<bar> \<le> \<bar>x\<bar> / 2 ^ 53 + 1 / 2 ^ 1000" using f x by (simp add: float_ok_def del: abs_of_nonneg)
  then have "fl x - x \<le> x / 2 ^ 53 + 1 / 2 ^ 1000" using x by (simp only: abs_le_iff abs_of_nonneg)
  then show ?thesis by (simp add: unit_roundoff_def tiny_def algebra_simps)
qed

section \<open>Buckets stay within their bounds\<close>

text \<open>A positive integer that a float represents exactly.\<close>

definition small_int :: "int \<Rightarrow> bool" where
  "small_int k \<longleftrightarrow> 1 \<le> k \<and> k \<le> 2 ^ 53"

lemma fl_small: "float_ok fl \<Longrightarrow> small_int k \<Longrightarrow> fl (of_int k) = of_int k"
  by (rule fl_int) (simp_all add: small_int_def)

lemma small_int_range:
  assumes "small_int k"
  shows "(1 :: rat) \<le> of_int k" "(of_int k :: rat) \<le> 2 ^ 53"
proof -
  have "(of_int k :: rat) \<le> of_int (2 ^ 53)" using assms unfolding small_int_def of_int_le_iff by simp
  then show "(of_int k :: rat) \<le> 2 ^ 53" by simp
  show "(1 :: rat) \<le> of_int k" using assms by (simp add: small_int_def)
qed

definition bucket_ok :: "bucket \<Rightarrow> bool" where
  "bucket_ok b \<longleftrightarrow> 0 \<le> bk_tokens b \<and> bk_tokens b \<le> of_int (bk_maxTokens b) \<and>
     small_int (bk_maxTokens b) \<and> small_int (bk_refillRate b) \<and> small_int (bk_refillInterval b)"

text \<open>The exact number of tokens that accrue in a time.\<close>

definition accrued :: "bucket \<Rightarrow> duration \<Rightarrow> rat" where
  "accrued b d = of_int (bk_refillRate b) * (of_int d / of_int (bk_refillInterval b))"

lemma refill_fields [simp]:
  "bk_maxTokens (refill fl now b) = bk_maxTokens b" "bk_refillRate (refill fl now b) = bk_refillRate b"
  "bk_refillInterval (refill fl now b) = bk_refillInterval b"
  "bk_lastRefill (refill fl now b) = max now (bk_lastRefill b)"
  by (simp_all add: refill_def Let_def)

abbreviation added_tokens :: "(rat \<Rightarrow> rat) \<Rightarrow> time \<Rightarrow> bucket \<Rightarrow> rat" where
  "added_tokens fl now b \<equiv>
     fl (fl (of_int (bk_refillRate b)) * fl (fl (of_int (now - bk_lastRefill b)) / fl (of_int (bk_refillInterval b))))"

lemma refill_tokens:
  assumes "float_ok fl" and "bucket_ok b" and "bk_lastRefill b < now"
  shows "bk_tokens (refill fl now b) = min (fl (bk_tokens b + added_tokens fl now b)) (of_int (bk_maxTokens b))"
proof -
  have "fl (of_int (bk_maxTokens b)) = of_int (bk_maxTokens b)" using assms by (simp add: bucket_ok_def fl_small)
  then show ?thesis using assms(3) by (simp add: refill_def Let_def min_def)
qed

lemma refill_ok [inv_intros]:
  assumes "float_ok fl" and "bucket_ok b"
  shows "bucket_ok (refill fl now b)"
proof (cases "bk_lastRefill b < now")
  case True
  have "0 \<le> added_tokens fl now b"
    using assms True by (intro fl_nonneg [OF assms(1)] mult_nonneg_nonneg divide_nonneg_nonneg)
      (auto simp: bucket_ok_def small_int_def)
  moreover have "0 \<le> bk_tokens b" using assms(2) by (simp add: bucket_ok_def)
  ultimately have "0 \<le> fl (bk_tokens b + added_tokens fl now b)" using assms(1) by (simp add: fl_nonneg)
  then show ?thesis using assms(2) by (simp add: bucket_ok_def refill_tokens [OF assms True])
qed (use assms in \<open>simp add: refill_def Let_def\<close>)

lemma tryConsume_ok [inv_intros]:
  assumes "float_ok fl" and "bucket_ok b" and "tryConsume fl now b = (b', ok)"
  shows "bucket_ok b'"
proof -
  have r: "bucket_ok (refill fl now b)" by (rule refill_ok [OF assms(1,2)])
  have "0 \<le> fl (bk_tokens (refill fl now b) - 1)" if "1 \<le> bk_tokens (refill fl now b)"
    using assms(1) that by (simp add: fl_nonneg)
  moreover have "fl (bk_tokens (refill fl now b) - 1) \<le> of_int (bk_maxTokens b)"
  proof -
    have "fl (bk_tokens (refill fl now b) - 1) \<le> fl (of_int (bk_maxTokens b))"
      using r by (intro fl_mono [OF assms(1)]) (simp add: bucket_ok_def)
    also have "\<dots> = of_int (bk_maxTokens b)" using assms(1,2) by (simp add: bucket_ok_def fl_small)
    finally show ?thesis .
  qed
  ultimately show ?thesis using r assms(3) by (auto simp: tryConsume_def Let_def bucket_ok_def split: if_splits)
qed

section \<open>The error of a refill\<close>

lemma roundoff_facts:
  "0 < unit_roundoff" "(1 + unit_roundoff) ^ 4 \<le> 1 + 5 * unit_roundoff"
  "(1 + unit_roundoff) ^ 3 + (1 + unit_roundoff) ^ 2 \<le> 3" "1 + unit_roundoff \<le> 2"
  "(2 ^ 53 * 3 + 3) * tiny \<le> unit_roundoff" "0 < tiny" "tiny \<le> unit_roundoff" "tiny \<le> 1"
  by (simp_all add: unit_roundoff_def tiny_def power_divide power2_eq_square power3_eq_cube power4_eq_xxxx)

lemma added_tokens_up:
  assumes f: "float_ok fl" and b: "bucket_ok b" and now: "bk_lastRefill b < now"
    and small: "accrued b (now - bk_lastRefill b) < of_int (bk_maxTokens b)"
  shows "fl (bk_tokens b + added_tokens fl now b) \<le>
    bk_tokens b + accrued b (now - bk_lastRefill b) + 7 * of_int (bk_maxTokens b) * unit_roundoff"
proof -
  define t el I r M a u where d: "t = bk_tokens b" "el = (of_int (now - bk_lastRefill b) :: rat)"
    "I = (of_int (bk_refillInterval b) :: rat)" "r = (of_int (bk_refillRate b) :: rat)"
    "M = (of_int (bk_maxTokens b) :: rat)" "a = accrued b (now - bk_lastRefill b)" "u = unit_roundoff"
  define k where "k = 1 + u"
  have k: "1 \<le> k" "k ^ 4 \<le> 1 + 5 * u" "k ^ 3 + k ^ 2 \<le> 3" "k \<le> 2" "0 < u" "(2 ^ 53 * 3 + 3) * tiny \<le> u"
    and tiny: "0 < tiny" "tiny \<le> 1"
    using roundoff_facts by (simp_all add: k_def d(7))
  have rng: "1 \<le> I" "I \<le> 2 ^ 53" "1 \<le> r" "r \<le> 2 ^ 53" "1 \<le> M" "M \<le> 2 ^ 53" "0 \<le> t" "t \<le> M" "0 < el"
    using b now small_int_range unfolding bucket_ok_def d by simp_all
  define E Q A where EQA: "E = fl el" "Q = fl (E / I)" "A = fl (r * Q)"
  have A: "added_tokens fl now b = A"
    using f b by (simp add: EQA d bucket_ok_def fl_small)
  have a: "a = r * (el / I)" by (simp add: d accrued_def)
  have aM: "a < M" using small by (simp add: d)
  have a0: "0 \<le> a" using rng by (simp add: a)
  have "r * el < M * I" using aM rng by (simp add: a field_simps)
  moreover have "el \<le> r * el" using mult_right_mono [of 1 r el] rng by simp
  moreover have "M * I \<le> 2 ^ 53 * 2 ^ 53" using rng by (intro mult_mono) auto
  ultimately have el: "el \<le> 2 ^ 106" by simp
  have div_le: "x / I \<le> x" if "0 \<le> x" for x :: rat
    using that rng divide_left_mono [of 1 I x] by simp
  have E0: "0 \<le> E" and Q0: "0 \<le> Q" and A0: "0 \<le> A"
    using rng by (auto simp: EQA intro!: fl_nonneg [OF f] mult_nonneg_nonneg divide_nonneg_nonneg)
  have E: "E \<le> el * k + tiny"
    unfolding EQA k_def d(7) by (rule fl_up [OF f]) (use rng el in simp_all)
  have "el * k \<le> 2 ^ 106 * 2" using el k rng by (intro mult_mono) auto
  then have Eb: "E \<le> 2 ^ 108" using E tiny by simp
  have EI: "E / I \<le> (el / I) * k + tiny"
  proof -
    have "E / I \<le> (el * k + tiny) / I" using E rng by (intro divide_right_mono) auto
    also have "\<dots> = (el / I) * k + tiny / I" by (simp add: add_divide_distrib)
    also have "\<dots> \<le> (el / I) * k + tiny" using div_le [of tiny] tiny by simp
    finally show ?thesis .
  qed
  have EI2: "E / I \<le> 2 ^ 108" using div_le [OF E0] Eb by linarith
  have "Q \<le> (E / I) * k + tiny"
    unfolding EQA(2) k_def d(7) by (rule fl_up [OF f]) (use EI2 E0 rng in simp_all)
  moreover have "(E / I) * k \<le> ((el / I) * k + tiny) * k" using EI k by (intro mult_right_mono) auto
  ultimately have Q: "Q \<le> (el / I) * k ^ 2 + tiny * k + tiny" by (simp add: power2_eq_square algebra_simps)
  have "(E / I) * k \<le> 2 ^ 108 * 2" using EI2 k E0 rng by (intro mult_mono) auto
  with \<open>Q \<le> (E / I) * k + tiny\<close> have Qb: "Q \<le> 2 ^ 110" using tiny by simp
  have rQ: "r * Q \<le> a * k ^ 2 + r * (tiny * k + tiny)"
    using mult_left_mono [OF Q, of r] rng by (simp add: a algebra_simps)
  have rQb: "r * Q \<le> 2 ^ 53 * 2 ^ 110" using Qb Q0 rng by (intro mult_mono) auto
  have "A \<le> (r * Q) * k + tiny"
    unfolding EQA(3) k_def d(7) by (rule fl_up [OF f]) (use rQb Q0 rng in simp_all)
  moreover have "(r * Q) * k \<le> (a * k ^ 2 + r * (tiny * k + tiny)) * k" using rQ k by (intro mult_right_mono) auto
  ultimately have Ab: "A \<le> (a * k ^ 2 + r * (tiny * k + tiny)) * k + tiny" by simp
  have "(r * Q) * k \<le> (2 ^ 53 * 2 ^ 110) * 2" by (rule mult_mono [OF rQb]) (use k in auto)
  with \<open>A \<le> (r * Q) * k + tiny\<close> have Abb: "A \<le> 2 ^ 166" using tiny by simp
  have "fl (t + A) \<le> (t + A) * k + tiny"
    unfolding k_def d(7) by (rule fl_up [OF f]) (use rng A0 Abb in simp_all)
  moreover have "(t + A) * k \<le> (t + ((a * k ^ 2 + r * (tiny * k + tiny)) * k + tiny)) * k"
    using Ab k by (intro mult_right_mono) auto
  ultimately have T: "fl (t + A) \<le> t * k + a * k ^ 4 + tiny * (r * (k ^ 3 + k ^ 2) + (k + 1))"
    by (simp add: power2_eq_square power3_eq_cube power4_eq_xxxx algebra_simps)
  have "r * (k ^ 3 + k ^ 2) \<le> 2 ^ 53 * 3" using rng k by (intro mult_mono) auto
  then have "tiny * (r * (k ^ 3 + k ^ 2) + (k + 1)) \<le> tiny * (2 ^ 53 * 3 + 3)"
    using k tiny by (intro mult_left_mono) auto
  also have "\<dots> \<le> u" using k(6) by (simp only: mult.commute)
  finally have rest: "tiny * (r * (k ^ 3 + k ^ 2) + (k + 1)) \<le> u" .
  have "a * k ^ 4 \<le> a * (1 + 5 * u)" using k a0 by (intro mult_left_mono) auto
  moreover have "a * u \<le> M * u" "t * u \<le> M * u" "1 * u \<le> M * u"
    using aM rng k by (auto intro!: mult_right_mono)
  ultimately have "fl (t + A) \<le> t + a + 7 * (M * u)"
    using T rest by (simp add: k_def algebra_simps)
  then show ?thesis unfolding A by (simp add: d mult.assoc)
qed

text \<open>A refill adds at most what accrued, up to rounding.\<close>

lemma refill_up:
  assumes "float_ok fl" and "bucket_ok b"
  shows "bk_tokens (refill fl now b) \<le>
    bk_tokens b + accrued b (max now (bk_lastRefill b) - bk_lastRefill b) + 7 * of_int (bk_maxTokens b) * unit_roundoff"
proof (cases "bk_lastRefill b < now")
  case True
  then have m: "max now (bk_lastRefill b) = now" by simp
  show ?thesis
  proof (cases "accrued b (now - bk_lastRefill b) < of_int (bk_maxTokens b)")
    case small: True
    then show ?thesis
      using added_tokens_up [OF assms True small] by (simp add: m refill_tokens [OF assms True])
  next
    case False
    have "0 \<le> 7 * of_int (bk_maxTokens b) * unit_roundoff" "0 \<le> bk_tokens b"
      using assms(2) small_int_range [of "bk_maxTokens b"] roundoff_facts(1) by (simp_all add: bucket_ok_def)
    with False have "of_int (bk_maxTokens b) \<le>
        bk_tokens b + accrued b (now - bk_lastRefill b) + 7 * of_int (bk_maxTokens b) * unit_roundoff" by linarith
    then show ?thesis unfolding m refill_tokens [OF assms True] by (rule min.coboundedI2)
  qed
next
  case False
  have "0 \<le> 7 * of_int (bk_maxTokens b) * unit_roundoff"
    using assms(2) small_int_range [of "bk_maxTokens b"] roundoff_facts(1) by (simp add: bucket_ok_def)
  with False show ?thesis by (simp add: refill_def Let_def accrued_def max_def)
qed

lemma tryConsume_up:
  assumes "float_ok fl" and "bucket_ok b" and "tryConsume fl now b = (b', ok)"
  shows "bk_tokens b' + of_bool ok \<le>
    bk_tokens b + accrued b (bk_lastRefill b' - bk_lastRefill b) + 9 * of_int (bk_maxTokens b) * unit_roundoff \<and>
    bk_lastRefill b' = max now (bk_lastRefill b) \<and> bk_maxTokens b' = bk_maxTokens b \<and>
    bk_refillRate b' = bk_refillRate b \<and> bk_refillInterval b' = bk_refillInterval b \<and>
    bk_tokens b' + of_bool ok \<le> of_int (bk_maxTokens b) + 2 * of_int (bk_maxTokens b) * unit_roundoff"
proof -
  let ?M = "of_int (bk_maxTokens b) :: rat"
  let ?x = "bk_tokens (refill fl now b)"
  have M: "1 \<le> ?M" "?M \<le> 2 ^ 53" using assms(2) small_int_range [of "bk_maxTokens b"] by (simp_all add: bucket_ok_def)
  have x: "0 \<le> ?x" "?x \<le> ?M" using refill_ok [OF assms(1,2), of now] by (simp_all add: bucket_ok_def)
  have u: "0 < unit_roundoff" "tiny \<le> unit_roundoff" using roundoff_facts by simp_all
  have "?x * unit_roundoff \<le> ?M * unit_roundoff" using x u by (intro mult_right_mono) auto
  have "fl (?x - 1) \<le> ?x - 1 + ?x * unit_roundoff" if "1 \<le> ?x"
  proof -
    have "fl (?x - 1) \<le> (?x - 1) * (1 + unit_roundoff) + tiny"
      by (rule fl_up [OF assms(1)]) (use that x M in simp_all)
    also have "\<dots> = ?x - 1 + ?x * unit_roundoff - unit_roundoff + tiny" by (simp add: algebra_simps)
    finally show ?thesis using u by linarith
  qed
  moreover have "0 \<le> ?M * unit_roundoff" using M u by simp
  ultimately have "bk_tokens b' + of_bool ok \<le> ?x + 2 * (?M * unit_roundoff)"
    using assms(3) \<open>?x * unit_roundoff \<le> ?M * unit_roundoff\<close>
    by (cases "1 \<le> ?x") (auto simp: tryConsume_def Let_def)
  then have "bk_tokens b' + of_bool ok \<le> ?x + 2 * ?M * unit_roundoff" by (simp only: mult.assoc)
  then show ?thesis using refill_up [OF assms(1,2), of now] assms(3) x
    by (auto simp: tryConsume_def Let_def algebra_simps split: if_splits)
qed

section \<open>The limit\<close>

text \<open>Attempts at the given times, and how many got a token.\<close>

fun consume_run :: "(rat \<Rightarrow> rat) \<Rightarrow> time list \<Rightarrow> bucket \<Rightarrow> bucket \<times> nat" where
  "consume_run fl [] b = (b, 0)"
| "consume_run fl (t # ts) b =
     (case tryConsume fl t b of
        (b1, ok) \<Rightarrow> (case consume_run fl ts b1 of (b2, k) \<Rightarrow> (b2, if ok then Suc k else k)))"

lemma accrued_add: "accrued b x + accrued b y = accrued b (x + y)"
  by (simp add: accrued_def add_divide_distrib algebra_simps)

lemma consume_run_up:
  assumes "float_ok fl" and "bucket_ok b" and "consume_run fl ts b = (b', k)"
  shows "bk_tokens b' + of_nat k \<le>
    bk_tokens b + accrued b (bk_lastRefill b' - bk_lastRefill b) + of_nat (length ts) * (9 * of_int (bk_maxTokens b) * unit_roundoff) \<and>
    bk_lastRefill b' = Max (insert (bk_lastRefill b) (set ts)) \<and> 0 \<le> bk_tokens b'"
  using assms(2,3)
proof (induction ts arbitrary: b k)
  case Nil
  then show ?case by (auto simp: accrued_def bucket_ok_def)
next
  case (Cons t ts)
  obtain b1 ok where one: "tryConsume fl t b = (b1, ok)" by force
  obtain k1 where rest: "consume_run fl ts b1 = (b', k1)" and k: "k = (if ok then Suc k1 else k1)"
    using Cons.prems(2) by (auto simp: one split: prod.splits)
  note ok1 = tryConsume_ok [OF assms(1) Cons.prems(1) one]
  note up = tryConsume_up [OF assms(1) Cons.prems(1) one]
  note ih = Cons.IH [OF ok1 rest]
  define c where "c = 9 * of_int (bk_maxTokens b) * unit_roundoff"
  have acc: "accrued b1 x = accrued b x" for x using up by (simp add: accrued_def)
  have "bk_tokens b1 + of_bool ok \<le> bk_tokens b + accrued b (bk_lastRefill b1 - bk_lastRefill b) + c"
    using up unfolding c_def by blast
  moreover have "bk_maxTokens b1 = bk_maxTokens b" using up by blast
  then have "bk_tokens b' + of_nat k1 \<le> bk_tokens b1 + accrued b (bk_lastRefill b' - bk_lastRefill b1) + of_nat (length ts) * c"
    using ih unfolding c_def acc by metis
  moreover have "accrued b (bk_lastRefill b1 - bk_lastRefill b) + accrued b (bk_lastRefill b' - bk_lastRefill b1) =
      accrued b (bk_lastRefill b' - bk_lastRefill b)" by (simp add: accrued_add)
  moreover have "of_nat k = of_nat k1 + (of_bool ok :: rat)" by (simp add: k)
  moreover have "of_nat (length (t # ts)) * c = of_nat (length ts) * c + c" by (simp add: algebra_simps)
  ultimately have "bk_tokens b' + of_nat k \<le>
      bk_tokens b + accrued b (bk_lastRefill b' - bk_lastRefill b) + of_nat (length (t # ts)) * c" by linarith
  moreover have "Max (insert (max t (bk_lastRefill b)) (set ts)) = Max (insert (bk_lastRefill b) (set (t # ts)))"
    by (cases "set ts = {}") (auto simp: max.commute max.left_commute)
  ultimately show ?case using up ih unfolding c_def by simp
qed

text \<open>C30: However many callers try, the tokens handed out between two readings of the clock are at most the capacity plus what
  accrues in between, up to a rounding error of ten units in the last place per attempt.\<close>

theorem token_bucket_limits:
  assumes "float_ok fl" and "bucket_ok b" and "bk_lastRefill b \<le> t" and "sorted (t # ts)"
    and "consume_run fl (t # ts) b = (b', k)"
  shows "of_nat k \<le> of_int (bk_maxTokens b) + accrued b (last (t # ts) - t) +
    of_nat (length (t # ts)) * (9 * of_int (bk_maxTokens b) * unit_roundoff)"
proof -
  obtain b1 ok k1 where one: "tryConsume fl t b = (b1, ok)" and rest: "consume_run fl ts b1 = (b', k1)"
    and k: "k = (if ok then Suc k1 else k1)"
    using assms(5) by (auto split: prod.splits)
  note up = tryConsume_up [OF assms(1,2) one]
  note run = consume_run_up [OF assms(1) tryConsume_ok [OF assms(1,2) one] rest]
  define c where "c = 9 * of_int (bk_maxTokens b) * unit_roundoff"
  have t1: "bk_lastRefill b1 = t" using up assms(3) by simp
  have "Max (insert t (set ts)) = last (t # ts)"
    using assms(4) by (intro Max_eqI) (auto simp: sorted_wrt_append dest!: split_list split: if_splits)
  then have last: "bk_lastRefill b' = last (t # ts)" using run t1 by simp
  have "0 \<le> of_int (bk_maxTokens b) * unit_roundoff"
    using assms(2) small_int_range [of "bk_maxTokens b"] roundoff_facts(1) by (simp add: bucket_ok_def)
  then have "bk_tokens b1 + of_bool ok \<le> of_int (bk_maxTokens b) + c" using up by (simp add: c_def)
  moreover have "bk_tokens b' + of_nat k1 \<le> bk_tokens b1 + accrued b (last (t # ts) - t) + of_nat (length ts) * c"
  proof -
    have acc: "accrued b1 x = accrued b x" for x using up by (simp add: accrued_def)
    have M: "bk_maxTokens b1 = bk_maxTokens b" using up by blast
    show ?thesis using run unfolding c_def acc last t1 M by blast
  qed
  moreover have "0 \<le> bk_tokens b'" using run by simp
  moreover have "of_nat k = of_nat k1 + (of_bool ok :: rat)" by (simp add: k)
  moreover have "of_nat (length (t # ts)) * c = of_nat (length ts) * c + c" by (simp add: algebra_simps)
  ultimately show ?thesis unfolding c_def by linarith
qed

section \<open>Acquiring ends\<close>

lemma sleep_time_pos: "0 < remaining \<Longrightarrow> 0 < sleep_time fl now remaining b"
  by (simp add: sleep_time_def Let_def)

lemma timeUntilNextToken_bucket: "fst (timeUntilNextToken fl now b) = refill fl now b"
  by (simp add: timeUntilNextToken_def Let_def)

lemma acquire_loop_returns:
  assumes "float_ok fl" and "\<And>j. clock j \<le> clock (Suc j)" and "bucket_ok b"
    and "\<And>n. clock (i + 2 * n + 1) < clock (i + 2 * n + 2)"
  shows "\<exists>b' r. acquire_loop fl clock ep D i b = Some (b', r) \<and> bucket_ok b' \<and>
    (case r of Acquired \<Rightarrow> \<exists>j b0. clock j \<le> D \<and> 1 \<le> bk_tokens (refill fl (clock j) b0) \<and> tryConsume fl (clock j) b0 = (b', True)
     | UnknownEndpoint _ \<Rightarrow> False | AcquireTimeout e _ \<Rightarrow> e = ep)"
  using assms(3,4)
proof (induction "nat (D + 1 - clock i)" arbitrary: i b rule: less_induct)
  case less
  note unfold = acquire_loop.simps [of fl clock ep D i b]
  show ?case
  proof (cases "clock i > D")
    case True
    obtain b1 d where t: "timeUntilNextToken fl (clock i) b = (b1, d)" by force
    then have "b1 = refill fl (clock i) b" using timeUntilNextToken_bucket [of fl "clock i" b] by simp
    then show ?thesis using True t refill_ok [OF assms(1) less.prems(1)] by (simp add: unfold)
  next
    case in_time: False
    obtain b1 ok where c: "tryConsume fl (clock i) b = (b1, ok)" by force
    note ok1 = tryConsume_ok [OF assms(1) less.prems(1) c]
    show ?thesis
    proof (cases ok)
      case True
      then have "1 \<le> bk_tokens (refill fl (clock i) b)" using c by (simp add: tryConsume_def Let_def split: if_splits)
      then show ?thesis using True c in_time ok1
        by (intro exI [of _ b1] exI [of _ Acquired]) (simp add: unfold, rule exI [of _ i], simp, rule exI [of _ b], simp)
    next
      case no_token: False
      define b2 where "b2 = fst (timeUntilNextToken fl (clock i) b1)"
      have ok2: "bucket_ok b2" unfolding b2_def timeUntilNextToken_bucket by (rule refill_ok [OF assms(1) ok1])
      show ?thesis
      proof (cases "D - clock (i + 1) \<le> 0")
        case True
        obtain b3 d where t: "timeUntilNextToken fl (clock (i + 2)) b2 = (b3, d)" by force
        then have "b3 = refill fl (clock (i + 2)) b2" using timeUntilNextToken_bucket [of fl "clock (i + 2)" b2] by simp
        then show ?thesis
          using in_time no_token c t True refill_ok [OF assms(1) ok2] by (simp add: unfold b2_def [symmetric] Let_def)
      next
        case False
        have eq: "acquire_loop fl clock ep D i b = acquire_loop fl clock ep D (i + 2) b2"
          using in_time no_token c False by (simp add: unfold b2_def Let_def)
        have "clock i < clock (i + 2)" using less.prems(2) [of 0] assms(2) [of i] by simp
        then have dec: "nat (D + 1 - clock (i + 2)) < nat (D + 1 - clock i)" using in_time by simp
        have later: "clock (i + 2 + 2 * n + 1) < clock (i + 2 + 2 * n + 2)" for n
          using less.prems(2) [of "Suc n"] by (simp add: numeral_eq_Suc)
        show ?thesis unfolding eq by (rule less.hyps [OF dec ok2 later])
      qed
    qed
  qed
qed


section \<open>Concrete buckets\<close>

definition full_bucket :: bucket where
  "full_bucket = \<lparr>bk_tokens = 20, bk_maxTokens = 20, bk_refillRate = 20, bk_refillInterval = 2000000000, bk_lastRefill = 0\<rparr>"

lemma full_bucket_ok: "bucket_ok full_bucket"
  by (simp add: bucket_ok_def small_int_def full_bucket_def)

lemma default_buckets: "map_of (NewTokenBucketLimiter (\<lambda>x. x) 0 DefaultEndpointConfigs) ''trade/order'' = Some full_bucket"
  by (simp add: NewTokenBucketLimiter_def DefaultEndpointConfigs_def full_bucket_def)

lemma consume_burst:
  assumes "bk_tokens b = of_nat n" and "bk_lastRefill b = t"
  shows "consume_run (\<lambda>x. x) (replicate n t) b = (b\<lparr>bk_tokens := 0\<rparr>, n)"
  using assms
proof (induction n arbitrary: b)
  case (Suc n)
  have "tryConsume (\<lambda>x. x) t b = (b\<lparr>bk_tokens := of_nat n\<rparr>, True)"
    using Suc.prems by (simp add: tryConsume_def refill_def Let_def)
  then show ?case using Suc.IH [of "b\<lparr>bk_tokens := of_nat n\<rparr>"] Suc.prems by simp
qed simp

theorem token_bucket_limits_witness:
  "consume_run (\<lambda>x. x) [0, 0] full_bucket = (full_bucket\<lparr>bk_tokens := 18\<rparr>, 2) \<and>
    of_nat 2 \<le> of_int (bk_maxTokens full_bucket) + accrued full_bucket 0 + of_nat 2 * (9 * 20 * unit_roundoff)"
proof -
  have run: "consume_run (\<lambda>x. x) [0, 0] full_bucket = (full_bucket\<lparr>bk_tokens := 18\<rparr>, 2)"
    by (simp add: full_bucket_def tryConsume_def refill_def Let_def numeral_2_eq_2)
  show ?thesis
    using token_bucket_limits [OF float_ok_id full_bucket_ok _ _ run] run by (simp add: full_bucket_def)
qed


text \<open>A full bucket hands out its capacity at once and again after the interval: a window of two seconds holds forty requests
  of an endpoint whose limit is twenty.\<close>

lemma burst_doubles_the_limit:
  "snd (consume_run (\<lambda>x. x) (replicate 20 0 @ replicate 20 2000000000) full_bucket) = 40"
proof -
  have app: "consume_run fl (xs @ ys) b = (case consume_run fl xs b of (b1, k) \<Rightarrow>
      case consume_run fl ys b1 of (b2, j) \<Rightarrow> (b2, k + j))" for fl xs ys b
    by (induction xs arbitrary: b) (auto split: prod.splits)
  have one: "consume_run (\<lambda>x. x) (replicate 20 0) full_bucket = (full_bucket\<lparr>bk_tokens := 0\<rparr>, 20)"
    using consume_burst [of full_bucket 20 0] by (simp add: full_bucket_def)
  have shift: "consume_run (\<lambda>x. x) (t # ts) b = consume_run (\<lambda>x. x) (t # ts) (refill (\<lambda>x. x) t b)" for t ts b
    by (simp add: tryConsume_def refill_def Let_def)
  have two: "consume_run (\<lambda>x. x) (replicate 20 t) b = consume_run (\<lambda>x. x) (replicate 20 t) (refill (\<lambda>x. x) t b)" for t b
    using shift [of t "replicate 19 t" b] by (simp flip: replicate_Suc)
  have "consume_run (\<lambda>x. x) (replicate 20 2000000000) (full_bucket\<lparr>bk_tokens := 0\<rparr>) =
      (full_bucket\<lparr>bk_tokens := 0, bk_lastRefill := 2000000000\<rparr>, 20)"
    using two [of 2000000000 "full_bucket\<lparr>bk_tokens := 0\<rparr>"]
      consume_burst [of "full_bucket\<lparr>bk_lastRefill := 2000000000\<rparr>" 20 2000000000]
    by (simp add: full_bucket_def refill_def Let_def)
  with one show ?thesis by (simp add: app)
qed

end
