(* ===== verification/Configuration.thy ===== *)
theory Configuration
  imports GridStartup ExchangeGateway "HOL-Library.Char_ord" "HOL-Library.List_Lexorder"
begin

text \<open>
  The configuration (\<open>src/internal/config/config.go\<close>, \<open>production_config.go\<close>, \<open>endpoint_resolver.go\<close>,
  \<open>credentials.go\<close>, \<open>security.go\<close>): the system configuration, its validators, the resolution of the
  three network endpoints and the start-up checks. Each validator returns the list of its complaints in
  the code's order; a complaint is a constructor, without the rendering of the offending value. Parsing
  of YAML and \<open>url.Parse\<close> are arguments; nothing is assumed about what a URL parses to.
\<close>

section \<open>The system configuration\<close>

type_synonym ExecutionMode = string

definition ExecutionModeProduction :: ExecutionMode where
  "ExecutionModeProduction = ''production''"

definition ExecutionModeSimulated :: ExecutionMode where
  "ExecutionModeSimulated = ''simulated''"

definition ExecutionModeReplay :: ExecutionMode where
  "ExecutionModeReplay = ''replay''"

definition ExecutionModeUnit :: ExecutionMode where
  "ExecutionModeUnit = ''unit''"

record PrivateWSConfig =
  pwc_HeartbeatInterval :: duration
  pwc_LivenessTimeout :: duration
  pwc_ReconnectStartDeadline :: duration

record RebalancerSchedule =
  rbs_Interval :: duration
  rbs_MaxJitter :: duration

record ProductionGateEvidence =
  pg_CredentialRotation :: string
  pg_LeastPrivilege :: string
  pg_SingaporeIPAllowlist :: string
  pg_HumanTradingApproval :: string

record SystemConfig =
  sy_Symbols :: "string list"
  sy_GridConfigs :: "GridConfig list"
  sy_MeanReversionConfigs :: "MeanReversionConfig list"
  sy_RiskLimits :: RiskLimits
  sy_ExchangeMinOrderSize :: "(string, decimal) gomap"
  sy_WebSocketURL :: string
  sy_PrivateWebSocketURL :: string
  sy_RESTURL :: string
  sy_ReconcileIntervalSec :: int
  sy_PersistencePath :: string
  sy_MetricsPort :: int
  sy_Location :: string
  sy_TDMode :: string
  sy_PrivateWS :: PrivateWSConfig
  sy_ReconciliationInterval :: duration
  sy_Rebalancer :: RebalancerSchedule
  sy_TickerMaxAge :: duration
  sy_AdaptiveRange :: AdaptiveRangeConfig
  sy_ExecutionMode :: ExecutionMode
  sy_TradingEnabled :: bool
  sy_ProductionGates :: ProductionGateEvidence

section \<open>Validators of strategies and limits\<close>

datatype config_issue =
    UpperNotAboveLower | GridCountRange | OrderSizeTooSmall | DriftThresholdRange | DriftStepRange | CooldownTooShort
  | MaxDriftsNegative | EntryNotAboveExit | EntryRange | ExitRange | LookbackRange | LimitNotPositive string

definition issue :: "bool \<Rightarrow> 'a \<Rightarrow> 'a list" where
  "issue bad x = (if bad then [x] else [])"

lemma issue_Nil [simp]: "issue bad x = [] \<longleftrightarrow> \<not> bad"
  by (simp add: issue_def)

definition ValidateDriftConfig :: "DriftConfig \<Rightarrow> config_issue list" where
  "ValidateDriftConfig cfg =
     issue (dc_DriftThreshold cfg < 1 / 100 \<or> 1 / 2 < dc_DriftThreshold cfg) DriftThresholdRange @
     issue (dc_DriftStep cfg \<le> 0) DriftStepRange @
     issue (dc_CooldownPeriod cfg < 5 * 1000000000) CooldownTooShort @
     issue (dc_MaxDrifts cfg < 0) MaxDriftsNegative"

definition ValidateGridConfig :: "GridConfig \<Rightarrow> decimal \<Rightarrow> config_issue list" where
  "ValidateGridConfig cfg exchangeMinOrderSize =
     issue (gc_UpperPrice cfg \<le> gc_LowerPrice cfg) UpperNotAboveLower @
     issue (gc_GridCount cfg < 3 \<or> 500 < gc_GridCount cfg) GridCountRange @
     issue (gc_OrderSize cfg < exchangeMinOrderSize) OrderSizeTooSmall @
     (case gc_Drift cfg of None \<Rightarrow> [] | Some d \<Rightarrow> ValidateDriftConfig d)"

definition ValidateMeanReversionConfig :: "MeanReversionConfig \<Rightarrow> config_issue list" where
  "ValidateMeanReversionConfig cfg =
     issue (mc_EntryThreshold cfg \<le> mc_ExitThreshold cfg) EntryNotAboveExit @
     issue (mc_EntryThreshold cfg < 1 \<or> 5 < mc_EntryThreshold cfg) EntryRange @
     issue (mc_ExitThreshold cfg < 1 / 10 \<or> 2 < mc_ExitThreshold cfg) ExitRange @
     issue (mc_LookbackPeriod cfg < 10 \<or> 500 < mc_LookbackPeriod cfg) LookbackRange"

definition ValidateRiskLimits :: "RiskLimits \<Rightarrow> config_issue list" where
  "ValidateRiskLimits l =
     issue (rl_MaxPositionPerSymbol l \<le> 0) (LimitNotPositive ''maxPositionPerSymbol'') @
     issue (rl_MaxTotalPosition l \<le> 0) (LimitNotPositive ''maxTotalPosition'') @
     issue (rl_MaxDailyLoss l \<le> 0) (LimitNotPositive ''maxDailyLoss'') @
     issue (rl_MaxStrategyLoss l \<le> 0) (LimitNotPositive ''maxStrategyLoss'') @
     issue (rl_MaxOrdersPerSecond l \<le> 0) (LimitNotPositive ''maxOrdersPerSecond'') @
     issue (rl_MaxOpenOrders l \<le> 0) (LimitNotPositive ''maxOpenOrders'') @
     issue (rl_MinSpreadBps l \<le> 0) (LimitNotPositive ''minSpreadBps'') @
     issue (rl_EmergencyStopLoss l \<le> 0) (LimitNotPositive ''emergencyStopLoss'')"

section \<open>Network endpoints\<close>

text \<open>What \<open>url.Parse\<close> returns, as far as the code reads it; \<open>None\<close> is its error.\<close>

record parsed_url =
  u_Scheme :: string
  u_Host :: string
  u_Hostname :: string
  u_Port :: string
  u_Path :: string
  u_User :: bool
  u_RawQuery :: string
  u_Fragment :: string

type_synonym url_parser = "string \<Rightarrow> parsed_url option"

record ResolvedNetworkEndpoints =
  re_RESTBaseURL :: string
  re_PublicWebSocketURL :: string
  re_PrivateWebSocketURL :: string

definition DefaultRESTBaseURL :: string where
  "DefaultRESTBaseURL = ''https://www.okx.com''"

definition DefaultPublicWebSocketURL :: string where
  "DefaultPublicWebSocketURL = ''wss://ws.okx.com:8443/ws/v5/public''"

definition DefaultPrivateWebSocketURL :: string where
  "DefaultPrivateWebSocketURL = ''wss://ws.okx.com:8443/ws/v5/private''"

datatype url_issue =
    UrlEmpty | UrlMalformed | UrlMissingHost | UrlUserinfo | UrlQuery | UrlFragment | UrlScheme | UrlHost | UrlPort | UrlPath
  | RoleSwap string

datatype endpoint_error =
    NilConfiguration | RestEndpoint url_issue | PublicEndpoint url_issue | PrivateEndpoint url_issue | EndpointsEqual

definition parseProductionURL :: "url_parser \<Rightarrow> string \<Rightarrow> url_issue + parsed_url" where
  "parseProductionURL uparse raw =
     (if TrimSpace raw = [] then Inl UrlEmpty
      else case uparse raw of
        None \<Rightarrow> Inl UrlMalformed
      | Some u \<Rightarrow>
          if u_Scheme u = [] \<or> u_Host u = [] then Inl UrlMissingHost
          else if u_User u then Inl UrlUserinfo
          else if u_RawQuery u \<noteq> [] then Inl UrlQuery
          else if u_Fragment u \<noteq> [] then Inl UrlFragment
          else Inr u)"

text \<open>\<open>strings.TrimRight(path, "/")\<close>.\<close>

definition trim_slashes :: "string \<Rightarrow> string" where
  "trim_slashes p = rev (dropWhile (\<lambda>c. c = CHR ''/'') (rev p))"

definition validateProductionREST :: "url_parser \<Rightarrow> string \<Rightarrow> url_issue option" where
  "validateProductionREST uparse raw =
     (case parseProductionURL uparse raw of
        Inl e \<Rightarrow> Some e
      | Inr u \<Rightarrow>
          if u_Scheme u \<noteq> ''https'' then Some UrlScheme
          else if u_Hostname u \<noteq> ''www.okx.com'' then Some UrlHost
          else if u_Port u \<noteq> [] then Some UrlPort
          else if trim_slashes (u_Path u) \<noteq> [] then Some UrlPath
          else None)"

definition otherRoleName :: "string \<Rightarrow> string" where
  "otherRoleName role = (if role = ''public'' then ''private'' else ''public'')"

definition validateProductionWebSocket :: "url_parser \<Rightarrow> string \<Rightarrow> string \<Rightarrow> string \<Rightarrow> url_issue option" where
  "validateProductionWebSocket uparse raw role expectedPath =
     (case parseProductionURL uparse raw of
        Inl e \<Rightarrow> Some e
      | Inr u \<Rightarrow>
          if u_Scheme u \<noteq> ''wss'' then Some UrlScheme
          else if u_Hostname u \<noteq> ''ws.okx.com'' then Some UrlHost
          else if u_Port u \<noteq> ''8443'' then Some UrlPort
          else if u_Path u \<noteq> expectedPath then
            (let otherPath = (if role = ''private'' then ''/ws/v5/public'' else ''/ws/v5/private'')
             in if u_Path u = otherPath then Some (RoleSwap (otherRoleName role)) else Some UrlPath)
          else None)"

definition validateProductionEndpoints :: "url_parser \<Rightarrow> ResolvedNetworkEndpoints \<Rightarrow> endpoint_error option" where
  "validateProductionEndpoints uparse r =
     (case validateProductionREST uparse (re_RESTBaseURL r) of
        Some e \<Rightarrow> Some (RestEndpoint e)
      | None \<Rightarrow>
        (case validateProductionWebSocket uparse (re_PublicWebSocketURL r) ''public'' ''/ws/v5/public'' of
           Some e \<Rightarrow> Some (PublicEndpoint e)
         | None \<Rightarrow>
           (case validateProductionWebSocket uparse (re_PrivateWebSocketURL r) ''private'' ''/ws/v5/private'' of
              Some e \<Rightarrow> Some (PrivateEndpoint e)
            | None \<Rightarrow>
                if re_PublicWebSocketURL r = re_PrivateWebSocketURL r then Some EndpointsEqual else None)))"

definition or_default :: "string \<Rightarrow> string \<Rightarrow> string" where
  "or_default d raw = (if TrimSpace raw = [] then d else TrimSpace raw)"

definition resolved_endpoints :: "SystemConfig \<Rightarrow> ResolvedNetworkEndpoints" where
  "resolved_endpoints cfg = \<lparr>re_RESTBaseURL = or_default DefaultRESTBaseURL (sy_RESTURL cfg),
     re_PublicWebSocketURL = or_default DefaultPublicWebSocketURL (sy_WebSocketURL cfg),
     re_PrivateWebSocketURL = or_default DefaultPrivateWebSocketURL (sy_PrivateWebSocketURL cfg)\<rparr>"

definition ResolveNetworkEndpoints :: "url_parser \<Rightarrow> SystemConfig option \<Rightarrow> endpoint_error + ResolvedNetworkEndpoints" where
  "ResolveNetworkEndpoints uparse c =
     (case c of
        None \<Rightarrow> Inl NilConfiguration
      | Some cfg \<Rightarrow>
          if sy_ExecutionMode cfg = ExecutionModeProduction then
            (case validateProductionEndpoints uparse (resolved_endpoints cfg) of
               Some e \<Rightarrow> Inl e | None \<Rightarrow> Inr (resolved_endpoints cfg))
          else Inr (resolved_endpoints cfg))"

section \<open>The production profile\<close>

definition ApprovedProductionLocation :: string where
  "ApprovedProductionLocation = ''aws-ap-southeast-1-singapore''"

definition ApprovedTradingMode :: string where
  "ApprovedTradingMode = ''cash''"

definition ApprovedStatePath :: string where
  "ApprovedStatePath = ''/var/lib/okx-hft-grid/hft_state.db''"

definition PerSideHalfWidthMode :: string where
  "PerSideHalfWidthMode = ''per_side_half_width''"

definition seconds :: "int \<Rightarrow> duration" where
  "seconds n = n * 1000000000"

definition Gate_fields :: "ProductionGateEvidence \<Rightarrow> (string \<times> string) list" where
  "Gate_fields g = [(''credential_rotation'', pg_CredentialRotation g), (''least_privilege'', pg_LeastPrivilege g),
     (''singapore_ip_allowlist'', pg_SingaporeIPAllowlist g), (''human_trading_approval'', pg_HumanTradingApproval g)]"

definition Gates_Complete :: "ProductionGateEvidence \<Rightarrow> bool" where
  "Gates_Complete g \<longleftrightarrow> TrimSpace (pg_CredentialRotation g) \<noteq> [] \<and> TrimSpace (pg_LeastPrivilege g) \<noteq> [] \<and>
     TrimSpace (pg_SingaporeIPAllowlist g) \<noteq> [] \<and> TrimSpace (pg_HumanTradingApproval g) \<noteq> []"

definition MissingNames :: "ProductionGateEvidence \<Rightarrow> string list" where
  "MissingNames g = map fst (filter (\<lambda>(_, v). TrimSpace v = []) (Gate_fields g))"

lemma Complete_iff: "Gates_Complete g \<longleftrightarrow> MissingNames g = []"
  by (auto simp: Gates_Complete_def MissingNames_def Gate_fields_def)

fun approved_loop :: "string list \<Rightarrow> string list \<Rightarrow> bool" where
  "approved_loop seen [] = True"
| "approved_loop seen (s # ss) =
     (if s \<notin> {''BTC-USDT'', ''DOGE-USDT'', ''WIF-USDT''} then False
      else if s \<in> set seen then False
      else approved_loop (s # seen) ss)"

definition hasExactApprovedSymbols :: "string list \<Rightarrow> bool" where
  "hasExactApprovedSymbols symbols = (if symbols = [] \<or> 3 < length symbols then False else approved_loop [] symbols)"

text \<open>\<open>path.Clean\<close>: the elements of the path, without empty ones and dots, each \<open>..\<close> removing the one before it.\<close>

fun split_slash :: "string \<Rightarrow> string list" where
  "split_slash [] = [[]]"
| "split_slash (c # cs) =
     (if c = CHR ''/'' then [] # split_slash cs
      else (case split_slash cs of [] \<Rightarrow> [[c]] | w # ws \<Rightarrow> (c # w) # ws))"

definition clean_step :: "bool \<Rightarrow> string list \<Rightarrow> string \<Rightarrow> string list" where
  "clean_step rooted out w =
     (if w = [] \<or> w = ''.'' then out
      else if w = ''..'' then
        (case out of
           [] \<Rightarrow> if rooted then [] else [''..'']
         | x # xs \<Rightarrow> if x = ''..'' then ''..'' # out else xs)
      else w # out)"

definition join_slash :: "string list \<Rightarrow> string" where
  "join_slash ws = (case ws of [] \<Rightarrow> [] | w # rest \<Rightarrow> w @ concat (map (\<lambda>v. ''/'' @ v) rest))"

definition path_Clean :: "string \<Rightarrow> string" where
  "path_Clean p =
     (if p = [] then ''.''
      else
        let rooted = (hd p = CHR ''/'');
            body = join_slash (rev (foldl (clean_step rooted) [] (split_slash p)))
        in if rooted then ''/'' @ body else if body = [] then ''.'' else body)"

datatype profile_issue =
    ConfigRequired | WrongMode | WrongLocation | WrongTDMode | WrongDuration string | JitterRange | LegacyInterval
  | MinHalfWidthWrong | MaxHalfWidthWrong | NotSymmetric | WidthModeWrong | StatePathWrong | SymbolsWrong | GridSymbolWrong
  | MeanReversionPresent | GatesMissing "string list" | EndpointIssue endpoint_error

definition ValidateProductionConfig :: "url_parser \<Rightarrow> SystemConfig option \<Rightarrow> profile_issue list" where
  "ValidateProductionConfig uparse c =
     (case c of
        None \<Rightarrow> [ConfigRequired]
      | Some cfg \<Rightarrow>
          let ar = sy_AdaptiveRange cfg; clean = path_Clean (sy_PersistencePath cfg) in
          issue (sy_ExecutionMode cfg \<noteq> ExecutionModeProduction) WrongMode @
          issue (sy_Location cfg \<noteq> ApprovedProductionLocation) WrongLocation @
          issue (sy_TDMode cfg \<noteq> ApprovedTradingMode) WrongTDMode @
          issue (pwc_HeartbeatInterval (sy_PrivateWS cfg) \<noteq> seconds 20) (WrongDuration ''private_ws.heartbeat_interval'') @
          issue (pwc_LivenessTimeout (sy_PrivateWS cfg) \<noteq> seconds 45) (WrongDuration ''private_ws.liveness_timeout'') @
          issue (pwc_ReconnectStartDeadline (sy_PrivateWS cfg) \<noteq> seconds 5)
            (WrongDuration ''private_ws.reconnect_start_deadline'') @
          issue (sy_ReconciliationInterval cfg \<noteq> seconds 30) (WrongDuration ''reconciliation.interval'') @
          issue (rbs_Interval (sy_Rebalancer cfg) \<noteq> seconds 30) (WrongDuration ''rebalancer.interval'') @
          issue (rbs_MaxJitter (sy_Rebalancer cfg) < 0 \<or> seconds 5 < rbs_MaxJitter (sy_Rebalancer cfg)) JitterRange @
          issue (sy_TickerMaxAge cfg \<noteq> seconds 5) (WrongDuration ''ticker.max_age'') @
          issue (sy_ReconcileIntervalSec cfg \<noteq> 0 \<and> sy_ReconcileIntervalSec cfg \<noteq> 30) LegacyInterval @
          issue (ar_MinHalfWidth ar \<noteq> 1 / 200) MinHalfWidthWrong @
          issue (ar_MaxHalfWidth ar \<noteq> 1 / 25) MaxHalfWidthWrong @
          issue (\<not> ar_Symmetric ar) NotSymmetric @
          issue (ar_WidthMode ar \<noteq> [] \<and> ar_WidthMode ar \<noteq> PerSideHalfWidthMode) WidthModeWrong @
          issue (take 1 clean \<noteq> ''/'' \<or> clean \<noteq> ApprovedStatePath \<or> sy_PersistencePath cfg \<noteq> clean) StatePathWrong @
          issue (\<not> hasExactApprovedSymbols (sy_Symbols cfg)) SymbolsWrong @
          issue (list_ex (\<lambda>g. gc_Symbol g \<noteq> ''BTC-USDT'' \<and> gc_Symbol g \<noteq> ''DOGE-USDT'' \<and> gc_Symbol g \<noteq> ''WIF-USDT'')
            (sy_GridConfigs cfg)) GridSymbolWrong @
          issue (sy_MeanReversionConfigs cfg \<noteq> []) MeanReversionPresent @
          issue (sy_TradingEnabled cfg \<and> \<not> Gates_Complete (sy_ProductionGates cfg))
            (GatesMissing (MissingNames (sy_ProductionGates cfg))) @
          (case ResolveNetworkEndpoints uparse (Some cfg) of Inl e \<Rightarrow> [EndpointIssue e] | Inr _ \<Rightarrow> []))"

section \<open>Loading\<close>

text \<open>What follows the first YAML document: the end of the file, another document, or garbage.\<close>

datatype trailing = TrailingEOF | TrailingDocument | TrailingError

datatype load_error =
    ReadFailed | ParseFailed | MultipleDocuments | InvalidProduction "profile_issue list" | NotProduction

text \<open>\<open>content\<close> is the file, \<open>decode\<close> the strict decoder of the library.\<close>

definition LoadConfig ::
  "url_parser \<Rightarrow> (string \<Rightarrow> (SystemConfig \<times> trailing) option) \<Rightarrow> string option \<Rightarrow> load_error + SystemConfig" where
  "LoadConfig uparse decode content =
     (case content of
        None \<Rightarrow> Inl ReadFailed
      | Some data \<Rightarrow>
          (case decode data of
             None \<Rightarrow> Inl ParseFailed
           | Some (cfg, rest) \<Rightarrow>
               (case rest of
                  TrailingDocument \<Rightarrow> Inl MultipleDocuments
                | TrailingError \<Rightarrow> Inl ParseFailed
                | TrailingEOF \<Rightarrow>
                    let issues = (if sy_ExecutionMode cfg = ExecutionModeProduction
                          then ValidateProductionConfig uparse (Some cfg) else [])
                    in if issues \<noteq> [] then Inl (InvalidProduction issues) else Inr cfg)))"

definition LoadProductionConfig ::
  "url_parser \<Rightarrow> (string \<Rightarrow> (SystemConfig \<times> trailing) option) \<Rightarrow> string option \<Rightarrow> load_error + SystemConfig" where
  "LoadProductionConfig uparse decode content =
     (case LoadConfig uparse decode content of
        Inl e \<Rightarrow> Inl e
      | Inr cfg \<Rightarrow>
          if sy_ExecutionMode cfg \<noteq> ExecutionModeProduction then Inl NotProduction
          else if ValidateProductionConfig uparse (Some cfg) \<noteq> []
          then Inl (InvalidProduction (ValidateProductionConfig uparse (Some cfg)))
          else Inr cfg)"

record Credentials =
  cr_APIKey :: string
  cr_SecretKey :: string
  cr_Passphrase :: string

definition LoadCredentials :: "(string \<Rightarrow> string) \<Rightarrow> string list + Credentials" where
  "LoadCredentials env =
     (let errs = filter (\<lambda>name. env name = []) [''OKX_API_KEY'', ''OKX_SECRET_KEY'', ''OKX_PASSPHRASE'']
      in if errs \<noteq> [] then Inl errs
         else Inr \<lparr>cr_APIKey = env ''OKX_API_KEY'', cr_SecretKey = env ''OKX_SECRET_KEY'',
             cr_Passphrase = env ''OKX_PASSPHRASE''\<rparr>)"

text \<open>The result of \<open>os.Stat\<close>: the permission bits, a missing file, or another error.\<close>

datatype stat_result = StatMode "32 word" | StatMissing | StatFailed

datatype security_issue = RunningAsRoot | StatError | PermissiveMode "32 word"

unbundle bit_operations_syntax

definition CheckSecurityConstraints :: "bool \<Rightarrow> int \<Rightarrow> string \<Rightarrow> stat_result \<Rightarrow> security_issue option" where
  "CheckSecurityConstraints windows uid path st =
     (if \<not> windows \<and> uid = 0 then Some RunningAsRoot
      else if path = [] then None
      else case st of
        StatMissing \<Rightarrow> None
      | StatFailed \<Rightarrow> Some StatError
      | StatMode mode \<Rightarrow> if \<not> windows \<and> mode AND 127 \<noteq> 0 then Some (PermissiveMode mode) else None)"

section \<open>The summary for the log\<close>

definition sanitizedOrigin :: "url_parser \<Rightarrow> string \<Rightarrow> string" where
  "sanitizedOrigin uparse raw =
     (if TrimSpace raw = [] then []
      else case uparse raw of
        None \<Rightarrow> ''invalid''
      | Some u \<Rightarrow>
          if u_Scheme u = [] \<or> u_Hostname u = [] then ''invalid''
          else
            let host = ToLower (if take 1 (rev (u_Hostname u)) = ''.'' then butlast (u_Hostname u) else u_Hostname u);
                bracketed = (if CHR '':'' \<in> set host then ''['' @ host @ '']'' else host)
            in ToLower (u_Scheme u) @ ''://'' @
               (if u_Port u \<noteq> [] then bracketed @ '':'' @ u_Port u else bracketed))"

text \<open>The fields before their rendering as strings.\<close>

record effectiveConfigSummary =
  es_Location :: string
  es_ExecutionMode :: string
  es_TradingEnabled :: bool
  es_ProductionGatesReady :: bool
  es_TDMode :: string
  es_PrivateWS :: PrivateWSConfig
  es_ReconciliationInterval :: duration
  es_Rebalancer :: RebalancerSchedule
  es_TickerMaxAge :: duration
  es_MinHalfWidth :: decimal
  es_MaxHalfWidth :: decimal
  es_Symmetric :: bool
  es_PersistencePath :: string
  es_Symbols :: "string list"
  es_RESTOrigin :: string
  es_PublicWebSocketOrigin :: string
  es_PrivateWebSocketOrigin :: string
  es_MeanReversionEnabled :: bool

definition EffectiveConfigSanitized :: "url_parser \<Rightarrow> SystemConfig option \<Rightarrow> profile_issue list + effectiveConfigSummary" where
  "EffectiveConfigSanitized uparse c =
     (case c of
        None \<Rightarrow> Inl [ConfigRequired]
      | Some cfg \<Rightarrow>
          let issues = (if sy_ExecutionMode cfg = ExecutionModeProduction then ValidateProductionConfig uparse c else []) in
          if issues \<noteq> [] then Inl issues
          else Inr \<lparr>es_Location = sy_Location cfg, es_ExecutionMode = sy_ExecutionMode cfg,
             es_TradingEnabled = sy_TradingEnabled cfg,
             es_ProductionGatesReady = Gates_Complete (sy_ProductionGates cfg), es_TDMode = sy_TDMode cfg,
             es_PrivateWS = sy_PrivateWS cfg, es_ReconciliationInterval = sy_ReconciliationInterval cfg,
             es_Rebalancer = sy_Rebalancer cfg, es_TickerMaxAge = sy_TickerMaxAge cfg,
             es_MinHalfWidth = ar_MinHalfWidth (sy_AdaptiveRange cfg), es_MaxHalfWidth = ar_MaxHalfWidth (sy_AdaptiveRange cfg),
             es_Symmetric = ar_Symmetric (sy_AdaptiveRange cfg), es_PersistencePath = sy_PersistencePath cfg,
             es_Symbols = sort (sy_Symbols cfg), es_RESTOrigin = sanitizedOrigin uparse (sy_RESTURL cfg),
             es_PublicWebSocketOrigin = sanitizedOrigin uparse (sy_WebSocketURL cfg),
             es_PrivateWebSocketOrigin = sanitizedOrigin uparse (sy_PrivateWebSocketURL cfg),
             es_MeanReversionEnabled = (sy_MeanReversionConfigs cfg \<noteq> [])\<rparr>)"

section \<open>Properties\<close>

lemma approved_loop_iff:
  "approved_loop seen ss \<longleftrightarrow> set ss \<subseteq> {''BTC-USDT'', ''DOGE-USDT'', ''WIF-USDT''} \<and> distinct ss \<and> set ss \<inter> set seen = {}"
  by (induction ss arbitrary: seen) auto

lemma hasExactApprovedSymbols_iff:
  "hasExactApprovedSymbols ss \<longleftrightarrow> ss \<noteq> [] \<and> distinct ss \<and> set ss \<subseteq> {''BTC-USDT'', ''DOGE-USDT'', ''WIF-USDT''}"
proof -
  have "length ss \<le> 3" if "distinct ss" and "set ss \<subseteq> {''BTC-USDT'', ''DOGE-USDT'', ''WIF-USDT''}"
  proof -
    have "card (set ss) \<le> card {''BTC-USDT'', ''DOGE-USDT'', ''WIF-USDT''}"
      using that(2) by (intro card_mono) auto
    then show ?thesis using distinct_card [OF that(1)] by simp
  qed
  then show ?thesis by (auto simp: hasExactApprovedSymbols_def approved_loop_iff)
qed

lemma approved_path_clean: "path_Clean ApprovedStatePath = ApprovedStatePath"
  by code_simp

lemma state_path_iff:
  "\<not> (take 1 (path_Clean p) \<noteq> ''/'' \<or> path_Clean p \<noteq> ApprovedStatePath \<or> p \<noteq> path_Clean p) \<longleftrightarrow> p = ApprovedStatePath"
  using approved_path_clean by (auto simp: ApprovedStatePath_def)

definition approved_symbols :: "string set" where
  "approved_symbols = {''BTC-USDT'', ''DOGE-USDT'', ''WIF-USDT''}"

lemma accepted_profile_facts:
  assumes "ValidateProductionConfig uparse (Some cfg) = []"
  shows "sy_ExecutionMode cfg = ExecutionModeProduction" and "validateProductionEndpoints uparse (resolved_endpoints cfg) = None"
    and "sy_MeanReversionConfigs cfg = []" and "sy_TDMode cfg = ApprovedTradingMode" and "sy_PersistencePath cfg = ApprovedStatePath"
    and "hasExactApprovedSymbols (sy_Symbols cfg)" and "sy_TradingEnabled cfg \<Longrightarrow> Gates_Complete (sy_ProductionGates cfg)"
  using assms state_path_iff [of "sy_PersistencePath cfg"]
  by (auto simp: ValidateProductionConfig_def Let_def ResolveNetworkEndpoints_def split: option.splits if_splits sum.splits)


text \<open>A parser that knows the exchange's three addresses, and an approved profile.\<close>

definition okx_url :: url_parser where
  "okx_url s =
     (let u = \<lparr>u_Scheme = ''wss'', u_Host = ''ws.okx.com:8443'', u_Hostname = ''ws.okx.com'', u_Port = ''8443'',
            u_Path = ''/ws/v5/public'', u_User = False, u_RawQuery = [], u_Fragment = []\<rparr>
      in if s = DefaultRESTBaseURL
         then Some (u\<lparr>u_Scheme := ''https'', u_Host := ''www.okx.com'', u_Hostname := ''www.okx.com'', u_Port := [], u_Path := []\<rparr>)
         else if s = DefaultPublicWebSocketURL then Some u
         else if s = DefaultPrivateWebSocketURL then Some (u\<lparr>u_Path := ''/ws/v5/private''\<rparr>)
         else None)"

definition sample_gates :: ProductionGateEvidence where
  "sample_gates = \<lparr>pg_CredentialRotation = ''r1'', pg_LeastPrivilege = ''p1'', pg_SingaporeIPAllowlist = ''a1'',
     pg_HumanTradingApproval = ''h1''\<rparr>"

definition sample_limits :: RiskLimits where
  "sample_limits = \<lparr>rl_MaxPositionPerSymbol = 100, rl_MaxTotalPosition = 300, rl_MaxDailyLoss = 10, rl_MaxStrategyLoss = 5,
     rl_MaxOrdersPerSecond = 5, rl_MaxOpenOrders = 50, rl_MinSpreadBps = 1, rl_EmergencyStopLoss = 20\<rparr>"

definition sample_profile :: SystemConfig where
  "sample_profile = \<lparr>sy_Symbols = [''DOGE-USDT'', ''BTC-USDT''], sy_GridConfigs = [btc_grid], sy_MeanReversionConfigs = [],
     sy_RiskLimits = sample_limits, sy_ExchangeMinOrderSize = [], sy_WebSocketURL = [], sy_PrivateWebSocketURL = [],
     sy_RESTURL = [], sy_ReconcileIntervalSec = 30, sy_PersistencePath = ApprovedStatePath, sy_MetricsPort = 9090,
     sy_Location = ApprovedProductionLocation, sy_TDMode = ''cash'',
     sy_PrivateWS = \<lparr>pwc_HeartbeatInterval = seconds 20, pwc_LivenessTimeout = seconds 45,
       pwc_ReconnectStartDeadline = seconds 5\<rparr>,
     sy_ReconciliationInterval = seconds 30, sy_Rebalancer = \<lparr>rbs_Interval = seconds 30, rbs_MaxJitter = seconds 1\<rparr>,
     sy_TickerMaxAge = seconds 5,
     sy_AdaptiveRange = \<lparr>ar_MinHalfWidth = 1 / 200, ar_MaxHalfWidth = 1 / 25, ar_Symmetric = True, ar_WidthMode = []\<rparr>,
     sy_ExecutionMode = ExecutionModeProduction, sy_TradingEnabled = True, sy_ProductionGates = sample_gates\<rparr>"

lemma sample_endpoints_ok: "validateProductionEndpoints okx_url (resolved_endpoints sample_profile) = None"
  by code_simp

lemma sample_gates_ok: "MissingNames sample_gates = []"
  by code_simp


text \<open>The configuration summary in the log does not depend on the evidence of the production gates: whatever text
  stands in a gate's field, as long as the same fields are blank, the summary, and the complaints when the profile is
  rejected, are the same.
\<close>

theorem summary_hides_evidence:
  assumes "MissingNames gates = MissingNames (sy_ProductionGates cfg)"
  shows "EffectiveConfigSanitized uparse (Some (cfg\<lparr>sy_ProductionGates := gates\<rparr>)) = EffectiveConfigSanitized uparse (Some cfg)"
proof -
  have complete: "Gates_Complete gates = Gates_Complete (sy_ProductionGates cfg)"
    using assms by (simp add: Complete_iff)
  have "resolved_endpoints (cfg\<lparr>sy_ProductionGates := gates\<rparr>) = resolved_endpoints cfg"
    by (simp add: resolved_endpoints_def)
  then have "ResolveNetworkEndpoints uparse (Some (cfg\<lparr>sy_ProductionGates := gates\<rparr>)) = ResolveNetworkEndpoints uparse (Some cfg)"
    by (simp add: ResolveNetworkEndpoints_def split: option.splits)
  then have "ValidateProductionConfig uparse (Some (cfg\<lparr>sy_ProductionGates := gates\<rparr>)) = ValidateProductionConfig uparse (Some cfg)"
    using assms by (simp add: ValidateProductionConfig_def complete)
  then show ?thesis by (simp add: EffectiveConfigSanitized_def complete Let_def)
qed

theorem summary_hides_evidence_witness:
  "EffectiveConfigSanitized okx_url (Some (sample_profile\<lparr>sy_ProductionGates := sample_gates\<lparr>pg_LeastPrivilege := ''secret''\<rparr>\<rparr>)) =
   EffectiveConfigSanitized okx_url (Some sample_profile)"
proof (rule summary_hides_evidence)
  show "MissingNames (sample_gates\<lparr>pg_LeastPrivilege := ''secret''\<rparr>) = MissingNames (sy_ProductionGates sample_profile)"
    by code_simp
qed

text \<open>
  The validator of grid configurations, which nothing in the program calls, rejects the single-grid configuration that
  the market-making mode needs.
\<close>

lemma grid_validator_rejects_market_making: "gc_GridCount cfg = 1 \<Longrightarrow> GridCountRange \<in> set (ValidateGridConfig cfg m)"
  by (simp add: ValidateGridConfig_def issue_def)

end
