(* ===== verification/NetworkGuard.thy ===== *)
theory NetworkGuard
  imports Configuration
begin

text \<open>
  The network policies (\<open>src/internal/config/network_guard.go\<close>): the deny-by-default guard of automated
  runs and the guard of production, and the clients that must not reach a host that their guard does not
  permit. \<open>url.Parse\<close>, \<open>netip.ParseAddr\<close> and \<open>net.SplitHostPort\<close> are arguments about which nothing is
  assumed.
\<close>

section \<open>Addresses and hosts\<close>

text \<open>What the code asks of a parsed address: loopback, the IPv4 or the IPv6 metadata service.\<close>

record ip_address =
  ip_loopback :: bool
  ip_metadata4 :: bool
  ip_metadata6 :: bool

record netlib =
  nl_parse :: url_parser
  nl_addr :: "string \<Rightarrow> ip_address option"
  nl_split :: "string \<Rightarrow> (string \<times> string) option"

definition HasSuffix :: "string \<Rightarrow> string \<Rightarrow> bool" where
  "HasSuffix s suf \<longleftrightarrow> length suf \<le> length s \<and> drop (length s - length suf) s = suf"

definition TrimPrefix :: "string \<Rightarrow> string \<Rightarrow> string" where
  "TrimPrefix s pre = (if take (length pre) s = pre then drop (length pre) s else s)"

definition TrimSuffix :: "string \<Rightarrow> string \<Rightarrow> string" where
  "TrimSuffix s suf = (if HasSuffix s suf then take (length s - length suf) s else s)"

definition canonicalHost :: "string \<Rightarrow> string" where
  "canonicalHost host = TrimSuffix (TrimSuffix (TrimPrefix (TrimSpace (ToLower host)) ''['') '']'') ''.''"

datatype guard_error =
    GuardRequired | ProductionForbidden | UnknownMode | TradingForbidden | CredentialPopulated string
  | DemoMode | DemoMarker | DemoCredentialClass | DemoAllowlist | DemoFingerprint
  | InvalidEndpoint | UserinfoForbidden | SchemeRejected | EmptyHost | MetadataTarget | AwsHost | OkxHost | NonLoopback
  | LoopbackOnly | TlsRequired | UnapprovedHost | RequestRequired | DialerRequired

definition parseEndpoint :: "netlib \<Rightarrow> string \<Rightarrow> guard_error + string \<times> string" where
  "parseEndpoint N raw =
     (case nl_parse N (TrimSpace raw) of
        None \<Rightarrow> Inl InvalidEndpoint
      | Some u \<Rightarrow>
          if u_Scheme u = [] \<or> u_Host u = [] \<or> u_Hostname u = [] then Inl InvalidEndpoint
          else if u_User u then Inl UserinfoForbidden
          else Inr (ToLower (u_Scheme u), canonicalHost (u_Hostname u)))"

definition isLoopbackHost :: "netlib \<Rightarrow> string \<Rightarrow> bool" where
  "isLoopbackHost N host \<longleftrightarrow> host = ''localhost'' \<or> HasSuffix host ''.localhost'' \<or>
     (case nl_addr N host of None \<Rightarrow> False | Some a \<Rightarrow> ip_loopback a)"

definition isMetadataHost :: "netlib \<Rightarrow> string \<Rightarrow> bool" where
  "isMetadataHost N host \<longleftrightarrow> host = ''169.254.169.254'' \<or> host = ''instance-data.ec2.internal'' \<or>
     (case nl_addr N host of None \<Rightarrow> False | Some a \<Rightarrow> ip_metadata4 a \<or> ip_metadata6 a)"

definition isAmazonAWSHost :: "string \<Rightarrow> bool" where
  "isAmazonAWSHost host \<longleftrightarrow> host = ''amazonaws.com'' \<or> HasSuffix host ''.amazonaws.com''"

definition isProductionOKXHost :: "string \<Rightarrow> bool" where
  "isProductionOKXHost host \<longleftrightarrow> host = ''okx.com'' \<or> HasSuffix host ''.okx.com''"

text \<open>\<open>strings.Contains(s, "://")\<close>.\<close>

definition has_scheme :: "string \<Rightarrow> bool" where
  "has_scheme s = Contains s ''://''"

definition allowlistHost :: "netlib \<Rightarrow> string \<Rightarrow> string" where
  "allowlistHost N raw =
     (let e = TrimSpace raw in
      if e = [] then []
      else if has_scheme e then (case parseEndpoint N e of Inl _ \<Rightarrow> [] | Inr (_, host) \<Rightarrow> host)
      else (case nl_parse N (''//'' @ e) of
          None \<Rightarrow> canonicalHost e
        | Some u \<Rightarrow> if u_Hostname u \<noteq> [] then canonicalHost (u_Hostname u) else canonicalHost e))"

section \<open>Automated runs\<close>

record DemoValidationPolicy =
  dp_Enabled :: bool
  dp_SimulatedTrading :: bool
  dp_SimulatedTradingHeader :: string
  dp_CredentialClass :: string
  dp_EndpointAllowlist :: "string list"
  dp_AccountFingerprint :: string
  dp_ApprovedAccountFingerprints :: "string list"

record AutomatedValidationOptions =
  ao_ExecutionMode :: ExecutionMode
  ao_TradingEnabled :: bool
  ao_Environment :: "(string \<Rightarrow> string option) option"
  ao_LookupEnv :: "(string \<Rightarrow> string option) option"
  ao_Demo :: "DemoValidationPolicy option"

definition NewAutomatedValidationGuard :: "AutomatedValidationOptions \<Rightarrow> AutomatedValidationOptions" where
  "NewAutomatedValidationGuard o1 = (if ao_ExecutionMode o1 = [] then o1\<lparr>ao_ExecutionMode := ExecutionModeUnit\<rparr> else o1)"

definition DefaultAutomatedValidationGuard :: AutomatedValidationOptions where
  "DefaultAutomatedValidationGuard = NewAutomatedValidationGuard \<lparr>ao_ExecutionMode = ExecutionModeUnit,
     ao_TradingEnabled = False, ao_Environment = None, ao_LookupEnv = None, ao_Demo = None\<rparr>"

text \<open>\<open>osenv\<close> is the environment of the process.\<close>

definition lookupEnv :: "(string \<Rightarrow> string option) \<Rightarrow> AutomatedValidationOptions \<Rightarrow> string \<Rightarrow> string option" where
  "lookupEnv osenv g name =
     (case ao_LookupEnv g of
        Some f \<Rightarrow> f name
      | None \<Rightarrow> (case ao_Environment g of Some m \<Rightarrow> m name | None \<Rightarrow> osenv name))"

definition validateDemoPolicy :: "ExecutionMode \<Rightarrow> DemoValidationPolicy \<Rightarrow> guard_error option" where
  "validateDemoPolicy mode demo =
     (if mode \<noteq> ExecutionModeSimulated then Some DemoMode
      else if \<not> dp_SimulatedTrading demo \<or> dp_SimulatedTradingHeader demo \<noteq> ''1'' then Some DemoMarker
      else if dp_CredentialClass demo \<noteq> ''non-production'' then Some DemoCredentialClass
      else if dp_EndpointAllowlist demo = [] then Some DemoAllowlist
      else if TrimSpace (dp_AccountFingerprint demo) = [] \<or>
          dp_AccountFingerprint demo \<notin> set (dp_ApprovedAccountFingerprints demo) then Some DemoFingerprint
      else None)"

definition credential_names :: "string list" where
  "credential_names = [''OKX_API_KEY'', ''OKX_SECRET_KEY'', ''OKX_PASSPHRASE'']"

definition populated :: "(string \<Rightarrow> string option) \<Rightarrow> AutomatedValidationOptions \<Rightarrow> string \<Rightarrow> bool" where
  "populated osenv g name = (case lookupEnv osenv g name of None \<Rightarrow> False | Some v \<Rightarrow> TrimSpace v \<noteq> [])"

text \<open>The argument \<open>None\<close> is a nil guard.\<close>

definition Guard_Validate :: "(string \<Rightarrow> string option) \<Rightarrow> AutomatedValidationOptions option \<Rightarrow> guard_error option" where
  "Guard_Validate osenv guard =
     (case guard of
        None \<Rightarrow> Some GuardRequired
      | Some g \<Rightarrow>
          let mode = (if ao_ExecutionMode g = [] then ExecutionModeUnit else ao_ExecutionMode g) in
          if mode = ExecutionModeProduction then Some ProductionForbidden
          else if mode \<notin> {ExecutionModeUnit, ExecutionModeReplay, ExecutionModeSimulated} then Some UnknownMode
          else if ao_TradingEnabled g then Some TradingForbidden
          else (case find (populated osenv g) credential_names of
              Some name \<Rightarrow> Some (CredentialPopulated name)
            | None \<Rightarrow>
                (case ao_Demo g of
                   None \<Rightarrow> None
                 | Some demo \<Rightarrow> if dp_Enabled demo then validateDemoPolicy mode demo else None)))"

definition demoAllowsHost :: "netlib \<Rightarrow> AutomatedValidationOptions \<Rightarrow> string \<Rightarrow> bool" where
  "demoAllowsHost N g host =
     (case ao_Demo g of
        None \<Rightarrow> False
      | Some demo \<Rightarrow>
          if \<not> dp_Enabled demo \<or> validateDemoPolicy (ao_ExecutionMode g) demo \<noteq> None then False
          else list_ex (\<lambda>allowed. allowlistHost N allowed = host) (dp_EndpointAllowlist demo))"

definition validateHost :: "netlib \<Rightarrow> AutomatedValidationOptions \<Rightarrow> string \<Rightarrow> guard_error option" where
  "validateHost N g raw =
     (let host = canonicalHost raw in
      if host = [] then Some EmptyHost
      else if isMetadataHost N host then Some MetadataTarget
      else if isAmazonAWSHost host then Some AwsHost
      else if isLoopbackHost N host then None
      else if demoAllowsHost N g host then None
      else if isProductionOKXHost host then Some OkxHost
      else (case nl_addr N host of
          None \<Rightarrow> Some LoopbackOnly
        | Some a \<Rightarrow> if \<not> ip_loopback a then Some NonLoopback else Some LoopbackOnly))"

definition Automated_ValidateEndpoint ::
  "netlib \<Rightarrow> (string \<Rightarrow> string option) \<Rightarrow> AutomatedValidationOptions option \<Rightarrow> string \<Rightarrow> guard_error option" where
  "Automated_ValidateEndpoint N osenv guard raw =
     (case Guard_Validate osenv guard of
        Some e \<Rightarrow> Some e
      | None \<Rightarrow>
          (case parseEndpoint N raw of
             Inl e \<Rightarrow> Some e
           | Inr (scheme, host) \<Rightarrow>
               if scheme \<notin> {''http'', ''https'', ''ws'', ''wss''} then Some SchemeRejected
               else validateHost N (the guard) host))"

definition dial_host :: "netlib \<Rightarrow> string \<Rightarrow> string" where
  "dial_host N address = canonicalHost (case nl_split N address of None \<Rightarrow> address | Some (host, _) \<Rightarrow> host)"

definition Automated_ValidateDialAddress ::
  "netlib \<Rightarrow> (string \<Rightarrow> string option) \<Rightarrow> AutomatedValidationOptions option \<Rightarrow> string \<Rightarrow> guard_error option" where
  "Automated_ValidateDialAddress N osenv guard address =
     (case Guard_Validate osenv guard of
        Some e \<Rightarrow> Some e
      | None \<Rightarrow> if dial_host N address = [] then Some EmptyHost else validateHost N (the guard) (dial_host N address))"

section \<open>Production\<close>

definition NewProductionNetworkGuard :: "url_parser \<Rightarrow> SystemConfig option \<Rightarrow> profile_issue list" where
  "NewProductionNetworkGuard uparse c = ValidateProductionConfig uparse c"

definition Production_ValidateEndpoint :: "netlib \<Rightarrow> string \<Rightarrow> guard_error option" where
  "Production_ValidateEndpoint N raw =
     (case parseEndpoint N raw of
        Inl e \<Rightarrow> Some e
      | Inr (scheme, host) \<Rightarrow>
          if scheme \<noteq> ''https'' \<and> scheme \<noteq> ''wss'' then Some TlsRequired
          else if host \<noteq> ''www.okx.com'' \<and> host \<noteq> ''ws.okx.com'' then Some UnapprovedHost
          else None)"

definition Production_ValidateDialAddress :: "netlib \<Rightarrow> string \<Rightarrow> guard_error option" where
  "Production_ValidateDialAddress N address =
     (if dial_host N address \<noteq> ''www.okx.com'' \<and> dial_host N address \<noteq> ''ws.okx.com'' then Some UnapprovedHost else None)"

section \<open>Clients of a guard\<close>

text \<open>The wrappers pass a request or an address on, or stop it.\<close>

definition GuardDialContext ::
  "(string \<Rightarrow> guard_error option) \<Rightarrow> (string \<Rightarrow> 'c) option \<Rightarrow> string \<Rightarrow> guard_error + 'c" where
  "GuardDialContext validateDial dialer address =
     (case validateDial address of
        Some e \<Rightarrow> Inl e
      | None \<Rightarrow> (case dialer of None \<Rightarrow> Inl DialerRequired | Some f \<Rightarrow> Inr (f address)))"

definition GuardRoundTrip ::
  "(string \<Rightarrow> guard_error option) option \<Rightarrow> (string \<Rightarrow> 'r) \<Rightarrow> string option \<Rightarrow> guard_error + 'r" where
  "GuardRoundTrip guard transport request =
     (case guard of
        None \<Rightarrow> Inl GuardRequired
      | Some validateEndpoint \<Rightarrow>
          (case request of
             None \<Rightarrow> Inl RequestRequired
           | Some url \<Rightarrow> (case validateEndpoint url of Some e \<Rightarrow> Inl e | None \<Rightarrow> Inr (transport url))))"

text \<open>
  The HTTP client of the API client: the target is validated before the request is made, every
  redirect before it is followed, every address before it is dialled. The result is what goes out.
\<close>

fun followed :: "(string \<Rightarrow> guard_error option) \<Rightarrow> string list \<Rightarrow> string list" where
  "followed validateEndpoint [] = []"
| "followed validateEndpoint (url # urls) =
     (if validateEndpoint url \<noteq> None then [] else url # followed validateEndpoint urls)"

definition dialled :: "(string \<Rightarrow> guard_error option) \<Rightarrow> string list \<Rightarrow> string list" where
  "dialled validateDial addresses = filter (\<lambda>a. validateDial a = None) addresses"

section \<open>The contract of a guard\<close>

text \<open>A guard admits a target, or an address to dial, only if it permits its host.\<close>

locale endpoint_guard =
  fixes validate_endpoint validate_dial :: "string \<Rightarrow> guard_error option"
    and target_host :: "string \<Rightarrow> string option"
    and dial_target :: "string \<Rightarrow> string"
    and permitted :: "string \<Rightarrow> bool"
  assumes endpoint: "validate_endpoint url = None \<Longrightarrow> \<exists>h. target_host url = Some h \<and> permitted h"
    and dial: "validate_dial address = None \<Longrightarrow> permitted (dial_target address)"
begin

lemma requested: "url \<in> set (followed validate_endpoint urls) \<Longrightarrow> \<exists>h. target_host url = Some h \<and> permitted h"
  by (induction urls) (auto split: if_splits dest: endpoint)

lemma connected: "address \<in> set (dialled validate_dial addresses) \<Longrightarrow> permitted (dial_target address)"
  by (auto simp: dialled_def dest: dial)

lemma wrapped_dial: "GuardDialContext validate_dial dialer address = Inr c \<Longrightarrow> permitted (dial_target address)"
  by (auto simp: GuardDialContext_def split: option.splits dest: dial)

lemma wrapped_request:
  "GuardRoundTrip (Some validate_endpoint) transport (Some url) = Inr r \<Longrightarrow> \<exists>h. target_host url = Some h \<and> permitted h"
  by (auto simp: GuardRoundTrip_def split: option.splits dest: endpoint)

end

text \<open>What the guard of automated runs permits: loopback, or the hosts of a proven demo exception.\<close>

definition demo_proven :: "AutomatedValidationOptions \<Rightarrow> DemoValidationPolicy \<Rightarrow> bool" where
  "demo_proven g demo \<longleftrightarrow> ao_Demo g = Some demo \<and> dp_Enabled demo \<and> ao_ExecutionMode g = ExecutionModeSimulated \<and>
     dp_SimulatedTrading demo \<and> dp_SimulatedTradingHeader demo = ''1'' \<and> dp_CredentialClass demo = ''non-production'' \<and>
     dp_AccountFingerprint demo \<in> set (dp_ApprovedAccountFingerprints demo)"

definition automated_permits :: "netlib \<Rightarrow> AutomatedValidationOptions \<Rightarrow> string \<Rightarrow> bool" where
  "automated_permits N g host \<longleftrightarrow> host \<noteq> [] \<and> \<not> isMetadataHost N host \<and> \<not> isAmazonAWSHost host \<and>
     (isLoopbackHost N host \<or>
      (\<exists>demo. demo_proven g demo \<and> host \<in> allowlistHost N ` set (dp_EndpointAllowlist demo)))"

lemma demoAllowsHost_proven:
  "demoAllowsHost N g host \<Longrightarrow> \<exists>demo. demo_proven g demo \<and> host \<in> allowlistHost N ` set (dp_EndpointAllowlist demo)"
  by (auto simp: demoAllowsHost_def demo_proven_def validateDemoPolicy_def list_ex_iff split: option.splits if_splits)

lemma validateHost_permits: "validateHost N g raw = None \<Longrightarrow> automated_permits N g (canonicalHost raw)"
  by (auto simp: validateHost_def automated_permits_def Let_def split: if_splits option.splits
      dest: demoAllowsHost_proven)

definition guarded_host :: "netlib \<Rightarrow> string \<Rightarrow> string option" where
  "guarded_host N url = (case parseEndpoint N url of Inl _ \<Rightarrow> None | Inr (_, host) \<Rightarrow> Some (canonicalHost host))"

interpretation automated: endpoint_guard
    "Automated_ValidateEndpoint N osenv (Some g)" "Automated_ValidateDialAddress N osenv (Some g)"
    "guarded_host N" "\<lambda>a. canonicalHost (dial_host N a)" "automated_permits N g" for N osenv g
  by unfold_locales
    (auto simp: Automated_ValidateEndpoint_def Automated_ValidateDialAddress_def guarded_host_def
      split: option.splits sum.splits if_splits intro: validateHost_permits)

definition okx_host :: "string \<Rightarrow> bool" where
  "okx_host h \<longleftrightarrow> h = ''www.okx.com'' \<or> h = ''ws.okx.com''"

interpretation production: endpoint_guard
    "Production_ValidateEndpoint N" "Production_ValidateDialAddress N"
    "\<lambda>url. case parseEndpoint N url of Inl _ \<Rightarrow> None | Inr (_, host) \<Rightarrow> Some host" "dial_host N" okx_host for N
  by unfold_locales
    (auto simp: Production_ValidateEndpoint_def Production_ValidateDialAddress_def okx_host_def
      split: sum.splits if_splits)

section \<open>Properties\<close>

lemma Guard_Validate_ok:
  assumes "Guard_Validate osenv guard = None"
  obtains g where "guard = Some g" and "ao_ExecutionMode g \<noteq> ExecutionModeProduction" and "\<not> ao_TradingEnabled g"
    and "\<forall>name \<in> set credential_names. \<not> populated osenv g name"
  using assms by (auto simp: Guard_Validate_def Let_def find_None_iff ExecutionModeProduction_def
      split: option.splits if_splits)

text \<open>The hosts that a client of the automated guard reaches: of its targets and redirects, and of its connections.\<close>

definition automated_reach ::
  "netlib \<Rightarrow> (string \<Rightarrow> string option) \<Rightarrow> AutomatedValidationOptions option \<Rightarrow> string list \<Rightarrow> string list \<Rightarrow>
    string option list" where
  "automated_reach N osenv guard urls addresses =
     map (guarded_host N) (followed (Automated_ValidateEndpoint N osenv guard) urls) @
     map (\<lambda>a. Some (canonicalHost (dial_host N a))) (dialled (Automated_ValidateDialAddress N osenv guard) addresses)"

lemma followed_valid: "url \<in> set (followed v urls) \<Longrightarrow> v url = None"
  by (induction urls) (auto split: if_splits)


definition no_addresses :: netlib where
  "no_addresses = \<lparr>nl_parse = (\<lambda>s. if s = ''http://localhost:80/'' then Some \<lparr>u_Scheme = ''http'', u_Host = ''localhost:80'',
       u_Hostname = ''localhost'', u_Port = ''80'', u_Path = ''/'', u_User = False, u_RawQuery = [], u_Fragment = []\<rparr>
       else okx_url s), nl_addr = (\<lambda>_. None), nl_split = (\<lambda>_. None)\<rparr>"

lemma sample_guard:
  "Guard_Validate (\<lambda>_. None) (Some DefaultAutomatedValidationGuard) = None"
  "parseEndpoint no_addresses ''http://localhost:80/'' = Inr (''http'', ''localhost'')"
  "parseEndpoint no_addresses DefaultRESTBaseURL = Inr (''https'', ''www.okx.com'')"
  "validateHost no_addresses DefaultAutomatedValidationGuard ''localhost'' = None"
  "validateHost no_addresses DefaultAutomatedValidationGuard ''www.okx.com'' = Some OkxHost"
  "canonicalHost ''localhost'' = ''localhost''"
  by code_simp+


lemma TrimSpace_ends: "TrimSpace s = [] \<or> \<not> is_space (hd (TrimSpace s)) \<and> \<not> is_space (last (TrimSpace s))"
proof -
  define t where "t = dropWhile is_space s"
  have t: "t = [] \<or> \<not> is_space (hd t)" using hd_dropWhile [of is_space s] by (auto simp: t_def)
  define r where "r = dropWhile is_space (rev t)"
  have r: "r = [] \<or> \<not> is_space (hd r)" using hd_dropWhile [of is_space "rev t"] by (auto simp: r_def)
  obtain p where p: "rev t = p @ r" using takeWhile_dropWhile_id [of is_space "rev t"] unfolding r_def by metis
  then have "t = rev r @ rev p" by (metis rev_append rev_rev_ident)
  then have "r \<noteq> [] \<Longrightarrow> hd t = last r" by (simp add: hd_append hd_rev)
  moreover have "TrimSpace s = rev r" by (simp add: TrimSpace_def t_def r_def)
  ultimately show ?thesis using t r p by (auto simp: hd_rev last_rev)
qed

lemma TrimSpace_id: "s = [] \<or> \<not> is_space (hd s) \<and> \<not> is_space (last s) \<Longrightarrow> TrimSpace s = s"
  by (metis TrimSpace_def dropWhile_eq_self_iff hd_rev rev_is_Nil_conv rev_rev_ident)

lemma TrimSpace_idem [simp]: "TrimSpace (TrimSpace s) = TrimSpace s"
  using TrimSpace_ends by (rule TrimSpace_id)

lemma TrimSpace_or_default: "TrimSpace d = d \<Longrightarrow> TrimSpace (or_default d raw) = or_default d raw"
  by (simp add: or_default_def)

lemma REST_admitted:
  assumes "validateProductionREST (nl_parse N) raw = None" and "TrimSpace raw = raw"
  shows "Production_ValidateEndpoint N raw = None"
proof -
  have "ToLower ''https'' = ''https''" "canonicalHost ''www.okx.com'' = ''www.okx.com''" by code_simp+
  with assms show ?thesis
    by (auto simp: validateProductionREST_def parseProductionURL_def Production_ValidateEndpoint_def parseEndpoint_def
        split: option.splits if_splits sum.splits)
qed

lemma WebSocket_admitted:
  assumes "validateProductionWebSocket (nl_parse N) raw role path = None" and "TrimSpace raw = raw"
  shows "Production_ValidateEndpoint N raw = None"
proof -
  have "ToLower ''wss'' = ''wss''" "canonicalHost ''ws.okx.com'' = ''ws.okx.com''" by code_simp+
  with assms show ?thesis
    by (auto simp: validateProductionWebSocket_def parseProductionURL_def Production_ValidateEndpoint_def parseEndpoint_def Let_def
        split: option.splits if_splits sum.splits)
qed

text \<open>With an accepted production profile the endpoints resolve, the guard that production installs admits the three of
  them, and the public and the private socket differ; the profile can be used to build that guard. Two separately written
  checks, of the profile and of the guard, agree whatever \<open>url.Parse\<close> makes of the addresses.
\<close>

theorem accepted_profile_connects:
  assumes "ValidateProductionConfig (nl_parse N) (Some cfg) = []"
  shows "\<exists>r. ResolveNetworkEndpoints (nl_parse N) (Some cfg) = Inr r \<and> NewProductionNetworkGuard (nl_parse N) (Some cfg) = [] \<and>
    Production_ValidateEndpoint N (re_RESTBaseURL r) = None \<and> Production_ValidateEndpoint N (re_PublicWebSocketURL r) = None \<and>
    Production_ValidateEndpoint N (re_PrivateWebSocketURL r) = None \<and> re_PublicWebSocketURL r \<noteq> re_PrivateWebSocketURL r"
proof -
  let ?r = "resolved_endpoints cfg"
  have mode: "sy_ExecutionMode cfg = ExecutionModeProduction" and ends: "validateProductionEndpoints (nl_parse N) ?r = None"
    using accepted_profile_facts [OF assms] by auto
  have trims: "TrimSpace DefaultRESTBaseURL = DefaultRESTBaseURL" "TrimSpace DefaultPublicWebSocketURL = DefaultPublicWebSocketURL"
    "TrimSpace DefaultPrivateWebSocketURL = DefaultPrivateWebSocketURL" by code_simp+
  have "ResolveNetworkEndpoints (nl_parse N) (Some cfg) = Inr ?r"
    using mode ends by (simp add: ResolveNetworkEndpoints_def)
  moreover have "validateProductionREST (nl_parse N) (re_RESTBaseURL ?r) = None"
    and "validateProductionWebSocket (nl_parse N) (re_PublicWebSocketURL ?r) ''public'' ''/ws/v5/public'' = None"
    and "validateProductionWebSocket (nl_parse N) (re_PrivateWebSocketURL ?r) ''private'' ''/ws/v5/private'' = None"
    and "re_PublicWebSocketURL ?r \<noteq> re_PrivateWebSocketURL ?r"
    using ends by (auto simp: validateProductionEndpoints_def split: option.splits if_splits)
  moreover have "TrimSpace (re_RESTBaseURL ?r) = re_RESTBaseURL ?r" "TrimSpace (re_PublicWebSocketURL ?r) = re_PublicWebSocketURL ?r"
    "TrimSpace (re_PrivateWebSocketURL ?r) = re_PrivateWebSocketURL ?r"
    using trims by (simp_all add: resolved_endpoints_def TrimSpace_or_default)
  ultimately show ?thesis
    using assms REST_admitted WebSocket_admitted by (auto simp: NewProductionNetworkGuard_def)
qed

lemma sample_profile_accepted: "ValidateProductionConfig okx_url (Some sample_profile) = []"
  by code_simp

theorem accepted_profile_connects_witness:
  "\<exists>r. ResolveNetworkEndpoints okx_url (Some sample_profile) = Inr r \<and>
     Production_ValidateEndpoint \<lparr>nl_parse = okx_url, nl_addr = (\<lambda>_. None), nl_split = (\<lambda>_. None)\<rparr> (re_PrivateWebSocketURL r) = None"
  using accepted_profile_connects [of "\<lparr>nl_parse = okx_url, nl_addr = (\<lambda>_. None), nl_split = (\<lambda>_. None)\<rparr>" sample_profile]
    sample_profile_accepted by auto

end
