(* ===== verification/Health.thy ===== *)
theory Health
  imports Models
begin

text \<open>
  The machine health (\<open>src/internal/monitor/health.go\<close>): what the parts of the program report, and
  the aggregate that the health output shows. A method that reads the clock takes its reading as an
  argument. The maps are association lists with distinct keys; every method holds the mutex throughout.
\<close>

section \<open>Severity\<close>

datatype HealthState = HealthStateHealthy | HealthStateDegraded | HealthStateSafeStopped

fun HealthState_String :: "HealthState \<Rightarrow> string" where
  "HealthState_String HealthStateHealthy = ''healthy''"
| "HealthState_String HealthStateDegraded = ''degraded/reconciling''"
| "HealthState_String HealthStateSafeStopped = ''safe-stopped''"

fun severity :: "HealthState \<Rightarrow> nat" where
  "severity HealthStateHealthy = 0"
| "severity HealthStateDegraded = 1"
| "severity HealthStateSafeStopped = 2"

lemma severity_inject: "severity s = severity t \<Longrightarrow> s = t"
  by (cases s; cases t) auto

text \<open>The states are ordered by severity.\<close>

instantiation HealthState :: linorder
begin

definition less_eq_HealthState :: "HealthState \<Rightarrow> HealthState \<Rightarrow> bool" where
  "less_eq_HealthState s t \<longleftrightarrow> severity s \<le> severity t"

definition less_HealthState :: "HealthState \<Rightarrow> HealthState \<Rightarrow> bool" where
  "less_HealthState s t \<longleftrightarrow> severity s < severity t"

instance
  by standard (auto simp: less_eq_HealthState_def less_HealthState_def intro: severity_inject)

end

lemma HealthState_le [simp]:
  "HealthStateHealthy \<le> s" "s \<le> HealthStateSafeStopped"
  "HealthStateDegraded \<le> s \<longleftrightarrow> s \<noteq> HealthStateHealthy"
  "s \<le> HealthStateHealthy \<longleftrightarrow> s = HealthStateHealthy"
  "HealthStateSafeStopped \<le> s \<longleftrightarrow> s = HealthStateSafeStopped"
  "s \<le> HealthStateDegraded \<longleftrightarrow> s \<noteq> HealthStateSafeStopped"
  by (cases s; simp add: less_eq_HealthState_def)+

section \<open>The registry\<close>

record SymbolHealthSnapshot =
  sy_State :: HealthState
  sy_SafeStopReasons :: "string list"

record HealthRegistry =
  hr_location :: string
  hr_serviceExpected :: bool
  hr_stateDirectoryWritable :: bool
  hr_privateWSState :: string
  hr_privateWSLastLiveness :: time
  hr_privateWSReconnects :: int
  hr_privateWSSubscriptionsConfirmed :: bool
  hr_reconciliationLastSuccess :: time
  hr_reconciliationInterval :: duration
  hr_symbolStates :: "(string, SymbolHealthSnapshot) gomap"
  hr_fillDuplicatesSuppressed :: int64
  hr_fillGaps :: int64
  hr_outboxBacklog :: int
  hr_counterSellConfirmed :: int64
  hr_counterSellRejected :: int64
  hr_counterSellUnconfirmed :: int64
  hr_counterSellSafeFailed :: int64
  hr_rebalancerLastRun :: time
  hr_rebalancerRefAge :: duration
  hr_rebalancerStaleCount :: int
  hr_safeStopScopes :: "(string, string list) gomap"

definition NewHealthRegistry :: "string \<Rightarrow> HealthRegistry" where
  "NewHealthRegistry location = \<lparr>hr_location = location, hr_serviceExpected = True, hr_stateDirectoryWritable = False,
     hr_privateWSState = [], hr_privateWSLastLiveness = zero_time, hr_privateWSReconnects = 0,
     hr_privateWSSubscriptionsConfirmed = False, hr_reconciliationLastSuccess = zero_time,
     hr_reconciliationInterval = 30 * 1000000000, hr_symbolStates = [], hr_fillDuplicatesSuppressed = 0, hr_fillGaps = 0,
     hr_outboxBacklog = 0, hr_counterSellConfirmed = 0, hr_counterSellRejected = 0, hr_counterSellUnconfirmed = 0,
     hr_counterSellSafeFailed = 0, hr_rebalancerLastRun = zero_time, hr_rebalancerRefAge = 0,
     hr_rebalancerStaleCount = 0, hr_safeStopScopes = []\<rparr>"

definition SetStateDirectoryWritable :: "bool \<Rightarrow> HealthRegistry \<Rightarrow> HealthRegistry" where
  "SetStateDirectoryWritable writable h = h\<lparr>hr_stateDirectoryWritable := writable\<rparr>"

definition SetPrivateWSState :: "string \<Rightarrow> time \<Rightarrow> int \<Rightarrow> bool \<Rightarrow> HealthRegistry \<Rightarrow> HealthRegistry" where
  "SetPrivateWSState st lastLiveness reconnects subsConfirmed h =
     h\<lparr>hr_privateWSState := st, hr_privateWSLastLiveness := lastLiveness, hr_privateWSReconnects := reconnects,
       hr_privateWSSubscriptionsConfirmed := subsConfirmed\<rparr>"

definition SetReconciliationSuccess :: "time \<Rightarrow> HealthRegistry \<Rightarrow> HealthRegistry" where
  "SetReconciliationSuccess t h = h\<lparr>hr_reconciliationLastSuccess := t\<rparr>"

definition SetSymbolState :: "string \<Rightarrow> HealthState \<Rightarrow> string list \<Rightarrow> HealthRegistry \<Rightarrow> HealthRegistry" where
  "SetSymbolState symbol st reasons h =
     h\<lparr>hr_symbolStates := AList.update symbol \<lparr>sy_State = st, sy_SafeStopReasons = reasons\<rparr> (hr_symbolStates h)\<rparr>"

definition SetSafeStopScope :: "string \<Rightarrow> string list \<Rightarrow> HealthRegistry \<Rightarrow> HealthRegistry" where
  "SetSafeStopScope scope reasons h =
     h\<lparr>hr_safeStopScopes := (if reasons = [] then AList.delete scope (hr_safeStopScopes h)
                             else AList.update scope reasons (hr_safeStopScopes h))\<rparr>"

definition IncrementFillDuplicates :: "HealthRegistry \<Rightarrow> HealthRegistry" where
  "IncrementFillDuplicates h = h\<lparr>hr_fillDuplicatesSuppressed := hr_fillDuplicatesSuppressed h + 1\<rparr>"

definition IncrementFillGaps :: "HealthRegistry \<Rightarrow> HealthRegistry" where
  "IncrementFillGaps h = h\<lparr>hr_fillGaps := hr_fillGaps h + 1\<rparr>"

definition SetOutboxBacklog :: "int \<Rightarrow> HealthRegistry \<Rightarrow> HealthRegistry" where
  "SetOutboxBacklog n h = h\<lparr>hr_outboxBacklog := n\<rparr>"

definition RecordCounterSellOutcome :: "string \<Rightarrow> HealthRegistry \<Rightarrow> HealthRegistry" where
  "RecordCounterSellOutcome result h =
     (if result = ''confirmed'' then h\<lparr>hr_counterSellConfirmed := hr_counterSellConfirmed h + 1\<rparr>
      else if result = ''rejected'' then h\<lparr>hr_counterSellRejected := hr_counterSellRejected h + 1\<rparr>
      else if result = ''unconfirmed'' then h\<lparr>hr_counterSellUnconfirmed := hr_counterSellUnconfirmed h + 1\<rparr>
      else if result = ''safe_failed'' then h\<lparr>hr_counterSellSafeFailed := hr_counterSellSafeFailed h + 1\<rparr>
      else h)"

definition SetRebalancerState :: "time \<Rightarrow> duration \<Rightarrow> int \<Rightarrow> HealthRegistry \<Rightarrow> HealthRegistry" where
  "SetRebalancerState lastRun refAge staleCount h =
     h\<lparr>hr_rebalancerLastRun := lastRun, hr_rebalancerRefAge := refAge, hr_rebalancerStaleCount := staleCount\<rparr>"

definition some_symbol :: "HealthState \<Rightarrow> HealthRegistry \<Rightarrow> bool" where
  "some_symbol st h = list_ex (\<lambda>(symbol, snap). sy_State snap = st) (hr_symbolStates h)"

definition computeState :: "time \<Rightarrow> HealthRegistry \<Rightarrow> HealthState" where
  "computeState now h =
     (if hr_safeStopScopes h \<noteq> [] then HealthStateSafeStopped
      else if some_symbol HealthStateSafeStopped h then HealthStateSafeStopped
      else if \<not> hr_stateDirectoryWritable h then HealthStateSafeStopped
      else if hr_privateWSState h \<noteq> ''ready'' then HealthStateDegraded
      else if hr_reconciliationLastSuccess h \<noteq> zero_time \<and>
         hr_reconciliationInterval h < now - hr_reconciliationLastSuccess h then HealthStateDegraded
      else if hr_reconciliationLastSuccess h = zero_time \<and> hr_serviceExpected h then HealthStateDegraded
      else if some_symbol HealthStateDegraded h then HealthStateDegraded
      else HealthStateHealthy)"

record HealthSnapshot =
  hsn_State :: HealthState
  hsn_Location :: string
  hsn_ServiceExpected :: bool
  hsn_StateDirectoryWritable :: bool
  hsn_PrivateWS :: "string \<times> int \<times> int \<times> bool"
  hsn_Reconciliation :: "string \<times> int"
  hsn_Symbols :: "(string, SymbolHealthSnapshot) gomap"

text \<open>\<open>Duration.Milliseconds\<close> truncates towards zero.\<close>

definition Milliseconds :: "duration \<Rightarrow> int" where
  "Milliseconds d = sgn d * (\<bar>d\<bar> div 1000000)"

definition age_ms :: "time \<Rightarrow> time \<Rightarrow> int" where
  "age_ms now t = (if t = zero_time then 0 else Milliseconds (now - t))"

text \<open>\<open>rfc3339\<close> is the library's rendering of a time.\<close>

definition Health_Snapshot :: "(time \<Rightarrow> string) \<Rightarrow> time \<Rightarrow> HealthRegistry \<Rightarrow> HealthSnapshot" where
  "Health_Snapshot rfc3339 now h = \<lparr>hsn_State = computeState now h, hsn_Location = hr_location h,
     hsn_ServiceExpected = hr_serviceExpected h, hsn_StateDirectoryWritable = hr_stateDirectoryWritable h,
     hsn_PrivateWS = (hr_privateWSState h, age_ms now (hr_privateWSLastLiveness h), hr_privateWSReconnects h,
       hr_privateWSSubscriptionsConfirmed h),
     hsn_Reconciliation = (if hr_reconciliationLastSuccess h = zero_time then [] else rfc3339 (hr_reconciliationLastSuccess h),
       age_ms now (hr_reconciliationLastSuccess h)),
     hsn_Symbols = hr_symbolStates h\<rparr>"

section \<open>The aggregate is the worst finding\<close>

text \<open>What each part of the system contributes by itself.\<close>

definition findings :: "time \<Rightarrow> HealthRegistry \<Rightarrow> HealthState set" where
  "findings now h =
     (\<lambda>_. HealthStateSafeStopped) ` set (hr_safeStopScopes h) \<union>
     (\<lambda>(_, snap). sy_State snap) ` set (hr_symbolStates h) \<union>
     {if hr_stateDirectoryWritable h then HealthStateHealthy else HealthStateSafeStopped,
      if hr_privateWSState h = ''ready'' then HealthStateHealthy else HealthStateDegraded,
      if hr_reconciliationLastSuccess h = zero_time
      then (if hr_serviceExpected h then HealthStateDegraded else HealthStateHealthy)
      else (if now - hr_reconciliationLastSuccess h \<le> hr_reconciliationInterval h then HealthStateHealthy
            else HealthStateDegraded)}"

lemma some_symbol_iff: "some_symbol st h \<longleftrightarrow> (\<exists>snap \<in> snd ` set (hr_symbolStates h). sy_State snap = st)"
  by (force simp: some_symbol_def list_ex_iff)

lemma symbol_state_in: "some_symbol st h \<longleftrightarrow> st \<in> (\<lambda>(_, snap). sy_State snap) ` set (hr_symbolStates h)"
  by (force simp: some_symbol_def list_ex_iff)

lemma Max_eq_worst:
  fixes S :: "HealthState set"
  assumes "finite S" and "S \<noteq> {}"
  shows "Max S = (if HealthStateSafeStopped \<in> S then HealthStateSafeStopped
                  else if HealthStateDegraded \<in> S then HealthStateDegraded else HealthStateHealthy)"
proof -
  have *: "s \<in> S \<Longrightarrow> s = HealthStateHealthy \<or> s = HealthStateDegraded \<or> s = HealthStateSafeStopped" for s
    by (cases s) auto
  obtain x where "x \<in> S" using assms(2) by blast
  then show ?thesis
    using * [of x] by (intro Max_eqI [OF assms(1)]) (auto split: if_splits dest: *)
qed

text \<open>C35: The health state that the program reports is the worst of what its parts report: an active safe stop, a
  safe-stopped symbol or an unwritable state directory, then a private WebSocket that is not ready, a reconciliation
  that is missing or older than its interval, or a degraded symbol. The order in which the code tests them, and the
  order in which it walks the maps, do not matter.
\<close>

theorem health_is_worst: "computeState now h = Max (findings now h)"
proof -
  have fin: "finite (findings now h)" and ne: "findings now h \<noteq> {}" by (auto simp: findings_def)
  have stop: "HealthStateSafeStopped \<in> findings now h \<longleftrightarrow>
      hr_safeStopScopes h \<noteq> [] \<or> some_symbol HealthStateSafeStopped h \<or> \<not> hr_stateDirectoryWritable h"
    by (cases "hr_safeStopScopes h") (auto simp: findings_def symbol_state_in image_iff split: if_splits)
  have deg: "HealthStateDegraded \<in> findings now h \<longleftrightarrow>
      some_symbol HealthStateDegraded h \<or> hr_privateWSState h \<noteq> ''ready'' \<or>
      (if hr_reconciliationLastSuccess h = zero_time then hr_serviceExpected h
       else hr_reconciliationInterval h < now - hr_reconciliationLastSuccess h)"
    by (auto simp: findings_def symbol_state_in image_iff split: if_splits)
  show ?thesis
    unfolding Max_eq_worst [OF fin ne] stop deg by (auto simp: computeState_def)
qed

text \<open>Nothing but a new successful reconciliation makes a registry healthy again after its interval.\<close>

lemma stale_reconciliation_degrades:
  assumes "hr_reconciliationLastSuccess h + hr_reconciliationInterval h < now"
    and "hr_reconciliationLastSuccess h \<noteq> zero_time"
  shows "computeState now h \<noteq> HealthStateHealthy"
  using assms by (simp add: computeState_def)

end
