(* ===== verification/ReconnectingClient.thy ===== *)
theory ReconnectingClient
  imports Json Models
begin

text \<open>
  What the two socket clients of \<open>src/internal/marketdata\<close> share: the life of a connection that some
  goroutine watches and that is dialled again when it is lost. The locale states the contract of a
  client's steps; its conclusions hold in every reachable state of either client.
\<close>

section \<open>The contract\<close>

text \<open>
  \<open>up\<close> is the claim of being connected, \<open>linked\<close> that there is a connection, \<open>guarded\<close> that a goroutine
  watches it, \<open>sound\<close> an invariant of the client, \<open>pending\<close> that a reconnection is asked for or under way, \<open>gaveup\<close> that the attempts are
  used up, \<open>closed\<close> that the client has been shut down.
\<close>

locale reconnecting =
  fixes step :: "'s \<Rightarrow> 's \<Rightarrow> bool"
    and sound up linked guarded pending gaveup closed :: "'s \<Rightarrow> bool"
  assumes kept: "step s s' \<Longrightarrow> sound s \<Longrightarrow> sound s'"
    and gain: "step s s' \<Longrightarrow> sound s \<Longrightarrow> \<not> closed s' \<Longrightarrow> \<not> up s \<Longrightarrow> up s' \<Longrightarrow> linked s' \<and> guarded s'"
    and keep: "step s s' \<Longrightarrow> sound s \<Longrightarrow> \<not> closed s' \<Longrightarrow> up s \<Longrightarrow> up s' \<Longrightarrow> linked s \<Longrightarrow> guarded s \<Longrightarrow> linked s' \<and> guarded s'"
    and lose: "step s s' \<Longrightarrow> sound s \<Longrightarrow> \<not> closed s' \<Longrightarrow> up s \<Longrightarrow> \<not> up s' \<Longrightarrow> pending s'"
    and retry: "step s s' \<Longrightarrow> sound s \<Longrightarrow> \<not> closed s' \<Longrightarrow> \<not> up s \<Longrightarrow> \<not> up s' \<Longrightarrow> pending s \<or> gaveup s \<Longrightarrow> pending s' \<or> gaveup s'"
    and final: "step s s' \<Longrightarrow> closed s \<Longrightarrow> closed s'"
begin

definition healthy :: "'s \<Rightarrow> bool" where
  "healthy s \<longleftrightarrow> sound s \<and> (closed s \<or> (if up s then linked s \<and> guarded s else pending s \<or> gaveup s))"

lemma healthy_step:
  assumes "healthy s" and "step s s'"
  shows "healthy s'"
proof (cases "closed s'")
  case True
  with assms kept show ?thesis by (auto simp: healthy_def)
next
  case False
  then have "\<not> closed s" using final assms(2) by blast
  moreover have "sound s" using assms(1) by (simp add: healthy_def)
  ultimately show ?thesis
    using assms False kept [OF assms(2)] gain [OF assms(2)] keep [OF assms(2)] lose [OF assms(2)] retry [OF assms(2)]
    by (auto simp: healthy_def split: if_splits)
qed

lemma healthy_run: "step\<^sup>*\<^sup>* s s' \<Longrightarrow> healthy s \<Longrightarrow> healthy s'"
  by (induction rule: rtranclp_induct) (auto intro: healthy_step)

text \<open>From the moment the client is first connected it is either watched, or retrying, or has given up.\<close>

lemma watched:
  assumes "step\<^sup>*\<^sup>* s s'" and "sound s" and "up s" and "linked s" and "guarded s" and "\<not> closed s'"
  shows "if up s' then linked s' \<and> guarded s' else pending s' \<or> gaveup s'"
  using healthy_run [OF assms(1)] assms(2-6) by (simp add: healthy_def)

end

section \<open>Backoff\<close>

text \<open>
  The delay doubles with the attempt up to a maximum. The code computes it in \<open>float64\<close>, which
  represents these durations and their products with powers of two exactly.
\<close>

definition calculateBackoff :: "duration \<Rightarrow> duration \<Rightarrow> int \<Rightarrow> duration" where
  "calculateBackoff initial maxDelay attempt = min (initial * 2 ^ nat attempt) maxDelay"

lemma calculateBackoff_bounds:
  "0 \<le> initial \<Longrightarrow> 0 \<le> maxDelay \<Longrightarrow> 0 \<le> calculateBackoff initial maxDelay a \<and> calculateBackoff initial maxDelay a \<le> maxDelay"
  by (simp add: calculateBackoff_def)

end
