(* ===== verification/PrivateWSClient.thy ===== *)
theory PrivateWSClient
  imports ReconnectingClient
begin

text \<open>
  The private WebSocket client that the program runs (\<open>src/internal/marketdata/ws_private.go\<close>). A step
  is one iteration of one goroutine, a call of the interface, or one whole attempt to connect
  (dial, login, subscription), whose answers are inputs. Connections are numbered as they are dialled,
  because a reader may still be blocked on an old one. The goroutines are part of the state: readers
  one by one, heartbeat loops by their number, reconnect loops with the attempt they are waiting for.
  Locks are not modelled: each locked section lies inside one step.
\<close>

section \<open>Configuration\<close>

record PrivateWSClientConfig =
  pk_URL :: string
  pk_HeartbeatInterval :: duration
  pk_HeartbeatTimeout :: duration
  pk_ConnectTimeout :: duration
  pk_InitialReconnectDelay :: duration
  pk_MaxReconnectDelay :: duration
  pk_MaxReconnectAttempts :: int

definition sec :: duration where
  "sec = 1000000000"

definition DefaultPrivateWSClientConfig :: PrivateWSClientConfig where
  "DefaultPrivateWSClientConfig = \<lparr>pk_URL = ''wss://ws.okx.com:8443/ws/v5/private'',
     pk_HeartbeatInterval = 20 * sec, pk_HeartbeatTimeout = 45 * sec, pk_ConnectTimeout = 10 * sec,
     pk_InitialReconnectDelay = 1 * sec, pk_MaxReconnectDelay = 60 * sec, pk_MaxReconnectAttempts = 10\<rparr>"

text \<open>Zero values are replaced by the defaults.\<close>

definition private_config :: "PrivateWSClientConfig \<Rightarrow> PrivateWSClientConfig" where
  "private_config cfg =
     (let d = DefaultPrivateWSClientConfig; pick = (\<lambda>f. if f cfg = 0 then f d else f cfg)
      in \<lparr>pk_URL = (if pk_URL cfg = [] then pk_URL d else pk_URL cfg),
          pk_HeartbeatInterval = pick pk_HeartbeatInterval, pk_HeartbeatTimeout = pick pk_HeartbeatTimeout,
          pk_ConnectTimeout = pick pk_ConnectTimeout, pk_InitialReconnectDelay = pick pk_InitialReconnectDelay,
          pk_MaxReconnectDelay = pick pk_MaxReconnectDelay, pk_MaxReconnectAttempts = pick pk_MaxReconnectAttempts\<rparr>)"

section \<open>State\<close>

text \<open>A reader is at the top of its loop, blocked on a connection, or in the fill callback.\<close>

datatype reader = AtTop | Reading nat | Handling

record PrivateWSClient =
  pc_config :: PrivateWSClientConfig
  pc_conn :: "nat option"
  pc_dialled :: nat
  pc_connected :: bool
  pc_lastPong :: time
  pc_fillCallback :: bool
  pc_done :: bool
  pc_reconnectCh :: bool
  pc_reconnectCount :: int
  pc_readers :: "reader list"
  pc_heartbeats :: nat
  pc_reconnectors :: "(int \<times> duration) option list"

definition NewPrivateWSClient :: "PrivateWSClientConfig \<Rightarrow> PrivateWSClient" where
  "NewPrivateWSClient cfg = \<lparr>pc_config = private_config cfg, pc_conn = None, pc_dialled = 0, pc_connected = False,
     pc_lastPong = zero_time, pc_fillCallback = False, pc_done = False, pc_reconnectCh = False,
     pc_reconnectCount = 0, pc_readers = [], pc_heartbeats = 0, pc_reconnectors = []\<rparr>"

section \<open>Messages\<close>

record OKXOrderPushData =
  op_InstID :: string
  op_Side :: string
  op_FillPx :: string
  op_FillSz :: string
  op_OrdID :: string
  op_State :: string

definition push_keys :: "string list" where
  "push_keys = [''instId'', ''ordId'', ''side'', ''fillPx'', ''fillSz'', ''avgPx'', ''state'', ''px'', ''sz'']"

definition push_data :: "json \<Rightarrow> OKXOrderPushData option" where
  "push_data j =
     (case decode_all (\<lambda>k. str_field k j) push_keys of
        None \<Rightarrow> None
      | Some vs \<Rightarrow> Some \<lparr>op_InstID = vs ! 0, op_Side = vs ! 2, op_FillPx = vs ! 3, op_FillSz = vs ! 4, op_OrdID = vs ! 1,
          op_State = vs ! 6\<rparr>)"

text \<open>The channel and the data of a push; \<open>None\<close> is an error of \<open>json.Unmarshal\<close>.\<close>

definition order_push :: "json \<Rightarrow> (string \<times> OKXOrderPushData list) option" where
  "order_push j =
     (case (sub_field ''arg'' j, arr_field ''data'' j) of
        (Some arg, Some rows) \<Rightarrow>
          (case (str_field ''channel'' arg, str_field ''instType'' arg, decode_all push_data rows) of
             (Some channel, Some _, Some ds) \<Rightarrow> Some (channel, ds)
           | _ \<Rightarrow> None)
      | _ \<Rightarrow> None)"

definition is_fill :: "OKXOrderPushData \<Rightarrow> bool" where
  "is_fill d \<longleftrightarrow> op_State d = ''filled'' \<or> op_State d = ''partially_filled''"

text \<open>The calls of the fill callback that a message causes.\<close>

definition handleMessage :: "bool \<Rightarrow> frame \<Rightarrow> OKXOrderPushData list" where
  "handleMessage callback f =
     (case f of
        TextFrame _ \<Rightarrow> []
      | JsonFrame j \<Rightarrow> (case order_push j of
          None \<Rightarrow> []
        | Some (channel, ds) \<Rightarrow> if channel \<noteq> ''orders'' \<or> \<not> callback then [] else filter is_fill ds))"

section \<open>Connecting\<close>

text \<open>What the exchange answers to one attempt; no reply is a failed write, a timeout or a lost connection.\<close>

record attempt_answers =
  at_dial :: bool
  at_login :: "frame option"
  at_subscribe :: "frame option"
  at_now :: time

definition event_reply :: "frame \<Rightarrow> (string \<times> string) option" where
  "event_reply f =
     (case f of
        TextFrame _ \<Rightarrow> None
      | JsonFrame j \<Rightarrow> (case (str_field ''event'' j, str_field ''code'' j, str_field ''msg'' j) of
          (Some e, Some c, Some _) \<Rightarrow> Some (e, c) | _ \<Rightarrow> None))"

definition authenticate_ok :: "frame option \<Rightarrow> bool" where
  "authenticate_ok reply =
     (case reply of None \<Rightarrow> False | Some f \<Rightarrow> event_reply f = Some (''login'', ''0''))"

definition subscribe_ok :: "frame option \<Rightarrow> bool" where
  "subscribe_ok reply =
     (case reply of
        None \<Rightarrow> False
      | Some f \<Rightarrow> (case event_reply f of None \<Rightarrow> True | Some (e, _) \<Rightarrow> e \<noteq> ''error''))"

datatype connect_error = DialFailed | LoginFailed | SubscribeFailed

definition establish :: "attempt_answers \<Rightarrow> PrivateWSClient \<Rightarrow> PrivateWSClient \<times> connect_error option" where
  "establish ans c =
     (if \<not> at_dial ans then (c, Some DialFailed)
      else
        let c1 = c\<lparr>pc_conn := Some (pc_dialled c), pc_dialled := pc_dialled c + 1, pc_lastPong := at_now ans\<rparr>
        in if \<not> authenticate_ok (at_login ans) then (c1\<lparr>pc_conn := None\<rparr>, Some LoginFailed)
           else if \<not> subscribe_ok (at_subscribe ans) then (c1\<lparr>pc_conn := None\<rparr>, Some SubscribeFailed)
           else (c1, None))"

definition Private_Connect :: "attempt_answers \<Rightarrow> PrivateWSClient \<Rightarrow> PrivateWSClient \<times> connect_error option" where
  "Private_Connect ans c =
     (if pc_connected c then (c, None)
      else (case establish ans c of
          (c1, Some e) \<Rightarrow> (c1, Some e)
        | (c1, None) \<Rightarrow> (c1\<lparr>pc_connected := True, pc_readers := pc_readers c1 @ [AtTop],
            pc_heartbeats := pc_heartbeats c1 + 1, pc_reconnectors := pc_reconnectors c1 @ [None]\<rparr>, None)))"

text \<open>\<open>Disconnect\<close> closes the \<open>done\<close> channel, which panics when it is closed already, and waits for the goroutines.\<close>

definition Private_Disconnect :: "PrivateWSClient \<Rightarrow> PrivateWSClient outcome" where
  "Private_Disconnect c =
     (if \<not> pc_connected c then Returned c
      else if pc_done c then Panicked
      else Returned (c\<lparr>pc_done := True, pc_conn := None\<rparr>))"

definition disconnect_wait :: "PrivateWSClient \<Rightarrow> PrivateWSClient option" where
  "disconnect_wait c =
     (if pc_done c \<and> pc_readers c = [] \<and> pc_heartbeats c = 0 \<and> pc_reconnectors c = []
      then Some (c\<lparr>pc_connected := False\<rparr>) else None)"

definition handleDisconnection :: "PrivateWSClient \<Rightarrow> PrivateWSClient" where
  "handleDisconnection c =
     (if \<not> pc_connected c then c
      else c\<lparr>pc_connected := False, pc_conn := None, pc_reconnectCh := True\<rparr>)"

section \<open>The goroutines\<close>

definition drop_nth :: "nat \<Rightarrow> 'a list \<Rightarrow> 'a list" where
  "drop_nth i xs = take i xs @ drop (Suc i) xs"

text \<open>What a blocked read returns: a message of the connection, or an error (a normal closure or not).\<close>

datatype read_result = ReadMessage frame time | ReadError bool

definition readLoop_top :: "nat \<Rightarrow> PrivateWSClient \<Rightarrow> PrivateWSClient" where
  "readLoop_top i c =
     (if pc_done c then c\<lparr>pc_readers := drop_nth i (pc_readers c)\<rparr>
      else (case pc_conn c of None \<Rightarrow> c | Some n \<Rightarrow> c\<lparr>pc_readers := (pc_readers c)[i := Reading n]\<rparr>))"

definition readLoop_read :: "nat \<Rightarrow> read_result \<Rightarrow> PrivateWSClient \<Rightarrow> PrivateWSClient \<times> OKXOrderPushData list" where
  "readLoop_read i r c =
     (case r of
        ReadError normal \<Rightarrow>
          let c1 = c\<lparr>pc_readers := drop_nth i (pc_readers c)\<rparr>
          in (if normal \<or> pc_done c then c1 else handleDisconnection c1, [])
      | ReadMessage f now \<Rightarrow>
          let top = c\<lparr>pc_readers := (pc_readers c)[i := AtTop]\<rparr> in
          if f = TextFrame ''ping'' then (top, [])
          else if f = TextFrame ''pong'' then (top\<lparr>pc_lastPong := now\<rparr>, [])
          else (c\<lparr>pc_readers := (pc_readers c)[i := Handling]\<rparr>, handleMessage (pc_fillCallback c) f))"

definition heartbeat_tick :: "time \<Rightarrow> bool \<Rightarrow> PrivateWSClient \<Rightarrow> PrivateWSClient" where
  "heartbeat_tick now written c =
     (if \<not> pc_connected c then c
      else if pk_HeartbeatTimeout (pc_config c) < now - pc_lastPong c \<or> pc_conn c \<noteq> None \<and> \<not> written
      then handleDisconnection (c\<lparr>pc_heartbeats := pc_heartbeats c - 1\<rparr>)
      else c)"

text \<open>The top of the retry loop: take the next attempt or give up.\<close>

definition next_attempt :: "nat \<Rightarrow> duration \<Rightarrow> PrivateWSClient \<Rightarrow> PrivateWSClient" where
  "next_attempt i delay c =
     (if pc_done c then c\<lparr>pc_reconnectors := (pc_reconnectors c)[i := None]\<rparr>
      else
        let attempt = pc_reconnectCount c;
            c1 = c\<lparr>pc_reconnectCount := attempt + 1\<rparr>
        in c1\<lparr>pc_reconnectors := (pc_reconnectors c)[i :=
             (if pk_MaxReconnectAttempts (pc_config c) \<le> attempt then None else Some (attempt, delay))]\<rparr>)"

definition reconnect_take :: "nat \<Rightarrow> PrivateWSClient \<Rightarrow> PrivateWSClient" where
  "reconnect_take i c =
     next_attempt i (pk_InitialReconnectDelay (pc_config c)) (c\<lparr>pc_reconnectCh := False, pc_reconnectCount := 0\<rparr>)"

definition private_backoff :: "PrivateWSClient \<Rightarrow> int \<Rightarrow> duration" where
  "private_backoff c = calculateBackoff (pk_InitialReconnectDelay (pc_config c)) (pk_MaxReconnectDelay (pc_config c))"

definition reconnect_attempt :: "nat \<Rightarrow> int \<Rightarrow> attempt_answers \<Rightarrow> PrivateWSClient \<Rightarrow> PrivateWSClient" where
  "reconnect_attempt i attempt ans c =
     (case establish ans c of
        (c1, Some _) \<Rightarrow> next_attempt i (private_backoff c (attempt + 1)) c1
      | (c1, None) \<Rightarrow> c1\<lparr>pc_connected := True, pc_readers := pc_readers c1 @ [AtTop],
          pc_heartbeats := pc_heartbeats c1 + 1, pc_reconnectors := (pc_reconnectors c1)[i := None]\<rparr>)"

section \<open>Steps\<close>

datatype pw_input =
    InConnect attempt_answers | InDisconnect | InDisconnected | InSetFillCallback
  | InTop nat | InRead nat read_result | InPong nat time | InHandled nat
  | InHeartbeat time bool | InHeartbeatDone
  | InTake nat | InAttempt nat attempt_answers | InReconnectDone nat

text \<open>\<open>None\<close>: the input does not fit the state. A message can only come from the connection the client holds.\<close>

fun pw_next :: "pw_input \<Rightarrow> PrivateWSClient \<Rightarrow> (PrivateWSClient outcome \<times> OKXOrderPushData list) option" where
  "pw_next (InConnect ans) c = Some (Returned (fst (Private_Connect ans c)), [])"
| "pw_next InDisconnect c = Some (Private_Disconnect c, [])"
| "pw_next InDisconnected c = map_option (\<lambda>c'. (Returned c', [])) (disconnect_wait c)"
| "pw_next InSetFillCallback c = Some (Returned (c\<lparr>pc_fillCallback := True\<rparr>), [])"
| "pw_next (InTop i) c =
     (if i < length (pc_readers c) \<and> pc_readers c ! i = AtTop then Some (Returned (readLoop_top i c), []) else None)"
| "pw_next (InRead i r) c =
     (if i < length (pc_readers c) then
        (case pc_readers c ! i of
           Reading n \<Rightarrow>
             if (case r of ReadMessage _ _ \<Rightarrow> pc_conn c = Some n | ReadError _ \<Rightarrow> True)
             then (case readLoop_read i r c of (c', fs) \<Rightarrow> Some (Returned c', fs)) else None
         | _ \<Rightarrow> None)
      else None)"
| "pw_next (InPong i now) c =
     (if i < length (pc_readers c) \<and> pc_conn c \<noteq> None \<and> pc_readers c ! i = Reading (the (pc_conn c))
      then Some (Returned (c\<lparr>pc_lastPong := now\<rparr>), []) else None)"
| "pw_next (InHandled i) c =
     (if i < length (pc_readers c) \<and> pc_readers c ! i = Handling
      then Some (Returned (c\<lparr>pc_readers := (pc_readers c)[i := AtTop]\<rparr>), []) else None)"
| "pw_next (InHeartbeat now written) c =
     (if 0 < pc_heartbeats c then Some (Returned (heartbeat_tick now written c), []) else None)"
| "pw_next InHeartbeatDone c =
     (if 0 < pc_heartbeats c \<and> pc_done c then Some (Returned (c\<lparr>pc_heartbeats := pc_heartbeats c - 1\<rparr>), []) else None)"
| "pw_next (InTake i) c =
     (if i < length (pc_reconnectors c) \<and> pc_reconnectors c ! i = None \<and> pc_reconnectCh c
      then Some (Returned (reconnect_take i c), []) else None)"
| "pw_next (InAttempt i ans) c =
     (if i < length (pc_reconnectors c) then
        (case pc_reconnectors c ! i of
           Some (attempt, _) \<Rightarrow> Some (Returned (reconnect_attempt i attempt ans c), []) | None \<Rightarrow> None)
      else None)"
| "pw_next (InReconnectDone i) c =
     (if i < length (pc_reconnectors c) \<and> pc_done c
      then Some (Returned (c\<lparr>pc_reconnectors := drop_nth i (pc_reconnectors c)\<rparr>), []) else None)"

text \<open>
  The program calls \<open>Connect\<close> once, at startup. What can happen afterwards, with the fills that are
  handed to the callback:
\<close>

fun is_connect :: "pw_input \<Rightarrow> bool" where
  "is_connect (InConnect _) = True"
| "is_connect _ = False"

definition pw_step :: "PrivateWSClient \<Rightarrow> PrivateWSClient \<Rightarrow> bool" where
  "pw_step c c' \<longleftrightarrow> (\<exists>inp fs. \<not> is_connect inp \<and> pw_next inp c = Some (Returned c', fs))"

inductive pw_run :: "PrivateWSClient \<Rightarrow> OKXOrderPushData list \<Rightarrow> PrivateWSClient \<Rightarrow> bool" where
  run_refl: "pw_run c [] c"
| run_step: "pw_run c fs c' \<Longrightarrow> \<not> is_connect inp \<Longrightarrow> pw_next inp c' = Some (Returned c'', gs) \<Longrightarrow> pw_run c (fs @ gs) c''"

text \<open>A run along given inputs, to be computed.\<close>

fun pw_exec :: "pw_input list \<Rightarrow> PrivateWSClient \<Rightarrow> (PrivateWSClient \<times> OKXOrderPushData list) option" where
  "pw_exec [] c = Some (c, [])"
| "pw_exec (inp # inps) c =
     (case pw_next inp c of
        Some (Returned c', fs) \<Rightarrow> map_option (\<lambda>(c'', gs). (c'', fs @ gs)) (pw_exec inps c')
      | _ \<Rightarrow> None)"

lemma pw_run_trans: "pw_run c' gs c'' \<Longrightarrow> pw_run c fs c' \<Longrightarrow> pw_run c (fs @ gs) c''"
proof (induction rule: pw_run.induct)
  case (run_step c1 hs c2 inp c3 ks)
  then show ?case using pw_run.run_step [of c "fs @ hs" c2 inp c3 ks] by simp
qed simp

lemma pw_exec_run: "pw_exec inps c = Some (c', fs) \<Longrightarrow> \<forall>inp \<in> set inps. \<not> is_connect inp \<Longrightarrow> pw_run c fs c'"
proof (induction inps arbitrary: c fs)
  case (Cons inp inps)
  then obtain c1 gs hs where n: "pw_next inp c = Some (Returned c1, gs)" and r: "pw_exec inps c1 = Some (c', hs)"
    and fs: "fs = gs @ hs"
    by (auto split: option.splits outcome.splits)
  have "pw_run c ([] @ gs) c1" using n Cons.prems(2) by (intro pw_run.run_step [OF run_refl]) auto
  with Cons.IH [OF r] Cons.prems(2) fs show ?case using pw_run_trans by fastforce
qed (simp add: run_refl)

lemma pw_run_steps: "pw_run c fs c' \<Longrightarrow> pw_step\<^sup>*\<^sup>* c c'"
  by (induction rule: pw_run.induct) (auto simp: pw_step_def intro: rtranclp.rtrancl_into_rtrancl)

text \<open>A client that has just connected, and an exchange that answers well.\<close>

definition well_answered :: attempt_answers where
  "well_answered = \<lparr>at_dial = True,
     at_login = Some (JsonFrame (JObj [(''event'', JStr ''login''), (''code'', JStr ''0'')])),
     at_subscribe = Some (JsonFrame (JObj [(''event'', JStr ''subscribe'')])), at_now = 0\<rparr>"

definition started :: PrivateWSClient where
  "started = fst (Private_Connect well_answered (NewPrivateWSClient DefaultPrivateWSClientConfig))"

lemma started_connects: "Private_Connect well_answered (NewPrivateWSClient DefaultPrivateWSClientConfig) = (started, None)"
  by code_simp

lemma started_connected [simp]: "pc_connected started"
  by code_simp

lemma started_lastPong [simp]: "pc_lastPong started = 0"
  by code_simp

lemma started_timeout [simp]: "pk_HeartbeatTimeout (pc_config started) = 45 * sec"
  by code_simp

section \<open>The connection is always watched\<close>

definition retrying :: "PrivateWSClient \<Rightarrow> bool" where
  "retrying c \<longleftrightarrow> pc_reconnectCh c \<or> (\<exists>r \<in> set (pc_reconnectors c). r \<noteq> None)"

definition out_of_attempts :: "PrivateWSClient \<Rightarrow> bool" where
  "out_of_attempts c \<longleftrightarrow> pk_MaxReconnectAttempts (pc_config c) < pc_reconnectCount c"

text \<open>There is one reconnect loop; it rests while the client is connected and until it has taken its request.\<close>

definition one_reconnector :: "PrivateWSClient \<Rightarrow> bool" where
  "one_reconnector c \<longleftrightarrow> length (pc_reconnectors c) \<le> 1 \<and> (pc_connected c \<longrightarrow> \<not> retrying c)
     \<and> (pc_reconnectCh c \<longrightarrow> (\<forall>r \<in> set (pc_reconnectors c). r = None))"

lemmas pw_defs = Private_Disconnect_def disconnect_wait_def handleDisconnection_def readLoop_top_def
  readLoop_read_def heartbeat_tick_def next_attempt_def reconnect_take_def reconnect_attempt_def establish_def drop_nth_def
  one_reconnector_def retrying_def out_of_attempts_def Let_def

lemmas pw_splits = if_splits option.splits read_result.splits reader.splits

lemma reconnector_cases [consumes 1, case_names none idle busy]:
  assumes "one_reconnector c"
  obtains (none) "pc_reconnectors c = []" | (idle) "pc_reconnectors c = [None]"
    | (busy) a d where "pc_reconnectors c = [Some (a, d)]" "\<not> pc_reconnectCh c" "\<not> pc_connected c"
  using assms by (cases "pc_reconnectors c"; cases "hd (pc_reconnectors c)") (auto simp: one_reconnector_def retrying_def)

text \<open>What one step after \<open>Connect\<close> does to the connection.\<close>

lemma pw_keeps_one_reconnector:
  assumes "one_reconnector c" and "pw_next inp c = Some (Returned c', fs)" and "\<not> is_connect inp"
  shows "one_reconnector c'"
  using assms by (cases rule: reconnector_cases; cases inp) (auto simp: pw_defs split: pw_splits)

lemma pw_gain:
  assumes "one_reconnector c" and "pw_next inp c = Some (Returned c', fs)" and "\<not> is_connect inp"
    and "\<not> pc_connected c" and "pc_connected c'"
  shows "pc_conn c' \<noteq> None \<and> 0 < pc_heartbeats c'"
  using assms by (cases rule: reconnector_cases; cases inp) (auto simp: pw_defs split: pw_splits)

lemma pw_keep:
  assumes "one_reconnector c" and "pw_next inp c = Some (Returned c', fs)" and "\<not> is_connect inp" and "\<not> pc_done c'"
    and "pc_connected c" and "pc_connected c'" and "pc_conn c \<noteq> None" and "0 < pc_heartbeats c"
  shows "pc_conn c' \<noteq> None \<and> 0 < pc_heartbeats c'"
  using assms by (cases rule: reconnector_cases; cases inp) (auto simp: pw_defs split: pw_splits)

lemma pw_lose:
  assumes "one_reconnector c" and "pw_next inp c = Some (Returned c', fs)" and "\<not> is_connect inp" and "\<not> pc_done c'"
    and "pc_connected c" and "\<not> pc_connected c'"
  shows "retrying c'"
  using assms by (cases rule: reconnector_cases; cases inp) (auto simp: pw_defs split: pw_splits)

lemma pw_retry:
  assumes "one_reconnector c" and "pw_next inp c = Some (Returned c', fs)" and "\<not> is_connect inp" and "\<not> pc_done c'"
    and "\<not> pc_connected c" and "\<not> pc_connected c'" and "retrying c \<or> out_of_attempts c"
  shows "retrying c' \<or> out_of_attempts c'"
  using assms by (cases rule: reconnector_cases; cases inp) (auto simp: pw_defs split: pw_splits)

lemma pw_final: "pw_next inp c = Some (Returned c', fs) \<Longrightarrow> \<not> is_connect inp \<Longrightarrow> pc_done c \<Longrightarrow> pc_done c'"
  by (cases inp) (auto simp: pw_defs split: pw_splits)

interpretation private_ws: reconnecting pw_step one_reconnector pc_connected "\<lambda>c. pc_conn c \<noteq> None"
    "\<lambda>c. 0 < pc_heartbeats c" retrying out_of_attempts pc_done
  by unfold_locales
    (auto simp only: pw_step_def dest: pw_keeps_one_reconnector pw_gain pw_keep pw_lose pw_retry pw_final)

lemma Private_Connect_fresh:
  assumes "Private_Connect ans (NewPrivateWSClient cfg) = (c, None)"
  shows "one_reconnector c \<and> pc_connected c \<and> pc_conn c \<noteq> None \<and> 0 < pc_heartbeats c"
  using assms by (auto simp: Private_Connect_def NewPrivateWSClient_def pw_defs split: pw_splits)

text \<open>C12: From the successful \<open>Connect\<close> on, and until the client is shut down, a private WebSocket client that reports
  to be connected holds a connection and has a heartbeat loop that watches it; a client that does not is about to
  reconnect, or has used up its attempts. No interleaving of readers, heartbeats, reconnections and lost
  connections leads to a connected client that nobody watches, or to a lost connection that nobody dials again.
\<close>

theorem private_connection_watched:
  assumes "Private_Connect ans (NewPrivateWSClient cfg) = (c, None)"
    and "pw_step\<^sup>*\<^sup>* c c'" and "\<not> pc_done c'"
  shows "if pc_connected c' then pc_conn c' \<noteq> None \<and> 0 < pc_heartbeats c' else retrying c' \<or> out_of_attempts c'"
  using Private_Connect_fresh [OF assms(1)] by (intro private_ws.watched [OF assms(2) _ _ _ _ assms(3)]) auto

definition dropped :: "pw_input list" where
  "dropped = [InTop 0, InRead 0 (ReadError False), InTake 0]"

lemma private_connection_watched_witness:
  "(case pw_exec dropped started of Some (c', fs) \<Rightarrow> \<not> pc_connected c' \<and> (retrying c' \<or> out_of_attempts c') | None \<Rightarrow> False)"
proof -
  obtain c' fs where e: "pw_exec dropped started = Some (c', fs)" and d: "\<not> pc_done c'" "\<not> pc_connected c'"
  proof
    show "pw_exec dropped started = Some (fst (the (pw_exec dropped started)), snd (the (pw_exec dropped started)))"
      by code_simp
  qed code_simp+
  have "pw_run started fs c'" by (rule pw_exec_run [OF e]) code_simp
  then have "pw_step\<^sup>*\<^sup>* started c'" by (rule pw_run_steps)
  from private_connection_watched [OF started_connects this d(1)] d(2) e show ?thesis by simp
qed

section \<open>A client that has given up\<close>

definition given_up :: "PrivateWSClient \<Rightarrow> bool" where
  "given_up c \<longleftrightarrow> one_reconnector c \<and> \<not> pc_connected c \<and> pc_conn c = None \<and> \<not> retrying c"

lemma given_up_step:
  assumes "given_up c" and "pw_next inp c = Some (Returned c', fs)" and "\<not> is_connect inp"
  shows "given_up c' \<and> fs = []"
proof -
  have "one_reconnector c" using assms(1) by (simp add: given_up_def)
  then show ?thesis
    using assms by (cases rule: reconnector_cases; cases inp) (auto simp: given_up_def pw_defs split: pw_splits)
qed

lemma given_up_run: "pw_run c fs c' \<Longrightarrow> given_up c \<Longrightarrow> given_up c' \<and> fs = []"
  by (induction rule: pw_run.induct) (auto dest: given_up_step)

text \<open>A private WebSocket client that has used up its reconnection attempts stays silent: whatever happens
  afterwards, it does not become connected again and hands no fill to the callback. Nothing but a new call of
  \<open>Connect\<close>, which the program does not make, ends this state.
\<close>

theorem private_given_up_is_final:
  assumes "given_up c" and "pw_run c fs c'"
  shows "\<not> pc_connected c' \<and> pc_conn c' = None \<and> fs = []"
  using given_up_run [OF assms(2,1)] by (simp add: given_up_def)

definition silent :: "PrivateWSClient" where
  "silent = started\<lparr>pc_connected := False, pc_conn := None, pc_readers := [Handling], pc_reconnectCount := 11\<rparr>"

lemma private_given_up_is_final_witness:
  "(case pw_exec [InHandled 0, InTop 0, InHeartbeat 5 True] silent of
      Some (c', fs) \<Rightarrow> \<not> pc_connected c' \<and> pc_conn c' = None \<and> fs = [] | None \<Rightarrow> False)"
proof -
  let ?inps = "[InHandled 0, InTop 0, InHeartbeat 5 True]"
  obtain c' fs where e: "pw_exec ?inps silent = Some (c', fs)"
  proof
    show "pw_exec ?inps silent = Some (fst (the (pw_exec ?inps silent)), snd (the (pw_exec ?inps silent)))"
      by code_simp
  qed
  have "pw_run silent fs c'" by (rule pw_exec_run [OF e]) code_simp
  moreover have "given_up silent" by code_simp
  ultimately show ?thesis using private_given_up_is_final [of silent fs c'] e by simp
qed

section \<open>Attempts and detection\<close>

fun failed_attempts :: "attempt_answers list \<Rightarrow> PrivateWSClient \<Rightarrow> PrivateWSClient" where
  "failed_attempts [] c = c"
| "failed_attempts (ans # rest) c = failed_attempts rest (reconnect_attempt 0 (pc_reconnectCount c - 1) ans c)"

text \<open>A failed attempt leaves no connection, does not connect, and counts.\<close>

lemma establish_failed:
  assumes "establish ans c = (c1, Some e)" and "pc_conn c = None"
  shows "pc_conn c1 = None \<and> pc_connected c1 = pc_connected c \<and> pc_done c1 = pc_done c \<and> pc_config c1 = pc_config c
    \<and> pc_reconnectCh c1 = pc_reconnectCh c \<and> pc_reconnectCount c1 = pc_reconnectCount c
    \<and> pc_reconnectors c1 = pc_reconnectors c"
  using assms by (auto simp: establish_def Let_def split: if_splits)

text \<open>After as many failures as there are attempts left the loop gives up.\<close>

lemma failures_exhaust:
  assumes "\<And>ans c. ans \<in> set answers \<Longrightarrow> snd (establish ans c) \<noteq> None"
    and "pc_reconnectors c = [Some (a, d)]" and "\<not> pc_connected c" and "pc_conn c = None" and "\<not> pc_reconnectCh c"
    and "\<not> pc_done c" and "pk_MaxReconnectAttempts (pc_config c) = pc_reconnectCount c + int (length answers) - 1"
    and "answers \<noteq> []"
  shows "given_up (failed_attempts answers c)"
  using assms
proof (induction answers arbitrary: c a d)
  case (Cons ans rest)
  obtain c1 e where e: "establish ans c = (c1, Some e)"
    using Cons.prems(1) [of ans c] by (cases "establish ans c") auto
  note f = establish_failed [OF e Cons.prems(4)]
  show ?case
  proof (cases "rest = []")
    case True
    with e f Cons.prems show ?thesis
      by (simp add: reconnect_attempt_def next_attempt_def given_up_def one_reconnector_def retrying_def Let_def)
  next
    case False
    with e f Cons.prems show ?thesis
      by (auto simp: reconnect_attempt_def next_attempt_def Let_def intro!: Cons.IH)
  qed
qed simp

text \<open>The looks of the heartbeat loop at the clock, with no pong in between.\<close>

definition heartbeats :: "(time \<times> bool) list \<Rightarrow> PrivateWSClient \<Rightarrow> PrivateWSClient" where
  "heartbeats ticks c = foldl (\<lambda>c (now, written). heartbeat_tick now written c) c ticks"

lemma heartbeat_tick_disconnected:
  "\<not> pc_connected c \<Longrightarrow> heartbeat_tick now written c = c"
  by (simp add: heartbeat_tick_def)

lemma heartbeats_disconnected: "\<not> pc_connected c \<Longrightarrow> heartbeats ticks c = c"
  by (induction ticks) (auto simp: heartbeats_def heartbeat_tick_disconnected)

text \<open>C38: A connection that has gone silent is noticed. Once the heartbeat loop has looked at the clock later than
  \<open>HeartbeatTimeout\<close> after the last pong, the client no longer reports to be connected, the connection is closed
  and a reconnection is requested, whatever the looks before and after it saw and whether their pings could be written.
\<close>

theorem private_silence_noticed:
  assumes "pc_connected c" and "(now, written) \<in> set ticks"
    and "pc_lastPong c + pk_HeartbeatTimeout (pc_config c) < now"
  shows "\<not> pc_connected (heartbeats ticks c) \<and> pc_conn (heartbeats ticks c) = None \<and> pc_reconnectCh (heartbeats ticks c)"
  using assms
proof (induction ticks arbitrary: c)
  case (Cons t ticks)
  let ?c = "heartbeat_tick (fst t) (snd t) c"
  have run: "heartbeats (t # ticks) c = heartbeats ticks ?c"
    by (simp add: heartbeats_def split_beta)
  show ?case
  proof (cases "pc_connected ?c")
    case True
    then have same: "?c = c"
      using Cons.prems(1) by (auto simp: heartbeat_tick_def handleDisconnection_def split: if_splits)
    have "t \<noteq> (now, written)"
      using True Cons.prems(1,3) by (auto simp: heartbeat_tick_def handleDisconnection_def split: if_splits)
    with Cons same show ?thesis by (simp add: run)
  next
    case False
    with Cons.prems(1) show ?thesis
      by (auto simp: run heartbeats_disconnected heartbeat_tick_def handleDisconnection_def split: if_splits)
  qed
qed simp

lemma private_silence_noticed_witness:
  "\<not> pc_connected (heartbeats [(20 * sec, True), (40 * sec, True), (60 * sec, True)] started)"
  using private_silence_noticed [of started "60 * sec" True "[(20 * sec, True), (40 * sec, True), (60 * sec, True)]"]
  by (auto simp: started_connected started_lastPong started_timeout sec_def)

section \<open>What goes wrong\<close>

text \<open>
  Any reply that is not an error event confirms the subscription, even one that is no JSON; a refused
  login or a rejected subscription does not.
\<close>

lemma unparsable_reply_confirms: "subscribe_ok (Some (TextFrame ''garbage'')) \<and> \<not> authenticate_ok (Some (TextFrame ''garbage''))"
  by code_simp

text \<open>
  A reader that is in the callback when the connection is lost stays alive and reads the next connection
  together with the new reader; the heartbeat loop of a connection that its reader gave up stays too.
\<close>

definition lost_in_callback :: "pw_input list" where
  "lost_in_callback =
     [InTop 0, InRead 0 (ReadMessage (JsonFrame (JObj [])) 1), InHeartbeat (60 * sec) True, InTake 0,
      InAttempt 0 well_answered, InHandled 0, InTop 0, InTop 1]"

lemma two_readers_on_one_connection:
  "map_option (\<lambda>(c, _). (pc_connected c, pc_readers c)) (pw_exec lost_in_callback started) = Some (True, [Reading 1, Reading 1])"
  by code_simp

definition lost_by_reader :: "pw_input list" where
  "lost_by_reader = [InTop 0, InRead 0 (ReadError False), InTake 0, InAttempt 0 well_answered]"

lemma two_heartbeat_loops:
  "map_option (\<lambda>(c, _). (pc_connected c, pc_heartbeats c)) (pw_exec lost_by_reader started) = Some (True, 2)"
  by code_simp

text \<open>
  The \<open>done\<close> channel is never made anew: a client that is shut down and connected again panics at its second
  shutdown. A client that is reconnecting cannot be shut down at all.
\<close>

definition shut_down :: "pw_input list" where
  "shut_down = [InDisconnect, InTop 0, InHeartbeatDone, InReconnectDone 0, InDisconnected, InConnect well_answered]"

lemma second_Disconnect_panics:
  "map_option (\<lambda>(c, _). Private_Disconnect c) (pw_exec shut_down started) = Some Panicked"
  by code_simp

lemma Disconnect_while_reconnecting: "\<not> pc_connected c \<Longrightarrow> Private_Disconnect c = Returned c"
  by (simp add: Private_Disconnect_def)

end
