(* ===== verification/Application.thy ===== *)
theory Application
  imports NetworkGuard Health PrivateWSClient Scheduler OrderManager ExtremeMarket
begin

text \<open>
  The composition root (\<open>application\<close> in \<open>src/cmd/main.go\<close>): construction of the components, the
  start-up sequence in its eleven phases, the callbacks of the emergency stop and of the extreme market
  detector, and the shutdown. What files, exchange and clock answer is the record \<open>startup_env\<close>. The order
  book, time series buffer, parser and dispatcher take no part in what follows and are left out; log
  lines are left out; the alerts are effects. The emergency stop lives in the trading gate.
\<close>

section \<open>State\<close>

datatype client_guard = AutomatedGuard | ProductionGuard

record application =
  ap_cfg :: SystemConfig
  ap_guard :: client_guard
  ap_endpoints :: ResolvedNetworkEndpoints
  ap_gate :: TradingGate
  ap_health :: HealthRegistry
  ap_orderMgr :: OrderManager
  ap_riskMgr :: RiskManagerImpl
  ap_scheduler :: strategies
  ap_inventory :: InventoryTracker
  ap_momentum :: MomentumFilter
  ap_privateWS :: PrivateWSClient
  ap_publicConnected :: bool
  ap_fillHandler :: "GridFillHandler option"
  ap_reconciler :: Reconciler
  ap_rebalancers :: "(string, RebalancerState) gomap"
  ap_loopRunning :: bool
  ap_shutdown :: bool

text \<open>What the program does to the outside; a saved strategy is its id, type and active flag.\<close>

datatype app_effect =
    EfCleanup cleanup_effect
  | EfOrder ExecOrderRequest
  | EfCritical string
  | EfWarning string
  | EfSaveStrategy string string bool
  | EfCloseStore

section \<open>Construction\<close>

datatype store_result = StoreOpened | StoreCorrupted | StoreFailed

datatype init_error =
    PersistenceCorrupted | PersistenceFailed | EndpointResolutionFailed endpoint_error
  | ProductionGuardFailed "profile_issue list" | RestEndpointRejected guard_error

text \<open>The handles of the two callbacks the program registers.\<close>

definition emergency_handler :: nat where "emergency_handler = 0"

definition initial_application :: "SystemConfig \<Rightarrow> ResolvedNetworkEndpoints \<Rightarrow> client_guard \<Rightarrow> application" where
  "initial_application cfg resolved guard =
     \<lparr>ap_cfg = cfg, ap_guard = guard, ap_endpoints = resolved,
      ap_gate = NewTradingGate (Some (RegisterEmergencyCallback emergency_handler
        (NewEmergencyStopManager (Some (sy_RiskLimits cfg))))),
      ap_health = NewHealthRegistry (if sy_Location cfg = [] then ''unknown'' else sy_Location cfg),
      ap_orderMgr = NewOrderManager, ap_riskMgr = NewRiskManager (Some (sy_RiskLimits cfg)), ap_scheduler = [],
      ap_inventory = NewInventoryTracker 50, ap_momentum = NewMomentumFilter 6,
      ap_privateWS = NewPrivateWSClient (DefaultPrivateWSClientConfig\<lparr>pk_URL := re_PrivateWebSocketURL resolved\<rparr>),
      ap_publicConnected = False, ap_fillHandler = None,
      ap_reconciler = Reconciler_SetSymbols (sy_Symbols cfg) NewReconciler,
      ap_rebalancers = [], ap_loopRunning = False, ap_shutdown = False\<rparr>"

definition initializeComponents :: "netlib \<Rightarrow> store_result \<Rightarrow> SystemConfig \<Rightarrow> init_error + application" where
  "initializeComponents N store cfg =
     (case store of
        StoreCorrupted \<Rightarrow> Inl PersistenceCorrupted
      | StoreFailed \<Rightarrow> Inl PersistenceFailed
      | StoreOpened \<Rightarrow>
          (case ResolveNetworkEndpoints (nl_parse N) (Some cfg) of
             Inl e \<Rightarrow> Inl (EndpointResolutionFailed e)
           | Inr resolved \<Rightarrow>
               if sy_ExecutionMode cfg = ExecutionModeProduction then
                 (case NewProductionNetworkGuard (nl_parse N) (Some cfg) of
                    [] \<Rightarrow> (case Production_ValidateEndpoint N (re_RESTBaseURL resolved) of
                        Some e \<Rightarrow> Inl (RestEndpointRejected e)
                      | None \<Rightarrow> Inr (initial_application cfg resolved ProductionGuard))
                  | issues \<Rightarrow> Inl (ProductionGuardFailed issues))
               else Inr (initial_application cfg resolved AutomatedGuard)))"

section \<open>Persisted state\<close>

text \<open>The results of the three loads; \<open>None\<close> is a failed load.\<close>

record persisted =
  pe_orders :: "Order list option"
  pe_positions :: "Position list option"
  pe_strategyStates :: bool

datatype load_state_error = LoadOrdersFailed | LoadPositionsFailed | LoadStrategyStatesFailed

definition app_isTerminalStatus :: "OrderStatus \<Rightarrow> bool" where
  "app_isTerminalStatus s \<longleftrightarrow> OrderStatus_String s \<in> {''FILLED'', ''CANCELLED'', ''REJECTED'', ''EXPIRED'', ''ERROR''}"

definition restore_order :: "OrderManager \<Rightarrow> Order \<Rightarrow> OrderManager" where
  "restore_order om ord = (if app_isTerminalStatus (o_Status ord) then om else fst (AddOrder (Some ord) om))"

definition loadPersistedState :: "persisted \<Rightarrow> application \<Rightarrow> application \<times> load_state_error option" where
  "loadPersistedState p app =
     (case pe_orders p of
        None \<Rightarrow> (app, Some LoadOrdersFailed)
      | Some orders \<Rightarrow>
          let app1 = app\<lparr>ap_orderMgr := foldl restore_order (ap_orderMgr app) orders\<rparr> in
          (case pe_positions p of
             None \<Rightarrow> (app1, Some LoadPositionsFailed)
           | Some positions \<Rightarrow>
               let app2 = app1\<lparr>ap_riskMgr := foldl (\<lambda>rm pos. UpdatePosition (pos_Symbol pos) pos rm) (ap_riskMgr app1) positions\<rparr>
               in (app2, if pe_strategyStates p then None else Some LoadStrategyStatesFailed)))"

section \<open>Startup reconciliation\<close>

text \<open>
  The adapter that the reconciler queries the exchange through returns no orders and no positions when
  the request succeeds.
\<close>

definition adapter_QueryOrders :: "bool \<Rightarrow> string \<Rightarrow> Order list option" where
  "adapter_QueryOrders answered symbol = (if answered then Some [] else None)"

definition adapter_QueryPositions :: "bool \<Rightarrow> string \<Rightarrow> Position list option" where
  "adapter_QueryPositions answered symbol = (if answered then Some [] else None)"

text \<open>
  Attempt \<open>n\<close>: whether the two requests are answered, how long the attempt takes and how much longer
  than its two seconds the sleep after it lasts (nanoseconds).
\<close>

record attempts =
  at_orders :: "nat \<Rightarrow> bool"
  at_positions :: "nat \<Rightarrow> bool"
  at_duration :: "nat \<Rightarrow> nat"
  at_oversleep :: "nat \<Rightarrow> nat"

datatype reconcile_failure = ReconcileTimeout | ExchangeUnreachable

definition reconcileTimeout :: duration where
  "reconcileTimeout = 60 * sec"

definition attempt_result :: "attempts \<Rightarrow> nat \<Rightarrow> string \<Rightarrow> time \<Rightarrow> OrderManager \<Rightarrow> OrderManager \<times> reconcile_error option" where
  "attempt_result a n symbol now om =
     Reconcile (adapter_QueryOrders (at_orders a n)) (adapter_QueryPositions (at_positions a n)) symbol now om"

text \<open>The retries for one symbol: the order manager, the next attempt number and the time afterwards.\<close>

function reconcile_symbol ::
  "attempts \<Rightarrow> time \<Rightarrow> string \<Rightarrow> nat \<Rightarrow> time \<Rightarrow> OrderManager \<Rightarrow> OrderManager \<times> nat \<times> time \<times> reconcile_failure option" where
  "reconcile_symbol a start symbol n now om =
     (if start + reconcileTimeout \<le> now then (om, n, now, Some ReconcileTimeout)
      else case attempt_result a n symbol now om of
        (om1, None) \<Rightarrow> (om1, Suc n, now + int (at_duration a n), None)
      | (om1, Some _) \<Rightarrow>
          if reconcileTimeout < now + int (at_duration a n) - start
          then (om1, Suc n, now + int (at_duration a n), Some ExchangeUnreachable)
          else reconcile_symbol a start symbol (Suc n)
                 (now + int (at_duration a n) + 2 * sec + int (at_oversleep a n)) om1)"
  by pat_completeness auto
termination
  by (relation "measure (\<lambda>(a, start, symbol, n, now, om). nat (start + reconcileTimeout - now))")
    (auto simp: sec_def)

declare reconcile_symbol.simps [simp del]

fun reconcile_symbols ::
  "attempts \<Rightarrow> time \<Rightarrow> string list \<Rightarrow> nat \<Rightarrow> time \<Rightarrow> OrderManager \<Rightarrow> OrderManager \<times> nat \<times> time \<times> reconcile_failure option" where
  "reconcile_symbols a start [] n now om = (om, n, now, None)"
| "reconcile_symbols a start (s # ss) n now om =
     (case reconcile_symbol a start s n now om of
        (om1, n1, now1, Some e) \<Rightarrow> (om1, n1, now1, Some e)
      | (om1, n1, now1, None) \<Rightarrow> reconcile_symbols a start ss n1 now1 om1)"

definition reconcileWithTimeout ::
  "attempts \<Rightarrow> time \<Rightarrow> string list \<Rightarrow> OrderManager \<Rightarrow> OrderManager \<times> nat \<times> time \<times> reconcile_failure option" where
  "reconcileWithTimeout a start symbols om = reconcile_symbols a start symbols 0 start om"

section \<open>Phases of the start\<close>

datatype startup_error =
    MeanReversionForbidden | StateDirInvalid | StateDirNotWritable | LoadStateFailed load_state_error
  | PrivateConnectFailed connect_error | ReconcileFailed reconcile_failure | PublicConnectFailed

type_synonym phase_result = "(application \<times> app_effect list \<times> startup_error option) outcome"

text \<open>
  What the environment answers. The listings of the two cleanups and the answers for balances may differ.
  Rounding, parsing and float powers are the parameters of the grid theories.
\<close>

record 'f startup_env =
  se_lib :: declib
  se_floats :: "'f floatlib"
  se_parse :: decparse
  se_now :: time
  se_stateDirValid :: "string \<Rightarrow> bool"
  se_stateDirWritable :: "string \<Rightarrow> bool"
  se_persisted :: persisted
  se_private :: attempt_answers
  se_attempts :: attempts
  se_listed :: "nat \<Rightarrow> string \<Rightarrow> ExchangeOrderInfo list option"
  se_cancelOk :: "string \<Rightarrow> ExchangeOrderInfo \<Rightarrow> bool"
  se_send :: "http_request \<Rightarrow> http_result"
  se_holdingTicker :: "string \<Rightarrow> TickerObservation option"
  se_publicConnects :: bool
  se_gridSend :: "http_request \<Rightarrow> http_result"
  se_prices :: price_source

definition proceed :: "application \<Rightarrow> phase_result" where
  "proceed app = Returned (app, [], None)"

definition fail_startup :: "application \<Rightarrow> app_effect list \<Rightarrow> startup_error \<Rightarrow> phase_result" where
  "fail_startup app effects e = Returned (app, effects, Some e)"

definition bind_phase :: "phase_result \<Rightarrow> (application \<Rightarrow> phase_result) \<Rightarrow> phase_result" where
  "bind_phase r f =
     (case r of
        Panicked \<Rightarrow> Panicked
      | Returned (app, es, Some e) \<Rightarrow> Returned (app, es, Some e)
      | Returned (app, es, None) \<Rightarrow>
          (case f app of Panicked \<Rightarrow> Panicked | Returned (app1, es1, r1) \<Rightarrow> Returned (app1, es @ es1, r1)))"

text \<open>Phases 1 and 2. The directory is the path without its last thirteen characters; a shorter path panics.\<close>

definition state_dir :: "string \<Rightarrow> string outcome" where
  "state_dir path = (if length path < length ''/hft_state.db'' then Panicked
     else Returned (take (length path - length ''/hft_state.db'') path))"

definition persistence_stop :: "time \<Rightarrow> string \<Rightarrow> application \<Rightarrow> application" where
  "persistence_stop now details app =
     app\<lparr>ap_health := SetStateDirectoryWritable False (ap_health app),
         ap_gate := EnterGlobalSafeStop now ReasonPersistenceFailure details (ap_gate app)\<rparr>"

definition check_state_dir :: "'f startup_env \<Rightarrow> application \<Rightarrow> phase_result" where
  "check_state_dir env app =
     (let path = sy_PersistencePath (ap_cfg app) in
      if path = [] \<or> path = ''data/hft_state.db'' then proceed app
      else case state_dir path of
        Panicked \<Rightarrow> Panicked
      | Returned dir \<Rightarrow>
          if dir = [] then proceed app
          else if \<not> se_stateDirValid env dir
          then fail_startup (persistence_stop (se_now env) ''state directory validation failed'' app) [] StateDirInvalid
          else if \<not> se_stateDirWritable env dir
          then fail_startup (persistence_stop (se_now env) ''state directory writable probe failed'' app) [] StateDirNotWritable
          else proceed app)"

definition phase_state :: "'f startup_env \<Rightarrow> application \<Rightarrow> phase_result" where
  "phase_state env app =
     (if sy_MeanReversionConfigs (ap_cfg app) \<noteq> [] then fail_startup app [] MeanReversionForbidden
      else bind_phase (check_state_dir env app) (\<lambda>app1.
        case loadPersistedState (se_persisted env)
            (app1\<lparr>ap_health := SetStateDirectoryWritable True (ap_health app1)\<rparr>) of
          (app2, Some e) \<Rightarrow> fail_startup app2 [] (LoadStateFailed e)
        | (app2, None) \<Rightarrow> proceed app2))"

text \<open>Phases 3 to 5: neither the metrics server nor the instrument rules can stop the start.\<close>

definition set_symbols :: "HealthState \<Rightarrow> string list \<Rightarrow> HealthRegistry \<Rightarrow> HealthRegistry" where
  "set_symbols st symbols h = foldl (\<lambda>h s. SetSymbolState s st [] h) h symbols"

definition phase_gates :: "'f startup_env \<Rightarrow> application \<Rightarrow> phase_result" where
  "phase_gates env app = proceed (app\<lparr>
     ap_gate := EnterGlobalSafeStop (se_now env) ReasonPrivateWSUncertain ''startup: Private_WS not yet authenticated'' (ap_gate app),
     ap_health := set_symbols HealthStateDegraded (sy_Symbols (ap_cfg app))
       (SetPrivateWSState ''connecting'' zero_time 0 False (ap_health app))\<rparr>)"

definition phase_private :: "'f startup_env \<Rightarrow> application \<Rightarrow> phase_result" where
  "phase_private env app =
     (case Private_Connect (se_private env) (ap_privateWS app) of
        (c, Some e) \<Rightarrow>
          fail_startup (app\<lparr>ap_privateWS := c, ap_health := SetPrivateWSState ''disconnected'' zero_time 0 False (ap_health app)\<rparr>)
            [EfCritical ''Private WebSocket connection failed''] (PrivateConnectFailed e)
      | (c, None) \<Rightarrow>
          proceed (app\<lparr>ap_privateWS := c, ap_health := SetPrivateWSState ''ready'' (se_now env) 0 True (ap_health app),
            ap_gate := fst (ClearGlobalReason ReasonPrivateWSUncertain False (ap_gate app))\<rparr>))"

text \<open>Phase 7; a timeout sends an alert of its own before the common one.\<close>

definition phase_reconcile :: "'f startup_env \<Rightarrow> application \<Rightarrow> phase_result" where
  "phase_reconcile env app =
     (case reconcileWithTimeout (se_attempts env) (se_now env) (sy_Symbols (ap_cfg app)) (ap_orderMgr app) of
        (om, _, _, Some e) \<Rightarrow>
          fail_startup (app\<lparr>ap_orderMgr := om\<rparr>)
            [EfCritical (if e = ReconcileTimeout then ''Reconciliation timeout: exchange unreachable for 60+ seconds''
               else ''Exchange unreachable during reconciliation for >60s''),
             EfCritical ''Startup reconciliation failed''] (ReconcileFailed e)
      | (om, _, finished, None) \<Rightarrow>
          proceed (app\<lparr>ap_orderMgr := om, ap_health := SetReconciliationSuccess finished (ap_health app)\<rparr>))"

definition cleanup :: "'f startup_env \<Rightarrow> nat \<Rightarrow> application \<Rightarrow> app_effect list" where
  "cleanup env k app =
     map EfCleanup (ownershipSafeCleanup True (se_listed env k) (\<lambda>_. None) (se_cancelOk env) (sy_GridConfigs (ap_cfg app)))"

definition phase_cleanup :: "'f startup_env \<Rightarrow> application \<Rightarrow> phase_result" where
  "phase_cleanup env app = Returned (app\<lparr>ap_inventory := loadExistingPositions (se_parse env) (se_send env)
      (se_holdingTicker env) (se_now env) (sy_GridConfigs (ap_cfg app)) (ap_inventory app)\<rparr>, cleanup env 0 app, None)"

definition phase_public :: "'f startup_env \<Rightarrow> application \<Rightarrow> phase_result" where
  "phase_public env app =
     (if se_publicConnects env then proceed (app\<lparr>ap_publicConnected := True\<rparr>)
      else fail_startup app [] PublicConnectFailed)"

definition all_healthy :: SharedDependencyHealth where
  "all_healthy = \<lparr>sh_PersistenceHealthy = True, sh_PrivateWSHealthy = True, sh_AccountReconcileHealthy = True,
     sh_PortfolioRiskHealthy = True\<rparr>"

definition phase_ready :: "'f startup_env \<Rightarrow> application \<Rightarrow> phase_result" where
  "phase_ready env app = proceed (app\<lparr>
     ap_health := set_symbols HealthStateHealthy (sy_Symbols (ap_cfg app)) (ap_health app),
     ap_gate := UpdateSharedHealth (se_now env) all_healthy
       (foldl (\<lambda>g s. MarkReconciled s 1 g) (ap_gate app) (sy_Symbols (ap_cfg app)))\<rparr>)"

text \<open>Phase 11. A strategy refers to its configuration in the application, which the placement changes.\<close>

definition strategy_id :: "GridConfig \<Rightarrow> nat \<Rightarrow> string" where
  "strategy_id cfg i = ''grid_'' @ gc_Symbol cfg @ ''_'' @ fmt_d (int i)"

fun startStrategies :: "declib \<Rightarrow> time \<Rightarrow> nat \<Rightarrow> GridConfig list \<Rightarrow> strategies \<Rightarrow> strategies outcome" where
  "startStrategies L now i [] ss = Returned ss"
| "startStrategies L now i (cfg # cfgs) ss =
     (let sid = strategy_id cfg i in
      case LoadStrategy L now \<lparr>sc_StrategyID = sid, sc_Type = ''grid'', sc_Grid = Some cfg, sc_MeanReversion = None\<rparr> ss of
        Panicked \<Rightarrow> Panicked
      | Returned (ss1, Some _) \<Rightarrow> startStrategies L now (Suc i) cfgs ss1
      | Returned (ss1, None) \<Rightarrow> startStrategies L now (Suc i) cfgs (fst (StartStrategy now sid ss1)))"

definition share_grid :: "GridConfig \<Rightarrow> StrategyInstance \<Rightarrow> StrategyInstance" where
  "share_grid cfg inst = inst\<lparr>si_Config := (si_Config inst)\<lparr>sc_Grid := Some cfg\<rparr>,
     si_DriftEngine := map_option (\<lambda>e. e\<lparr>ge_config := cfg\<rparr>) (si_DriftEngine inst)\<rparr>"

definition share_grids :: "GridConfig list \<Rightarrow> strategies \<Rightarrow> strategies" where
  "share_grids cfgs ss = map (\<lambda>(sid, inst). (sid,
     case find (\<lambda>(i, cfg). strategy_id cfg i = sid) (enumerate 0 cfgs) of
       None \<Rightarrow> inst | Some (_, cfg) \<Rightarrow> share_grid cfg inst)) ss"

definition phase_grid :: "'f startup_env \<Rightarrow> application \<Rightarrow> phase_result" where
  "phase_grid env app =
     (let cfg = ap_cfg app in
      if \<not> sy_TradingEnabled cfg then proceed app
      else case startStrategies (se_lib env) (se_now env) 0 (sy_GridConfigs cfg) (ap_scheduler app) of
        Panicked \<Rightarrow> Panicked
      | Returned ss \<Rightarrow>
          (case placeInitialGridOrders (se_lib env) (se_floats env) (sy_AdaptiveRange cfg) (se_prices env)
              (getAvailableBalance (se_parse env) (se_gridSend env)) (ap_gate app) (sy_TDMode cfg) (sy_GridConfigs cfg) of
             Panicked \<Rightarrow> Panicked
           | Returned (cfgs, requests) \<Rightarrow>
               Returned (app\<lparr>ap_cfg := cfg\<lparr>sy_GridConfigs := cfgs\<rparr>, ap_scheduler := share_grids cfgs ss\<rparr>,
                 cleanup env 1 app @ map EfOrder requests, None)))"

text \<open>What runs in the background afterwards.\<close>

fun handler_levels ::
  "declib \<Rightarrow> 'f floatlib \<Rightarrow> GridConfig list \<Rightarrow> (string \<rightharpoonup> decimal list) \<Rightarrow> (string \<rightharpoonup> decimal list) outcome" where
  "handler_levels L F [] m = Returned m"
| "handler_levels L F (cfg # cfgs) m =
     (if gc_UpperPrice cfg = 0 \<or> gc_LowerPrice cfg = 0 then handler_levels L F cfgs m
      else case CalculateGridLevels L F cfg of
        Panicked \<Rightarrow> Panicked
      | Returned (Inl _) \<Rightarrow> handler_levels L F cfgs m
      | Returned (Inr levels) \<Rightarrow> handler_levels L F cfgs (m(gc_Symbol cfg \<mapsto> levels)))"

definition startPrivateWSFillHandler :: "declib \<Rightarrow> 'f floatlib \<Rightarrow> application \<Rightarrow> application outcome" where
  "startPrivateWSFillHandler L F app =
     (case handler_levels L F (sy_GridConfigs (ap_cfg app)) Map.empty of
        Panicked \<Rightarrow> Panicked
      | Returned levels \<Rightarrow>
          Returned (app\<lparr>ap_fillHandler := Some (NewGridFillHandler (sy_GridConfigs (ap_cfg app)) levels),
            ap_privateWS := (ap_privateWS app)\<lparr>pc_fillCallback := True\<rparr>\<rparr>))"

definition startRebalancers :: "application \<Rightarrow> application" where
  "startRebalancers app =
     (if \<not> sy_TradingEnabled (ap_cfg app) then app
      else app\<lparr>ap_rebalancers := foldl (\<lambda>m cfg. AList.update (gc_Symbol cfg)
          (Rebalancer_Start (NewRebalancer (gc_Symbol cfg) DefaultRebalancerConfig)) m)
        (ap_rebalancers app) (sy_GridConfigs (ap_cfg app))\<rparr>)"

definition phase_background :: "'f startup_env \<Rightarrow> application \<Rightarrow> phase_result" where
  "phase_background env app =
     (case startPrivateWSFillHandler (se_lib env) (se_floats env) app of
        Panicked \<Rightarrow> Panicked
      | Returned app1 \<Rightarrow>
          proceed ((startRebalancers (app1\<lparr>ap_reconciler := Reconciler_Start (ap_reconciler app1)\<rparr>))\<lparr>ap_loopRunning := True\<rparr>))"

definition startup_checks :: "'f startup_env \<Rightarrow> application \<Rightarrow> phase_result" where
  "startup_checks env app =
     bind_phase (bind_phase (bind_phase (bind_phase (phase_state env app) (phase_gates env)) (phase_private env))
       (phase_reconcile env)) (phase_cleanup env)"

definition startup :: "'f startup_env \<Rightarrow> application \<Rightarrow> phase_result" where
  "startup env app =
     bind_phase (bind_phase (bind_phase (bind_phase (startup_checks env app) (phase_public env)) (phase_ready env))
       (phase_grid env)) (phase_background env)"

section \<open>Callbacks and shutdown\<close>

definition handle_emergency ::
  "(string \<Rightarrow> ExchangeOrderInfo list option) \<Rightarrow> (string \<Rightarrow> ExchangeOrderInfo \<Rightarrow> bool) \<Rightarrow> time \<Rightarrow> esm_effect \<Rightarrow> application \<Rightarrow>
    application \<times> app_effect list" where
  "handle_emergency listed cancelOk now call app =
     (case call of
        CancelAllOrders _ \<Rightarrow>
          (app, map EfCleanup (ownershipSafeCleanup True listed (\<lambda>_. None) cancelOk (sy_GridConfigs (ap_cfg app))))
      | StopAllStrategies _ \<Rightarrow> (app\<lparr>ap_scheduler := StopAll now (ap_scheduler app)\<rparr>, [])
      | SendCriticalAlert _ reason \<Rightarrow> (app, [EfCritical (''Emergency Stop Triggered: '' @ reason)]))"

fun handle_emergencies ::
  "(string \<Rightarrow> ExchangeOrderInfo list option) \<Rightarrow> (string \<Rightarrow> ExchangeOrderInfo \<Rightarrow> bool) \<Rightarrow> time \<Rightarrow> esm_effect list \<Rightarrow> application \<Rightarrow>
    application \<times> app_effect list" where
  "handle_emergencies listed cancelOk now [] app = (app, [])"
| "handle_emergencies listed cancelOk now (call # calls) app =
     (case handle_emergency listed cancelOk now call app of
        (app1, es) \<Rightarrow> (case handle_emergencies listed cancelOk now calls app1 of (app2, es2) \<Rightarrow> (app2, es @ es2)))"

definition trigger_emergency ::
  "(string \<Rightarrow> ExchangeOrderInfo list option) \<Rightarrow> (string \<Rightarrow> ExchangeOrderInfo \<Rightarrow> bool) \<Rightarrow> time \<Rightarrow> string \<Rightarrow> application \<Rightarrow>
    application \<times> app_effect list" where
  "trigger_emergency listed cancelOk now reason app =
     (case tg_emergencyStop (ap_gate app) of
        None \<Rightarrow> (app, [])
      | Some esm \<Rightarrow>
          (case EmergencyStop_trigger now reason esm of
             (esm1, calls) \<Rightarrow>
               handle_emergencies listed cancelOk now calls (app\<lparr>ap_gate := (ap_gate app)\<lparr>tg_emergencyStop := Some esm1\<rparr>\<rparr>)))"

definition handle_extreme ::
  "(string \<Rightarrow> ExchangeOrderInfo list option) \<Rightarrow> (string \<Rightarrow> ExchangeOrderInfo \<Rightarrow> bool) \<Rightarrow> emd_effect \<Rightarrow> application \<Rightarrow>
    app_effect list" where
  "handle_extreme listed cancelOk call app =
     (case call of
        CancelGridOrders _ \<Rightarrow>
          map EfCleanup (ownershipSafeCleanup True listed (\<lambda>_. None) cancelOk (sy_GridConfigs (ap_cfg app)))
      | PauseMeanReversion _ \<Rightarrow> []
      | SendAlert _ reason \<Rightarrow> [EfWarning (''Extreme Market Condition: '' @ reason)])"

definition persistFinalState :: "strategies \<Rightarrow> app_effect list" where
  "persistFinalState ss = map (\<lambda>st. EfSaveStrategy (ss_StrategyID st) (ss_Type st) (ss_IsActive st)) (GetActiveStrategies ss)"

text \<open>The private client after its goroutines have ended, if it was told to stop.\<close>

definition joined :: "PrivateWSClient \<Rightarrow> PrivateWSClient" where
  "joined c = (if pc_done c then c\<lparr>pc_readers := [], pc_heartbeats := 0, pc_reconnectors := [], pc_connected := False\<rparr> else c)"

definition gracefulShutdown :: "time \<Rightarrow> application \<Rightarrow> (application \<times> app_effect list) outcome" where
  "gracefulShutdown now app =
     (if ap_shutdown app then Returned (app, [])
      else
        let ss = StopAll now (ap_scheduler app);
            app1 = app\<lparr>ap_shutdown := True, ap_scheduler := ss,
                ap_rebalancers := map (\<lambda>(s, rb). (s, Rebalancer_Stop rb)) (ap_rebalancers app),
                ap_reconciler := Reconciler_Stop (ap_reconciler app)\<rparr>
        in case Private_Disconnect (ap_privateWS app) of
             Panicked \<Rightarrow> Panicked
           | Returned c \<Rightarrow> Returned (app1\<lparr>ap_privateWS := joined c, ap_publicConnected := False\<rparr>,
               persistFinalState ss @ [EfCloseStore]))"

section \<open>Reasoning about phases\<close>

lemma bind_phaseE:
  assumes "bind_phase r f = Returned (app', es, e)"
  obtains (stopped) e1 where "r = Returned (app', es, Some e1)" and "e = Some e1"
    | (continued) app1 es1 es2 where "r = Returned (app1, es1, None)" and "f app1 = Returned (app', es2, e)" and "es = es1 @ es2"
  using assms by (auto simp: bind_phase_def split: outcome.splits prod.splits option.splits)

lemma bind_phase_ok:
  assumes "bind_phase r f = Returned (app', es, None)"
  obtains app1 es1 es2 where "r = Returned (app1, es1, None)" and "f app1 = Returned (app', es2, None)" and "es = es1 @ es2"
  using assms by (cases rule: bind_phaseE) auto

text \<open>A property of the effects that every phase has, the start has.\<close>

lemma bind_phase_effects:
  assumes "bind_phase r f = Returned (app', es, e)"
    and "\<And>a fs e. r = Returned (a, fs, e) \<Longrightarrow> \<forall>x \<in> set fs. P x"
    and "\<And>a a' fs e. f a = Returned (a', fs, e) \<Longrightarrow> \<forall>x \<in> set fs. P x"
  shows "\<forall>x \<in> set es. P x"
  using assms(1) by (cases rule: bind_phaseE) (use assms(2,3) in fastforce)+

lemmas phase_defs = proceed_def fail_startup_def Let_def

lemma loadPersistedState_keeps:
  "loadPersistedState p app = (app', e) \<Longrightarrow> \<exists>om rm. app' = app\<lparr>ap_orderMgr := om, ap_riskMgr := rm\<rparr>"
  by (cases app) (auto simp: loadPersistedState_def Let_def split: option.splits)

lemma check_state_dir_ok: "check_state_dir env app = Returned (app', es, None) \<Longrightarrow> app' = app \<and> es = []"
  by (auto simp: check_state_dir_def phase_defs split: if_splits outcome.splits)

lemma phase_state_ok:
  assumes "phase_state env app = Returned (app', es, None)"
  shows "sy_MeanReversionConfigs (ap_cfg app) = [] \<and> es = [] \<and> loadPersistedState (se_persisted env)
      (app\<lparr>ap_health := SetStateDirectoryWritable True (ap_health app)\<rparr>) = (app', None)"
  using assms by (auto simp: phase_state_def phase_defs split: if_splits prod.splits option.splits
      elim!: bind_phase_ok dest!: check_state_dir_ok)

lemma phase_private_ok:
  assumes "phase_private env app = Returned (app', es, None)"
  obtains c where "Private_Connect (se_private env) (ap_privateWS app) = (c, None)" and "es = []"
    and "app' = app\<lparr>ap_privateWS := c, ap_health := SetPrivateWSState ''ready'' (se_now env) 0 True (ap_health app),
        ap_gate := fst (ClearGlobalReason ReasonPrivateWSUncertain False (ap_gate app))\<rparr>"
  using assms by (auto simp: phase_private_def phase_defs split: prod.splits option.splits)

lemma phase_reconcile_ok:
  assumes "phase_reconcile env app = Returned (app', es, None)"
  obtains om n finished where
    "reconcileWithTimeout (se_attempts env) (se_now env) (sy_Symbols (ap_cfg app)) (ap_orderMgr app) = (om, n, finished, None)"
    and "es = []" and "app' = app\<lparr>ap_orderMgr := om, ap_health := SetReconciliationSuccess finished (ap_health app)\<rparr>"
  using assms by (auto simp: phase_reconcile_def phase_defs split: prod.splits option.splits)

text \<open>Everything the checks establish, in the order of the phases.\<close>

lemma startup_checks_ok:
  assumes "startup_checks env app = Returned (app5, es, None)"
  obtains app1 c om n finished where
    "loadPersistedState (se_persisted env) (app\<lparr>ap_health := SetStateDirectoryWritable True (ap_health app)\<rparr>) = (app1, None)"
    and "Private_Connect (se_private env) (ap_privateWS app) = (c, None)"
    and "reconcileWithTimeout (se_attempts env) (se_now env) (sy_Symbols (ap_cfg app)) (ap_orderMgr app1) = (om, n, finished, None)"
    and "ap_cfg app5 = ap_cfg app" and "ap_orderMgr app5 = om" and "ap_privateWS app5 = c" and "ap_scheduler app5 = ap_scheduler app"
    and "ap_gate app5 = fst (ClearGlobalReason ReasonPrivateWSUncertain False
       (EnterGlobalSafeStop (se_now env) ReasonPrivateWSUncertain ''startup: Private_WS not yet authenticated'' (ap_gate app)))"
    and "ap_health app5 = SetReconciliationSuccess finished (SetPrivateWSState ''ready'' (se_now env) 0 True
       (set_symbols HealthStateDegraded (sy_Symbols (ap_cfg app))
         (SetPrivateWSState ''connecting'' zero_time 0 False (SetStateDirectoryWritable True (ap_health app)))))"
    and "es = cleanup env 0 app"
    and "ap_rebalancers app5 = ap_rebalancers app" and "ap_reconciler app5 = ap_reconciler app"
proof -
  obtain a1 a2 a3 a4 e1 e2 e3 e4 e5 where s: "phase_state env app = Returned (a1, e1, None)"
      "phase_gates env a1 = Returned (a2, e2, None)" "phase_private env a2 = Returned (a3, e3, None)"
      "phase_reconcile env a3 = Returned (a4, e4, None)" "phase_cleanup env a4 = Returned (app5, e5, None)"
      "es = e1 @ e2 @ e3 @ e4 @ e5"
    using assms unfolding startup_checks_def by (elim bind_phase_ok) auto
  note st = phase_state_ok [OF s(1)]
  obtain om' rm where a1: "a1 = app\<lparr>ap_health := SetStateDirectoryWritable True (ap_health app), ap_orderMgr := om', ap_riskMgr := rm\<rparr>"
    using st loadPersistedState_keeps by fastforce
  obtain c where p: "Private_Connect (se_private env) (ap_privateWS a2) = (c, None)" "e3 = []"
      "a3 = a2\<lparr>ap_privateWS := c, ap_health := SetPrivateWSState ''ready'' (se_now env) 0 True (ap_health a2),
        ap_gate := fst (ClearGlobalReason ReasonPrivateWSUncertain False (ap_gate a2))\<rparr>"
    by (rule phase_private_ok [OF s(3)])
  obtain om n fin where r: "reconcileWithTimeout (se_attempts env) (se_now env) (sy_Symbols (ap_cfg a3)) (ap_orderMgr a3) =
      (om, n, fin, None)" "e4 = []"
      "a4 = a3\<lparr>ap_orderMgr := om, ap_health := SetReconciliationSuccess fin (ap_health a3)\<rparr>"
    by (rule phase_reconcile_ok [OF s(4)])
  have a2: "a2 = a1\<lparr>ap_gate := EnterGlobalSafeStop (se_now env) ReasonPrivateWSUncertain
        ''startup: Private_WS not yet authenticated'' (ap_gate a1),
      ap_health := set_symbols HealthStateDegraded (sy_Symbols (ap_cfg a1))
        (SetPrivateWSState ''connecting'' zero_time 0 False (ap_health a1))\<rparr>" and e2: "e2 = []"
    using s(2) by (auto simp: phase_gates_def phase_defs)
  have a5: "ap_cfg app5 = ap_cfg a4 \<and> ap_orderMgr app5 = ap_orderMgr a4 \<and> ap_privateWS app5 = ap_privateWS a4 \<and>
      ap_scheduler app5 = ap_scheduler a4 \<and> ap_gate app5 = ap_gate a4 \<and> ap_health app5 = ap_health a4 \<and>
      ap_rebalancers app5 = ap_rebalancers a4 \<and> ap_reconciler app5 = ap_reconciler a4" "e5 = cleanup env 0 a4"
    using s(5) by (auto simp: phase_cleanup_def)
  show thesis
  proof (rule that [of a1 c om n fin])
    show "loadPersistedState (se_persisted env) (app\<lparr>ap_health := SetStateDirectoryWritable True (ap_health app)\<rparr>) = (a1, None)"
      using st by simp
    show "es = cleanup env 0 app"
      using s(6) st p(2) r(2) e2 a5(2) by (simp add: cleanup_def r(3) p(3) a2 a1)
  qed (use p r a5 in \<open>simp_all add: a2 a1\<close>)
qed

definition ready_gate :: "'f startup_env \<Rightarrow> application \<Rightarrow> TradingGate" where
  "ready_gate env app = UpdateSharedHealth (se_now env) all_healthy
     (foldl (\<lambda>g s. MarkReconciled s 1 g) (ap_gate app) (sy_Symbols (ap_cfg app)))"

text \<open>The later phases, after the checks.\<close>

lemma phase_background_ok:
  assumes "phase_background env app = Returned (app', es, e)"
  shows "e = None \<and> es = [] \<and> ap_cfg app' = ap_cfg app \<and> ap_gate app' = ap_gate app \<and> ap_health app' = ap_health app \<and>
    ap_scheduler app' = ap_scheduler app \<and> ap_orderMgr app' = ap_orderMgr app \<and> ap_loopRunning app' \<and>
    ap_privateWS app' = (ap_privateWS app)\<lparr>pc_fillCallback := True\<rparr>"
  using assms by (auto simp: phase_background_def startPrivateWSFillHandler_def startRebalancers_def phase_defs
      split: outcome.splits if_splits)

lemma phase_public_ok:
  "phase_public env app = Returned (app', es, None) \<Longrightarrow> se_publicConnects env \<and> app' = app\<lparr>ap_publicConnected := True\<rparr> \<and> es = []"
  by (auto simp: phase_public_def phase_defs split: if_splits)

lemma phase_grid_effects:
  assumes "phase_grid env app = Returned (app', es, e)" and "EfOrder r \<in> set es"
  obtains cfgs requests where "sy_TradingEnabled (ap_cfg app)" and "r \<in> set requests"
    and "placeInitialGridOrders (se_lib env) (se_floats env) (sy_AdaptiveRange (ap_cfg app)) (se_prices env)
      (getAvailableBalance (se_parse env) (se_gridSend env)) (ap_gate app) (sy_TDMode (ap_cfg app)) (sy_GridConfigs (ap_cfg app)) =
      Returned (cfgs, requests)"
  using assms by (auto simp: phase_grid_def phase_defs cleanup_def split: if_splits outcome.splits prod.splits)

lemma phase_grid_frame:
  assumes "phase_grid env app = Returned (app', es, e)"
  shows "e = None \<and> ap_gate app' = ap_gate app \<and> ap_health app' = ap_health app \<and> ap_orderMgr app' = ap_orderMgr app \<and>
    ap_privateWS app' = ap_privateWS app"
  using assms by (auto simp: phase_grid_def phase_defs split: if_splits outcome.splits prod.splits)

definition no_order :: "app_effect \<Rightarrow> bool" where
  "no_order x = (case x of EfOrder _ \<Rightarrow> False | _ \<Rightarrow> True)"

lemma no_order_simps [simp]:
  "no_order (EfCleanup c)" "no_order (EfCritical m)" "no_order (EfWarning m)" "\<not> no_order (EfOrder r)"
  by (simp_all add: no_order_def)

lemma startup_checks_no_order:
  assumes "startup_checks env app = Returned (app', es, e)"
  shows "\<forall>x \<in> set es. no_order x"
proof -
  have 1: "\<forall>x \<in> set fs. no_order x" if "phase_state env a = Returned (a', fs, e)" for a a' fs e
    using that by (auto simp: phase_state_def phase_defs check_state_dir_def
        split: if_splits outcome.splits prod.splits option.splits elim!: bind_phaseE)
  have 2: "\<forall>x \<in> set fs. no_order x" if "phase_private env a = Returned (a', fs, e)" for a a' fs e
    using that by (auto simp: phase_private_def phase_defs split: prod.splits option.splits)
  have 3: "\<forall>x \<in> set fs. no_order x" if "phase_reconcile env a = Returned (a', fs, e)" for a a' fs e
    using that by (auto simp: phase_reconcile_def phase_defs split: prod.splits option.splits)
  show ?thesis
    using assms unfolding startup_checks_def
    by (elim bind_phase_effects)
      (auto simp: phase_gates_def phase_cleanup_def phase_defs cleanup_def dest: 1 2 3)
qed

text \<open>Where the start of the grid begins, and what the start has established by then.\<close>

lemma startup_reaches_grid:
  assumes "startup env app = Returned (app', es, e)" and "e = None \<or> (\<exists>r. EfOrder r \<in> set es)"
  obtains app5 app7 app8 es5 es8 where "startup_checks env app = Returned (app5, es5, None)" and "se_publicConnects env"
    and "app7 = app5\<lparr>ap_publicConnected := True,
        ap_health := set_symbols HealthStateHealthy (sy_Symbols (ap_cfg app5)) (ap_health app5),
        ap_gate := ready_gate env app5\<rparr>"
    and "phase_grid env app7 = Returned (app8, es8, None)" and "phase_background env app8 = Returned (app', [], None)"
    and "es = es5 @ es8" and "e = None"
proof -
  let ?checked = "startup_checks env app"
  let ?public = "bind_phase ?checked (phase_public env)"
  let ?ready = "bind_phase ?public (phase_ready env)"
  have ready: "\<exists>a5. ?checked = Returned (a5, fs, None) \<and> se_publicConnects env \<and> a = a5\<lparr>ap_publicConnected := True,
        ap_health := set_symbols HealthStateHealthy (sy_Symbols (ap_cfg a5)) (ap_health a5), ap_gate := ready_gate env a5\<rparr>"
    if "?ready = Returned (a, fs, None)" for a fs
    using that by (elim bind_phase_ok) (auto simp: phase_ready_def phase_defs ready_gate_def dest!: phase_public_ok)
  have clean: "\<forall>x \<in> set fs. no_order x" if "?ready = Returned (a, fs, e1)" for a fs e1
    using that by (elim bind_phase_effects)
      (auto simp: phase_public_def phase_ready_def phase_defs dest!: startup_checks_no_order split: if_splits)
  have "\<exists>a8 fs8 e8. bind_phase ?ready (phase_grid env) = Returned (a8, fs8, e8) \<and>
      (e8 = None \<and> phase_background env a8 = Returned (app', [], None) \<and> fs8 = es \<and> e = None \<or>
       app' = a8 \<and> fs8 = es \<and> e = e8 \<and> e8 \<noteq> None)"
    using assms(1) [unfolded startup_def]
  proof (cases rule: bind_phaseE)
    case (continued a8 fs8 gs)
    then show ?thesis using phase_background_ok [OF continued(2)] by auto
  qed auto
  then obtain a8 fs8 e8 where grid: "bind_phase ?ready (phase_grid env) = Returned (a8, fs8, e8)"
      and rest: "e8 = None \<and> phase_background env a8 = Returned (app', [], None) \<and> fs8 = es \<and> e = None \<or>
        app' = a8 \<and> fs8 = es \<and> e = e8 \<and> e8 \<noteq> None" by blast
  from grid show thesis
  proof (cases rule: bind_phaseE)
    case (stopped e1)
    then have "\<forall>x \<in> set fs8. no_order x" using clean by blast
    with stopped rest assms(2) show thesis by auto
  next
    case (continued a7 fs7 fs)
    from ready [OF continued(1)] obtain a5 where a5: "?checked = Returned (a5, fs7, None)" "se_publicConnects env"
        "a7 = a5\<lparr>ap_publicConnected := True, ap_health := set_symbols HealthStateHealthy (sy_Symbols (ap_cfg a5)) (ap_health a5),
          ap_gate := ready_gate env a5\<rparr>" by blast
    have "e8 = None" using phase_grid_frame [OF continued(2)] by simp
    with continued rest a5 show thesis by (intro that [of a5 fs7 a7 a8 fs]) auto
  qed
qed

section \<open>The start\<close>

lemma fold_reconciled:
  assumes "\<And>s st. map_of (tg_symbolStates g) s = Some st \<Longrightarrow> \<not> sss_Active st"
  shows "(\<forall>s st. map_of (tg_symbolStates (foldl (\<lambda>g s. MarkReconciled s 1 g) g symbols)) s = Some st \<longrightarrow> \<not> sss_Active st) \<and>
    tg_globalReasons (foldl (\<lambda>g s. MarkReconciled s 1 g) g symbols) = tg_globalReasons g \<and>
    tg_emergencyStop (foldl (\<lambda>g s. MarkReconciled s 1 g) g symbols) = tg_emergencyStop g"
  using assms
proof (induction symbols arbitrary: g)
  case (Cons s ss)
  have "\<not> sss_Active st" if "map_of (tg_symbolStates (MarkReconciled s 1 g)) t = Some st" for t st
    using that Cons.prems by (auto simp: MarkReconciled_def getOrCreateSymbolState_def split: if_splits option.splits)
  moreover have "tg_globalReasons (MarkReconciled s 1 g) = tg_globalReasons g"
    "tg_emergencyStop (MarkReconciled s 1 g) = tg_emergencyStop g" by (simp_all add: MarkReconciled_def)
  ultimately show ?case using Cons.IH [of "MarkReconciled s 1 g"] unfolding foldl.simps by metis
qed simp

text \<open>The gate of an application that has just been constructed.\<close>

lemma initial_gate:
  "tg_symbolStates (ap_gate (initial_application cfg r gd)) = []"
  "tg_globalReasons (ap_gate (initial_application cfg r gd)) = []"
  "\<exists>esm. tg_emergencyStop (ap_gate (initial_application cfg r gd)) = Some esm \<and> \<not> IsEmergencyStopActive esm \<and>
     esm_callbacks esm = [emergency_handler]"
  by (simp_all add: initial_application_def NewTradingGate_def RegisterEmergencyCallback_def
      NewEmergencyStopManager_def IsEmergencyStopActive_def)

lemma checked_gate:
  assumes "startup_checks env (initial_application cfg r gd) = Returned (app5, es, None)"
  shows "tg_globalReasons (ap_gate app5) = [] \<and> tg_symbolStates (ap_gate app5) = [] \<and>
    tg_emergencyStop (ap_gate app5) = tg_emergencyStop (ap_gate (initial_application cfg r gd))"
  using assms initial_gate
  by (elim startup_checks_ok) (simp add: ClearGlobalReason_def EnterGlobalSafeStop_def)

lemma Authorize_open:
  assumes "tg_globalReasons g = []" and "\<And>s st. map_of (tg_symbolStates g) s = Some st \<Longrightarrow> \<not> sss_Active st"
    and "tg_emergencyStop g = Some esm" and "\<not> IsEmergencyStopActive esm"
  shows "gd_Allowed (Authorize g symbol cls)"
  using assms by (auto simp: Authorize_def allowed_def Let_def split: option.splits)

lemma ready_gate_open:
  assumes "startup_checks env (initial_application cfg r gd) = Returned (app5, es, None)"
  shows "gd_Allowed (Authorize (ready_gate env app5) symbol cls)"
proof -
  obtain esm where esm: "tg_emergencyStop (ap_gate app5) = Some esm" "\<not> IsEmergencyStopActive esm"
    using checked_gate [OF assms] initial_gate(3) by metis
  have inactive: "\<And>s st. map_of (tg_symbolStates (ap_gate app5)) s = Some st \<Longrightarrow> \<not> sss_Active st"
    using checked_gate [OF assms] by simp
  have f: "\<And>s st. map_of (tg_symbolStates (foldl (\<lambda>g s. MarkReconciled s 1 g) (ap_gate app5) (sy_Symbols (ap_cfg app5)))) s =
        Some st \<Longrightarrow> \<not> sss_Active st"
      "tg_globalReasons (foldl (\<lambda>g s. MarkReconciled s 1 g) (ap_gate app5) (sy_Symbols (ap_cfg app5))) = []"
      "tg_emergencyStop (foldl (\<lambda>g s. MarkReconciled s 1 g) (ap_gate app5) (sy_Symbols (ap_cfg app5))) = Some esm"
    using fold_reconciled [of "ap_gate app5" "sy_Symbols (ap_cfg app5)"] inactive checked_gate [OF assms] esm by auto
  have "tg_globalReasons (ready_gate env app5) = []"
    using f(2) by (simp add: ready_gate_def UpdateSharedHealth_def syncHealthReason_def all_healthy_def Let_def)
  then show ?thesis
    by (rule Authorize_open [where esm = esm]) (use f esm in \<open>auto simp: ready_gate_def\<close>)
qed

text \<open>C4: An order leaves the program during its start only when trading is enabled, the private WebSocket has logged in and
  subscribed, every configured symbol has been reconciled, and the public feed is connected; the order is then one of the
  initial grid and the gate lets its symbol increase risk. In particular a start that fails sends no order.
\<close>

theorem startup_orders_guarded:
  assumes "startup env (initial_application cfg resolved gd) = Returned (app', es, e)" and "EfOrder q \<in> set es"
  shows "e = None \<and> sy_TradingEnabled cfg \<and> se_publicConnects env \<and>
    (\<exists>c. Private_Connect (se_private env) (ap_privateWS (initial_application cfg resolved gd)) = (c, None)) \<and>
    (\<exists>om n t. reconcileWithTimeout (se_attempts env) (se_now env) (sy_Symbols cfg)
       (foldl restore_order [] (the (pe_orders (se_persisted env)))) = (om, n, t, None)) \<and>
    gd_Allowed (Authorize (ap_gate app') (eq_Symbol q) RiskIncreasing) \<and> eq_OrderType q = OrderTypePostOnly \<and>
    eq_Symbol q \<in> gc_Symbol ` set (sy_GridConfigs cfg)"
proof -
  let ?app = "initial_application cfg resolved gd"
  obtain app5 app7 app8 es5 es8 where c: "startup_checks env ?app = Returned (app5, es5, None)" and pub: "se_publicConnects env"
    and app7: "app7 = app5\<lparr>ap_publicConnected := True,
        ap_health := set_symbols HealthStateHealthy (sy_Symbols (ap_cfg app5)) (ap_health app5),
        ap_gate := ready_gate env app5\<rparr>"
    and grid: "phase_grid env app7 = Returned (app8, es8, None)" and bg: "phase_background env app8 = Returned (app', [], None)"
    and es: "es = es5 @ es8" and e: "e = None"
    using startup_reaches_grid [OF assms(1)] assms(2) by metis
  have "EfOrder q \<in> set es8" using assms(2) es startup_checks_no_order [OF c] by auto
  then obtain cfgs requests where on: "sy_TradingEnabled (ap_cfg app7)" and q: "q \<in> set requests"
    and placed: "placeInitialGridOrders (se_lib env) (se_floats env) (sy_AdaptiveRange (ap_cfg app7)) (se_prices env)
      (getAvailableBalance (se_parse env) (se_gridSend env)) (ap_gate app7) (sy_TDMode (ap_cfg app7)) (sy_GridConfigs (ap_cfg app7)) =
      Returned (cfgs, requests)"
    by (rule phase_grid_effects [OF grid])
  have cfg: "ap_cfg app5 = cfg" using c by (rule startup_checks_ok) (simp add: initial_application_def)
  have gate: "ap_gate app' = ap_gate app7" using phase_background_ok [OF bg] phase_grid_frame [OF grid] by simp
  have rec: "\<exists>om n t. reconcileWithTimeout (se_attempts env) (se_now env) (sy_Symbols cfg)
       (foldl restore_order [] (the (pe_orders (se_persisted env)))) = (om, n, t, None)"
    using c
  proof (rule startup_checks_ok)
    fix app1 om n t
    assume "loadPersistedState (se_persisted env) (?app\<lparr>ap_health := SetStateDirectoryWritable True (ap_health ?app)\<rparr>) = (app1, None)"
      and "reconcileWithTimeout (se_attempts env) (se_now env) (sy_Symbols (ap_cfg ?app)) (ap_orderMgr app1) = (om, n, t, None)"
    then show ?thesis
      by (auto simp: initial_application_def loadPersistedState_def NewOrderManager_def Let_def split: option.splits)
  qed
  have "\<exists>c. Private_Connect (se_private env) (ap_privateWS ?app) = (c, None)"
    using c by (rule startup_checks_ok) blast
  moreover have "eq_Symbol q \<in> gc_Symbol ` set (sy_GridConfigs (ap_cfg app7))"
    using initial_grid_guarded [OF placed q] by (metis image_eqI nth_mem)
  ultimately show ?thesis using e on pub rec initial_grid_guarded [OF placed q] cfg gate app7 by auto
qed

lemma bind_phase_error:
  assumes "bind_phase r f = Returned (app', es, Some x)" and "\<And>a a' fs. f a \<noteq> Returned (a', fs, Some x)"
  shows "r = Returned (app', es, Some x)"
  using assms(1) by (cases rule: bind_phaseE) (use assms(2) in auto)

lemma phase_private_error:
  "phase_private env app = Returned (app', es, Some x) \<Longrightarrow> ap_gate app' = ap_gate app"
  by (auto simp: phase_private_def phase_defs split: prod.splits option.splits)

lemma check_state_dir_error: "check_state_dir env app \<noteq> Returned (app', es, Some (PrivateConnectFailed x))"
  by (simp add: check_state_dir_def phase_defs split: outcome.split)

lemma phase_state_error: "phase_state env app \<noteq> Returned (app', es, Some (PrivateConnectFailed x))"
proof
  assume "phase_state env app = Returned (app', es, Some (PrivateConnectFailed x))"
  then have "bind_phase (check_state_dir env app) (\<lambda>app1.
        case loadPersistedState (se_persisted env)
            (app1\<lparr>ap_health := SetStateDirectoryWritable True (ap_health app1)\<rparr>) of
          (app2, Some e) \<Rightarrow> fail_startup app2 [] (LoadStateFailed e)
        | (app2, None) \<Rightarrow> proceed app2) = Returned (app', es, Some (PrivateConnectFailed x))"
    by (simp add: phase_state_def fail_startup_def split: if_splits)
  then show False
    by (cases rule: bind_phaseE) (auto simp: check_state_dir_error phase_defs split: prod.splits option.splits)
qed

text \<open>A failed connection leaves the reason in the gate.\<close>

lemma startup_private_failure:
  assumes "startup env app = Returned (app', es, Some (PrivateConnectFailed x))"
  shows "\<not> gd_Allowed (Authorize (ap_gate app') symbol RiskIncreasing)"
proof -
  have late: "phase_background env a \<noteq> Returned (a', fs, Some (PrivateConnectFailed x))"
      "phase_grid env a \<noteq> Returned (a', fs, Some (PrivateConnectFailed x))"
      "phase_ready env a \<noteq> Returned (a', fs, Some (PrivateConnectFailed x))"
      "phase_public env a \<noteq> Returned (a', fs, Some (PrivateConnectFailed x))"
      "phase_cleanup env a \<noteq> Returned (a', fs, Some (PrivateConnectFailed x))"
      "phase_reconcile env a \<noteq> Returned (a', fs, Some (PrivateConnectFailed x))" for a a' fs
    by (auto simp: phase_background_def phase_grid_def phase_ready_def phase_public_def phase_cleanup_def phase_reconcile_def
        phase_defs split: outcome.splits if_splits prod.splits option.splits)
  have "startup_checks env app = Returned (app', es, Some (PrivateConnectFailed x))"
    using assms late(1-4) unfolding startup_def by (metis (no_types, lifting) bind_phase_error)
  then have "bind_phase (bind_phase (phase_state env app) (phase_gates env)) (phase_private env) =
      Returned (app', es, Some (PrivateConnectFailed x))"
    using late(5,6) unfolding startup_checks_def by (metis (no_types, lifting) bind_phase_error)
  then show ?thesis
  proof (cases rule: bind_phaseE)
    case (stopped e1)
    have "phase_gates env a \<noteq> Returned (a', fs, Some (PrivateConnectFailed x))" for a a' fs
      by (simp add: phase_gates_def proceed_def)
    with stopped have "phase_state env app = Returned (app', es, Some (PrivateConnectFailed x))"
      by (metis (no_types, lifting) bind_phase_error)
    then show ?thesis using phase_state_error by blast
  next
    case (continued a2 es1 es2)
    obtain a1 es0 where "phase_gates env a1 = Returned (a2, es0, None)"
      using continued(1) by (rule bind_phase_ok)
    then have "ap_gate a2 = EnterGlobalSafeStop (se_now env) ReasonPrivateWSUncertain
        ''startup: Private_WS not yet authenticated'' (ap_gate a1)"
      by (auto simp: phase_gates_def phase_defs)
    then have "tg_globalReasons (ap_gate app') \<noteq> []"
      using phase_private_error [OF continued(2)] by (simp add: EnterGlobalSafeStop_def)
    then show ?thesis by (simp add: Authorize_def Let_def split: option.splits)
  qed
qed

text \<open>The gate follows the start. After a complete start it lets every class of operation pass for every symbol; when
  the private WebSocket cannot be connected, the start fails and the gate blocks every operation that increases risk.
\<close>

theorem startup_gate:
  assumes "startup env (initial_application cfg resolved gd) = Returned (app', es, e)"
  shows "(e = None \<longrightarrow> gd_Allowed (Authorize (ap_gate app') symbol cls)) \<and>
    ((\<exists>x. e = Some (PrivateConnectFailed x)) \<longrightarrow> \<not> gd_Allowed (Authorize (ap_gate app') symbol RiskIncreasing))"
proof
  show "e = None \<longrightarrow> gd_Allowed (Authorize (ap_gate app') symbol cls)"
  proof
    assume "e = None"
    with assms obtain app5 app8 es5 es8 where c: "startup_checks env (initial_application cfg resolved gd) = Returned (app5, es5, None)"
      and grid: "phase_grid env (app5\<lparr>ap_publicConnected := True,
          ap_health := set_symbols HealthStateHealthy (sy_Symbols (ap_cfg app5)) (ap_health app5),
          ap_gate := ready_gate env app5\<rparr>) = Returned (app8, es8, None)"
      and bg: "phase_background env app8 = Returned (app', [], None)"
      by (elim startup_reaches_grid) auto
    have "ap_gate app' = ready_gate env app5" using phase_background_ok [OF bg] phase_grid_frame [OF grid] by simp
    with ready_gate_open [OF c] show "gd_Allowed (Authorize (ap_gate app') symbol cls)" by simp
  qed
  show "(\<exists>x. e = Some (PrivateConnectFailed x)) \<longrightarrow> \<not> gd_Allowed (Authorize (ap_gate app') symbol RiskIncreasing)"
    using startup_private_failure assms by blast
qed

section \<open>The reconciliation of the start\<close>

text \<open>The failed attempts among the first \<open>n\<close> are two seconds apart at least.\<close>

lemma reconcile_symbol_time:
  assumes "reconcile_symbol a start s n now om = (om', n', now', e)" and "start \<le> now"
    and "int k * (2 * sec) \<le> now - start" and "k \<le> 30" and "n \<le> k + m"
  shows "\<exists>k'. k' \<le> 30 \<and> n' \<le> k' + Suc m \<and> start \<le> now' \<and> (e = None \<longrightarrow> int k' * (2 * sec) \<le> now' - start)"
  using assms
proof (induction a start s n now om arbitrary: k rule: reconcile_symbol.induct)
  case (1 a start s n now om)
  note r = "1.prems"(1) [unfolded reconcile_symbol.simps [of a start s n now om]]
  show ?case
  proof (cases "start + reconcileTimeout \<le> now")
    case True
    with "1.prems" r show ?thesis by auto
  next
    case early: False
    have k: "k < 30" using "1.prems"(3) early by (simp add: reconcileTimeout_def sec_def)
    obtain om1 res where res: "attempt_result a n s now om = (om1, res)" by (cases "attempt_result a n s now om") auto
    let ?now = "now + int (at_duration a n) + 2 * sec + int (at_oversleep a n)"
    show ?thesis
    proof (cases res)
      case None
      with early res r "1.prems" show ?thesis by (intro exI [of _ k]) auto
    next
      case (Some err)
      show ?thesis
      proof (cases "reconcileTimeout < now + int (at_duration a n) - start")
        case True
        with early res r Some "1.prems" show ?thesis by (intro exI [of _ k]) auto
      next
        case False
        have "reconcile_symbol a start s (Suc n) ?now om1 = (om', n', now', e)"
          using r early res Some False by simp
        moreover have "int (Suc k) * (2 * sec) \<le> ?now - start"
          using "1.prems"(3) by (simp add: algebra_simps)
        moreover have "start \<le> ?now" using "1.prems"(2) by (simp add: sec_def)
        ultimately show ?thesis
          using "1.IH" [of om1 res err "Suc k"] early res [symmetric] Some False k "1.prems"(5) by auto
      qed
    qed
  qed
qed

lemma reconcile_symbols_time:
  assumes "reconcile_symbols a start ss n now om = (om', n', now', e)" and "start \<le> now"
    and "int k * (2 * sec) \<le> now - start" and "k \<le> 30" and "n \<le> k + m"
  shows "n' \<le> 30 + m + length ss"
  using assms
proof (induction ss arbitrary: n now om k m)
  case (Cons s ss)
  obtain om1 n1 now1 e1 where one: "reconcile_symbol a start s n now om = (om1, n1, now1, e1)"
    by (cases "reconcile_symbol a start s n now om") auto
  obtain k' where k': "k' \<le> 30" "n1 \<le> k' + Suc m" "start \<le> now1" "e1 = None \<longrightarrow> int k' * (2 * sec) \<le> now1 - start"
    using reconcile_symbol_time [OF one Cons.prems(2-5)] by blast
  show ?case
  proof (cases e1)
    case None
    then have "reconcile_symbols a start ss n1 now1 om1 = (om', n', now', e)" using Cons.prems(1) one by simp
    from Cons.IH [OF this, of k' "Suc m"] k' None show ?thesis by simp
  next
    case (Some x)
    with Cons.prems(1) one have "n' = n1" by simp
    with k' show ?thesis by simp
  qed
qed simp

text \<open>The reconciliation of the start ends, whatever the exchange answers and however slowly: it makes at most thirty
  attempts more than there are symbols, because every failed one is followed by two seconds of sleep and the whole is
  cut off after sixty.
\<close>

theorem startup_reconciliation_bounded:
  "fst (snd (reconcileWithTimeout a start symbols om)) \<le> 30 + length symbols"
  using reconcile_symbols_time [of a start symbols 0 start om _ _ _ _ 0 0]
  by (cases "reconcileWithTimeout a start symbols om") (auto simp: reconcileWithTimeout_def)

text \<open>What a successful attempt leaves of an order: the adapter reports no open orders.\<close>

lemma attempt_success:
  assumes "attempt_result a n s now om = (om1, None)"
  shows "om1 = reconcileOrders s [] now om"
  using assms by (auto simp: attempt_result_def Reconcile_def adapter_QueryOrders_def adapter_QueryPositions_def split: if_splits)

lemma attempt_failure: "attempt_result a n s now om = (om1, Some e) \<Longrightarrow> om1 = om"
  by (auto simp: attempt_result_def Reconcile_def split: option.splits)

lemma reconcile_symbol_ok:
  "reconcile_symbol a start s n now om = (om', n', now', None) \<Longrightarrow> \<exists>t. om' = reconcileOrders s [] t om"
proof (induction a start s n now om rule: reconcile_symbol.induct)
  case (1 a start s n now om)
  note r = "1.prems"(1) [unfolded reconcile_symbol.simps [of a start s n now om]]
  obtain om1 res where res: "attempt_result a n s now om = (om1, res)" by (cases "attempt_result a n s now om") auto
  show ?case
  proof (cases res)
    case None
    with r res attempt_success [of a n s now om om1] show ?thesis by (auto split: if_splits)
  next
    case (Some err)
    with r res have "\<not> start + reconcileTimeout \<le> now" "\<not> reconcileTimeout < now + int (at_duration a n) - start"
      "reconcile_symbol a start s (Suc n) (now + int (at_duration a n) + 2 * sec + int (at_oversleep a n)) om1 = (om', n', now', None)"
      by (auto split: if_splits)
    with "1.IH" [of om1 res err] res [symmetric] Some attempt_failure [of a n s now om om1 err] show ?thesis by auto
  qed
qed

definition settle :: "string \<Rightarrow> time \<Rightarrow> Order \<Rightarrow> Order" where
  "settle s t ord = (if o_Symbol ord = s \<and> o_ExchangeOrderId ord \<noteq> [] \<and> \<not> isTerminalStatus (o_Status ord)
     then ord\<lparr>o_Status := OrderStatusCancelled, o_UpdateTime := t\<rparr> else ord)"

lemma reconcileOrders_settles: "map_of (reconcileOrders s [] t om) k = map_option (settle s t) (map_of om k)"
proof -
  have "reconcile_order s (exchange_map []) t = settle s t"
    by (auto simp: fun_eq_iff reconcile_order_def exchange_map_def settle_def)
  moreover have "map_of (map (\<lambda>(k, ord). (k, f ord)) om) k = map_option f (map_of om k)" for f :: "Order \<Rightarrow> Order"
    by (induction om) auto
  ultimately show ?thesis by (simp add: reconcileOrders_def)
qed

text \<open>A change of orders that leaves finished ones alone and finishes those of the given symbols.\<close>

definition settled :: "string list \<Rightarrow> (Order \<Rightarrow> Order) \<Rightarrow> bool" where
  "settled ss f \<longleftrightarrow> (\<forall>ord. o_Symbol (f ord) = o_Symbol ord \<and> o_ExchangeOrderId (f ord) = o_ExchangeOrderId ord \<and>
     (isTerminalStatus (o_Status ord) \<longrightarrow> f ord = ord) \<and>
     (f ord \<noteq> ord \<longrightarrow> o_Status (f ord) = OrderStatusCancelled) \<and>
     (o_ExchangeOrderId ord \<noteq> [] \<and> o_Symbol ord \<in> set ss \<longrightarrow> isTerminalStatus (o_Status (f ord))))"

lemma settled_settle: "settled [s] (settle s t)"
  by (auto simp: settled_def settle_def isTerminalStatus_def)

lemma settled_comp:
  assumes "settled ss f" and "settled us g"
  shows "settled (ss @ us) (g \<circ> f)"
  unfolding settled_def
proof (intro allI)
  fix ord
  show "o_Symbol ((g \<circ> f) ord) = o_Symbol ord \<and> o_ExchangeOrderId ((g \<circ> f) ord) = o_ExchangeOrderId ord \<and>
     (isTerminalStatus (o_Status ord) \<longrightarrow> (g \<circ> f) ord = ord) \<and>
     ((g \<circ> f) ord \<noteq> ord \<longrightarrow> o_Status ((g \<circ> f) ord) = OrderStatusCancelled) \<and>
     (o_ExchangeOrderId ord \<noteq> [] \<and> o_Symbol ord \<in> set (ss @ us) \<longrightarrow> isTerminalStatus (o_Status ((g \<circ> f) ord)))"
    using assms(1) [unfolded settled_def, rule_format, of ord] assms(2) [unfolded settled_def, rule_format, of "f ord"]
    by (cases "f ord = ord"; cases "g (f ord) = f ord") (auto simp: isTerminalStatus_def)
qed

lemma reconcile_symbols_settles:
  assumes "reconcile_symbols a start ss n now om = (om', n', now', None)"
  shows "\<exists>f. settled ss f \<and> (\<forall>k. map_of om' k = map_option f (map_of om k))"
  using assms
proof (induction ss arbitrary: n now om)
  case Nil
  then show ?case by (intro exI [of _ id]) (auto simp: settled_def option.map_id id_def [symmetric])
next
  case (Cons s ss)
  then obtain om1 n1 now1 where one: "reconcile_symbol a start s n now om = (om1, n1, now1, None)"
    and rest: "reconcile_symbols a start ss n1 now1 om1 = (om', n', now', None)"
    by (auto split: prod.splits option.splits)
  obtain t where t: "om1 = reconcileOrders s [] t om" using reconcile_symbol_ok [OF one] by blast
  obtain f where f: "settled ss f" "\<forall>k. map_of om' k = map_option f (map_of om1 k)" using Cons.IH [OF rest] by blast
  have "\<forall>k. map_of om' k = map_option (f \<circ> settle s t) (map_of om k)"
    using f(2) by (simp add: t reconcileOrders_settles option.map_comp)
  with settled_comp [OF settled_settle f(1)] show ?case by auto
qed

text \<open>Only pending orders are restored.\<close>

lemma restored_pending:
  "map_of (foldl restore_order om orders) k = Some ord \<Longrightarrow> map_of om k = Some ord \<or> ord \<in> set orders \<and> o_Status ord = OrderStatusPending"
proof (induction orders arbitrary: om)
  case (Cons x xs)
  then have "map_of (restore_order om x) k = Some ord \<or> ord \<in> set xs \<and> o_Status ord = OrderStatusPending" by simp
  then show ?case by (auto simp: restore_order_def AddOrder_def update_conv' split: if_splits)
qed simp

text \<open>After the checks of a successful start the program believes that none of its persisted orders with an exchange id is
  open: every order it restored for a configured symbol is one that was saved as pending and is now cancelled in the
  program's books, although the exchange was never asked about it, because the adapter drops the orders that the exchange
  lists.
\<close>

theorem startup_forgets_open_orders:
  assumes "startup_checks env (initial_application cfg resolved gd) = Returned (app', es, None)"
    and "map_of (ap_orderMgr app') k = Some ord" and "o_Symbol ord \<in> set (sy_Symbols cfg)" and "o_ExchangeOrderId ord \<noteq> []"
  shows "o_Status ord = OrderStatusCancelled \<and>
    (\<exists>saved \<in> set (the (pe_orders (se_persisted env))). o_Status saved = OrderStatusPending \<and>
       o_ExchangeOrderId saved = o_ExchangeOrderId ord)"
  using assms(1)
proof (rule startup_checks_ok)
  let ?app = "initial_application cfg resolved gd"
  fix app1 om n t
  assume l: "loadPersistedState (se_persisted env) (?app\<lparr>ap_health := SetStateDirectoryWritable True (ap_health ?app)\<rparr>) = (app1, None)"
    and r: "reconcileWithTimeout (se_attempts env) (se_now env) (sy_Symbols (ap_cfg ?app)) (ap_orderMgr app1) = (om, n, t, None)"
    and om: "ap_orderMgr app' = om"
  have om1: "ap_orderMgr app1 = foldl restore_order [] (the (pe_orders (se_persisted env)))"
    using l by (auto simp: initial_application_def loadPersistedState_def NewOrderManager_def Let_def split: option.splits)
  obtain f where f: "settled (sy_Symbols cfg) f" "\<forall>k. map_of om k = map_option f (map_of (ap_orderMgr app1) k)"
    using reconcile_symbols_settles r by (fastforce simp: reconcileWithTimeout_def initial_application_def)
  then obtain x where x: "map_of (ap_orderMgr app1) k = Some x" "ord = f x" using assms(2) om by auto
  have x2: "x \<in> set (the (pe_orders (se_persisted env)))" "o_Status x = OrderStatusPending"
    using restored_pending [of "[]" "the (pe_orders (se_persisted env))" k x] x(1) om1 by auto
  then have "f x \<noteq> x"
    using f(1) [unfolded settled_def, rule_format, of x] assms(3,4) x(2) by (auto simp: isTerminalStatus_def)
  then show ?thesis
    using f(1) [unfolded settled_def, rule_format, of x] x x2 by auto
qed

section \<open>Concrete starts\<close>

definition sample_system :: SystemConfig where
  "sample_system = sample_profile\<lparr>sy_Symbols := [''BTC-USDT''], sy_GridConfigs := [two_levels]\<rparr>"

definition no_answer :: "http_request \<Rightarrow> http_result" where
  "no_answer q = Inl RequestFailed"

definition sample_env :: "rat startup_env" where
  "sample_env = \<lparr>se_lib = exact_lib, se_floats = sample_floats, se_parse = sample_dparse, se_now = 0,
     se_stateDirValid = (\<lambda>_. True), se_stateDirWritable = (\<lambda>_. True),
     se_persisted = \<lparr>pe_orders = Some [], pe_positions = Some [], pe_strategyStates = True\<rparr>,
     se_private = well_answered,
     se_attempts = \<lparr>at_orders = (\<lambda>_. True), at_positions = (\<lambda>_. True), at_duration = (\<lambda>_. 0), at_oversleep = (\<lambda>_. 0)\<rparr>,
     se_listed = (\<lambda>_ _. None), se_cancelOk = (\<lambda>_ _. True), se_send = no_answer, se_holdingTicker = (\<lambda>_. None),
     se_publicConnects = True, se_gridSend = no_answer, se_prices = sample_source\<rparr>"

definition sample_app :: application where
  "sample_app = initial_application sample_system (resolved_endpoints sample_system) ProductionGuard"

lemma sample_start: "(case startup sample_env sample_app of Panicked \<Rightarrow> None
    | Returned (app, es, e) \<Rightarrow> Some (map (\<lambda>x. case x of EfOrder q \<Rightarrow> Some (eq_Symbol q, eq_Side q, eq_Price q) | _ \<Rightarrow> None) es, e,
        hr_reconciliationLastSuccess (ap_health app))) =
  Some ([Some (''BTC-USDT'', SideBuy, 90)], None, 0)"
  by code_simp

lemma sample_start_cases:
  obtains app q where "startup sample_env (initial_application sample_system (resolved_endpoints sample_system) ProductionGuard) =
      Returned (app, [EfOrder q], None)" and "eq_Symbol q = ''BTC-USDT''"
proof (cases "startup sample_env sample_app")
  case (Returned r)
  obtain app es e where r: "r = (app, es, e)" by (cases r)
  show thesis
  proof (rule that [unfolded sample_app_def [symmetric]])
    from sample_start Returned r obtain x where "es = [x]" "e = None"
      "(case x of EfOrder q \<Rightarrow> Some (eq_Symbol q, eq_Side q, eq_Price q) | _ \<Rightarrow> None) = Some (''BTC-USDT'', SideBuy, 90)"
      by (auto simp: map_eq_Cons_conv)
    then obtain q where q: "es = [EfOrder q]" "e = None" "eq_Symbol q = ''BTC-USDT''" by (auto split: app_effect.splits)
    then show "startup sample_env sample_app = Returned (app, [EfOrder (THE q. es = [EfOrder q])], None)"
      using Returned r by simp
    show "eq_Symbol (THE q. es = [EfOrder q]) = ''BTC-USDT''" using q by simp
  qed
qed (use sample_start in simp)

theorem startup_orders_guarded_witness:
  "\<exists>app q. startup sample_env (initial_application sample_system (resolved_endpoints sample_system) ProductionGuard) =
      Returned (app, [EfOrder q], None) \<and> sy_TradingEnabled sample_system \<and>
    gd_Allowed (Authorize (ap_gate app) (eq_Symbol q) RiskIncreasing)"
proof -
  obtain app q where s: "startup sample_env (initial_application sample_system (resolved_endpoints sample_system) ProductionGuard) =
      Returned (app, [EfOrder q], None)" by (rule sample_start_cases)
  from startup_orders_guarded [OF s, of q] s show ?thesis by auto
qed

theorem startup_gate_witness:
  "(\<exists>app es. startup sample_env (initial_application sample_system (resolved_endpoints sample_system) ProductionGuard) =
      Returned (app, es, None) \<and> gd_Allowed (Authorize (ap_gate app) ''BTC-USDT'' RiskIncreasing))"
proof -
  obtain app q where s: "startup sample_env (initial_application sample_system (resolved_endpoints sample_system) ProductionGuard) =
      Returned (app, [EfOrder q], None)" by (rule sample_start_cases)
  from startup_gate [OF s, of "''BTC-USDT''" RiskIncreasing] s show ?thesis by auto
qed

definition saved_order :: Order where
  "saved_order = zero_Order\<lparr>o_OrderId := ''1'', o_Symbol := ''BTC-USDT'', o_ExchangeOrderId := ''77''\<rparr>"

definition env_with_order :: "rat startup_env" where
  "env_with_order = sample_env\<lparr>se_persisted := \<lparr>pe_orders = Some [saved_order], pe_positions = Some [], pe_strategyStates = True\<rparr>\<rparr>"

lemma order_restored: "(case startup_checks env_with_order sample_app of Panicked \<Rightarrow> None
    | Returned (app, es, e) \<Rightarrow> Some (map (\<lambda>(k, ord). (k, o_Symbol ord, o_ExchangeOrderId ord)) (ap_orderMgr app), e)) =
  Some ([(''1'', ''BTC-USDT'', ''77'')], None)"
  by code_simp

theorem startup_forgets_open_orders_witness:
  "\<exists>app es ord. startup_checks env_with_order (initial_application sample_system (resolved_endpoints sample_system) ProductionGuard) =
      Returned (app, es, None) \<and> map_of (ap_orderMgr app) ''1'' = Some ord \<and> o_Status ord = OrderStatusCancelled"
proof -
  obtain app es ord where s: "startup_checks env_with_order sample_app = Returned (app, es, None)"
    and m: "ap_orderMgr app = [(''1'', ord)]" "o_Symbol ord = ''BTC-USDT''" "o_ExchangeOrderId ord = ''77''"
    using order_restored by (auto simp: map_eq_Cons_conv split: outcome.splits prod.splits)
  have "''BTC-USDT'' \<in> set (sy_Symbols sample_system)" by (simp add: sample_system_def)
  then show ?thesis
    using startup_forgets_open_orders [OF s [unfolded sample_app_def], of "''1''" ord] s m
    by (auto simp: sample_app_def)
qed

section \<open>Health after the start\<close>

lemma SetSymbolState_lookup:
  "map_of (hr_symbolStates (SetSymbolState s st rs h)) = (map_of (hr_symbolStates h))(s \<mapsto> \<lparr>sy_State = st, sy_SafeStopReasons = rs\<rparr>)"
  by (simp add: SetSymbolState_def update_conv')

lemma set_symbols_frame [simp]:
  "hr_reconciliationLastSuccess (set_symbols st ss h) = hr_reconciliationLastSuccess h"
  "hr_reconciliationInterval (set_symbols st ss h) = hr_reconciliationInterval h"
  "hr_privateWSState (set_symbols st ss h) = hr_privateWSState h"
  "hr_stateDirectoryWritable (set_symbols st ss h) = hr_stateDirectoryWritable h"
  "hr_safeStopScopes (set_symbols st ss h) = hr_safeStopScopes h"
  by (induction ss arbitrary: h) (simp_all add: set_symbols_def SetSymbolState_def)

lemma initial_health:
  "hr_reconciliationInterval (ap_health (initial_application cfg r gd)) = 30 * sec"
  "hr_safeStopScopes (ap_health (initial_application cfg r gd)) = []"
  "hr_symbolStates (ap_health (initial_application cfg r gd)) = []"
  by (simp_all add: initial_application_def NewHealthRegistry_def sec_def)

lemma set_symbols_lookup:
  "map_of (hr_symbolStates (set_symbols st ss h)) s =
     (if s \<in> set ss then Some \<lparr>sy_State = st, sy_SafeStopReasons = []\<rparr> else map_of (hr_symbolStates h) s)"
  by (induction ss arbitrary: h) (simp_all add: set_symbols_def SetSymbolState_lookup)

lemma set_symbols_wf: "map_wf (hr_symbolStates h) \<Longrightarrow> map_wf (hr_symbolStates (set_symbols st ss h))"
  by (induction ss arbitrary: h) (simp_all add: set_symbols_def SetSymbolState_def)

lemma some_symbol_lookup:
  assumes "map_wf (hr_symbolStates h)"
  shows "some_symbol st h \<longleftrightarrow> (\<exists>s snap. map_of (hr_symbolStates h) s = Some snap \<and> sy_State snap = st)"
  using assms by (force simp: some_symbol_def list_ex_iff map_wf_def)

text \<open>The health output of a complete start. It is healthy until thirty seconds after the reconciliation of the start and
  degraded from then on, for good: the program records no later reconciliation, and neither a lost private WebSocket nor a
  safe stop reaches the registry.
\<close>

theorem health_after_startup:
  assumes "startup env (initial_application cfg resolved gd) = Returned (app', es, None)"
    and "hr_reconciliationLastSuccess (ap_health app') \<noteq> zero_time"
  shows "computeState now (ap_health app') =
    (if now \<le> hr_reconciliationLastSuccess (ap_health app') + 30 * sec then HealthStateHealthy else HealthStateDegraded)"
proof -
  let ?app = "initial_application cfg resolved gd"
  obtain app5 app7 app8 es5 es8 where c: "startup_checks env ?app = Returned (app5, es5, None)"
    and app7: "app7 = app5\<lparr>ap_publicConnected := True,
        ap_health := set_symbols HealthStateHealthy (sy_Symbols (ap_cfg app5)) (ap_health app5),
        ap_gate := ready_gate env app5\<rparr>"
    and grid: "phase_grid env app7 = Returned (app8, es8, None)" and bg: "phase_background env app8 = Returned (app', [], None)"
    using startup_reaches_grid [OF assms(1)] by metis
  let ?h0 = "SetPrivateWSState ''connecting'' zero_time 0 False (SetStateDirectoryWritable True (ap_health ?app))"
  obtain fin where h5: "ap_health app5 = SetReconciliationSuccess fin (SetPrivateWSState ''ready'' (se_now env) 0 True
       (set_symbols HealthStateDegraded (sy_Symbols cfg) ?h0))" and cfg: "ap_cfg app5 = cfg"
    using c by (rule startup_checks_ok) (simp add: initial_application_def)
  let ?h = "set_symbols HealthStateHealthy (sy_Symbols cfg) (ap_health app5)"
  have h: "ap_health app' = ?h"
    using phase_background_ok [OF bg] phase_grid_frame [OF grid] app7 cfg by simp
  note setters = SetReconciliationSuccess_def SetPrivateWSState_def SetStateDirectoryWritable_def
  have "map_wf (hr_symbolStates ?h)"
    by (intro set_symbols_wf) (simp add: h5 setters set_symbols_wf initial_health)
  moreover have "map_of (hr_symbolStates ?h) s = Some snap \<Longrightarrow> sy_State snap = HealthStateHealthy" for s snap
    by (auto simp: set_symbols_lookup h5 setters initial_health split: if_splits)
  ultimately have symbols: "\<not> some_symbol HealthStateDegraded ?h" "\<not> some_symbol HealthStateSafeStopped ?h"
    by (auto simp: some_symbol_lookup)
  have fields: "hr_safeStopScopes ?h = []" "hr_stateDirectoryWritable ?h" "hr_privateWSState ?h = ''ready''"
      "hr_reconciliationInterval ?h = 30 * sec"
    by (simp_all add: h5 setters initial_health)
  show ?thesis
    using assms(2) symbols fields unfolding h by (simp add: computeState_def not_le)
qed

lemma sample_reconciled: "(case startup sample_env sample_app of Panicked \<Rightarrow> None
    | Returned (app, es, e) \<Rightarrow> Some (hr_reconciliationLastSuccess (ap_health app), e)) = Some (0, None)"
  using sample_start by (auto split: outcome.splits prod.splits)

theorem health_after_startup_witness:
  "\<exists>app es. startup sample_env (initial_application sample_system (resolved_endpoints sample_system) ProductionGuard) =
      Returned (app, es, None) \<and> computeState (30 * sec) (ap_health app) = HealthStateHealthy \<and>
    computeState (31 * sec) (ap_health app) = HealthStateDegraded"
proof -
  obtain app es where s: "startup sample_env sample_app = Returned (app, es, None)"
    and t: "hr_reconciliationLastSuccess (ap_health app) = 0"
    using sample_reconciled by (auto split: outcome.splits prod.splits)
  have z: "(0 :: time) \<noteq> zero_time" by (simp add: zero_time_def)
  show ?thesis
    using health_after_startup [OF s [unfolded sample_app_def], of "30 * sec"]
      health_after_startup [OF s [unfolded sample_app_def], of "31 * sec"] s t z
    by (auto simp: sample_app_def sec_def)
qed

section \<open>Emergency stop and shutdown\<close>

lemma StopAll_no_active: "list_all (\<lambda>(_, inst). si_State inst \<noteq> StrategyStateActive) (StopAll now ss)"
  by (auto simp: list_all_iff StopAll_def split: if_splits)



text \<open>
  What the shutdown leaves: no active strategy, no running rebalancer or reconciler. Every strategy is saved, as
  inactive, since they are stopped before they are saved; orders and positions are not saved.
\<close>

lemma gracefulShutdown_stops:
  assumes "gracefulShutdown now app = Returned (app', es)" and "\<not> ap_shutdown app"
  shows "list_all (\<lambda>(_, inst). si_State inst \<noteq> StrategyStateActive) (ap_scheduler app') \<and>
    list_all (\<lambda>(_, rb). \<not> rbs_running rb) (ap_rebalancers app') \<and> \<not> rcl_running (ap_reconciler app') \<and>
    (\<forall>x \<in> set es. x = EfCloseStore \<or> (\<exists>sid ty. x = EfSaveStrategy sid ty False)) \<and>
    gracefulShutdown later app' = Returned (app', [])"
proof -
  have saved: "x \<in> set (persistFinalState (StopAll now ss)) \<Longrightarrow> \<exists>sid ty. x = EfSaveStrategy sid ty False" for x ss
    by (auto simp: persistFinalState_def GetActiveStrategies_def StopAll_def split: if_splits)
  obtain c where c: "app' = app\<lparr>ap_shutdown := True, ap_scheduler := StopAll now (ap_scheduler app),
        ap_rebalancers := map (\<lambda>(s, rb). (s, Rebalancer_Stop rb)) (ap_rebalancers app),
        ap_reconciler := Reconciler_Stop (ap_reconciler app), ap_privateWS := c, ap_publicConnected := False\<rparr>"
    "es = persistFinalState (StopAll now (ap_scheduler app)) @ [EfCloseStore]"
    using assms by (auto simp: gracefulShutdown_def Let_def split: outcome.splits)
  show ?thesis
    using StopAll_no_active saved
    by (auto simp: c gracefulShutdown_def list_all_iff Rebalancer_Stop_def Reconciler_Stop_def split: if_splits)
qed

text \<open>A saved path that is shorter than the file name it is expected to end with stops the program.\<close>

lemma short_state_path_panics:
  assumes "sy_MeanReversionConfigs (ap_cfg app) = []" and "sy_PersistencePath (ap_cfg app) = ''state.db''"
  shows "startup env app = Panicked"
  using assms by (simp add: startup_def startup_checks_def phase_state_def check_state_dir_def state_dir_def bind_phase_def Let_def)

text \<open>The gate is open as soon as the private WebSocket is connected, before anything is reconciled.\<close>

lemma gate_opens_before_reconciliation:
  assumes "bind_phase (bind_phase (phase_state env (initial_application cfg r gd)) (phase_gates env)) (phase_private env) =
      Returned (app', es, None)"
  shows "gd_Allowed (Authorize (ap_gate app') symbol RiskIncreasing)"
proof -
  obtain a1 a2 e1 e2 e3 where s: "phase_state env (initial_application cfg r gd) = Returned (a1, e1, None)"
      "phase_gates env a1 = Returned (a2, e2, None)" "phase_private env a2 = Returned (app', e3, None)"
    using assms by (elim bind_phase_ok) auto
  obtain om rm where a1: "ap_gate a1 = ap_gate (initial_application cfg r gd)"
    using phase_state_ok [OF s(1)] loadPersistedState_keeps by fastforce
  obtain esm where esm: "tg_emergencyStop (ap_gate a1) = Some esm" "\<not> IsEmergencyStopActive esm"
    using initial_gate(3) a1 by metis
  have "ap_gate app' = fst (ClearGlobalReason ReasonPrivateWSUncertain False (ap_gate a2))"
    using s(3) by (rule phase_private_ok) simp
  moreover have "ap_gate a2 = EnterGlobalSafeStop (se_now env) ReasonPrivateWSUncertain
        ''startup: Private_WS not yet authenticated'' (ap_gate a1)"
    using s(2) by (auto simp: phase_gates_def phase_defs)
  ultimately show ?thesis
    using initial_gate(1,2) [of cfg r gd] a1 esm
    by (intro Authorize_open [where esm = esm]) (auto simp: ClearGlobalReason_def EnterGlobalSafeStop_def)
qed

end
