(* ===== verification/Slices.thy ===== *)
theory Slices
  imports Prelude
begin

text \<open>
  Go slices as references into buffers, for code whose behaviour depends on two slices sharing one
  buffer. A slice that starts at the beginning of its buffer is the buffer's address and a length; a
  buffer has cells and a capacity, and the cells beyond a slice's length are visible to longer slices.
  \<open>append\<close> writes in place as long as the capacity allows and copies otherwise; the capacity of a copy
  is up to the runtime (\<open>grow\<close>).
\<close>

datatype slice = NilSlice | Slice nat nat

record 'a buffer =
  bf_cells :: "'a list"
  bf_cap :: nat

type_synonym 'a heap = "'a buffer list"

definition view :: "'a heap \<Rightarrow> slice \<Rightarrow> 'a list" where
  "view h s = (case s of NilSlice \<Rightarrow> [] | Slice b n \<Rightarrow> take n (bf_cells (h ! b)))"

fun slice_len :: "slice \<Rightarrow> nat" where
  "slice_len NilSlice = 0"
| "slice_len (Slice b n) = n"

definition slice_ok :: "'a heap \<Rightarrow> slice \<Rightarrow> bool" where
  "slice_ok h s = (case s of NilSlice \<Rightarrow> True
     | Slice b n \<Rightarrow> b < length h \<and> n \<le> length (bf_cells (h ! b)) \<and> length (bf_cells (h ! b)) \<le> bf_cap (h ! b))"

definition set_cells :: "nat \<Rightarrow> 'a list \<Rightarrow> 'a heap \<Rightarrow> 'a heap" where
  "set_cells b xs h = h[b := (h ! b)\<lparr>bf_cells := xs\<rparr>]"

text \<open>A new buffer for the elements \<open>xs\<close>.\<close>

definition slice_new :: "nat \<Rightarrow> 'a list \<Rightarrow> 'a heap \<Rightarrow> slice \<times> 'a heap" where
  "slice_new cap xs h = (Slice (length h) (length xs), h @ [\<lparr>bf_cells = xs, bf_cap = cap\<rparr>])"

text \<open>\<open>append(s, x)\<close>\<close>

definition slice_append :: "(nat \<Rightarrow> nat) \<Rightarrow> slice \<Rightarrow> 'a \<Rightarrow> 'a heap \<Rightarrow> slice \<times> 'a heap" where
  "slice_append grow s x h =
     (case s of
        NilSlice \<Rightarrow> slice_new (grow 1) [x] h
      | Slice b n \<Rightarrow>
          if n < bf_cap (h ! b)
          then (Slice b (n + 1), set_cells b (take n (bf_cells (h ! b)) @ x # drop (n + 1) (bf_cells (h ! b))) h)
          else slice_new (grow (n + 1)) (view h s @ [x]) h)"

text \<open>\<open>append(s[:i], s[i+1:]...)\<close>: the elements after \<open>i\<close> move down in the same buffer.\<close>

definition slice_remove :: "nat \<Rightarrow> slice \<Rightarrow> 'a heap \<Rightarrow> slice \<times> 'a heap" where
  "slice_remove i s h =
     (case s of
        NilSlice \<Rightarrow> (s, h)
      | Slice b n \<Rightarrow> (Slice b (n - 1),
          set_cells b (let xs = bf_cells (h ! b) in take i xs @ drop (i + 1) (take n xs) @ drop (n - 1) xs) h))"

definition drop_at :: "nat \<Rightarrow> 'a list \<Rightarrow> 'a list" where
  "drop_at i xs = take i xs @ drop (i + 1) xs"

text \<open>What each operation does to the slice it is applied to, and to slices of other buffers.\<close>

lemma view_Nil [simp]: "view h NilSlice = []" "slice_ok h NilSlice"
  by (simp_all add: view_def slice_ok_def)

lemma slice_ok_buffer: "slice_ok h (Slice b n) \<Longrightarrow> b < length h"
  by (simp add: slice_ok_def)

lemma length_view: "slice_ok h s \<Longrightarrow> length (view h s) = slice_len s"
  by (cases s) (simp_all add: view_def slice_ok_def)

lemma slice_new_view:
  assumes "slice_new cap xs h = (s, h')"
  shows "view h' s = xs" and "length xs \<le> cap \<Longrightarrow> slice_ok h' s" and "slice_ok h t \<Longrightarrow> slice_ok h' t \<and> view h' t = view h t"
    and "slice_ok h t \<Longrightarrow> t \<noteq> NilSlice \<Longrightarrow> \<exists>b n c m. s = Slice b n \<and> t = Slice c m \<and> b \<noteq> c"
  using assms by (auto simp: slice_new_def view_def slice_ok_def nth_append split: slice.splits)

lemma slice_append_view:
  assumes "slice_append grow s x h = (s', h')" and "slice_ok h s" and "\<And>n. n \<le> grow n"
  shows "view h' s' = view h s @ [x]" and "slice_ok h' s'"
proof -
  show "view h' s' = view h s @ [x]"
    using assms
    by (auto simp: slice_append_def slice_new_def slice_ok_def view_def set_cells_def nth_append min_absorb1 Let_def
        split: slice.splits if_splits)
  show "slice_ok h' s'"
    using assms(1,2) assms(3) [of "slice_len s + 1"] assms(3) [of 1]
    by (auto simp: slice_append_def slice_new_def slice_ok_def view_def set_cells_def nth_append
        split: slice.splits if_splits)
qed

text \<open>An append does not change what a slice sees that is not longer than the one appended to.\<close>

lemma slice_append_frame:
  assumes "slice_append grow s x h = (s', h')" and "slice_ok h s" and "slice_ok h t"
    and "\<And>b n m. s = Slice b n \<Longrightarrow> t = Slice b m \<Longrightarrow> m \<le> n"
  shows "slice_ok h' t \<and> view h' t = view h t"
proof (cases t)
  case (Slice c m)
  show ?thesis
  proof (cases "\<exists>n. s = Slice c n \<and> n < bf_cap (h ! c)")
    case True
    then obtain n where s: "s = Slice c n" "n < bf_cap (h ! c)" by blast
    have "m \<le> n" using assms(4) [OF s(1) Slice] .
    then show ?thesis
      using assms(1-3) s by (auto simp: slice_append_def slice_ok_def view_def set_cells_def Slice min_absorb1)
  next
    case False
    show ?thesis
    proof (cases "\<exists>b n. s = Slice b n \<and> n < bf_cap (h ! b)")
      case True
      then obtain b n where s: "s = Slice b n" "n < bf_cap (h ! b)" by blast
      with False have "b \<noteq> c" by auto
      with assms(1,3) s show ?thesis by (auto simp: slice_append_def slice_ok_def view_def set_cells_def Slice)
    next
      case False
      with assms(1,3) show ?thesis
        by (auto simp: slice_append_def slice_new_def slice_ok_def view_def Slice nth_append split: slice.splits if_splits)
    qed
  qed
qed simp

lemma slice_append_buffer:
  "slice_append grow s x h = (s', h') \<Longrightarrow>
    \<exists>b n. s' = Slice b n \<and> (b = length h \<or> (\<exists>m. s = Slice b m \<and> n = m + 1))"
  by (auto simp: slice_append_def slice_new_def split: slice.splits if_splits)

lemma slice_append_own:
  "slice_append grow s x h = (s', h') \<Longrightarrow>
    \<exists>b n. s' = Slice b n \<and> (b = length h \<or> (\<exists>m. s = Slice b m \<and> m < bf_cap (h ! b)))"
  by (auto simp: slice_append_def slice_new_def split: slice.splits if_splits)

lemma slice_append_caps:
  assumes "slice_append grow s x h = (s', h')"
  shows "length h \<le> length h'" and "c < length h \<Longrightarrow> bf_cap (h' ! c) = bf_cap (h ! c)"
proof -
  have "bf_cap (h[b := (h ! b)\<lparr>bf_cells := xs\<rparr>] ! c) = bf_cap (h ! c)" if "c < length h" for b xs
    using that by (cases "b = c") auto
  with assms show "length h \<le> length h'" and "c < length h \<Longrightarrow> bf_cap (h' ! c) = bf_cap (h ! c)"
    by (auto simp: slice_append_def slice_new_def set_cells_def nth_append split: slice.splits if_splits)
qed

lemma removed_cells:
  assumes "slice_remove i (Slice b n) h = (s', h')" and "slice_ok h (Slice b n)" and "i < n"
  shows "s' = Slice b (n - 1)" and "length (drop_at i (view h (Slice b n))) = n - 1"
    and "h' = set_cells b (drop_at i (view h (Slice b n)) @ drop (n - 1) (bf_cells (h ! b))) h"
  using assms by (auto simp: slice_remove_def slice_ok_def view_def drop_at_def Let_def min_def)

lemma view_set_cells: "b < length h \<Longrightarrow> view (set_cells b xs h) (Slice b n) = take n xs"
  by (simp add: view_def set_cells_def)

lemma slice_remove_view:
  assumes "slice_remove i s h = (s', h')" and "slice_ok h s" and "i < slice_len s"
  shows "view h' s' = drop_at i (view h s)" and "slice_ok h' s'"
proof -
  obtain b n where s: "s = Slice b n" using assms(3) by (cases s) auto
  note r = removed_cells [OF assms(1) [unfolded s] assms(2) [unfolded s]]
  have n: "i < n" "b < length h" using assms(2,3) by (auto simp: s slice_ok_def)
  show "view h' s' = drop_at i (view h s)"
    using r(2) n by (simp add: r(1,3) [OF n(1)] view_set_cells s)
  show "slice_ok h' s'"
    using r(2) n assms(2) by (auto simp: r(1,3) [OF n(1)] set_cells_def slice_ok_def s)
qed

text \<open>A longer slice of the same buffer, such as a copy of the slice taken before the removal, sees the
  elements move: it misses the removed one and sees its last one twice.\<close>

lemma slice_remove_alias:
  assumes "slice_remove i (Slice b n) h = (s', h')" and "slice_ok h (Slice b n)" and "i < n"
  shows "view h' (Slice b n) = drop_at i (view h (Slice b n)) @ [last (view h (Slice b n))]"
proof -
  note r = removed_cells [OF assms]
  have n: "n \<le> length (bf_cells (h ! b))" "b < length h" using assms(2) by (auto simp: slice_ok_def)
  have "take 1 (drop (n - 1) (bf_cells (h ! b))) = [last (view h (Slice b n))]"
    using assms(3) n by (subst last_conv_nth) (auto simp: view_def take_Suc hd_drop_conv_nth min_def)
  then show ?thesis using assms(3) n r(2) by (simp add: r(3) view_set_cells)
qed

lemma slice_remove_frame:
  assumes "slice_remove i (Slice b n) h = (s', h')"
  shows "slice_ok h (Slice c m) \<Longrightarrow> b \<noteq> c \<Longrightarrow> view h' (Slice c m) = view h (Slice c m)"
  using assms by (auto simp: slice_remove_def set_cells_def view_def)

end
