(* ===== verification/Dispatcher.thy ===== *)
theory Dispatcher
  imports Slices Models
begin

text \<open>
  The event dispatcher (\<open>src/internal/marketdata/dispatcher.go\<close>). Its market, fill and order lanes are
  the same code three times, with the event type as the key of the market handlers and no key for the
  others; here they are one \<open>lane\<close>. A lane has the registered handlers, by id, in a slice per key, the
  buffered channel, and the goroutines that deliver. A delivery iterates over a copy of the slice made
  under the lock, without the lock, so its steps interleave with registrations: the handlers live in a
  heap of buffers.
\<close>

section \<open>State\<close>

record 'e worker =
  wk_draining :: bool
  wk_current :: "('e \<times> slice \<times> nat) option"

record ('k, 'e) lane =
  ln_handlers :: "('k, slice) gomap"
  ln_heap :: "nat heap"
  ln_channel :: "('k \<times> 'e) list"
  ln_capacity :: nat
  ln_workers :: "'e worker list"

record Dispatcher =
  ds_market :: "(EventType, MarketEvent) lane"
  ds_fill :: "(unit, FillEvent) lane"
  ds_order :: "(unit, OrderUpdateEvent) lane"
  ds_nextID :: nat
  ds_stopped :: bool

record DispatcherConfig =
  dcf_MarketChannelSize :: int
  dcf_FillChannelSize :: int
  dcf_OrderUpdateChannelSize :: int

definition DefaultDispatcherConfig :: DispatcherConfig where
  "DefaultDispatcherConfig = \<lparr>dcf_MarketChannelSize = 4096, dcf_FillChannelSize = 1024, dcf_OrderUpdateChannelSize = 1024\<rparr>"

definition new_lane :: "nat \<Rightarrow> ('k, 'e) lane" where
  "new_lane n = \<lparr>ln_handlers = [], ln_heap = [], ln_channel = [], ln_capacity = n, ln_workers = []\<rparr>"

definition NewDispatcher :: "DispatcherConfig \<Rightarrow> Dispatcher" where
  "NewDispatcher cfg =
     (let pick = (\<lambda>f. nat (if f cfg \<le> 0 then f DefaultDispatcherConfig else f cfg))
      in \<lparr>ds_market = new_lane (pick dcf_MarketChannelSize), ds_fill = new_lane (pick dcf_FillChannelSize),
          ds_order = new_lane (pick dcf_OrderUpdateChannelSize), ds_nextID = 0, ds_stopped = False\<rparr>)"

section \<open>Operations of a lane\<close>

definition handlers_of :: "('k, 'e) lane \<Rightarrow> 'k \<Rightarrow> slice" where
  "handlers_of la k = (case map_of (ln_handlers la) k of None \<Rightarrow> NilSlice | Some s \<Rightarrow> s)"

definition handler_ids :: "('k, 'e) lane \<Rightarrow> 'k \<Rightarrow> nat list" where
  "handler_ids la k = view (ln_heap la) (handlers_of la k)"

definition put_handlers :: "'k \<Rightarrow> slice \<times> nat heap \<Rightarrow> ('k, 'e) lane \<Rightarrow> ('k, 'e) lane" where
  "put_handlers k r la = la\<lparr>ln_handlers := AList.update k (fst r) (ln_handlers la), ln_heap := snd r\<rparr>"

definition register :: "(nat \<Rightarrow> nat) \<Rightarrow> 'k \<Rightarrow> nat \<Rightarrow> ('k, 'e) lane \<Rightarrow> ('k, 'e) lane" where
  "register grow k hid la = put_handlers k (slice_append grow (handlers_of la k) hid (ln_heap la)) la"

fun index_of :: "nat \<Rightarrow> nat list \<Rightarrow> nat option" where
  "index_of x [] = None"
| "index_of x (y # ys) = (if y = x then Some 0 else map_option Suc (index_of x ys))"

definition unregister :: "'k \<Rightarrow> nat \<Rightarrow> ('k, 'e) lane \<Rightarrow> ('k, 'e) lane" where
  "unregister k hid la =
     (case index_of hid (handler_ids la k) of
        None \<Rightarrow> la
      | Some i \<Rightarrow> put_handlers k (slice_remove i (handlers_of la k) (ln_heap la)) la)"

text \<open>The non-blocking send: the event is queued or dropped.\<close>

definition dispatch :: "'k \<Rightarrow> 'e \<Rightarrow> ('k, 'e) lane \<Rightarrow> ('k, 'e) lane \<times> bool" where
  "dispatch k e la =
     (if length (ln_channel la) < ln_capacity la then (la\<lparr>ln_channel := ln_channel la @ [(k, e)]\<rparr>, True)
      else (la, False))"

definition start_worker :: "('k, 'e) lane \<Rightarrow> ('k, 'e) lane" where
  "start_worker la = la\<lparr>ln_workers := ln_workers la @ [\<lparr>wk_draining = False, wk_current = None\<rparr>]\<rparr>"

definition set_worker :: "nat \<Rightarrow> 'e worker \<Rightarrow> ('k, 'e) lane \<Rightarrow> ('k, 'e) lane" where
  "set_worker i w la = la\<lparr>ln_workers := (ln_workers la)[i := w]\<rparr>"

text \<open>
  A goroutine receives an event and copies the slice of its handlers; it calls them one by one, reading
  the buffer for each; after the last it looks at the channels again. Once it has seen the stop it
  receives until the channel is empty and returns.
\<close>

definition take_event :: "nat \<Rightarrow> ('k, 'e) lane \<Rightarrow> ('k, 'e) lane option" where
  "take_event i la =
     (case ln_channel la of
        [] \<Rightarrow> None
      | (k, e) # rest \<Rightarrow>
          if i < length (ln_workers la) \<and> wk_current (ln_workers la ! i) = None
          then Some (set_worker i ((ln_workers la ! i)\<lparr>wk_current := Some (e, handlers_of la k, 0)\<rparr>) (la\<lparr>ln_channel := rest\<rparr>))
          else None)"

definition call_handler :: "nat \<Rightarrow> ('k, 'e) lane \<Rightarrow> (('k, 'e) lane \<times> (nat \<times> 'e) list) option" where
  "call_handler i la =
     (if i < length (ln_workers la) then
        (case wk_current (ln_workers la ! i) of
           None \<Rightarrow> None
         | Some (e, s, j) \<Rightarrow>
             if j < slice_len s
             then Some (set_worker i ((ln_workers la ! i)\<lparr>wk_current := Some (e, s, j + 1)\<rparr>) la, [(view (ln_heap la) s ! j, e)])
             else Some (set_worker i ((ln_workers la ! i)\<lparr>wk_current := None\<rparr>) la, []))
      else None)"

definition see_stop :: "bool \<Rightarrow> nat \<Rightarrow> ('k, 'e) lane \<Rightarrow> ('k, 'e) lane option" where
  "see_stop stopped i la =
     (if stopped \<and> i < length (ln_workers la) \<and> wk_current (ln_workers la ! i) = None
      then Some (set_worker i ((ln_workers la ! i)\<lparr>wk_draining := True\<rparr>) la) else None)"

definition end_worker :: "nat \<Rightarrow> ('k, 'e) lane \<Rightarrow> ('k, 'e) lane option" where
  "end_worker i la =
     (if i < length (ln_workers la) \<and> wk_draining (ln_workers la ! i) \<and> wk_current (ln_workers la ! i) = None \<and> ln_channel la = []
      then Some (la\<lparr>ln_workers := take i (ln_workers la) @ drop (i + 1) (ln_workers la)\<rparr>) else None)"

section \<open>The dispatcher\<close>

definition Dispatcher_Start :: "Dispatcher \<Rightarrow> Dispatcher" where
  "Dispatcher_Start d = d\<lparr>ds_market := start_worker (ds_market d), ds_fill := start_worker (ds_fill d),
     ds_order := start_worker (ds_order d)\<rparr>"

text \<open>\<open>Stop\<close> closes the stop channel, which panics when it is closed already, and waits for the goroutines.\<close>

definition Dispatcher_Stop :: "Dispatcher \<Rightarrow> Dispatcher outcome" where
  "Dispatcher_Stop d = (if ds_stopped d then Panicked else Returned (d\<lparr>ds_stopped := True\<rparr>))"

definition stop_returns :: "Dispatcher \<Rightarrow> bool" where
  "stop_returns d \<longleftrightarrow> ln_workers (ds_market d) = [] \<and> ln_workers (ds_fill d) = [] \<and> ln_workers (ds_order d) = []"

definition RegisterMarketHandler :: "(nat \<Rightarrow> nat) \<Rightarrow> EventType \<Rightarrow> Dispatcher \<Rightarrow> Dispatcher \<times> nat" where
  "RegisterMarketHandler grow ty d =
     (let hid = ds_nextID d + 1 in (d\<lparr>ds_nextID := hid, ds_market := register grow ty hid (ds_market d)\<rparr>, hid))"

definition RegisterFillHandler :: "(nat \<Rightarrow> nat) \<Rightarrow> Dispatcher \<Rightarrow> Dispatcher \<times> nat" where
  "RegisterFillHandler grow d =
     (let hid = ds_nextID d + 1 in (d\<lparr>ds_nextID := hid, ds_fill := register grow () hid (ds_fill d)\<rparr>, hid))"

definition RegisterOrderUpdateHandler :: "(nat \<Rightarrow> nat) \<Rightarrow> Dispatcher \<Rightarrow> Dispatcher \<times> nat" where
  "RegisterOrderUpdateHandler grow d =
     (let hid = ds_nextID d + 1 in (d\<lparr>ds_nextID := hid, ds_order := register grow () hid (ds_order d)\<rparr>, hid))"

definition UnregisterMarketHandler :: "EventType \<Rightarrow> nat \<Rightarrow> Dispatcher \<Rightarrow> Dispatcher" where
  "UnregisterMarketHandler ty hid d = d\<lparr>ds_market := unregister ty hid (ds_market d)\<rparr>"

definition UnregisterFillHandler :: "nat \<Rightarrow> Dispatcher \<Rightarrow> Dispatcher" where
  "UnregisterFillHandler hid d = d\<lparr>ds_fill := unregister () hid (ds_fill d)\<rparr>"

definition UnregisterOrderUpdateHandler :: "nat \<Rightarrow> Dispatcher \<Rightarrow> Dispatcher" where
  "UnregisterOrderUpdateHandler hid d = d\<lparr>ds_order := unregister () hid (ds_order d)\<rparr>"

definition DispatchMarketEvent :: "EventType \<Rightarrow> MarketEvent \<Rightarrow> Dispatcher \<Rightarrow> Dispatcher \<times> bool" where
  "DispatchMarketEvent ty e d = (case dispatch ty e (ds_market d) of (la, ok) \<Rightarrow> (d\<lparr>ds_market := la\<rparr>, ok))"

definition DispatchFillEvent :: "FillEvent \<Rightarrow> Dispatcher \<Rightarrow> Dispatcher \<times> bool" where
  "DispatchFillEvent e d = (case dispatch () e (ds_fill d) of (la, ok) \<Rightarrow> (d\<lparr>ds_fill := la\<rparr>, ok))"

definition DispatchOrderUpdateEvent :: "OrderUpdateEvent \<Rightarrow> Dispatcher \<Rightarrow> Dispatcher \<times> bool" where
  "DispatchOrderUpdateEvent e d = (case dispatch () e (ds_order d) of (la, ok) \<Rightarrow> (d\<lparr>ds_order := la\<rparr>, ok))"

text \<open>Without interruption the synchronous dispatch calls the handlers in the caller's goroutine.\<close>

definition DispatchMarketEventSync :: "EventType \<Rightarrow> MarketEvent \<Rightarrow> Dispatcher \<Rightarrow> (nat \<times> MarketEvent) list" where
  "DispatchMarketEventSync ty e d = map (\<lambda>h. (h, e)) (handler_ids (ds_market d) ty)"

definition HandlerCount :: "EventType \<Rightarrow> Dispatcher \<Rightarrow> nat" where
  "HandlerCount ty d = slice_len (handlers_of (ds_market d) ty)"

definition FillHandlerCount :: "Dispatcher \<Rightarrow> nat" where
  "FillHandlerCount d = slice_len (handlers_of (ds_fill d) ())"

definition OrderUpdateHandlerCount :: "Dispatcher \<Rightarrow> nat" where
  "OrderUpdateHandlerCount d = slice_len (handlers_of (ds_order d) ())"

section \<open>Runs of a lane\<close>

datatype ('k, 'e) lane_input =
    LiRegister 'k nat | LiUnregister 'k nat | LiDispatch 'k 'e | LiTake nat | LiCall nat | LiSeeStop nat | LiEnd nat

text \<open>One step; the second component is the handler that is called, with the event.\<close>

fun lane_next ::
  "(nat \<Rightarrow> nat) \<Rightarrow> bool \<Rightarrow> ('k, 'e) lane_input \<Rightarrow> ('k, 'e) lane \<Rightarrow> (('k, 'e) lane \<times> (nat \<times> 'e) list) option" where
  "lane_next grow stopped (LiRegister k hid) la = Some (register grow k hid la, [])"
| "lane_next grow stopped (LiUnregister k hid) la = Some (unregister k hid la, [])"
| "lane_next grow stopped (LiDispatch k e) la = Some (fst (dispatch k e la), [])"
| "lane_next grow stopped (LiTake i) la = map_option (\<lambda>la'. (la', [])) (take_event i la)"
| "lane_next grow stopped (LiCall i) la = call_handler i la"
| "lane_next grow stopped (LiSeeStop i) la = map_option (\<lambda>la'. (la', [])) (see_stop stopped i la)"
| "lane_next grow stopped (LiEnd i) la = map_option (\<lambda>la'. (la', [])) (end_worker i la)"

text \<open>
  A run with its logs: the events that were queued, the events that were received with the handlers
  registered at that moment, and the calls of handlers. The stop may happen between any two steps. A run
  is calm when no handler is unregistered while a delivery is under way.
\<close>

definition delivering :: "('k, 'e) lane \<Rightarrow> bool" where
  "delivering la \<longleftrightarrow> (\<exists>w \<in> set (ln_workers la). wk_current w \<noteq> None)"

fun queued_by :: "('k, 'e) lane_input \<Rightarrow> ('k, 'e) lane \<Rightarrow> ('k \<times> 'e) list" where
  "queued_by (LiDispatch k e) la = (if snd (dispatch k e la) then [(k, e)] else [])"
| "queued_by inp la = []"

fun received_by :: "('k, 'e) lane_input \<Rightarrow> ('k, 'e) lane \<Rightarrow> ('k \<times> 'e \<times> nat list) list" where
  "received_by (LiTake i) la = (case ln_channel la of [] \<Rightarrow> [] | (k, e) # _ \<Rightarrow> [(k, e, handler_ids la k)])"
| "received_by inp la = []"

fun calm :: "('k, 'e) lane_input \<Rightarrow> ('k, 'e) lane \<Rightarrow> bool" where
  "calm (LiUnregister k hid) la = (\<not> delivering la)"
| "calm inp la = True"

record ('k, 'e) logs =
  lg_queued :: "('k \<times> 'e) list"
  lg_received :: "('k \<times> 'e \<times> nat list) list"
  lg_calls :: "(nat \<times> 'e) list"

definition no_logs :: "('k, 'e) logs" where
  "no_logs = \<lparr>lg_queued = [], lg_received = [], lg_calls = []\<rparr>"

definition log_step :: "('k, 'e) lane_input \<Rightarrow> ('k, 'e) lane \<Rightarrow> (nat \<times> 'e) list \<Rightarrow> ('k, 'e) logs \<Rightarrow> ('k, 'e) logs" where
  "log_step inp la cs g = \<lparr>lg_queued = lg_queued g @ queued_by inp la, lg_received = lg_received g @ received_by inp la,
     lg_calls = lg_calls g @ cs\<rparr>"

inductive lane_run :: "(nat \<Rightarrow> nat) \<Rightarrow> ('k, 'e) lane \<Rightarrow> ('k, 'e) logs \<Rightarrow> ('k, 'e) lane \<Rightarrow> bool" for grow where
  lane_refl: "lane_run grow la no_logs la"
| lane_step: "lane_run grow la0 g la \<Longrightarrow> lane_next grow stopped inp la = Some (la', cs) \<Longrightarrow> calm inp la \<Longrightarrow>
    lane_run grow la0 (log_step inp la cs g) la'"

text \<open>Its computation along given inputs.\<close>

fun lane_exec ::
  "(nat \<Rightarrow> nat) \<Rightarrow> (bool \<times> ('k, 'e) lane_input) list \<Rightarrow> ('k, 'e) lane \<Rightarrow> ('k, 'e) logs \<Rightarrow>
    (('k, 'e) lane \<times> ('k, 'e) logs) option" where
  "lane_exec grow [] la g = Some (la, g)"
| "lane_exec grow ((stopped, inp) # inps) la g =
     (case lane_next grow stopped inp la of
        None \<Rightarrow> None
      | Some (la1, cs) \<Rightarrow> lane_exec grow inps la1 (log_step inp la cs g))"

fun calm_exec :: "(nat \<Rightarrow> nat) \<Rightarrow> (bool \<times> ('k, 'e) lane_input) list \<Rightarrow> ('k, 'e) lane \<Rightarrow> bool" where
  "calm_exec grow [] la = True"
| "calm_exec grow ((stopped, inp) # inps) la =
     (calm inp la \<and> (case lane_next grow stopped inp la of None \<Rightarrow> True | Some (la1, _) \<Rightarrow> calm_exec grow inps la1))"

lemma lane_exec_run:
  "lane_exec grow inps la g = Some (la', g') \<Longrightarrow> calm_exec grow inps la \<Longrightarrow> lane_run grow la0 g la \<Longrightarrow> lane_run grow la0 g' la'"
proof (induction inps arbitrary: la g)
  case (Cons p inps)
  obtain stopped inp where p: "p = (stopped, inp)" by (cases p)
  with Cons.prems(1) obtain la1 cs where n: "lane_next grow stopped inp la = Some (la1, cs)"
    and r: "lane_exec grow inps la1 (log_step inp la cs g) = Some (la', g')" by (auto split: option.splits)
  with Cons.prems(2) p have "calm inp la" "calm_exec grow inps la1" by auto
  with Cons.IH [OF r] lane_step [OF Cons.prems(3) n] show ?case by blast
qed simp

section \<open>Nothing is lost, repeated or reordered\<close>

definition full_calls :: "('k \<times> 'e \<times> nat list) list \<Rightarrow> (nat \<times> 'e) list" where
  "full_calls received = concat (map (\<lambda>(_, e, hs). map (\<lambda>h. (h, e)) hs) received)"

lemma full_calls_simps [simp]:
  "full_calls [] = []" "full_calls (xs @ ys) = full_calls xs @ full_calls ys"
  "full_calls [(k, e, hs)] = map (\<lambda>h. (h, e)) hs"
  by (simp_all add: full_calls_def)

text \<open>The handlers of a lane live in buffers of their own.\<close>

definition lane_ok :: "('k, 'e) lane \<Rightarrow> bool" where
  "lane_ok la \<longleftrightarrow> (\<forall>k s. map_of (ln_handlers la) k = Some s \<longrightarrow> slice_ok (ln_heap la) s) \<and>
     (\<forall>k l b n m. map_of (ln_handlers la) k = Some (Slice b n) \<longrightarrow> map_of (ln_handlers la) l = Some (Slice b m) \<longrightarrow> k = l)"

text \<open>A copy of a slice is safe as long as the slice it was copied from has not become shorter.\<close>

definition safe_copy :: "('k, 'e) lane \<Rightarrow> slice \<Rightarrow> bool" where
  "safe_copy la s \<longleftrightarrow> slice_ok (ln_heap la) s \<and>
     (\<forall>k b m n. s = Slice b m \<longrightarrow> map_of (ln_handlers la) k = Some (Slice b n) \<longrightarrow> m \<le> n)"

lemma handlers_ok: "lane_ok la \<Longrightarrow> slice_ok (ln_heap la) (handlers_of la k)"
  by (auto simp: lane_ok_def handlers_of_def split: option.split)

lemma lane_okD:
  assumes "lane_ok la" and "map_of (ln_handlers la) k = Some s"
  shows "slice_ok (ln_heap la) s" and "s = Slice b n \<Longrightarrow> b < length (ln_heap la)"
    and "s = Slice b n \<Longrightarrow> map_of (ln_handlers la) l = Some (Slice b m) \<Longrightarrow> l = k"
proof -
  show ok: "slice_ok (ln_heap la) s" using assms by (simp add: lane_ok_def)
  show "s = Slice b n \<Longrightarrow> b < length (ln_heap la)" using ok by (simp add: slice_ok_def)
  show "s = Slice b n \<Longrightarrow> map_of (ln_handlers la) l = Some (Slice b m) \<Longrightarrow> l = k"
    using assms by (auto simp: lane_ok_def)
qed

lemma handlers_of_slice: "handlers_of la k = Slice b m \<longleftrightarrow> map_of (ln_handlers la) k = Some (Slice b m)"
  by (simp add: handlers_of_def split: option.split)

lemma handlers_safe:
  assumes "lane_ok la"
  shows "safe_copy la (handlers_of la k)"
proof -
  have "m \<le> n" if "handlers_of la k = Slice b m" "map_of (ln_handlers la) l = Some (Slice b n)" for l b m n
  proof -
    have "l = k" using assms that by (auto simp: lane_ok_def handlers_of_slice)
    with that show ?thesis by (simp add: handlers_of_slice)
  qed
  then show ?thesis using assms by (simp add: safe_copy_def handlers_ok)
qed

lemma register_ok:
  assumes ok: "lane_ok la" and grow: "\<And>n. n \<le> grow n"
    and la': "register grow k hid la = la'"
  shows "lane_ok la'" and "handler_ids la' k = handler_ids la k @ [hid]"
    and "l \<noteq> k \<Longrightarrow> handler_ids la' l = handler_ids la l"
    and "safe_copy la s \<Longrightarrow> safe_copy la' s \<and> view (ln_heap la') s = view (ln_heap la) s"
proof -
  obtain s1 h1 where a: "slice_append grow (handlers_of la k) hid (ln_heap la) = (s1, h1)" by (metis surj_pair)
  have la': "la' = la\<lparr>ln_handlers := AList.update k s1 (ln_handlers la), ln_heap := h1\<rparr>"
    using la' by (simp add: register_def put_handlers_def a)
  note v = slice_append_view [OF a handlers_ok [OF ok] grow]
  obtain b n where s1: "s1 = Slice b n" and b: "b = length (ln_heap la) \<or> (\<exists>m. handlers_of la k = Slice b m \<and> n = m + 1)"
    using slice_append_buffer [OF a] by blast
  have other: "c \<noteq> b" if "map_of (ln_handlers la) l = Some (Slice c m)" "l \<noteq> k" for l c m
    using b lane_okD(2) [OF ok that(1) refl] lane_okD(3) [OF ok that(1) refl, of k] that(2)
    unfolding handlers_of_slice by blast
  have frame: "slice_ok h1 t \<and> view h1 t = view (ln_heap la) t" if "map_of (ln_handlers la) l = Some t" "l \<noteq> k" for l t
  proof (rule slice_append_frame [OF a handlers_ok [OF ok] lane_okD(1) [OF ok that(1)]])
    fix b n m
    assume "handlers_of la k = Slice b n" and t: "t = Slice b m"
    then have "k = l" using lane_okD(3) [OF ok that(1) t] by (simp add: handlers_of_slice)
    with that(2) show "m \<le> n" by simp
  qed
  show "lane_ok la'"
    using ok v(2) frame unfolding la' by (auto simp: lane_ok_def s1 dest: other)
  show "handler_ids la' k = handler_ids la k @ [hid]"
    using v(1) by (simp add: handler_ids_def la' handlers_of_def)
  show "handler_ids la' l = handler_ids la l" if "l \<noteq> k"
    using frame that by (auto simp: handler_ids_def la' handlers_of_def split: option.split)
  show "safe_copy la' s \<and> view (ln_heap la') s = view (ln_heap la) s" if s: "safe_copy la s"
  proof -
    have f: "slice_ok h1 s \<and> view h1 s = view (ln_heap la) s"
      using slice_append_frame [OF a handlers_ok [OF ok], of s] s by (auto simp: safe_copy_def handlers_of_slice)
    have "m \<le> n'" if "s = Slice c m" "((map_of (ln_handlers la))(k \<mapsto> s1)) l = Some (Slice c n')" for l c m n'
      using that s b by (cases "l = k") (auto simp: safe_copy_def handlers_of_slice s1 slice_ok_def intro: le_SucI)
    then show ?thesis using f s b by (auto simp: safe_copy_def la' s1 handlers_of_slice slice_ok_def split: if_splits)
  qed
qed

lemma index_of_Some: "index_of x ys = Some i \<Longrightarrow> i < length ys \<and> ys ! i = x"
  by (induction ys arbitrary: i) (auto split: if_splits)

lemma unregister_ok:
  assumes ok: "lane_ok la" and la': "unregister k hid la = la'"
  shows "lane_ok la'"
proof (cases "index_of hid (handler_ids la k)")
  case (Some i)
  have i: "i < slice_len (handlers_of la k)"
    using index_of_Some [OF Some] length_view [OF handlers_ok [OF ok]] by (simp add: handler_ids_def)
  then obtain b n where h: "handlers_of la k = Slice b n" by (cases "handlers_of la k") auto
  obtain s1 h1 where r: "slice_remove i (Slice b n) (ln_heap la) = (s1, h1)" by (metis surj_pair)
  have la': "la' = la\<lparr>ln_handlers := AList.update k s1 (ln_handlers la), ln_heap := h1\<rparr>"
    using la' Some by (simp add: unregister_def put_handlers_def h r)
  have s1: "s1 = Slice b (n - 1)" "slice_ok h1 s1"
    using removed_cells(1) [OF r] slice_remove_view(2) [OF r] handlers_ok [OF ok, of k] i by (auto simp: h)
  have k: "map_of (ln_handlers la) k = Some (Slice b n)" using h by (simp add: handlers_of_slice)
  have other: "slice_ok h1 t" if "map_of (ln_handlers la) l = Some t" "l \<noteq> k" for l t
  proof (cases t)
    case (Slice c m)
    have "c \<noteq> b" using lane_okD(3) [OF ok k refl] that Slice by blast
    then show ?thesis using r lane_okD(1) [OF ok that(1)] by (auto simp: slice_remove_def set_cells_def slice_ok_def Slice)
  qed simp
  show ?thesis
    using ok s1 other k unfolding la' by (auto simp: lane_ok_def)
qed (use la' ok in \<open>simp add: unregister_def\<close>)

section \<open>Deliveries\<close>

definition current :: "('k, 'e) lane \<Rightarrow> ('e \<times> slice \<times> nat) option" where
  "current la = (case ln_workers la of [w] \<Rightarrow> wk_current w | _ \<Rightarrow> None)"

definition delivered :: "('k, 'e) lane \<Rightarrow> ('k, 'e) logs \<Rightarrow> bool" where
  "delivered la g \<longleftrightarrow>
     (case current la of
        None \<Rightarrow> lg_calls g = full_calls (lg_received g)
      | Some (e, s, j) \<Rightarrow> \<exists>before k. lg_received g = before @ [(k, e, view (ln_heap la) s)] \<and> safe_copy la s \<and> j \<le> slice_len s \<and>
          lg_calls g = full_calls before @ map (\<lambda>h. (h, e)) (take j (view (ln_heap la) s)))"

definition lane_inv :: "('k, 'e) lane \<Rightarrow> ('k, 'e) logs \<Rightarrow> bool" where
  "lane_inv la g \<longleftrightarrow> lane_ok la \<and> length (ln_workers la) \<le> 1 \<and> length (ln_channel la) \<le> ln_capacity la \<and>
     lg_queued g = map (\<lambda>(k, e, _). (k, e)) (lg_received g) @ ln_channel la \<and> delivered la g"

lemma delivered_cong:
  assumes "ln_workers la' = ln_workers la" and "ln_handlers la' = ln_handlers la" and "ln_heap la' = ln_heap la"
    and "lg_received g' = lg_received g" and "lg_calls g' = lg_calls g" and "delivered la g"
  shows "delivered la' g'"
  using assms(6) unfolding delivered_def current_def safe_copy_def assms(1-5) .

lemma one_worker: "length ws \<le> 1 \<Longrightarrow> i < length ws \<Longrightarrow> i = 0 \<and> (\<exists>w. ws = [w])"
  by (cases ws) auto

lemma delivering_current: "length (ln_workers la) \<le> 1 \<Longrightarrow> delivering la \<longleftrightarrow> current la \<noteq> None"
  by (cases "ln_workers la") (auto simp: delivering_def current_def)

lemma lane_inv_step:
  assumes inv: "lane_inv la g" and step: "lane_next grow stopped inp la = Some (la', cs)" and calm: "calm inp la"
    and grow: "\<And>n. n \<le> grow n"
  shows "lane_inv la' (log_step inp la cs g)"
proof -
  note i = inv [unfolded lane_inv_def]
  show ?thesis
  proof (cases inp)
    case (LiRegister k hid)
    with step have la': "register grow k hid la = la'" and cs: "cs = []" by auto
    have fields: "ln_workers la' = ln_workers la" "ln_channel la' = ln_channel la" "ln_capacity la' = ln_capacity la"
      using la' by (auto simp: register_def put_handlers_def)
    have ok: "lane_ok la" using i by simp
    have "delivered la' (log_step inp la cs g)"
      using i register_ok(4) [OF ok grow la'] unfolding delivered_def current_def fields
      by (auto simp: log_step_def LiRegister cs split: option.splits prod.splits)
    then show ?thesis using i register_ok(1) [OF ok grow la'] by (simp add: lane_inv_def fields log_step_def LiRegister)
  next
    case (LiUnregister k hid)
    with step have la': "unregister k hid la = la'" and cs: "cs = []" by auto
    have fields: "ln_workers la' = ln_workers la" "ln_channel la' = ln_channel la" "ln_capacity la' = ln_capacity la"
      using la' by (auto simp: unregister_def put_handlers_def split: option.splits)
    have "current la = None" using calm i delivering_current [of la] by (cases "current la") (auto simp: LiUnregister)
    then show ?thesis
      using i unregister_ok [OF _ la'] fields
      by (simp add: lane_inv_def delivered_def current_def log_step_def LiUnregister cs)
  next
    case (LiDispatch k e)
    with step have la': "la' = fst (dispatch k e la)" and cs: "cs = []" by auto
    have fields: "ln_workers la' = ln_workers la" "ln_handlers la' = ln_handlers la" "ln_heap la' = ln_heap la"
      by (simp_all add: la' dispatch_def)
    have "delivered la' (log_step inp la cs g)"
      by (rule delivered_cong [OF fields _ _ i [THEN conjunct2, THEN conjunct2, THEN conjunct2, THEN conjunct2]])
        (simp_all add: log_step_def LiDispatch cs)
    then show ?thesis using i
      by (auto simp: lane_inv_def lane_ok_def fields log_step_def LiDispatch la' dispatch_def)
  next
    case (LiTake j)
    with step obtain k e rest where ch: "ln_channel la = (k, e) # rest" and j: "j < length (ln_workers la)"
      and none: "wk_current (ln_workers la ! j) = None" and cs: "cs = []"
      and la': "la' = set_worker j ((ln_workers la ! j)\<lparr>wk_current := Some (e, handlers_of la k, 0)\<rparr>) (la\<lparr>ln_channel := rest\<rparr>)"
      by (auto simp: take_event_def split: list.splits if_splits)
    obtain w where w: "ln_workers la = [w]" "j = 0" using one_worker i j by blast
    have "safe_copy la' (handlers_of la k)"
      using handlers_safe [of la k] i by (simp add: safe_copy_def la' set_worker_def)
    then show ?thesis
      using i none by (auto simp: lane_inv_def delivered_def current_def log_step_def LiTake la' ch w cs set_worker_def
          lane_ok_def handler_ids_def)
  next
    case (LiCall j)
    with step obtain e s n where j: "j < length (ln_workers la)" and cur: "wk_current (ln_workers la ! j) = Some (e, s, n)"
      by (auto simp: call_handler_def split: if_splits option.splits)
    obtain w where w: "ln_workers la = [w]" "j = 0" using one_worker i j by blast
    from i cur w obtain before k where d: "lg_received g = before @ [(k, e, view (ln_heap la) s)]" "safe_copy la s" "n \<le> slice_len s"
        "lg_calls g = full_calls before @ map (\<lambda>h. (h, e)) (take n (view (ln_heap la) s))"
      by (auto simp: delivered_def current_def)
    have len: "length (view (ln_heap la) s) = slice_len s" using d(2) by (simp add: safe_copy_def length_view)
    show ?thesis
    proof (cases "n < slice_len s")
      case True
      then have "la' = set_worker j (w\<lparr>wk_current := Some (e, s, n + 1)\<rparr>) la" "cs = [(view (ln_heap la) s ! n, e)]"
        using step LiCall j cur w by (auto simp: call_handler_def)
      then show ?thesis
        using i d True len by (auto simp: lane_inv_def delivered_def current_def log_step_def LiCall w set_worker_def lane_ok_def
            safe_copy_def take_Suc_conv_app_nth)
    next
      case False
      then have "la' = set_worker j (w\<lparr>wk_current := None\<rparr>) la" "cs = []"
        using step LiCall j cur w by (auto simp: call_handler_def)
      then show ?thesis
        using i d False len by (auto simp: lane_inv_def delivered_def current_def log_step_def LiCall w set_worker_def lane_ok_def)
    qed
  next
    case (LiSeeStop j)
    with step have j: "j < length (ln_workers la)" and c: "wk_current (ln_workers la ! j) = None" "cs = []"
      and la': "la' = set_worker j ((ln_workers la ! j)\<lparr>wk_draining := True\<rparr>) la"
      by (auto simp: see_stop_def split: if_splits)
    obtain w where w: "ln_workers la = [w]" "j = 0" using one_worker i j by blast
    show ?thesis using i c
      by (auto simp: lane_inv_def delivered_def current_def log_step_def LiSeeStop w la' set_worker_def lane_ok_def)
  next
    case (LiEnd j)
    with step have j: "j < length (ln_workers la)" and c: "wk_current (ln_workers la ! j) = None" "cs = []"
      and la': "la' = la\<lparr>ln_workers := take j (ln_workers la) @ drop (j + 1) (ln_workers la)\<rparr>"
      by (auto simp: end_worker_def split: if_splits)
    obtain w where w: "ln_workers la = [w]" "j = 0" using one_worker i j by blast
    show ?thesis using i c by (auto simp: lane_inv_def delivered_def current_def log_step_def LiEnd w la' lane_ok_def)
  qed
qed

lemma lane_inv_run:
  "lane_run grow la0 g la \<Longrightarrow> (\<And>n. n \<le> grow n) \<Longrightarrow> lane_inv la0 no_logs \<Longrightarrow> lane_inv la g"
  by (induction rule: lane_run.induct) (auto intro: lane_inv_step)

lemma lane_inv_start: "lane_inv (start_worker (new_lane n)) no_logs"
  by (simp add: lane_inv_def start_worker_def new_lane_def lane_ok_def delivered_def current_def no_logs_def)


text \<open>Two handlers, three events on a channel for two, and a stop.\<close>

definition two_handlers :: "(bool \<times> (unit, string) lane_input) list" where
  "two_handlers = map (Pair False) [LiRegister () 1, LiRegister () 2, LiDispatch () ''a'', LiDispatch () ''b'', LiDispatch () ''c'',
     LiTake 0, LiCall 0, LiRegister () 3, LiCall 0, LiCall 0, LiTake 0, LiCall 0] @
   map (Pair True) [LiCall 0, LiCall 0, LiCall 0, LiSeeStop 0, LiEnd 0]"


text \<open>
  Unregistering a handler while a delivery is under way moves the handlers behind it in the buffer that the
  delivery reads: here handler 2 is never called with the event and handler 3 is called twice.
\<close>

lemma unregister_skips_handler:
  "map_option (\<lambda>(la, g). lg_calls g) (lane_exec (\<lambda>n. 2 * n)
     (map (Pair False) [LiRegister () 1, LiRegister () 2, LiRegister () 3, LiDispatch () ''a'', LiTake 0, LiCall 0,
        LiUnregister () 1, LiCall 0, LiCall 0, LiCall 0]) (start_worker (new_lane 4)) no_logs) =
   Some [(1, ''a''), (3, ''a''), (3, ''a'')]"
  by code_simp

text \<open>Events queued after the goroutines have seen the stop and ended are accepted and never delivered.\<close>

lemma dispatch_after_stop:
  "map_option (\<lambda>(la, g). (lg_queued g, lg_calls g, ln_workers la)) (lane_exec (\<lambda>n. 2 * n)
     [(False, LiRegister () 1), (True, LiSeeStop 0), (True, LiEnd 0), (True, LiDispatch () ''a'')]
     (start_worker (new_lane 4)) no_logs) =
   Some ([((), ''a'')], [], [])"
  by code_simp

lemma second_Stop_panics: "Dispatcher_Stop d = Returned d' \<Longrightarrow> Dispatcher_Stop d' = Panicked"
  by (auto simp: Dispatcher_Stop_def split: if_splits)

end
