(* ===== verification/MarketParser.thy ===== *)
theory MarketParser
  imports ExchangeGateway
begin

text \<open>
  Parsing and validation of ticker messages (\<open>src/internal/marketdata/parser.go\<close>). A message is a JSON
  value or text that is none; \<open>decimal.NewFromString\<close> is the parameter \<open>dparse\<close>. The parser's state is
  the last sequence id per symbol and the number of failures; what it reports through its callback is
  returned. Durations saturate and wrap as in Go, which the check of the timestamp shows.
\<close>

section \<open>Durations at their width\<close>

definition max_duration :: duration where
  "max_duration = 2 ^ 63 - 1"

text \<open>\<open>t.Sub(u)\<close> saturates; the negation of the smallest duration is itself.\<close>

definition time_Sub :: "time \<Rightarrow> time \<Rightarrow> duration" where
  "time_Sub t u = max (- max_duration - 1) (min max_duration (t - u))"

definition neg_duration :: "duration \<Rightarrow> duration" where
  "neg_duration d = (if d = - max_duration - 1 then d else - d)"

section \<open>The parser\<close>

definition maxPrice :: decimal where
  "maxPrice = 9999999999 / 100"

definition timestampTolerance :: duration where
  "timestampTolerance = 5 * 1000000000"

datatype tick_issue =
    PriceRange string decimal | CrossedTick decimal decimal | TimestampRange duration | SequenceOrder int64 int64

datatype parse_issue = JsonError | EmptyData | FieldFormat string | InvalidTick tick_issue

record Parser =
  pa_lastSequenceIds :: "(string, int64) gomap"
  pa_validationFailures :: int64

definition NewParser :: Parser where
  "NewParser = \<lparr>pa_lastSequenceIds = [], pa_validationFailures = 0\<rparr>"

definition ResetValidationFailureCount :: "Parser \<Rightarrow> Parser" where
  "ResetValidationFailureCount p = p\<lparr>pa_validationFailures := 0\<rparr>"

definition ResetSequenceId :: "string \<Rightarrow> Parser \<Rightarrow> Parser" where
  "ResetSequenceId symbol p = p\<lparr>pa_lastSequenceIds := AList.delete symbol (pa_lastSequenceIds p)\<rparr>"

definition ResetAllSequenceIds :: "Parser \<Rightarrow> Parser" where
  "ResetAllSequenceIds p = p\<lparr>pa_lastSequenceIds := []\<rparr>"

definition recordFailure :: "Parser \<Rightarrow> Parser" where
  "recordFailure p = p\<lparr>pa_validationFailures := pa_validationFailures p + 1\<rparr>"

definition price_in_range :: "decimal \<Rightarrow> bool" where
  "price_in_range x \<longleftrightarrow> 0 < x \<and> \<not> maxPrice < x"

text \<open>\<open>diff\<close> as the code computes it: \<open>time.UnixMicro\<close> of the tick, and a negation that may wrap.\<close>

definition tick_diff :: "time \<Rightarrow> TickData \<Rightarrow> duration" where
  "tick_diff now tick =
     (let diff = time_Sub now (td_Timestamp tick * 1000) in if diff < 0 then neg_duration diff else diff)"

text \<open>The rules in their order; the last one stores the sequence id.\<close>

definition validate :: "time \<Rightarrow> TickData \<Rightarrow> Parser \<Rightarrow> Parser \<times> tick_issue option" where
  "validate now tick p =
     (if \<not> price_in_range (td_LastPrice tick) then (recordFailure p, Some (PriceRange ''lastPrice'' (td_LastPrice tick)))
      else if \<not> price_in_range (td_BestBid tick) then (recordFailure p, Some (PriceRange ''bestBid'' (td_BestBid tick)))
      else if \<not> price_in_range (td_BestAsk tick) then (recordFailure p, Some (PriceRange ''bestAsk'' (td_BestAsk tick)))
      else if td_BestAsk tick \<le> td_BestBid tick then (recordFailure p, Some (CrossedTick (td_BestBid tick) (td_BestAsk tick)))
      else if timestampTolerance < tick_diff now tick then (recordFailure p, Some (TimestampRange (tick_diff now tick)))
      else if td_SequenceId tick \<noteq> 0 \<and> td_Symbol tick \<noteq> [] then
        (case map_of (pa_lastSequenceIds p) (td_Symbol tick) of
           Some prev \<Rightarrow>
             if sint (td_SequenceId tick) \<le> sint prev
             then (recordFailure p, Some (SequenceOrder (td_SequenceId tick) prev))
             else (p\<lparr>pa_lastSequenceIds := AList.update (td_Symbol tick) (td_SequenceId tick) (pa_lastSequenceIds p)\<rparr>, None)
         | None \<Rightarrow>
             (p\<lparr>pa_lastSequenceIds := AList.update (td_Symbol tick) (td_SequenceId tick) (pa_lastSequenceIds p)\<rparr>, None))
      else (p, None))"

section \<open>Messages\<close>

text \<open>A member of type \<open>int64\<close>.\<close>

definition int64_field :: "string \<Rightarrow> json \<Rightarrow> int64 option" where
  "int64_field k j =
     (case int_field k j of
        None \<Rightarrow> None
      | Some n \<Rightarrow> if - (2 ^ 63) \<le> n \<and> n < 2 ^ 63 then Some (word_of_int n) else None)"

record OKXTickerData =
  ot_InstID :: string
  ot_Last :: string
  ot_BidPx :: string
  ot_AskPx :: string
  ot_BidSz :: string
  ot_AskSz :: string
  ot_Vol24h :: string
  ot_Ts :: string
  ot_SeqId :: int64

definition tick_keys :: "string list" where
  "tick_keys = [''instId'', ''last'', ''bidPx'', ''askPx'', ''bidSz'', ''askSz'', ''vol24h'', ''ts'']"

definition ticker_data :: "json \<Rightarrow> OKXTickerData option" where
  "ticker_data j =
     (case (decode_all (\<lambda>k. str_field k j) tick_keys, int64_field ''seqId'' j) of
        (Some vs, Some seq) \<Rightarrow> Some \<lparr>ot_InstID = vs ! 0, ot_Last = vs ! 1, ot_BidPx = vs ! 2, ot_AskPx = vs ! 3, ot_BidSz = vs ! 4,
           ot_AskSz = vs ! 5, ot_Vol24h = vs ! 6, ot_Ts = vs ! 7, ot_SeqId = seq\<rparr>
      | _ \<Rightarrow> None)"

text \<open>\<open>OKXTickerMessage\<close>: the instrument of the argument and the data.\<close>

definition ticker_message :: "frame \<Rightarrow> (string \<times> OKXTickerData list) option" where
  "ticker_message f =
     (case f of
        TextFrame _ \<Rightarrow> None
      | JsonFrame j \<Rightarrow>
          (case (sub_field ''arg'' j, arr_field ''data'' j) of
             (Some arg, Some rows) \<Rightarrow>
               (case (str_field ''channel'' arg, str_field ''instId'' arg, decode_all ticker_data rows) of
                  (Some _, Some inst, Some ds) \<Rightarrow> Some (inst, ds)
                | _ \<Rightarrow> None)
           | _ \<Rightarrow> None))"

text \<open>The required decimal fields, in the order of the code, with the names it reports.\<close>

definition decimal_fields :: "OKXTickerData \<Rightarrow> (string \<times> string) list" where
  "decimal_fields raw = [(''lastPrice'', ot_Last raw), (''bestBid'', ot_BidPx raw), (''bestAsk'', ot_AskPx raw),
     (''bidSize'', ot_BidSz raw), (''askSize'', ot_AskSz raw)]"

fun parse_fields :: "decparse \<Rightarrow> (string \<times> string) list \<Rightarrow> string + decimal list" where
  "parse_fields dparse [] = Inr []"
| "parse_fields dparse ((name, s) # fs) =
     (case dparse s of
        None \<Rightarrow> Inl name
      | Some v \<Rightarrow> (case parse_fields dparse fs of Inl n \<Rightarrow> Inl n | Inr vs \<Rightarrow> Inr (v # vs)))"

definition build_tick :: "decparse \<Rightarrow> string \<Rightarrow> OKXTickerData \<Rightarrow> string + TickData" where
  "build_tick dparse symbol raw =
     (case parse_fields dparse (decimal_fields raw) of
        Inl name \<Rightarrow> Inl name
      | Inr vs \<Rightarrow>
          (case sscan_int64 (ot_Ts raw) of
             None \<Rightarrow> Inl ''timestamp''
           | Some ms \<Rightarrow> Inr \<lparr>td_Symbol = symbol, td_Timestamp = sint (word_of_int (ms * 1000) :: int64), td_LastPrice = vs ! 0,
               td_BestBid = vs ! 1, td_BestAsk = vs ! 2, td_BidSize = vs ! 3, td_AskSize = vs ! 4,
               td_Volume24h = dec_or_zero dparse (ot_Vol24h raw), td_SequenceId = ot_SeqId raw\<rparr>))"

text \<open>A failure is recorded exactly where the code does: once per rejected message.\<close>

definition ParseAndValidate :: "decparse \<Rightarrow> time \<Rightarrow> frame \<Rightarrow> Parser \<Rightarrow> Parser \<times> (string \<times> parse_issue + TickData)" where
  "ParseAndValidate dparse now data p =
     (case ticker_message data of
        None \<Rightarrow> (recordFailure p, Inl ([], JsonError))
      | Some (_, []) \<Rightarrow> (recordFailure p, Inl ([], EmptyData))
      | Some (inst, raw # _) \<Rightarrow>
          let symbol = (if ot_InstID raw = [] then inst else ot_InstID raw) in
          (case build_tick dparse symbol raw of
             Inl name \<Rightarrow> (recordFailure p, Inl (symbol, FieldFormat name))
           | Inr tick \<Rightarrow>
               (case validate now tick p of
                  (p', Some e) \<Rightarrow> (p', Inl (symbol, InvalidTick e))
                | (p', None) \<Rightarrow> (p', Inr tick))))"

text \<open>A feed: messages with the clock readings of their validation.\<close>

fun parse_feed ::
  "decparse \<Rightarrow> (time \<times> frame) list \<Rightarrow> Parser \<Rightarrow> Parser \<times> (time \<times> TickData) list \<times> (string \<times> parse_issue) list" where
  "parse_feed dparse [] p = (p, [], [])"
| "parse_feed dparse ((now, data) # feed) p =
     (case ParseAndValidate dparse now data p of
        (p1, r) \<Rightarrow>
          (case parse_feed dparse feed p1 of
             (p2, ticks, issues) \<Rightarrow>
               (case r of Inl e \<Rightarrow> (p2, ticks, e # issues) | Inr tick \<Rightarrow> (p2, (now, tick) # ticks, issues))))"

section \<open>What passes\<close>

definition valid_tick :: "time \<Rightarrow> TickData \<Rightarrow> bool" where
  "valid_tick now t \<longleftrightarrow> 0 < td_LastPrice t \<and> td_LastPrice t \<le> maxPrice \<and> 0 < td_BestBid t \<and> td_BestBid t < td_BestAsk t \<and>
     td_BestAsk t \<le> maxPrice \<and>
     (\<bar>now - td_Timestamp t * 1000\<bar> \<le> timestampTolerance \<or> now + max_duration < td_Timestamp t * 1000)"

lemma tick_diff_ok:
  "tick_diff now t \<le> timestampTolerance \<longleftrightarrow>
    \<bar>now - td_Timestamp t * 1000\<bar> \<le> timestampTolerance \<or> now + max_duration < td_Timestamp t * 1000"
  by (simp add: tick_diff_def time_Sub_def neg_duration_def timestampTolerance_def max_duration_def min_def max_def abs_if Let_def)

lemma validate_failures [simp]:
  "validate now t p = (p', Some e) \<Longrightarrow> p' = recordFailure p"
  "validate now t p = (p', None) \<Longrightarrow> pa_validationFailures p' = pa_validationFailures p"
  by (auto simp: validate_def split: if_splits option.splits)

lemma validate_valid: "validate now t p = (p', None) \<Longrightarrow> valid_tick now t"
  by (auto simp: validate_def valid_tick_def price_in_range_def tick_diff_ok [symmetric] not_less not_le
      split: if_splits option.splits)

text \<open>The sequence ids that count.\<close>

definition counted :: "string \<Rightarrow> TickData \<Rightarrow> bool" where
  "counted s t \<longleftrightarrow> td_Symbol t = s \<and> td_SequenceId t \<noteq> 0 \<and> s \<noteq> []"

lemma validate_sequence:
  assumes "validate now t p = (p', None)"
  shows "map_of (pa_lastSequenceIds p') s = (if counted s t then Some (td_SequenceId t) else map_of (pa_lastSequenceIds p) s)"
    and "counted s t \<Longrightarrow> map_of (pa_lastSequenceIds p) s = Some prev \<Longrightarrow> sint prev < sint (td_SequenceId t)"
  using assms by (auto simp: validate_def counted_def not_le split: if_splits option.splits)

lemma ParseAndValidate_cases:
  assumes "ParseAndValidate dparse now data p = (p', r)"
  shows "(\<exists>e. r = Inl e \<and> p' = recordFailure p) \<or> (\<exists>t. r = Inr t \<and> validate now t p = (p', None))"
  using assms
  by (auto simp: ParseAndValidate_def Let_def split: option.splits list.splits sum.splits prod.splits)

definition feed_ids :: "string \<Rightarrow> (time \<times> TickData) list \<Rightarrow> int list" where
  "feed_ids s ticks = map (\<lambda>(_, t). sint (td_SequenceId t)) (filter (\<lambda>(_, t). counted s t) ticks)"

lemma feed_ids_increase:
  assumes "parse_feed dparse feed p = (p', ticks, issues)"
  shows "sorted_wrt (<) (feed_ids s ticks) \<and> (\<forall>prev. map_of (pa_lastSequenceIds p) s = Some prev \<longrightarrow> (\<forall>i \<in> set (feed_ids s ticks). sint prev < i))"
  using assms
proof (induction feed arbitrary: p p' ticks issues)
  case (Cons m feed)
  obtain now data where m: "m = (now, data)" by (cases m)
  obtain p1 r where v: "ParseAndValidate dparse now data p = (p1, r)" by (metis surj_pair)
  obtain p2 ts es where f: "parse_feed dparse feed p1 = (p2, ts, es)" by (metis prod_cases3)
  from ParseAndValidate_cases [OF v] show ?case
  proof (elim disjE exE conjE)
    fix e assume "r = Inl e" "p1 = recordFailure p"
    with Cons.IH [OF f] Cons.prems m v f show ?thesis by (simp add: recordFailure_def)
  next
    fix t assume r: "r = Inr t" and t: "validate now t p = (p1, None)"
    have ticks: "ticks = (now, t) # ts" using Cons.prems m v f r by simp
    show ?thesis
      using Cons.IH [OF f] validate_sequence [OF t, of s] unfolding ticks
      by (cases "counted s t") (fastforce simp: feed_ids_def)+
  qed
qed (simp add: feed_ids_def)

lemma feed_counts:
  "parse_feed dparse feed p = (p', ticks, issues) \<Longrightarrow>
    (\<forall>(now, t) \<in> set ticks. valid_tick now t) \<and> length ticks + length issues = length feed \<and>
    pa_validationFailures p' = pa_validationFailures p + of_nat (length issues)"
proof (induction feed arbitrary: p p' ticks issues)
  case (Cons m feed)
  obtain now data where m: "m = (now, data)" by (cases m)
  obtain p1 r where v: "ParseAndValidate dparse now data p = (p1, r)" by (metis surj_pair)
  obtain p2 ts es where f: "parse_feed dparse feed p1 = (p2, ts, es)" by (metis prod_cases3)
  from ParseAndValidate_cases [OF v] show ?case
  proof (elim disjE exE conjE)
    fix e assume "r = Inl e" "p1 = recordFailure p"
    with Cons.IH [OF f] Cons.prems m v f show ?thesis by (auto simp: recordFailure_def)
  next
    fix t assume "r = Inr t" and t: "validate now t p = (p1, None)"
    with Cons.IH [OF f] Cons.prems m v f validate_valid [OF t] validate_failures(2) [OF t] show ?thesis by auto
  qed
qed simp

text \<open>C22: The feed that reaches the strategies. Every message is either accepted or counted as a failure and reported,
  never both. An accepted tick has prices in range, a bid below its ask, and a time within five seconds of the
  clock \<emdash> or more than 292 years after it, where the code's duration arithmetic wraps. For every symbol the
  sequence ids of the accepted ticks that carry one increase strictly, beyond what was seen before.
\<close>

theorem feed_sound:
  assumes "parse_feed dparse feed p = (p', ticks, issues)"
  shows "(\<forall>(now, t) \<in> set ticks. valid_tick now t) \<and> length ticks + length issues = length feed \<and>
    pa_validationFailures p' = pa_validationFailures p + of_nat (length issues) \<and>
    sorted_wrt (<) (feed_ids s ticks) \<and>
    (\<forall>prev. map_of (pa_lastSequenceIds p) s = Some prev \<longrightarrow> (\<forall>i \<in> set (feed_ids s ticks). sint prev < i))"
  using feed_counts [OF assms] feed_ids_increase [OF assms] by blast

definition ticker_json :: "string \<Rightarrow> int \<Rightarrow> frame" where
  "ticker_json ts seq = JsonFrame (JObj [(''arg'', JObj [(''channel'', JStr ''tickers''), (''instId'', JStr ''BTC-USDT'')]),
     (''data'', JArr [JObj [(''last'', JStr ''2''), (''bidPx'', JStr ''1''), (''askPx'', JStr ''3''), (''bidSz'', JStr ''1''),
        (''askSz'', JStr ''1''), (''ts'', JStr ts), (''seqId'', JNum seq)]])])"

definition digit_parse :: decparse where
  "digit_parse s = (if s = ''1'' then Some 1 else if s = ''2'' then Some 2 else if s = ''3'' then Some 3 else None)"

definition sample_feed :: "(time \<times> frame) list" where
  "sample_feed = [(4000000000, ticker_json ''5000'' 7), (4000000000, ticker_json ''5000'' 7), (4000000000, ticker_json ''5000'' 0),
     (4000000000, TextFrame ''pong''), (4000000000, ticker_json ''4100'' 9)]"

lemma sample_feed_result:
  "(case parse_feed digit_parse sample_feed NewParser of (p, ticks, issues) \<Rightarrow>
     (map (\<lambda>(_, t). (td_Symbol t, sint (td_SequenceId t))) ticks, length issues)) =
   ([(''BTC-USDT'', 7), (''BTC-USDT'', 0), (''BTC-USDT'', 9)], 2)"
  by code_simp

theorem feed_sound_witness:
  "case parse_feed digit_parse sample_feed NewParser of (p, ticks, issues) \<Rightarrow>
     sorted_wrt (<) (feed_ids ''BTC-USDT'' ticks) \<and> length ticks = 3 \<and> pa_validationFailures p = 2"
proof -
  obtain p ticks issues where f: "parse_feed digit_parse sample_feed NewParser = (p, ticks, issues)" by (metis prod_cases3)
  from feed_sound [OF f, of "''BTC-USDT''"] sample_feed_result f show ?thesis
    by (auto simp: NewParser_def dest: arg_cong [where f = length])
qed

section \<open>Beyond the specification\<close>

text \<open>A tick dated 292 years or more after the clock passes the check of its timestamp.\<close>

lemma far_future_accepted:
  "max_duration + now < td_Timestamp t * 1000 \<Longrightarrow> \<not> timestampTolerance < tick_diff now t"
  using tick_diff_ok [of now t] by linarith

text \<open>
  Production subscribes to \<open>books5\<close> and \<open>trades\<close> beside \<open>tickers\<close> and hands every message to the ticker parser:
  their pushes, having no \<open>last\<close>, and the acknowledgements of the subscriptions count as validation failures.
\<close>

lemma other_messages_fail:
  assumes "ticker_message f = Some (inst, ds)" and "ds = [] \<or> ot_Last (hd ds) = []" and "dparse [] = None"
  shows "\<exists>e. ParseAndValidate dparse now f p = (recordFailure p, Inl e)"
  using assms
  by (cases ds) (auto simp: ParseAndValidate_def build_tick_def decimal_fields_def Let_def)

end
