(* ===== verification/WSClient.thy ===== *)
theory WSClient
  imports Slices ReconnectingClient
begin

text \<open>
  The public market data client (\<open>src/internal/marketdata/ws_client.go\<close>). A step is one iteration of a
  goroutine, a call of the interface, or one attempt to connect; where the code gives up a lock in the middle of
  what it does to the connection and another goroutine may see the half-done state, there are two steps: the
  handling of a loss (state first, the rest later), the end of a reconnection (the same), and the top of the read
  loop (the test of \<open>conn\<close>, its use). The channels of a symbol are a slice, and \<open>Connect\<close> gives every symbol the
  slice of the configuration: the client has a heap of buffers. A map is ranged over in the order of its list;
  nothing that is proved depends on it.
\<close>

section \<open>Configuration and state\<close>

definition ws_seconds :: "int \<Rightarrow> duration" where
  "ws_seconds n = n * 1000000000"

record WSClientConfig =
  wc_URL :: string
  wc_Symbols :: "string list"
  wc_Channels :: slice
  wc_HeartbeatInterval :: duration
  wc_HeartbeatTimeout :: duration
  wc_ConnectTimeout :: duration
  wc_InitialReconnectDelay :: duration
  wc_MaxReconnectDelay :: duration
  wc_MaxReconnectAttempts :: int

definition default_channels :: "string list" where
  "default_channels = [''tickers'', ''books5'', ''trades'']"

definition DefaultWebSocketURL :: string where
  "DefaultWebSocketURL = ''wss://ws.okx.com:8443/ws/v5/public''"

definition DefaultWSClientConfig :: "string heap \<Rightarrow> WSClientConfig \<times> string heap" where
  "DefaultWSClientConfig h =
     (case slice_new 3 default_channels h of
        (s, h') \<Rightarrow> (\<lparr>wc_URL = DefaultWebSocketURL, wc_Symbols = [], wc_Channels = s, wc_HeartbeatInterval = ws_seconds 25,
          wc_HeartbeatTimeout = ws_seconds 30, wc_ConnectTimeout = ws_seconds 10, wc_InitialReconnectDelay = ws_seconds 1,
          wc_MaxReconnectDelay = ws_seconds 60, wc_MaxReconnectAttempts = 5\<rparr>, h'))"

datatype ConnectionState = StateDisconnected | StateConnecting | StateConnected | StateReconnecting

text \<open>A reader is at the top of its loop, has seen a connection, is blocked on one, or is in the message handler.\<close>

datatype ws_reader = RdTop | RdChecked | RdReading nat | RdHandling

text \<open>The reconnect loop waits for a request or for the next attempt, or has connected and has the rest to do.\<close>

datatype ws_reconnector = RcIdle | RcWaiting int duration | RcRestoring

record WSClient =
  ws_config :: WSClientConfig
  ws_heap :: "string heap"
  ws_conn :: "nat option"
  ws_dialled :: nat
  ws_state :: ConnectionState
  ws_lastPong :: time
  ws_staleSymbols :: "(string, bool) gomap"
  ws_subscriptions :: "(string, slice) gomap"
  ws_lastSeqID :: "(string, int64) gomap"
  ws_callbacks :: "(EventType, nat list) gomap"
  ws_orderPauser :: bool
  ws_snapshotReq :: bool
  ws_msgHandler :: bool
  ws_done :: bool
  ws_reconnectCh :: bool
  ws_reconnectCount :: int
  ws_readers :: "ws_reader list"
  ws_heartbeats :: nat
  ws_losing :: nat
  ws_reconnectors :: "ws_reconnector list"

definition NewWSClient :: "WSClientConfig \<Rightarrow> string heap \<Rightarrow> WSClient" where
  "NewWSClient cfg h =
     (let pick = (\<lambda>f d. if f cfg = 0 then d else f cfg);
          (ch, h') = (if slice_len (wc_Channels cfg) = 0 then slice_new 3 default_channels h else (wc_Channels cfg, h));
          cfg' = \<lparr>wc_URL = (if wc_URL cfg = [] then DefaultWebSocketURL else wc_URL cfg), wc_Symbols = wc_Symbols cfg,
             wc_Channels = ch, wc_HeartbeatInterval = pick wc_HeartbeatInterval (ws_seconds 25),
             wc_HeartbeatTimeout = pick wc_HeartbeatTimeout (ws_seconds 30), wc_ConnectTimeout = pick wc_ConnectTimeout (ws_seconds 10),
             wc_InitialReconnectDelay = pick wc_InitialReconnectDelay (ws_seconds 1),
             wc_MaxReconnectDelay = pick wc_MaxReconnectDelay (ws_seconds 60),
             wc_MaxReconnectAttempts = pick wc_MaxReconnectAttempts 5\<rparr>
      in \<lparr>ws_config = cfg', ws_heap = h', ws_conn = None, ws_dialled = 0, ws_state = StateDisconnected, ws_lastPong = zero_time,
          ws_staleSymbols = [], ws_subscriptions = [], ws_lastSeqID = [], ws_callbacks = [], ws_orderPauser = False,
          ws_snapshotReq = False, ws_msgHandler = False, ws_done = False, ws_reconnectCh = False, ws_reconnectCount = 0,
          ws_readers = [], ws_heartbeats = 0, ws_losing = 0, ws_reconnectors = []\<rparr>)"

text \<open>What the outside sees.\<close>

datatype ws_effect =
    SentRequest string "(string \<times> string) list" | HandledMessage frame | SentPong
  | PausedNewOrders | ResumedNewOrders | RequestedFullSnapshot string | StaleCallback nat

text \<open>The zero value that a missing key reads as.\<close>

definition found_or :: "'a \<Rightarrow> 'a option \<Rightarrow> 'a" where
  "found_or d r = (case r of None \<Rightarrow> d | Some x \<Rightarrow> x)"

section \<open>Subscriptions, sequence ids, stale flags\<close>

definition channels_of :: "WSClient \<Rightarrow> string \<Rightarrow> string list option" where
  "channels_of ws symbol = map_option (view (ws_heap ws)) (map_of (ws_subscriptions ws) symbol)"

definition IsConnected :: "WSClient \<Rightarrow> bool" where
  "IsConnected ws \<longleftrightarrow> ws_state ws = StateConnected"

text \<open>\<open>writeJSON\<close>: the request goes out when there is a connection and the write succeeds.\<close>

definition send_request :: "string \<Rightarrow> bool \<Rightarrow> (string \<times> string) list \<Rightarrow> WSClient \<Rightarrow> ws_effect list \<times> bool" where
  "send_request op written args ws =
     (if ws_conn ws = None then ([], False) else if written then ([SentRequest op args], True) else ([], False))"

definition Subscribe :: "(nat \<Rightarrow> nat) \<Rightarrow> string \<Rightarrow> string \<Rightarrow> bool \<Rightarrow> WSClient \<Rightarrow> WSClient \<times> ws_effect list \<times> bool" where
  "Subscribe grow symbol channel written ws =
     (let send = (\<lambda>ws'. (ws', if IsConnected ws' then send_request ''subscribe'' written [(channel, symbol)] ws' else ([], True)));
          put = (\<lambda>(s, h). ws\<lparr>ws_subscriptions := AList.update symbol s (ws_subscriptions ws), ws_heap := h\<rparr>)
      in case map_of (ws_subscriptions ws) symbol of
           None \<Rightarrow> send (put (slice_new 1 [channel] (ws_heap ws)))
         | Some s \<Rightarrow>
             if channel \<in> set (view (ws_heap ws) s) then (ws, [], True)
             else send (put (slice_append grow s channel (ws_heap ws))))"

fun first_index :: "'a \<Rightarrow> 'a list \<Rightarrow> nat option" where
  "first_index x [] = None"
| "first_index x (y # ys) = (if y = x then Some 0 else map_option Suc (first_index x ys))"

definition Unsubscribe :: "string \<Rightarrow> string \<Rightarrow> bool \<Rightarrow> WSClient \<Rightarrow> WSClient \<times> ws_effect list \<times> bool" where
  "Unsubscribe symbol channel written ws =
     (case map_of (ws_subscriptions ws) symbol of
        None \<Rightarrow> (ws, [], True)
      | Some s \<Rightarrow>
          let (s', h') = (case first_index channel (view (ws_heap ws) s) of
                            None \<Rightarrow> (s, ws_heap ws) | Some i \<Rightarrow> slice_remove i s (ws_heap ws));
              subs = (if slice_len s' = 0 then AList.delete symbol (ws_subscriptions ws)
                      else AList.update symbol s' (ws_subscriptions ws));
              ws' = ws\<lparr>ws_subscriptions := subs, ws_heap := h'\<rparr>
          in (ws', if IsConnected ws' then send_request ''unsubscribe'' written [(channel, symbol)] ws' else ([], True)))"

definition IsDataStale :: "string \<Rightarrow> WSClient \<Rightarrow> bool" where
  "IsDataStale symbol ws \<longleftrightarrow> map_of (ws_staleSymbols ws) symbol = Some True"

definition ws_RegisterCallback :: "EventType \<Rightarrow> nat \<Rightarrow> WSClient \<Rightarrow> WSClient" where
  "ws_RegisterCallback ty hid ws =
     ws\<lparr>ws_callbacks := AList.update ty (found_or [] (map_of (ws_callbacks ws) ty) @ [hid]) (ws_callbacks ws)\<rparr>"

definition GetLastSequenceID :: "string \<Rightarrow> WSClient \<Rightarrow> int64" where
  "GetLastSequenceID symbol ws = found_or 0 (map_of (ws_lastSeqID ws) symbol)"

definition UpdateSequenceID :: "string \<Rightarrow> int64 \<Rightarrow> WSClient \<Rightarrow> WSClient" where
  "UpdateSequenceID symbol seqID ws = ws\<lparr>ws_lastSeqID := AList.update symbol seqID (ws_lastSeqID ws)\<rparr>"

definition CheckSequenceID :: "string \<Rightarrow> int64 \<Rightarrow> WSClient \<Rightarrow> bool" where
  "CheckSequenceID symbol newSeqID ws =
     (case map_of (ws_lastSeqID ws) symbol of None \<Rightarrow> True | Some lastID \<Rightarrow> sint lastID < sint newSeqID)"

definition markAllStale :: "WSClient \<Rightarrow> WSClient" where
  "markAllStale ws = ws\<lparr>ws_staleSymbols := fold (\<lambda>(symbol, _). AList.update symbol True) (ws_subscriptions ws) (ws_staleSymbols ws)\<rparr>"

definition clearStaleFlags :: "WSClient \<Rightarrow> WSClient" where
  "clearStaleFlags ws = ws\<lparr>ws_staleSymbols := []\<rparr>"

definition ClearStaleForSymbol :: "string \<Rightarrow> WSClient \<Rightarrow> WSClient" where
  "ClearStaleForSymbol symbol ws = ws\<lparr>ws_staleSymbols := AList.delete symbol (ws_staleSymbols ws)\<rparr>"

definition emitStaleEvent :: "WSClient \<Rightarrow> ws_effect list" where
  "emitStaleEvent ws = map StaleCallback (found_or [] (map_of (ws_callbacks ws) EventDataStale))"

section \<open>Connecting\<close>

record dial_answer =
  da_ok :: bool
  da_written :: bool
  da_now :: time

definition ws_closeConn :: "WSClient \<Rightarrow> WSClient" where
  "ws_closeConn ws = ws\<lparr>ws_conn := None\<rparr>"

definition ws_connect :: "dial_answer \<Rightarrow> WSClient \<Rightarrow> WSClient option" where
  "ws_connect ans ws =
     (if da_ok ans then Some (ws\<lparr>ws_conn := Some (ws_dialled ws), ws_dialled := ws_dialled ws + 1, ws_lastPong := da_now ans\<rparr>)
      else None)"

definition subscription_args :: "WSClient \<Rightarrow> (string \<times> string) list" where
  "subscription_args ws = concat (map (\<lambda>(symbol, s). map (\<lambda>channel. (channel, symbol)) (view (ws_heap ws) s)) (ws_subscriptions ws))"

definition subscribeAll :: "bool \<Rightarrow> WSClient \<Rightarrow> ws_effect list \<times> bool" where
  "subscribeAll written ws =
     (let subs = subscription_args ws in if subs = [] then ([], True) else send_request ''subscribe'' written subs ws)"

datatype ws_error = ConnectFailed | SubscribeAllFailed

definition ws_establish :: "dial_answer \<Rightarrow> WSClient \<Rightarrow> WSClient \<times> ws_effect list \<times> ws_error option" where
  "ws_establish ans ws =
     (case ws_connect ans ws of
        None \<Rightarrow> (ws, [], Some ConnectFailed)
      | Some ws1 \<Rightarrow>
          (case subscribeAll (da_written ans) ws1 of
             (es, True) \<Rightarrow> (ws1, es, None)
           | (es, False) \<Rightarrow> (ws_closeConn ws1, es, Some SubscribeAllFailed)))"

definition Connect :: "string list \<Rightarrow> dial_answer \<Rightarrow> WSClient \<Rightarrow> WSClient \<times> ws_effect list \<times> ws_error option" where
  "Connect symbols ans ws =
     (if ws_state ws = StateConnected \<or> ws_state ws = StateConnecting then (ws, [], None)
      else
        let ws1 = ws\<lparr>ws_state := StateConnecting,
              ws_subscriptions := fold (\<lambda>s. AList.update s (wc_Channels (ws_config ws))) symbols (ws_subscriptions ws),
              ws_config := (ws_config ws)\<lparr>wc_Symbols := symbols\<rparr>\<rparr>
        in case ws_establish ans ws1 of
             (ws2, es, Some e) \<Rightarrow> (ws2\<lparr>ws_state := StateDisconnected\<rparr>, es, Some e)
           | (ws2, es, None) \<Rightarrow>
               (let ws3 = clearStaleFlags (ws2\<lparr>ws_state := StateConnected\<rparr>)
                in (ws3\<lparr>ws_readers := ws_readers ws3 @ [RdTop], ws_heartbeats := ws_heartbeats ws3 + 1,
                      ws_reconnectors := ws_reconnectors ws3 @ [RcIdle]\<rparr>, es, None)))"

text \<open>\<open>Disconnect\<close> closes \<open>done\<close>, which panics when it is closed already, and the connection, and waits.\<close>

definition Disconnect :: "WSClient \<Rightarrow> WSClient outcome" where
  "Disconnect ws =
     (if ws_state ws = StateDisconnected then Returned ws
      else if ws_done ws then Panicked
      else Returned (ws_closeConn (ws\<lparr>ws_done := True\<rparr>)))"

definition disconnect_returns :: "WSClient \<Rightarrow> WSClient option" where
  "disconnect_returns ws =
     (if ws_done ws \<and> ws_readers ws = [] \<and> ws_heartbeats ws = 0 \<and> ws_losing ws = 0 \<and> ws_reconnectors ws = []
      then Some (ws\<lparr>ws_state := StateDisconnected\<rparr>) else None)"

section \<open>The goroutines\<close>

text \<open>\<open>handleDisconnection\<close>: the goroutine that finds the loss sets the state; the rest follows in a second step.\<close>

definition ws_handleDisconnection :: "WSClient \<Rightarrow> WSClient" where
  "ws_handleDisconnection ws =
     (if ws_state ws = StateReconnecting \<or> ws_state ws = StateDisconnected then ws
      else ws\<lparr>ws_state := StateReconnecting, ws_losing := ws_losing ws + 1\<rparr>)"

definition announce_loss :: "WSClient \<Rightarrow> WSClient \<times> ws_effect list" where
  "announce_loss ws =
     ((ws_closeConn (markAllStale ws))\<lparr>ws_losing := ws_losing ws - 1, ws_reconnectCh := True\<rparr>,
      (if ws_orderPauser ws then [PausedNewOrders] else []) @ emitStaleEvent ws)"

datatype ws_read = WsMessage frame | WsError bool

text \<open>The top of the read loop, and the call of \<open>ReadMessage\<close>, which needs a connection.\<close>

definition ws_readLoop_top :: "nat \<Rightarrow> WSClient \<Rightarrow> WSClient" where
  "ws_readLoop_top i ws =
     (if ws_done ws then ws\<lparr>ws_readers := drop_at i (ws_readers ws)\<rparr>
      else if ws_conn ws = None then ws
      else ws\<lparr>ws_readers := (ws_readers ws)[i := RdChecked]\<rparr>)"

definition readLoop_block :: "nat \<Rightarrow> WSClient \<Rightarrow> WSClient outcome" where
  "readLoop_block i ws =
     (case ws_conn ws of
        None \<Rightarrow> Panicked
      | Some n \<Rightarrow> Returned (ws\<lparr>ws_readers := (ws_readers ws)[i := RdReading n]\<rparr>))"

definition ws_readLoop_read :: "nat \<Rightarrow> ws_read \<Rightarrow> WSClient \<Rightarrow> WSClient \<times> ws_effect list" where
  "ws_readLoop_read i r ws =
     (case r of
        WsError normal \<Rightarrow>
          (let ws1 = ws\<lparr>ws_readers := drop_at i (ws_readers ws)\<rparr>
           in (if normal \<or> ws_done ws then ws1 else ws_handleDisconnection ws1, []))
      | WsMessage f \<Rightarrow>
          (ws\<lparr>ws_readers := (ws_readers ws)[i := RdHandling]\<rparr>,
           (if ws_msgHandler ws then [HandledMessage f] else []) @
           (if f = TextFrame ''ping'' \<and> ws_conn ws \<noteq> None then [SentPong] else [])))"

definition ws_heartbeat_tick :: "time \<Rightarrow> bool \<Rightarrow> WSClient \<Rightarrow> WSClient" where
  "ws_heartbeat_tick now written ws =
     (if \<not> IsConnected ws then ws
      else if wc_HeartbeatTimeout (ws_config ws) < now - ws_lastPong ws \<or> ws_conn ws \<noteq> None \<and> \<not> written
      then ws_handleDisconnection (ws\<lparr>ws_heartbeats := ws_heartbeats ws - 1\<rparr>)
      else ws)"

text \<open>The top of the loop of \<open>performReconnect\<close>.\<close>

definition ws_next_attempt :: "nat \<Rightarrow> duration \<Rightarrow> WSClient \<Rightarrow> WSClient" where
  "ws_next_attempt i delay ws =
     (if ws_done ws then ws\<lparr>ws_reconnectors := (ws_reconnectors ws)[i := RcIdle]\<rparr>
      else
        let attempt = ws_reconnectCount ws; ws1 = ws\<lparr>ws_reconnectCount := attempt + 1\<rparr>
        in if wc_MaxReconnectAttempts (ws_config ws) \<le> attempt
           then ws1\<lparr>ws_state := StateDisconnected, ws_reconnectors := (ws_reconnectors ws)[i := RcIdle]\<rparr>
           else ws1\<lparr>ws_reconnectors := (ws_reconnectors ws)[i := RcWaiting attempt delay]\<rparr>)"

definition performReconnect :: "nat \<Rightarrow> WSClient \<Rightarrow> WSClient" where
  "performReconnect i ws =
     ws_next_attempt i (wc_InitialReconnectDelay (ws_config ws)) (ws\<lparr>ws_reconnectCh := False, ws_reconnectCount := 0\<rparr>)"

definition ws_backoff :: "WSClient \<Rightarrow> int \<Rightarrow> duration" where
  "ws_backoff ws = calculateBackoff (wc_InitialReconnectDelay (ws_config ws)) (wc_MaxReconnectDelay (ws_config ws))"

definition ws_reconnect_attempt :: "nat \<Rightarrow> int \<Rightarrow> dial_answer \<Rightarrow> WSClient \<Rightarrow> WSClient \<times> ws_effect list" where
  "ws_reconnect_attempt i attempt ans ws =
     (case ws_establish ans ws of
        (ws1, es, Some _) \<Rightarrow> (ws_next_attempt i (ws_backoff ws (attempt + 1)) ws1, es)
      | (ws1, es, None) \<Rightarrow>
          (ws1\<lparr>ws_state := StateConnected, ws_reconnectors := (ws_reconnectors ws1)[i := RcRestoring]\<rparr>, es))"

text \<open>\<open>onReconnectSuccess\<close> after the state has been set.\<close>

definition onReconnectSuccess :: "nat \<Rightarrow> WSClient \<Rightarrow> WSClient \<times> ws_effect list" where
  "onReconnectSuccess i ws =
     (let ws1 = clearStaleFlags (ws\<lparr>ws_lastSeqID := []\<rparr>)
      in (ws1\<lparr>ws_readers := ws_readers ws1 @ [RdTop], ws_heartbeats := ws_heartbeats ws1 + 1,
            ws_reconnectors := (ws_reconnectors ws1)[i := RcIdle]\<rparr>,
          (if ws_snapshotReq ws then map (RequestedFullSnapshot \<circ> fst) (ws_subscriptions ws) else []) @
          (if ws_orderPauser ws then [ResumedNewOrders] else [])))"

section \<open>Steps\<close>

datatype ws_input =
    WiConnect "string list" dial_answer | WiDisconnect | WiDisconnectReturns
  | WiSubscribe "nat \<Rightarrow> nat" string string bool | WiUnsubscribe string string bool
  | WiRegister EventType nat | WiSetHandler | WiSetPauser | WiSetSnapshots | WiSequence string int64 | WiFresh string
  | WiTop nat | WiBlock nat | WiRead nat ws_read | WiHandled nat | WiPong time
  | WiHeartbeat time bool | WiHeartbeatDone | WiAnnounce
  | WiTake nat | WiAttempt nat dial_answer | WiRestored nat | WiAbandon nat | WiReconnectDone nat

abbreviation silently :: "WSClient \<Rightarrow> (WSClient outcome \<times> ws_effect list) option" where
  "silently ws \<equiv> Some (Returned ws, [])"

abbreviation emitting :: "WSClient \<times> ws_effect list \<Rightarrow> (WSClient outcome \<times> ws_effect list) option" where
  "emitting r \<equiv> Some (Returned (fst r), snd r)"

fun ws_next :: "ws_input \<Rightarrow> WSClient \<Rightarrow> (WSClient outcome \<times> ws_effect list) option" where
  "ws_next (WiConnect symbols ans) ws = emitting (fst (Connect symbols ans ws), fst (snd (Connect symbols ans ws)))"
| "ws_next WiDisconnect ws = Some (Disconnect ws, [])"
| "ws_next WiDisconnectReturns ws = (case disconnect_returns ws of None \<Rightarrow> None | Some ws' \<Rightarrow> silently ws')"
| "ws_next (WiSubscribe grow symbol channel written) ws =
     emitting (fst (Subscribe grow symbol channel written ws), fst (snd (Subscribe grow symbol channel written ws)))"
| "ws_next (WiUnsubscribe symbol channel written) ws =
     emitting (fst (Unsubscribe symbol channel written ws), fst (snd (Unsubscribe symbol channel written ws)))"
| "ws_next (WiRegister ty hid) ws = silently (ws_RegisterCallback ty hid ws)"
| "ws_next WiSetHandler ws = silently (ws\<lparr>ws_msgHandler := True\<rparr>)"
| "ws_next WiSetPauser ws = silently (ws\<lparr>ws_orderPauser := True\<rparr>)"
| "ws_next WiSetSnapshots ws = silently (ws\<lparr>ws_snapshotReq := True\<rparr>)"
| "ws_next (WiSequence symbol seqID) ws = silently (UpdateSequenceID symbol seqID ws)"
| "ws_next (WiFresh symbol) ws = silently (ClearStaleForSymbol symbol ws)"
| "ws_next (WiTop i) ws =
     (if i < length (ws_readers ws) \<and> ws_readers ws ! i = RdTop then silently (ws_readLoop_top i ws) else None)"
| "ws_next (WiBlock i) ws =
     (if i < length (ws_readers ws) \<and> ws_readers ws ! i = RdChecked then Some (readLoop_block i ws, []) else None)"
| "ws_next (WiRead i r) ws =
     (if i < length (ws_readers ws) then
        (case ws_readers ws ! i of
           RdReading n \<Rightarrow>
             if (case r of WsMessage _ \<Rightarrow> ws_conn ws = Some n | WsError _ \<Rightarrow> True) then emitting (ws_readLoop_read i r ws) else None
         | _ \<Rightarrow> None)
      else None)"
| "ws_next (WiHandled i) ws =
     (if i < length (ws_readers ws) \<and> ws_readers ws ! i = RdHandling
      then silently (ws\<lparr>ws_readers := (ws_readers ws)[i := RdTop]\<rparr>) else None)"
| "ws_next (WiPong now) ws =
     (if ws_conn ws \<noteq> None \<and> RdReading (the (ws_conn ws)) \<in> set (ws_readers ws) then silently (ws\<lparr>ws_lastPong := now\<rparr>) else None)"
| "ws_next (WiHeartbeat now written) ws = (if 0 < ws_heartbeats ws then silently (ws_heartbeat_tick now written ws) else None)"
| "ws_next WiHeartbeatDone ws =
     (if 0 < ws_heartbeats ws \<and> ws_done ws then silently (ws\<lparr>ws_heartbeats := ws_heartbeats ws - 1\<rparr>) else None)"
| "ws_next WiAnnounce ws = (if 0 < ws_losing ws then emitting (announce_loss ws) else None)"
| "ws_next (WiTake i) ws =
     (if i < length (ws_reconnectors ws) \<and> ws_reconnectors ws ! i = RcIdle \<and> ws_reconnectCh ws
      then silently (performReconnect i ws) else None)"
| "ws_next (WiAttempt i ans) ws =
     (if i < length (ws_reconnectors ws) then
        (case ws_reconnectors ws ! i of RcWaiting attempt _ \<Rightarrow> emitting (ws_reconnect_attempt i attempt ans ws) | _ \<Rightarrow> None)
      else None)"
| "ws_next (WiRestored i) ws =
     (if i < length (ws_reconnectors ws) \<and> ws_reconnectors ws ! i = RcRestoring then emitting (onReconnectSuccess i ws) else None)"
| "ws_next (WiAbandon i) ws =
     (if i < length (ws_reconnectors ws) \<and> ws_done ws then
        (case ws_reconnectors ws ! i of
           RcWaiting _ _ \<Rightarrow> silently (ws\<lparr>ws_reconnectors := (ws_reconnectors ws)[i := RcIdle]\<rparr>) | _ \<Rightarrow> None)
      else None)"
| "ws_next (WiReconnectDone i) ws =
     (if i < length (ws_reconnectors ws) \<and> ws_done ws \<and> ws_reconnectors ws ! i = RcIdle
      then silently (ws\<lparr>ws_reconnectors := drop_at i (ws_reconnectors ws)\<rparr>) else None)"

fun ws_is_connect :: "ws_input \<Rightarrow> bool" where
  "ws_is_connect (WiConnect _ _) = True"
| "ws_is_connect _ = False"

text \<open>The program calls \<open>Connect\<close> once. What can happen afterwards, with its effects:\<close>

inductive ws_run :: "WSClient \<Rightarrow> ws_effect list \<Rightarrow> WSClient \<Rightarrow> bool" where
  ws_refl: "ws_run ws [] ws"
| ws_step: "ws_run ws es ws' \<Longrightarrow> \<not> ws_is_connect inp \<Longrightarrow> ws_next inp ws' = Some (Returned ws'', fs) \<Longrightarrow> ws_run ws (es @ fs) ws''"

fun ws_exec :: "ws_input list \<Rightarrow> WSClient \<Rightarrow> (WSClient outcome \<times> ws_effect list) option" where
  "ws_exec [] ws = Some (Returned ws, [])"
| "ws_exec (inp # inps) ws =
     (case ws_next inp ws of
        Some (Returned ws', es) \<Rightarrow> map_option (\<lambda>(r, fs). (r, es @ fs)) (ws_exec inps ws')
      | r \<Rightarrow> r)"

lemma ws_exec_run:
  "ws_exec inps ws = Some (Returned ws', es) \<Longrightarrow> \<forall>inp \<in> set inps. \<not> ws_is_connect inp \<Longrightarrow> ws_run ws0 es0 ws \<Longrightarrow> ws_run ws0 (es0 @ es) ws'"
proof (induction inps arbitrary: ws es es0)
  case (Cons inp inps)
  then obtain ws1 fs gs where n: "ws_next inp ws = Some (Returned ws1, fs)" and r: "ws_exec inps ws1 = Some (Returned ws', gs)"
    and es: "es = fs @ gs"
    by (auto split: option.splits outcome.splits)
  have "ws_run ws0 (es0 @ fs) ws1" using n Cons.prems by (intro ws_run.ws_step [OF Cons.prems(3)]) auto
  from Cons.IH [OF r _ this] Cons.prems(2) es show ?case by simp
qed simp

definition ws_edge :: "WSClient \<Rightarrow> WSClient \<Rightarrow> bool" where
  "ws_edge ws ws' \<longleftrightarrow> (\<exists>inp es. \<not> ws_is_connect inp \<and> ws_next inp ws = Some (Returned ws', es))"

lemma ws_run_edges: "ws_run ws es ws' \<Longrightarrow> ws_edge\<^sup>*\<^sup>* ws ws'"
  by (induction rule: ws_run.induct) (auto simp: ws_edge_def intro: rtranclp.rtrancl_into_rtrancl)

section \<open>The connection is always watched\<close>

fun waits :: "ws_reconnector \<Rightarrow> bool" where
  "waits (RcWaiting _ _) = True"
| "waits _ = False"

definition waiting :: "WSClient \<Rightarrow> bool" where
  "waiting ws \<longleftrightarrow> list_ex waits (ws_reconnectors ws)"

definition restoring :: "WSClient \<Rightarrow> bool" where
  "restoring ws \<longleftrightarrow> RcRestoring \<in> set (ws_reconnectors ws)"

definition recovering :: "WSClient \<Rightarrow> bool" where
  "recovering ws \<longleftrightarrow> 0 < ws_losing ws \<or> ws_reconnectCh ws \<or> waiting ws"

definition exhausted :: "WSClient \<Rightarrow> bool" where
  "exhausted ws \<longleftrightarrow> wc_MaxReconnectAttempts (ws_config ws) < ws_reconnectCount ws"

definition watched :: "WSClient \<Rightarrow> bool" where
  "watched ws \<longleftrightarrow> 0 < ws_heartbeats ws \<or> restoring ws"

text \<open>One reconnect loop; a loss is found once, and is announced before anything is dialled.\<close>

definition steady :: "WSClient \<Rightarrow> bool" where
  "steady ws \<longleftrightarrow> length (ws_reconnectors ws) \<le> 1 \<and> ws_state ws \<noteq> StateConnecting \<and>
     (ws_state ws = StateConnected \<longrightarrow> \<not> recovering ws) \<and>
     (0 < ws_losing ws \<longrightarrow> ws_losing ws = 1 \<and> ws_state ws = StateReconnecting \<and> \<not> ws_reconnectCh ws \<and> \<not> waiting ws) \<and>
     (ws_reconnectCh ws \<longrightarrow> \<not> waiting ws)"

lemma steady_cases [consumes 1, case_names none idle waits restoring]:
  assumes "steady ws"
  obtains (none) "ws_reconnectors ws = []" | (idle) "ws_reconnectors ws = [RcIdle]"
    | (waits) a d where "ws_reconnectors ws = [RcWaiting a d]" | (restoring) "ws_reconnectors ws = [RcRestoring]"
  using assms by (cases "ws_reconnectors ws"; cases "hd (ws_reconnectors ws)") (auto simp: steady_def)

text \<open>The calls that only touch subscriptions leave the rest alone.\<close>

lemma Subscribe_frame:
  "fst (Subscribe grow symbol channel written ws) =
    ws\<lparr>ws_subscriptions := ws_subscriptions (fst (Subscribe grow symbol channel written ws)),
       ws_heap := ws_heap (fst (Subscribe grow symbol channel written ws))\<rparr>"
  by (simp add: Subscribe_def Let_def split: option.splits prod.splits)

lemma Unsubscribe_frame:
  "fst (Unsubscribe symbol channel written ws) =
    ws\<lparr>ws_subscriptions := ws_subscriptions (fst (Unsubscribe symbol channel written ws)),
       ws_heap := ws_heap (fst (Unsubscribe symbol channel written ws))\<rparr>"
  by (simp add: Unsubscribe_def Let_def split: option.splits prod.splits)

lemma establish_cases:
  assumes "ws_establish ans ws = (ws1, es, r)"
  obtains (failed) e where "r = Some e" "ws1 = ws \<or> (\<exists>n now. ws1 = ws\<lparr>ws_conn := None, ws_dialled := n, ws_lastPong := now\<rparr>)"
    | (dialled) n m now where "r = None" "ws1 = ws\<lparr>ws_conn := Some n, ws_dialled := m, ws_lastPong := now\<rparr>"
proof (cases "da_ok ans")
  case False
  with assms have "r = Some ConnectFailed" "ws1 = ws" by (simp_all add: ws_establish_def ws_connect_def)
  with failed show thesis by blast
next
  case True
  let ?ws = "ws\<lparr>ws_conn := Some (ws_dialled ws), ws_dialled := ws_dialled ws + 1, ws_lastPong := da_now ans\<rparr>"
  obtain fs b where s: "subscribeAll (da_written ans) ?ws = (fs, b)" by (cases "subscribeAll (da_written ans) ?ws")
  with True assms have "ws1 = (if b then ?ws else ws_closeConn ?ws)" "r = (if b then None else Some SubscribeAllFailed)"
    by (auto simp: ws_establish_def ws_connect_def split: bool.splits)
  moreover have "ws_closeConn ?ws = ws\<lparr>ws_conn := None, ws_dialled := ws_dialled ws + 1, ws_lastPong := da_now ans\<rparr>"
    by (simp add: ws_closeConn_def)
  ultimately show thesis using failed dialled by (cases b) fastforce+
qed

lemmas ws_defs = Disconnect_def disconnect_returns_def ws_handleDisconnection_def announce_loss_def markAllStale_def ws_closeConn_def
  ws_readLoop_top_def readLoop_block_def ws_readLoop_read_def ws_heartbeat_tick_def IsConnected_def ws_next_attempt_def performReconnect_def
  ws_reconnect_attempt_def onReconnectSuccess_def clearStaleFlags_def ws_RegisterCallback_def UpdateSequenceID_def ClearStaleForSymbol_def
  drop_at_def waiting_def restoring_def recovering_def exhausted_def watched_def steady_def Let_def

lemmas ws_splits = if_splits option.splits ws_read.splits ws_reader.splits ws_reconnector.splits prod.splits

text \<open>One step, up to the parts of the state the contract looks at.\<close>

definition link :: "WSClient \<Rightarrow> ConnectionState \<times> bool \<times> nat \<times> nat \<times> bool \<times> bool \<times> ws_reconnector list \<times> int \<times> int" where
  "link ws = (ws_state ws, ws_conn ws \<noteq> None, ws_heartbeats ws, ws_losing ws, ws_reconnectCh ws, ws_done ws, ws_reconnectors ws,
     ws_reconnectCount ws, wc_MaxReconnectAttempts (ws_config ws))"

lemma link_Subscribe [simp]: "link (fst (Subscribe grow symbol channel written ws)) = link ws"
  by (subst Subscribe_frame) (simp add: link_def)

lemma link_Unsubscribe [simp]: "link (fst (Unsubscribe symbol channel written ws)) = link ws"
  by (subst Unsubscribe_frame) (simp add: link_def)

definition step_ok :: "WSClient \<Rightarrow> WSClient \<Rightarrow> bool" where
  "step_ok ws ws' \<longleftrightarrow> steady ws' \<and> (ws_done ws \<longrightarrow> ws_done ws') \<and>
     (\<not> ws_done ws' \<longrightarrow>
       (if ws_state ws = StateConnected then
          (if ws_state ws' = StateConnected then ws_conn ws \<noteq> None \<and> watched ws \<longrightarrow> ws_conn ws' \<noteq> None \<and> watched ws'
           else recovering ws')
        else if ws_state ws' = StateConnected then ws_conn ws' \<noteq> None \<and> watched ws'
        else recovering ws \<or> exhausted ws \<longrightarrow> recovering ws' \<or> exhausted ws'))"

lemma step_ok_link: "steady ws \<Longrightarrow> link ws' = link ws \<Longrightarrow> step_ok ws ws'"
  by (auto simp: step_ok_def link_def ws_defs)

lemma attempt_step_ok:
  assumes "steady ws" and "i < length (ws_reconnectors ws)" and "ws_reconnectors ws ! i = RcWaiting a d"
  shows "step_ok ws (fst (ws_reconnect_attempt i a ans ws))"
proof -
  obtain ws1 es r where e: "ws_establish ans ws = (ws1, es, r)" by (cases "ws_establish ans ws")
  from assms(1) have r: "ws_reconnectors ws = [RcWaiting a d]" "i = 0"
    using assms(2,3) by (cases rule: steady_cases; simp)+
  from e show ?thesis
    by (cases rule: establish_cases) (use assms(1) r in \<open>auto simp: step_ok_def ws_defs e\<close>)
qed

lemma single_reconnector:
  assumes "steady ws" and "i < length (ws_reconnectors ws)"
  obtains r where "ws_reconnectors ws = [r]" and "i = 0"
  using assms by (cases rule: steady_cases; simp)

lemma take_step_ok:
  assumes "steady ws" and "i < length (ws_reconnectors ws)" and "ws_reconnectors ws ! i = RcIdle" and "ws_reconnectCh ws"
  shows "step_ok ws (performReconnect i ws)"
  by (rule single_reconnector [OF assms(1,2)]) (use assms in \<open>auto simp: step_ok_def ws_defs\<close>)

lemma restored_step_ok:
  assumes "steady ws" and "i < length (ws_reconnectors ws)" and "ws_reconnectors ws ! i = RcRestoring"
  shows "step_ok ws (fst (onReconnectSuccess i ws))"
  by (rule single_reconnector [OF assms(1,2)]) (use assms in \<open>auto simp: step_ok_def ws_defs\<close>)

lemma loss_step_ok:
  assumes "steady ws"
  shows "step_ok ws (ws_handleDisconnection (ws\<lparr>ws_readers := rs\<rparr>))"
    and "IsConnected ws \<Longrightarrow> step_ok ws (ws_handleDisconnection (ws\<lparr>ws_heartbeats := n\<rparr>))"
  using assms by (cases "ws_state ws"; auto simp: step_ok_def ws_defs)+

lemma announce_step_ok: "steady ws \<Longrightarrow> 0 < ws_losing ws \<Longrightarrow> step_ok ws (fst (announce_loss ws))"
  by (auto simp: step_ok_def ws_defs)

lemma closed_step_ok: "steady ws' \<Longrightarrow> ws_done ws' \<Longrightarrow> step_ok ws ws'"
  by (simp add: step_ok_def)

text \<open>Shutting down.\<close>

lemma steady_closing:
  assumes "steady ws"
  shows "Disconnect ws = Returned ws' \<Longrightarrow> step_ok ws ws'"
    and "disconnect_returns ws = Some ws' \<Longrightarrow> step_ok ws ws'"
    and "ws_done ws \<Longrightarrow> step_ok ws (ws\<lparr>ws_heartbeats := n\<rparr>)"
    and "ws_done ws \<Longrightarrow> i < length (ws_reconnectors ws) \<Longrightarrow> step_ok ws (ws\<lparr>ws_reconnectors := (ws_reconnectors ws)[i := RcIdle]\<rparr>)"
    and "ws_done ws \<Longrightarrow> i < length (ws_reconnectors ws) \<Longrightarrow> step_ok ws (ws\<lparr>ws_reconnectors := drop_at i (ws_reconnectors ws)\<rparr>)"
proof -
  show "Disconnect ws = Returned ws' \<Longrightarrow> step_ok ws ws'" and "disconnect_returns ws = Some ws' \<Longrightarrow> step_ok ws ws'"
    using assms by (auto simp: step_ok_def ws_defs split: if_splits)
  show "ws_done ws \<Longrightarrow> step_ok ws (ws\<lparr>ws_heartbeats := n\<rparr>)"
    using assms by (auto simp: step_ok_def ws_defs)
  fix i assume d: "ws_done ws" and i: "i < length (ws_reconnectors ws)"
  obtain r where r: "ws_reconnectors ws = [r]" "i = 0" by (rule single_reconnector [OF assms i])
  show "step_ok ws (ws\<lparr>ws_reconnectors := (ws_reconnectors ws)[i := RcIdle]\<rparr>)"
    "step_ok ws (ws\<lparr>ws_reconnectors := drop_at i (ws_reconnectors ws)\<rparr>)"
    using assms d r by (auto simp: step_ok_def ws_defs)
qed

lemmas step_oks = attempt_step_ok take_step_ok restored_step_ok loss_step_ok announce_step_ok steady_closing

lemma link_local [simp]:
  "link (ws_RegisterCallback ty hid ws) = link ws" "link (UpdateSequenceID symbol q ws) = link ws"
  "link (ClearStaleForSymbol symbol ws) = link ws" "link (ws_readLoop_top i ws) = link ws"
  "readLoop_block i ws = Returned ws' \<Longrightarrow> link ws' = link ws" "link (ws\<lparr>ws_readers := rs\<rparr>) = link ws"
  "link (ws\<lparr>ws_msgHandler := b\<rparr>) = link ws" "link (ws\<lparr>ws_orderPauser := b\<rparr>) = link ws"
  "link (ws\<lparr>ws_snapshotReq := b\<rparr>) = link ws" "link (ws\<lparr>ws_lastPong := now\<rparr>) = link ws"
  by (auto simp: link_def ws_RegisterCallback_def UpdateSequenceID_def ClearStaleForSymbol_def ws_readLoop_top_def readLoop_block_def
      split: option.splits)

lemma read_step_ok: "steady ws \<Longrightarrow> step_ok ws (fst (ws_readLoop_read i r ws))"
  by (cases r) (auto simp: ws_readLoop_read_def Let_def loss_step_ok intro!: step_ok_link simp: link_def)

lemma heartbeat_step_ok: "steady ws \<Longrightarrow> step_ok ws (ws_heartbeat_tick now written ws)"
  by (auto simp: ws_heartbeat_tick_def loss_step_ok intro!: step_ok_link)

lemma ws_step_ok:
  assumes "steady ws" and "ws_next inp ws = Some (Returned ws', es)" and "\<not> ws_is_connect inp"
  shows "step_ok ws ws'"
  using assms
  by (cases inp)
    (auto intro: step_oks read_step_ok heartbeat_step_ok step_ok_link
      split: if_splits option.splits ws_reader.splits ws_reconnector.splits)

lemma done_kept [simp]:
  "ws_done (ws_handleDisconnection ws) = ws_done ws" "ws_done (fst (announce_loss ws)) = ws_done ws"
  "ws_done (ws_next_attempt i d ws) = ws_done ws" "ws_done (fst (onReconnectSuccess i ws)) = ws_done ws"
  by (auto simp: ws_defs)

lemma done_kept_more [simp]:
  "ws_done (performReconnect i ws) = ws_done ws" "ws_done (ws_heartbeat_tick now written ws) = ws_done ws"
  "ws_done (fst (ws_readLoop_read i r ws)) = ws_done ws" "ws_done (fst (ws_reconnect_attempt i a ans ws)) = ws_done ws"
  "ws_done (fst (Subscribe grow symbol channel written ws)) = ws_done ws"
  "ws_done (fst (Unsubscribe symbol channel written ws)) = ws_done ws"
proof -
  obtain ws1 es r' where e: "ws_establish ans ws = (ws1, es, r')" by (cases "ws_establish ans ws")
  then have "ws_done ws1 = ws_done ws" by (cases rule: establish_cases) auto
  with e show "ws_done (fst (ws_reconnect_attempt i a ans ws)) = ws_done ws"
    by (simp add: ws_reconnect_attempt_def split: option.splits)
  show "ws_done (fst (Subscribe grow symbol channel written ws)) = ws_done ws"
    "ws_done (fst (Unsubscribe symbol channel written ws)) = ws_done ws"
    by (subst Subscribe_frame, simp) (subst Unsubscribe_frame, simp)
qed (auto simp: performReconnect_def ws_heartbeat_tick_def ws_readLoop_read_def Let_def split: ws_read.splits)

lemma ws_final:
  assumes "ws_next inp ws = Some (Returned ws', es)" and "\<not> ws_is_connect inp" and "ws_done ws"
  shows "ws_done ws'"
proof -
  have "Disconnect ws = Returned ws' \<Longrightarrow> ws_done ws'" "disconnect_returns ws = Some ws' \<Longrightarrow> ws_done ws'"
    "readLoop_block i ws = Returned ws' \<Longrightarrow> ws_done ws'" "ws_done (ws_readLoop_top i ws)" for i
    using assms(3) by (auto simp: Disconnect_def disconnect_returns_def readLoop_block_def ws_readLoop_top_def split: if_splits option.splits)
  with assms show ?thesis
    by (cases inp) (auto simp: ws_RegisterCallback_def UpdateSequenceID_def ClearStaleForSymbol_def
        split: if_splits option.splits ws_reader.splits ws_reconnector.splits)
qed

lemma edge_ok: "ws_edge ws ws' \<Longrightarrow> steady ws \<Longrightarrow> step_ok ws ws'"
  by (auto simp: ws_edge_def intro: ws_step_ok)

interpretation public_ws: reconnecting ws_edge steady "\<lambda>ws. ws_state ws = StateConnected" "\<lambda>ws. ws_conn ws \<noteq> None"
    watched recovering exhausted ws_done
proof (unfold_locales, goal_cases)
  case (1 ws ws')
  then show ?case using edge_ok [OF 1(1,2)] by (simp add: step_ok_def)
next
  case (2 ws ws')
  then show ?case using edge_ok [OF 2(1,2)] by (simp add: step_ok_def)
next
  case (3 ws ws')
  then show ?case using edge_ok [OF 3(1,2)] by (simp add: step_ok_def)
next
  case (4 ws ws')
  then show ?case using edge_ok [OF 4(1,2)] by (simp add: step_ok_def)
next
  case (5 ws ws')
  then show ?case using edge_ok [OF 5(1,2)] by (simp add: step_ok_def)
next
  case (6 ws ws')
  then show ?case by (auto simp: ws_edge_def intro: ws_final)
qed

lemma Connect_fresh:
  assumes "Connect symbols ans (NewWSClient cfg h) = (ws, es, None)"
  shows "steady ws \<and> ws_state ws = StateConnected \<and> ws_conn ws \<noteq> None \<and> watched ws"
proof -
  let ?ws = "(NewWSClient cfg h)\<lparr>ws_state := StateConnecting, ws_subscriptions :=
      fold (\<lambda>s. AList.update s (wc_Channels (ws_config (NewWSClient cfg h)))) symbols (ws_subscriptions (NewWSClient cfg h)),
      ws_config := (ws_config (NewWSClient cfg h))\<lparr>wc_Symbols := symbols\<rparr>\<rparr>"
  have new: "ws_state (NewWSClient cfg h) = StateDisconnected" "ws_losing (NewWSClient cfg h) = 0"
    "\<not> ws_reconnectCh (NewWSClient cfg h)" "ws_reconnectors (NewWSClient cfg h) = []" "ws_heartbeats (NewWSClient cfg h) = 0"
    by (simp_all add: NewWSClient_def Let_def split: prod.splits)
  obtain ws1 es1 r where e: "ws_establish ans ?ws = (ws1, es1, r)" by (cases "ws_establish ans ?ws")
  have r: "r = None" using assms new e by (auto simp: Connect_def Let_def split: option.splits)
  from e show ?thesis
  proof (cases rule: establish_cases)
    case (dialled n m now)
    with assms new e r show ?thesis by (auto simp: Connect_def ws_defs)
  qed (use r in simp)
qed

text \<open>C13: From the successful \<open>Connect\<close> on, and until the client is shut down, a market data client that reports to be
  connected holds a connection and has a heartbeat loop that watches it, or one about to be started by the
  reconnection that is ending; a client that does not has a loss to announce, a reconnection requested or under way,
  or has used up its attempts. This holds in every interleaving of readers, heartbeats, losses, reconnections and calls.
\<close>

theorem public_connection_watched:
  assumes "Connect symbols ans (NewWSClient cfg h) = (ws, es, None)" and "ws_run ws fs ws'" and "\<not> ws_done ws'"
  shows "if ws_state ws' = StateConnected then ws_conn ws' \<noteq> None \<and> watched ws' else recovering ws' \<or> exhausted ws'"
  using Connect_fresh [OF assms(1)] by (intro public_ws.watched [OF ws_run_edges [OF assms(2)] _ _ _ _ assms(3)]) auto

definition good_dial :: dial_answer where
  "good_dial = \<lparr>da_ok = True, da_written = True, da_now = 0\<rparr>"

definition public_client :: WSClient where
  "public_client = fst (Connect [''BTC'', ''ETH''] good_dial
     (case DefaultWSClientConfig [] of (cfg, h) \<Rightarrow> (NewWSClient cfg h)\<lparr>ws_orderPauser := True, ws_msgHandler := True\<rparr>))"

definition plain_client :: WSClient where
  "plain_client = fst (Connect [''BTC''] good_dial (NewWSClient (fst (DefaultWSClientConfig [])) (snd (DefaultWSClientConfig []))))"

lemma plain_client_connects:
  "Connect [''BTC''] good_dial (NewWSClient (fst (DefaultWSClientConfig [])) (snd (DefaultWSClientConfig []))) =
    (plain_client, [SentRequest ''subscribe'' [(''tickers'', ''BTC''), (''books5'', ''BTC''), (''trades'', ''BTC'')]], None)"
  by code_simp

definition lost :: "ws_input list" where
  "lost = [WiTop 0, WiBlock 0, WiRead 0 (WsError False), WiAnnounce, WiTake 0]"

theorem public_connection_watched_witness:
  "\<exists>ws' fs. ws_exec lost plain_client = Some (Returned ws', fs) \<and> ws_state ws' = StateReconnecting \<and> (recovering ws' \<or> exhausted ws')"
proof -
  have "map_option (\<lambda>(r, _). case r of Panicked \<Rightarrow> None | Returned ws' \<Rightarrow> Some (ws_state ws', ws_done ws')) (ws_exec lost plain_client) =
      Some (Some (StateReconnecting, False))" by code_simp
  then obtain ws' fs where e: "ws_exec lost plain_client = Some (Returned ws', fs)" and s: "ws_state ws' = StateReconnecting" "\<not> ws_done ws'"
    by (cases "ws_exec lost plain_client"; cases "fst (the (ws_exec lost plain_client))") (auto split: prod.splits)
  have "ws_run plain_client fs ws'" using ws_exec_run [OF e _ ws_refl] by (simp add: lost_def)
  with plain_client_connects public_connection_watched s e show ?thesis by fastforce
qed

section \<open>Subscriptions\<close>

text \<open>
  Every symbol of \<open>Connect\<close> shares the slice of the configuration. As long as that slice is full, as the
  default is, \<open>append\<close> copies it, and subscriptions are independent.
\<close>

definition subs_inv :: "(string \<Rightarrow> slice option) \<Rightarrow> string heap \<Rightarrow> bool" where
  "subs_inv m h \<longleftrightarrow> (\<forall>x s. m x = Some s \<longrightarrow> slice_ok h s \<and> s \<noteq> NilSlice) \<and>
     (\<forall>x y b n k. x \<noteq> y \<longrightarrow> m x = Some (Slice b n) \<longrightarrow> m y = Some (Slice b k) \<longrightarrow> n = bf_cap (h ! b) \<and> k = n)"

lemma subs_inv_slice: "subs_inv m h \<Longrightarrow> m x = Some s \<Longrightarrow> slice_ok h s \<and> s \<noteq> NilSlice"
  by (auto simp: subs_inv_def)

lemma subs_inv_buffer: "subs_inv m h \<Longrightarrow> m x = Some (Slice b n) \<Longrightarrow> b < length h"
  using subs_inv_slice slice_ok_buffer by blast

lemma subs_inv_shared:
  "subs_inv m h \<Longrightarrow> x \<noteq> y \<Longrightarrow> m x = Some (Slice b n) \<Longrightarrow> m y = Some (Slice b k) \<Longrightarrow> n = bf_cap (h ! b) \<and> k = n"
  unfolding subs_inv_def by blast

definition subs_ok :: "WSClient \<Rightarrow> bool" where
  "subs_ok ws \<longleftrightarrow> subs_inv (map_of (ws_subscriptions ws)) (ws_heap ws)"

fun subscribe_to :: "(string \<times> string) list \<Rightarrow> (string \<Rightarrow> string list option) \<Rightarrow> string \<Rightarrow> string list option" where
  "subscribe_to [] subs = subs"
| "subscribe_to ((symbol, channel) # rest) subs = subscribe_to rest
     (case subs symbol of None \<Rightarrow> subs(symbol \<mapsto> [channel])
      | Some cs \<Rightarrow> if channel \<in> set cs then subs else subs(symbol \<mapsto> cs @ [channel]))"

lemma subs_inv_put:
  assumes "subs_inv m h" and "slice_ok h' (Slice b n)"
    and other: "\<And>x t. x \<noteq> symbol \<Longrightarrow> m x = Some t \<Longrightarrow> slice_ok h' t"
    and cap: "\<And>c. c < length h \<Longrightarrow> bf_cap (h' ! c) = bf_cap (h ! c)"
    and own: "\<And>x k. x \<noteq> symbol \<Longrightarrow> m x \<noteq> Some (Slice b k)"
  shows "subs_inv (m(symbol \<mapsto> Slice b n)) h'"
  unfolding subs_inv_def
proof (intro conjI allI impI)
  fix x s assume x: "(m(symbol \<mapsto> Slice b n)) x = Some s"
  show "slice_ok h' s" using x assms(2) other [of x s] by (cases "x = symbol") auto
  show "s \<noteq> NilSlice" using x subs_inv_slice [OF assms(1), of x s] by (cases "x = symbol") auto
next
  fix x y c k l
  assume xy: "x \<noteq> y" "(m(symbol \<mapsto> Slice b n)) x = Some (Slice c k)" "(m(symbol \<mapsto> Slice b n)) y = Some (Slice c l)"
  have "x \<noteq> symbol" using xy own [of y l] by (cases "x = symbol") auto
  moreover have "y \<noteq> symbol" using xy own [of x k] by (cases "y = symbol") auto
  ultimately have m: "m x = Some (Slice c k)" "m y = Some (Slice c l)" using xy by auto
  show "k = bf_cap (h' ! c)" "l = k"
    using subs_inv_shared [OF assms(1) xy(1) m] cap [OF subs_inv_buffer [OF assms(1) m(1)]] by auto
qed

lemma channels_put:
  assumes "\<And>x t. x \<noteq> symbol \<Longrightarrow> map_of (ws_subscriptions ws) x = Some t \<Longrightarrow> view h' t = view (ws_heap ws) t"
  shows "channels_of (ws\<lparr>ws_subscriptions := AList.update symbol s (ws_subscriptions ws), ws_heap := h'\<rparr>) =
    (channels_of ws)(symbol \<mapsto> view h' s)"
proof
  fix x
  show "channels_of (ws\<lparr>ws_subscriptions := AList.update symbol s (ws_subscriptions ws), ws_heap := h'\<rparr>) x =
      ((channels_of ws)(symbol \<mapsto> view h' s)) x"
    using assms [of x] by (cases "map_of (ws_subscriptions ws) x") (auto simp: channels_of_def update_conv')
qed

lemma Subscribe_step:
  assumes "subs_ok ws" and "\<And>n. n \<le> grow n" and "fst (Subscribe grow symbol channel written ws) = ws'"
  shows "subs_ok ws' \<and> channels_of ws' = subscribe_to [(symbol, channel)] (channels_of ws)"
proof -
  let ?m = "map_of (ws_subscriptions ws)" and ?h = "ws_heap ws"
  have inv: "subs_inv ?m ?h" using assms(1) by (simp add: subs_ok_def)
  have put: "subs_ok ws' \<and> channels_of ws' = (channels_of ws)(symbol \<mapsto> view h (Slice b n))"
    if "ws' = ws\<lparr>ws_subscriptions := AList.update symbol (Slice b n) (ws_subscriptions ws), ws_heap := h\<rparr>"
      and "slice_ok h (Slice b n)" and "\<And>x t. x \<noteq> symbol \<Longrightarrow> ?m x = Some t \<Longrightarrow> slice_ok h t \<and> view h t = view ?h t"
      and "\<And>c. c < length ?h \<Longrightarrow> bf_cap (h ! c) = bf_cap (?h ! c)" and "\<And>x k. x \<noteq> symbol \<Longrightarrow> ?m x \<noteq> Some (Slice b k)"
    for h b n
  proof -
    have "subs_inv (?m(symbol \<mapsto> Slice b n)) h"
      by (rule subs_inv_put [OF inv that(2) _ that(4,5)]) (use that(3) in blast)
    moreover have "channels_of ws' = (channels_of ws)(symbol \<mapsto> view h (Slice b n))"
      unfolding that(1) by (rule channels_put) (use that(3) in blast)
    ultimately show ?thesis by (simp add: subs_ok_def that(1) update_conv')
  qed
  show ?thesis
  proof (cases "?m symbol")
    case None
    let ?b = "length ?h"
    have n: "slice_new 1 [channel] ?h = (Slice ?b 1, ?h @ [\<lparr>bf_cells = [channel], bf_cap = 1\<rparr>])"
      by (simp add: slice_new_def)
    note v = slice_new_view [OF n]
    have fresh: "?m x \<noteq> Some (Slice ?b k)" for x k using subs_inv_buffer [OF inv, of x ?b k] by auto
    have "subs_ok ws' \<and> channels_of ws' = (channels_of ws)(symbol \<mapsto> view (?h @ [\<lparr>bf_cells = [channel], bf_cap = 1\<rparr>]) (Slice ?b 1))"
    proof (rule put)
      show "ws' = ws\<lparr>ws_subscriptions := AList.update symbol (Slice ?b 1) (ws_subscriptions ws),
          ws_heap := ?h @ [\<lparr>bf_cells = [channel], bf_cap = 1\<rparr>]\<rparr>"
        using assms(3) None n by (simp add: Subscribe_def Let_def)
      show "slice_ok (?h @ [\<lparr>bf_cells = [channel], bf_cap = 1\<rparr>]) t \<and> view (?h @ [\<lparr>bf_cells = [channel], bf_cap = 1\<rparr>]) t = view ?h t"
        if "?m x = Some t" for x t using v(3) subs_inv_slice [OF inv that] by blast
    qed (use v(2) fresh in \<open>simp_all add: nth_append\<close>)
    then show ?thesis using None v(1) by (simp add: channels_of_def)
  next
    case (Some s)
    have old: "slice_ok ?h s" using subs_inv_slice [OF inv Some] by blast
    show ?thesis
    proof (cases "channel \<in> set (view ?h s)")
      case True
      with Some assms(1,3) show ?thesis by (simp add: Subscribe_def Let_def channels_of_def)
    next
      case False
      obtain s' h where n: "slice_append grow s channel ?h = (s', h)" by (cases "slice_append grow s channel ?h")
      from slice_append_own [OF n] obtain b k where s': "s' = Slice b k"
        and b: "b = length ?h \<or> (\<exists>m. s = Slice b m \<and> m < bf_cap (?h ! b))" by blast
      note v = slice_append_view [OF n old assms(2), unfolded s']
      have "subs_ok ws' \<and> channels_of ws' = (channels_of ws)(symbol \<mapsto> view h (Slice b k))"
      proof (rule put)
        show "ws' = ws\<lparr>ws_subscriptions := AList.update symbol (Slice b k) (ws_subscriptions ws), ws_heap := h\<rparr>"
          using assms(3) Some False n s' by (simp add: Subscribe_def Let_def)
        show "slice_ok h t \<and> view h t = view ?h t" if x: "x \<noteq> symbol" "?m x = Some t" for x t
        proof (rule slice_append_frame [OF n old])
          show "slice_ok ?h t" using subs_inv_slice [OF inv x(2)] by blast
          show "m \<le> n" if "s = Slice b n" "t = Slice b m" for b n m
            using subs_inv_shared [OF inv, of symbol x b n m] that x Some by auto
        qed
        show "?m x \<noteq> Some (Slice b l)" if "x \<noteq> symbol" for x l
          using b subs_inv_buffer [OF inv, of x b l] subs_inv_shared [OF inv, of symbol x b _ l] that Some by fastforce
      qed (use v(2) slice_append_caps [OF n] in simp_all)
      then show ?thesis using v(1) False Some by (simp add: channels_of_def)
    qed
  qed
qed

lemma map_of_updates: "map_of (fold (\<lambda>x. AList.update x v) xs m) = (\<lambda>y. if y \<in> set xs then Some v else map_of m y)"
  by (induction xs arbitrary: m) (auto simp: update_conv')

definition default_client :: "string heap \<Rightarrow> WSClient" where
  "default_client h = NewWSClient (fst (DefaultWSClientConfig h)) (snd (DefaultWSClientConfig h))"

lemma default_client_subs:
  assumes "Connect symbols ans (default_client h) = (ws, es, None)"
  shows "subs_ok ws \<and> channels_of ws = (\<lambda>s. if s \<in> set symbols then Some default_channels else None)"
proof -
  let ?s = "Slice (length h) 3" and ?h = "h @ [\<lparr>bf_cells = default_channels, bf_cap = 3\<rparr>]"
  have new: "ws_state (default_client h) = StateDisconnected" "wc_Channels (ws_config (default_client h)) = ?s"
    "ws_heap (default_client h) = ?h" "ws_subscriptions (default_client h) = []"
    by (simp_all add: default_client_def NewWSClient_def DefaultWSClientConfig_def slice_new_def default_channels_def)
  let ?ws = "(default_client h)\<lparr>ws_state := StateConnecting,
      ws_subscriptions := fold (\<lambda>s. AList.update s ?s) symbols [], ws_config := (ws_config (default_client h))\<lparr>wc_Symbols := symbols\<rparr>\<rparr>"
  obtain ws1 es1 r where e: "ws_establish ans ?ws = (ws1, es1, r)" by (cases "ws_establish ans ?ws")
  have r: "r = None" using assms new e by (auto simp: Connect_def Let_def split: option.splits)
  have "ws_subscriptions ws1 = ws_subscriptions ?ws \<and> ws_heap ws1 = ?h"
    using e by (cases rule: establish_cases) (auto simp: new)
  moreover have "ws_subscriptions ws = ws_subscriptions ws1 \<and> ws_heap ws = ws_heap ws1"
    using assms new e r by (auto simp: Connect_def Let_def clearStaleFlags_def)
  ultimately have "map_of (ws_subscriptions ws) = (\<lambda>s. if s \<in> set symbols then Some ?s else None)" "ws_heap ws = ?h"
    by (simp_all add: map_of_updates fun_eq_iff)
  then show ?thesis
    by (auto simp: subs_ok_def subs_inv_def channels_of_def slice_ok_def view_def default_channels_def nth_append fun_eq_iff
        split: if_splits)
qed

text \<open>Requests, each with how the runtime grows a slice and whether the write succeeds.\<close>

fun subscribe_all :: "((nat \<Rightarrow> nat) \<times> string \<times> string \<times> bool) list \<Rightarrow> WSClient \<Rightarrow> WSClient" where
  "subscribe_all [] ws = ws"
| "subscribe_all ((grow, symbol, channel, written) # rest) ws = subscribe_all rest (fst (Subscribe grow symbol channel written ws))"

lemma subscribe_all_refines:
  "subs_ok ws \<Longrightarrow> \<forall>(grow, _) \<in> set reqs. \<forall>n. n \<le> grow n \<Longrightarrow>
    channels_of (subscribe_all reqs ws) = subscribe_to (map (\<lambda>(_, symbol, channel, _). (symbol, channel)) reqs) (channels_of ws)"
proof (induction reqs arbitrary: ws)
  case (Cons q reqs)
  obtain grow symbol channel written where q: "q = (grow, symbol, channel, written)" by (cases q)
  note step = Subscribe_step [OF Cons.prems(1) _ refl, of grow symbol channel written]
  from Cons.prems(2) q have "\<And>n. n \<le> grow n" "\<forall>(grow, _) \<in> set reqs. \<forall>n. n \<le> grow n" by auto
  with step Cons.IH [of "fst (Subscribe grow symbol channel written ws)"] q show ?case by simp
qed simp

text \<open>C24: Subscriptions of a client with the default configuration are independent of each other although all symbols
  begin with one shared slice. After a successful \<open>Connect\<close> and any sequence of calls of \<open>Subscribe\<close>, each symbol of
  \<open>Connect\<close> has the three default channels followed by those requested for it, in order and without repetition, and
  any other symbol has what was requested for it, whatever writes failed and however \<open>append\<close> grows its copies.
\<close>

theorem subscriptions_independent:
  assumes "Connect symbols ans (default_client h) = (ws, es, None)" and "\<forall>(grow, _) \<in> set reqs. \<forall>n. n \<le> grow n"
  shows "channels_of (subscribe_all reqs ws) = subscribe_to (map (\<lambda>(_, symbol, channel, _). (symbol, channel)) reqs)
    (\<lambda>s. if s \<in> set symbols then Some default_channels else None)"
  using subscribe_all_refines [OF _ assms(2), of ws] default_client_subs [OF assms(1)] by simp

definition sample_requests :: "((nat \<Rightarrow> nat) \<times> string \<times> string \<times> bool) list" where
  "sample_requests = [(\<lambda>n. 2 * n, ''BTC'', ''candle'', True), (\<lambda>n. n, ''ETH'', ''books'', False), (\<lambda>n. n, ''SOL'', ''tickers'', True),
     (\<lambda>n. 2 * n, ''BTC'', ''tickers'', True), (\<lambda>n. 2 * n, ''BTC'', ''status'', True)]"

theorem subscriptions_independent_witness:
  "\<exists>ws es. Connect [''BTC'', ''ETH''] good_dial (default_client []) = (ws, es, None) \<and>
    channels_of (subscribe_all sample_requests ws) ''ETH'' = Some [''tickers'', ''books5'', ''trades'', ''books''] \<and>
    channels_of (subscribe_all sample_requests ws) ''BTC'' = Some [''tickers'', ''books5'', ''trades'', ''candle'', ''status'']"
proof -
  have "snd (snd (Connect [''BTC'', ''ETH''] good_dial (default_client []))) = None" by code_simp
  then obtain ws es where c: "Connect [''BTC'', ''ETH''] good_dial (default_client []) = (ws, es, None)"
    by (cases "Connect [''BTC'', ''ETH''] good_dial (default_client [])") auto
  have "\<forall>(grow, _) \<in> set sample_requests. \<forall>n. n \<le> grow n" by (simp add: sample_requests_def)
  from subscriptions_independent [OF c this] c show ?thesis by (simp add: sample_requests_def default_channels_def)
qed

section \<open>What goes wrong\<close>

text \<open>
  A reader that has seen a connection and calls \<open>ReadMessage\<close> after the heartbeat loop has closed it
  dereferences nil: the program ends.
\<close>

lemma reader_races_with_close:
  "map_option (\<lambda>(r, _). r = Panicked) (ws_exec [WiTop 0, WiHeartbeat (ws_seconds 60) True, WiAnnounce, WiBlock 0] public_client) = Some True"
  by code_simp

text \<open>
  A reconnection that has set its state but not restored its loops can be overtaken by the loss of the new
  connection, which the heartbeat loop of the old one finds: afterwards the flags are cleared and new orders are
  resumed although the client is reconnecting.
\<close>

definition overtaken :: "ws_input list" where
  "overtaken = [WiTop 0, WiBlock 0, WiRead 0 (WsError False), WiAnnounce, WiTake 0, WiAttempt 0 good_dial,
     WiHeartbeat (ws_seconds 10) False, WiAnnounce, WiRestored 0]"

lemma resumed_while_reconnecting:
  "map_option (\<lambda>(r, es). (case r of Returned ws \<Rightarrow> (ws_state ws, IsDataStale ''BTC'' ws) | Panicked \<Rightarrow> (StateConnecting, True),
      filter (\<lambda>e. e = PausedNewOrders \<or> e = ResumedNewOrders) es)) (ws_exec overtaken public_client) =
   Some ((StateReconnecting, False), [PausedNewOrders, PausedNewOrders, ResumedNewOrders])"
  by code_simp

text \<open>
  A client that has used up its attempts is disconnected: \<open>Disconnect\<close> returns at once and neither the reconnect
  loop nor the heartbeat loop of a connection that its reader gave up ever end.
\<close>

lemma exhausted_client_leaks:
  "ws_state ws = StateDisconnected \<Longrightarrow> Disconnect ws = Returned ws"
  by (simp add: Disconnect_def)

text \<open>An attempt that succeeds after \<open>Disconnect\<close> has closed the connection leaves one open for good.\<close>

lemma connection_survives_Disconnect:
  "map_option (\<lambda>(r, _). case r of Returned ws \<Rightarrow> (ws_state ws, ws_conn ws) | Panicked \<Rightarrow> (StateConnecting, None))
     (ws_exec [WiTop 0, WiBlock 0, WiRead 0 (WsError False), WiAnnounce, WiTake 0, WiDisconnect, WiAttempt 0 good_dial,
        WiRestored 0, WiTop 0, WiHeartbeatDone, WiHeartbeatDone, WiReconnectDone 0, WiDisconnectReturns] public_client) =
   Some (StateDisconnected, Some 1)"
  by code_simp

text \<open>Unsubscribing one symbol from a channel rewrites the slice that all symbols share.\<close>

lemma Unsubscribe_corrupts:
  "(let ws = fst (Unsubscribe ''BTC'' ''books5'' True public_client)
    in (channels_of ws ''BTC'', channels_of ws ''ETH'')) =
   (Some [''tickers'', ''trades''], Some [''tickers'', ''trades'', ''trades''])"
  by code_simp

end
