(* ===== verification/LegacyStore.thy ===== *)
theory LegacyStore
  imports OrderNormalization FillIdentity
begin

text \<open>
  The tables of orders, positions and strategy states (\<open>src/internal/persistence/store.go\<close>). A table is an
  association list from its primary key to its row; a row has the columns as SQLite stores them, decimals as
  text. \<open>dstr\<close> and \<open>dparse\<close> are \<open>decimal.String\<close> and \<open>decimal.NewFromString\<close>, \<open>jvalid\<close> is \<open>json.Valid\<close>; whether a
  statement succeeds is an argument of each operation. A query without \<open>ORDER BY\<close> returns the rows in any order;
  what is proved is independent of the order.
\<close>

section \<open>Columns\<close>

fun Side_int :: "Side \<Rightarrow> int" where
  "Side_int SideBuy = 0"
| "Side_int SideSell = 1"
| "Side_int (SideOther n) = n"

definition int_Side :: "int \<Rightarrow> Side" where
  "int_Side n = (if n = 0 then SideBuy else if n = 1 then SideSell else SideOther n)"

definition named_statuses :: "OrderStatus list" where
  "named_statuses = [OrderStatusPending, OrderStatusSubmitted, OrderStatusOpen, OrderStatusPartiallyFilled, OrderStatusFilled,
     OrderStatusCancelled, OrderStatusRejected, OrderStatusExpired, OrderStatusError]"

fun OrderStatus_int :: "OrderStatus \<Rightarrow> int" where
  "OrderStatus_int OrderStatusPending = 0"
| "OrderStatus_int OrderStatusSubmitted = 1"
| "OrderStatus_int OrderStatusOpen = 2"
| "OrderStatus_int OrderStatusPartiallyFilled = 3"
| "OrderStatus_int OrderStatusFilled = 4"
| "OrderStatus_int OrderStatusCancelled = 5"
| "OrderStatus_int OrderStatusRejected = 6"
| "OrderStatus_int OrderStatusExpired = 7"
| "OrderStatus_int OrderStatusError = 8"
| "OrderStatus_int (OrderStatusOther n) = n"

definition int_OrderStatus :: "int \<Rightarrow> OrderStatus" where
  "int_OrderStatus n = (if 0 \<le> n \<and> n < 9 then named_statuses ! nat n else OrderStatusOther n)"

text \<open>A value is proper when its constructor is that of its number.\<close>

definition proper_side :: "Side \<Rightarrow> bool" where
  "proper_side s \<longleftrightarrow> int_Side (Side_int s) = s"

definition proper_status :: "OrderStatus \<Rightarrow> bool" where
  "proper_status s \<longleftrightarrow> int_OrderStatus (OrderStatus_int s) = s"

record order_row =
  or_exchange_order_id :: string
  or_symbol :: string
  or_side :: int
  or_price :: string
  or_quantity :: string
  or_filled_qty :: string
  or_status :: int
  or_strategy_id :: string
  or_created_at :: int
  or_updated_at :: int

record position_row =
  pr_side :: int
  pr_quantity :: string
  pr_avg_entry_price :: string
  pr_unrealized_pnl :: string
  pr_realized_pnl :: string

record strategy_row =
  sr_type :: string
  sr_is_active :: int
  sr_config_json :: string
  sr_state_json :: string

record StrategyStateRow =
  ss_StrategyID :: string
  ss_Type :: string
  ss_IsActive :: bool
  ss_ConfigJSON :: string
  ss_StateJSON :: string

record legacy_tables =
  lt_orders :: "(string, order_row) gomap"
  lt_positions :: "(string, position_row) gomap"
  lt_strategies :: "(string, strategy_row) gomap"

record SQLiteStore =
  sl_tables :: legacy_tables
  sl_dirty :: bool
  sl_flushTimer :: bool
  sl_closed :: bool

datatype store_error = StoreIsClosed | SaveFailed | Corrupted string | InvalidJSON string

section \<open>Opening and closing\<close>

definition open_steps :: "string list" where
  "open_steps = [''open'', ''ping'', ''PRAGMA journal_mode=WAL'', ''PRAGMA synchronous=FULL'', ''PRAGMA foreign_keys=ON'',
     ''PRAGMA busy_timeout=5000'', ''orders'', ''positions'', ''strategy_state'', ''migrate durable schema'']"

text \<open>The first step that fails ends the opening; the tables of an existing file stay as they are.\<close>

definition NewSQLiteStore :: "(string \<Rightarrow> bool) \<Rightarrow> legacy_tables \<Rightarrow> store_error + SQLiteStore" where
  "NewSQLiteStore io file =
     (case find (\<lambda>s. \<not> io s) open_steps of
        Some s \<Rightarrow> Inl (Corrupted s)
      | None \<Rightarrow> Inr \<lparr>sl_tables = file, sl_dirty = False, sl_flushTimer = False, sl_closed = False\<rparr>)"

definition markDirty :: "SQLiteStore \<Rightarrow> SQLiteStore" where
  "markDirty s = s\<lparr>sl_dirty := True, sl_flushTimer := True\<rparr>"

text \<open>The timer fires a second after it was armed. The callback may already be waiting when \<open>Close\<close> stops the timer.\<close>

definition flush_fires :: "SQLiteStore \<Rightarrow> SQLiteStore" where
  "flush_fires s = s\<lparr>sl_dirty := False, sl_flushTimer := False\<rparr>"

definition Close :: "SQLiteStore \<Rightarrow> SQLiteStore" where
  "Close s = (if sl_closed s then s else s\<lparr>sl_closed := True, sl_flushTimer := False\<rparr>)"

section \<open>Rows\<close>

definition order_row_of :: "(decimal \<Rightarrow> string) \<Rightarrow> Order \<Rightarrow> order_row" where
  "order_row_of dstr ord = \<lparr>or_exchange_order_id = o_ExchangeOrderId ord, or_symbol = o_Symbol ord, or_side = Side_int (o_Side ord),
     or_price = dstr (o_Price ord), or_quantity = dstr (o_Quantity ord), or_filled_qty = dstr (o_FilledQuantity ord),
     or_status = OrderStatus_int (o_Status ord), or_strategy_id = o_StrategyId ord, or_created_at = o_CreateTime ord,
     or_updated_at = o_UpdateTime ord\<rparr>"

definition position_row_of :: "(decimal \<Rightarrow> string) \<Rightarrow> Position \<Rightarrow> position_row" where
  "position_row_of dstr p = \<lparr>pr_side = Side_int (pos_Side p), pr_quantity = dstr (pos_Quantity p),
     pr_avg_entry_price = dstr (pos_AvgEntryPrice p), pr_unrealized_pnl = dstr (pos_UnrealizedPnL p),
     pr_realized_pnl = dstr (pos_RealizedPnL p)\<rparr>"

text \<open>The columns of a row, parsed in the order of the code; the first that does not parse is the error.\<close>

fun parse_columns :: "decparse \<Rightarrow> (string \<times> string) list \<Rightarrow> store_error + decimal list" where
  "parse_columns dparse [] = Inr []"
| "parse_columns dparse ((column, text) # rest) =
     (case dparse text of
        None \<Rightarrow> Inl (Corrupted column)
      | Some d \<Rightarrow> (case parse_columns dparse rest of Inl e \<Rightarrow> Inl e | Inr ds \<Rightarrow> Inr (d # ds)))"

definition row_order :: "decparse \<Rightarrow> string \<times> order_row \<Rightarrow> store_error + Order" where
  "row_order dparse row =
     (case row of (orderID, r) \<Rightarrow>
       (case parse_columns dparse [(''price'', or_price r), (''quantity'', or_quantity r), (''filled_qty'', or_filled_qty r)] of
          Inl e \<Rightarrow> Inl e
        | Inr ds \<Rightarrow> Inr (zero_Order\<lparr>o_OrderId := orderID, o_ExchangeOrderId := or_exchange_order_id r, o_Symbol := or_symbol r,
            o_Side := int_Side (or_side r), o_Price := ds ! 0, o_Quantity := ds ! 1, o_FilledQuantity := ds ! 2,
            o_Status := int_OrderStatus (or_status r), o_StrategyId := or_strategy_id r, o_CreateTime := or_created_at r,
            o_UpdateTime := or_updated_at r\<rparr>)))"

definition row_position :: "decparse \<Rightarrow> string \<times> position_row \<Rightarrow> store_error + Position" where
  "row_position dparse row =
     (case row of (symbol, r) \<Rightarrow>
       (case parse_columns dparse [(''quantity'', pr_quantity r), (''avg_entry_price'', pr_avg_entry_price r),
              (''unrealized_pnl'', pr_unrealized_pnl r), (''realized_pnl'', pr_realized_pnl r)] of
          Inl e \<Rightarrow> Inl e
        | Inr ds \<Rightarrow> Inr \<lparr>pos_Symbol = symbol, pos_Side = int_Side (pr_side r), pos_Quantity = ds ! 0, pos_AvgEntryPrice = ds ! 1,
            pos_UnrealizedPnL = ds ! 2, pos_RealizedPnL = ds ! 3, pos_LastUpdateTime = 0\<rparr>))"

definition row_strategy :: "string \<times> strategy_row \<Rightarrow> StrategyStateRow" where
  "row_strategy row = (case row of (sid, r) \<Rightarrow> \<lparr>ss_StrategyID = sid, ss_Type = sr_type r, ss_IsActive = (sr_is_active r \<noteq> 0),
     ss_ConfigJSON = sr_config_json r, ss_StateJSON = sr_state_json r\<rparr>)"

fun all_rows :: "('a \<Rightarrow> store_error + 'b) \<Rightarrow> 'a list \<Rightarrow> store_error + 'b list" where
  "all_rows f [] = Inr []"
| "all_rows f (r # rs) = (case f r of Inl e \<Rightarrow> Inl e | Inr x \<Rightarrow> (case all_rows f rs of Inl e \<Rightarrow> Inl e | Inr xs \<Rightarrow> Inr (x # xs)))"

section \<open>Saving and loading\<close>

text \<open>\<open>INSERT OR REPLACE\<close> and the wrapper around each statement: a closed store refuses, a failed statement changes nothing.\<close>

definition save_with :: "bool \<Rightarrow> (legacy_tables \<Rightarrow> legacy_tables) \<Rightarrow> SQLiteStore \<Rightarrow> SQLiteStore \<times> store_error option" where
  "save_with ok f s =
     (if sl_closed s then (s, Some StoreIsClosed)
      else if \<not> ok then (s, Some SaveFailed)
      else (markDirty (s\<lparr>sl_tables := f (sl_tables s)\<rparr>), None))"

definition SaveOrder :: "(decimal \<Rightarrow> string) \<Rightarrow> bool \<Rightarrow> Order \<Rightarrow> SQLiteStore \<Rightarrow> SQLiteStore \<times> store_error option" where
  "SaveOrder dstr ok ord =
     save_with ok (\<lambda>t. t\<lparr>lt_orders := AList.update (o_OrderId ord) (order_row_of dstr ord) (lt_orders t)\<rparr>)"

definition SavePosition :: "(decimal \<Rightarrow> string) \<Rightarrow> bool \<Rightarrow> Position \<Rightarrow> SQLiteStore \<Rightarrow> SQLiteStore \<times> store_error option" where
  "SavePosition dstr ok p =
     save_with ok (\<lambda>t. t\<lparr>lt_positions := AList.update (pos_Symbol p) (position_row_of dstr p) (lt_positions t)\<rparr>)"

definition SaveStrategyState ::
  "(string \<Rightarrow> bool) \<Rightarrow> bool \<Rightarrow> string \<Rightarrow> string \<Rightarrow> bool \<Rightarrow> string \<Rightarrow> string \<Rightarrow> SQLiteStore \<Rightarrow> SQLiteStore \<times> store_error option" where
  "SaveStrategyState jvalid ok sid stateType isActive configJSON stateJSON s =
     (if sl_closed s then (s, Some StoreIsClosed)
      else if configJSON \<noteq> [] \<and> \<not> jvalid configJSON then (s, Some (InvalidJSON ''config''))
      else if stateJSON \<noteq> [] \<and> \<not> jvalid stateJSON then (s, Some (InvalidJSON ''state''))
      else save_with ok (\<lambda>t. t\<lparr>lt_strategies := AList.update sid
          \<lparr>sr_type = stateType, sr_is_active = (if isActive then 1 else 0), sr_config_json = configJSON, sr_state_json = stateJSON\<rparr>
          (lt_strategies t)\<rparr>) s)"

text \<open>What a query can do: fail, or fail at a row, or return all rows.\<close>

datatype query_outcome = QueryFails | RowsEndEarly | QueryOk

definition load_with :: "query_outcome \<Rightarrow> ('r \<Rightarrow> store_error + 'a) \<Rightarrow> 'r list \<Rightarrow> SQLiteStore \<Rightarrow> store_error + 'a list" where
  "load_with q parse rows s =
     (if sl_closed s then Inl StoreIsClosed
      else case q of
        QueryFails \<Rightarrow> Inl (Corrupted ''query'')
      | RowsEndEarly \<Rightarrow> Inl (Corrupted ''rows'')
      | QueryOk \<Rightarrow> all_rows parse rows)"

definition LoadOrders :: "decparse \<Rightarrow> query_outcome \<Rightarrow> SQLiteStore \<Rightarrow> store_error + Order list" where
  "LoadOrders dparse q s = load_with q (row_order dparse) (lt_orders (sl_tables s)) s"

definition LoadPositions :: "decparse \<Rightarrow> query_outcome \<Rightarrow> SQLiteStore \<Rightarrow> store_error + Position list" where
  "LoadPositions dparse q s = load_with q (row_position dparse) (lt_positions (sl_tables s)) s"

definition LoadStrategyStates :: "query_outcome \<Rightarrow> SQLiteStore \<Rightarrow> store_error + StrategyStateRow list" where
  "LoadStrategyStates q s = load_with q (Inr \<circ> row_strategy) (lt_strategies (sl_tables s)) s"

section \<open>The round trip\<close>

text \<open>What the columns keep of an order and of a position.\<close>

definition kept_order :: "Order \<Rightarrow> Order" where
  "kept_order ord = ord\<lparr>o_ClientOrderID := [], o_OrderType := OrderTypeLimit, o_AvgFillPrice := 0\<rparr>"

definition kept_position :: "Position \<Rightarrow> Position" where
  "kept_position p = p\<lparr>pos_LastUpdateTime := 0\<rparr>"

text \<open>A history of the store: saves with their outcomes, ticks of the timer, and a possible end.\<close>

datatype store_call =
    CallSaveOrder bool Order | CallSavePosition bool Position | CallSaveStrategy bool string string bool string string
  | CallFlush | CallClose

definition store_next :: "(decimal \<Rightarrow> string) \<Rightarrow> (string \<Rightarrow> bool) \<Rightarrow> store_call \<Rightarrow> SQLiteStore \<Rightarrow> SQLiteStore" where
  "store_next dstr jvalid c s =
     (case c of
        CallSaveOrder ok ord \<Rightarrow> fst (SaveOrder dstr ok ord s)
      | CallSavePosition ok p \<Rightarrow> fst (SavePosition dstr ok p s)
      | CallSaveStrategy ok sid ty a cj sj \<Rightarrow> fst (SaveStrategyState jvalid ok sid ty a cj sj s)
      | CallFlush \<Rightarrow> flush_fires s
      | CallClose \<Rightarrow> Close s)"

definition store_history :: "(decimal \<Rightarrow> string) \<Rightarrow> (string \<Rightarrow> bool) \<Rightarrow> store_call list \<Rightarrow> SQLiteStore \<Rightarrow> SQLiteStore" where
  "store_history dstr jvalid calls s = foldl (\<lambda>s c. store_next dstr jvalid c s) s calls"

text \<open>The orders that a history has saved, the last of each id.\<close>

definition saved_orders :: "store_call list \<Rightarrow> (string, Order) gomap \<Rightarrow> (string, Order) gomap" where
  "saved_orders calls m =
     foldl (\<lambda>m c. case c of CallSaveOrder True ord \<Rightarrow> AList.update (o_OrderId ord) ord m | _ \<Rightarrow> m) m calls"

definition saved_positions :: "store_call list \<Rightarrow> (string, Position) gomap \<Rightarrow> (string, Position) gomap" where
  "saved_positions calls m =
     foldl (\<lambda>m c. case c of CallSavePosition True p \<Rightarrow> AList.update (pos_Symbol p) p m | _ \<Rightarrow> m) m calls"

text \<open>Calls whose enumerations are proper and whose decimals print as text that parses back; the store is not closed.\<close>

definition reads_back :: "decparse \<Rightarrow> (decimal \<Rightarrow> string) \<Rightarrow> decimal list \<Rightarrow> bool" where
  "reads_back dparse dstr ds \<longleftrightarrow> list_all (\<lambda>d. dparse (dstr d) = Some d) ds"

definition proper_order :: "decparse \<Rightarrow> (decimal \<Rightarrow> string) \<Rightarrow> Order \<Rightarrow> bool" where
  "proper_order dparse dstr ord \<longleftrightarrow> proper_side (o_Side ord) \<and> proper_status (o_Status ord) \<and>
     reads_back dparse dstr [o_Price ord, o_Quantity ord, o_FilledQuantity ord]"

definition proper_position :: "decparse \<Rightarrow> (decimal \<Rightarrow> string) \<Rightarrow> Position \<Rightarrow> bool" where
  "proper_position dparse dstr p \<longleftrightarrow> proper_side (pos_Side p) \<and>
     reads_back dparse dstr [pos_Quantity p, pos_AvgEntryPrice p, pos_UnrealizedPnL p, pos_RealizedPnL p]"

fun proper_call :: "decparse \<Rightarrow> (decimal \<Rightarrow> string) \<Rightarrow> store_call \<Rightarrow> bool" where
  "proper_call dparse dstr (CallSaveOrder _ ord) \<longleftrightarrow> proper_order dparse dstr ord"
| "proper_call dparse dstr (CallSavePosition _ p) \<longleftrightarrow> proper_position dparse dstr p"
| "proper_call dparse dstr CallClose \<longleftrightarrow> False"
| "proper_call dparse dstr _ \<longleftrightarrow> True"

lemma row_order_roundtrip:
  "proper_order dparse dstr ord \<Longrightarrow> row_order dparse (o_OrderId ord, order_row_of dstr ord) = Inr (kept_order ord)"
  by (cases ord) (simp add: row_order_def order_row_of_def kept_order_def zero_Order_def proper_order_def reads_back_def
      proper_side_def proper_status_def)

lemma row_position_roundtrip:
  "proper_position dparse dstr p \<Longrightarrow> row_position dparse (pos_Symbol p, position_row_of dstr p) = Inr (kept_position p)"
  by (cases p) (simp add: row_position_def position_row_of_def kept_position_def proper_position_def reads_back_def proper_side_def)

lemma all_rows_map: "\<forall>x \<in> set xs. f (g x) = Inr (h x) \<Longrightarrow> all_rows f (map g xs) = Inr (map h xs)"
  by (induction xs) auto

lemma map_update: "map (\<lambda>(k, v). (k, f v)) (AList.update k v m) = AList.update k (f v) (map (\<lambda>(k, v). (k, f v)) m)"
  by (induction m) auto

text \<open>The tables are the images of what was saved, entry by entry.\<close>

definition mirrors ::
  "decparse \<Rightarrow> (decimal \<Rightarrow> string) \<Rightarrow> SQLiteStore \<Rightarrow> (string, Order) gomap \<Rightarrow> (string, Position) gomap \<Rightarrow> bool" where
  "mirrors dparse dstr s os ps \<longleftrightarrow> \<not> sl_closed s \<and>
     lt_orders (sl_tables s) = map (\<lambda>(k, ord). (k, order_row_of dstr ord)) os \<and>
     lt_positions (sl_tables s) = map (\<lambda>(k, p). (k, position_row_of dstr p)) ps \<and>
     (\<forall>(k, ord) \<in> set os. o_OrderId ord = k \<and> proper_order dparse dstr ord) \<and>
     (\<forall>(k, p) \<in> set ps. pos_Symbol p = k \<and> proper_position dparse dstr p)"

lemma set_update: "x \<in> set (AList.update k v m) \<Longrightarrow> x = (k, v) \<or> x \<in> set m"
  by (induction m) (auto split: if_splits)

lemma mirrors_next:
  assumes "mirrors dparse dstr s os ps" and "proper_call dparse dstr c"
  shows "mirrors dparse dstr (store_next dstr jvalid c s) (saved_orders [c] os) (saved_positions [c] ps)"
  using assms
  by (cases c)
    (auto simp: mirrors_def store_next_def saved_orders_def saved_positions_def SaveOrder_def SavePosition_def SaveStrategyState_def
      save_with_def markDirty_def flush_fires_def map_update split: bool.splits dest!: set_update)

lemma mirrors_history:
  "mirrors dparse dstr s os ps \<Longrightarrow> \<forall>c \<in> set calls. proper_call dparse dstr c \<Longrightarrow>
    mirrors dparse dstr (store_history dstr jvalid calls s) (saved_orders calls os) (saved_positions calls ps)"
proof (induction calls arbitrary: s os ps)
  case (Cons c calls)
  from mirrors_next [OF Cons.prems(1), of c jvalid] Cons.prems(2)
  have "mirrors dparse dstr (store_next dstr jvalid c s) (saved_orders [c] os) (saved_positions [c] ps)" by simp
  from Cons.IH [OF this] Cons.prems(2) show ?case by (simp add: store_history_def saved_orders_def saved_positions_def)
qed (simp add: store_history_def saved_orders_def saved_positions_def)

definition empty_tables :: legacy_tables where
  "empty_tables = \<lparr>lt_orders = [], lt_positions = [], lt_strategies = []\<rparr>"

text \<open>C21: Orders and positions survive a restart. After any history of a new store in which saves may fail and the flush
  timer may fire at any moment, loading returns, for each order id and each symbol saved successfully, the last order
  and position saved, once each and nothing else \<emdash> without the client order id, the order type and the average fill
  price of orders and the update time of positions, for which there are no columns.
\<close>

theorem legacy_store_roundtrip:
  assumes "NewSQLiteStore io empty_tables = Inr s" and "\<forall>c \<in> set calls. proper_call dparse dstr c"
  shows "LoadOrders dparse QueryOk (store_history dstr jvalid calls s) = Inr (map (kept_order \<circ> snd) (saved_orders calls [])) \<and>
    LoadPositions dparse QueryOk (store_history dstr jvalid calls s) = Inr (map (kept_position \<circ> snd) (saved_positions calls []))"
proof -
  have "mirrors dparse dstr s [] []"
    using assms(1) by (auto simp: NewSQLiteStore_def mirrors_def empty_tables_def split: option.splits)
  note m = mirrors_history [OF this assms(2), of jvalid]
  have "row_order dparse ((\<lambda>(k, ord). (k, order_row_of dstr ord)) x) = Inr ((kept_order \<circ> snd) x)"
    if "x \<in> set (saved_orders calls [])" for x
    using m that row_order_roundtrip [of dparse dstr "snd x"] by (cases x) (auto simp: mirrors_def)
  moreover have "row_position dparse ((\<lambda>(k, p). (k, position_row_of dstr p)) x) = Inr ((kept_position \<circ> snd) x)"
    if "x \<in> set (saved_positions calls [])" for x
    using m that row_position_roundtrip [of dparse dstr "snd x"] by (cases x) (auto simp: mirrors_def)
  ultimately show ?thesis
    using m by (simp add: LoadOrders_def LoadPositions_def load_with_def mirrors_def all_rows_map)
qed

text \<open>Decimals that are natural numbers, printed in base ten.\<close>

definition nat_print :: "decimal \<Rightarrow> string" where
  "nat_print d = Itoa (nat \<lfloor>d\<rfloor>)"

definition nat_read :: decparse where
  "nat_read s = Some (of_nat (Atoi_from 0 s))"

definition sample_order :: "int \<Rightarrow> Order" where
  "sample_order q = zero_Order\<lparr>o_OrderId := ''a'', o_ClientOrderID := ''c'', o_Price := 100, o_Quantity := 5, o_FilledQuantity := of_int q,
     o_Status := OrderStatusOpen, o_OrderType := OrderTypePostOnly\<rparr>"

definition sample_calls :: "store_call list" where
  "sample_calls = [CallSaveOrder True (sample_order 0), CallFlush, CallSaveOrder True (sample_order 2), CallSaveOrder False (sample_order 3)]"

theorem legacy_store_roundtrip_witness:
  "\<exists>s. NewSQLiteStore (\<lambda>_. True) empty_tables = Inr s \<and>
    LoadOrders nat_read QueryOk (store_history nat_print (\<lambda>_. True) sample_calls s) =
      Inr [(sample_order 2)\<lparr>o_ClientOrderID := [], o_OrderType := OrderTypeLimit\<rparr>]"
proof -
  obtain s where s: "NewSQLiteStore (\<lambda>_. True) empty_tables = Inr s" by (simp add: NewSQLiteStore_def open_steps_def)
  have "\<forall>c \<in> set sample_calls. proper_call nat_read nat_print c" by code_simp
  moreover have "map (kept_order \<circ> snd) (saved_orders sample_calls []) = [(sample_order 2)\<lparr>o_ClientOrderID := [], o_OrderType := OrderTypeLimit\<rparr>]"
    by code_simp
  ultimately show ?thesis using legacy_store_roundtrip [OF s] s by fastforce
qed

section \<open>Failures\<close>

text \<open>A store that is closed answers nothing; a failed save changes nothing; text that is no JSON is not saved.\<close>

lemma closed_store:
  assumes "sl_closed s"
  shows "SaveOrder dstr ok ord s = (s, Some StoreIsClosed)" and "SavePosition dstr ok p s = (s, Some StoreIsClosed)"
    and "SaveStrategyState jvalid ok sid ty a cj sj s = (s, Some StoreIsClosed)" and "LoadOrders dparse q s = Inl StoreIsClosed"
    and "LoadPositions dparse q s = Inl StoreIsClosed" and "LoadStrategyStates q s = Inl StoreIsClosed" and "Close s = s"
  using assms by (simp_all add: SaveOrder_def SavePosition_def SaveStrategyState_def save_with_def LoadOrders_def LoadPositions_def
      LoadStrategyStates_def load_with_def Close_def)

lemma failed_save_keeps:
  "snd (SaveStrategyState jvalid ok sid ty a cj sj s) = Some e \<Longrightarrow> fst (SaveStrategyState jvalid ok sid ty a cj sj s) = s"
  "snd (SaveOrder dstr ok ord s) = Some e \<Longrightarrow> fst (SaveOrder dstr ok ord s) = s"
  by (auto simp: SaveStrategyState_def SaveOrder_def save_with_def split: if_splits)

text \<open>One row whose price does not parse makes every load of the orders fail.\<close>

lemma corrupt_row_fails_load:
  assumes "(k, r) \<in> set (lt_orders (sl_tables s))" and "dparse (or_price r) = None"
  shows "\<exists>e. LoadOrders dparse q s = Inl e"
proof -
  have "\<exists>e. all_rows (row_order dparse) rows = Inl e" if "(k, r) \<in> set rows" for rows
    using that
  proof (induction rows)
    case (Cons x rows)
    then show ?case using assms(2) by (cases "x = (k, r)") (auto simp: row_order_def split: sum.splits)
  qed simp
  with assms(1) show ?thesis by (auto simp: LoadOrders_def load_with_def split: query_outcome.splits)
qed

text \<open>While the store is open and has something to flush, the timer is armed.\<close>

lemma dirty_is_scheduled:
  assumes "sl_dirty s \<longrightarrow> sl_flushTimer s \<or> sl_closed s"
  shows "sl_dirty (store_next dstr jvalid c s) \<longrightarrow> sl_flushTimer (store_next dstr jvalid c s) \<or> sl_closed (store_next dstr jvalid c s)"
  using assms
  by (cases c) (auto simp: store_next_def SaveOrder_def SavePosition_def SaveStrategyState_def save_with_def markDirty_def flush_fires_def
      Close_def)

end
