(* ===== verification/Migration.thy ===== *)
theory Migration
  imports Prelude
begin

text \<open>
  The one-time migration of the legacy database (\<open>src/internal/persistence/migration.go\<close>). The file system
  is a map from paths to entries; a database file has its bytes, whether SQLite's integrity check accepts
  it, the committed content of its tables and its migration metadata. Whether a system call or a statement
  succeeds is the argument \<open>io\<close>, by a name for the call; SHA-256 is \<open>sha\<close>. \<open>os.Remove\<close> may fail too and its
  error is ignored, as in the code.
\<close>

section \<open>Files\<close>

record 'r db_file =
  df_bytes :: string
  df_sound :: bool
  df_tables :: "(string, 'r list) gomap"
  df_metadata :: "(string, string) gomap"

datatype 'r entry = Directory | Database "'r db_file" | OtherFile string

type_synonym 'r files = "(string, 'r entry) gomap"

datatype migration_error =
    ErrStateDirectoryInvalid | ErrStateDirectoryNotWritable string | ErrMigrationConflict | ErrMigrationCorrupted string
  | ErrMigrationPermission | ErrEmptyStateNotApproved | ErrMigrationLock | ErrMigrationIntegrity string

record MigrationConfig =
  mc_StateDirectory :: string
  mc_LegacyPath :: string
  mc_TargetDBName :: string
  mc_AllowEmptyState :: bool

datatype migration_action = OpenedExisting | Migrated | BootstrappedEmpty | AlreadyMigrated

record MigrationResult =
  mr_Action :: migration_action
  mr_TargetPath :: string
  mr_SourceFingerprint :: string
  mr_RowCounts :: "(string, nat) gomap"

text \<open>\<open>filepath.Join\<close> and \<open>filepath.Base\<close> on clean paths.\<close>

definition path_join :: "string \<Rightarrow> string \<Rightarrow> string" where
  "path_join d n = d @ ''/'' @ n"

definition path_base :: "string \<Rightarrow> string" where
  "path_base p = rev (takeWhile (\<lambda>c. c \<noteq> CHR ''/'') (rev p))"

text \<open>\<open>os.Remove\<close>, whose error the code ignores.\<close>

definition os_remove :: "(string \<Rightarrow> bool) \<Rightarrow> string \<Rightarrow> 'r files \<Rightarrow> 'r files" where
  "os_remove io p fs = (if io ''remove'' then AList.delete p fs else fs)"

text \<open>A file whose \<open>Stat\<close> fails counts as absent.\<close>

definition fileExists :: "(string \<Rightarrow> bool) \<Rightarrow> string \<Rightarrow> 'r files \<Rightarrow> bool" where
  "fileExists io p fs \<longleftrightarrow> io (''stat '' @ p) \<and> (case map_of fs p of None \<Rightarrow> False | Some Directory \<Rightarrow> False | Some _ \<Rightarrow> True)"

section \<open>The state directory\<close>

text \<open>\<open>evalSymlinks\<close> and \<open>clean\<close> are those of the \<open>filepath\<close> package.\<close>

definition ValidateStateDirectory ::
  "(string \<Rightarrow> bool) \<Rightarrow> (string \<Rightarrow> string option) \<Rightarrow> (string \<Rightarrow> string) \<Rightarrow> string \<Rightarrow> 'r files \<Rightarrow> migration_error option" where
  "ValidateStateDirectory io evalSymlinks clean dir fs =
     (if dir = [] then Some ErrStateDirectoryInvalid
      else if hd dir \<noteq> CHR ''/'' then Some ErrStateDirectoryInvalid
      else case evalSymlinks dir of
        None \<Rightarrow> Some ErrStateDirectoryInvalid
      | Some resolved \<Rightarrow>
          if clean resolved \<noteq> clean dir then Some ErrStateDirectoryInvalid
          else if \<not> io ''stat dir'' then Some ErrStateDirectoryInvalid
          else if map_of fs dir \<noteq> Some Directory then Some ErrStateDirectoryInvalid
          else None)"

definition WritableProbe ::
  "(string \<Rightarrow> bool) \<Rightarrow> (string \<Rightarrow> string option) \<Rightarrow> (string \<Rightarrow> string) \<Rightarrow> string \<Rightarrow> string \<Rightarrow> 'r files \<Rightarrow>
    'r files \<times> migration_error option" where
  "WritableProbe io evalSymlinks clean probeName dir fs =
     (case ValidateStateDirectory io evalSymlinks clean dir fs of
        Some e \<Rightarrow> (fs, Some e)
      | None \<Rightarrow>
          let p = path_join dir probeName in
          if \<not> io ''create probe'' \<or> map_of fs p \<noteq> None then (fs, Some (ErrStateDirectoryNotWritable ''create probe''))
          else
            let fs1 = AList.update p (OtherFile ''okx-hft-grid writable probe'') fs in
            if \<not> io ''write probe'' then (os_remove io p fs1, Some (ErrStateDirectoryNotWritable ''write probe''))
            else if \<not> io ''fsync probe'' then (os_remove io p fs1, Some (ErrStateDirectoryNotWritable ''fsync probe''))
            else if \<not> io ''close probe'' then (os_remove io p fs1, Some (ErrStateDirectoryNotWritable ''close probe''))
            else if \<not> io ''remove'' then (fs1, Some (ErrStateDirectoryNotWritable ''remove probe''))
            else (AList.delete p fs1, None))"

section \<open>Checks\<close>

definition opened :: "(string \<Rightarrow> bool) \<Rightarrow> string \<Rightarrow> string \<Rightarrow> 'r files \<Rightarrow> 'r db_file option" where
  "opened io who p fs =
     (if io (''open '' @ who) \<and> io (''ping '' @ who) then (case map_of fs p of Some (Database d) \<Rightarrow> Some d | _ \<Rightarrow> None) else None)"

definition checkIntegrity :: "(string \<Rightarrow> bool) \<Rightarrow> string \<Rightarrow> 'r db_file \<Rightarrow> bool" where
  "checkIntegrity io who d \<longleftrightarrow> io (''integrity '' @ who) \<and> df_sound d"

definition required_tables :: "string list" where
  "required_tables = [''orders'', ''positions'', ''strategy_state'']"

definition checkRequiredTables :: "(string \<Rightarrow> bool) \<Rightarrow> 'r db_file \<Rightarrow> bool" where
  "checkRequiredTables io d \<longleftrightarrow> io ''tables'' \<and> list_all (\<lambda>t. map_of (df_tables d) t \<noteq> None) required_tables"

definition countLegacyRows :: "(string \<Rightarrow> bool) \<Rightarrow> 'r db_file \<Rightarrow> (string, nat) gomap option" where
  "countLegacyRows io d =
     (if io ''count'' then Some (map (\<lambda>t. (t, case map_of (df_tables d) t of None \<Rightarrow> 0 | Some rows \<Rightarrow> length rows)) required_tables)
      else None)"

definition computeFingerprint :: "(string \<Rightarrow> bool) \<Rightarrow> (string \<Rightarrow> string) \<Rightarrow> string \<Rightarrow> 'r files \<Rightarrow> string option" where
  "computeFingerprint io sha p fs =
     (if io ''read legacy'' then (case map_of fs p of Some (Database d) \<Rightarrow> Some (sha (df_bytes d))
        | Some (OtherFile s) \<Rightarrow> Some (sha s) | _ \<Rightarrow> None) else None)"

text \<open>A query opens a database lazily: there is no ping here.\<close>

definition hasValidMigrationMarker :: "(string \<Rightarrow> bool) \<Rightarrow> (string \<Rightarrow> string) \<Rightarrow> string \<Rightarrow> string \<Rightarrow> 'r files \<Rightarrow> bool" where
  "hasValidMigrationMarker io sha target legacy fs \<longleftrightarrow>
     (io ''open marker'' \<and> io ''query marker'' \<and>
       (case map_of fs target of
          Some (Database d) \<Rightarrow>
            (case map_of (df_metadata d) ''source_fingerprint'' of
               None \<Rightarrow> False
             | Some stored \<Rightarrow> computeFingerprint io sha legacy fs = Some stored)
        | _ \<Rightarrow> False))"

definition validateTargetDB :: "(string \<Rightarrow> bool) \<Rightarrow> string \<Rightarrow> 'r files \<Rightarrow> migration_error option" where
  "validateTargetDB io target fs =
     (case opened io ''target'' target fs of
        None \<Rightarrow> Some (ErrMigrationCorrupted ''target'')
      | Some d \<Rightarrow> if checkIntegrity io ''target'' d then None else Some (ErrMigrationCorrupted ''target integrity''))"

section \<open>The migration\<close>

text \<open>
  \<open>VACUUM INTO\<close> writes the committed content into a new file; it refuses a file that exists. What it leaves when it
  fails and the bytes it writes are up to SQLite: \<open>debris\<close> and \<open>bytes\<close>.
\<close>

definition vacuum_into :: "(string \<Rightarrow> bool) \<Rightarrow> string \<Rightarrow> 'r entry option \<Rightarrow> 'r db_file \<Rightarrow> string \<Rightarrow> 'r files \<Rightarrow> 'r files \<times> bool" where
  "vacuum_into io bytes debris src tmp fs =
     (if map_of fs tmp \<noteq> None then (fs, False)
      else if io ''vacuum'' then (AList.update tmp (Database (src\<lparr>df_bytes := bytes\<rparr>)) fs, True)
      else (case debris of None \<Rightarrow> fs | Some e \<Rightarrow> AList.update tmp e fs, False))"

definition marked :: "string \<Rightarrow> string \<Rightarrow> string \<Rightarrow> string \<Rightarrow> 'r db_file \<Rightarrow> 'r db_file" where
  "marked bytes fingerprint timestamp legacy d =
     d\<lparr>df_bytes := bytes, df_metadata := AList.update ''schema_version'' ''1'' (AList.update ''source_path'' legacy
        (AList.update ''migration_timestamp'' timestamp (AList.update ''source_fingerprint'' fingerprint (df_metadata d))))\<rparr>"

text \<open>The steps on the temporary copy, until it is closed; on an error the copy is removed.\<close>

definition prepare_copy ::
  "(string \<Rightarrow> bool) \<Rightarrow> string \<Rightarrow> string \<Rightarrow> string \<Rightarrow> string \<Rightarrow> string \<Rightarrow> 'r files \<Rightarrow>
    'r files \<times> (migration_error + (string, nat) gomap)" where
  "prepare_copy io bytes fingerprint timestamp legacy tmp fs =
     (let failed = (\<lambda>e. (os_remove io tmp fs, Inl e)) in
      case opened io ''temp'' tmp fs of
        None \<Rightarrow> failed (ErrMigrationIntegrity ''temp'')
      | Some d \<Rightarrow>
          if \<not> checkIntegrity io ''temp'' d then failed (ErrMigrationIntegrity ''temp integrity'')
          else if \<not> checkRequiredTables io d then failed (ErrMigrationIntegrity ''tables'')
          else (case countLegacyRows io d of
              None \<Rightarrow> failed (ErrMigrationIntegrity ''row count'')
            | Some counts \<Rightarrow>
                if \<not> io ''create metadata'' then failed (ErrMigrationIntegrity ''create migration_metadata'')
                else if \<not> io ''insert metadata'' then failed (ErrMigrationIntegrity ''record fingerprint'')
                else (AList.update tmp (Database (marked bytes fingerprint timestamp legacy d)) fs, Inr counts)))"

text \<open>Publication: \<open>fsyncFile\<close> fails with or without a permission error, of which only the second counts.\<close>

definition publish ::
  "(string \<Rightarrow> bool) \<Rightarrow> string \<Rightarrow> string \<Rightarrow> 'r files \<Rightarrow> 'r files \<times> migration_error option" where
  "publish io tmp target fs =
     (if \<not> io ''fsync'' \<and> \<not> io ''fsync is permission error''
      then (os_remove io tmp fs, Some (ErrMigrationIntegrity ''fsync temp''))
      else if \<not> io ''rename'' \<or> map_of fs target = Some Directory then (os_remove io tmp fs, Some ErrMigrationPermission)
      else
        let fs' = (case map_of fs tmp of None \<Rightarrow> fs | Some e \<Rightarrow> AList.update target e (AList.delete tmp fs))
        in (fs', validateTargetDB io target fs'))"

record 'r sqlite_effects =
  se_vacuumBytes :: string
  se_markedBytes :: string
  se_debris :: "'r entry option"

definition migrateLegacyToTarget ::
  "(string \<Rightarrow> bool) \<Rightarrow> (string \<Rightarrow> string) \<Rightarrow> 'r sqlite_effects \<Rightarrow> string \<Rightarrow> string \<Rightarrow> string \<Rightarrow> string \<Rightarrow> string \<Rightarrow> 'r files \<Rightarrow>
    'r files \<times> (migration_error + MigrationResult)" where
  "migrateLegacyToTarget io sha eff nanos timestamp legacy target stateDir fs =
     (case opened io ''legacy'' legacy fs of
        None \<Rightarrow> (fs, Inl (ErrMigrationCorrupted ''legacy''))
      | Some src \<Rightarrow>
          if \<not> checkIntegrity io ''legacy'' src then (fs, Inl (ErrMigrationCorrupted ''legacy integrity''))
          else (case computeFingerprint io sha legacy fs of
              None \<Rightarrow> (fs, Inl (ErrMigrationCorrupted ''fingerprint''))
            | Some fingerprint \<Rightarrow>
                let tmp = path_join stateDir (path_base target @ ''.tmp.'' @ nanos) in
                (case vacuum_into io (se_vacuumBytes eff) (se_debris eff) src tmp fs of
                   (fs1, False) \<Rightarrow> (os_remove io tmp fs1, Inl (ErrMigrationCorrupted ''backup''))
                 | (fs1, True) \<Rightarrow>
                     (case prepare_copy io (se_markedBytes eff) fingerprint timestamp legacy tmp fs1 of
                        (fs2, Inl e) \<Rightarrow> (fs2, Inl e)
                      | (fs2, Inr counts) \<Rightarrow>
                          (case publish io tmp target fs2 of
                             (fs3, Some e) \<Rightarrow> (fs3, Inl e)
                           | (fs3, None) \<Rightarrow> (fs3, Inr \<lparr>mr_Action = Migrated, mr_TargetPath = target,
                               mr_SourceFingerprint = fingerprint, mr_RowCounts = counts\<rparr>))))))"

section \<open>The lock and the decision\<close>

definition acquireMigrationLock :: "(string \<Rightarrow> bool) \<Rightarrow> string \<Rightarrow> 'r files \<Rightarrow> 'r files option" where
  "acquireMigrationLock io p fs =
     (if map_of fs p \<noteq> None \<or> \<not> io ''create lock'' then None else Some (AList.update p (OtherFile ''pid'') fs))"

definition releaseMigrationLock :: "(string \<Rightarrow> bool) \<Rightarrow> string \<Rightarrow> 'r files \<Rightarrow> 'r files" where
  "releaseMigrationLock io p fs = os_remove io p fs"

definition plain_result :: "migration_action \<Rightarrow> string \<Rightarrow> MigrationResult" where
  "plain_result a target = \<lparr>mr_Action = a, mr_TargetPath = target, mr_SourceFingerprint = [], mr_RowCounts = []\<rparr>"

definition migration_decision ::
  "(string \<Rightarrow> bool) \<Rightarrow> (string \<Rightarrow> string) \<Rightarrow> 'r sqlite_effects \<Rightarrow> string \<Rightarrow> string \<Rightarrow> MigrationConfig \<Rightarrow> string \<Rightarrow> 'r files \<Rightarrow>
    'r files \<times> (migration_error + MigrationResult)" where
  "migration_decision io sha eff nanos timestamp cfg target fs =
     (let targetExists = fileExists io target fs;
          legacyExists = (mc_LegacyPath cfg \<noteq> [] \<and> fileExists io (mc_LegacyPath cfg) fs)
      in if targetExists \<and> legacyExists
         then (fs, if hasValidMigrationMarker io sha target (mc_LegacyPath cfg) fs then Inr (plain_result AlreadyMigrated target)
                   else Inl ErrMigrationConflict)
         else if targetExists
         then (fs, case validateTargetDB io target fs of Some e \<Rightarrow> Inl e | None \<Rightarrow> Inr (plain_result OpenedExisting target))
         else if legacyExists
         then migrateLegacyToTarget io sha eff nanos timestamp (mc_LegacyPath cfg) target (mc_StateDirectory cfg) fs
         else (fs, if mc_AllowEmptyState cfg then Inr (plain_result BootstrappedEmpty target) else Inl ErrEmptyStateNotApproved))"

definition target_path :: "MigrationConfig \<Rightarrow> string" where
  "target_path cfg = path_join (mc_StateDirectory cfg) (if mc_TargetDBName cfg = [] then ''hft_state.db'' else mc_TargetDBName cfg)"

definition lock_path :: "MigrationConfig \<Rightarrow> string" where
  "lock_path cfg = path_join (mc_StateDirectory cfg) ''migration.lock''"

definition MigrateLegacyState ::
  "(string \<Rightarrow> bool) \<Rightarrow> (string \<Rightarrow> string) \<Rightarrow> 'r sqlite_effects \<Rightarrow> string \<Rightarrow> string \<Rightarrow> MigrationConfig \<Rightarrow> 'r files \<Rightarrow>
    'r files \<times> (migration_error + MigrationResult)" where
  "MigrateLegacyState io sha eff nanos timestamp cfg fs =
     (if mc_StateDirectory cfg = [] then (fs, Inl ErrStateDirectoryInvalid)
      else case acquireMigrationLock io (lock_path cfg) fs of
        None \<Rightarrow> (fs, Inl ErrMigrationLock)
      | Some fs1 \<Rightarrow>
          (case migration_decision io sha eff nanos timestamp cfg (target_path cfg) fs1 of
             (fs2, r) \<Rightarrow> (releaseMigrationLock io (lock_path cfg) fs2, r)))"

section \<open>All or nothing\<close>

definition tmp_path :: "MigrationConfig \<Rightarrow> string \<Rightarrow> string" where
  "tmp_path cfg nanos = path_join (mc_StateDirectory cfg) (path_base (target_path cfg) @ ''.tmp.'' @ nanos)"

text \<open>The database that a migration publishes for a legacy database \<open>src\<close>.\<close>

definition migrated_copy :: "(string \<Rightarrow> string) \<Rightarrow> string \<Rightarrow> 'r db_file \<Rightarrow> 'r db_file \<Rightarrow> bool" where
  "migrated_copy sha legacy src d \<longleftrightarrow> df_tables d = df_tables src \<and> df_sound d \<and> df_sound src \<and>
     list_all (\<lambda>t. map_of (df_tables src) t \<noteq> None) required_tables \<and>
     map_of (df_metadata d) ''source_fingerprint'' = Some (sha (df_bytes src)) \<and>
     map_of (df_metadata d) ''source_path'' = Some legacy"

definition row_counts :: "'r db_file \<Rightarrow> (string, nat) gomap" where
  "row_counts d = map (\<lambda>t. (t, case map_of (df_tables d) t of None \<Rightarrow> 0 | Some rows \<Rightarrow> length rows)) required_tables"

lemma marked_copy:
  assumes "df_sound src" and "checkRequiredTables io (src\<lparr>df_bytes := b\<rparr>)"
  shows "migrated_copy sha legacy src (marked b' (sha (df_bytes src)) ts legacy (src\<lparr>df_bytes := b\<rparr>))"
  using assms by (simp add: migrated_copy_def marked_def checkRequiredTables_def update_conv' list_all_iff)

lemma prepare_copy_cases:
  assumes "prepare_copy io b fp ts legacy tmp fs = (fs', r)" and "io ''remove''" and "map_of fs tmp = Some (Database d)"
  obtains (failed) e where "r = Inl e" "fs' = AList.delete tmp fs"
    | (ready) "r = Inr (row_counts d)" "checkRequiredTables io d" "fs' = AList.update tmp (Database (marked b fp ts legacy d)) fs"
  using assms
  by (auto simp: prepare_copy_def Let_def opened_def os_remove_def countLegacyRows_def row_counts_def split: option.splits if_splits)

lemma publish_cases:
  assumes "publish io tmp target fs = (fs', r)" and "io ''remove''" and "map_of fs tmp = Some e"
  obtains (failed) x where "r = Some x" "fs' = AList.delete tmp fs"
    | (published) "fs' = AList.update target e (AList.delete tmp fs)" "map_of fs target \<noteq> Some Directory"
        "r = validateTargetDB io target fs'"
  using assms by (auto simp: publish_def Let_def os_remove_def split: if_splits)

text \<open>Nothing has changed, or only the target, which is now the copy.\<close>

definition unchanged :: "'r files \<Rightarrow> 'r files \<Rightarrow> bool" where
  "unchanged fs fs' \<longleftrightarrow> map_of fs' = map_of fs"

definition published :: "(string \<Rightarrow> string) \<Rightarrow> string \<Rightarrow> string \<Rightarrow> 'r files \<Rightarrow> 'r files \<Rightarrow> 'r db_file \<Rightarrow> bool" where
  "published sha legacy target fs fs' src \<longleftrightarrow> map_of fs legacy = Some (Database src) \<and>
     (\<exists>d. migrated_copy sha legacy src d \<and> map_of fs' = (map_of fs)(target \<mapsto> Database d))"

lemma migrate_cases:
  assumes m: "migrateLegacyToTarget io sha eff nanos ts legacy target dir fs = (fs', r)" and rm: "io ''remove''"
    and fresh: "map_of fs (path_join dir (path_base target @ ''.tmp.'' @ nanos)) = None"
    and neq: "path_join dir (path_base target @ ''.tmp.'' @ nanos) \<noteq> target"
  shows "(unchanged fs fs' \<and> (\<exists>e. r = Inl e)) \<or>
    (map_of fs target \<noteq> Some Directory \<and> (\<exists>src. published sha legacy target fs fs' src \<and>
      (r = Inr \<lparr>mr_Action = Migrated, mr_TargetPath = target, mr_SourceFingerprint = sha (df_bytes src), mr_RowCounts = row_counts src\<rparr>
       \<or> (\<exists>e. validateTargetDB io target fs' = Some e \<and> r = Inl e))))"
proof -
  let ?tmp = "path_join dir (path_base target @ ''.tmp.'' @ nanos)"
  have gone: "unchanged fs (AList.delete ?tmp fs1)" if "\<And>p. p \<noteq> ?tmp \<Longrightarrow> map_of fs1 p = map_of fs p" for fs1
    using that fresh by (auto simp: unchanged_def delete_conv' fun_eq_iff)
  show ?thesis
  proof (cases "opened io ''legacy'' legacy fs")
    case None
    with m show ?thesis by (auto simp: migrateLegacyToTarget_def unchanged_def)
  next
    case (Some src)
    then have leg: "map_of fs legacy = Some (Database src)" by (auto simp: opened_def split: option.splits entry.splits if_splits)
    show ?thesis
    proof (cases "checkIntegrity io ''legacy'' src \<and> computeFingerprint io sha legacy fs = Some (sha (df_bytes src))")
      case False
      with m Some leg show ?thesis
        by (auto simp: migrateLegacyToTarget_def unchanged_def computeFingerprint_def split: if_splits)
    next
      case True
      then have sound: "df_sound src" by (simp add: checkIntegrity_def)
      obtain fs1 ok where v: "vacuum_into io (se_vacuumBytes eff) (se_debris eff) src ?tmp fs = (fs1, ok)"
        by (cases "vacuum_into io (se_vacuumBytes eff) (se_debris eff) src ?tmp fs")
      have fs1: "map_of fs1 p = map_of fs p" if "p \<noteq> ?tmp" for p
        using v that by (auto simp: vacuum_into_def update_conv' split: if_splits option.splits)
      show ?thesis
      proof (cases ok)
        case False
        with m Some True v have "fs' = os_remove io ?tmp fs1" "r = Inl (ErrMigrationCorrupted ''backup'')"
          by (auto simp: migrateLegacyToTarget_def Let_def)
        with gone [OF fs1] rm show ?thesis by (simp add: os_remove_def)
      next
        case ok: True
        let ?d = "src\<lparr>df_bytes := se_vacuumBytes eff\<rparr>"
        have tmp: "map_of fs1 ?tmp = Some (Database ?d)"
          using v ok by (auto simp: vacuum_into_def update_conv' split: if_splits)
        obtain fs2 r2 where p: "prepare_copy io (se_markedBytes eff) (sha (df_bytes src)) ts legacy ?tmp fs1 = (fs2, r2)"
          by (cases "prepare_copy io (se_markedBytes eff) (sha (df_bytes src)) ts legacy ?tmp fs1")
        from p rm tmp show ?thesis
        proof (cases rule: prepare_copy_cases)
          case (failed e)
          with m Some True v ok p have "fs' = AList.delete ?tmp fs1" "r = Inl e"
            by (auto simp: migrateLegacyToTarget_def Let_def)
          with gone [OF fs1] show ?thesis by simp
        next
          case ready
          let ?c = "marked (se_markedBytes eff) (sha (df_bytes src)) ts legacy ?d"
          have copy: "migrated_copy sha legacy src ?c" by (rule marked_copy [OF sound ready(2)])
          obtain fs3 r3 where q: "publish io ?tmp target fs2 = (fs3, r3)" by (cases "publish io ?tmp target fs2")
          have tmp2: "map_of fs2 ?tmp = Some (Database ?c)" and fs2: "\<And>p. p \<noteq> ?tmp \<Longrightarrow> map_of fs2 p = map_of fs p"
            using ready(3) fs1 by (simp_all add: update_conv')
          have r: "fs' = fs3" "r = (case r3 of Some e \<Rightarrow> Inl e | None \<Rightarrow> Inr \<lparr>mr_Action = Migrated, mr_TargetPath = target,
              mr_SourceFingerprint = sha (df_bytes src), mr_RowCounts = row_counts src\<rparr>)"
            using m Some True v ok p q ready(1) by (auto simp: migrateLegacyToTarget_def Let_def row_counts_def split: option.splits)
          from q rm tmp2 show ?thesis
          proof (cases rule: publish_cases)
            case (failed x)
            with r gone [OF fs2] show ?thesis by simp
          next
            case pub: published
            have "map_of fs3 = (map_of fs)(target \<mapsto> Database ?c)"
              using pub(1) fs2 fresh neq by (auto simp: update_conv' delete_conv' fun_eq_iff)
            with copy leg have "published sha legacy target fs fs3 src" by (auto simp: published_def)
            moreover have "map_of fs target \<noteq> Some Directory" using pub(2) fs2 [of target] neq by simp
            ultimately show ?thesis using r pub(3) by (auto split: option.splits)
          qed
        qed
      qed
    qed
  qed
qed

lemma decision_cases:
  assumes m: "migration_decision io sha eff nanos ts cfg (target_path cfg) fs = (fs', r)" and rm: "io ''remove''"
    and fresh: "map_of fs (tmp_path cfg nanos) = None" and neq: "tmp_path cfg nanos \<noteq> target_path cfg"
    and stat: "io (''stat '' @ target_path cfg)"
  shows "(unchanged fs fs' \<and> (\<forall>res. r = Inr res \<longrightarrow> mr_Action res \<noteq> Migrated)) \<or>
    (map_of fs (target_path cfg) = None \<and> (\<exists>src. published sha (mc_LegacyPath cfg) (target_path cfg) fs fs' src \<and>
      (r = Inr \<lparr>mr_Action = Migrated, mr_TargetPath = target_path cfg, mr_SourceFingerprint = sha (df_bytes src),
           mr_RowCounts = row_counts src\<rparr>
       \<or> (\<exists>e. validateTargetDB io (target_path cfg) fs' = Some e \<and> r = Inl e))))"
proof (cases "\<not> fileExists io (target_path cfg) fs \<and> mc_LegacyPath cfg \<noteq> [] \<and> fileExists io (mc_LegacyPath cfg) fs")
  case True
  with m have g: "migrateLegacyToTarget io sha eff nanos ts (mc_LegacyPath cfg) (target_path cfg) (mc_StateDirectory cfg) fs = (fs', r)"
    by (simp add: migration_decision_def)
  have "map_of fs (target_path cfg) = None \<or> map_of fs (target_path cfg) = Some Directory"
    using True stat by (auto simp: fileExists_def split: option.splits entry.splits)
  with migrate_cases [OF g rm fresh [unfolded tmp_path_def] neq [unfolded tmp_path_def]] show ?thesis by auto
next
  case False
  with m have "fs' = fs" and "\<And>res. r = Inr res \<Longrightarrow> mr_Action res \<noteq> Migrated"
    by (auto simp: migration_decision_def Let_def plain_result_def split: if_splits option.splits)
  then show ?thesis by (auto simp: unchanged_def)
qed


text \<open>A legacy database, and a copy whose first check after the publication cannot be read.\<close>

definition sample_legacy :: "string db_file" where
  "sample_legacy = \<lparr>df_bytes = ''bytes'', df_sound = True,
     df_tables = [(''orders'', [''o1'', ''o2'']), (''positions'', [''p'']), (''strategy_state'', [])], df_metadata = []\<rparr>"

definition sample_config :: MigrationConfig where
  "sample_config = \<lparr>mc_StateDirectory = ''/s'', mc_LegacyPath = ''data/hft.db'', mc_TargetDBName = [], mc_AllowEmptyState = False\<rparr>"

definition sample_effects :: "string sqlite_effects" where
  "sample_effects = \<lparr>se_vacuumBytes = ''copy'', se_markedBytes = ''marked'', se_debris = Some (OtherFile ''half'')\<rparr>"

definition sample_files :: "string files" where
  "sample_files = [(''data/hft.db'', Database sample_legacy), (''/s'', Directory)]"

definition sample_sha :: "string \<Rightarrow> string" where
  "sample_sha b = ''sha of '' @ b"

definition sample_migration :: "(string \<Rightarrow> bool) \<Rightarrow> string files \<Rightarrow> string files \<times> (migration_error + MigrationResult)" where
  "sample_migration io fs = MigrateLegacyState io sample_sha sample_effects ''42'' ''now'' sample_config fs"


section \<open>Around the migration\<close>

text \<open>Running again after a migration recognises it as long as the legacy file has the same bytes; otherwise it is a conflict.\<close>

lemma migrated_twice:
  "snd (sample_migration (\<lambda>_. True) (fst (sample_migration (\<lambda>_. True) sample_files))) = Inr (plain_result AlreadyMigrated ''/s/hft_state.db'')"
  by code_simp

lemma legacy_changed_conflicts:
  "snd (sample_migration (\<lambda>_. True) (AList.update ''data/hft.db'' (Database (sample_legacy\<lparr>df_bytes := ''more''\<rparr>))
     (fst (sample_migration (\<lambda>_. True) sample_files)))) = Inl ErrMigrationConflict"
  by code_simp

text \<open>
  A target that fails the check after its publication stays where it is: the next run finds its marker and reports success
  without checking it.
\<close>

definition corrupt_target :: "string files \<Rightarrow> string files" where
  "corrupt_target fs = map (\<lambda>(p, e). (p, if p = ''/s/hft_state.db'' then
     (case e of Database d \<Rightarrow> Database (d\<lparr>df_sound := False\<rparr>) | _ \<Rightarrow> e) else e)) fs"

lemma unchecked_on_retry:
  "snd (sample_migration (\<lambda>s. s \<noteq> ''integrity target'') sample_files) = Inl (ErrMigrationCorrupted ''target integrity'')"
  "snd (sample_migration (\<lambda>_. True) (corrupt_target (fst (sample_migration (\<lambda>s. s \<noteq> ''integrity target'') sample_files)))) =
    Inr (plain_result AlreadyMigrated ''/s/hft_state.db'')"
  by code_simp+

text \<open>A target that exists but cannot be examined counts as absent and is replaced by the migrated copy.\<close>

lemma unreadable_target_is_replaced:
  "(case sample_migration (\<lambda>s. s \<noteq> ''stat /s/hft_state.db'') (AList.update ''/s/hft_state.db'' (OtherFile ''newer state'') sample_files) of
     (fs, r) \<Rightarrow> r \<noteq> Inl ErrMigrationConflict \<and> map_of fs ''/s/hft_state.db'' \<noteq> Some (OtherFile ''newer state''))"
  by code_simp

text \<open>A lock that a crashed run left behind stops every later run.\<close>

lemma stale_lock_blocks:
  "map_of fs (lock_path cfg) \<noteq> None \<Longrightarrow> mc_StateDirectory cfg \<noteq> [] \<Longrightarrow>
    MigrateLegacyState io sha eff nanos ts cfg fs = (fs, Inl ErrMigrationLock)"
  by (simp add: MigrateLegacyState_def acquireMigrationLock_def)

text \<open>The probe of the state directory leaves no file behind.\<close>

lemma WritableProbe_leaves_nothing:
  assumes "io ''remove''" and "WritableProbe io evalSymlinks clean probeName dir fs = (fs', r)"
  shows "map_of fs' = map_of fs"
  using assms
  by (auto simp: WritableProbe_def Let_def os_remove_def delete_conv' update_conv' fun_eq_iff split: option.splits if_splits)

end
