(* ===== verification/Monitoring.thy ===== *)
theory Monitoring
  imports FillHandler Health PrivateWS
begin

text \<open>
  Log output, alerts and metrics (\<open>src/internal/monitor/logger.go\<close>, \<open>alerter.go\<close>, \<open>metrics.go\<close>). What they do is a
  trace: entries written, requests sent, instructions to the Prometheus library. \<open>sanitize\<close> is the sanitizer that
  is set, \<open>fmt\<close> the printed time. Maps of fields are ranged over in the order of their list.
\<close>

section \<open>The logger\<close>

definition sensitiveKeyDenylist :: "string list" where
  "sensitiveKeyDenylist =
    [''authorization'', ''api_key'', ''api-key'', ''apikey'', ''secret_key'', ''secret-key'', ''secretkey'',
     ''secret'', ''passphrase'', ''password'', ''signature'', ''access_key'', ''access-key'', ''accesskey'',
     ''env_dump'', ''env-dump'', ''envdump'']"

definition isSensitiveKey :: "string \<Rightarrow> bool" where
  "isSensitiveKey key = list_ex (\<lambda>denied. ToLower key = denied \<or> Contains (ToLower key) denied) sensitiveKeyDenylist"

definition redactedKeyValue :: string where
  "redactedKeyValue = ''[REDACTED]''"

record TradeAction =
  ta_ActionType :: string
  ta_Instrument :: string
  ta_Quantity :: string
  ta_Price :: string
  ta_OrderID :: string
  ta_Result :: string
  ta_Extra :: "(string, string) gomap"

record logEntry =
  le_Timestamp :: string
  le_Level :: string
  le_Message :: string
  le_ActionType :: string
  le_Instrument :: string
  le_Quantity :: string
  le_Price :: string
  le_OrderID :: string
  le_Result :: string
  le_Extra :: "(string, string) gomap"

text \<open>The loop that both kinds of entries have: values of sensitive keys are replaced, the rest sanitized.\<close>

definition redact :: "(string \<Rightarrow> string) \<Rightarrow> (string, string) gomap \<Rightarrow> (string, string) gomap" where
  "redact sanitize fds =
     foldl (\<lambda>extra (k, v). AList.update (sanitize k) (if isSensitiveKey k then redactedKeyValue else sanitize v) extra) [] fds"

definition LogTradeAction :: "(string \<Rightarrow> string) \<Rightarrow> string \<Rightarrow> TradeAction \<Rightarrow> logEntry" where
  "LogTradeAction sanitize ts action = \<lparr>le_Timestamp = ts, le_Level = ''INFO'', le_Message = [],
     le_ActionType = sanitize (ta_ActionType action), le_Instrument = sanitize (ta_Instrument action),
     le_Quantity = sanitize (ta_Quantity action), le_Price = sanitize (ta_Price action), le_OrderID = sanitize (ta_OrderID action),
     le_Result = sanitize (ta_Result action), le_Extra = redact sanitize (ta_Extra action)\<rparr>"

definition logLevel :: "(string \<Rightarrow> string) \<Rightarrow> string \<Rightarrow> string \<Rightarrow> string \<Rightarrow> (string, string) gomap \<Rightarrow> logEntry" where
  "logLevel sanitize ts level msg fds = \<lparr>le_Timestamp = ts, le_Level = level, le_Message = sanitize msg,
     le_ActionType = [], le_Instrument = [], le_Quantity = [], le_Price = [], le_OrderID = [], le_Result = [],
     le_Extra = redact sanitize fds\<rparr>"

definition LogInfo :: "(string \<Rightarrow> string) \<Rightarrow> string \<Rightarrow> string \<Rightarrow> (string, string) gomap \<Rightarrow> logEntry" where
  "LogInfo sanitize ts = logLevel sanitize ts ''INFO''"

definition LogWarn :: "(string \<Rightarrow> string) \<Rightarrow> string \<Rightarrow> string \<Rightarrow> (string, string) gomap \<Rightarrow> logEntry" where
  "LogWarn sanitize ts = logLevel sanitize ts ''WARN''"

definition LogError :: "(string \<Rightarrow> string) \<Rightarrow> string \<Rightarrow> string \<Rightarrow> (string, string) gomap \<Rightarrow> logEntry" where
  "LogError sanitize ts = logLevel sanitize ts ''ERROR''"

text \<open>Two maps of fields that differ only in the values of sensitive keys.\<close>

definition same_public :: "(string, string) gomap \<Rightarrow> (string, string) gomap \<Rightarrow> bool" where
  "same_public f g \<longleftrightarrow> list_all2 (\<lambda>(k, v) (k', v'). k = k' \<and> (isSensitiveKey k \<or> v = v')) f g"

lemma redact_same_public:
  assumes "same_public f g"
  shows "redact sanitize f = redact sanitize g"
proof -
  have "foldl (\<lambda>extra (k, v). AList.update (sanitize k) (if isSensitiveKey k then redactedKeyValue else sanitize v) extra) acc f =
      foldl (\<lambda>extra (k, v). AList.update (sanitize k) (if isSensitiveKey k then redactedKeyValue else sanitize v) extra) acc g" for acc
    using assms unfolding same_public_def by (induction f g arbitrary: acc rule: list_all2_induct) auto
  then show ?thesis by (simp add: redact_def)
qed

section \<open>Alerts\<close>

datatype AlertLevel = INFO | WARNING | CRITICAL | AlertLevelOther int

fun AlertLevel_String :: "AlertLevel \<Rightarrow> string" where
  "AlertLevel_String INFO = ''INFO''"
| "AlertLevel_String WARNING = ''WARNING''"
| "AlertLevel_String CRITICAL = ''CRITICAL''"
| "AlertLevel_String (AlertLevelOther _) = ''UNKNOWN''"

record Alert =
  al_Level :: AlertLevel
  al_Message :: string
  al_Timestamp :: time
  al_Extra :: "(string, string) gomap"

definition formatAlertMessage :: "(time \<Rightarrow> string) \<Rightarrow> Alert \<Rightarrow> string" where
  "formatAlertMessage fmt a =
     ''['' @ AlertLevel_String (al_Level a) @ ''] '' @ al_Message a @ [CHR 0x0A] @
     ''Time: '' @ fmt (al_Timestamp a) @ [CHR 0x0A] @
     (if al_Extra a = [] then []
      else ''Details:'' @ [CHR 0x0A] @ concat (map (\<lambda>(k, v). ''  '' @ k @ '': '' @ v @ [CHR 0x0A]) (al_Extra a)))"

text \<open>A channel with the URL and the fields of its request. The answer is a status, or an error of the transport, which
  carries the URL.\<close>

datatype AlertChannel = TelegramChannel string string string | DiscordChannel string

definition NewTelegramChannel :: "string \<Rightarrow> string \<Rightarrow> AlertChannel" where
  "NewTelegramChannel botToken chatID = TelegramChannel ''https://api.telegram.org'' botToken chatID"

fun channel_name :: "AlertChannel \<Rightarrow> string" where
  "channel_name (TelegramChannel _ _ _) = ''telegram''"
| "channel_name (DiscordChannel _) = ''discord''"

fun channel_url :: "AlertChannel \<Rightarrow> string" where
  "channel_url (TelegramChannel base token _) = base @ ''/bot'' @ token @ ''/sendMessage''"
| "channel_url (DiscordChannel url) = url"

fun channel_payload :: "(time \<Rightarrow> string) \<Rightarrow> Alert \<Rightarrow> AlertChannel \<Rightarrow> (string, string) gomap" where
  "channel_payload fmt a (TelegramChannel _ _ chat) =
     [(''chat_id'', chat), (''text'', formatAlertMessage fmt a), (''parse_mode'', ''HTML'')]"
| "channel_payload fmt a (DiscordChannel _) = [(''content'', formatAlertMessage fmt a)]"

datatype post_answer = PostStatus int | PostError string

fun accepted_status :: "AlertChannel \<Rightarrow> int \<Rightarrow> bool" where
  "accepted_status (TelegramChannel _ _ _) st = (st = 200)"
| "accepted_status (DiscordChannel _) st = (st = 200 \<or> st = 204)"

text \<open>The error of \<open>Send\<close>, if any; \<open>itoa\<close> prints the status.\<close>

definition send_error :: "(int \<Rightarrow> string) \<Rightarrow> AlertChannel \<Rightarrow> post_answer \<Rightarrow> string option" where
  "send_error itoa ch ans =
     (case ans of
        PostError reason \<Rightarrow> Some (channel_name ch @ '': request failed: Post '' @ channel_url ch @ '': '' @ reason)
      | PostStatus st \<Rightarrow> if accepted_status ch st then None else Some (channel_name ch @ '': unexpected status code '' @ itoa st))"

datatype alert_effect =
    Journal logEntry | Post string "(string, string) gomap" | Slept duration

record Alerter =
  at_channels :: "AlertChannel list"
  at_retries :: nat
  at_retryInterval :: duration

definition NewAlerter :: "AlertChannel list \<Rightarrow> Alerter" where
  "NewAlerter channels = \<lparr>at_channels = channels, at_retries = 3, at_retryInterval = 10000000000\<rparr>"

text \<open>
  The attempts on one channel: \<open>left\<close> more may follow the current one. The answers come from a list that the world supplies;
  a missing answer is an error of the transport.
\<close>

fun sendWithRetry ::
  "(int \<Rightarrow> string) \<Rightarrow> (time \<Rightarrow> string) \<Rightarrow> AlertChannel \<Rightarrow> Alert \<Rightarrow> duration \<Rightarrow> nat \<Rightarrow> post_answer list \<Rightarrow>
    alert_effect list \<times> string option \<times> post_answer list" where
  "sendWithRetry itoa fmt ch a interval left answers =
     (let (ans, rest) = (case answers of [] \<Rightarrow> (PostError ''timeout'', []) | x # xs \<Rightarrow> (x, xs));
          post = Post (channel_url ch) (channel_payload fmt a ch)
      in case send_error itoa ch ans of
           None \<Rightarrow> ([post], None, rest)
         | Some e \<Rightarrow>
             (case left of
                0 \<Rightarrow> ([post], Some e, rest)
              | Suc n \<Rightarrow> (case sendWithRetry itoa fmt ch a interval n rest of
                  (es, r, rest') \<Rightarrow> (post # Slept interval # es, r, rest'))))"

declare sendWithRetry.simps [simp del]

record journal =
  jn_sanitize :: "string \<Rightarrow> string"
  jn_time :: string
  jn_itoa :: "int \<Rightarrow> string"
  jn_fmt :: "time \<Rightarrow> string"

definition delivery_entry :: "journal \<Rightarrow> nat \<Rightarrow> Alert \<Rightarrow> AlertChannel \<Rightarrow> string option \<Rightarrow> logEntry" where
  "delivery_entry J retries a ch r =
     (case r of
        Some e \<Rightarrow> logLevel (jn_sanitize J) (jn_time J) ''ERROR'' ''alert_delivery''
          [(''channel'', channel_name ch), (''result'', ''failure''), (''alert_level'', AlertLevel_String (al_Level a)),
           (''alert_msg'', al_Message a), (''error'', e), (''retries'', jn_itoa J (int retries))]
      | None \<Rightarrow> logLevel (jn_sanitize J) (jn_time J) ''INFO'' ''alert_delivery''
          [(''channel'', channel_name ch), (''result'', ''success''), (''alert_level'', AlertLevel_String (al_Level a)),
           (''alert_msg'', al_Message a)])"

fun deliver_all ::
  "journal \<Rightarrow> Alerter \<Rightarrow> Alert \<Rightarrow> AlertChannel list \<Rightarrow> post_answer list \<Rightarrow> alert_effect list \<times> (AlertChannel \<times> string option) list" where
  "deliver_all J alr a [] answers = ([], [])"
| "deliver_all J alr a (ch # chs) answers =
     (case sendWithRetry (jn_itoa J) (jn_fmt J) ch a (at_retryInterval alr) (at_retries alr) answers of
        (es, r, rest) \<Rightarrow>
          (case deliver_all J alr a chs rest of
             (fs, rs) \<Rightarrow> (es @ Journal (delivery_entry J (at_retries alr) a ch r) # fs, (ch, r) # rs)))"

definition extractSymbol :: "Alert \<Rightarrow> string" where
  "extractSymbol a = (case map_of (al_Extra a) ''symbol'' of None \<Rightarrow> [] | Some s \<Rightarrow> s)"

datatype alert_error = NoChannels | AllChannelsFailed string

definition raised_entry :: "journal \<Rightarrow> Alert \<Rightarrow> logEntry" where
  "raised_entry J a = logLevel (jn_sanitize J) (jn_time J) ''CRITICAL'' ''alert_raised''
     [(''alert_level'', AlertLevel_String (al_Level a)), (''alert_msg'', al_Message a), (''symbol'', extractSymbol a)]"

definition SendAlert ::
  "journal \<Rightarrow> time \<Rightarrow> Alerter \<Rightarrow> Alert \<Rightarrow> post_answer list \<Rightarrow> alert_effect list \<times> alert_error option" where
  "SendAlert J now alr alert answers =
     (let a = (if al_Timestamp alert = zero_time then alert\<lparr>al_Timestamp := now\<rparr> else alert);
          raised = Journal (raised_entry J a)
      in if at_channels alr = []
         then ([raised, Journal (LogError (jn_sanitize J) (jn_time J) ''alert_delivery''
                 [(''channel'', ''none''), (''result'', ''no_channels_configured''), (''level'', AlertLevel_String (al_Level a)),
                  (''message'', al_Message a)])], Some NoChannels)
         else (case deliver_all J alr a (at_channels alr) answers of
                 (es, rs) \<Rightarrow> (raised # es,
                   if list_all (\<lambda>(_, r). r \<noteq> None) rs
                   then Some (AllChannelsFailed (case snd (last rs) of Some e \<Rightarrow> e | None \<Rightarrow> [])) else None)))"

definition SendCritical :: "journal \<Rightarrow> time \<Rightarrow> Alerter \<Rightarrow> string \<Rightarrow> (string, string) gomap \<Rightarrow> post_answer list \<Rightarrow>
    alert_effect list \<times> alert_error option" where
  "SendCritical J now alr message extra =
     SendAlert J now alr \<lparr>al_Level = CRITICAL, al_Message = message, al_Timestamp = now, al_Extra = extra\<rparr>"

definition SendWarning :: "journal \<Rightarrow> time \<Rightarrow> Alerter \<Rightarrow> string \<Rightarrow> (string, string) gomap \<Rightarrow> post_answer list \<Rightarrow>
    alert_effect list \<times> alert_error option" where
  "SendWarning J now alr message extra =
     SendAlert J now alr \<lparr>al_Level = WARNING, al_Message = message, al_Timestamp = now, al_Extra = extra\<rparr>"

text \<open>What is proved of the trace: the posts of one channel and how long they take.\<close>

definition posts_to :: "string \<Rightarrow> alert_effect list \<Rightarrow> nat" where
  "posts_to url es = length (filter (\<lambda>e. case e of Post u _ \<Rightarrow> u = url | _ \<Rightarrow> False) es)"

definition is_post :: "alert_effect \<Rightarrow> bool" where
  "is_post e = (case e of Post _ _ \<Rightarrow> True | _ \<Rightarrow> False)"

definition slept :: "alert_effect list \<Rightarrow> duration" where
  "slept es = sum_list (map (\<lambda>e. case e of Slept d \<Rightarrow> d | _ \<Rightarrow> 0) es)"

definition entries :: "alert_effect list \<Rightarrow> logEntry list" where
  "entries es = concat (map (\<lambda>e. case e of Journal l \<Rightarrow> [l] | _ \<Rightarrow> []) es)"

lemma trace_append [simp]:
  "slept (es @ fs) = slept es + slept fs" "entries (es @ fs) = entries es @ entries fs"
  "slept (Journal l # es) = slept es" "entries (Journal l # es) = l # entries es"
  "slept (Post u p # es) = slept es" "entries (Post u p # es) = entries es"
  "slept (Slept d # es) = d + slept es" "entries (Slept d # es) = entries es" "slept [] = 0" "entries [] = []"
  by (simp_all add: slept_def entries_def)

lemma is_post_simps [simp]: "is_post (Post u p)" "\<not> is_post (Journal l)" "\<not> is_post (Slept d)"
  by (simp_all add: is_post_def)

lemma sendWithRetry_trace:
  assumes "sendWithRetry itoa fmt ch a interval n answers = (es, r, rest)" and "0 \<le> interval"
  shows "entries es = [] \<and> 1 \<le> length (filter is_post es) \<and> length (filter is_post es) \<le> n + 1 \<and>
    (\<forall>e \<in> set es. is_post e \<longrightarrow> e = Post (channel_url ch) (channel_payload fmt a ch)) \<and>
    0 \<le> slept es \<and> slept es \<le> int n * interval \<and> (r \<noteq> None \<longrightarrow> length (filter is_post es) = n + 1)"
  using assms
proof (induction n arbitrary: answers es r rest)
  case 0
  then show ?case by (auto simp: sendWithRetry.simps [of _ _ _ _ _ 0] Let_def split: option.splits list.splits)
next
  case (Suc n)
  obtain ans answers' where w: "(case answers of [] \<Rightarrow> (PostError ''timeout'', []) | x # xs \<Rightarrow> (x, xs)) = (ans, answers')"
    by (metis surj_pair)
  let ?post = "Post (channel_url ch) (channel_payload fmt a ch)"
  show ?case
  proof (cases "send_error itoa ch ans")
    case None
    with Suc.prems w have "es = [?post]" "r = None" by (simp_all add: sendWithRetry.simps [of _ _ _ _ _ "Suc n"])
    with Suc.prems(2) show ?thesis by simp
  next
    case (Some e)
    obtain fs r' rest' where i: "sendWithRetry itoa fmt ch a interval n answers' = (fs, r', rest')" by (metis prod_cases3)
    with Suc.prems w Some have "es = ?post # Slept interval # fs" "r = r'" by (simp_all add: sendWithRetry.simps [of _ _ _ _ _ "Suc n"])
    with Suc.IH [OF i Suc.prems(2)] Suc.prems(2) show ?thesis by (auto simp: algebra_simps)
  qed
qed

lemma deliver_all_trace:
  "deliver_all J alr a chs answers = (es, rs) \<Longrightarrow> 0 \<le> at_retryInterval alr \<Longrightarrow>
    map fst rs = chs \<and> entries es = map (\<lambda>(ch, r). delivery_entry J (at_retries alr) a ch r) rs \<and>
    length chs \<le> length (filter is_post es) \<and> length (filter is_post es) \<le> length chs * (at_retries alr + 1) \<and>
    slept es \<le> int (length chs) * (int (at_retries alr) * at_retryInterval alr)"
proof (induction chs arbitrary: answers es rs)
  case (Cons ch chs)
  obtain fs r rest where s: "sendWithRetry (jn_itoa J) (jn_fmt J) ch a (at_retryInterval alr) (at_retries alr) answers = (fs, r, rest)"
    by (metis prod_cases3)
  obtain gs qs where d: "deliver_all J alr a chs rest = (gs, qs)" by (metis surj_pair)
  note t = sendWithRetry_trace [OF s Cons.prems(2)] and i = Cons.IH [OF d Cons.prems(2)]
  have split: "int (length (ch # chs)) * (int (at_retries alr) * at_retryInterval alr) =
      int (at_retries alr) * at_retryInterval alr + int (length chs) * (int (at_retries alr) * at_retryInterval alr)"
    by (simp add: algebra_simps)
  have "es = fs @ Journal (delivery_entry J (at_retries alr) a ch r) # gs" "rs = (ch, r) # qs" using Cons.prems(1) s d by auto
  moreover from t have "1 \<le> length (filter is_post fs)" by blast
  ultimately show ?case using t i split by (auto simp del: length_greater_0_conv)
qed simp


definition plain_journal :: journal where
  "plain_journal = \<lparr>jn_sanitize = (\<lambda>s. s), jn_time = ''t'', jn_itoa = (\<lambda>_. ''n''), jn_fmt = (\<lambda>_. ''t'')\<rparr>"

definition two_channels :: "AlertChannel list" where
  "two_channels = [NewTelegramChannel ''token'' ''chat'', DiscordChannel ''https://d'']"


text \<open>
  What a log entry shows does not depend on the value of any sensitive field, whatever the sanitizer does.
\<close>

theorem secrets_not_logged:
  assumes "same_public f g"
  shows "logLevel sanitize ts level msg f = logLevel sanitize ts level msg g"
    and "LogTradeAction sanitize ts (action\<lparr>ta_Extra := f\<rparr>) = LogTradeAction sanitize ts (action\<lparr>ta_Extra := g\<rparr>)"
  using redact_same_public [OF assms] by (simp_all add: logLevel_def LogTradeAction_def)

text \<open>The channels, however, are sent all fields as they are, and the error of a failed request, which is logged under an
  insensitive key, contains the URL with the token of the bot.\<close>

lemma secrets_are_sent:
  "Contains (formatAlertMessage (\<lambda>_. []) \<lparr>al_Level = CRITICAL, al_Message = [], al_Timestamp = 1, al_Extra = [(''api_key'', ''xyz'')]\<rparr>) ''api_key: xyz''"
  by code_simp

lemma token_is_logged:
  "map_option (\<lambda>e. Contains e ''token'') (map_of (le_Extra (delivery_entry plain_journal 3
     \<lparr>al_Level = CRITICAL, al_Message = [], al_Timestamp = 1, al_Extra = []\<rparr> (NewTelegramChannel ''token'' ''chat'')
     (send_error (\<lambda>_. []) (NewTelegramChannel ''token'' ''chat'') (PostError ''eof'')))) ''error'') = Some True"
  by code_simp

section \<open>Metrics\<close>

datatype metric_kind = Counter | Gauge | Histogram

text \<open>The registered metrics with the names of their labels.\<close>

definition metric_table :: "(string \<times> metric_kind \<times> string list) list" where
  "metric_table =
    [(''order_latency_ms'', Histogram, []), (''orders_total'', Counter, []),
     (''orders_per_second'', Gauge, []), (''error_total'', Counter, []),
     (''active_strategies'', Gauge, []), (''position_value'', Gauge, [''symbol'']),
     (''daily_pnl'', Gauge, []), (''grid_drift_total'', Counter, []),
     (''grid_drift_latency_ms'', Histogram, []), (''grid_drift_failure_total'', Counter, []),
     (''grid_drift_suppressed_total'', Counter, []), (''grid_service_up'', Gauge, []),
     (''grid_health_state'', Gauge, [''state'']), (''grid_state_directory_writable'', Gauge, []),
     (''grid_private_ws_state'', Gauge, [''state'']), (''grid_private_ws_liveness_age_seconds'', Gauge, []),
     (''grid_private_ws_reconnect_total'', Counter, []), (''grid_private_ws_subscription_ready'', Gauge, []),
     (''grid_reconciliation_last_success_timestamp'', Gauge, []), (''grid_reconciliation_lag_seconds'', Gauge, []),
     (''grid_reconciliation_duration_seconds'', Histogram, []), (''grid_reconciliation_outcome_total'', Counter, [''symbol'', ''result'']),
     (''grid_reconciliation_checked_total'', Counter, []), (''grid_reconciliation_diffs_total'', Counter, []),
     (''grid_reconciliation_compensated_total'', Counter, []), (''grid_fill_duplicates_suppressed_total'', Counter, []),
     (''grid_fill_gaps_total'', Counter, []), (''grid_outbox_backlog'', Gauge, []),
     (''grid_outbox_lease_recovery_total'', Counter, []), (''grid_counter_sell_initiation_latency_seconds'', Histogram, []),
     (''grid_counter_sell_outcome_total'', Counter, [''symbol'', ''outcome'']), (''grid_rebalancer_last_run_timestamp'', Gauge, []),
     (''grid_rebalancer_jitter_seconds'', Histogram, []), (''grid_rebalancer_reference_age_seconds'', Gauge, []),
     (''grid_rebalancer_stale_orders'', Gauge, []), (''grid_rebalancer_outcome_total'', Counter, [''symbol'', ''outcome'']),
     (''grid_safe_stop_active'', Gauge, [''scope'', ''reason_code'']), (''grid_alert_attempts_total'', Counter, []),
     (''grid_alert_delivery_outcome_total'', Counter, [''channel'', ''result''])]"

text \<open>Instructions to the library: the metric, the values of its labels, the number.\<close>

datatype metric_call =
    MetricInc string "string list" | MetricAdd string "string list" decimal | MetricSet string "string list" decimal
  | MetricObserve string "string list" decimal

text \<open>A call of the library panics for a name that is not registered or a wrong number of labels, and when a counter decreases.\<close>

definition registered :: "string \<Rightarrow> metric_kind \<Rightarrow> 'a list \<Rightarrow> bool" where
  "registered name kind labels = (case map_of metric_table name of None \<Rightarrow> False | Some (k, ls) \<Rightarrow> k = kind \<and> length labels = length ls)"

fun call_ok :: "metric_call \<Rightarrow> bool" where
  "call_ok (MetricInc name ls) = registered name Counter ls"
| "call_ok (MetricAdd name ls x) = (registered name Counter ls \<and> 0 \<le> x)"
| "call_ok (MetricSet name ls x) = registered name Gauge ls"
| "call_ok (MetricObserve name ls x) = registered name Histogram ls"

definition RecordOrderLatency :: "decimal \<Rightarrow> metric_call list" where
  "RecordOrderLatency durationMs = [MetricObserve ''order_latency_ms'' [] durationMs]"

definition IncrementErrorCount :: "metric_call list" where
  "IncrementErrorCount = [MetricInc ''error_total'' []]"

definition SetActiveStrategies :: "int \<Rightarrow> metric_call list" where
  "SetActiveStrategies n = [MetricSet ''active_strategies'' [] (of_int n)]"

definition SetPositionValue :: "string \<Rightarrow> decimal \<Rightarrow> metric_call list" where
  "SetPositionValue symbol value = [MetricSet ''position_value'' [symbol] value]"

definition SetDailyPnL :: "decimal \<Rightarrow> metric_call list" where
  "SetDailyPnL value = [MetricSet ''daily_pnl'' [] value]"

definition IncrementDriftCount :: "metric_call list" where
  "IncrementDriftCount = [MetricInc ''grid_drift_total'' []]"

definition RecordDriftLatency :: "decimal \<Rightarrow> metric_call list" where
  "RecordDriftLatency ms = [MetricObserve ''grid_drift_latency_ms'' [] ms]"

definition IncrementDriftFailure :: "metric_call list" where
  "IncrementDriftFailure = [MetricInc ''grid_drift_failure_total'' []]"

definition IncrementDriftSuppressed :: "metric_call list" where
  "IncrementDriftSuppressed = [MetricInc ''grid_drift_suppressed_total'' []]"

definition SetServiceUp :: "bool \<Rightarrow> metric_call list" where
  "SetServiceUp up = [MetricSet ''grid_service_up'' [] (if up then 1 else 0)]"

definition Metrics_SetStateDirectoryWritable :: "bool \<Rightarrow> metric_call list" where
  "Metrics_SetStateDirectoryWritable writable = [MetricSet ''grid_state_directory_writable'' [] (if writable then 1 else 0)]"

definition SetPrivateWSLivenessAge :: "decimal \<Rightarrow> metric_call list" where
  "SetPrivateWSLivenessAge seconds = [MetricSet ''grid_private_ws_liveness_age_seconds'' [] seconds]"

definition IncrementPrivateWSReconnect :: "metric_call list" where
  "IncrementPrivateWSReconnect = [MetricInc ''grid_private_ws_reconnect_total'' []]"

definition SetPrivateWSSubscriptionReady :: "bool \<Rightarrow> metric_call list" where
  "SetPrivateWSSubscriptionReady ready = [MetricSet ''grid_private_ws_subscription_ready'' [] (if ready then 1 else 0)]"

definition SetReconciliationLastSuccess :: "decimal \<Rightarrow> metric_call list" where
  "SetReconciliationLastSuccess unixSeconds = [MetricSet ''grid_reconciliation_last_success_timestamp'' [] unixSeconds]"

definition SetReconciliationLag :: "decimal \<Rightarrow> metric_call list" where
  "SetReconciliationLag seconds = [MetricSet ''grid_reconciliation_lag_seconds'' [] seconds]"

definition RecordReconciliationDuration :: "decimal \<Rightarrow> metric_call list" where
  "RecordReconciliationDuration seconds = [MetricObserve ''grid_reconciliation_duration_seconds'' [] seconds]"

definition RecordReconciliationOutcome :: "string \<Rightarrow> string \<Rightarrow> metric_call list" where
  "RecordReconciliationOutcome symbol result = [MetricInc ''grid_reconciliation_outcome_total'' [symbol, result]]"

definition IncrementReconciliationChecked :: "int \<Rightarrow> metric_call list" where
  "IncrementReconciliationChecked n = [MetricAdd ''grid_reconciliation_checked_total'' [] (of_int n)]"

definition IncrementReconciliationDiffs :: "int \<Rightarrow> metric_call list" where
  "IncrementReconciliationDiffs n = [MetricAdd ''grid_reconciliation_diffs_total'' [] (of_int n)]"

definition IncrementReconciliationCompensated :: "int \<Rightarrow> metric_call list" where
  "IncrementReconciliationCompensated n = [MetricAdd ''grid_reconciliation_compensated_total'' [] (of_int n)]"

definition IncrementFillDuplicatesSuppressed :: "metric_call list" where
  "IncrementFillDuplicatesSuppressed = [MetricInc ''grid_fill_duplicates_suppressed_total'' []]"

definition Metrics_IncrementFillGaps :: "metric_call list" where
  "Metrics_IncrementFillGaps = [MetricInc ''grid_fill_gaps_total'' []]"

definition Metrics_SetOutboxBacklog :: "decimal \<Rightarrow> metric_call list" where
  "Metrics_SetOutboxBacklog n = [MetricSet ''grid_outbox_backlog'' [] n]"

definition IncrementOutboxLeaseRecovery :: "metric_call list" where
  "IncrementOutboxLeaseRecovery = [MetricInc ''grid_outbox_lease_recovery_total'' []]"

definition RecordCounterSellInitiationLatency :: "decimal \<Rightarrow> metric_call list" where
  "RecordCounterSellInitiationLatency seconds = [MetricObserve ''grid_counter_sell_initiation_latency_seconds'' [] seconds]"

definition Metrics_RecordCounterSellOutcome :: "string \<Rightarrow> string \<Rightarrow> metric_call list" where
  "Metrics_RecordCounterSellOutcome symbol outcome = [MetricInc ''grid_counter_sell_outcome_total'' [symbol, outcome]]"

definition SetRebalancerLastRun :: "decimal \<Rightarrow> metric_call list" where
  "SetRebalancerLastRun unixSeconds = [MetricSet ''grid_rebalancer_last_run_timestamp'' [] unixSeconds]"

definition RecordRebalancerJitter :: "decimal \<Rightarrow> metric_call list" where
  "RecordRebalancerJitter seconds = [MetricObserve ''grid_rebalancer_jitter_seconds'' [] seconds]"

definition SetRebalancerRefAge :: "decimal \<Rightarrow> metric_call list" where
  "SetRebalancerRefAge seconds = [MetricSet ''grid_rebalancer_reference_age_seconds'' [] seconds]"

definition SetRebalancerStaleCount :: "decimal \<Rightarrow> metric_call list" where
  "SetRebalancerStaleCount n = [MetricSet ''grid_rebalancer_stale_orders'' [] n]"

definition RecordRebalancerOutcome :: "string \<Rightarrow> string \<Rightarrow> metric_call list" where
  "RecordRebalancerOutcome symbol outcome = [MetricInc ''grid_rebalancer_outcome_total'' [symbol, outcome]]"

definition SetSafeStopActive :: "string \<Rightarrow> string \<Rightarrow> bool \<Rightarrow> metric_call list" where
  "SetSafeStopActive scope reasonCode active = [MetricSet ''grid_safe_stop_active'' [scope, reasonCode] (if active then 1 else 0)]"

definition IncrementAlertAttempts :: "metric_call list" where
  "IncrementAlertAttempts = [MetricInc ''grid_alert_attempts_total'' []]"

definition RecordAlertDeliveryOutcome :: "string \<Rightarrow> string \<Rightarrow> metric_call list" where
  "RecordAlertDeliveryOutcome channel result = [MetricInc ''grid_alert_delivery_outcome_total'' [channel, result]]"

definition health_names :: "string list" where
  "health_names = [''healthy'', ''degraded/reconciling'', ''safe-stopped'']"

definition SetHealthState :: "string \<Rightarrow> metric_call list" where
  "SetHealthState state = map (\<lambda>s. MetricSet ''grid_health_state'' [s] (if s = state then 1 else 0)) health_names"

definition private_ws_names :: "string list" where
  "private_ws_names = [''disconnected'', ''connecting'', ''authenticating'', ''subscribing'', ''reconciling'', ''ready'', ''unhealthy'',
     ''backoff'', ''safe-stopped'']"

definition SetPrivateWSStateMetric :: "string \<Rightarrow> metric_call list" where
  "SetPrivateWSStateMetric state = map (\<lambda>s. MetricSet ''grid_private_ws_state'' [s] (if s = state then 1 else 0)) private_ws_names"

text \<open>The server's own state: the order count, its last reading and time, and whether the rate loop has been stopped.\<close>

record MetricsServer =
  ms_orderCount :: int64
  ms_lastSnap :: int64
  ms_lastSnapTime :: time
  ms_stopped :: bool

definition NewMetricsServer :: "time \<Rightarrow> MetricsServer" where
  "NewMetricsServer now = \<lparr>ms_orderCount = 0, ms_lastSnap = 0, ms_lastSnapTime = now, ms_stopped = False\<rparr>"

definition IncrementOrderCount :: "MetricsServer \<Rightarrow> MetricsServer \<times> metric_call list" where
  "IncrementOrderCount m = (m\<lparr>ms_orderCount := ms_orderCount m + 1\<rparr>, [MetricInc ''orders_total'' []])"

definition rate_tick :: "(decimal \<Rightarrow> decimal \<Rightarrow> decimal) \<Rightarrow> time \<Rightarrow> MetricsServer \<Rightarrow> MetricsServer \<times> metric_call list" where
  "rate_tick fdiv now m =
     (let elapsed = of_int (now - ms_lastSnapTime m) / 1000000000 in
      (m\<lparr>ms_lastSnap := ms_orderCount m, ms_lastSnapTime := now\<rparr>,
       if 0 < elapsed
       then [MetricSet ''orders_per_second'' [] (fdiv (of_int (sint (ms_orderCount m - ms_lastSnap m))) elapsed)] else []))"

definition Metrics_Stop :: "MetricsServer \<Rightarrow> MetricsServer outcome" where
  "Metrics_Stop m = (if ms_stopped m then Panicked else Returned (m\<lparr>ms_stopped := True\<rparr>))"

lemma metric_names_distinct: "distinct (map fst metric_table)"
  by code_simp

text \<open>The value that instructions leave in a gauge.\<close>

fun gauge_after :: "string \<Rightarrow> string list \<Rightarrow> metric_call list \<Rightarrow> decimal \<Rightarrow> decimal" where
  "gauge_after name ls [] x = x"
| "gauge_after name ls (MetricSet n l y # cs) x = gauge_after name ls cs (if n = name \<and> l = ls then y else x)"
| "gauge_after name ls (_ # cs) x = gauge_after name ls cs x"

text \<open>Whatever a health state was before, exactly the gauge of the new one is set.\<close>

lemma health_state_one_hot:
  assumes "s \<in> set health_names"
  shows "gauge_after ''grid_health_state'' [s] (SetHealthState (HealthState_String h)) x = (if s = HealthState_String h then 1 else 0)"
    and "HealthState_String h \<in> set health_names"
  using assms by (cases h; auto simp: health_names_def SetHealthState_def)+

text \<open>No state of the private socket has the name of a gauge: all gauges are 0 in every state.\<close>

lemma private_ws_gauges_never_set:
  "s \<in> set private_ws_names \<Longrightarrow>
    gauge_after ''grid_private_ws_state'' [s] (SetPrivateWSStateMetric (PrivateWSState_String st)) x = 0"
  by (cases st) (auto simp: private_ws_names_def SetPrivateWSStateMetric_def)

text \<open>Two batches of reconciliation results; a negative count panics.\<close>

lemma calls_ok:
  "list_all call_ok (SetHealthState s)" "list_all call_ok (SetPrivateWSStateMetric s)" "list_all call_ok (SetSafeStopActive scope reasonCode active)"
  "list_all call_ok (RecordReconciliationOutcome symbol result)" "list_all call_ok (Metrics_RecordCounterSellOutcome symbol outcome)"
  "list_all call_ok (RecordRebalancerOutcome symbol outcome)" "list_all call_ok (RecordAlertDeliveryOutcome channel result)"
  "list_all call_ok (SetPositionValue symbol value)" "list_all call_ok (snd (IncrementOrderCount m))"
  "list_all call_ok (snd (rate_tick fdiv now m))" "list_all call_ok (IncrementReconciliationChecked n) \<longleftrightarrow> 0 \<le> n"
  by (simp_all add: SetHealthState_def health_names_def SetPrivateWSStateMetric_def private_ws_names_def SetSafeStopActive_def
      RecordReconciliationOutcome_def Metrics_RecordCounterSellOutcome_def RecordRebalancerOutcome_def RecordAlertDeliveryOutcome_def
      SetPositionValue_def IncrementOrderCount_def rate_tick_def IncrementReconciliationChecked_def registered_def metric_table_def Let_def)

end
