(* ===== verification/Spec2Isabelle.thy ===== *)
theory Spec2Isabelle
  imports OrderBook Grid EmergencyStop SafeStop RiskManager ExtremeMarket DurableStore Outbox RingBuffer
    PrivateWS OrderManager Reconciliation Rebalancer GridStartup Scheduler RateLimiter Application
    Dispatcher MarketParser WSClient LegacyStore Migration Monitoring
begin

text \<open>
  Verification of \<^bold>\<open>okx-hft-grid\<close>, a Go trading bot that runs grid strategies on the OKX exchange.

  The program receives market data and private order events over WebSockets, keeps a local order
  book, lets strategies turn fills into counter orders, passes every order through risk checks, and
  records fills durably in SQLite so that a crash neither loses nor repeats a counter order. The
  theories follow these parts; each definition has the name of the Go function it models.

  \<^bold>\<open>Theories\<close>

  \<^item> \<open>Prelude\<close>: decimals as rationals with the rounding operations \<open>Div\<close> and \<open>Round\<close> as a parameter
    (\<open>declib\<close>, \<open>declib_ok\<close>), panics as \<open>outcome\<close>, Go maps as association lists, \<open>sort.Search\<close> as the
    binary search it is, \<open>sort.Slice\<close> as any permutation without inversions.
  \<^item> \<open>Models\<close>: the records and enumerations of \<open>src/pkg/models\<close>.
  \<^item> \<open>FillIdentity\<close>: \<open>src/pkg/models/recovery.go\<close>. The length-prefixed encoding that is hashed into
    fill keys, intent ids and client order ids is injective; the cumulative-delta protocol counts
    every quantity once.
  \<^item> \<open>OrderBook\<close>: \<open>src/internal/orderbook\<close>. Books stay sorted, an in-sequence delta implements the
    fold of abstract updates on price maps, a sequence gap empties the book and waits for a snapshot;
    VWAP, mid price, spread and the anomaly detector. The locales \<open>price_priority\<close> and \<open>book_side\<close> are
    interpreted on both directions of the book.
  \<^item> \<open>Grid\<close>: \<open>src/internal/strategy/grid.go\<close>, \<open>grid_orders.go\<close>, \<open>grid_fill.go\<close>. Level calculation,
    initial orders, counter orders of fills with the profit and position checks, bounded retry.
  \<^item> \<open>EmergencyStop\<close>, \<open>SafeStop\<close>, \<open>RiskManager\<close>, \<open>ExtremeMarket\<close>: \<open>src/internal/risk\<close>. The latched
    emergency stop, the trading gate with its symbol and global safe stops, the pre-trade checks with
    the sliding rate window, and the price and spread windows (locale \<open>window_history\<close>).
  \<^item> \<open>DurableStore\<close>, \<open>Outbox\<close>: \<open>src/internal/persistence/fill_ledger.go\<close>, \<open>transaction.go\<close>,
    \<open>outbox.go\<close>, \<open>reconciliation_watermark.go\<close>. The tables are association lists, a transaction is a
    function from a database to an error or a new database. \<open>run_call\<close> executes one call of the store
    while any statement may fail and any commit may be lost or applied with an error; the invariant
    \<open>durable_inv\<close> holds in every state \<open>store_reachable\<close> from the empty database.
  \<^item> \<open>RingBuffer\<close>: \<open>src/internal/persistence/ring_buffer.go\<close> as an instance of the locale \<open>bounded_log\<close>.
  \<^item> \<open>Json\<close>, \<open>PrivateWS\<close>: \<open>src/internal/marketdata/private_ws_state_machine.go\<close>. The connection
    sequence, the read, heartbeat, watchdog and reconnect loops as inputs of \<open>pws_step\<close>, with the
    goroutines and the cancellation of their contexts in the state.
  \<^item> \<open>OrderManager\<close>, \<open>OrderNormalization\<close>, \<open>ApiClient\<close>, \<open>ExchangeGateway\<close>, \<open>Coordinator\<close>,
    \<open>Reconciliation\<close>, \<open>Rebalancer\<close>, \<open>FillHandler\<close>, \<open>Inventory\<close>: \<open>src/internal/execution\<close>. The order table
    and its lifecycle; instrument rules and the normalisation of orders; requests with their retries;
    the gateway with its pagination; reconciliation cycles, their scheduling as the step relation
    \<open>coord_step\<close>, and what they do to the durable store (locale \<open>fill_store\<close>, interpreted on it); the
    rebalancer, whose effects are a trace; counter orders of the fill handler; positions and the
    momentum filter.
  \<^item> \<open>GridDrift\<close>, \<open>MeanReversion\<close>, \<open>Scheduler\<close>: the rest of \<open>src/internal/strategy\<close>. Drift decisions and
    their execution, averages and signals over a ring buffer, and the table of strategies with
    market updates, fills and the risk check of every signal.
  \<^item> \<open>RateLimiter\<close>: \<open>src/internal/ratelimiter\<close>. Token buckets with rounded arithmetic, and the blocking
    acquisition as \<open>partial_function\<close> whose return is proved.
  \<^item> \<open>ReconnectingClient\<close>, \<open>PrivateWSClient\<close>: \<open>src/internal/marketdata/ws_private.go\<close>, the client that
    production runs. The locale \<open>reconnecting\<close> states what every step of a self-healing connection
    keeps; it is interpreted on the client, whose goroutines are part of its state.
  \<^item> \<open>Slices\<close>: Go slices as references into a heap of buffers, for the two parts whose behaviour depends on
    slices that share a buffer: \<open>append\<close>, removal in place, and what they do to other slices.
  \<^item> \<open>WSClient\<close>, \<open>MarketParser\<close>, \<open>Dispatcher\<close>: \<open>src/internal/marketdata/ws_client.go\<close>, \<open>parser.go\<close>,
    \<open>dispatcher.go\<close>. The public client is the second interpretation of \<open>reconnecting\<close>, with the points between
    its locked sections where goroutines overtake each other; its subscriptions live in a heap. The
    parser turns messages into validated ticks; the dispatcher delivers events to handlers that may be
    registered and unregistered meanwhile.
  \<^item> \<open>LegacyStore\<close>, \<open>Migration\<close>: \<open>src/internal/persistence/store.go\<close>, \<open>migration.go\<close>. The tables of orders,
    positions and strategy states with the round trip of what is saved, and the migration of the
    legacy database as a function on a file system in which every call may fail.
  \<^item> \<open>Health\<close>: \<open>src/internal/monitor/health.go\<close>. The health states are a linear order and the reported
    state is the maximum of what the parts report.
  \<^item> \<open>Monitoring\<close>: \<open>src/internal/monitor/logger.go\<close>, \<open>alerter.go\<close>, \<open>metrics.go\<close>. Log entries and their redaction, the
    delivery of alerts as a trace that begins with the journal, and the metrics as instructions to the
    Prometheus library with the conditions under which it panics.
  \<^item> \<open>Configuration\<close>, \<open>NetworkGuard\<close>: \<open>src/internal/config\<close>. Loading, validation and summary of the
    configuration, and the guards that restrict which hosts a process may reach (locale
    \<open>endpoint_guard\<close>, interpreted on both guards).
  \<^item> \<open>MarketMaker\<close>, \<open>GridStartup\<close>, \<open>Application\<close>: \<open>src/cmd/main.go\<close>. The market-making loop, the cleanup and
    the initial grid, and the program as a whole: construction, the start as a sequence of phases
    each of which may fail or panic, the handlers of emergency stops, and the shutdown.

  \<^bold>\<open>Interaction.\<close> \<open>Application\<close> composes the parts the way the program does: restored state and the
  reconciliation of the start go to the order table, the private client's connection opens the trading
  gate, the gate guards the initial grid and the fill callback. The risk manager guards the signals of
  the scheduler. Fills reach the store as observations whose keys \<open>FillIdentity\<close> computes; the outbox
  hands the resulting intents to dispatch workers; the coordinator finds the fills the stream missed;
  the rebalancer asks the gate and, when an outcome is uncertain, closes it.

  \<^bold>\<open>Parameters and bounds.\<close> Everything outside the repository is an argument: decimal division and
  rounding, SHA-256 and \<open>decimal.String\<close>, the unstable sort, the rounding of float operations and the
  power of geometric grids, the square root of the standard deviation, \<open>url.Parse\<close> and \<open>net\<close>, SQLite's
  and the file system's failures, the growth of slices, HTTP answers, the peer of a connection and the clock. Loops are structural or have a
  measure: pagination loops the pages left, requests a budget of retries, the reconciliation of the
  start the time until its deadline. Only the loop of \<open>TryAcquire\<close> may run forever, on a clock that
  stands still; it is a \<open>partial_function\<close>. \<open>int64\<close> values whose wrap-around can be seen are words.

  \<^bold>\<open>Not modelled:\<close> the JSON text of log entries and the metrics endpoint, regular expressions of the log
  sanitizer, the event loop of the integration tests and the backtest. The other theories leave out their log
  and metrics calls. In \<open>main.go\<close>: flags, signals and panic recovery, and methods
  kept for older tests. Locks are not modelled: each locked operation is one step.
\<close>

end
